(* ===== verification/Prelude.thy ===== *)
theory Prelude
  imports Complex_Main "HOL-Library.Word"
begin

text \<open>
  Shared vocabulary of the development: machine integers, results, the combinators the
  validators are written with, byte strings with the parts of Rust's \<open>str\<close> the sources
  use (UTF-8 validity, \<open>chars\<close>, \<open>trim\<close>, \<open>replace\<close>), \<open>f64\<close> values with their special
  cases, the lookup lemmas for \<open>iter().find(..)\<close>, and two interfaces: a machine whose
  step keeps an invariant, and a keyed lookup table.
\<close>

named_theorems ok_iff \<open>when a validator accepts, as a conjunction\<close>
named_theorems f64_simps \<open>evaluation of \<open>f64\<close> operations\<close>

section \<open>Machine integers\<close>

type_synonym u8 = "8 word"
type_synonym u16 = "16 word"
type_synonym u32 = "32 word"
type_synonym u64 = "64 word"
type_synonym i32 = "32 word"
type_synonym i64 = "64 word"

definition saturating_succ :: "u32 \<Rightarrow> u32" where
  "saturating_succ n = (if n = - 1 then - 1 else n + 1)"

lemma unat_saturating_succ:
  "unat (saturating_succ n) = min (unat n + 1) (2 ^ 32 - 1)"
proof (cases "n = - 1")
  case True
  then show ?thesis by (simp add: saturating_succ_def unsigned_minus_1_eq_mask mask_eq_exp_minus_1)
next
  case False
  then have "n + 1 \<noteq> 0" by (metis add.right_inverse add_left_cancel add.commute)
  then have "unat (n + 1) = Suc (unat n)" by (simp add: unatSuc add.commute)
  moreover have "unat (n + 1) < 2 ^ 32" using unsigned_less [of "n + 1", where ?'a = nat] by simp
  ultimately show ?thesis using False by (simp add: saturating_succ_def)
qed

lemma saturating_succ_le: "n \<le> saturating_succ n"
  using unsigned_less [of n, where ?'a = nat] by (simp add: word_le_nat_alt unat_saturating_succ)

section \<open>Results and validators\<close>

type_synonym ('a, 'e) result = "'e + 'a"

abbreviation Ok :: "'a \<Rightarrow> 'e + 'a" where "Ok \<equiv> Inr"
abbreviation Err :: "'e \<Rightarrow> 'e + 'a" where "Err \<equiv> Inl"

text \<open>\<open>if bad { return Err(e) }\<close> is \<open>reject bad e\<close>; a sequence of such statements, and of
  calls followed by \<open>?\<close>, is \<open>checks\<close>: the first error wins.\<close>

definition reject :: "bool \<Rightarrow> 'e \<Rightarrow> (unit, 'e) result" where
  "reject b e = (if b then Err e else Ok ())"

fun checks :: "(unit, 'e) result list \<Rightarrow> (unit, 'e) result" where
  "checks [] = Ok ()"
| "checks (r # rs) = (case r of Err e \<Rightarrow> Err e | Ok _ \<Rightarrow> checks rs)"

declare checks.simps(2) [simp del]

definition on_some :: "'a option \<Rightarrow> ('a \<Rightarrow> (unit, 'e) result) \<Rightarrow> (unit, 'e) result" where
  "on_some m f = (case m of None \<Rightarrow> Ok () | Some a \<Rightarrow> f a)"

text \<open>\<open>x.ok_or_else(..)?\<close> followed by the rest of the function.\<close>

definition require :: "'a option \<Rightarrow> 'e \<Rightarrow> ('a \<Rightarrow> ('b, 'e) result) \<Rightarrow> ('b, 'e) result" where
  "require m e f = (case m of None \<Rightarrow> Err e | Some a \<Rightarrow> f a)"

definition bind_ok :: "('a, 'e) result \<Rightarrow> ('a \<Rightarrow> ('b, 'e) result) \<Rightarrow> ('b, 'e) result" where
  "bind_ok r f = (case r of Err e \<Rightarrow> Err e | Ok a \<Rightarrow> f a)"

definition map_err :: "('e \<Rightarrow> 'f) \<Rightarrow> ('a, 'e) result \<Rightarrow> ('a, 'f) result" where
  "map_err g r = (case r of Err e \<Rightarrow> Err (g e) | Ok a \<Rightarrow> Ok a)"

definition is_ok :: "('a, 'e) result \<Rightarrow> bool" where
  "is_ok r = (case r of Err _ \<Rightarrow> False | Ok _ \<Rightarrow> True)"

lemma unit_result_ok: "r = Ok () \<longleftrightarrow> is_ok r" for r :: "(unit, 'e) result"
  by (cases r) (auto simp: is_ok_def)

lemma is_ok_simps [simp]: "is_ok (Ok a)" "\<not> is_ok (Err e)"
  by (auto simp: is_ok_def)

lemma is_ok_reject [ok_iff]: "is_ok (reject b e) \<longleftrightarrow> \<not> b"
  by (simp add: reject_def)

lemma is_ok_checks_Nil [ok_iff]: "is_ok (checks [])"
  by simp

lemma is_ok_checks_Cons [ok_iff]: "is_ok (checks (r # rs)) \<longleftrightarrow> is_ok r \<and> is_ok (checks rs)"
  by (cases r) (auto simp: checks.simps(2))

lemma is_ok_checks_append [ok_iff]: "is_ok (checks (rs @ ss)) \<longleftrightarrow> is_ok (checks rs) \<and> is_ok (checks ss)"
  by (induction rs) (auto simp: is_ok_checks_Cons)

lemma is_ok_checks: "is_ok (checks rs) \<longleftrightarrow> (\<forall>r \<in> set rs. is_ok r)"
  by (induction rs) (auto simp: is_ok_checks_Cons)

lemma is_ok_checks_map [ok_iff]: "is_ok (checks (map f xs)) \<longleftrightarrow> (\<forall>x \<in> set xs. is_ok (f x))"
  by (simp add: is_ok_checks)

lemma is_ok_on_some [ok_iff]: "is_ok (on_some m f) \<longleftrightarrow> (\<forall>a. m = Some a \<longrightarrow> is_ok (f a))"
  by (cases m) (auto simp: on_some_def)

lemma is_ok_require [ok_iff]: "is_ok (require m e f) \<longleftrightarrow> (\<exists>a. m = Some a \<and> is_ok (f a))"
  by (cases m) (auto simp: require_def)

lemma is_ok_map_err [ok_iff]: "is_ok (map_err g r) \<longleftrightarrow> is_ok r"
  by (cases r) (auto simp: map_err_def)

lemma is_ok_bind_ok [ok_iff]: "is_ok (bind_ok r f) \<longleftrightarrow> (\<exists>a. r = Ok a \<and> is_ok (f a))"
  by (cases r) (auto simp: bind_ok_def)

lemma is_ok_if [ok_iff]:
  "is_ok (if b then r else s) \<longleftrightarrow> (b \<longrightarrow> is_ok r) \<and> (\<not> b \<longrightarrow> is_ok s)"
  by simp

text \<open>The error a sequence of checks reports is that of its first failing check.\<close>

lemma checks_Err_iff:
  "checks rs = Err e \<longleftrightarrow> (\<exists>i < length rs. rs ! i = Err e \<and> (\<forall>j < i. is_ok (rs ! j)))"
proof (induction rs)
  case Nil
  then show ?case by simp
next
  case (Cons r rs)
  have ex: "(\<exists>i < length (r # rs). (r # rs) ! i = Err e \<and> (\<forall>j < i. is_ok ((r # rs) ! j)))
    \<longleftrightarrow> r = Err e \<or> is_ok r \<and> (\<exists>i < length rs. rs ! i = Err e \<and> (\<forall>j < i. is_ok (rs ! j)))"
    by (auto simp: less_Suc_eq_0_disj nth_Cons' split: if_splits) (metis Suc_pred diff_Suc_1 not_less_eq zero_less_Suc neq0_conv)+
  show ?case
    unfolding ex Cons.IH [symmetric] by (cases r) (auto simp: checks.simps(2))
qed

section \<open>Lookups\<close>

text \<open>\<open>iter().find(|x| key(x) == k)\<close>, the way every named lookup of the sources is written.\<close>

definition find_by :: "('a \<Rightarrow> 'k) \<Rightarrow> 'k \<Rightarrow> 'a list \<Rightarrow> 'a option" where
  "find_by key k xs = find (\<lambda>x. key x = k) xs"

lemma find_by_Some_mem: "find_by key k xs = Some x \<Longrightarrow> x \<in> set xs \<and> key x = k"
  by (auto simp: find_by_def find_Some_iff)

lemma find_by_None: "find_by key k xs = None \<longleftrightarrow> k \<notin> key ` set xs"
  by (auto simp: find_by_def find_None_iff)

lemma find_by_Nil [simp]: "find_by key k [] = None"
  by (simp add: find_by_def)

lemma find_by_Cons [simp]:
  "find_by key k (x # xs) = (if key x = k then Some x else find_by key k xs)"
  by (simp add: find_by_def)

lemma find_by_distinct:
  assumes "distinct (map key xs)" and "x \<in> set xs"
  shows "find_by key (key x) xs = Some x"
  using assms by (induction xs) auto

text \<open>The loop \<open>for x in xs \{ if !seen.insert(key(x)) \{ return Err(..) \} body \}\<close>.\<close>

fun insert_all :: "('a \<Rightarrow> 'k) \<Rightarrow> ('a \<Rightarrow> 'e) \<Rightarrow> ('a \<Rightarrow> (unit, 'e) result) \<Rightarrow> 'k set \<Rightarrow> 'a list \<Rightarrow> (unit, 'e) result" where
  "insert_all key dup body seen [] = Ok ()"
| "insert_all key dup body seen (x # xs) =
     (if key x \<in> seen then Err (dup x)
      else case body x of Err e \<Rightarrow> Err e
        | Ok _ \<Rightarrow> insert_all key dup body (insert (key x) seen) xs)"

lemma is_ok_insert_all:
  "is_ok (insert_all key dup body seen xs) \<longleftrightarrow>
     distinct (map key xs) \<and> key ` set xs \<inter> seen = {} \<and> (\<forall>x \<in> set xs. is_ok (body x))"
proof (induction xs arbitrary: seen)
  case Nil
  then show ?case by simp
next
  case (Cons x xs)
  then show ?case by (cases "body x") auto
qed

locale keyed_table =
  fixes key :: "'a \<Rightarrow> 'k" and entries :: "'t \<Rightarrow> 'a list" and lookup :: "'t \<Rightarrow> 'k \<Rightarrow> 'a option"
    and wf :: "'t \<Rightarrow> bool"
  assumes lookup_find: "lookup t k = find_by key k (entries t)"
    and wf_distinct: "wf t \<Longrightarrow> distinct (map key (entries t))"
begin

lemma lookup_sound: "lookup t k = Some x \<Longrightarrow> x \<in> set (entries t) \<and> key x = k"
  unfolding lookup_find by (rule find_by_Some_mem)

lemma lookup_complete: "wf t \<Longrightarrow> x \<in> set (entries t) \<Longrightarrow> lookup t (key x) = Some x"
  unfolding lookup_find by (rule find_by_distinct [OF wf_distinct])

lemma lookup_eq: "wf t \<Longrightarrow> lookup t k = Some x \<longleftrightarrow> x \<in> set (entries t) \<and> key x = k"
  using lookup_sound lookup_complete by blast

lemma lookup_inj: "wf t \<Longrightarrow> x \<in> set (entries t) \<Longrightarrow> y \<in> set (entries t) \<Longrightarrow> key x = key y \<Longrightarrow> x = y"
  by (metis lookup_complete option.inject)

end

section \<open>Machines with an invariant\<close>

text \<open>A deterministic component is a step function over an event; its runs are folds.\<close>

fun run_steps :: "('s \<Rightarrow> 'ev \<Rightarrow> 's) \<Rightarrow> 's \<Rightarrow> 'ev list \<Rightarrow> 's" where
  "run_steps step s [] = s"
| "run_steps step s (e # es) = run_steps step (step s e) es"

lemma run_steps_append: "run_steps step s (es @ fs) = run_steps step (run_steps step s es) fs"
  by (induction es arbitrary: s) auto

locale invariant_machine =
  fixes step :: "'s \<Rightarrow> 'ev \<Rightarrow> 's" and inv :: "'s \<Rightarrow> bool"
  assumes step_inv: "inv s \<Longrightarrow> inv (step s e)"
begin

lemma run_inv: "inv s \<Longrightarrow> inv (run_steps step s es)"
proof (induction es arbitrary: s)
  case Nil
  then show ?case by simp
next
  case (Cons e es)
  from Cons.IH [OF step_inv [OF Cons.prems]] show ?case by simp
qed

lemma run_inv_every: "inv s \<Longrightarrow> inv (run_steps step s (take n es))"
  by (rule run_inv)

end

locale monotone_machine =
  fixes step :: "'s \<Rightarrow> 'ev \<Rightarrow> 's" and measure_of :: "'s \<Rightarrow> 'o::preorder"
  assumes step_mono: "measure_of s \<le> measure_of (step s e)"
begin

lemma run_mono: "measure_of s \<le> measure_of (run_steps step s es)"
proof (induction es arbitrary: s)
  case Nil
  show ?case by simp
next
  case (Cons e es)
  from order_trans [OF step_mono Cons.IH] show ?case by simp
qed

end

section \<open>Byte strings and UTF-8\<close>

text \<open>A Rust \<open>String\<close> or \<open>&str\<close> is its UTF-8 byte sequence; HOL's \<open>char\<close> is a byte.\<close>

definition byte :: "char \<Rightarrow> nat" where
  "byte c = of_char c"

definition is_cont :: "char \<Rightarrow> bool" where
  "is_cont c \<longleftrightarrow> 128 \<le> byte c \<and> byte c \<le> 191"

text \<open>\<open>core::str::from_utf8\<close>: the well-formed byte sequences of the Unicode standard.\<close>

fun utf8_valid :: "string \<Rightarrow> bool" where
  "utf8_valid [] = True"
| "utf8_valid (a # s) =
     (if byte a < 128 then utf8_valid s
      else if 194 \<le> byte a \<and> byte a \<le> 223 then
        (case s of b # s1 \<Rightarrow> is_cont b \<and> utf8_valid s1 | _ \<Rightarrow> False)
      else if 224 \<le> byte a \<and> byte a \<le> 239 then
        (case s of b # c # s2 \<Rightarrow>
           is_cont b \<and> (byte a = 224 \<longrightarrow> 160 \<le> byte b) \<and> (byte a = 237 \<longrightarrow> byte b \<le> 159)
           \<and> is_cont c \<and> utf8_valid s2
         | _ \<Rightarrow> False)
      else if 240 \<le> byte a \<and> byte a \<le> 244 then
        (case s of b # c # d # s3 \<Rightarrow>
           is_cont b \<and> (byte a = 240 \<longrightarrow> 144 \<le> byte b) \<and> (byte a = 244 \<longrightarrow> byte b \<le> 143)
           \<and> is_cont c \<and> is_cont d \<and> utf8_valid s3
         | _ \<Rightarrow> False)
      else False)"

text \<open>Number of bytes of the scalar a lead byte starts.\<close>

definition utf8_width :: "char \<Rightarrow> nat" where
  "utf8_width c = (if byte c < 128 then 1 else if byte c \<le> 223 then 2
     else if byte c \<le> 239 then 3 else 4)"

text \<open>\<open>str::chars\<close>, each scalar given by its bytes.\<close>

function utf8_chars :: "string \<Rightarrow> string list" where
  "utf8_chars [] = []"
| "utf8_chars (a # s) =
     (a # take (utf8_width a - 1) s) # utf8_chars (drop (utf8_width a - 1) s)"
  by pat_completeness auto
termination
  by (relation "measure length") auto

lemma concat_utf8_chars: "concat (utf8_chars s) = s"
  by (induction s rule: utf8_chars.induct) auto

lemma utf8_chars_ascii: "\<forall>c \<in> set s. byte c < 128 \<Longrightarrow> utf8_chars s = map (\<lambda>c. [c]) s"
  by (induction s rule: utf8_chars.induct) (auto simp: utf8_width_def)

lemma utf8_valid_ascii: "\<forall>c \<in> set s. byte c < 128 \<Longrightarrow> utf8_valid s"
  by (induction s) auto

text \<open>\<open>char::is_control\<close> (general category Cc) and \<open>char::to_ascii_lowercase\<close>.\<close>

definition is_control :: "string \<Rightarrow> bool" where
  "is_control ch = (case ch of
     [c] \<Rightarrow> byte c < 32 \<or> byte c = 127
   | [c, d] \<Rightarrow> byte c = 194 \<and> 128 \<le> byte d \<and> byte d \<le> 159
   | _ \<Rightarrow> False)"

definition to_ascii_lowercase :: "string \<Rightarrow> string" where
  "to_ascii_lowercase = map (\<lambda>c. if 65 \<le> byte c \<and> byte c \<le> 90 then char_of (byte c + 32) else c)"

text \<open>The UTF-8 encodings of the scalars with the property White\_Space, which
  \<open>str::trim\<close> strips from both ends.\<close>

definition white_space :: "string list" where
  "white_space =
     [[CHR 0x09], [CHR 0x0A], [CHR 0x0B], [CHR 0x0C], [CHR 0x0D], [CHR 0x20],
      [CHR 0xC2, CHR 0x85], [CHR 0xC2, CHR 0xA0], [CHR 0xE1, CHR 0x9A, CHR 0x80],
      [CHR 0xE2, CHR 0x80, CHR 0x80], [CHR 0xE2, CHR 0x80, CHR 0x81],
      [CHR 0xE2, CHR 0x80, CHR 0x82], [CHR 0xE2, CHR 0x80, CHR 0x83],
      [CHR 0xE2, CHR 0x80, CHR 0x84], [CHR 0xE2, CHR 0x80, CHR 0x85],
      [CHR 0xE2, CHR 0x80, CHR 0x86], [CHR 0xE2, CHR 0x80, CHR 0x87],
      [CHR 0xE2, CHR 0x80, CHR 0x88], [CHR 0xE2, CHR 0x80, CHR 0x89],
      [CHR 0xE2, CHR 0x80, CHR 0x8A], [CHR 0xE2, CHR 0x80, CHR 0xA8],
      [CHR 0xE2, CHR 0x80, CHR 0xA9], [CHR 0xE2, CHR 0x80, CHR 0xAF],
      [CHR 0xE2, CHR 0x81, CHR 0x9F], [CHR 0xE3, CHR 0x80, CHR 0x80]]"

definition leading :: "string list \<Rightarrow> string \<Rightarrow> string option" where
  "leading ws s = find (\<lambda>w. w \<noteq> [] \<and> take (length w) s = w) ws"

function strip_front :: "string list \<Rightarrow> string \<Rightarrow> string" where
  "strip_front ws s = (case leading ws s of None \<Rightarrow> s | Some w \<Rightarrow> strip_front ws (drop (length w) s))"
  by pat_completeness auto
termination
proof (relation "measure (\<lambda>(ws, s). length s)")
  fix ws s w
  assume "leading ws s = Some w"
  then have "w \<noteq> []" and "take (length w) s = w" by (auto simp: leading_def find_Some_iff)
  then have "length s > 0" and "length w > 0" by auto
  then show "((ws, drop (length w) s), ws, s) \<in> measure (\<lambda>(ws, s). length s)" by simp
qed simp

declare strip_front.simps [simp del]

definition trim_start :: "string \<Rightarrow> string" where
  "trim_start s = strip_front white_space s"

definition trim_end :: "string \<Rightarrow> string" where
  "trim_end s = rev (strip_front (map rev white_space) (rev s))"

definition trim :: "string \<Rightarrow> string" where
  "trim s = trim_end (trim_start s)"

text \<open>\<open>s.trim().is_empty()\<close>\<close>

definition blank :: "string \<Rightarrow> bool" where
  "blank s \<longleftrightarrow> trim s = []"

text \<open>A byte below 33 or from 128 on may be stripped; every other byte survives.\<close>

lemma strip_front_keeps:
  assumes "c \<in> set s" and "\<forall>w \<in> set ws. c \<notin> set w"
  shows "c \<in> set (strip_front ws s)"
  using assms
proof (induction ws s rule: strip_front.induct)
  case (1 ws s)
  show ?case
  proof (cases "leading ws s")
    case None
    with "1.prems" show ?thesis by (subst strip_front.simps) simp
  next
    case (Some w)
    then have w: "w \<in> set ws" and "take (length w) s = w"
      by (auto simp: leading_def find_Some_iff)
    then have "s = w @ drop (length w) s" by (metis append_take_drop_id)
    with "1.prems" w have "c \<in> set (drop (length w) s)" by (metis Un_iff set_append)
    with "1.IH" Some "1.prems" show ?thesis by (subst strip_front.simps) simp
  qed
qed

lemma white_space_bytes:
  "32 < byte c \<Longrightarrow> byte c < 128 \<Longrightarrow> w \<in> set white_space \<Longrightarrow> c \<notin> set w"
  by (auto simp: white_space_def byte_def)

lemma trim_keeps:
  assumes "c \<in> set s" and "32 < byte c" and "byte c < 128"
  shows "c \<in> set (trim s)"
proof -
  have "\<forall>w \<in> set white_space. c \<notin> set w" using assms white_space_bytes by blast
  with assms(1) have "c \<in> set (trim_start s)"
    unfolding trim_start_def by (intro strip_front_keeps) auto
  moreover have "\<forall>w \<in> set (map rev white_space). c \<notin> set w"
    using \<open>\<forall>w \<in> set white_space. c \<notin> set w\<close> by auto
  ultimately have "c \<in> set (strip_front (map rev white_space) (rev (trim_start s)))"
    by (intro strip_front_keeps) auto
  then show ?thesis by (simp add: trim_def trim_end_def)
qed

lemma not_blankI: "c \<in> set s \<Longrightarrow> 32 < byte c \<Longrightarrow> byte c < 128 \<Longrightarrow> \<not> blank s"
  using trim_keeps by (fastforce simp: blank_def)

lemma blank_Nil [simp]: "blank []"
proof -
  have "leading ws [] = None" for ws by (auto simp: leading_def find_None_iff)
  then have "strip_front ws [] = []" for ws by (subst strip_front.simps) simp
  then show ?thesis by (simp add: blank_def trim_def trim_start_def trim_end_def)
qed

text \<open>\<open>s.replace(a, b)\<close> for one-byte \<open>a\<close> and \<open>b\<close>.\<close>

definition replace_char :: "char \<Rightarrow> char \<Rightarrow> string \<Rightarrow> string" where
  "replace_char a b = map (\<lambda>c. if c = a then b else c)"

text \<open>Decimal display of an unsigned integer.\<close>

fun show_nat :: "nat \<Rightarrow> string" where
  "show_nat n = (if n < 10 then [char_of (48 + n)] else show_nat (n div 10) @ [char_of (48 + n mod 10)])"

declare show_nat.simps [simp del]

text \<open>Splitting a slash-separated name is unambiguous when the first part has no slash.\<close>

lemma append_sep_inject:
  assumes "c \<notin> set xs" and "c \<notin> set ys" and "xs @ c # us = ys @ c # vs"
  shows "xs = ys \<and> us = vs"
  using assms by (induction xs arbitrary: ys) (case_tac [!] ys, auto)

section \<open>Floating-point values\<close>

text \<open>An \<open>f64\<close> is a finite value, an infinity or NaN. Arithmetic on finite values is exact:
  rounding, overflow to infinity and the sign of zero are not modelled; the special values
  behave as IEEE 754 prescribes.\<close>

datatype f64 = Fin real | PInf | NInf | NaN

definition is_finite :: "f64 \<Rightarrow> bool" where
  "is_finite x = (case x of Fin _ \<Rightarrow> True | _ \<Rightarrow> False)"

definition finite_val :: "f64 \<Rightarrow> real" where
  "finite_val x = (case x of Fin r \<Rightarrow> r | _ \<Rightarrow> 0)"

fun f_neg :: "f64 \<Rightarrow> f64" where
  "f_neg (Fin x) = Fin (- x)"
| "f_neg PInf = NInf"
| "f_neg NInf = PInf"
| "f_neg NaN = NaN"

fun f_add :: "f64 \<Rightarrow> f64 \<Rightarrow> f64" where
  "f_add (Fin x) (Fin y) = Fin (x + y)"
| "f_add NaN _ = NaN"
| "f_add _ NaN = NaN"
| "f_add PInf NInf = NaN"
| "f_add NInf PInf = NaN"
| "f_add PInf _ = PInf"
| "f_add _ PInf = PInf"
| "f_add NInf _ = NInf"
| "f_add _ NInf = NInf"

definition f_sub :: "f64 \<Rightarrow> f64 \<Rightarrow> f64" where
  "f_sub x y = f_add x (f_neg y)"

text \<open>The product of an infinity and a value takes the sign of the value.\<close>

fun f_inf_times :: "bool \<Rightarrow> f64 \<Rightarrow> f64" where
  "f_inf_times pos (Fin y) = (if y = 0 then NaN else if (0 < y) = pos then PInf else NInf)"
| "f_inf_times pos PInf = (if pos then PInf else NInf)"
| "f_inf_times pos NInf = (if pos then NInf else PInf)"
| "f_inf_times pos NaN = NaN"

fun f_mul :: "f64 \<Rightarrow> f64 \<Rightarrow> f64" where
  "f_mul (Fin x) (Fin y) = Fin (x * y)"
| "f_mul NaN _ = NaN"
| "f_mul _ NaN = NaN"
| "f_mul PInf y = f_inf_times True y"
| "f_mul NInf y = f_inf_times False y"
| "f_mul x PInf = f_inf_times True x"
| "f_mul x NInf = f_inf_times False x"

fun f_div :: "f64 \<Rightarrow> f64 \<Rightarrow> f64" where
  "f_div (Fin x) (Fin y) =
     (if y = 0 then (if x = 0 then NaN else if 0 < x then PInf else NInf) else Fin (x / y))"
| "f_div NaN _ = NaN"
| "f_div _ NaN = NaN"
| "f_div (Fin _) _ = Fin 0"
| "f_div PInf (Fin y) = (if 0 \<le> y then PInf else NInf)"
| "f_div NInf (Fin y) = (if 0 \<le> y then NInf else PInf)"
| "f_div _ _ = NaN"

fun f_abs :: "f64 \<Rightarrow> f64" where
  "f_abs (Fin x) = Fin \<bar>x\<bar>"
| "f_abs NaN = NaN"
| "f_abs _ = PInf"

fun f_le :: "f64 \<Rightarrow> f64 \<Rightarrow> bool" where
  "f_le NaN _ = False"
| "f_le _ NaN = False"
| "f_le (Fin x) (Fin y) = (x \<le> y)"
| "f_le NInf _ = True"
| "f_le _ PInf = True"
| "f_le _ _ = False"

fun f_lt :: "f64 \<Rightarrow> f64 \<Rightarrow> bool" where
  "f_lt NaN _ = False"
| "f_lt _ NaN = False"
| "f_lt (Fin x) (Fin y) = (x < y)"
| "f_lt PInf _ = False"
| "f_lt _ NInf = False"
| "f_lt _ _ = True"

text \<open>\<open>f64::max\<close>, \<open>f64::min\<close> ignore a NaN operand; \<open>f64::clamp\<close> keeps a NaN receiver.\<close>

definition f_max :: "f64 \<Rightarrow> f64 \<Rightarrow> f64" where
  "f_max x y = (if x = NaN then y else if y = NaN then x else if f_le x y then y else x)"

definition f_min :: "f64 \<Rightarrow> f64 \<Rightarrow> f64" where
  "f_min x y = (if x = NaN then y else if y = NaN then x else if f_le x y then x else y)"

definition f_clamp :: "f64 \<Rightarrow> f64 \<Rightarrow> f64 \<Rightarrow> f64" where
  "f_clamp x lo hi = (if f_lt x lo then lo else if f_lt hi x then hi else x)"

fun f_sqrt :: "f64 \<Rightarrow> f64" where
  "f_sqrt (Fin x) = (if x < 0 then NaN else Fin (sqrt x))"
| "f_sqrt PInf = PInf"
| "f_sqrt _ = NaN"

fun f_acos :: "f64 \<Rightarrow> f64" where
  "f_acos (Fin x) = (if \<bar>x\<bar> \<le> 1 then Fin (arccos x) else NaN)"
| "f_acos _ = NaN"

fun f_sin :: "f64 \<Rightarrow> f64" where
  "f_sin (Fin x) = Fin (sin x)"
| "f_sin _ = NaN"

lemma is_finite_simps [simp]:
  "is_finite (Fin r)" "\<not> is_finite PInf" "\<not> is_finite NInf" "\<not> is_finite NaN"
  by (auto simp: is_finite_def)

lemma is_finite_iff: "is_finite x \<longleftrightarrow> (\<exists>r. x = Fin r)"
  by (cases x) auto

lemma finite_val_Fin [simp]: "finite_val (Fin r) = r"
  by (simp add: finite_val_def)

lemma f_sub_Fin [simp]: "f_sub (Fin x) (Fin y) = Fin (x - y)"
  by (simp add: f_sub_def)

lemma f_max_Fin [simp]: "f_max (Fin x) (Fin y) = Fin (max x y)"
  by (simp add: f_max_def max_def)

lemma f_min_Fin [simp]: "f_min (Fin x) (Fin y) = Fin (min x y)"
  by (simp add: f_min_def min_def)

lemma f_clamp_Fin: "f_clamp (Fin x) (Fin lo) (Fin hi) = Fin (if x < lo then lo else if hi < x then hi else x)"
  by (simp add: f_clamp_def)

end
