(* ===== verification/Messages.thy ===== *)
theory Messages
  imports Prelude
begin

unbundle bit_operations_syntax

text \<open>
  The shared-memory message types of \<^verbatim>\<open>rollio-types/src/messages.rs\<close>: fixed-capacity strings
  and vectors, packet headers with their flag bits, control events and episode messages.
  The interface \<open>bounded_payload\<close> states what every fixed-capacity payload promises: reading
  back what was written gives the first \<open>cap\<close> elements.
\<close>

section \<open>Limits\<close>

definition MAX_JOINTS :: nat where "MAX_JOINTS = 16"
definition MAX_DOF :: nat where "MAX_DOF = 15"
definition MAX_PARALLEL :: nat where "MAX_PARALLEL = 2"
definition MAX_METRICS :: nat where "MAX_METRICS = 32"

section \<open>Fixed-capacity strings\<close>

record fixed_string =
  fs_data :: string
  fs_len :: u32

text \<open>\<open>dst[..n].copy_from_slice(src)\<close> on an array.\<close>

definition overwrite :: "'a list \<Rightarrow> 'a list \<Rightarrow> 'a list" where
  "overwrite src dst = src @ drop (length src) dst"

definition fixed_string_new :: "nat \<Rightarrow> string \<Rightarrow> fixed_string" where
  "fixed_string_new cap bytes =
     (let n = min (length bytes) cap
      in \<lparr>fs_data = overwrite (take n bytes) (replicate cap (CHR 0x00)), fs_len = of_nat n\<rparr>)"

text \<open>\<open>&self.data[..self.len as usize]\<close> panics when \<open>len\<close> exceeds the array (\<open>None\<close>);
  \<open>from_utf8(..).unwrap_or("")\<close> turns invalid UTF-8 into the empty string.\<close>

definition fixed_string_as_str :: "fixed_string \<Rightarrow> string option" where
  "fixed_string_as_str fs =
     (if unat (fs_len fs) \<le> length (fs_data fs)
      then let bytes = take (unat (fs_len fs)) (fs_data fs)
        in Some (if utf8_valid bytes then bytes else [])
      else None)"

definition fixed_string_default :: "nat \<Rightarrow> fixed_string" where
  "fixed_string_default cap = \<lparr>fs_data = replicate cap (CHR 0x00), fs_len = 0\<rparr>"

definition FixedString64_new :: "string \<Rightarrow> fixed_string" where
  "FixedString64_new = fixed_string_new 64"

definition FixedString256_new :: "string \<Rightarrow> fixed_string" where
  "FixedString256_new = fixed_string_new 256"

definition FixedString4096_new :: "string \<Rightarrow> fixed_string" where
  "FixedString4096_new = fixed_string_new 4096"

definition FixedString262144_new :: "string \<Rightarrow> fixed_string" where
  "FixedString262144_new = fixed_string_new 262144"

definition FixedString64_default :: fixed_string where
  "FixedString64_default = fixed_string_default 64"

definition FixedString256_default :: fixed_string where
  "FixedString256_default = fixed_string_default 256"

definition FixedString4096_default :: fixed_string where
  "FixedString4096_default = fixed_string_default 4096"

definition FixedString262144_default :: fixed_string where
  "FixedString262144_default = fixed_string_default 262144"

definition SetupCommandMessage_new :: "string \<Rightarrow> fixed_string" where
  "SetupCommandMessage_new = FixedString4096_new"

definition SetupStateMessage_new :: "string \<Rightarrow> fixed_string" where
  "SetupStateMessage_new = FixedString262144_new"

section \<open>Pixel formats and device payloads\<close>

datatype pixel_format = Px_Rgb24 | Px_Bgr24 | Px_Yuyv | Px_Mjpeg | Px_Depth16 | Px_Gray8
  | Px_H264AnnexB | Px_Nv12

fun bytes_per_pixel :: "pixel_format \<Rightarrow> nat" where
  "bytes_per_pixel Px_Rgb24 = 3"
| "bytes_per_pixel Px_Bgr24 = 3"
| "bytes_per_pixel Px_Yuyv = 2"
| "bytes_per_pixel Px_Mjpeg = 0"
| "bytes_per_pixel Px_Depth16 = 2"
| "bytes_per_pixel Px_Gray8 = 1"
| "bytes_per_pixel Px_H264AnnexB = 0"
| "bytes_per_pixel Px_Nv12 = 0"

datatype device_status = DS_Okay | DS_Degraded | DS_Error

datatype device_channel_mode = DM_Disabled | DM_Enabled | DM_FreeDrive | DM_CommandFollowing
  | DM_Identifying

fun device_channel_mode_as_str :: "device_channel_mode \<Rightarrow> string" where
  "device_channel_mode_as_str DM_Disabled = ''disabled''"
| "device_channel_mode_as_str DM_Enabled = ''enabled''"
| "device_channel_mode_as_str DM_FreeDrive = ''free-drive''"
| "device_channel_mode_as_str DM_CommandFollowing = ''command-following''"
| "device_channel_mode_as_str DM_Identifying = ''identifying''"

text \<open>\<open>JointVector15\<close> and \<open>ParallelVector2\<close> differ only in their capacity.\<close>

record value_vector =
  vv_timestamp_us :: u64
  vv_len :: u32
  vv_values :: "f64 list"

definition value_vector_from_slice :: "nat \<Rightarrow> u64 \<Rightarrow> f64 list \<Rightarrow> value_vector" where
  "value_vector_from_slice cap ts values =
     (let n = min (length values) cap
      in \<lparr>vv_timestamp_us = ts, vv_len = of_nat n,
          vv_values = overwrite (take n values) (replicate cap (Fin 0))\<rparr>)"

definition JointVector15_from_slice :: "u64 \<Rightarrow> f64 list \<Rightarrow> value_vector" where
  "JointVector15_from_slice = value_vector_from_slice MAX_DOF"

definition ParallelVector2_from_slice :: "u64 \<Rightarrow> f64 list \<Rightarrow> value_vector" where
  "ParallelVector2_from_slice = value_vector_from_slice MAX_PARALLEL"

definition JointVector15_default :: value_vector where
  "JointVector15_default = \<lparr>vv_timestamp_us = 0, vv_len = 0, vv_values = replicate MAX_DOF (Fin 0)\<rparr>"

definition ParallelVector2_default :: value_vector where
  "ParallelVector2_default = \<lparr>vv_timestamp_us = 0, vv_len = 0, vv_values = replicate MAX_PARALLEL (Fin 0)\<rparr>"

text \<open>\<open>payload.values[..payload.len as usize]\<close>\<close>

definition value_vector_slice :: "value_vector \<Rightarrow> f64 list" where
  "value_vector_slice v = take (unat (vv_len v)) (vv_values v)"

record pose7 =
  pose_timestamp_us :: u64
  pose_values :: "f64 list"

definition Pose7_default :: pose7 where
  "Pose7_default = \<lparr>pose_timestamp_us = 0, pose_values = replicate 7 (Fin 0)\<rparr>"

text \<open>\<open>JointMitCommand15\<close> and \<open>ParallelMitCommand2\<close>.\<close>

record mit_command =
  mit_timestamp_us :: u64
  mit_len :: u32
  mit_position :: "f64 list"
  mit_velocity :: "f64 list"
  mit_effort :: "f64 list"
  mit_kp :: "f64 list"
  mit_kd :: "f64 list"

definition mit_default :: "nat \<Rightarrow> mit_command" where
  "mit_default cap = \<lparr>mit_timestamp_us = 0, mit_len = 0, mit_position = replicate cap (Fin 0),
     mit_velocity = replicate cap (Fin 0), mit_effort = replicate cap (Fin 0),
     mit_kp = replicate cap (Fin 0), mit_kd = replicate cap (Fin 0)\<rparr>"

definition JointMitCommand15_default :: mit_command where
  "JointMitCommand15_default = mit_default MAX_DOF"

definition ParallelMitCommand2_default :: mit_command where
  "ParallelMitCommand2_default = mit_default MAX_PARALLEL"

section \<open>Encoded packets\<close>

datatype encoded_packet_kind = Packet | EndOfStream

datatype encoded_codec_id = CodecId_H264 | CodecId_H265 | CodecId_Av1 | CodecId_Rvl | CodecId_Mjpg

definition ENCODED_PACKET_FLAG_KEYFRAME :: u32 where
  "ENCODED_PACKET_FLAG_KEYFRAME = push_bit 0 1"

definition ENCODED_PACKET_FLAG_SCALING_LOCKED :: u32 where
  "ENCODED_PACKET_FLAG_SCALING_LOCKED = push_bit 2 1"

record encoded_packet_header =
  eph_kind :: encoded_packet_kind
  eph_codec :: encoded_codec_id
  eph_flags :: u32
  eph_width :: u32
  eph_height :: u32
  eph_pixel_format :: pixel_format
  eph_reserved0 :: u32
  eph_time_base_num :: u32
  eph_time_base_den :: u32
  eph_pts_us :: i64
  eph_dts_us :: i64
  eph_duration_us :: i64
  eph_sequence_number :: u64
  eph_source_timestamp_us :: u64
  eph_source_frame_index :: u64
  eph_episode_index :: u32
  eph_payload_len :: u32

definition EncodedPacketHeader_default :: encoded_packet_header where
  "EncodedPacketHeader_default = \<lparr>eph_kind = Packet, eph_codec = CodecId_H264, eph_flags = 0,
     eph_width = 0, eph_height = 0, eph_pixel_format = Px_Rgb24, eph_reserved0 = 0,
     eph_time_base_num = 1, eph_time_base_den = 1000000, eph_pts_us = 0, eph_dts_us = 0,
     eph_duration_us = 0, eph_sequence_number = 0, eph_source_timestamp_us = 0,
     eph_source_frame_index = 0, eph_episode_index = 0, eph_payload_len = 0\<rparr>"

definition is_keyframe :: "encoded_packet_header \<Rightarrow> bool" where
  "is_keyframe h \<longleftrightarrow> eph_flags h AND ENCODED_PACKET_FLAG_KEYFRAME \<noteq> 0"

definition set_keyframe :: "bool \<Rightarrow> encoded_packet_header \<Rightarrow> encoded_packet_header" where
  "set_keyframe v h =
     (if v then h\<lparr>eph_flags := eph_flags h OR ENCODED_PACKET_FLAG_KEYFRAME\<rparr>
      else h\<lparr>eph_flags := eph_flags h AND NOT ENCODED_PACKET_FLAG_KEYFRAME\<rparr>)"

definition is_scaling_locked :: "encoded_packet_header \<Rightarrow> bool" where
  "is_scaling_locked h \<longleftrightarrow> eph_flags h AND ENCODED_PACKET_FLAG_SCALING_LOCKED \<noteq> 0"

definition set_scaling_locked :: "bool \<Rightarrow> encoded_packet_header \<Rightarrow> encoded_packet_header" where
  "set_scaling_locked v h =
     (if v then h\<lparr>eph_flags := eph_flags h OR ENCODED_PACKET_FLAG_SCALING_LOCKED\<rparr>
      else h\<lparr>eph_flags := eph_flags h AND NOT ENCODED_PACKET_FLAG_SCALING_LOCKED\<rparr>)"

datatype preview_control = SetSize u32 u32 | RequestKeyframe

datatype camera_control = CameraRequestKeyframe

record camera_frame_header =
  cfh_timestamp_us :: u64
  cfh_width :: u32
  cfh_height :: u32
  cfh_pixel_format :: pixel_format
  cfh_frame_index :: u64

definition CameraFrameHeader_default :: camera_frame_header where
  "CameraFrameHeader_default = \<lparr>cfh_timestamp_us = 0, cfh_width = 0, cfh_height = 0,
     cfh_pixel_format = Px_Rgb24, cfh_frame_index = 0\<rparr>"

text \<open>\<open>usize\<close> multiplication on a 64-bit target (release profile: it wraps).\<close>

definition payload_size :: "camera_frame_header \<Rightarrow> 64 word" where
  "payload_size h = ucast (cfh_width h) * ucast (cfh_height h)
     * of_nat (bytes_per_pixel (cfh_pixel_format h))"

section \<open>Robot states and commands\<close>

datatype end_effector_status = EE_Unknown | EE_Disabled | EE_Enabled

fun end_effector_status_as_str :: "end_effector_status \<Rightarrow> string" where
  "end_effector_status_as_str EE_Unknown = ''unknown''"
| "end_effector_status_as_str EE_Disabled = ''disabled''"
| "end_effector_status_as_str EE_Enabled = ''enabled''"

record robot_state =
  rs_timestamp_ns :: u64
  rs_num_joints :: u32
  rs_positions :: "f64 list"
  rs_velocities :: "f64 list"
  rs_efforts :: "f64 list"
  rs_ee_pose :: "f64 list"
  rs_has_ee_pose :: bool
  rs_end_effector_status :: end_effector_status
  rs_has_end_effector_status :: bool
  rs_end_effector_feedback_valid :: bool

definition RobotState_default :: robot_state where
  "RobotState_default = \<lparr>rs_timestamp_ns = 0, rs_num_joints = 0,
     rs_positions = replicate MAX_JOINTS (Fin 0), rs_velocities = replicate MAX_JOINTS (Fin 0),
     rs_efforts = replicate MAX_JOINTS (Fin 0), rs_ee_pose = replicate 7 (Fin 0),
     rs_has_ee_pose = False, rs_end_effector_status = EE_Unknown,
     rs_has_end_effector_status = False, rs_end_effector_feedback_valid = False\<rparr>"

datatype command_mode = CM_Joint | CM_Cartesian

record robot_command =
  rc_timestamp_ns :: u64
  rc_mode :: command_mode
  rc_num_joints :: u32
  rc_joint_targets :: "f64 list"
  rc_cartesian_target :: "f64 list"

definition RobotCommand_default :: robot_command where
  "RobotCommand_default = \<lparr>rc_timestamp_ns = 0, rc_mode = CM_Joint, rc_num_joints = 0,
     rc_joint_targets = replicate MAX_JOINTS (Fin 0), rc_cartesian_target = replicate 7 (Fin 0)\<rparr>"

section \<open>Control and episode messages\<close>

datatype control_event =
    RecordingStart u32 u64
  | RecordingStop u32 u64
  | EpisodeKeep u32
  | EpisodeDiscard u32
  | Shutdown
  | ModeSwitch u32

datatype episode_command = Start | Stop | Keep | Discard

fun episode_command_as_str :: "episode_command \<Rightarrow> string" where
  "episode_command_as_str Start = ''episode_start''"
| "episode_command_as_str Stop = ''episode_stop''"
| "episode_command_as_str Keep = ''episode_keep''"
| "episode_command_as_str Discard = ''episode_discard''"

datatype episode_state = Idle | Recording | Pending

fun episode_state_as_str :: "episode_state \<Rightarrow> string" where
  "episode_state_as_str Idle = ''idle''"
| "episode_state_as_str Recording = ''recording''"
| "episode_state_as_str Pending = ''pending''"

record episode_status =
  es_state :: episode_state
  es_episode_count :: u32
  es_elapsed_ms :: u64

definition EpisodeStatus_default :: episode_status where
  "EpisodeStatus_default = \<lparr>es_state = Idle, es_episode_count = 0, es_elapsed_ms = 0\<rparr>"

record metric_entry =
  me_name :: fixed_string
  me_value :: f64

definition MetricEntry_default :: metric_entry where
  "MetricEntry_default = \<lparr>me_name = FixedString64_default, me_value = Fin 0\<rparr>"

record metrics_report =
  mr_process_id :: fixed_string
  mr_timestamp_ns :: u64
  mr_num_entries :: u32
  mr_entries :: "metric_entry list"

definition MetricsReport_default :: metrics_report where
  "MetricsReport_default = \<lparr>mr_process_id = FixedString64_default, mr_timestamp_ns = 0,
     mr_num_entries = 0, mr_entries = replicate MAX_METRICS MetricEntry_default\<rparr>"

record warning_event =
  we_process_id :: fixed_string
  we_metric_name :: fixed_string
  we_current_value :: f64
  we_explanation :: fixed_string

record episode_ready =
  er_episode_index :: u32
  er_staging_dir :: fixed_string

record episode_stored =
  est_episode_index :: u32
  est_output_path :: fixed_string

record episode_dropped =
  ed_episode_index :: u32
  ed_reason :: fixed_string

record backpressure_event =
  bp_process_id :: fixed_string
  bp_queue_name :: fixed_string

section \<open>Fixed-capacity payloads keep a prefix\<close>

locale bounded_payload =
  fixes cap :: nat and make :: "'a list \<Rightarrow> 'p" and view :: "'p \<Rightarrow> 'a list"
  assumes view_make: "view (make xs) = take cap xs"
begin

lemma view_make_short: "length xs \<le> cap \<Longrightarrow> view (make xs) = xs"
  by (simp add: view_make)

lemma view_make_length: "length (view (make xs)) = min (length xs) cap"
  by (simp add: view_make)

lemma view_make_twice: "view (make (view (make xs))) = view (make xs)"
  by (simp add: view_make)

end

lemma overwrite_take: "n \<le> length xs \<Longrightarrow> take n (overwrite (take n xs) ys) = take n xs"
  by (simp add: overwrite_def)

lemma length_overwrite: "length xs \<le> length ys \<Longrightarrow> length (overwrite xs ys) = length ys"
  by (simp add: overwrite_def)

lemma unat_min_cap: "cap < 2 ^ 32 \<Longrightarrow> unat (of_nat (min n cap) :: u32) = min n cap"
  by (simp add: unsigned_of_nat take_bit_nat_eq_self)

text \<open>The bytes an \<open>as_str\<close> call looks at, before UTF-8 is checked.\<close>

definition fixed_string_bytes :: "fixed_string \<Rightarrow> string" where
  "fixed_string_bytes fs = take (unat (fs_len fs)) (fs_data fs)"

lemma fixed_string_bytes_new:
  "cap < 2 ^ 32 \<Longrightarrow> fixed_string_bytes (fixed_string_new cap s) = take cap s"
  by (simp add: fixed_string_bytes_def fixed_string_new_def Let_def unat_min_cap overwrite_take)
     (simp add: min_def)

lemma fixed_string_as_str_new:
  assumes "cap < 2 ^ 32"
  shows "fixed_string_as_str (fixed_string_new cap s)
    = Some (if utf8_valid (take cap s) then take cap s else [])"
proof -
  have "unat (fs_len (fixed_string_new cap s)) \<le> length (fs_data (fixed_string_new cap s))"
    using assms by (simp add: fixed_string_new_def Let_def unat_min_cap overwrite_def)
  with fixed_string_bytes_new [OF assms, of s] show ?thesis
    by (simp add: fixed_string_as_str_def fixed_string_bytes_def Let_def)
qed

interpretation fs64: bounded_payload 64 FixedString64_new fixed_string_bytes
  by unfold_locales (simp add: FixedString64_new_def fixed_string_bytes_new)

interpretation fs256: bounded_payload 256 FixedString256_new fixed_string_bytes
  by unfold_locales (simp add: FixedString256_new_def fixed_string_bytes_new)

interpretation fs4096: bounded_payload 4096 FixedString4096_new fixed_string_bytes
  by unfold_locales (simp add: FixedString4096_new_def fixed_string_bytes_new)

interpretation fs262144: bounded_payload 262144 FixedString262144_new fixed_string_bytes
  by unfold_locales (simp add: FixedString262144_new_def fixed_string_bytes_new)

lemma value_vector_slice_from_slice:
  "cap < 2 ^ 32 \<Longrightarrow> value_vector_slice (value_vector_from_slice cap ts xs) = take cap xs"
  by (simp add: value_vector_slice_def value_vector_from_slice_def Let_def unat_min_cap overwrite_take)
     (simp add: min_def)

interpretation jv15: bounded_payload MAX_DOF "JointVector15_from_slice ts" value_vector_slice for ts
  by unfold_locales
     (simp add: JointVector15_from_slice_def value_vector_slice_from_slice MAX_DOF_def)

interpretation pv2: bounded_payload MAX_PARALLEL "ParallelVector2_from_slice ts" value_vector_slice for ts
  by unfold_locales
     (simp add: ParallelVector2_from_slice_def value_vector_slice_from_slice MAX_PARALLEL_def)

text \<open>A payload's arrays have their declared size, and its length field stays inside.\<close>

definition value_vector_wf :: "nat \<Rightarrow> value_vector \<Rightarrow> bool" where
  "value_vector_wf cap v \<longleftrightarrow> length (vv_values v) = cap \<and> unat (vv_len v) \<le> cap"

lemma value_vector_from_slice_wf:
  "cap < 2 ^ 32 \<Longrightarrow> value_vector_wf cap (value_vector_from_slice cap ts xs)"
  by (simp add: value_vector_wf_def value_vector_from_slice_def Let_def unat_min_cap length_overwrite)

section \<open>Flag bits\<close>

lemma bit_keyframe: "bit ENCODED_PACKET_FLAG_KEYFRAME n \<longleftrightarrow> n = 0"
  by (simp add: ENCODED_PACKET_FLAG_KEYFRAME_def bit_1_iff)

lemma bit_scaling_locked: "bit ENCODED_PACKET_FLAG_SCALING_LOCKED n \<longleftrightarrow> n = 2"
  unfolding ENCODED_PACKET_FLAG_SCALING_LOCKED_def bit_push_bit_iff bit_1_iff
  by (auto simp: possible_bit_def)

lemmas flag_bits = bit_keyframe bit_scaling_locked

lemma and_flag_zero: "x AND flag \<noteq> 0 \<longleftrightarrow> (\<exists>n. bit x n \<and> bit flag n)" for x flag :: u32
proof -
  have "n < 32" if "bit x n" for n
    using bit_imp_le_length [OF that] by simp
  then show ?thesis
    using bit_eq_iff [of "x AND flag" 0] by (auto simp: bit_and_iff)
qed

lemma is_keyframe_bit: "is_keyframe h \<longleftrightarrow> bit (eph_flags h) 0"
  by (simp add: is_keyframe_def and_flag_zero flag_bits)

lemma is_scaling_locked_bit: "is_scaling_locked h \<longleftrightarrow> bit (eph_flags h) 2"
  by (simp add: is_scaling_locked_def and_flag_zero flag_bits)

lemma bit_set_keyframe:
  "bit (eph_flags (set_keyframe v h)) n \<longleftrightarrow> (if n = 0 then v else bit (eph_flags h) n)"
  using bit_imp_le_length [of "eph_flags h" n]
  by (auto simp: set_keyframe_def bit_simps flag_bits)

lemma bit_set_scaling_locked:
  "bit (eph_flags (set_scaling_locked v h)) n \<longleftrightarrow> (if n = 2 then v else bit (eph_flags h) n)"
  using bit_imp_le_length [of "eph_flags h" n]
  by (auto simp: set_scaling_locked_def bit_simps flag_bits)

section \<open>Properties\<close>

text \<open>A string that fits a fixed-capacity field and is valid UTF-8 is read back
  unchanged, whatever the capacity below \<open>u32::MAX\<close>.\<close>

theorem fixed_string_round_trip:
  assumes "cap < 2 ^ 32" and "length s \<le> cap" and "utf8_valid s"
  shows "fixed_string_as_str (fixed_string_new cap s) = Some s"
  using assms by (simp add: fixed_string_as_str_new)

theorem fixed_string_round_trip_witness:
  "fixed_string_as_str (fixed_string_new 64 ''encoder.cam'') = Some ''encoder.cam''"
  by (rule fixed_string_round_trip) (simp, simp, code_simp)

text \<open>When the cut at the capacity falls inside a two-byte scalar, the whole field
  reads as the empty string: the text before the cut is lost as well.\<close>

theorem fixed_string_split_scalar:
  assumes "cap < 2 ^ 32" and "Suc (length s) = cap" and "\<forall>c \<in> set s. byte c < 128" and "194 \<le> byte a" and "byte a \<le> 223"
  shows "fixed_string_as_str (fixed_string_new cap (s @ a # rest)) = Some []"
proof -
  have "\<not> utf8_valid (s @ [a])" using assms(3-5) by (induction s) auto
  moreover have "take cap (s @ a # rest) = s @ [a]" using assms(2) by (simp add: take_Cons')
  ultimately show ?thesis using fixed_string_as_str_new [OF assms(1)] by simp
qed

theorem fixed_string_split_scalar_witness:
  "fixed_string_as_str (fixed_string_new 4 ([CHR ''c'', CHR ''a'', CHR ''f''] @ CHR 0xC3 # [CHR 0xA9])) = Some []"
  by (rule fixed_string_split_scalar) (simp_all add: byte_def)

text \<open>The two flag bits of a packet header are independent: each setter gives its own
  flag the requested value and leaves every other bit and every other field alone.\<close>

theorem packet_flags_independent:
  "is_keyframe (set_keyframe v h) = v \<and> is_scaling_locked (set_keyframe v h) = is_scaling_locked h
   \<and> is_scaling_locked (set_scaling_locked v h) = v \<and> is_keyframe (set_scaling_locked v h) = is_keyframe h
   \<and> set_keyframe v h = h\<lparr>eph_flags := eph_flags (set_keyframe v h)\<rparr>
   \<and> set_scaling_locked v h = h\<lparr>eph_flags := eph_flags (set_scaling_locked v h)\<rparr>
   \<and> (\<forall>n. n \<noteq> 0 \<and> n \<noteq> 2 \<longrightarrow>
        bit (eph_flags (set_keyframe v (set_scaling_locked w h))) n = bit (eph_flags h) n)"
  by (simp add: is_keyframe_bit is_scaling_locked_bit bit_set_keyframe bit_set_scaling_locked)
    (simp add: set_keyframe_def set_scaling_locked_def)

theorem packet_flags_independent_witness:
  "is_keyframe (set_keyframe True (set_scaling_locked True EncodedPacketHeader_default))
   \<and> bit (eph_flags (set_keyframe True (set_scaling_locked True EncodedPacketHeader_default))) 5
       = bit (eph_flags EncodedPacketHeader_default) 5"
  using packet_flags_independent [of True EncodedPacketHeader_default True]
    packet_flags_independent [of True "set_scaling_locked True EncodedPacketHeader_default" True] by simp

lemma bytes_per_pixel_le: "bytes_per_pixel px \<le> 3"
  by (cases px) simp_all

text \<open>For frames of up to 2 ^ 31 pixels per side the payload size of a frame header is the
  product of the sides and the bytes per pixel, without wrap-around.\<close>

theorem payload_size_exact:
  assumes "unat (cfh_width h) \<le> 2 ^ 31" and "unat (cfh_height h) \<le> 2 ^ 31"
  shows "unat (payload_size h) = unat (cfh_width h) * unat (cfh_height h) * bytes_per_pixel (cfh_pixel_format h)"
proof -
  have "unat (cfh_width h) * unat (cfh_height h) \<le> 2 ^ 31 * 2 ^ 31" using assms by (rule mult_le_mono)
  then have "unat (cfh_width h) * unat (cfh_height h) * bytes_per_pixel (cfh_pixel_format h) \<le> 2 ^ 62 * 3"
    using mult_le_mono [OF _ bytes_per_pixel_le [of "cfh_pixel_format h"]] by fastforce
  then have "unat (cfh_width h) * unat (cfh_height h) * bytes_per_pixel (cfh_pixel_format h) < 2 ^ 64" by simp
  moreover have "payload_size h = of_nat (unat (cfh_width h) * unat (cfh_height h) * bytes_per_pixel (cfh_pixel_format h))"
    by (simp add: payload_size_def)
  ultimately show ?thesis by (simp add: unsigned_of_nat take_bit_nat_eq_self del: of_nat_mult)
qed

theorem payload_size_exact_witness:
  "unat (payload_size (CameraFrameHeader_default\<lparr>cfh_width := 640, cfh_height := 480\<rparr>)) = 921600"
  using payload_size_exact [of "CameraFrameHeader_default\<lparr>cfh_width := 640, cfh_height := 480\<rparr>"]
  by (simp add: CameraFrameHeader_default_def)

text \<open>A joint vector built from a slice holds its first fifteen values, a parallel
  vector the first two; both have a length field inside their array and keep the timestamp.\<close>

theorem value_vector_keeps_prefix:
  "value_vector_slice (JointVector15_from_slice ts xs) = take 15 xs
   \<and> value_vector_wf 15 (JointVector15_from_slice ts xs) \<and> vv_timestamp_us (JointVector15_from_slice ts xs) = ts
   \<and> value_vector_slice (ParallelVector2_from_slice ts xs) = take 2 xs
   \<and> value_vector_wf 2 (ParallelVector2_from_slice ts xs) \<and> vv_timestamp_us (ParallelVector2_from_slice ts xs) = ts"
  using jv15.view_make [of ts xs] pv2.view_make [of ts xs]
    value_vector_from_slice_wf [of 15 ts xs] value_vector_from_slice_wf [of 2 ts xs]
  by (simp add: MAX_DOF_def MAX_PARALLEL_def JointVector15_from_slice_def ParallelVector2_from_slice_def)
    (simp add: value_vector_from_slice_def Let_def)

end
