(* ===== verification/Config_Types.thy ===== *)
theory Config_Types
  imports Messages
begin

text \<open>
  The leaf sections of the project configuration, lines 1 to 1420 of
  \<^verbatim>\<open>rollio-types/src/config.rs\<close>: enumerations, the records of each section with their
  defaults, and one \<open>validate\<close> function per section. A validation message is a constructor
  of \<open>validation_error\<close> that carries the values the message prints.
\<close>

section \<open>Enumerations\<close>

datatype collection_mode = Teleop | Intervention

datatype episode_format = LeRobotV2_1 | LeRobotV3_0 | Mcap

definition EpisodeFormat_default :: episode_format where "EpisodeFormat_default = LeRobotV2_1"

datatype device_type = Camera | Robot

datatype robot_mode = FreeDrive | CommandFollowing | Identifying | ModeDisabled

fun control_mode_value :: "robot_mode \<Rightarrow> u32" where
  "control_mode_value FreeDrive = 0"
| "control_mode_value CommandFollowing = 1"
| "control_mode_value Identifying = 2"
| "control_mode_value ModeDisabled = 3"

definition from_control_mode_value :: "u32 \<Rightarrow> robot_mode option" where
  "from_control_mode_value v =
     (if v = 0 then Some FreeDrive else if v = 1 then Some CommandFollowing
      else if v = 2 then Some Identifying else if v = 3 then Some ModeDisabled else None)"

fun robot_mode_as_str :: "robot_mode \<Rightarrow> string" where
  "robot_mode_as_str FreeDrive = ''free-drive''"
| "robot_mode_as_str CommandFollowing = ''command-following''"
| "robot_mode_as_str Identifying = ''identifying''"
| "robot_mode_as_str ModeDisabled = ''disabled''"

datatype mapping_strategy = DirectJoint | Cartesian | Parallel

definition default_mapping :: mapping_strategy where "default_mapping = DirectJoint"

datatype encoder_codec = H264 | H265 | Av1 | Mjpg | Rvl

fun encoder_codec_as_str :: "encoder_codec \<Rightarrow> string" where
  "encoder_codec_as_str H264 = ''h264''"
| "encoder_codec_as_str H265 = ''h265''"
| "encoder_codec_as_str Av1 = ''av1''"
| "encoder_codec_as_str Mjpg = ''mjpg''"
| "encoder_codec_as_str Rvl = ''rvl''"

datatype encoder_backend = BackendAuto | BackendCpu | BackendNvidia | BackendVaapi
  | BackendPassthrough | BackendHorizonX5

datatype container_kind = Mp4 | Mkv | RvlNative

fun container_extension :: "container_kind \<Rightarrow> string" where
  "container_extension Mp4 = ''mp4''"
| "container_extension Mkv = ''mkv''"
| "container_extension RvlNative = ''rvl''"

fun container_for :: "encoder_codec \<Rightarrow> container_kind" where
  "container_for H264 = Mp4"
| "container_for H265 = Mp4"
| "container_for Mjpg = Mp4"
| "container_for Av1 = Mkv"
| "container_for Rvl = RvlNative"

datatype chroma_subsampling = S420 | S422

datatype encoder_color_space = ColorAuto | Bt709Limited | Bt601Limited

datatype encoder_implementation_family = ImplLibav | ImplRvl

datatype encoder_capability_direction = Encode | Decode

record encoder_capability =
  cap_codec :: encoder_codec
  cap_implementation :: encoder_implementation_family
  cap_direction :: encoder_capability_direction
  cap_backend :: encoder_backend
  cap_pixel_formats :: "pixel_format list"
  cap_available :: bool
  cap_codec_name :: "string option"
  cap_note :: "string option"

record encoder_capability_report =
  report_codecs :: "encoder_capability list"

datatype encoder_role = RoleRecording | RolePreview

fun encoder_role_as_str :: "encoder_role \<Rightarrow> string" where
  "encoder_role_as_str RoleRecording = ''recording''"
| "encoder_role_as_str RolePreview = ''preview''"

datatype preview_output_mode = Jpeg | Encoded

definition PreviewOutputMode_default :: preview_output_mode where
  "PreviewOutputMode_default = Encoded"

fun preview_output_mode_as_str :: "preview_output_mode \<Rightarrow> string" where
  "preview_output_mode_as_str Jpeg = ''jpeg''"
| "preview_output_mode_as_str Encoded = ''encoded''"

datatype preview_resize_policy = Dynamic | FixedSource

fun preview_resize_policy_as_str :: "preview_resize_policy \<Rightarrow> string" where
  "preview_resize_policy_as_str Dynamic = ''dynamic''"
| "preview_resize_policy_as_str FixedSource = ''fixed-source''"

definition is_resizable :: "preview_resize_policy \<Rightarrow> bool" where
  "is_resizable p \<longleftrightarrow> p = Dynamic"

datatype storage_backend = LocalBackend | HttpBackend | DataloopBackend

datatype robot_state_kind = SK_JointPosition | SK_JointVelocity | SK_JointEffort
  | SK_EndEffectorPose | SK_EndEffectorTwist | SK_EndEffectorWrench
  | SK_ParallelPosition | SK_ParallelVelocity | SK_ParallelEffort

datatype robot_command_kind = CK_JointPosition | CK_JointMit | CK_EndPose
  | CK_ParallelPosition | CK_ParallelMit

section \<open>Errors\<close>

datatype episode_error = EpisodeFps u32 | EpisodeChunkSize

datatype assembler_error = MissingEosTimeout | StagingDirEmpty | StagingSlotsZero | StagingSlotsTooMany

datatype preview_error = PreviewSize | PreviewFps u32 | PreviewGop | PreviewCrf u8
  | PreviewJpegQuality | PreviewColorCodec encoder_codec | PreviewDepthCodec encoder_codec
  | PreviewControlTopic | PreviewPacketTopic | PreviewJpegTopic | PreviewFixedSourceJpeg

datatype encoder_error = EncoderQueueSize | EncoderCrf u8 | EncoderBitDepth u8
  | EncoderPresetEmpty | EncoderTuneEmpty

datatype storage_error = StorageProcessId | StorageQueueSize | StorageOutputPath
  | StorageHttpEndpoint | StorageDataloopEndpoint | StorageDataloopProject

datatype controller_error = ShutdownTimeout | ChildPollInterval

datatype ui_error = UiUrlEmpty string | UiHttpHost | UiHttpPort | UiKeyEmpty string
  | UiKeyNotSingle string | UiKeyControl string | UiKeyReserved string string
  | UiKeyDuplicate string

datatype monitor_error = MetricsFrequency | ThresholdGroupName | ThresholdMetricName string
  | ThresholdExplanation string string | ThresholdCondition string string

datatype device_error = DeviceName | DeviceDriver string | DeviceExecutable string
  | DeviceId string | DeviceBusRoot string | DeviceNoChannels string
  | DeviceDuplicateChannel string string

datatype channel_error = ChannelTypeEmpty | CameraMode | CameraDof | CameraStates
  | CameraFrequency | CameraProfileMissing | ProfileSize | ProfileFps u32
  | ProfileNativeFormat | RobotPreviewDisabled | RobotDofMissing | RobotDof u32
  | RobotModeMissing | RobotStatesMissing | RobotRecordedSubset | RobotProfile
  | RobotFrequency | DefaultsNotFinite string | DefaultsTooLong string nat
  | DefaultsKpLength nat | DefaultsKdLength nat | H264PreviewNeedsEncoded

datatype pairing_error = UnknownLeaderDevice | UnknownFollowerDevice | UnknownLeaderChannel
  | UnknownFollowerChannel | PairingNotRobot | PairingSameChannel | LeaderStateNotPublished
  | DirectLeaderState robot_state_kind | DirectFollowerCommand robot_command_kind
  | DirectUnsupported | IdentityDof u32 u32 | IndexMapLength nat u32
  | IndexOutOfRange nat u32 u32 | ScalesLength nat nat | NotEndorsed bool bool
  | CartesianKinds | CartesianUnsupported | CartesianExtraMaps
  | ParallelDof "u32 option" "u32 option" | ParallelLeaderState robot_state_kind
  | ParallelFollowerCommand robot_command_kind | ParallelUnsupported | ParallelIndexMap
  | ParallelScalesLength nat | ParallelRatio f64 | ScalesNotFinite

datatype runtime_error = EncoderRuntimeIds | EncoderRoleMissing encoder_role
  | EncoderRoleExtra encoder_role | RecordingPacketTopic | RecordingFps u32
  | TeleopProcessId | TeleopChannelIds | TeleopTopics | TeleopScales
  | AssemblerIds | AssemblerFpsChunk | AssemblerEosTimeout | AssemblerSlots
  | AssemblerNoCamera | AssemblerPacketTopic string | AssemblerToml

datatype project_error = ProjectName | NoDevices | DuplicateDevice string | DuplicateBusRoot string

datatype config_error = Io string | Parse string | Validation validation_error
  and validation_error =
    V_Episode episode_error | V_Assembler assembler_error | V_Preview preview_error
  | V_Encoder encoder_error | V_Storage storage_error | V_Controller controller_error
  | V_VisualizerPort | V_Ui ui_error | V_Monitor monitor_error | V_Device device_error
  | V_Channel string string channel_error | V_RecordConfig string string config_error
  | V_Pairing string string string string pairing_error | V_Runtime runtime_error
  | V_Project project_error

type_synonym check = "(unit, config_error) result"

text \<open>\<open>FromStr\<close> and \<open>from_file\<close> are the same three steps for every configuration type: read,
  parse with the \<open>toml\<close> crate (a parameter), validate.\<close>

definition from_str :: "(string \<Rightarrow> ('c, string) result) \<Rightarrow> ('c \<Rightarrow> check) \<Rightarrow> string \<Rightarrow> ('c, config_error) result" where
  "from_str toml_from_str validate s =
     bind_ok (map_err Parse (toml_from_str s)) (\<lambda>config.
       bind_ok (validate config) (\<lambda>_. Ok config))"

definition from_file :: "(string \<Rightarrow> (string, string) result) \<Rightarrow> (string \<Rightarrow> ('c, string) result) \<Rightarrow> ('c \<Rightarrow> check)
    \<Rightarrow> string \<Rightarrow> ('c, config_error) result" where
  "from_file read_to_string toml_from_str validate path =
     bind_ok (map_err Io (read_to_string path)) (from_str toml_from_str validate)"

lemma from_str_Ok_iff:
  "from_str toml validate s = Ok c \<longleftrightarrow> toml s = Ok c \<and> is_ok (validate c)"
  by (auto simp: from_str_def bind_ok_def map_err_def unit_result_ok split: sum.splits)

section \<open>Episode\<close>

record episode_config =
  ep_format :: episode_format
  ep_fps :: u32
  ep_chunk_size :: u32

definition default_chunk_size :: u32 where "default_chunk_size = 1000"

definition EpisodeConfig_default :: episode_config where
  "EpisodeConfig_default = \<lparr>ep_format = EpisodeFormat_default, ep_fps = 30, ep_chunk_size = default_chunk_size\<rparr>"

definition episode_validate :: "episode_config \<Rightarrow> check" where
  "episode_validate c = checks
     [reject (ep_fps c = 0 \<or> ep_fps c > 1000) (Validation (V_Episode (EpisodeFps (ep_fps c)))),
      reject (ep_chunk_size c = 0) (Validation (V_Episode EpisodeChunkSize))]"

section \<open>Assembler\<close>

record assembler_config =
  as_missing_eos_timeout_ms :: u64
  as_staging_dir :: string
  as_staging_slots :: u32

definition default_missing_eos_timeout_ms :: u64 where "default_missing_eos_timeout_ms = 30000"
definition default_staging_slots :: u32 where "default_staging_slots = 4"
definition default_staging_dir :: string where "default_staging_dir = ''/dev/shm/rollio''"

definition AssemblerConfig_default :: assembler_config where
  "AssemblerConfig_default = \<lparr>as_missing_eos_timeout_ms = default_missing_eos_timeout_ms,
     as_staging_dir = default_staging_dir, as_staging_slots = default_staging_slots\<rparr>"

definition assembler_validate :: "assembler_config \<Rightarrow> check" where
  "assembler_validate c = checks
     [reject (as_missing_eos_timeout_ms c = 0) (Validation (V_Assembler MissingEosTimeout)),
      reject (blank (as_staging_dir c)) (Validation (V_Assembler StagingDirEmpty)),
      reject (as_staging_slots c = 0) (Validation (V_Assembler StagingSlotsZero)),
      reject (as_staging_slots c > 64) (Validation (V_Assembler StagingSlotsTooMany))]"

section \<open>Encoder preview\<close>

record encoder_preview_config =
  pv_output_mode :: preview_output_mode
  pv_color_codec :: encoder_codec
  pv_depth_codec :: encoder_codec
  pv_backend :: encoder_backend
  pv_width :: u32
  pv_height :: u32
  pv_fps :: u32
  pv_gop_seconds :: u32
  pv_crf :: "u8 option"
  pv_jpeg_quality :: i32

definition default_preview_color_codec :: encoder_codec where "default_preview_color_codec = H264"
definition default_preview_depth_codec :: encoder_codec where "default_preview_depth_codec = Rvl"
definition default_preview_width :: u32 where "default_preview_width = 320"
definition default_preview_height :: u32 where "default_preview_height = 240"
definition default_preview_fps :: u32 where "default_preview_fps = 15"
definition default_preview_gop_seconds :: u32 where "default_preview_gop_seconds = 1"
definition default_preview_crf :: "u8 option" where "default_preview_crf = Some 26"
definition default_preview_jpeg_quality :: i32 where "default_preview_jpeg_quality = 50"

definition EncoderPreviewConfig_default :: encoder_preview_config where
  "EncoderPreviewConfig_default = \<lparr>pv_output_mode = PreviewOutputMode_default,
     pv_color_codec = default_preview_color_codec, pv_depth_codec = default_preview_depth_codec,
     pv_backend = BackendAuto, pv_width = default_preview_width,
     pv_height = default_preview_height, pv_fps = default_preview_fps,
     pv_gop_seconds = default_preview_gop_seconds, pv_crf = default_preview_crf,
     pv_jpeg_quality = default_preview_jpeg_quality\<rparr>"

text \<open>\<open>(1..=100).contains(&q)\<close> on a signed 32-bit value.\<close>

definition jpeg_quality_in_range :: "i32 \<Rightarrow> bool" where
  "jpeg_quality_in_range q \<longleftrightarrow> 1 \<le> sint q \<and> sint q \<le> 100"

definition preview_validate :: "encoder_preview_config \<Rightarrow> check" where
  "preview_validate c = checks
     [reject (pv_width c = 0 \<or> pv_height c = 0) (Validation (V_Preview PreviewSize)),
      reject (pv_fps c = 0 \<or> pv_fps c > 1000) (Validation (V_Preview (PreviewFps (pv_fps c)))),
      reject (pv_gop_seconds c = 0) (Validation (V_Preview PreviewGop)),
      on_some (pv_crf c) (\<lambda>crf. reject (crf > 51) (Validation (V_Preview (PreviewCrf crf)))),
      reject (\<not> jpeg_quality_in_range (pv_jpeg_quality c)) (Validation (V_Preview PreviewJpegQuality)),
      reject (pv_output_mode c = Encoded \<and> pv_color_codec c \<noteq> H264)
        (Validation (V_Preview (PreviewColorCodec (pv_color_codec c)))),
      reject (pv_output_mode c = Encoded \<and> pv_depth_codec c \<noteq> Rvl)
        (Validation (V_Preview (PreviewDepthCodec (pv_depth_codec c))))]"

section \<open>Encoder\<close>

record encoder_config =
  enc_video_codec :: encoder_codec
  enc_depth_codec :: encoder_codec
  enc_backend :: encoder_backend
  enc_video_backend :: encoder_backend
  enc_depth_backend :: encoder_backend
  enc_chroma_subsampling :: chroma_subsampling
  enc_crf :: "u8 option"
  enc_preset :: "string option"
  enc_tune :: "string option"
  enc_bit_depth :: u8
  enc_color_space :: encoder_color_space
  enc_queue_size :: u32
  enc_preview :: encoder_preview_config

record encoder_config_serde =
  ser_codec :: "encoder_codec option"
  ser_video_codec :: "encoder_codec option"
  ser_depth_codec :: "encoder_codec option"
  ser_backend :: encoder_backend
  ser_video_backend :: "encoder_backend option"
  ser_depth_backend :: "encoder_backend option"
  ser_chroma_subsampling :: chroma_subsampling
  ser_crf :: "u8 option"
  ser_preset :: "string option"
  ser_tune :: "string option"
  ser_bit_depth :: u8
  ser_color_space :: encoder_color_space
  ser_queue_size :: u32
  ser_preview :: encoder_preview_config

text \<open>\<open>Option::or\<close> and \<open>Option::unwrap_or\<close>\<close>

definition opt_or :: "'a option \<Rightarrow> 'a option \<Rightarrow> 'a option" where
  "opt_or a b = (case a of None \<Rightarrow> b | Some _ \<Rightarrow> a)"

definition unwrap_or :: "'a option \<Rightarrow> 'a \<Rightarrow> 'a" where
  "unwrap_or a d = (case a of None \<Rightarrow> d | Some x \<Rightarrow> x)"

lemma opt_simps [simp]:
  "opt_or None b = b" "opt_or (Some x) b = Some x"
  "unwrap_or None d = d" "unwrap_or (Some x) d = x"
  by (simp_all add: opt_or_def unwrap_or_def)

definition EncoderCodec_default :: encoder_codec where "EncoderCodec_default = H264"
definition EncoderBackend_default :: encoder_backend where "EncoderBackend_default = BackendAuto"
definition ChromaSubsampling_default :: chroma_subsampling where "ChromaSubsampling_default = S422"
definition EncoderColorSpace_default :: encoder_color_space where "EncoderColorSpace_default = ColorAuto"
definition default_depth_codec :: encoder_codec where "default_depth_codec = Rvl"
definition default_queue_size :: u32 where "default_queue_size = 32"
definition default_bit_depth :: u8 where "default_bit_depth = 8"

definition default_backend_for_codec :: "encoder_codec \<Rightarrow> encoder_backend \<Rightarrow> encoder_backend" where
  "default_backend_for_codec codec fallback =
     (if codec = Rvl \<and> (fallback = BackendNvidia \<or> fallback = BackendVaapi)
      then BackendCpu else fallback)"

definition EncoderConfig_from_serde :: "encoder_config_serde \<Rightarrow> encoder_config" where
  "EncoderConfig_from_serde v =
     (let video_codec = unwrap_or (opt_or (ser_video_codec v) (ser_codec v)) EncoderCodec_default;
          depth_codec = unwrap_or (opt_or (ser_depth_codec v) (ser_codec v)) default_depth_codec
      in \<lparr>enc_video_codec = video_codec, enc_depth_codec = depth_codec,
          enc_backend = ser_backend v,
          enc_video_backend = unwrap_or (ser_video_backend v) (ser_backend v),
          enc_depth_backend = unwrap_or (ser_depth_backend v)
            (default_backend_for_codec depth_codec (ser_backend v)),
          enc_chroma_subsampling = ser_chroma_subsampling v, enc_crf = ser_crf v,
          enc_preset = ser_preset v, enc_tune = ser_tune v, enc_bit_depth = ser_bit_depth v,
          enc_color_space = ser_color_space v, enc_queue_size = ser_queue_size v,
          enc_preview = ser_preview v\<rparr>)"

definition EncoderConfig_default :: encoder_config where
  "EncoderConfig_default = \<lparr>enc_video_codec = EncoderCodec_default,
     enc_depth_codec = default_depth_codec, enc_backend = EncoderBackend_default,
     enc_video_backend = EncoderBackend_default,
     enc_depth_backend = default_backend_for_codec default_depth_codec EncoderBackend_default,
     enc_chroma_subsampling = ChromaSubsampling_default, enc_crf = None, enc_preset = None,
     enc_tune = None, enc_bit_depth = default_bit_depth,
     enc_color_space = EncoderColorSpace_default, enc_queue_size = default_queue_size,
     enc_preview = EncoderPreviewConfig_default\<rparr>"

definition depth_codec_with_gray8_fallback :: "encoder_config \<Rightarrow> encoder_codec" where
  "depth_codec_with_gray8_fallback c =
     (if enc_depth_codec c = Rvl then enc_video_codec c else enc_depth_codec c)"

definition codec_for_pixel_format :: "encoder_config \<Rightarrow> pixel_format \<Rightarrow> encoder_codec" where
  "codec_for_pixel_format c px = (case px of
     Px_Depth16 \<Rightarrow> enc_depth_codec c
   | Px_Gray8 \<Rightarrow> depth_codec_with_gray8_fallback c
   | _ \<Rightarrow> enc_video_codec c)"

definition backend_for_pixel_format :: "encoder_config \<Rightarrow> pixel_format \<Rightarrow> encoder_backend" where
  "backend_for_pixel_format c px = (case px of
     Px_Depth16 \<Rightarrow> enc_depth_backend c
   | Px_Gray8 \<Rightarrow> (if enc_depth_codec c = Rvl then enc_video_backend c else enc_depth_backend c)
   | _ \<Rightarrow> enc_video_backend c)"

definition resolved_container :: "encoder_config \<Rightarrow> container_kind" where
  "resolved_container c = container_for (enc_video_codec c)"

definition resolved_depth_container :: "encoder_config \<Rightarrow> container_kind" where
  "resolved_depth_container c = container_for (enc_depth_codec c)"

definition encoder_validate :: "encoder_config \<Rightarrow> check" where
  "encoder_validate c = checks
     [reject (enc_queue_size c = 0) (Validation (V_Encoder EncoderQueueSize)),
      on_some (enc_crf c) (\<lambda>crf. reject (crf > 51) (Validation (V_Encoder (EncoderCrf crf)))),
      reject (\<not> (enc_bit_depth c = 8 \<or> enc_bit_depth c = 10))
        (Validation (V_Encoder (EncoderBitDepth (enc_bit_depth c)))),
      on_some (enc_preset c) (\<lambda>p. reject (blank p) (Validation (V_Encoder EncoderPresetEmpty))),
      on_some (enc_tune c) (\<lambda>t. reject (blank t) (Validation (V_Encoder EncoderTuneEmpty))),
      preview_validate (enc_preview c)]"

section \<open>Storage\<close>

record storage_config =
  st_backend :: storage_backend
  st_output_path :: "string option"
  st_endpoint :: "string option"
  st_queue_size :: u32
  st_dataloop_token :: "string option"
  st_dataloop_project_id :: "string option"

definition default_storage_queue_size :: u32 where "default_storage_queue_size = 32"

definition StorageConfig_default :: storage_config where
  "StorageConfig_default = \<lparr>st_backend = LocalBackend, st_output_path = Some ''./output'',
     st_endpoint = None, st_queue_size = default_storage_queue_size, st_dataloop_token = None,
     st_dataloop_project_id = None\<rparr>"

text \<open>\<open>o.as_deref().is_none_or(|v| v.trim().is_empty())\<close>\<close>

definition none_or_blank :: "string option \<Rightarrow> bool" where
  "none_or_blank m = (case m of None \<Rightarrow> True | Some s \<Rightarrow> blank s)"

text \<open>\<open>o.as_deref().is_some_and(|v| v.trim().is_empty())\<close>\<close>

definition some_blank :: "string option \<Rightarrow> bool" where
  "some_blank m = (case m of None \<Rightarrow> False | Some s \<Rightarrow> blank s)"

lemma blank_opt_simps [simp]:
  "none_or_blank None" "none_or_blank (Some s) = blank s"
  "\<not> some_blank None" "some_blank (Some s) = blank s"
  by (simp_all add: none_or_blank_def some_blank_def)

definition storage_validate :: "storage_config \<Rightarrow> check" where
  "storage_validate c = checks
     [reject (st_queue_size c = 0) (Validation (V_Storage StorageQueueSize)),
      (case st_backend c of
         LocalBackend \<Rightarrow> reject (none_or_blank (st_output_path c)) (Validation (V_Storage StorageOutputPath))
       | HttpBackend \<Rightarrow> reject (none_or_blank (st_endpoint c)) (Validation (V_Storage StorageHttpEndpoint))
       | DataloopBackend \<Rightarrow> checks
           [reject (none_or_blank (st_endpoint c)) (Validation (V_Storage StorageDataloopEndpoint)),
            reject (none_or_blank (st_dataloop_project_id c)) (Validation (V_Storage StorageDataloopProject))])]"

record storage_runtime_config =
  srt_process_id :: string
  srt_backend :: storage_backend
  srt_output_path :: "string option"
  srt_endpoint :: "string option"
  srt_queue_size :: u32
  srt_dataloop_token :: "string option"
  srt_dataloop_project_id :: "string option"

definition storage_runtime_validate :: "storage_runtime_config \<Rightarrow> check" where
  "storage_runtime_validate c = checks
     [reject (blank (srt_process_id c)) (Validation (V_Storage StorageProcessId)),
      storage_validate \<lparr>st_backend = srt_backend c, st_output_path = srt_output_path c,
        st_endpoint = srt_endpoint c, st_queue_size = srt_queue_size c,
        st_dataloop_token = srt_dataloop_token c,
        st_dataloop_project_id = srt_dataloop_project_id c\<rparr>]"

section \<open>Controller and visualizer\<close>

record controller_config =
  ctl_shutdown_timeout_ms :: u64
  ctl_child_poll_interval_ms :: u64

definition default_shutdown_timeout_ms :: u64 where "default_shutdown_timeout_ms = 30000"
definition default_child_poll_interval_ms :: u64 where "default_child_poll_interval_ms = 100"

definition ControllerConfig_default :: controller_config where
  "ControllerConfig_default = \<lparr>ctl_shutdown_timeout_ms = default_shutdown_timeout_ms,
     ctl_child_poll_interval_ms = default_child_poll_interval_ms\<rparr>"

definition controller_validate :: "controller_config \<Rightarrow> check" where
  "controller_validate c = checks
     [reject (ctl_shutdown_timeout_ms c = 0) (Validation (V_Controller ShutdownTimeout)),
      reject (ctl_child_poll_interval_ms c = 0) (Validation (V_Controller ChildPollInterval))]"

record visualizer_runtime_config =
  vrt_port :: u16
  vrt_cameras :: "string list"
  vrt_robots :: "string list"
  vrt_preview_output_mode :: preview_output_mode

definition default_visualizer_port :: u16 where "default_visualizer_port = 19090"

definition VisualizerRuntimeConfig_default :: visualizer_runtime_config where
  "VisualizerRuntimeConfig_default = \<lparr>vrt_port = default_visualizer_port, vrt_cameras = [],
     vrt_robots = [], vrt_preview_output_mode = PreviewOutputMode_default\<rparr>"

definition visualizer_runtime_validate :: "visualizer_runtime_config \<Rightarrow> check" where
  "visualizer_runtime_validate c = reject (vrt_port c = 0) (Validation V_VisualizerPort)"

record visualizer_config =
  vis_port :: u16

text \<open>\<open>#[derive(Default)]\<close> on \<open>VisualizerConfig\<close> gives the default of \<open>u16\<close>; the
  field attribute \<open>#[serde(default = "default_visualizer_port")]\<close> only applies when the
  section is present.\<close>

definition VisualizerConfig_default :: visualizer_config where
  "VisualizerConfig_default = \<lparr>vis_port = 0\<rparr>"

definition visualizer_validate :: "visualizer_config \<Rightarrow> check" where
  "visualizer_validate c = visualizer_runtime_validate
     \<lparr>vrt_port = vis_port c, vrt_cameras = [], vrt_robots = [],
      vrt_preview_output_mode = PreviewOutputMode_default\<rparr>"

section \<open>User interface\<close>

record ui_runtime_config =
  ui_control_websocket_url :: "string option"
  ui_preview_websocket_url :: "string option"
  ui_http_host :: string
  ui_http_port :: u16
  ui_start_key :: string
  ui_stop_key :: string
  ui_keep_key :: string
  ui_discard_key :: string

definition default_ui_http_host :: string where "default_ui_http_host = ''0.0.0.0''"
definition default_ui_http_port :: u16 where "default_ui_http_port = 3000"
definition default_ui_start_key :: string where "default_ui_start_key = ''s''"
definition default_ui_stop_key :: string where "default_ui_stop_key = ''e''"
definition default_ui_keep_key :: string where "default_ui_keep_key = ''k''"
definition default_ui_discard_key :: string where "default_ui_discard_key = ''x''"

definition UiRuntimeConfig_default :: ui_runtime_config where
  "UiRuntimeConfig_default = \<lparr>ui_control_websocket_url = None, ui_preview_websocket_url = None,
     ui_http_host = default_ui_http_host, ui_http_port = default_ui_http_port,
     ui_start_key = default_ui_start_key, ui_stop_key = default_ui_stop_key,
     ui_keep_key = default_ui_keep_key, ui_discard_key = default_ui_discard_key\<rparr>"

definition normalize_ui_key :: "string \<Rightarrow> string \<Rightarrow> (string, config_error) result" where
  "normalize_ui_key label raw =
     (let trimmed = trim raw
      in if trimmed = [] then Err (Validation (V_Ui (UiKeyEmpty label)))
         else case utf8_chars trimmed of
             [] \<Rightarrow> Err (Validation (V_Ui (UiKeyNotSingle label)))
           | ch # rest \<Rightarrow>
               if rest \<noteq> [] then Err (Validation (V_Ui (UiKeyNotSingle label)))
               else if is_control ch then Err (Validation (V_Ui (UiKeyControl label)))
               else Ok (to_ascii_lowercase ch))"

text \<open>The loop over the four key bindings with its \<open>seen\<close> set.\<close>

fun ui_keys_validate :: "string set \<Rightarrow> (string \<times> string) list \<Rightarrow> check" where
  "ui_keys_validate seen [] = Ok ()"
| "ui_keys_validate seen ((label, key) # rest) =
     bind_ok (normalize_ui_key label key) (\<lambda>normalized.
       if normalized = ''d'' \<or> normalized = ''r''
       then Err (Validation (V_Ui (UiKeyReserved label normalized)))
       else if normalized \<in> seen then Err (Validation (V_Ui (UiKeyDuplicate normalized)))
       else ui_keys_validate (insert normalized seen) rest)"

definition ui_keys :: "ui_runtime_config \<Rightarrow> (string \<times> string) list" where
  "ui_keys c = [(''start_key'', ui_start_key c), (''stop_key'', ui_stop_key c),
     (''keep_key'', ui_keep_key c), (''discard_key'', ui_discard_key c)]"

definition ui_validate :: "ui_runtime_config \<Rightarrow> check" where
  "ui_validate c = checks
     [on_some (ui_control_websocket_url c) (\<lambda>url.
        reject (blank url) (Validation (V_Ui (UiUrlEmpty ''control_websocket_url'')))),
      on_some (ui_preview_websocket_url c) (\<lambda>url.
        reject (blank url) (Validation (V_Ui (UiUrlEmpty ''preview_websocket_url'')))),
      reject (blank (ui_http_host c)) (Validation (V_Ui UiHttpHost)),
      reject (ui_http_port c = 0) (Validation (V_Ui UiHttpPort)),
      ui_keys_validate {} (ui_keys c)]"

section \<open>Monitor\<close>

record threshold_def =
  th_explanation :: string
  th_gt :: "f64 option"
  th_lt :: "f64 option"
  th_gte :: "f64 option"
  th_lte :: "f64 option"
  th_outside :: "(f64 \<times> f64) option"
  th_inside :: "(f64 \<times> f64) option"
  th_occurred :: "bool option"
  th_gap :: "f64 option"
  th_repeated :: "bool option"

definition threshold_validate :: "threshold_def \<Rightarrow> string \<Rightarrow> string \<Rightarrow> check" where
  "threshold_validate t process_id metric_name = checks
     [reject (blank (th_explanation t)) (Validation (V_Monitor (ThresholdExplanation process_id metric_name))),
      reject (length (filter id
          [th_gt t \<noteq> None, th_lt t \<noteq> None, th_gte t \<noteq> None, th_lte t \<noteq> None, th_outside t \<noteq> None,
           th_inside t \<noteq> None, th_occurred t \<noteq> None, th_gap t \<noteq> None, th_repeated t \<noteq> None]) = 0)
        (Validation (V_Monitor (ThresholdCondition process_id metric_name)))]"

text \<open>A \<open>HashMap\<close> is the association list of its entries in iteration order.\<close>

type_synonym threshold_group = "(string \<times> threshold_def) list"

record monitor_config =
  mon_metrics_frequency_hz :: f64
  mon_thresholds :: "(string \<times> threshold_group) list"

definition default_metrics_freq :: f64 where "default_metrics_freq = Fin 1"

definition MonitorConfig_default :: monitor_config where
  "MonitorConfig_default = \<lparr>mon_metrics_frequency_hz = default_metrics_freq, mon_thresholds = []\<rparr>"

definition monitor_validate :: "monitor_config \<Rightarrow> check" where
  "monitor_validate c = checks
     [reject (\<not> is_finite (mon_metrics_frequency_hz c) \<or> f_le (mon_metrics_frequency_hz c) (Fin 0))
        (Validation (V_Monitor MetricsFrequency)),
      checks (map (\<lambda>(process_id, thresholds). checks
          [reject (blank process_id) (Validation (V_Monitor ThresholdGroupName)),
           checks (map (\<lambda>(metric_name, threshold). checks
               [reject (blank metric_name) (Validation (V_Monitor (ThresholdMetricName process_id))),
                threshold_validate threshold process_id metric_name]) thresholds)])
        (mon_thresholds c))]"

section \<open>When the sections are accepted\<close>

lemma is_ok_episode_validate [ok_iff]:
  "is_ok (episode_validate c) \<longleftrightarrow> 0 < ep_fps c \<and> ep_fps c \<le> 1000 \<and> 0 < ep_chunk_size c"
  by (auto simp: episode_validate_def ok_iff word_neq_0_conv)

lemma is_ok_assembler_validate [ok_iff]:
  "is_ok (assembler_validate c) \<longleftrightarrow> 0 < as_missing_eos_timeout_ms c \<and> \<not> blank (as_staging_dir c)
     \<and> 0 < as_staging_slots c \<and> as_staging_slots c \<le> 64"
  by (auto simp: assembler_validate_def ok_iff word_neq_0_conv)

lemma is_ok_preview_validate:
  "is_ok (preview_validate c) \<longleftrightarrow> 0 < pv_width c \<and> 0 < pv_height c \<and> 0 < pv_fps c \<and> pv_fps c \<le> 1000
     \<and> 0 < pv_gop_seconds c \<and> (\<forall>q. pv_crf c = Some q \<longrightarrow> q \<le> 51)
     \<and> jpeg_quality_in_range (pv_jpeg_quality c)
     \<and> (pv_output_mode c = Encoded \<longrightarrow> pv_color_codec c = H264 \<and> pv_depth_codec c = Rvl)"
  by (auto simp: preview_validate_def ok_iff word_neq_0_conv not_less)

lemma is_ok_encoder_validate:
  "is_ok (encoder_validate c) \<longleftrightarrow> 0 < enc_queue_size c \<and> (\<forall>q. enc_crf c = Some q \<longrightarrow> q \<le> 51)
     \<and> (enc_bit_depth c = 8 \<or> enc_bit_depth c = 10)
     \<and> \<not> some_blank (enc_preset c) \<and> \<not> some_blank (enc_tune c)
     \<and> is_ok (preview_validate (enc_preview c))"
  by (auto simp: encoder_validate_def ok_iff word_neq_0_conv not_less some_blank_def split: option.splits)

lemma preview_default_ok: "is_ok (preview_validate EncoderPreviewConfig_default)"
  by (simp add: is_ok_preview_validate EncoderPreviewConfig_default_def jpeg_quality_in_range_def
      default_preview_width_def default_preview_height_def default_preview_fps_def
      default_preview_gop_seconds_def default_preview_crf_def default_preview_jpeg_quality_def
      default_preview_color_codec_def default_preview_depth_codec_def)

lemma encoder_default_ok: "is_ok (encoder_validate EncoderConfig_default)"
  by (simp add: is_ok_encoder_validate EncoderConfig_default_def preview_default_ok
      default_queue_size_def default_bit_depth_def)

text \<open>Acceptance of the key bindings: each normalizes, none is reserved, no two agree.\<close>

definition key_of :: "string \<times> string \<Rightarrow> string" where
  "key_of lk = (case normalize_ui_key (fst lk) (snd lk) of Ok k \<Rightarrow> k | Err _ \<Rightarrow> [])"

lemma is_ok_ui_keys_validate:
  "is_ok (ui_keys_validate seen ks) \<longleftrightarrow>
     (\<forall>lk \<in> set ks. is_ok (normalize_ui_key (fst lk) (snd lk)) \<and> key_of lk \<noteq> ''d'' \<and> key_of lk \<noteq> ''r'')
     \<and> distinct (map key_of ks) \<and> key_of ` set ks \<inter> seen = {}"
proof (induction seen ks rule: ui_keys_validate.induct)
  case (1 seen)
  then show ?case by simp
next
  case (2 seen label key rest)
  show ?case
  proof (cases "normalize_ui_key label key")
    case (Inl e)
    then show ?thesis by (auto simp: bind_ok_def)
  next
    case (Inr k)
    then have k: "key_of (label, key) = k" by (simp add: key_of_def)
    show ?thesis
    proof (cases "k = ''d'' \<or> k = ''r'' \<or> k \<in> seen")
      case True
      with Inr k show ?thesis by (auto simp: bind_ok_def)
    next
      case False
      then have ih: "is_ok (ui_keys_validate (insert k seen) rest) \<longleftrightarrow>
          (\<forall>lk \<in> set rest. is_ok (normalize_ui_key (fst lk) (snd lk)) \<and> key_of lk \<noteq> ''d'' \<and> key_of lk \<noteq> ''r'')
          \<and> distinct (map key_of rest) \<and> key_of ` set rest \<inter> insert k seen = {}"
        using "2.IH" Inr by simp
      have "is_ok (ui_keys_validate seen ((label, key) # rest))
          \<longleftrightarrow> is_ok (ui_keys_validate (insert k seen) rest)"
        using False Inr by (simp add: bind_ok_def)
      with ih False Inr k show ?thesis by auto
    qed
  qed
qed

lemma is_ok_ui_validate:
  "is_ok (ui_validate c) \<longleftrightarrow> \<not> some_blank (ui_control_websocket_url c)
     \<and> \<not> some_blank (ui_preview_websocket_url c) \<and> \<not> blank (ui_http_host c) \<and> 0 < ui_http_port c
     \<and> is_ok (ui_keys_validate {} (ui_keys c))"
  by (auto simp: ui_validate_def ok_iff word_neq_0_conv some_blank_def split: option.splits)

lemma is_ok_visualizer_validate [ok_iff]: "is_ok (visualizer_validate c) \<longleftrightarrow> 0 < vis_port c"
  by (auto simp: visualizer_validate_def visualizer_runtime_validate_def ok_iff word_neq_0_conv)

lemma is_ok_storage_validate:
  "is_ok (storage_validate c) \<longleftrightarrow> 0 < st_queue_size c \<and>
     (case st_backend c of LocalBackend \<Rightarrow> \<not> none_or_blank (st_output_path c)
      | HttpBackend \<Rightarrow> \<not> none_or_blank (st_endpoint c)
      | DataloopBackend \<Rightarrow> \<not> none_or_blank (st_endpoint c) \<and> \<not> none_or_blank (st_dataloop_project_id c))"
  by (auto simp: storage_validate_def ok_iff word_neq_0_conv split: storage_backend.splits)

lemma is_ok_controller_validate [ok_iff]:
  "is_ok (controller_validate c) \<longleftrightarrow> 0 < ctl_shutdown_timeout_ms c \<and> 0 < ctl_child_poll_interval_ms c"
  by (auto simp: controller_validate_def ok_iff word_neq_0_conv)

section \<open>Properties\<close>

text \<open>The numeric code of a robot mode on the mode topics decodes to that mode, and no other
  code decodes to it.\<close>

theorem robot_mode_codes: "from_control_mode_value v = Some m \<longleftrightarrow> control_mode_value m = v"
  by (cases m) (auto simp: from_control_mode_value_def)

text \<open>In an accepted user-interface section every key binding normalizes to one
  character, the four are pairwise different, and none is one of the two reserved keys.\<close>

theorem ui_keys_unambiguous:
  assumes "is_ok (ui_validate c)"
  shows "\<exists>start stop keep discard.
     normalize_ui_key ''start_key'' (ui_start_key c) = Ok start \<and> normalize_ui_key ''stop_key'' (ui_stop_key c) = Ok stop
     \<and> normalize_ui_key ''keep_key'' (ui_keep_key c) = Ok keep \<and> normalize_ui_key ''discard_key'' (ui_discard_key c) = Ok discard
     \<and> distinct [start, stop, keep, discard] \<and> {start, stop, keep, discard} \<inter> {''d'', ''r''} = {}"
proof -
  have key: "normalize_ui_key l k = Ok (key_of (l, k))" if "is_ok (normalize_ui_key l k)" for l k
    using that by (cases "normalize_ui_key l k") (auto simp: key_of_def)
  from assms have "is_ok (ui_keys_validate {} (ui_keys c))" by (simp add: is_ok_ui_validate)
  then show ?thesis unfolding is_ok_ui_keys_validate ui_keys_def
    by (intro exI [of _ "key_of (''start_key'', ui_start_key c)"] exI [of _ "key_of (''stop_key'', ui_stop_key c)"]
        exI [of _ "key_of (''keep_key'', ui_keep_key c)"] exI [of _ "key_of (''discard_key'', ui_discard_key c)"])
      (use key in simp)
qed

theorem ui_keys_unambiguous_witness:
  "\<exists>start stop keep discard.
     normalize_ui_key ''start_key'' ''s'' = Ok start \<and> normalize_ui_key ''stop_key'' ''e'' = Ok stop
     \<and> normalize_ui_key ''keep_key'' ''k'' = Ok keep \<and> normalize_ui_key ''discard_key'' ''x'' = Ok discard
     \<and> distinct [start, stop, keep, discard] \<and> {start, stop, keep, discard} \<inter> {''d'', ''r''} = {}"
proof -
  have "is_ok (ui_validate UiRuntimeConfig_default)" by code_simp
  from ui_keys_unambiguous [OF this] show ?thesis
    by (simp add: UiRuntimeConfig_default_def default_ui_start_key_def default_ui_stop_key_def
        default_ui_keep_key_def default_ui_discard_key_def)
qed

text \<open>Depth frames are recorded with the depth codec; gray frames never with RVL unless
  the video codec is RVL itself, and then with the backend that goes with the codec chosen;
  every other format with the video codec and backend.\<close>

theorem recording_codec_choice:
  "(codec_for_pixel_format c px, backend_for_pixel_format c px) =
     (if px = Px_Depth16 \<or> px = Px_Gray8 \<and> enc_depth_codec c \<noteq> Rvl then (enc_depth_codec c, enc_depth_backend c)
      else (enc_video_codec c, enc_video_backend c))
   \<and> (px = Px_Gray8 \<and> codec_for_pixel_format c px = Rvl \<longrightarrow> enc_video_codec c = Rvl)"
  by (cases px) (auto simp: codec_for_pixel_format_def backend_for_pixel_format_def depth_codec_with_gray8_fallback_def)

theorem recording_codec_choice_witness:
  "codec_for_pixel_format (EncoderConfig_default\<lparr>enc_video_codec := Rvl\<rparr>) Px_Gray8 = Rvl
   \<and> enc_video_codec (EncoderConfig_default\<lparr>enc_video_codec := Rvl\<rparr>) = Rvl"
  using recording_codec_choice [of "EncoderConfig_default\<lparr>enc_video_codec := Rvl\<rparr>" Px_Gray8]
  by (simp add: EncoderConfig_default_def default_depth_codec_def)

end
