(* ===== verification/Config_Device.thy ===== *)
theory Config_Device
  imports Config_Types
begin

text \<open>
  Devices and their channels, lines 1498 to 2106 of \<^verbatim>\<open>rollio-types/src/config.rs\<close>: per-channel
  encoder settings with the defaults they resolve to, camera profiles, command defaults,
  state and command kinds, and the validators \<open>BinaryDeviceConfig::validate\<close> and
  \<open>DeviceChannelConfigV2::validate\<close>.
\<close>

section \<open>Values of free-form tables\<close>

text \<open>The \<open>toml\<close> crate's \<open>Value\<close>; a \<open>Table\<close> is the list of its entries.\<close>

datatype toml_value = TString string | TInteger i64 | TFloat f64 | TBoolean bool
  | TDatetime string | TArray "toml_value list" | TTable "(string \<times> toml_value) list"

type_synonym toml_table = "(string \<times> toml_value) list"

section \<open>State and command kinds\<close>

fun state_topic_suffix :: "robot_state_kind \<Rightarrow> string" where
  "state_topic_suffix SK_JointPosition = ''joint_position''"
| "state_topic_suffix SK_JointVelocity = ''joint_velocity''"
| "state_topic_suffix SK_JointEffort = ''joint_effort''"
| "state_topic_suffix SK_EndEffectorPose = ''end_effector_pose''"
| "state_topic_suffix SK_EndEffectorTwist = ''end_effector_twist''"
| "state_topic_suffix SK_EndEffectorWrench = ''end_effector_wrench''"
| "state_topic_suffix SK_ParallelPosition = ''parallel_position''"
| "state_topic_suffix SK_ParallelVelocity = ''parallel_velocity''"
| "state_topic_suffix SK_ParallelEffort = ''parallel_effort''"

fun state_value_len :: "robot_state_kind \<Rightarrow> u32 \<Rightarrow> u32" where
  "state_value_len SK_JointPosition dof = dof"
| "state_value_len SK_JointVelocity dof = dof"
| "state_value_len SK_JointEffort dof = dof"
| "state_value_len SK_ParallelPosition dof = min dof (of_nat MAX_PARALLEL)"
| "state_value_len SK_ParallelVelocity dof = min dof (of_nat MAX_PARALLEL)"
| "state_value_len SK_ParallelEffort dof = min dof (of_nat MAX_PARALLEL)"
| "state_value_len SK_EndEffectorPose dof = 7"
| "state_value_len SK_EndEffectorTwist dof = 6"
| "state_value_len SK_EndEffectorWrench dof = 6"

definition state_uses_pose_payload :: "robot_state_kind \<Rightarrow> bool" where
  "state_uses_pose_payload k \<longleftrightarrow> k = SK_EndEffectorPose"

fun command_topic_suffix :: "robot_command_kind \<Rightarrow> string" where
  "command_topic_suffix CK_JointPosition = ''joint_position''"
| "command_topic_suffix CK_JointMit = ''joint_mit''"
| "command_topic_suffix CK_EndPose = ''end_pose''"
| "command_topic_suffix CK_ParallelPosition = ''parallel_position''"
| "command_topic_suffix CK_ParallelMit = ''parallel_mit''"

definition command_uses_pose_payload :: "robot_command_kind \<Rightarrow> bool" where
  "command_uses_pose_payload k \<longleftrightarrow> k = CK_EndPose"

record state_value_limits_entry =
  lim_state_kind :: robot_state_kind
  lim_min :: "f64 list"
  lim_max :: "f64 list"

definition limits_new :: "robot_state_kind \<Rightarrow> f64 list \<Rightarrow> f64 list \<Rightarrow> state_value_limits_entry" where
  "limits_new k lo hi = \<lparr>lim_state_kind = k, lim_min = lo, lim_max = hi\<rparr>"

definition limits_symmetric :: "robot_state_kind \<Rightarrow> f64 \<Rightarrow> nat \<Rightarrow> state_value_limits_entry" where
  "limits_symmetric k bound n =
     \<lparr>lim_state_kind = k, lim_min = replicate n (f_neg bound), lim_max = replicate n bound\<rparr>"

definition limits_uniform :: "robot_state_kind \<Rightarrow> f64 \<Rightarrow> f64 \<Rightarrow> nat \<Rightarrow> state_value_limits_entry" where
  "limits_uniform k lo hi n = \<lparr>lim_state_kind = k, lim_min = replicate n lo, lim_max = replicate n hi\<rparr>"

section \<open>Per-channel encoder settings\<close>

record channel_record_config =
  rec_video_codec :: "encoder_codec option"
  rec_depth_codec :: "encoder_codec option"
  rec_backend :: "encoder_backend option"
  rec_video_backend :: "encoder_backend option"
  rec_depth_backend :: "encoder_backend option"
  rec_chroma_subsampling :: "chroma_subsampling option"
  rec_crf :: "u8 option"
  rec_preset :: "string option"
  rec_tune :: "string option"
  rec_bit_depth :: "u8 option"
  rec_color_space :: "encoder_color_space option"
  rec_queue_size :: "u32 option"

definition ChannelRecordConfig_default :: channel_record_config where
  "ChannelRecordConfig_default = \<lparr>rec_video_codec = None, rec_depth_codec = None, rec_backend = None,
     rec_video_backend = None, rec_depth_backend = None, rec_chroma_subsampling = None,
     rec_crf = None, rec_preset = None, rec_tune = None, rec_bit_depth = None,
     rec_color_space = None, rec_queue_size = None\<rparr>"

definition record_resolve :: "channel_record_config \<Rightarrow> encoder_config" where
  "record_resolve c =
     \<lparr>enc_video_codec = unwrap_or (rec_video_codec c) EncoderCodec_default,
      enc_depth_codec = unwrap_or (rec_depth_codec c) Rvl,
      enc_backend = unwrap_or (rec_backend c) EncoderBackend_default,
      enc_video_backend = unwrap_or (rec_video_backend c) (unwrap_or (rec_backend c) EncoderBackend_default),
      enc_depth_backend = unwrap_or (rec_depth_backend c) (unwrap_or (rec_backend c) EncoderBackend_default),
      enc_chroma_subsampling = unwrap_or (rec_chroma_subsampling c) ChromaSubsampling_default,
      enc_crf = rec_crf c, enc_preset = rec_preset c, enc_tune = rec_tune c,
      enc_bit_depth = unwrap_or (rec_bit_depth c) 8,
      enc_color_space = unwrap_or (rec_color_space c) EncoderColorSpace_default,
      enc_queue_size = unwrap_or (rec_queue_size c) default_queue_size,
      enc_preview = EncoderPreviewConfig_default\<rparr>"

record channel_preview_config =
  cpv_output_mode :: "preview_output_mode option"
  cpv_color_codec :: "encoder_codec option"
  cpv_depth_codec :: "encoder_codec option"
  cpv_backend :: "encoder_backend option"
  cpv_width :: "u32 option"
  cpv_height :: "u32 option"
  cpv_fps :: "u32 option"
  cpv_gop_seconds :: "u32 option"
  cpv_crf :: "u8 option"
  cpv_jpeg_quality :: "i32 option"

definition ChannelPreviewConfig_default :: channel_preview_config where
  "ChannelPreviewConfig_default = \<lparr>cpv_output_mode = None, cpv_color_codec = None,
     cpv_depth_codec = None, cpv_backend = None, cpv_width = None, cpv_height = None,
     cpv_fps = None, cpv_gop_seconds = None, cpv_crf = None, cpv_jpeg_quality = None\<rparr>"

definition preview_resolve :: "channel_preview_config \<Rightarrow> encoder_preview_config" where
  "preview_resolve c =
     \<lparr>pv_output_mode = unwrap_or (cpv_output_mode c) PreviewOutputMode_default,
      pv_color_codec = unwrap_or (cpv_color_codec c) default_preview_color_codec,
      pv_depth_codec = unwrap_or (cpv_depth_codec c) default_preview_depth_codec,
      pv_backend = unwrap_or (cpv_backend c) EncoderBackend_default,
      pv_width = unwrap_or (cpv_width c) default_preview_width,
      pv_height = unwrap_or (cpv_height c) default_preview_height,
      pv_fps = unwrap_or (cpv_fps c) default_preview_fps,
      pv_gop_seconds = unwrap_or (cpv_gop_seconds c) default_preview_gop_seconds,
      pv_crf = opt_or (cpv_crf c) default_preview_crf,
      pv_jpeg_quality = unwrap_or (cpv_jpeg_quality c) default_preview_jpeg_quality\<rparr>"

section \<open>Channels\<close>

record camera_channel_profile =
  prof_width :: u32
  prof_height :: u32
  prof_fps :: u32
  prof_pixel_format :: pixel_format
  prof_native_pixel_format :: "string option"
  prof_mjpeg_quality :: "u32 option"
  prof_h264_bitrate_bps :: "u32 option"
  prof_h264_gop :: "u32 option"
  prof_h264_preset :: "string option"
  prof_h264_tune :: "string option"
  prof_h264_profile :: "string option"

record channel_command_defaults =
  def_joint_mit_kp :: "f64 list"
  def_joint_mit_kd :: "f64 list"
  def_parallel_mit_kp :: "f64 list"
  def_parallel_mit_kd :: "f64 list"

definition ChannelCommandDefaults_default :: channel_command_defaults where
  "ChannelCommandDefaults_default = \<lparr>def_joint_mit_kp = [], def_joint_mit_kd = [],
     def_parallel_mit_kp = [], def_parallel_mit_kd = []\<rparr>"

record direct_joint_compatibility_peer =
  peer_driver :: string
  peer_channel_type :: string

record direct_joint_compatibility =
  compat_can_lead :: "direct_joint_compatibility_peer list"
  compat_can_follow :: "direct_joint_compatibility_peer list"

definition DirectJointCompatibility_default :: direct_joint_compatibility where
  "DirectJointCompatibility_default = \<lparr>compat_can_lead = [], compat_can_follow = []\<rparr>"

record device_channel =
  ch_channel_type :: string
  ch_kind :: device_type
  ch_enabled :: bool
  ch_name :: "string option"
  ch_channel_label :: "string option"
  ch_mode :: "robot_mode option"
  ch_dof :: "u32 option"
  ch_publish_states :: "robot_state_kind list"
  ch_recorded_states :: "robot_state_kind list"
  ch_control_frequency_hz :: "f64 option"
  ch_profile :: "camera_channel_profile option"
  ch_preview_enabled :: bool
  ch_record_enabled :: bool
  ch_record :: "channel_record_config option"
  ch_preview_settings :: "channel_preview_config option"
  ch_command_defaults :: channel_command_defaults
  ch_value_limits :: "state_value_limits_entry list"
  ch_direct_joint_compatibility :: direct_joint_compatibility
  ch_supported_commands :: "robot_command_kind list"
  ch_extra :: toml_table

definition default_enabled_true :: bool where "default_enabled_true = True"

record binary_device =
  dev_name :: string
  dev_executable :: "string option"
  dev_driver :: string
  dev_id :: string
  dev_bus_root :: string
  dev_channels :: "device_channel list"
  dev_extra :: toml_table

definition channel_named :: "binary_device \<Rightarrow> string \<Rightarrow> device_channel option" where
  "channel_named d channel_type = find_by ch_channel_type channel_type (dev_channels d)"

definition profile_validate :: "camera_channel_profile \<Rightarrow> string \<Rightarrow> string \<Rightarrow> check" where
  "profile_validate p device channel_type = checks
     [reject (prof_width p = 0 \<or> prof_height p = 0) (Validation (V_Channel device channel_type ProfileSize)),
      reject (prof_fps p = 0 \<or> prof_fps p > 1000)
        (Validation (V_Channel device channel_type (ProfileFps (prof_fps p)))),
      reject (some_blank (prof_native_pixel_format p))
        (Validation (V_Channel device channel_type ProfileNativeFormat))]"

definition command_defaults_validate :: "channel_command_defaults \<Rightarrow> string \<Rightarrow> string \<Rightarrow> nat \<Rightarrow> check" where
  "command_defaults_validate c device channel_type dof = checks
     (map (\<lambda>(label, values, limit). checks
         [reject (list_ex (\<lambda>v. \<not> is_finite v) values)
            (Validation (V_Channel device channel_type (DefaultsNotFinite label))),
          reject (length values > limit)
            (Validation (V_Channel device channel_type (DefaultsTooLong label limit)))])
       [(''joint_mit_kp'', def_joint_mit_kp c, MAX_DOF),
        (''joint_mit_kd'', def_joint_mit_kd c, MAX_DOF),
        (''parallel_mit_kp'', def_parallel_mit_kp c, MAX_PARALLEL),
        (''parallel_mit_kd'', def_parallel_mit_kd c, MAX_PARALLEL)]
      @ [reject (def_joint_mit_kp c \<noteq> [] \<and> dof \<noteq> 0 \<and> length (def_joint_mit_kp c) \<noteq> dof)
           (Validation (V_Channel device channel_type (DefaultsKpLength dof))),
         reject (def_joint_mit_kd c \<noteq> [] \<and> dof \<noteq> 0 \<and> length (def_joint_mit_kd c) \<noteq> dof)
           (Validation (V_Channel device channel_type (DefaultsKdLength dof)))])"

definition camera_channel_validate :: "device_channel \<Rightarrow> string \<Rightarrow> check" where
  "camera_channel_validate c device =
     (let e = (\<lambda>x. Validation (V_Channel device (ch_channel_type c) x)) in checks
     [reject (ch_mode c \<noteq> None) (e CameraMode),
      reject (ch_dof c \<noteq> None) (e CameraDof),
      reject (ch_publish_states c \<noteq> [] \<or> ch_recorded_states c \<noteq> []) (e CameraStates),
      reject (ch_control_frequency_hz c \<noteq> None) (e CameraFrequency),
      require (ch_profile c) (e CameraProfileMissing)
        (\<lambda>profile. profile_validate profile device (ch_channel_type c)),
      command_defaults_validate (ch_command_defaults c) device (ch_channel_type c) 0])"

definition robot_channel_validate :: "device_channel \<Rightarrow> string \<Rightarrow> check" where
  "robot_channel_validate c device =
     (let e = (\<lambda>x. Validation (V_Channel device (ch_channel_type c) x)) in checks
     [reject (\<not> ch_preview_enabled c) (e RobotPreviewDisabled),
      require (ch_dof c) (e RobotDofMissing) (\<lambda>dof. checks
        [reject (dof = 0 \<or> unat dof > MAX_DOF) (e (RobotDof dof)),
         reject (ch_enabled c \<and> ch_mode c = None) (e RobotModeMissing),
         reject (ch_enabled c \<and> ch_publish_states c = []) (e RobotStatesMissing),
         reject (list_ex (\<lambda>s. s \<notin> set (ch_publish_states c)) (ch_recorded_states c)) (e RobotRecordedSubset),
         on_some (ch_profile c) (\<lambda>_. Err (e RobotProfile)),
         on_some (ch_control_frequency_hz c) (\<lambda>freq.
           reject (\<not> is_finite freq \<or> f_le freq (Fin 0)) (e RobotFrequency)),
         command_defaults_validate (ch_command_defaults c) device (ch_channel_type c) (unat dof)])])"

definition channel_validate :: "device_channel \<Rightarrow> binary_device \<Rightarrow> check" where
  "channel_validate c device = checks
     [reject (blank (ch_channel_type c)) (Validation (V_Channel (dev_name device) (ch_channel_type c) ChannelTypeEmpty)),
      (case ch_kind c of
         Camera \<Rightarrow> camera_channel_validate c (dev_name device)
       | Robot \<Rightarrow> robot_channel_validate c (dev_name device))]"

definition device_validate :: "binary_device \<Rightarrow> check" where
  "device_validate d = checks
     [reject (blank (dev_name d)) (Validation (V_Device DeviceName)),
      reject (blank (dev_driver d)) (Validation (V_Device (DeviceDriver (dev_name d)))),
      reject (some_blank (dev_executable d)) (Validation (V_Device (DeviceExecutable (dev_name d)))),
      reject (blank (dev_id d)) (Validation (V_Device (DeviceId (dev_name d)))),
      reject (blank (dev_bus_root d)) (Validation (V_Device (DeviceBusRoot (dev_name d)))),
      reject (dev_channels d = []) (Validation (V_Device (DeviceNoChannels (dev_name d)))),
      insert_all ch_channel_type
        (\<lambda>c. Validation (V_Device (DeviceDuplicateChannel (dev_name d) (ch_channel_type c))))
        (\<lambda>c. channel_validate c d) {} (dev_channels d)]"

definition BinaryDeviceConfig_from_str :: "(string \<Rightarrow> (binary_device, string) result) \<Rightarrow> string \<Rightarrow> (binary_device, config_error) result" where
  "BinaryDeviceConfig_from_str toml = from_str toml device_validate"

section \<open>When channels and devices are accepted\<close>

lemma is_ok_profile_validate:
  "is_ok (profile_validate p d c) \<longleftrightarrow> 0 < prof_width p \<and> 0 < prof_height p \<and> 0 < prof_fps p
     \<and> prof_fps p \<le> 1000 \<and> \<not> some_blank (prof_native_pixel_format p)"
  by (auto simp: profile_validate_def ok_iff word_neq_0_conv)

definition gains_ok :: "nat \<Rightarrow> f64 list \<Rightarrow> bool" where
  "gains_ok limit xs \<longleftrightarrow> list_all is_finite xs \<and> length xs \<le> limit"

lemma is_ok_command_defaults_validate:
  "is_ok (command_defaults_validate c d t dof) \<longleftrightarrow>
     gains_ok MAX_DOF (def_joint_mit_kp c) \<and> gains_ok MAX_DOF (def_joint_mit_kd c)
     \<and> gains_ok MAX_PARALLEL (def_parallel_mit_kp c) \<and> gains_ok MAX_PARALLEL (def_parallel_mit_kd c)
     \<and> (dof \<noteq> 0 \<longrightarrow> (def_joint_mit_kp c = [] \<or> length (def_joint_mit_kp c) = dof)
         \<and> (def_joint_mit_kd c = [] \<or> length (def_joint_mit_kd c) = dof))"
  by (auto simp: command_defaults_validate_def ok_iff gains_ok_def list_ex_iff list_all_iff not_less)

lemma is_ok_camera_channel_validate:
  "is_ok (camera_channel_validate c d) \<longleftrightarrow> ch_mode c = None \<and> ch_dof c = None
     \<and> ch_publish_states c = [] \<and> ch_recorded_states c = [] \<and> ch_control_frequency_hz c = None
     \<and> (\<exists>p. ch_profile c = Some p \<and> is_ok (profile_validate p d (ch_channel_type c)))
     \<and> is_ok (command_defaults_validate (ch_command_defaults c) d (ch_channel_type c) 0)"
  by (auto simp: camera_channel_validate_def Let_def ok_iff)

lemma is_ok_robot_channel_validate:
  "is_ok (robot_channel_validate c d) \<longleftrightarrow> ch_preview_enabled c
     \<and> (\<exists>dof. ch_dof c = Some dof \<and> dof \<noteq> 0 \<and> unat dof \<le> MAX_DOF
         \<and> (ch_enabled c \<longrightarrow> ch_mode c \<noteq> None \<and> ch_publish_states c \<noteq> [])
         \<and> set (ch_recorded_states c) \<subseteq> set (ch_publish_states c) \<and> ch_profile c = None
         \<and> (\<forall>f. ch_control_frequency_hz c = Some f \<longrightarrow> is_finite f \<and> \<not> f_le f (Fin 0))
         \<and> is_ok (command_defaults_validate (ch_command_defaults c) d (ch_channel_type c) (unat dof)))"
  unfolding robot_channel_validate_def Let_def ok_iff by (fastforce simp: list_ex_iff)

lemma is_ok_channel_validate:
  "is_ok (channel_validate c d) \<longleftrightarrow> \<not> blank (ch_channel_type c)
     \<and> (ch_kind c = Camera \<longrightarrow> is_ok (camera_channel_validate c (dev_name d)))
     \<and> (ch_kind c = Robot \<longrightarrow> is_ok (robot_channel_validate c (dev_name d)))"
  by (auto simp: channel_validate_def ok_iff split: device_type.splits)

lemma is_ok_device_validate:
  "is_ok (device_validate d) \<longleftrightarrow> \<not> blank (dev_name d) \<and> \<not> blank (dev_driver d)
     \<and> \<not> some_blank (dev_executable d) \<and> \<not> blank (dev_id d) \<and> \<not> blank (dev_bus_root d)
     \<and> dev_channels d \<noteq> [] \<and> distinct (map ch_channel_type (dev_channels d))
     \<and> (\<forall>c \<in> set (dev_channels d). is_ok (channel_validate c d))"
  by (simp add: device_validate_def ok_iff is_ok_insert_all)

interpretation channels: keyed_table ch_channel_type dev_channels channel_named
  "\<lambda>d. is_ok (device_validate d)"
  by unfold_locales (simp_all add: channel_named_def is_ok_device_validate)

section \<open>Resolved encoder settings\<close>

lemma record_resolve_default: "record_resolve ChannelRecordConfig_default = EncoderConfig_default"
  by (simp add: record_resolve_def ChannelRecordConfig_default_def EncoderConfig_default_def
      default_depth_codec_def default_bit_depth_def default_backend_for_codec_def EncoderBackend_default_def)

lemma preview_resolve_default: "preview_resolve ChannelPreviewConfig_default = EncoderPreviewConfig_default"
  by (simp add: preview_resolve_def ChannelPreviewConfig_default_def EncoderPreviewConfig_default_def
      EncoderBackend_default_def)

end
