(* ===== verification/Config_Project.thy ===== *)
theory Config_Project
  imports Config_Device
begin

text \<open>
  The project configuration, lines 1424 to 1496, 2108 to 2481 and 3182 to 3314 of
  \<^verbatim>\<open>rollio-types/src/config.rs\<close>: channel pairings with their three mapping strategies, the
  whole-project validator and the lookups it relies on.
\<close>

section \<open>Records\<close>

record channel_pairing =
  pr_leader_device :: string
  pr_leader_channel_type :: string
  pr_follower_device :: string
  pr_follower_channel_type :: string
  pr_mapping :: mapping_strategy
  pr_leader_state :: robot_state_kind
  pr_follower_command :: robot_command_kind
  pr_joint_index_map :: "u32 list"
  pr_joint_scales :: "f64 list"

record project_config =
  pj_project_name :: string
  pj_mode :: collection_mode
  pj_episode :: episode_config
  pj_devices :: "binary_device list"
  pj_pairings :: "channel_pairing list"
  pj_assembler :: assembler_config
  pj_storage :: storage_config
  pj_monitor :: monitor_config
  pj_controller :: controller_config
  pj_visualizer :: visualizer_config
  pj_ui :: ui_runtime_config

record project_config_serde =
  pjs_project_name :: string
  pjs_mode :: "collection_mode option"
  pjs_episode :: episode_config
  pjs_devices :: "binary_device list"
  pjs_pairings :: "channel_pairing list"
  pjs_assembler :: assembler_config
  pjs_storage :: storage_config
  pjs_monitor :: monitor_config
  pjs_controller :: controller_config
  pjs_visualizer :: visualizer_config
  pjs_ui :: ui_runtime_config

definition infer_collection_mode_v2 :: "channel_pairing list \<Rightarrow> collection_mode" where
  "infer_collection_mode_v2 pairings = Teleop"

definition ProjectConfig_from_serde :: "project_config_serde \<Rightarrow> project_config" where
  "ProjectConfig_from_serde v =
     \<lparr>pj_project_name = pjs_project_name v,
      pj_mode = unwrap_or (pjs_mode v) (infer_collection_mode_v2 (pjs_pairings v)),
      pj_episode = pjs_episode v, pj_devices = pjs_devices v, pj_pairings = pjs_pairings v,
      pj_assembler = pjs_assembler v, pj_storage = pjs_storage v, pj_monitor = pjs_monitor v,
      pj_controller = pjs_controller v, pj_visualizer = pjs_visualizer v, pj_ui = pjs_ui v\<rparr>"

definition default_project_name :: string where "default_project_name = ''default''"

definition draft_setup_template :: project_config where
  "draft_setup_template =
     \<lparr>pj_project_name = default_project_name, pj_mode = Intervention,
      pj_episode = EpisodeConfig_default, pj_devices = [], pj_pairings = [],
      pj_assembler = AssemblerConfig_default, pj_storage = StorageConfig_default,
      pj_monitor = MonitorConfig_default, pj_controller = ControllerConfig_default,
      pj_visualizer = \<lparr>vis_port = 19090\<rparr>, pj_ui = UiRuntimeConfig_default\<rparr>"

definition device_named :: "project_config \<Rightarrow> string \<Rightarrow> binary_device option" where
  "device_named config name = find_by dev_name name (pj_devices config)"

section \<open>Pairings\<close>

definition pairing_err :: "channel_pairing \<Rightarrow> pairing_error \<Rightarrow> config_error" where
  "pairing_err p x = Validation (V_Pairing (pr_leader_device p) (pr_leader_channel_type p)
     (pr_follower_device p) (pr_follower_channel_type p) x)"

definition validate_direct_joint_dof_and_index_map :: "channel_pairing \<Rightarrow> device_channel \<Rightarrow> device_channel \<Rightarrow> check" where
  "validate_direct_joint_dof_and_index_map p leader follower =
     (let leader_dof = unwrap_or (ch_dof leader) 0;
          follower_dof = unwrap_or (ch_dof follower) 0;
          index_map = pr_joint_index_map p
      in checks
        [if index_map = [] then
           reject (leader_dof < follower_dof) (pairing_err p (IdentityDof leader_dof follower_dof))
         else checks
           [reject (length index_map \<noteq> unat follower_dof)
              (pairing_err p (IndexMapLength (length index_map) follower_dof)),
            checks (map (\<lambda>(index, leader_joint).
                reject (leader_joint \<ge> leader_dof) (pairing_err p (IndexOutOfRange index leader_joint leader_dof)))
              (enumerate 0 index_map))],
         if pr_joint_scales p \<noteq> [] then
           let expected_len = if index_map = [] then unat follower_dof else length index_map
           in reject (length (pr_joint_scales p) \<noteq> expected_len)
                (pairing_err p (ScalesLength (length (pr_joint_scales p)) expected_len))
         else Ok ()])"

definition peer_listed :: "direct_joint_compatibility_peer list \<Rightarrow> string \<Rightarrow> string \<Rightarrow> bool" where
  "peer_listed peers driver channel_type =
     list_ex (\<lambda>peer. peer_driver peer = driver \<and> peer_channel_type peer = channel_type) peers"

definition require_direct_joint_compatibility :: "channel_pairing \<Rightarrow> binary_device \<Rightarrow> device_channel
    \<Rightarrow> binary_device \<Rightarrow> device_channel \<Rightarrow> check" where
  "require_direct_joint_compatibility p leader_device leader follower_device follower =
     (let leader_endorses = peer_listed (compat_can_lead (ch_direct_joint_compatibility leader))
            (dev_driver follower_device) (ch_channel_type follower);
          follower_endorses = peer_listed (compat_can_follow (ch_direct_joint_compatibility follower))
            (dev_driver leader_device) (ch_channel_type leader)
      in if leader_endorses \<and> follower_endorses then Ok ()
         else Err (pairing_err p (NotEndorsed leader_endorses follower_endorses)))"

text \<open>\<open>supported_commands\<close> is only consulted once a driver query has filled it.\<close>

definition lacks_commands :: "device_channel \<Rightarrow> robot_command_kind list \<Rightarrow> bool" where
  "lacks_commands follower kinds \<longleftrightarrow> ch_supported_commands follower \<noteq> []
     \<and> list_all (\<lambda>k. k \<notin> set (ch_supported_commands follower)) kinds"

definition direct_joint_validate :: "channel_pairing \<Rightarrow> binary_device \<Rightarrow> device_channel
    \<Rightarrow> binary_device \<Rightarrow> device_channel \<Rightarrow> check" where
  "direct_joint_validate p leader_device leader follower_device follower = checks
     [reject (pr_leader_state p \<noteq> SK_JointPosition) (pairing_err p (DirectLeaderState (pr_leader_state p))),
      reject (pr_follower_command p \<noteq> CK_JointPosition)
        (pairing_err p (DirectFollowerCommand (pr_follower_command p))),
      reject (lacks_commands follower [CK_JointPosition]) (pairing_err p DirectUnsupported),
      validate_direct_joint_dof_and_index_map p leader follower,
      if compat_can_lead (ch_direct_joint_compatibility leader) \<noteq> []
         \<or> compat_can_follow (ch_direct_joint_compatibility follower) \<noteq> []
      then require_direct_joint_compatibility p leader_device leader follower_device follower
      else Ok ()]"

definition cartesian_validate :: "channel_pairing \<Rightarrow> device_channel \<Rightarrow> check" where
  "cartesian_validate p follower = checks
     [reject (pr_leader_state p \<noteq> SK_EndEffectorPose \<or> pr_follower_command p \<noteq> CK_EndPose)
        (pairing_err p CartesianKinds),
      reject (lacks_commands follower [CK_EndPose]) (pairing_err p CartesianUnsupported),
      reject (pr_joint_index_map p \<noteq> [] \<or> pr_joint_scales p \<noteq> []) (pairing_err p CartesianExtraMaps)]"

definition parallel_validate :: "channel_pairing \<Rightarrow> device_channel \<Rightarrow> device_channel \<Rightarrow> check" where
  "parallel_validate p leader follower = checks
     [reject (ch_dof leader \<noteq> Some 1 \<or> ch_dof follower \<noteq> Some 1)
        (pairing_err p (ParallelDof (ch_dof leader) (ch_dof follower))),
      reject (pr_leader_state p \<noteq> SK_ParallelPosition) (pairing_err p (ParallelLeaderState (pr_leader_state p))),
      reject (pr_follower_command p \<noteq> CK_ParallelPosition \<and> pr_follower_command p \<noteq> CK_ParallelMit)
        (pairing_err p (ParallelFollowerCommand (pr_follower_command p))),
      reject (lacks_commands follower [CK_ParallelPosition, CK_ParallelMit]) (pairing_err p ParallelUnsupported),
      reject (pr_joint_index_map p \<noteq> []) (pairing_err p ParallelIndexMap),
      (case pr_joint_scales p of
         [ratio] \<Rightarrow> reject (\<not> is_finite ratio \<or> ratio = Fin 0) (pairing_err p (ParallelRatio ratio))
       | scales \<Rightarrow> Err (pairing_err p (ParallelScalesLength (length scales))))]"

definition pairing_validate :: "channel_pairing \<Rightarrow> project_config \<Rightarrow> check" where
  "pairing_validate p config =
     require (device_named config (pr_leader_device p)) (pairing_err p UnknownLeaderDevice) (\<lambda>leader_device.
     require (device_named config (pr_follower_device p)) (pairing_err p UnknownFollowerDevice) (\<lambda>follower_device.
     require (channel_named leader_device (pr_leader_channel_type p)) (pairing_err p UnknownLeaderChannel) (\<lambda>leader.
     require (channel_named follower_device (pr_follower_channel_type p)) (pairing_err p UnknownFollowerChannel) (\<lambda>follower.
     checks
       [reject (ch_kind leader \<noteq> Robot \<or> ch_kind follower \<noteq> Robot) (pairing_err p PairingNotRobot),
        reject (pr_leader_device p = pr_follower_device p \<and> pr_leader_channel_type p = pr_follower_channel_type p)
          (pairing_err p PairingSameChannel),
        reject (pr_leader_state p \<notin> set (ch_publish_states leader)) (pairing_err p LeaderStateNotPublished),
        (case pr_mapping p of
           DirectJoint \<Rightarrow> direct_joint_validate p leader_device leader follower_device follower
         | Cartesian \<Rightarrow> cartesian_validate p follower
         | Parallel \<Rightarrow> parallel_validate p leader follower),
        reject (list_ex (\<lambda>v. \<not> is_finite v) (pr_joint_scales p)) (pairing_err p ScalesNotFinite)]))))"

section \<open>The project validator\<close>

text \<open>The loop over the devices with its \<open>names\<close> and \<open>bus_roots\<close> sets.\<close>

fun devices_validate :: "string set \<Rightarrow> string set \<Rightarrow> binary_device list \<Rightarrow> check" where
  "devices_validate names bus_roots [] = Ok ()"
| "devices_validate names bus_roots (d # ds) =
     (if dev_name d \<in> names then Err (Validation (V_Project (DuplicateDevice (dev_name d))))
      else if dev_bus_root d \<in> bus_roots then Err (Validation (V_Project (DuplicateBusRoot (dev_bus_root d))))
      else bind_ok (device_validate d) (\<lambda>_.
        devices_validate (insert (dev_name d) names) (insert (dev_bus_root d) bus_roots) ds))"

text \<open>\<open>channel.record.as_ref().map(|r| r.resolve()).unwrap_or_default()\<close> and its preview twin.\<close>

definition record_settings :: "device_channel \<Rightarrow> encoder_config" where
  "record_settings c = unwrap_or (map_option record_resolve (ch_record c)) EncoderConfig_default"

definition preview_settings :: "device_channel \<Rightarrow> encoder_preview_config" where
  "preview_settings c = unwrap_or (map_option preview_resolve (ch_preview_settings c)) EncoderPreviewConfig_default"

definition validate_per_channel_encoder_configs :: "project_config \<Rightarrow> check" where
  "validate_per_channel_encoder_configs config = checks (map (\<lambda>device. checks (map (\<lambda>channel.
       if ch_kind channel \<noteq> Camera \<or> \<not> ch_enabled channel then Ok ()
       else map_err (\<lambda>e. Validation (V_RecordConfig (dev_name device) (ch_channel_type channel) e))
         (encoder_validate (record_settings channel))) (dev_channels device))) (pj_devices config))"

definition validate_preview_compatibility :: "project_config \<Rightarrow> check" where
  "validate_preview_compatibility config = checks (map (\<lambda>device. checks (map (\<lambda>channel.
       if ch_kind channel \<noteq> Camera \<or> \<not> ch_enabled channel \<or> \<not> ch_preview_enabled channel then Ok ()
       else if pv_output_mode (preview_settings channel) = Encoded then Ok ()
       else reject (case ch_profile channel of None \<Rightarrow> False
           | Some profile \<Rightarrow> prof_pixel_format profile = Px_H264AnnexB)
         (Validation (V_Channel (dev_name device) (ch_channel_type channel) H264PreviewNeedsEncoded)))
       (dev_channels device))) (pj_devices config))"

definition project_validate :: "project_config \<Rightarrow> check" where
  "project_validate config = checks
     [reject (blank (pj_project_name config)) (Validation (V_Project ProjectName)),
      episode_validate (pj_episode config),
      reject (pj_devices config = []) (Validation (V_Project NoDevices)),
      devices_validate {} {} (pj_devices config),
      checks (map (\<lambda>pairing. pairing_validate pairing config) (pj_pairings config)),
      validate_per_channel_encoder_configs config,
      validate_preview_compatibility config,
      assembler_validate (pj_assembler config),
      storage_validate (pj_storage config),
      monitor_validate (pj_monitor config),
      controller_validate (pj_controller config),
      visualizer_validate (pj_visualizer config),
      ui_validate (pj_ui config)]"

definition ProjectConfig_from_str :: "(string \<Rightarrow> (project_config_serde, string) result) \<Rightarrow> string \<Rightarrow> (project_config, config_error) result" where
  "ProjectConfig_from_str toml = from_str (\<lambda>s. bind_ok (toml s) (\<lambda>v. Ok (ProjectConfig_from_serde v))) project_validate"

section \<open>When a project is accepted\<close>

lemma is_ok_devices_validate:
  "is_ok (devices_validate names roots ds) \<longleftrightarrow>
     distinct (map dev_name ds) \<and> distinct (map dev_bus_root ds)
     \<and> dev_name ` set ds \<inter> names = {} \<and> dev_bus_root ` set ds \<inter> roots = {}
     \<and> (\<forall>d \<in> set ds. is_ok (device_validate d))"
proof (induction ds arbitrary: names roots)
  case Nil
  then show ?case by simp
next
  case (Cons d ds)
  then show ?case by (cases "device_validate d") (auto simp: bind_ok_def)
qed

text \<open>The facts a validated project gives to the code that derives runtime configurations.\<close>

definition project_ok :: "project_config \<Rightarrow> bool" where
  "project_ok config \<longleftrightarrow> is_ok (project_validate config)"

lemma project_ok_devices:
  assumes "project_ok config"
  shows "pj_devices config \<noteq> []" "distinct (map dev_name (pj_devices config))"
    "distinct (map dev_bus_root (pj_devices config))"
    "d \<in> set (pj_devices config) \<Longrightarrow> is_ok (device_validate d)"
  using assms by (simp_all add: project_ok_def project_validate_def ok_iff is_ok_devices_validate)

lemma project_ok_sections:
  assumes "project_ok config"
  shows "is_ok (episode_validate (pj_episode config))" "is_ok (assembler_validate (pj_assembler config))"
    "is_ok (storage_validate (pj_storage config))" "is_ok (monitor_validate (pj_monitor config))"
    "is_ok (controller_validate (pj_controller config))" "is_ok (visualizer_validate (pj_visualizer config))"
    "is_ok (ui_validate (pj_ui config))"
  using assms unfolding project_ok_def project_validate_def is_ok_checks_Cons by blast+

lemma project_ok_pairing:
  "project_ok config \<Longrightarrow> p \<in> set (pj_pairings config) \<Longrightarrow> is_ok (pairing_validate p config)"
  by (simp add: project_ok_def project_validate_def is_ok_checks_Cons is_ok_checks_map)

lemma project_ok_record_settings:
  assumes "project_ok config" "d \<in> set (pj_devices config)" "c \<in> set (dev_channels d)"
    "ch_kind c = Camera" "ch_enabled c"
  shows "is_ok (encoder_validate (record_settings c))"
proof -
  have "is_ok (validate_per_channel_encoder_configs config)"
    using assms(1) by (simp add: project_ok_def project_validate_def is_ok_checks_Cons)
  with assms(2-5) show ?thesis
    by (fastforce simp: validate_per_channel_encoder_configs_def is_ok_checks_map is_ok_map_err)
qed

lemma project_ok_preview_compatible:
  assumes "project_ok config" "d \<in> set (pj_devices config)" "c \<in> set (dev_channels d)"
    "ch_kind c = Camera" "ch_enabled c" "ch_preview_enabled c" "ch_profile c = Some prof"
    "prof_pixel_format prof = Px_H264AnnexB"
  shows "pv_output_mode (preview_settings c) = Encoded"
proof -
  have "is_ok (validate_preview_compatibility config)"
    using assms(1) by (simp add: project_ok_def project_validate_def is_ok_checks_Cons)
  with assms(2-8) show ?thesis
    by (fastforce simp: validate_preview_compatibility_def is_ok_checks_map is_ok_reject split: if_splits)
qed

interpretation devices: keyed_table dev_name pj_devices device_named project_ok
  by unfold_locales (simp_all add: device_named_def project_ok_devices)

text \<open>What an accepted pairing says of its two channels.\<close>

lemma pairing_validate_channels:
  assumes "is_ok (pairing_validate p config)"
  obtains ld fd leader follower where
    "device_named config (pr_leader_device p) = Some ld"
    "device_named config (pr_follower_device p) = Some fd"
    "channel_named ld (pr_leader_channel_type p) = Some leader"
    "channel_named fd (pr_follower_channel_type p) = Some follower"
    "ch_kind leader = Robot" "ch_kind follower = Robot"
    "pr_leader_state p \<in> set (ch_publish_states leader)"
    "list_all is_finite (pr_joint_scales p)"
    "pr_mapping p = DirectJoint \<Longrightarrow> is_ok (direct_joint_validate p ld leader fd follower)"
    "pr_mapping p = Cartesian \<Longrightarrow> is_ok (cartesian_validate p follower)"
    "pr_mapping p = Parallel \<Longrightarrow> is_ok (parallel_validate p leader follower)"
  using assms unfolding pairing_validate_def ok_iff
  by (cases "pr_mapping p") (auto simp: list_ex_iff list_all_iff)

lemma ball_enumerate: "(\<forall>x \<in> set (enumerate n xs). P (snd x)) \<longleftrightarrow> (\<forall>y \<in> set xs. P y)"
  by (induction xs arbitrary: n) auto

lemma is_ok_dof_and_index_map:
  "is_ok (validate_direct_joint_dof_and_index_map p leader follower) \<longleftrightarrow>
     (let ld = unwrap_or (ch_dof leader) 0; fd = unwrap_or (ch_dof follower) 0 in
      (if pr_joint_index_map p = [] then fd \<le> ld
       else length (pr_joint_index_map p) = unat fd \<and> (\<forall>j \<in> set (pr_joint_index_map p). j < ld))
      \<and> (pr_joint_scales p = [] \<or> length (pr_joint_scales p) = unat fd))"
  using ball_enumerate [of 0 "pr_joint_index_map p" "\<lambda>j. j < unwrap_or (ch_dof leader) 0"]
  by (auto simp: validate_direct_joint_dof_and_index_map_def Let_def ok_iff not_less not_le
      split_def)

lemma is_ok_direct_joint_validate:
  "is_ok (direct_joint_validate p ld leader fd follower) \<Longrightarrow>
     pr_leader_state p = SK_JointPosition \<and> pr_follower_command p = CK_JointPosition
     \<and> is_ok (validate_direct_joint_dof_and_index_map p leader follower)"
  by (auto simp: direct_joint_validate_def is_ok_checks_Cons is_ok_reject)

lemma is_ok_parallel_validate:
  "is_ok (parallel_validate p leader follower) \<Longrightarrow>
     ch_dof leader = Some 1 \<and> ch_dof follower = Some 1 \<and> pr_leader_state p = SK_ParallelPosition
     \<and> (pr_follower_command p = CK_ParallelPosition \<or> pr_follower_command p = CK_ParallelMit)
     \<and> pr_joint_index_map p = [] \<and> (\<exists>r. pr_joint_scales p = [Fin r] \<and> r \<noteq> 0)"
  by (auto simp: parallel_validate_def is_ok_checks_Cons is_ok_reject is_finite_iff
      split: list.splits)

lemma is_ok_cartesian_validate:
  "is_ok (cartesian_validate p follower) \<Longrightarrow>
     pr_leader_state p = SK_EndEffectorPose \<and> pr_follower_command p = CK_EndPose
     \<and> pr_joint_index_map p = [] \<and> pr_joint_scales p = []"
  by (auto simp: cartesian_validate_def is_ok_checks_Cons is_ok_reject)

section \<open>Properties\<close>

text \<open>A project file without a visualizer section is rejected: the section
  defaults to port zero, which the validator refuses.\<close>

theorem missing_visualizer_section_rejected:
  assumes "toml s = Ok v" and "pjs_visualizer v = VisualizerConfig_default"
  shows "\<not> is_ok (ProjectConfig_from_str toml s)"
proof
  assume "is_ok (ProjectConfig_from_str toml s)"
  then have "project_ok (ProjectConfig_from_serde v)"
    using assms(1) by (auto simp: is_ok_def ProjectConfig_from_str_def from_str_def bind_ok_def map_err_def
        project_ok_def split: sum.splits)
  from project_ok_sections(6) [OF this] assms(2) show False
    by (simp add: ok_iff ProjectConfig_from_serde_def VisualizerConfig_default_def)
qed

theorem missing_visualizer_section_rejected_witness:
  "\<not> is_ok (ProjectConfig_from_str (\<lambda>_. Ok
      \<lparr>pjs_project_name = ''demo'', pjs_mode = None, pjs_episode = EpisodeConfig_default, pjs_devices = [],
       pjs_pairings = [], pjs_assembler = AssemblerConfig_default, pjs_storage = StorageConfig_default,
       pjs_monitor = MonitorConfig_default, pjs_controller = ControllerConfig_default,
       pjs_visualizer = VisualizerConfig_default, pjs_ui = UiRuntimeConfig_default\<rparr>) [])"
  by (rule missing_visualizer_section_rejected [OF refl]) (simp only: project_config_serde.simps)

end
