(* ===== verification/Bus.thy ===== *)
theory Bus
  imports Prelude
begin

text \<open>
  The iceoryx2 service names and service parameters of \<^verbatim>\<open>rollio-bus/src/lib.rs\<close>. Every
  per-channel name has the shape \<open>bus_root/channel_type<suffix>\<close>; the interface
  \<open>channel_topic\<close> states that shape and derives from it that the names are never blank and
  identify their channel.
\<close>

definition CONTROL_EVENTS_SERVICE :: string where "CONTROL_EVENTS_SERVICE = ''control/events''"
definition EPISODE_COMMAND_SERVICE :: string where "EPISODE_COMMAND_SERVICE = ''control/episode-command''"
definition EPISODE_STATUS_SERVICE :: string where "EPISODE_STATUS_SERVICE = ''control/episode-status''"
definition SETUP_COMMAND_SERVICE :: string where "SETUP_COMMAND_SERVICE = ''setup/command''"
definition SETUP_STATE_SERVICE :: string where "SETUP_STATE_SERVICE = ''setup/state''"
definition EPISODE_READY_SERVICE :: string where "EPISODE_READY_SERVICE = ''assembler/episode-ready''"
definition EPISODE_STORED_SERVICE :: string where "EPISODE_STORED_SERVICE = ''storage/episode-stored''"
definition EPISODE_DROPPED_SERVICE :: string where "EPISODE_DROPPED_SERVICE = ''assembler/episode-dropped''"
definition BACKPRESSURE_SERVICE :: string where "BACKPRESSURE_SERVICE = ''encoder/backpressure''"

definition STATE_BUFFER :: nat where "STATE_BUFFER = 1024"
definition STATE_MAX_PUBLISHERS :: nat where "STATE_MAX_PUBLISHERS = 16"
definition STATE_MAX_SUBSCRIBERS :: nat where "STATE_MAX_SUBSCRIBERS = 16"
definition STATE_MAX_NODES :: nat where "STATE_MAX_NODES = 16"
definition RECORDING_PACKET_BUFFER :: nat where "RECORDING_PACKET_BUFFER = STATE_BUFFER"
definition PREVIEW_PACKET_BUFFER :: nat where "PREVIEW_PACKET_BUFFER = 8"
definition STREAM_CONFIG_HISTORY_SIZE :: nat where "STREAM_CONFIG_HISTORY_SIZE = 1"
definition CAMERA_FRAMES_MAX_SUBSCRIBERS :: nat where "CAMERA_FRAMES_MAX_SUBSCRIBERS = 4"

definition camera_frames_service_name :: "string \<Rightarrow> string" where
  "camera_frames_service_name device_name = ''camera/'' @ device_name @ ''/frames''"

definition robot_state_service_name :: "string \<Rightarrow> string" where
  "robot_state_service_name device_name = ''robot/'' @ device_name @ ''/state''"

definition robot_command_service_name :: "string \<Rightarrow> string" where
  "robot_command_service_name device_name = ''robot/'' @ device_name @ ''/command''"

definition device_info_service_name :: "string \<Rightarrow> string" where
  "device_info_service_name bus_root = bus_root @ ''/info''"

definition device_shutdown_service_name :: "string \<Rightarrow> string" where
  "device_shutdown_service_name bus_root = bus_root @ ''/shutdown''"

definition channel_status_service_name :: "string \<Rightarrow> string \<Rightarrow> string" where
  "channel_status_service_name bus_root channel_type = bus_root @ ''/'' @ channel_type @ ''/status''"

definition channel_mode_info_service_name :: "string \<Rightarrow> string \<Rightarrow> string" where
  "channel_mode_info_service_name bus_root channel_type = bus_root @ ''/'' @ channel_type @ ''/info/mode''"

definition channel_mode_control_service_name :: "string \<Rightarrow> string \<Rightarrow> string" where
  "channel_mode_control_service_name bus_root channel_type = bus_root @ ''/'' @ channel_type @ ''/control/mode''"

definition channel_profile_info_service_name :: "string \<Rightarrow> string \<Rightarrow> string" where
  "channel_profile_info_service_name bus_root channel_type = bus_root @ ''/'' @ channel_type @ ''/info/profile''"

definition channel_profile_control_service_name :: "string \<Rightarrow> string \<Rightarrow> string" where
  "channel_profile_control_service_name bus_root channel_type =
     bus_root @ ''/'' @ channel_type @ ''/control/profile''"

definition channel_frames_service_name :: "string \<Rightarrow> string \<Rightarrow> string" where
  "channel_frames_service_name bus_root channel_type = bus_root @ ''/'' @ channel_type @ ''/frames''"

definition channel_state_service_name :: "string \<Rightarrow> string \<Rightarrow> string \<Rightarrow> string" where
  "channel_state_service_name bus_root channel_type state_kind =
     bus_root @ ''/'' @ channel_type @ ''/states/'' @ state_kind"

definition channel_command_service_name :: "string \<Rightarrow> string \<Rightarrow> string \<Rightarrow> string" where
  "channel_command_service_name bus_root channel_type command_kind =
     bus_root @ ''/'' @ channel_type @ ''/commands/'' @ command_kind"

definition recording_packet_service_name :: "string \<Rightarrow> string \<Rightarrow> string" where
  "recording_packet_service_name bus_root channel_type = bus_root @ ''/'' @ channel_type @ ''/recording-packets''"

definition preview_packet_service_name :: "string \<Rightarrow> string \<Rightarrow> string" where
  "preview_packet_service_name bus_root channel_type = bus_root @ ''/'' @ channel_type @ ''/preview-packets''"

definition preview_jpeg_service_name :: "string \<Rightarrow> string \<Rightarrow> string" where
  "preview_jpeg_service_name bus_root channel_type = bus_root @ ''/'' @ channel_type @ ''/preview-jpeg''"

definition preview_control_service_name :: "string \<Rightarrow> string \<Rightarrow> string" where
  "preview_control_service_name bus_root channel_type = bus_root @ ''/'' @ channel_type @ ''/preview-control''"

definition channel_camera_control_service_name :: "string \<Rightarrow> string \<Rightarrow> string" where
  "channel_camera_control_service_name bus_root channel_type =
     bus_root @ ''/'' @ channel_type @ ''/control/camera''"

section \<open>What a channel name identifies\<close>

lemma slash_not_blank: "CHR ''/'' \<in> set s \<Longrightarrow> \<not> blank s"
  by (erule not_blankI) (auto simp: byte_def)

locale channel_topic =
  fixes topic :: "string \<Rightarrow> string \<Rightarrow> string" and suffix :: string
  assumes shape: "topic r c = r @ CHR ''/'' # c @ suffix"
begin

lemma topic_not_blank: "\<not> blank (topic r c)"
  by (rule slash_not_blank) (simp add: shape)

lemma topic_inject:
  assumes "CHR ''/'' \<notin> set r" and "CHR ''/'' \<notin> set r'" and "topic r c = topic r' c'"
  shows "r = r' \<and> c = c'"
  using append_sep_inject [OF assms(1,2), of "c @ suffix" "c' @ suffix"] assms(3) unfolding shape by simp

lemma topic_collision: "topic (r @ CHR ''/'' # m) c = topic r (m @ CHR ''/'' # c)"
  by (simp add: shape)

end

interpretation status_topic: channel_topic channel_status_service_name "''/status''"
  by unfold_locales (simp add: channel_status_service_name_def)
interpretation mode_info_topic: channel_topic channel_mode_info_service_name "''/info/mode''"
  by unfold_locales (simp add: channel_mode_info_service_name_def)
interpretation mode_control_topic: channel_topic channel_mode_control_service_name "''/control/mode''"
  by unfold_locales (simp add: channel_mode_control_service_name_def)
interpretation profile_info_topic: channel_topic channel_profile_info_service_name "''/info/profile''"
  by unfold_locales (simp add: channel_profile_info_service_name_def)
interpretation profile_control_topic: channel_topic channel_profile_control_service_name "''/control/profile''"
  by unfold_locales (simp add: channel_profile_control_service_name_def)
interpretation frames_topic: channel_topic channel_frames_service_name "''/frames''"
  by unfold_locales (simp add: channel_frames_service_name_def)
interpretation recording_topic: channel_topic recording_packet_service_name "''/recording-packets''"
  by unfold_locales (simp add: recording_packet_service_name_def)
interpretation preview_topic: channel_topic preview_packet_service_name "''/preview-packets''"
  by unfold_locales (simp add: preview_packet_service_name_def)
interpretation jpeg_topic: channel_topic preview_jpeg_service_name "''/preview-jpeg''"
  by unfold_locales (simp add: preview_jpeg_service_name_def)
interpretation preview_control_topic: channel_topic preview_control_service_name "''/preview-control''"
  by unfold_locales (simp add: preview_control_service_name_def)
interpretation camera_control_topic: channel_topic channel_camera_control_service_name "''/control/camera''"
  by unfold_locales (simp add: channel_camera_control_service_name_def)
interpretation state_topic: channel_topic "\<lambda>r c. channel_state_service_name r c k" "''/states/'' @ k" for k
  by unfold_locales (simp add: channel_state_service_name_def)
interpretation command_topic: channel_topic "\<lambda>r c. channel_command_service_name r c k" "''/commands/'' @ k" for k
  by unfold_locales (simp add: channel_command_service_name_def)

end
