(* ===== verification/Config_Runtime.thy ===== *)
theory Config_Runtime
  imports Config_Project Bus
begin

text \<open>
  The configurations of the child processes and their derivation from the project, lines
  2501 to 3058 and 3075 to 3860 of \<^verbatim>\<open>rollio-types/src/config.rs\<close>: one record and one
  validator per child (visualizer, teleop router, encoder, assembler), the resolved
  channels, and the derivation functions \<open>*_runtime_config_v2\<close> of \<open>ProjectConfig\<close>. The
  interface \<open>runtime_contract\<close> says what the controller relies on: every configuration it
  derives from an accepted project is accepted by the child that loads it.
\<close>

section \<open>Visualizer\<close>

record visualizer_camera_source =
  vcs_channel_id :: string
  vcs_bus_root :: string
  vcs_channel_type :: string
  vcs_preview_resize_policy :: preview_resize_policy
  vcs_source_width :: "u32 option"
  vcs_source_height :: "u32 option"

record visualizer_robot_source =
  vrs_channel_id :: string
  vrs_state_kind :: robot_state_kind
  vrs_state_topic :: string
  vrs_value_min :: "f64 list"
  vrs_value_max :: "f64 list"

record visualizer_runtime_config_v2 =
  vr2_port :: u16
  vr2_camera_sources :: "visualizer_camera_source list"
  vr2_robot_sources :: "visualizer_robot_source list"
  vr2_preview_output_mode :: preview_output_mode

definition visualizer_v2_validate :: "visualizer_runtime_config_v2 \<Rightarrow> check" where
  "visualizer_v2_validate c = checks
     [visualizer_runtime_validate
        \<lparr>vrt_port = vr2_port c, vrt_cameras = map vcs_channel_id (vr2_camera_sources c),
         vrt_robots = map vrs_channel_id (vr2_robot_sources c),
         vrt_preview_output_mode = vr2_preview_output_mode c\<rparr>]"

section \<open>Teleoperation router\<close>

record teleop_runtime_config_v2 =
  tel_process_id :: string
  tel_leader_channel_id :: string
  tel_follower_channel_id :: string
  tel_leader_state_kind :: robot_state_kind
  tel_leader_state_topic :: string
  tel_follower_command_kind :: robot_command_kind
  tel_follower_command_topic :: string
  tel_follower_state_kind :: "robot_state_kind option"
  tel_follower_state_topic :: "string option"
  tel_sync_max_step_rad :: "f64 option"
  tel_sync_complete_threshold_rad :: "f64 option"
  tel_mapping :: mapping_strategy
  tel_joint_index_map :: "u32 list"
  tel_joint_scales :: "f64 list"
  tel_command_defaults :: channel_command_defaults

definition DEFAULT_TELEOP_SYNC_MAX_STEP_RAD :: f64 where
  "DEFAULT_TELEOP_SYNC_MAX_STEP_RAD = Fin (5 / 1000)"
definition DEFAULT_TELEOP_SYNC_COMPLETE_THRESHOLD_RAD :: f64 where
  "DEFAULT_TELEOP_SYNC_COMPLETE_THRESHOLD_RAD = Fin (5 / 100)"
definition MAX_PREVIEW_CAMERAS :: nat where "MAX_PREVIEW_CAMERAS = 3"

definition teleop_validate :: "teleop_runtime_config_v2 \<Rightarrow> check" where
  "teleop_validate c = checks
     [reject (blank (tel_process_id c)) (Validation (V_Runtime TeleopProcessId)),
      reject (blank (tel_leader_channel_id c) \<or> blank (tel_follower_channel_id c))
        (Validation (V_Runtime TeleopChannelIds)),
      reject (blank (tel_leader_state_topic c) \<or> blank (tel_follower_command_topic c))
        (Validation (V_Runtime TeleopTopics)),
      reject (list_ex (\<lambda>scale. \<not> is_finite scale) (tel_joint_scales c)) (Validation (V_Runtime TeleopScales))]"

section \<open>Encoders\<close>

record recording_encoder_config =
  re_codec :: encoder_codec
  re_backend :: encoder_backend
  re_queue_size :: u32
  re_fps :: u32
  re_packet_topic :: string
  re_chroma_subsampling :: chroma_subsampling
  re_crf :: "u8 option"
  re_preset :: "string option"
  re_tune :: "string option"
  re_bit_depth :: u8
  re_color_space :: encoder_color_space

record preview_encoder_config =
  pe_output_mode :: preview_output_mode
  pe_color_codec :: encoder_codec
  pe_depth_codec :: encoder_codec
  pe_backend :: encoder_backend
  pe_resize_policy :: preview_resize_policy
  pe_width :: u32
  pe_height :: u32
  pe_fps :: u32
  pe_gop_seconds :: u32
  pe_crf :: "u8 option"
  pe_jpeg_quality :: i32
  pe_packet_topic :: "string option"
  pe_jpeg_topic :: "string option"
  pe_control_topic :: string

record encoder_runtime_config_v2 =
  er_process_id :: string
  er_channel_id :: string
  er_frame_topic :: string
  er_role :: encoder_role
  er_recording :: "recording_encoder_config option"
  er_preview :: "preview_encoder_config option"

definition recording_encoder_validate :: "recording_encoder_config \<Rightarrow> check" where
  "recording_encoder_validate c = checks
     [reject (blank (re_packet_topic c)) (Validation (V_Runtime RecordingPacketTopic)),
      reject (re_fps c = 0 \<or> re_fps c > 1000) (Validation (V_Runtime (RecordingFps (re_fps c)))),
      encoder_validate
        \<lparr>enc_video_codec = re_codec c, enc_depth_codec = re_codec c, enc_backend = re_backend c,
         enc_video_backend = re_backend c, enc_depth_backend = re_backend c,
         enc_chroma_subsampling = re_chroma_subsampling c, enc_crf = re_crf c,
         enc_preset = re_preset c, enc_tune = re_tune c, enc_bit_depth = re_bit_depth c,
         enc_color_space = re_color_space c, enc_queue_size = re_queue_size c,
         enc_preview = EncoderPreviewConfig_default\<rparr>]"

definition preview_encoder_validate :: "preview_encoder_config \<Rightarrow> check" where
  "preview_encoder_validate c = checks
     [reject (blank (pe_control_topic c)) (Validation (V_Preview PreviewControlTopic)),
      reject (pe_width c = 0 \<or> pe_height c = 0) (Validation (V_Preview PreviewSize)),
      reject (pe_fps c = 0 \<or> pe_fps c > 1000) (Validation (V_Preview (PreviewFps (pe_fps c)))),
      reject (pe_gop_seconds c = 0) (Validation (V_Preview PreviewGop)),
      reject (\<not> jpeg_quality_in_range (pe_jpeg_quality c)) (Validation (V_Preview PreviewJpegQuality)),
      (case pe_output_mode c of
         Encoded \<Rightarrow> checks
           [reject (pe_color_codec c \<noteq> H264) (Validation (V_Preview (PreviewColorCodec (pe_color_codec c)))),
            reject (pe_depth_codec c \<noteq> Rvl) (Validation (V_Preview (PreviewDepthCodec (pe_depth_codec c)))),
            reject (none_or_blank (pe_packet_topic c)) (Validation (V_Preview PreviewPacketTopic))]
       | Jpeg \<Rightarrow> checks
           [reject (pe_resize_policy c = FixedSource) (Validation (V_Preview PreviewFixedSourceJpeg)),
            reject (none_or_blank (pe_jpeg_topic c)) (Validation (V_Preview PreviewJpegTopic))])]"

definition encoder_runtime_validate :: "encoder_runtime_config_v2 \<Rightarrow> check" where
  "encoder_runtime_validate c = checks
     [reject (blank (er_process_id c) \<or> blank (er_channel_id c) \<or> blank (er_frame_topic c))
        (Validation (V_Runtime EncoderRuntimeIds)),
      (case er_role c of
         RoleRecording \<Rightarrow>
           require (er_recording c) (Validation (V_Runtime (EncoderRoleMissing RoleRecording))) (\<lambda>rec. checks
             [reject (er_preview c \<noteq> None) (Validation (V_Runtime (EncoderRoleExtra RoleRecording))),
              recording_encoder_validate rec])
       | RolePreview \<Rightarrow>
           require (er_preview c) (Validation (V_Runtime (EncoderRoleMissing RolePreview))) (\<lambda>prev. checks
             [reject (er_recording c \<noteq> None) (Validation (V_Runtime (EncoderRoleExtra RolePreview))),
              preview_encoder_validate prev]))]"

section \<open>Assembler\<close>

record assembler_camera_runtime_config_v2 =
  acam_channel_id :: string
  acam_width :: u32
  acam_height :: u32
  acam_fps :: u32
  acam_pixel_format :: pixel_format
  acam_codec :: encoder_codec
  acam_recording_packet_topic :: string

definition assembler_camera_container :: "assembler_camera_runtime_config_v2 \<Rightarrow> container_kind" where
  "assembler_camera_container c = container_for (acam_codec c)"

record assembler_observation_runtime_config_v2 =
  aobs_channel_id :: string
  aobs_state_kind :: robot_state_kind
  aobs_state_topic :: string
  aobs_value_len :: u32

record assembler_action_runtime_config_v2 =
  aact_channel_id :: string
  aact_command_kind :: robot_command_kind
  aact_command_topic :: string
  aact_value_len :: u32

record assembler_runtime_config_v2 =
  asm_process_id :: string
  asm_format :: episode_format
  asm_fps :: u32
  asm_chunk_size :: u32
  asm_missing_eos_timeout_ms :: u64
  asm_staging_dir :: string
  asm_staging_slots :: u32
  asm_cameras :: "assembler_camera_runtime_config_v2 list"
  asm_observations :: "assembler_observation_runtime_config_v2 list"
  asm_actions :: "assembler_action_runtime_config_v2 list"
  asm_embedded_config_toml :: string

definition assembler_runtime_validate :: "assembler_runtime_config_v2 \<Rightarrow> check" where
  "assembler_runtime_validate c = checks
     [reject (blank (asm_process_id c) \<or> blank (asm_staging_dir c)) (Validation (V_Runtime AssemblerIds)),
      reject (asm_fps c = 0 \<or> asm_fps c > 1000 \<or> asm_chunk_size c = 0) (Validation (V_Runtime AssemblerFpsChunk)),
      reject (asm_missing_eos_timeout_ms c = 0) (Validation (V_Runtime AssemblerEosTimeout)),
      reject (asm_staging_slots c = 0 \<or> asm_staging_slots c > 64) (Validation (V_Runtime AssemblerSlots)),
      reject (asm_cameras c = []) (Validation (V_Runtime AssemblerNoCamera)),
      checks (map (\<lambda>camera. reject (blank (acam_recording_packet_topic camera))
          (Validation (V_Runtime (AssemblerPacketTopic (acam_channel_id camera))))) (asm_cameras c)),
      reject (blank (asm_embedded_config_toml c)) (Validation (V_Runtime AssemblerToml))]"

section \<open>Driver queries\<close>

record device_query_channel =
  dqc_channel_type :: string
  dqc_kind :: device_type
  dqc_available :: bool
  dqc_channel_label :: "string option"
  dqc_default_name :: "string option"
  dqc_modes :: "string list"
  dqc_profiles :: "camera_channel_profile list"
  dqc_supported_states :: "robot_state_kind list"
  dqc_supported_commands :: "robot_command_kind list"
  dqc_supports_fk :: bool
  dqc_supports_ik :: bool
  dqc_dof :: "u32 option"
  dqc_default_control_frequency_hz :: "f64 option"
  dqc_direct_joint_compatibility :: direct_joint_compatibility
  dqc_defaults :: channel_command_defaults
  dqc_value_limits :: "state_value_limits_entry list"
  dqc_optional_info :: toml_table

record device_query_device =
  dqd_id :: string
  dqd_device_class :: string
  dqd_device_label :: string
  dqd_default_device_name :: "string option"
  dqd_optional_info :: toml_table
  dqd_channels :: "device_query_channel list"

record device_query_response =
  dqr_driver :: string
  dqr_devices :: "device_query_device list"

section \<open>Names\<close>

definition device_channel_id :: "string \<Rightarrow> string \<Rightarrow> string" where
  "device_channel_id device_name channel_type = device_name @ ''/'' @ channel_type"

definition channel_prefix_v2 :: "string \<Rightarrow> string \<Rightarrow> string" where
  "channel_prefix_v2 bus_root channel_type = bus_root @ ''/'' @ channel_type"

definition camera_frames_topic_v2 :: "string \<Rightarrow> string \<Rightarrow> string" where
  "camera_frames_topic_v2 bus_root channel_type = channel_prefix_v2 bus_root channel_type @ ''/frames''"

definition robot_state_topic_v2 :: "string \<Rightarrow> string \<Rightarrow> robot_state_kind \<Rightarrow> string" where
  "robot_state_topic_v2 bus_root channel_type state =
     channel_prefix_v2 bus_root channel_type @ ''/states/'' @ state_topic_suffix state"

definition robot_command_topic_v2 :: "string \<Rightarrow> string \<Rightarrow> robot_command_kind \<Rightarrow> string" where
  "robot_command_topic_v2 bus_root channel_type command =
     channel_prefix_v2 bus_root channel_type @ ''/commands/'' @ command_topic_suffix command"

definition recording_encoder_process_id :: "string \<Rightarrow> string" where
  "recording_encoder_process_id channel_id = ''encoder.'' @ replace_char (CHR ''/'') (CHR ''.'') channel_id"

definition preview_encoder_process_id :: "string \<Rightarrow> string" where
  "preview_encoder_process_id channel_id = ''preview-encoder.'' @ replace_char (CHR ''/'') (CHR ''.'') channel_id"

fun assembler_process_id_for_format :: "episode_format \<Rightarrow> string" where
  "assembler_process_id_for_format LeRobotV2_1 = ''episode-lerobot''"
| "assembler_process_id_for_format LeRobotV3_0 = ''episode-lerobot''"
| "assembler_process_id_for_format Mcap = ''episode-mcap''"

text \<open>\<open>Path::join\<close> with a relative component: a separator is added unless the base is empty
  or already ends with one.\<close>

definition path_join :: "string \<Rightarrow> string \<Rightarrow> string" where
  "path_join base rel =
     (if base = [] then rel else if last base = CHR ''/'' then base @ rel else base @ ''/'' @ rel)"

definition episode_staging_root_v2 :: "string \<Rightarrow> string" where
  "episode_staging_root_v2 staging_root = path_join staging_root ''episodes''"

fun storage_process_id_for :: "episode_format \<Rightarrow> storage_backend \<Rightarrow> string" where
  "storage_process_id_for LeRobotV2_1 LocalBackend = ''storage-local-lerobot''"
| "storage_process_id_for LeRobotV3_0 LocalBackend = ''storage-local-lerobot''"
| "storage_process_id_for Mcap LocalBackend = ''storage-local''"
| "storage_process_id_for _ HttpBackend = ''storage-http''"
| "storage_process_id_for _ DataloopBackend = ''storage-dataloop''"

section \<open>Resolved channels\<close>

record resolved_camera_channel =
  rcc_channel_id :: string
  rcc_device_name :: string
  rcc_bus_root :: string
  rcc_channel_type :: string
  rcc_frame_topic :: string
  rcc_width :: u32
  rcc_height :: u32
  rcc_fps :: u32
  rcc_pixel_format :: pixel_format

record resolved_robot_channel =
  rrc_channel_id :: string
  rrc_device_name :: string
  rrc_driver :: string
  rrc_bus_root :: string
  rrc_channel_type :: string
  rrc_dof :: u32
  rrc_state_topics :: "(robot_state_kind \<times> string) list"
  rrc_recorded_states :: "robot_state_kind list"
  rrc_control_frequency_hz :: f64
  rrc_command_defaults :: channel_command_defaults
  rrc_value_limits :: "state_value_limits_entry list"

definition preview_resize_policy_for :: "pixel_format \<Rightarrow> encoder_preview_config \<Rightarrow> preview_resize_policy" where
  "preview_resize_policy_for pixel_format preview =
     (if pixel_format = Px_H264AnnexB \<and> pv_output_mode preview = Encoded \<and> pv_color_codec preview = H264
      then FixedSource else Dynamic)"

text \<open>The body of the inner loop of \<open>resolved_camera_channels\<close>: \<open>continue\<close> is the empty list.\<close>

definition resolve_camera :: "binary_device \<Rightarrow> device_channel \<Rightarrow> resolved_camera_channel list" where
  "resolve_camera device channel =
     (if ch_kind channel \<noteq> Camera \<or> \<not> ch_enabled channel then []
      else case ch_profile channel of
          None \<Rightarrow> []
        | Some profile \<Rightarrow>
            [\<lparr>rcc_channel_id = device_channel_id (dev_name device) (ch_channel_type channel),
              rcc_device_name = dev_name device, rcc_bus_root = dev_bus_root device,
              rcc_channel_type = ch_channel_type channel,
              rcc_frame_topic = camera_frames_topic_v2 (dev_bus_root device) (ch_channel_type channel),
              rcc_width = prof_width profile, rcc_height = prof_height profile,
              rcc_fps = prof_fps profile, rcc_pixel_format = prof_pixel_format profile\<rparr>])"

definition resolved_camera_channels :: "project_config \<Rightarrow> resolved_camera_channel list" where
  "resolved_camera_channels config =
     concat (map (\<lambda>device. concat (map (resolve_camera device) (dev_channels device))) (pj_devices config))"

definition resolve_robot :: "binary_device \<Rightarrow> device_channel \<Rightarrow> resolved_robot_channel list" where
  "resolve_robot device channel =
     (if ch_kind channel \<noteq> Robot \<or> \<not> ch_enabled channel then []
      else
        [\<lparr>rrc_channel_id = device_channel_id (dev_name device) (ch_channel_type channel),
          rrc_device_name = dev_name device, rrc_driver = dev_driver device,
          rrc_bus_root = dev_bus_root device, rrc_channel_type = ch_channel_type channel,
          rrc_dof = unwrap_or (ch_dof channel) 0,
          rrc_state_topics = map (\<lambda>state. (state,
             robot_state_topic_v2 (dev_bus_root device) (ch_channel_type channel) state)) (ch_publish_states channel),
          rrc_recorded_states =
            (if ch_recorded_states channel = [] then ch_publish_states channel else ch_recorded_states channel),
          rrc_control_frequency_hz = unwrap_or (ch_control_frequency_hz channel) (Fin 60),
          rrc_command_defaults = ch_command_defaults channel,
          rrc_value_limits = ch_value_limits channel\<rparr>])"

definition resolved_robot_channels :: "project_config \<Rightarrow> resolved_robot_channel list" where
  "resolved_robot_channels config =
     concat (map (\<lambda>device. concat (map (resolve_robot device) (dev_channels device))) (pj_devices config))"

text \<open>The lookup every derivation repeats: from a resolved camera back to its channel, and the
  encoder settings of that channel.\<close>

definition camera_channel_cfg :: "project_config \<Rightarrow> resolved_camera_channel \<Rightarrow> device_channel option" where
  "camera_channel_cfg config camera =
     Option.bind (device_named config (rcc_device_name camera)) (\<lambda>device.
       find_by ch_channel_type (rcc_channel_type camera) (dev_channels device))"

definition is_some_and :: "'a option \<Rightarrow> ('a \<Rightarrow> bool) \<Rightarrow> bool" where
  "is_some_and m p = (case m of None \<Rightarrow> False | Some a \<Rightarrow> p a)"

definition camera_record_cfg :: "project_config \<Rightarrow> resolved_camera_channel \<Rightarrow> encoder_config" where
  "camera_record_cfg config camera = unwrap_or
     (map_option record_resolve (Option.bind (camera_channel_cfg config camera) ch_record)) EncoderConfig_default"

definition camera_preview_cfg :: "project_config \<Rightarrow> resolved_camera_channel \<Rightarrow> encoder_preview_config" where
  "camera_preview_cfg config camera = unwrap_or
     (map_option preview_resolve (Option.bind (camera_channel_cfg config camera) ch_preview_settings))
     EncoderPreviewConfig_default"

section \<open>Derived configurations\<close>

definition ui_runtime_config_of :: "project_config \<Rightarrow> ui_runtime_config" where
  "ui_runtime_config_of config =
     (if ui_preview_websocket_url (pj_ui config) = None
      then (pj_ui config)\<lparr>ui_preview_websocket_url :=
        Some (''ws://127.0.0.1:'' @ show_nat (unat (vis_port (pj_visualizer config))))\<rparr>
      else pj_ui config)"

definition visualizer_camera_source_of :: "project_config \<Rightarrow> resolved_camera_channel \<Rightarrow> visualizer_camera_source" where
  "visualizer_camera_source_of config camera =
     \<lparr>vcs_channel_id = rcc_channel_id camera, vcs_bus_root = rcc_bus_root camera,
      vcs_channel_type = rcc_channel_type camera,
      vcs_preview_resize_policy = preview_resize_policy_for (rcc_pixel_format camera) (camera_preview_cfg config camera),
      vcs_source_width = Some (rcc_width camera), vcs_source_height = Some (rcc_height camera)\<rparr>"

definition visualizer_robot_sources_of :: "resolved_robot_channel \<Rightarrow> visualizer_robot_source list" where
  "visualizer_robot_sources_of robot = map (\<lambda>(state_kind, state_topic).
     (let entry = find_by lim_state_kind state_kind (rrc_value_limits robot) in
      \<lparr>vrs_channel_id = rrc_channel_id robot, vrs_state_kind = state_kind, vrs_state_topic = state_topic,
       vrs_value_min = unwrap_or (map_option lim_min entry) [],
       vrs_value_max = unwrap_or (map_option lim_max entry) []\<rparr>)) (rrc_state_topics robot)"

definition preview_cameras :: "project_config \<Rightarrow> resolved_camera_channel list" where
  "preview_cameras config =
     filter (\<lambda>camera. is_some_and (camera_channel_cfg config camera) ch_preview_enabled) (resolved_camera_channels config)"

text \<open>The closure given to \<open>map\<close> assigns \<open>first_preview_output_mode\<close> for every camera.\<close>

definition visualizer_runtime_config_v2_of :: "project_config \<Rightarrow> visualizer_runtime_config_v2" where
  "visualizer_runtime_config_v2_of config =
     \<lparr>vr2_port = vis_port (pj_visualizer config),
      vr2_camera_sources = map (visualizer_camera_source_of config) (preview_cameras config),
      vr2_robot_sources = concat (map visualizer_robot_sources_of (resolved_robot_channels config)),
      vr2_preview_output_mode = fold (\<lambda>camera first_preview_output_mode. pv_output_mode (camera_preview_cfg config camera))
        (preview_cameras config) PreviewOutputMode_default\<rparr>"

definition recording_config_of :: "project_config \<Rightarrow> resolved_camera_channel \<Rightarrow> encoder_runtime_config_v2" where
  "recording_config_of config camera =
     (let record_cfg = camera_record_cfg config camera in
      \<lparr>er_process_id = recording_encoder_process_id (rcc_channel_id camera),
       er_channel_id = rcc_channel_id camera, er_frame_topic = rcc_frame_topic camera,
       er_role = RoleRecording,
       er_recording = Some
         \<lparr>re_codec = codec_for_pixel_format record_cfg (rcc_pixel_format camera),
          re_backend = backend_for_pixel_format record_cfg (rcc_pixel_format camera),
          re_queue_size = enc_queue_size record_cfg, re_fps = rcc_fps camera,
          re_packet_topic = recording_packet_service_name (rcc_bus_root camera) (rcc_channel_type camera),
          re_chroma_subsampling = enc_chroma_subsampling record_cfg, re_crf = enc_crf record_cfg,
          re_preset = enc_preset record_cfg, re_tune = enc_tune record_cfg,
          re_bit_depth = enc_bit_depth record_cfg, re_color_space = enc_color_space record_cfg\<rparr>,
       er_preview = None\<rparr>)"

definition preview_config_of :: "project_config \<Rightarrow> resolved_camera_channel \<Rightarrow> encoder_runtime_config_v2" where
  "preview_config_of config camera =
     (let preview_cfg = camera_preview_cfg config camera;
          resize_policy = preview_resize_policy_for (rcc_pixel_format camera) preview_cfg;
          (width, height) = (case resize_policy of
              Dynamic \<Rightarrow> (pv_width preview_cfg, pv_height preview_cfg)
            | FixedSource \<Rightarrow> (rcc_width camera, rcc_height camera));
          backend = (case resize_policy of
              Dynamic \<Rightarrow> pv_backend preview_cfg
            | FixedSource \<Rightarrow> BackendPassthrough);
          (packet_topic, jpeg_topic) = (case pv_output_mode preview_cfg of
              Encoded \<Rightarrow> (Some (preview_packet_service_name (rcc_bus_root camera) (rcc_channel_type camera)), None)
            | Jpeg \<Rightarrow> (None, Some (preview_jpeg_service_name (rcc_bus_root camera) (rcc_channel_type camera))))
      in
      \<lparr>er_process_id = preview_encoder_process_id (rcc_channel_id camera),
       er_channel_id = rcc_channel_id camera, er_frame_topic = rcc_frame_topic camera,
       er_role = RolePreview, er_recording = None,
       er_preview = Some
         \<lparr>pe_output_mode = pv_output_mode preview_cfg, pe_color_codec = pv_color_codec preview_cfg,
          pe_depth_codec = pv_depth_codec preview_cfg, pe_backend = backend,
          pe_resize_policy = resize_policy, pe_width = width, pe_height = height,
          pe_fps = pv_fps preview_cfg, pe_gop_seconds = pv_gop_seconds preview_cfg,
          pe_crf = pv_crf preview_cfg, pe_jpeg_quality = pv_jpeg_quality preview_cfg,
          pe_packet_topic = packet_topic, pe_jpeg_topic = jpeg_topic,
          pe_control_topic = preview_control_service_name (rcc_bus_root camera) (rcc_channel_type camera)\<rparr>\<rparr>)"

definition encoder_runtime_configs_v2 :: "project_config \<Rightarrow> encoder_runtime_config_v2 list" where
  "encoder_runtime_configs_v2 config = concat (map (\<lambda>camera.
     (let channel_cfg = camera_channel_cfg config camera in
      (if is_some_and channel_cfg ch_record_enabled then [recording_config_of config camera] else [])
      @ (if is_some_and channel_cfg ch_preview_enabled then [preview_config_of config camera] else [])))
     (resolved_camera_channels config))"

definition recorded_cameras :: "project_config \<Rightarrow> resolved_camera_channel list" where
  "recorded_cameras config =
     filter (\<lambda>camera. is_some_and (camera_channel_cfg config camera) ch_record_enabled) (resolved_camera_channels config)"

definition assembler_camera_of :: "project_config \<Rightarrow> resolved_camera_channel \<Rightarrow> assembler_camera_runtime_config_v2" where
  "assembler_camera_of config camera =
     \<lparr>acam_channel_id = rcc_channel_id camera, acam_width = rcc_width camera, acam_height = rcc_height camera,
      acam_fps = rcc_fps camera, acam_pixel_format = rcc_pixel_format camera,
      acam_codec = codec_for_pixel_format (camera_record_cfg config camera) (rcc_pixel_format camera),
      acam_recording_packet_topic = recording_packet_service_name (rcc_bus_root camera) (rcc_channel_type camera)\<rparr>"

definition assembler_observations_of :: "resolved_robot_channel \<Rightarrow> assembler_observation_runtime_config_v2 list" where
  "assembler_observations_of robot = map (\<lambda>(state_kind, state_topic).
       \<lparr>aobs_channel_id = rrc_channel_id robot, aobs_state_kind = state_kind,
        aobs_state_topic = state_topic, aobs_value_len = state_value_len state_kind (rrc_dof robot)\<rparr>)
     (filter (\<lambda>(state_kind, _). state_kind \<in> set (rrc_recorded_states robot)) (rrc_state_topics robot))"

fun command_value_len :: "robot_command_kind \<Rightarrow> u32 \<Rightarrow> u32" where
  "command_value_len CK_JointPosition dof = dof"
| "command_value_len CK_JointMit dof = dof"
| "command_value_len CK_ParallelPosition dof = min dof (of_nat MAX_PARALLEL)"
| "command_value_len CK_ParallelMit dof = min dof (of_nat MAX_PARALLEL)"
| "command_value_len CK_EndPose dof = 7"

definition assembler_action_of :: "project_config \<Rightarrow> channel_pairing \<Rightarrow> assembler_action_runtime_config_v2 option" where
  "assembler_action_of config pairing =
     Option.bind (device_named config (pr_follower_device pairing)) (\<lambda>device.
     Option.bind (channel_named device (pr_follower_channel_type pairing)) (\<lambda>follower.
       Some \<lparr>aact_channel_id = device_channel_id (pr_follower_device pairing) (pr_follower_channel_type pairing),
         aact_command_kind = pr_follower_command pairing,
         aact_command_topic = robot_command_topic_v2 (dev_bus_root device) (pr_follower_channel_type pairing)
           (pr_follower_command pairing),
         aact_value_len = command_value_len (pr_follower_command pairing) (unwrap_or (ch_dof follower) 0)\<rparr>))"

definition assembler_runtime_config_v2_of :: "project_config \<Rightarrow> string \<Rightarrow> assembler_runtime_config_v2" where
  "assembler_runtime_config_v2_of config embedded_config_toml =
     \<lparr>asm_process_id = assembler_process_id_for_format (ep_format (pj_episode config)),
      asm_format = ep_format (pj_episode config), asm_fps = ep_fps (pj_episode config),
      asm_chunk_size = ep_chunk_size (pj_episode config),
      asm_missing_eos_timeout_ms = as_missing_eos_timeout_ms (pj_assembler config),
      asm_staging_dir = episode_staging_root_v2 (as_staging_dir (pj_assembler config)),
      asm_staging_slots = as_staging_slots (pj_assembler config),
      asm_cameras = map (assembler_camera_of config) (recorded_cameras config),
      asm_observations = concat (map assembler_observations_of (resolved_robot_channels config)),
      asm_actions = List.map_filter (assembler_action_of config) (pj_pairings config),
      asm_embedded_config_toml = embedded_config_toml\<rparr>"

fun sync_state_kind :: "robot_command_kind \<Rightarrow> robot_state_kind" where
  "sync_state_kind CK_JointPosition = SK_JointPosition"
| "sync_state_kind CK_JointMit = SK_JointPosition"
| "sync_state_kind CK_ParallelPosition = SK_ParallelPosition"
| "sync_state_kind CK_ParallelMit = SK_ParallelPosition"
| "sync_state_kind CK_EndPose = SK_EndEffectorPose"

definition teleop_runtime_config_of :: "project_config \<Rightarrow> channel_pairing \<Rightarrow> teleop_runtime_config_v2 option" where
  "teleop_runtime_config_of config pairing =
     Option.bind (device_named config (pr_leader_device pairing)) (\<lambda>leader_device.
     Option.bind (device_named config (pr_follower_device pairing)) (\<lambda>follower_device.
     Option.bind (channel_named follower_device (pr_follower_channel_type pairing)) (\<lambda>follower_channel.
       (let kind = sync_state_kind (pr_follower_command pairing);
            follower_state_topic =
              (if kind \<in> set (ch_publish_states follower_channel)
               then Some (robot_state_topic_v2 (dev_bus_root follower_device) (pr_follower_channel_type pairing) kind)
               else None)
        in Some
          \<lparr>tel_process_id = ''teleop.'' @ pr_leader_device pairing @ ''.'' @ pr_leader_channel_type pairing
             @ ''.to.'' @ pr_follower_device pairing @ ''.'' @ pr_follower_channel_type pairing,
           tel_leader_channel_id = device_channel_id (pr_leader_device pairing) (pr_leader_channel_type pairing),
           tel_follower_channel_id = device_channel_id (pr_follower_device pairing) (pr_follower_channel_type pairing),
           tel_leader_state_kind = pr_leader_state pairing,
           tel_leader_state_topic = robot_state_topic_v2 (dev_bus_root leader_device)
             (pr_leader_channel_type pairing) (pr_leader_state pairing),
           tel_follower_command_kind = pr_follower_command pairing,
           tel_follower_command_topic = robot_command_topic_v2 (dev_bus_root follower_device)
             (pr_follower_channel_type pairing) (pr_follower_command pairing),
           tel_follower_state_kind = (if follower_state_topic \<noteq> None then Some kind else None),
           tel_follower_state_topic = follower_state_topic,
           tel_sync_max_step_rad = Some DEFAULT_TELEOP_SYNC_MAX_STEP_RAD,
           tel_sync_complete_threshold_rad = Some DEFAULT_TELEOP_SYNC_COMPLETE_THRESHOLD_RAD,
           tel_mapping = pr_mapping pairing, tel_joint_index_map = pr_joint_index_map pairing,
           tel_joint_scales = pr_joint_scales pairing,
           tel_command_defaults = ch_command_defaults follower_channel\<rparr>))))"

definition teleop_runtime_configs_v2 :: "project_config \<Rightarrow> teleop_runtime_config_v2 list" where
  "teleop_runtime_configs_v2 config = List.map_filter (teleop_runtime_config_of config) (pj_pairings config)"

definition storage_runtime_config_of :: "project_config \<Rightarrow> storage_runtime_config" where
  "storage_runtime_config_of config =
     \<lparr>srt_process_id = storage_process_id_for (ep_format (pj_episode config)) (st_backend (pj_storage config)),
      srt_backend = st_backend (pj_storage config), srt_output_path = st_output_path (pj_storage config),
      srt_endpoint = st_endpoint (pj_storage config), srt_queue_size = st_queue_size (pj_storage config),
      srt_dataloop_token = st_dataloop_token (pj_storage config),
      srt_dataloop_project_id = st_dataloop_project_id (pj_storage config)\<rparr>"

section \<open>What the derivations rely on\<close>

text \<open>A channel's settings as the derivations find them again through the two lookups.\<close>

lemma device_channel_id_not_blank: "\<not> blank (device_channel_id d c)"
  by (rule slash_not_blank) (simp add: device_channel_id_def)

lemma topics_v2_not_blank:
  "\<not> blank (camera_frames_topic_v2 r c)" "\<not> blank (robot_state_topic_v2 r c k)"
  "\<not> blank (robot_command_topic_v2 r c m)"
  by (rule slash_not_blank, simp add: channel_prefix_v2_def camera_frames_topic_v2_def
      robot_state_topic_v2_def robot_command_topic_v2_def)+

lemma process_ids_not_blank:
  "\<not> blank (recording_encoder_process_id i)" "\<not> blank (preview_encoder_process_id i)"
  "\<not> blank (assembler_process_id_for_format f)" "\<not> blank (storage_process_id_for f b)"
proof -
  have e: "CHR ''e'' \<in> set s \<Longrightarrow> \<not> blank s" for s by (erule not_blankI) (simp_all add: byte_def)
  show "\<not> blank (recording_encoder_process_id i)" "\<not> blank (preview_encoder_process_id i)"
    "\<not> blank (assembler_process_id_for_format f)" "\<not> blank (storage_process_id_for f b)"
    by (rule e; cases f; cases b; simp add: recording_encoder_process_id_def preview_encoder_process_id_def)+
qed

text \<open>The topics derived from a project are the service names of \<open>rollio-bus\<close>.\<close>

lemma topics_v2_are_bus_names:
  "camera_frames_topic_v2 r c = channel_frames_service_name r c"
  "robot_state_topic_v2 r c k = channel_state_service_name r c (state_topic_suffix k)"
  "robot_command_topic_v2 r c m = channel_command_service_name r c (command_topic_suffix m)"
  by (simp_all add: camera_frames_topic_v2_def robot_state_topic_v2_def robot_command_topic_v2_def
      channel_prefix_v2_def channel_frames_service_name_def channel_state_service_name_def
      channel_command_service_name_def)

lemma set_resolved_camera_channels:
  "camera \<in> set (resolved_camera_channels config) \<longleftrightarrow>
     (\<exists>d \<in> set (pj_devices config). \<exists>c \<in> set (dev_channels d). camera \<in> set (resolve_camera d c))"
  by (auto simp: resolved_camera_channels_def)

lemma resolve_cameraE:
  assumes "camera \<in> set (resolve_camera d c)"
  obtains p where "ch_kind c = Camera" "ch_enabled c" "ch_profile c = Some p"
    "rcc_channel_id camera = device_channel_id (dev_name d) (ch_channel_type c)"
    "rcc_device_name camera = dev_name d" "rcc_bus_root camera = dev_bus_root d"
    "rcc_channel_type camera = ch_channel_type c"
    "rcc_frame_topic camera = camera_frames_topic_v2 (dev_bus_root d) (ch_channel_type c)"
    "rcc_width camera = prof_width p" "rcc_height camera = prof_height p"
    "rcc_fps camera = prof_fps p" "rcc_pixel_format camera = prof_pixel_format p"
  using assms by (cases "ch_profile c") (auto simp: resolve_camera_def split: if_splits)

lemma camera_lookup:
  assumes "project_ok config" and "d \<in> set (pj_devices config)" and "c \<in> set (dev_channels d)"
    and "rcc_device_name camera = dev_name d" and "rcc_channel_type camera = ch_channel_type c"
  shows "camera_channel_cfg config camera = Some c"
proof -
  have "is_ok (device_validate d)" by (rule project_ok_devices(4) [OF assms(1,2)])
  then have "channel_named d (ch_channel_type c) = Some c" by (rule channels.lookup_complete [OF _ assms(3)])
  moreover have "device_named config (dev_name d) = Some d" by (rule devices.lookup_complete [OF assms(1,2)])
  ultimately show ?thesis using assms(4,5) by (simp add: camera_channel_cfg_def channel_named_def)
qed

lemma resolved_cameraE:
  assumes "project_ok config" and "camera \<in> set (resolved_camera_channels config)"
  obtains d c p where "d \<in> set (pj_devices config)" "c \<in> set (dev_channels d)"
    "ch_kind c = Camera" "ch_enabled c" "ch_profile c = Some p"
    "is_ok (profile_validate p (dev_name d) (ch_channel_type c))"
    "camera_channel_cfg config camera = Some c"
    "rcc_channel_id camera = device_channel_id (dev_name d) (ch_channel_type c)"
    "rcc_device_name camera = dev_name d" "rcc_bus_root camera = dev_bus_root d"
    "rcc_channel_type camera = ch_channel_type c"
    "rcc_frame_topic camera = camera_frames_topic_v2 (dev_bus_root d) (ch_channel_type c)"
    "rcc_width camera = prof_width p" "rcc_height camera = prof_height p"
    "rcc_fps camera = prof_fps p" "rcc_pixel_format camera = prof_pixel_format p"
proof -
  from assms(2) obtain d c where d: "d \<in> set (pj_devices config)" and c: "c \<in> set (dev_channels d)"
    and camera: "camera \<in> set (resolve_camera d c)"
    unfolding set_resolved_camera_channels by blast
  from camera show thesis
  proof (rule resolve_cameraE)
    fix p
    assume k: "ch_kind c = Camera" "ch_profile c = Some p"
      and names: "rcc_device_name camera = dev_name d" "rcc_channel_type camera = ch_channel_type c"
    assume rest: "ch_enabled c" "rcc_channel_id camera = device_channel_id (dev_name d) (ch_channel_type c)"
      "rcc_bus_root camera = dev_bus_root d"
      "rcc_frame_topic camera = camera_frames_topic_v2 (dev_bus_root d) (ch_channel_type c)"
      "rcc_width camera = prof_width p" "rcc_height camera = prof_height p"
      "rcc_fps camera = prof_fps p" "rcc_pixel_format camera = prof_pixel_format p"
    have "is_ok (channel_validate c d)"
      using project_ok_devices(4) [OF assms(1) d] c by (simp add: is_ok_device_validate)
    then have "is_ok (profile_validate p (dev_name d) (ch_channel_type c))"
      using k by (simp add: is_ok_channel_validate is_ok_camera_channel_validate)
    with d c k rest camera_lookup [OF assms(1) d c names] names show thesis by (intro that)
  qed
qed

lemma camera_cfgs_of_channel:
  assumes "camera_channel_cfg config camera = Some c"
  shows "camera_record_cfg config camera = record_settings c"
    and "camera_preview_cfg config camera = preview_settings c"
  using assms by (simp_all add: camera_record_cfg_def camera_preview_cfg_def record_settings_def preview_settings_def)

section \<open>Derived configurations are accepted\<close>

lemma recording_config_ok:
  assumes "project_ok config" and "camera \<in> set (resolved_camera_channels config)"
  shows "is_ok (encoder_runtime_validate (recording_config_of config camera))"
proof -
  from assms obtain d c p where d: "d \<in> set (pj_devices config)" and c: "c \<in> set (dev_channels d)"
    and k: "ch_kind c = Camera" "ch_enabled c"
    and p: "is_ok (profile_validate p (dev_name d) (ch_channel_type c))"
    and cfg: "camera_channel_cfg config camera = Some c"
    and camera: "rcc_fps camera = prof_fps p"
      "rcc_channel_id camera = device_channel_id (dev_name d) (ch_channel_type c)"
      "rcc_frame_topic camera = camera_frames_topic_v2 (dev_bus_root d) (ch_channel_type c)"
    by (elim resolved_cameraE) blast
  have "is_ok (encoder_validate (record_settings c))" by (rule project_ok_record_settings [OF assms(1) d c k])
  then show ?thesis using p
    by (simp add: encoder_runtime_validate_def recording_config_of_def Let_def ok_iff camera
        process_ids_not_blank device_channel_id_not_blank topics_v2_not_blank
        recording_encoder_validate_def recording_topic.topic_not_blank is_ok_encoder_validate
        is_ok_profile_validate camera_cfgs_of_channel [OF cfg] preview_default_ok word_neq_0_conv not_less)
qed

text \<open>The preview child checks the resolved settings again: it accepts exactly when they are in
  range, the frame size being the source's when the stream is passed through.\<close>

definition preview_settings_in_range :: "encoder_preview_config \<Rightarrow> bool" where
  "preview_settings_in_range s \<longleftrightarrow> 0 < pv_fps s \<and> pv_fps s \<le> 1000 \<and> 0 < pv_gop_seconds s
     \<and> jpeg_quality_in_range (pv_jpeg_quality s)
     \<and> (pv_output_mode s = Encoded \<longrightarrow> pv_color_codec s = H264 \<and> pv_depth_codec s = Rvl)"

lemma preview_config_ok_iff:
  assumes "project_ok config" and "camera \<in> set (resolved_camera_channels config)"
    and "is_some_and (camera_channel_cfg config camera) ch_preview_enabled"
  defines "s \<equiv> camera_preview_cfg config camera"
  shows "is_ok (encoder_runtime_validate (preview_config_of config camera)) \<longleftrightarrow>
     preview_settings_in_range s \<and>
     (preview_resize_policy_for (rcc_pixel_format camera) s = Dynamic \<longrightarrow> 0 < pv_width s \<and> 0 < pv_height s)"
proof -
  from assms(1,2) obtain d c p where "d \<in> set (pj_devices config)" and "c \<in> set (dev_channels d)" and
    p: "is_ok (profile_validate p (dev_name d) (ch_channel_type c))"
    and camera: "rcc_width camera = prof_width p" "rcc_height camera = prof_height p"
      "rcc_channel_id camera = device_channel_id (dev_name d) (ch_channel_type c)"
      "rcc_frame_topic camera = camera_frames_topic_v2 (dev_bus_root d) (ch_channel_type c)"
    by (elim resolved_cameraE) blast
  show ?thesis using p
    by (cases "pv_output_mode s"; cases "preview_resize_policy_for (rcc_pixel_format camera) s")
      (auto simp: encoder_runtime_validate_def preview_config_of_def Let_def ok_iff camera s_def
        process_ids_not_blank device_channel_id_not_blank topics_v2_not_blank
        preview_encoder_validate_def preview_topic.topic_not_blank jpeg_topic.topic_not_blank
        preview_control_topic.topic_not_blank is_ok_profile_validate preview_settings_in_range_def
        word_neq_0_conv not_less preview_resize_policy_for_def split: if_splits)
qed

lemma set_encoder_runtime_configs:
  "c \<in> set (encoder_runtime_configs_v2 config) \<longleftrightarrow>
     (\<exists>camera \<in> set (recorded_cameras config). c = recording_config_of config camera) \<or>
     (\<exists>camera \<in> set (preview_cameras config). c = preview_config_of config camera)"
  by (auto simp: encoder_runtime_configs_v2_def recorded_cameras_def preview_cameras_def Let_def)

lemma storage_config_ok: "project_ok config \<Longrightarrow> is_ok (storage_runtime_validate (storage_runtime_config_of config))"
  using project_ok_sections(3) [of config]
  by (simp add: storage_runtime_validate_def storage_runtime_config_of_def ok_iff process_ids_not_blank
      is_ok_storage_validate split: storage_backend.splits)

lemma ui_config_ok: "project_ok config \<Longrightarrow> is_ok (ui_validate (ui_runtime_config_of config))"
proof -
  assume "project_ok config"
  then have ui: "is_ok (ui_validate (pj_ui config))" by (rule project_ok_sections)
  have "\<not> blank (''ws://127.0.0.1:'' @ t)" for t by (rule slash_not_blank) simp
  moreover have "ui_keys (ui_runtime_config_of config) = ui_keys (pj_ui config)"
    by (simp add: ui_runtime_config_of_def ui_keys_def)
  ultimately show ?thesis using ui unfolding is_ok_ui_validate
    by (simp only:) (simp add: ui_runtime_config_of_def del: ui_keys_validate.simps)
qed

lemma visualizer_config_ok: "project_ok config \<Longrightarrow> is_ok (visualizer_v2_validate (visualizer_runtime_config_v2_of config))"
  using project_ok_sections(6) [of config]
  by (simp add: visualizer_v2_validate_def visualizer_runtime_config_v2_of_def ok_iff
      visualizer_runtime_validate_def word_neq_0_conv)

lemma teleop_config_ok:
  assumes "is_ok (pairing_validate pairing config)" and "teleop_runtime_config_of config pairing = Some t"
  shows "is_ok (teleop_validate t)"
proof -
  from assms(1) obtain "list_all is_finite (pr_joint_scales pairing)" by (rule pairing_validate_channels)
  moreover have "\<not> blank (''teleop.'' @ s)" for s
    by (rule not_blankI [of "CHR ''t''"]) (simp_all add: byte_def)
  ultimately show ?thesis using assms(2)
    by (auto simp: teleop_runtime_config_of_def bind_eq_Some_conv Let_def teleop_validate_def ok_iff
        device_channel_id_not_blank topics_v2_not_blank list_all_iff list_ex_iff)
qed

lemma episode_staging_root_not_blank: "\<not> blank (episode_staging_root_v2 d)"
  by (rule not_blankI [of "CHR ''e''"]) (simp_all add: byte_def episode_staging_root_v2_def path_join_def)

lemma assembler_config_ok_iff:
  assumes "project_ok config"
  shows "is_ok (assembler_runtime_validate (assembler_runtime_config_v2_of config doc)) \<longleftrightarrow>
     recorded_cameras config \<noteq> [] \<and> \<not> blank doc"
  using project_ok_sections(1,2) [OF assms]
  by (auto simp: assembler_runtime_validate_def assembler_runtime_config_v2_of_def ok_iff
      process_ids_not_blank episode_staging_root_not_blank assembler_camera_of_def
      recording_topic.topic_not_blank word_neq_0_conv not_less)

section \<open>The contract between the project and its children\<close>

text \<open>The controller writes a derived configuration as TOML (\<open>show_toml\<close>) and starts the
  child on it; the child reads it back with \<open>from_str\<close> and gives up on an error.\<close>

locale runtime_contract =
  fixes accepted :: "project_config \<Rightarrow> bool" and derive :: "project_config \<Rightarrow> 'c list"
    and validate :: "'c \<Rightarrow> check"
  assumes derived_ok: "accepted config \<Longrightarrow> c \<in> set (derive config) \<Longrightarrow> is_ok (validate c)"
begin

lemma child_loads:
  assumes "accepted config" and "c \<in> set (derive config)" and "toml_from_str (show_toml c) = Ok c"
  shows "from_str toml_from_str validate (show_toml c) = Ok c"
  using derived_ok [OF assms(1,2)] assms(3) by (simp add: from_str_Ok_iff)

lemma child_loads_file:
  assumes "accepted config" and "c \<in> set (derive config)" and "toml_from_str (show_toml c) = Ok c"
    and "read_to_string path = Ok (show_toml c)"
  shows "from_file read_to_string toml_from_str validate path = Ok c"
  using child_loads [where toml_from_str = toml_from_str and show_toml = show_toml, OF assms(1-3)] assms(4) by (simp add: from_file_def bind_ok_def map_err_def)

end

lemma set_map_filter: "set (List.map_filter f xs) = {y. \<exists>x \<in> set xs. f x = Some y}"
  by (force simp: List.map_filter_def)

definition recording_encoder_configs :: "project_config \<Rightarrow> encoder_runtime_config_v2 list" where
  "recording_encoder_configs config = filter (\<lambda>c. er_role c = RoleRecording) (encoder_runtime_configs_v2 config)"

definition previews_in_range :: "project_config \<Rightarrow> bool" where
  "previews_in_range config \<longleftrightarrow>
     list_all (\<lambda>camera. is_ok (preview_validate (camera_preview_cfg config camera))) (preview_cameras config)"

lemma roles [simp]:
  "er_role (recording_config_of config camera) = RoleRecording"
  "er_role (preview_config_of config camera) = RolePreview"
  by (simp_all add: recording_config_of_def preview_config_of_def Let_def split_def)

interpretation teleop_child: runtime_contract project_ok teleop_runtime_configs_v2 teleop_validate
  by unfold_locales
    (auto simp: teleop_runtime_configs_v2_def set_map_filter intro: teleop_config_ok dest: project_ok_pairing)

interpretation storage_child: runtime_contract project_ok "\<lambda>config. [storage_runtime_config_of config]"
  storage_runtime_validate
  by unfold_locales (auto intro: storage_config_ok)

interpretation ui_child: runtime_contract project_ok "\<lambda>config. [ui_runtime_config_of config]" ui_validate
  by unfold_locales (auto intro: ui_config_ok)

interpretation visualizer_child: runtime_contract project_ok
  "\<lambda>config. [visualizer_runtime_config_v2_of config]" visualizer_v2_validate
  by unfold_locales (auto intro: visualizer_config_ok)

interpretation recording_child: runtime_contract project_ok recording_encoder_configs encoder_runtime_validate
  by unfold_locales
    (auto simp: recording_encoder_configs_def set_encoder_runtime_configs recorded_cameras_def intro: recording_config_ok)

interpretation encoder_child: runtime_contract "\<lambda>config. project_ok config \<and> previews_in_range config"
  encoder_runtime_configs_v2 encoder_runtime_validate
proof unfold_locales
  fix config c
  assume ok: "project_ok config \<and> previews_in_range config" and c: "c \<in> set (encoder_runtime_configs_v2 config)"
  have "is_ok (encoder_runtime_validate (preview_config_of config camera))"
    if "camera \<in> set (preview_cameras config)" for camera
  proof -
    from that ok have "is_ok (preview_validate (camera_preview_cfg config camera))"
      by (auto simp: previews_in_range_def list_all_iff)
    with that ok show ?thesis
      by (subst preview_config_ok_iff)
        (auto simp: preview_cameras_def is_ok_preview_validate preview_settings_in_range_def)
  qed
  with c ok show "is_ok (encoder_runtime_validate c)"
    by (auto simp: set_encoder_runtime_configs recorded_cameras_def intro: recording_config_ok)
qed

interpretation assembler_child: runtime_contract
  "\<lambda>config. project_ok config \<and> recorded_cameras config \<noteq> [] \<and> \<not> blank doc"
  "\<lambda>config. [assembler_runtime_config_v2_of config doc]" assembler_runtime_validate for doc
  by unfold_locales (simp add: assembler_config_ok_iff)

end
