(* ===== verification/Teleop_Mapping.thy ===== *)
theory Teleop_Mapping
  imports Config_Runtime
begin

text \<open>
  The mapping half of the teleoperation router, lines 84 to 90, 129 to 132, 464 to 511,
  754 to 874 and 934 to 1138 of \<^verbatim>\<open>teleop-router/src/lib.rs\<close>: leader samples, forwarded commands, the three
  mapping strategies and the publisher that accepts their result. A slice out of range
  panics in the source; here it is the error \<open>Panic\<close>.
\<close>

section \<open>Samples and commands\<close>

datatype router_error = LeaderValueOutOfRange nat nat | InvalidCartesianRoute
  | PublisherMismatch | Port string | Panic

datatype leader_state = VectorState u64 "f64 list" | PoseState pose7

fun state_timestamp_us :: "leader_state \<Rightarrow> u64" where
  "state_timestamp_us (VectorState timestamp_us _) = timestamp_us"
| "state_timestamp_us (PoseState payload) = pose_timestamp_us payload"

datatype forwarded_command = F_JointPosition value_vector | F_JointMit mit_command
  | F_ParallelPosition value_vector | F_ParallelMit mit_command | F_EndPose pose7

fun command_timestamp_us :: "forwarded_command \<Rightarrow> u64" where
  "command_timestamp_us (F_JointPosition v) = vv_timestamp_us v"
| "command_timestamp_us (F_JointMit m) = mit_timestamp_us m"
| "command_timestamp_us (F_ParallelPosition v) = vv_timestamp_us v"
| "command_timestamp_us (F_ParallelMit m) = mit_timestamp_us m"
| "command_timestamp_us (F_EndPose p) = pose_timestamp_us p"

text \<open>\<open>xs.get(i).copied()\<close>\<close>

definition get_opt :: "'a list \<Rightarrow> nat \<Rightarrow> 'a option" where
  "get_opt xs i = (if i < length xs then Some (xs ! i) else None)"

section \<open>Mapping\<close>

text \<open>The body of the loop over the output joints.\<close>

definition map_joint :: "f64 list \<Rightarrow> u32 list \<Rightarrow> f64 list \<Rightarrow> nat \<Rightarrow> (f64, router_error) result" where
  "map_joint values joint_index_map joint_scales output_index =
     (let source_index = unat (unwrap_or (get_opt joint_index_map output_index) (of_nat output_index)) in
      require (get_opt values source_index) (LeaderValueOutOfRange source_index (length values)) (\<lambda>value.
        Ok (f_mul value (unwrap_or (get_opt joint_scales output_index) (Fin 1)))))"

fun collect_ok :: "('a, 'e) result list \<Rightarrow> ('a list, 'e) result" where
  "collect_ok [] = Ok []"
| "collect_ok (r # rs) = bind_ok r (\<lambda>x. bind_ok (collect_ok rs) (\<lambda>xs. Ok (x # xs)))"

definition apply_joint_mapping :: "f64 list \<Rightarrow> u32 list \<Rightarrow> f64 list \<Rightarrow> (f64 list, router_error) result" where
  "apply_joint_mapping values joint_index_map joint_scales =
     (let output_len = (if joint_index_map \<noteq> [] then length joint_index_map
                        else if joint_scales \<noteq> [] then length joint_scales
                        else length values)
      in collect_ok (map (map_joint values joint_index_map joint_scales) [0..<output_len]))"

definition mit_command_of :: "nat \<Rightarrow> u64 \<Rightarrow> f64 list \<Rightarrow> f64 list \<Rightarrow> f64 list \<Rightarrow> mit_command" where
  "mit_command_of cap timestamp_us values kp kd =
     (let n = min (length values) cap;
          gains = (\<lambda>xs. map (\<lambda>i. unwrap_or (get_opt xs i) (Fin 0)) [0..<n])
      in (mit_default cap)\<lparr>mit_timestamp_us := timestamp_us, mit_len := of_nat n,
           mit_position := overwrite (take n values) (mit_position (mit_default cap)),
           mit_kp := overwrite (gains kp) (mit_kp (mit_default cap)),
           mit_kd := overwrite (gains kd) (mit_kd (mit_default cap))\<rparr>)"

definition joint_mit_command :: "u64 \<Rightarrow> f64 list \<Rightarrow> f64 list \<Rightarrow> f64 list \<Rightarrow> mit_command" where
  "joint_mit_command = mit_command_of MAX_DOF"

definition parallel_mit_command :: "u64 \<Rightarrow> f64 list \<Rightarrow> f64 list \<Rightarrow> f64 list \<Rightarrow> mit_command" where
  "parallel_mit_command = mit_command_of MAX_PARALLEL"

definition map_cartesian :: "teleop_runtime_config_v2 \<Rightarrow> leader_state \<Rightarrow> (forwarded_command option, router_error) result" where
  "map_cartesian config state = (case (state, tel_follower_command_kind config) of
       (PoseState pose, CK_EndPose) \<Rightarrow> Ok (Some (F_EndPose pose))
     | _ \<Rightarrow> Err InvalidCartesianRoute)"

definition map_direct_joint :: "teleop_runtime_config_v2 \<Rightarrow> leader_state \<Rightarrow> (forwarded_command option, router_error) result" where
  "map_direct_joint config state = (case state of
       PoseState _ \<Rightarrow> Err InvalidCartesianRoute
     | VectorState timestamp_us values \<Rightarrow>
         bind_ok (apply_joint_mapping values (tel_joint_index_map config) (tel_joint_scales config)) (\<lambda>mapped.
           (case tel_follower_command_kind config of
              CK_JointPosition \<Rightarrow> Ok (Some (F_JointPosition (JointVector15_from_slice timestamp_us mapped)))
            | CK_JointMit \<Rightarrow> Ok (Some (F_JointMit (joint_mit_command timestamp_us mapped
                (def_joint_mit_kp (tel_command_defaults config)) (def_joint_mit_kd (tel_command_defaults config)))))
            | _ \<Rightarrow> Err InvalidCartesianRoute)))"

definition map_parallel :: "teleop_runtime_config_v2 \<Rightarrow> leader_state \<Rightarrow> (forwarded_command option, router_error) result" where
  "map_parallel config state = (case state of
       PoseState _ \<Rightarrow> Err InvalidCartesianRoute
     | VectorState timestamp_us values \<Rightarrow>
         (let ratio = unwrap_or (get_opt (tel_joint_scales config) 0) (Fin 1);
              mapped = map (\<lambda>value. f_mul value ratio) values
          in (case tel_follower_command_kind config of
                CK_ParallelPosition \<Rightarrow> Ok (Some (F_ParallelPosition (ParallelVector2_from_slice timestamp_us mapped)))
              | CK_ParallelMit \<Rightarrow> Ok (Some (F_ParallelMit (parallel_mit_command timestamp_us mapped
                  (def_parallel_mit_kp (tel_command_defaults config)) (def_parallel_mit_kd (tel_command_defaults config)))))
              | _ \<Rightarrow> Err InvalidCartesianRoute)))"

definition map_leader_state :: "teleop_runtime_config_v2 \<Rightarrow> leader_state \<Rightarrow> (forwarded_command option, router_error) result" where
  "map_leader_state config state = (case tel_mapping config of
       Cartesian \<Rightarrow> map_cartesian config state
     | DirectJoint \<Rightarrow> map_direct_joint config state
     | Parallel \<Rightarrow> map_parallel config state)"

section \<open>Payload types of the two ports\<close>

datatype payload_type = P_JointVector15 | P_JointMitCommand15 | P_ParallelVector2
  | P_ParallelMitCommand2 | P_Pose7

definition state_subscriber_payload :: "robot_state_kind \<Rightarrow> payload_type" where
  "state_subscriber_payload kind = (case kind of
       SK_EndEffectorPose \<Rightarrow> P_Pose7
     | SK_ParallelPosition \<Rightarrow> P_ParallelVector2
     | SK_ParallelVelocity \<Rightarrow> P_ParallelVector2
     | SK_ParallelEffort \<Rightarrow> P_ParallelVector2
     | _ \<Rightarrow> P_JointVector15)"

fun command_publisher_payload :: "robot_command_kind \<Rightarrow> payload_type" where
  "command_publisher_payload CK_JointPosition = P_JointVector15"
| "command_publisher_payload CK_JointMit = P_JointMitCommand15"
| "command_publisher_payload CK_ParallelPosition = P_ParallelVector2"
| "command_publisher_payload CK_ParallelMit = P_ParallelMitCommand2"
| "command_publisher_payload CK_EndPose = P_Pose7"

text \<open>\<open>publish_command\<close> with the outcome of \<open>send_copy\<close>.\<close>

fun publish_command :: "payload_type \<Rightarrow> (unit, string) result \<Rightarrow> forwarded_command \<Rightarrow> (unit, router_error) result" where
  "publish_command P_JointVector15 send (F_JointPosition _) = map_err Port send"
| "publish_command P_JointMitCommand15 send (F_JointMit _) = map_err Port send"
| "publish_command P_ParallelVector2 send (F_ParallelPosition _) = map_err Port send"
| "publish_command P_ParallelMitCommand2 send (F_ParallelMit _) = map_err Port send"
| "publish_command P_Pose7 send (F_EndPose _) = map_err Port send"
| "publish_command _ _ _ = Err PublisherMismatch"

section \<open>Views into a command\<close>

definition slice_to :: "'a list \<Rightarrow> u32 \<Rightarrow> ('a list, router_error) result" where
  "slice_to xs n = (if unat n \<le> length xs then Ok (take (unat n) xs) else Err Panic)"

text \<open>\<open>command_joint_target_mut\<close> is a view: what is read, and the command with the view
  overwritten by a slice of the same length.\<close>

fun command_joint_target :: "forwarded_command \<Rightarrow> (f64 list option, router_error) result" where
  "command_joint_target (F_JointPosition v) = bind_ok (slice_to (vv_values v) (vv_len v)) (\<lambda>t. Ok (Some t))"
| "command_joint_target (F_JointMit m) = bind_ok (slice_to (mit_position m) (mit_len m)) (\<lambda>t. Ok (Some t))"
| "command_joint_target (F_ParallelPosition v) = bind_ok (slice_to (vv_values v) (vv_len v)) (\<lambda>t. Ok (Some t))"
| "command_joint_target (F_ParallelMit m) = bind_ok (slice_to (mit_position m) (mit_len m)) (\<lambda>t. Ok (Some t))"
| "command_joint_target (F_EndPose _) = Ok None"

fun set_joint_target :: "forwarded_command \<Rightarrow> f64 list \<Rightarrow> forwarded_command" where
  "set_joint_target (F_JointPosition v) t = F_JointPosition (v\<lparr>vv_values := overwrite t (vv_values v)\<rparr>)"
| "set_joint_target (F_JointMit m) t = F_JointMit (m\<lparr>mit_position := overwrite t (mit_position m)\<rparr>)"
| "set_joint_target (F_ParallelPosition v) t = F_ParallelPosition (v\<lparr>vv_values := overwrite t (vv_values v)\<rparr>)"
| "set_joint_target (F_ParallelMit m) t = F_ParallelMit (m\<lparr>mit_position := overwrite t (mit_position m)\<rparr>)"
| "set_joint_target (F_EndPose p) t = F_EndPose p"

fun command_pose :: "forwarded_command \<Rightarrow> pose7 option" where
  "command_pose (F_EndPose pose) = Some pose"
| "command_pose _ = None"

fun follower_position_slice :: "leader_state option \<Rightarrow> f64 list option" where
  "follower_position_slice (Some (VectorState _ values)) = Some values"
| "follower_position_slice _ = None"

fun follower_pose :: "leader_state option \<Rightarrow> pose7 option" where
  "follower_pose (Some (PoseState pose)) = Some pose"
| "follower_pose _ = None"

section \<open>Behaviour of the mapping\<close>

lemma collect_ok_iff: "collect_ok rs = Ok xs \<longleftrightarrow> rs = map Ok xs"
proof (induction rs arbitrary: xs)
  case (Cons r rs)
  show ?case
  proof (cases xs)
    case (Cons x xs')
    with Cons.IH show ?thesis by (cases r; cases "collect_ok rs") (auto simp: bind_ok_def)
  qed (cases r; cases "collect_ok rs"; simp add: bind_ok_def)
qed auto

definition source_index :: "u32 list \<Rightarrow> nat \<Rightarrow> nat" where
  "source_index joint_index_map k = unat (unwrap_or (get_opt joint_index_map k) (of_nat k))"

definition scale_at :: "f64 list \<Rightarrow> nat \<Rightarrow> f64" where
  "scale_at joint_scales k = unwrap_or (get_opt joint_scales k) (Fin 1)"

definition mapped_len :: "f64 list \<Rightarrow> u32 list \<Rightarrow> f64 list \<Rightarrow> nat" where
  "mapped_len values joint_index_map joint_scales =
     (if joint_index_map \<noteq> [] then length joint_index_map
      else if joint_scales \<noteq> [] then length joint_scales else length values)"

lemma map_joint_eq:
  "map_joint values m sc k =
     (if source_index m k < length values then Ok (f_mul (values ! source_index m k) (scale_at sc k))
      else Err (LeaderValueOutOfRange (source_index m k) (length values)))"
  by (simp add: map_joint_def source_index_def scale_at_def Let_def get_opt_def require_def)

lemma apply_joint_mapping_iff:
  "apply_joint_mapping values m sc = Ok out \<longleftrightarrow>
     (\<forall>k < mapped_len values m sc. source_index m k < length values)
     \<and> out = map (\<lambda>k. f_mul (values ! source_index m k) (scale_at sc k)) [0..<mapped_len values m sc]"
proof -
  let ?n = "mapped_len values m sc"
  have "apply_joint_mapping values m sc = Ok out \<longleftrightarrow> map (map_joint values m sc) [0..<?n] = map Ok out"
    by (simp add: apply_joint_mapping_def mapped_len_def Let_def collect_ok_iff)
  also have "\<dots> \<longleftrightarrow> length out = ?n \<and> (\<forall>k < ?n. map_joint values m sc k = Ok (out ! k))"
    by (auto simp: list_eq_iff_nth_eq)
  also have "\<dots> \<longleftrightarrow> length out = ?n \<and> (\<forall>k < ?n. source_index m k < length values
      \<and> f_mul (values ! source_index m k) (scale_at sc k) = out ! k)"
    by (auto simp: map_joint_eq split: if_splits)
  also have "\<dots> \<longleftrightarrow> (\<forall>k < ?n. source_index m k < length values)
      \<and> out = map (\<lambda>k. f_mul (values ! source_index m k) (scale_at sc k)) [0..<?n]"
    by (auto simp: list_eq_iff_nth_eq)
  finally show ?thesis .
qed

lemma is_ok_iff_Ok: "is_ok r \<longleftrightarrow> (\<exists>a. r = Ok a)"
  by (cases r) auto

lemma is_ok_apply_joint_mapping:
  "is_ok (apply_joint_mapping values m sc) \<longleftrightarrow> (\<forall>k < mapped_len values m sc. source_index m k < length values)"
  by (simp add: is_ok_iff_Ok apply_joint_mapping_iff)

lemma source_index_Nil: "k < 2 ^ 32 \<Longrightarrow> source_index [] k = k"
  by (simp add: source_index_def get_opt_def unsigned_of_nat take_bit_nat_eq_self)

lemma source_index_map: "k < length m \<Longrightarrow> source_index m k = unat (m ! k)"
  by (simp add: source_index_def get_opt_def)

section \<open>What a mapped command is\<close>

definition command_wf :: "forwarded_command \<Rightarrow> bool" where
  "command_wf cmd = (case cmd of
       F_JointPosition v \<Rightarrow> value_vector_wf MAX_DOF v
     | F_ParallelPosition v \<Rightarrow> value_vector_wf MAX_PARALLEL v
     | F_JointMit m \<Rightarrow> length (mit_position m) = MAX_DOF \<and> unat (mit_len m) \<le> MAX_DOF
     | F_ParallelMit m \<Rightarrow> length (mit_position m) = MAX_PARALLEL \<and> unat (mit_len m) \<le> MAX_PARALLEL
     | F_EndPose _ \<Rightarrow> True)"

lemma mit_command_of_shape:
  assumes "cap < 2 ^ 32"
  shows "unat (mit_len (mit_command_of cap ts values kp kd)) = min (length values) cap"
    and "length (mit_position (mit_command_of cap ts values kp kd)) = cap"
    and "mit_timestamp_us (mit_command_of cap ts values kp kd) = ts"
    and "take (min (length values) cap) (mit_position (mit_command_of cap ts values kp kd)) = take cap values"
proof -
  show "unat (mit_len (mit_command_of cap ts values kp kd)) = min (length values) cap"
    using unat_min_cap [OF assms, of "length values"] by (simp add: mit_command_of_def Let_def)
  show "length (mit_position (mit_command_of cap ts values kp kd)) = cap"
    "mit_timestamp_us (mit_command_of cap ts values kp kd) = ts"
    by (simp_all add: mit_command_of_def mit_default_def Let_def overwrite_def)
  show "take (min (length values) cap) (mit_position (mit_command_of cap ts values kp kd)) = take cap values"
    by (simp add: mit_command_of_def Let_def overwrite_def) (simp add: min_def)
qed

lemma from_slice_shape:
  "value_vector_wf MAX_DOF (JointVector15_from_slice ts xs)" "vv_timestamp_us (JointVector15_from_slice ts xs) = ts"
  "value_vector_wf MAX_PARALLEL (ParallelVector2_from_slice ts xs)" "vv_timestamp_us (ParallelVector2_from_slice ts xs) = ts"
  by (simp_all add: JointVector15_from_slice_def ParallelVector2_from_slice_def MAX_DOF_def MAX_PARALLEL_def
      value_vector_from_slice_wf) (simp_all add: value_vector_from_slice_def Let_def)

text \<open>Every command the mapping produces has the type of the configured publisher, the sample's
  timestamp and arrays whose length field is in range.\<close>

lemma map_leader_state_command:
  assumes "map_leader_state config state = Ok (Some cmd)"
  shows "publish_command (command_publisher_payload (tel_follower_command_kind config)) send cmd = map_err Port send"
    and "command_timestamp_us cmd = state_timestamp_us state" and "command_wf cmd"
proof -
  consider (pose) p where "cmd = F_EndPose p" "state = PoseState p" "tel_follower_command_kind config = CK_EndPose"
    | (vector) ts vals xs where "state = VectorState ts vals"
        "cmd = F_JointPosition (JointVector15_from_slice ts xs) \<and> tel_follower_command_kind config = CK_JointPosition
         \<or> cmd = F_ParallelPosition (ParallelVector2_from_slice ts xs) \<and> tel_follower_command_kind config = CK_ParallelPosition"
    | (mit) ts vals xs kp kd where "state = VectorState ts vals"
        "cmd = F_JointMit (joint_mit_command ts xs kp kd) \<and> tel_follower_command_kind config = CK_JointMit
         \<or> cmd = F_ParallelMit (parallel_mit_command ts xs kp kd) \<and> tel_follower_command_kind config = CK_ParallelMit"
    using assms
    by (auto simp: map_leader_state_def map_cartesian_def map_direct_joint_def map_parallel_def Let_def bind_ok_def
        split: mapping_strategy.splits leader_state.splits robot_command_kind.splits sum.splits)
  note kinds = this
  have "MAX_DOF < 2 ^ 32" "MAX_PARALLEL < 2 ^ 32" by (simp_all add: MAX_DOF_def MAX_PARALLEL_def)
  note shape = mit_command_of_shape [OF this(1)] mit_command_of_shape [OF this(2)]
  from kinds show "publish_command (command_publisher_payload (tel_follower_command_kind config)) send cmd = map_err Port send"
    by cases auto
  from kinds show "command_timestamp_us cmd = state_timestamp_us state"
    by cases (auto simp: joint_mit_command_def parallel_mit_command_def from_slice_shape shape)
  from kinds show "command_wf cmd"
    by cases (auto simp: command_wf_def joint_mit_command_def parallel_mit_command_def from_slice_shape shape)
qed

lemma map_leader_state_never_None: "map_leader_state config state \<noteq> Ok None"
  by (auto simp: map_leader_state_def map_cartesian_def map_direct_joint_def map_parallel_def Let_def bind_ok_def
      split: mapping_strategy.splits leader_state.splits robot_command_kind.splits sum.splits)

lemma command_joint_target_ok: "command_wf cmd \<Longrightarrow> is_ok (command_joint_target cmd)"
  by (cases cmd) (auto simp: command_wf_def value_vector_wf_def slice_to_def bind_ok_def)

lemma set_joint_target_keeps:
  "command_timestamp_us (set_joint_target cmd t) = command_timestamp_us cmd"
  "publish_command payload send (set_joint_target cmd t) = publish_command payload send cmd"
  by (cases cmd; simp; cases payload; simp)+

lemma command_joint_target_set:
  assumes "command_joint_target cmd = Ok (Some t)" and "length t' = length t"
  shows "command_joint_target (set_joint_target cmd t') = Ok (Some t')"
  using assms by (cases cmd) (auto simp: slice_to_def bind_ok_def overwrite_def split: if_splits)

section \<open>Properties\<close>

text \<open>The joint mapping succeeds exactly when every source index is inside the leader's
  values, and then its result is the scaled, permuted list the index map and the scales
  describe, with the identity and unit scale as defaults.\<close>

theorem joint_mapping_exact:
  "apply_joint_mapping vals m sc = Ok out \<longleftrightarrow>
     (\<forall>k < mapped_len vals m sc. source_index m k < length vals)
     \<and> out = map (\<lambda>k. f_mul (vals ! source_index m k) (scale_at sc k)) [0..<mapped_len vals m sc]"
  by (rule apply_joint_mapping_iff)

theorem joint_mapping_exact_witness:
  "apply_joint_mapping [Fin 1, Fin 2] [1, 0] [Fin 10] = Ok [Fin 20, Fin 1]"
  unfolding joint_mapping_exact
  by (auto simp: mapped_len_def source_index_def scale_at_def get_opt_def less_Suc_eq upt_rec numeral_2_eq_2)

end
