(* ===== verification/Teleop_Sync.thy ===== *)
theory Teleop_Sync
  imports Teleop_Mapping
begin

text \<open>
  The initial-sync half of the teleoperation router, lines 35 to 80, 173 to 462 and 524 to 645
  of \<^verbatim>\<open>teleop-router/src/lib.rs\<close>: the joint ramp, the cartesian ramp with its anchor and its
  one-second closeness window, and the vector and quaternion helpers they use. Angles and
  distances are exact reals inside \<open>f64\<close>; \<open>Instant\<close> is a count of nanoseconds.
\<close>

section \<open>Constants and states\<close>

definition SYNC_MAX_STEP_RAD :: f64 where "SYNC_MAX_STEP_RAD = Fin (25 / 1000)"
definition SYNC_COMPLETE_THRESHOLD_RAD :: f64 where "SYNC_COMPLETE_THRESHOLD_RAD = Fin (25 / 100)"
definition SYNC_MAX_STEP_M :: f64 where "SYNC_MAX_STEP_M = Fin (5 / 10000)"
definition SYNC_MAX_STEP_ROT_RAD :: f64 where "SYNC_MAX_STEP_ROT_RAD = Fin (1 / 1000)"
definition SYNC_COMPLETE_THRESHOLD_M :: f64 where "SYNC_COMPLETE_THRESHOLD_M = Fin (25 / 1000)"
definition SYNC_COMPLETE_THRESHOLD_ROT_RAD :: f64 where "SYNC_COMPLETE_THRESHOLD_ROT_RAD = Fin (1 / 10)"
definition SYNC_HOLD_DURATION :: nat where "SYNC_HOLD_DURATION = 1000000000"
definition F64_EPSILON :: f64 where "F64_EPSILON = Fin (1 / 2 ^ 52)"

record joint_sync_state =
  js_synced :: bool
  js_max_step :: f64
  js_complete_threshold :: f64

record cartesian_sync_state =
  cs_synced :: bool
  cs_max_step_m :: f64
  cs_max_step_rot_rad :: f64
  cs_complete_threshold_m :: f64
  cs_complete_threshold_rot_rad :: f64
  cs_ramp_pose :: "pose7 option"
  cs_closeness_started_at :: "nat option"

datatype sync_state = SyncDisabled | SyncJoint joint_sync_state | SyncCartesian cartesian_sync_state

datatype sync_outcome = Publish | Hold

definition sync_new :: "teleop_runtime_config_v2 \<Rightarrow> sync_state" where
  "sync_new config =
     (if tel_follower_state_topic config = None then SyncDisabled
      else case (tel_mapping config, tel_follower_state_kind config, tel_follower_command_kind config) of
          (Cartesian, Some SK_EndEffectorPose, CK_EndPose) \<Rightarrow>
            SyncCartesian \<lparr>cs_synced = False, cs_max_step_m = SYNC_MAX_STEP_M,
              cs_max_step_rot_rad = SYNC_MAX_STEP_ROT_RAD,
              cs_complete_threshold_m = SYNC_COMPLETE_THRESHOLD_M,
              cs_complete_threshold_rot_rad = SYNC_COMPLETE_THRESHOLD_ROT_RAD,
              cs_ramp_pose = None, cs_closeness_started_at = None\<rparr>
        | (DirectJoint, Some kind, command) \<Rightarrow>
            if (kind = SK_JointPosition \<or> kind = SK_ParallelPosition)
               \<and> command \<in> {CK_JointPosition, CK_JointMit, CK_ParallelPosition, CK_ParallelMit}
            then SyncJoint \<lparr>js_synced = False, js_max_step = SYNC_MAX_STEP_RAD,
              js_complete_threshold = SYNC_COMPLETE_THRESHOLD_RAD\<rparr>
            else SyncDisabled
        | _ \<Rightarrow> SyncDisabled)"

fun sync_enabled :: "sync_state \<Rightarrow> bool" where
  "sync_enabled SyncDisabled = False"
| "sync_enabled (SyncJoint s) = (\<not> js_synced s)"
| "sync_enabled (SyncCartesian s) = (\<not> cs_synced s)"

fun sync_mode_label :: "sync_state \<Rightarrow> string" where
  "sync_mode_label SyncDisabled = ''pass-through''"
| "sync_mode_label (SyncJoint _) = ''initial-ramp (joint)''"
| "sync_mode_label (SyncCartesian _) = ''initial-ramp (cartesian)''"

section \<open>The joint ramp\<close>

text \<open>The loop over the joints both sides have: clamped targets and the largest difference.\<close>

fun joint_ramp :: "f64 \<Rightarrow> f64 list \<Rightarrow> f64 list \<Rightarrow> f64 \<Rightarrow> f64 list \<times> f64" where
  "joint_ramp max_step (t # ts) (v # vs) max_diff =
     (let diff = f_sub t v;
          clamped = f_clamp diff (f_neg max_step) max_step;
          (ts', max_diff') = joint_ramp max_step ts vs (f_max max_diff (f_abs diff))
      in (f_add v clamped # ts', max_diff'))"
| "joint_ramp max_step ts _ max_diff = (ts, max_diff)"

definition joint_apply :: "joint_sync_state \<Rightarrow> forwarded_command \<Rightarrow> leader_state option
    \<Rightarrow> (joint_sync_state \<times> forwarded_command \<times> sync_outcome, router_error) result" where
  "joint_apply s command follower = (case follower_position_slice follower of
       None \<Rightarrow> Ok (s, command, Hold)
     | Some follower_values \<Rightarrow>
         bind_ok (command_joint_target command) (\<lambda>target. case target of
           None \<Rightarrow> Ok (s, command, Publish)
         | Some target \<Rightarrow>
             (let (target', max_diff) = joint_ramp (js_max_step s) target follower_values (Fin 0)
              in Ok (if f_le max_diff (js_complete_threshold s) then s\<lparr>js_synced := True\<rparr> else s,
                     set_joint_target command target', Publish))))"

section \<open>Vectors and quaternions\<close>

type_synonym vec3 = "f64 \<times> f64 \<times> f64"
type_synonym quat = "f64 \<times> f64 \<times> f64 \<times> f64"

definition pose_position :: "pose7 \<Rightarrow> vec3" where
  "pose_position p = (pose_values p ! 0, pose_values p ! 1, pose_values p ! 2)"

definition pose_quat :: "pose7 \<Rightarrow> quat" where
  "pose_quat p = (pose_values p ! 3, pose_values p ! 4, pose_values p ! 5, pose_values p ! 6)"

definition write_pose :: "pose7 \<Rightarrow> vec3 \<Rightarrow> quat \<Rightarrow> pose7" where
  "write_pose p position q = (case position of (x, y, z) \<Rightarrow> case q of (a, b, c, d) \<Rightarrow>
     p\<lparr>pose_values := (pose_values p)[0 := x, 1 := y, 2 := z, 3 := a, 4 := b, 5 := c, 6 := d]\<rparr>)"

text \<open>\<open>(dx * dx + dy * dy + dz * dz).sqrt()\<close>\<close>

fun vec3_norm :: "vec3 \<Rightarrow> f64" where
  "vec3_norm (dx, dy, dz) = f_sqrt (f_add (f_add (f_mul dx dx) (f_mul dy dy)) (f_mul dz dz))"

fun vec3_sub :: "vec3 \<Rightarrow> vec3 \<Rightarrow> vec3" where
  "vec3_sub (a0, a1, a2) (b0, b1, b2) = (f_sub a0 b0, f_sub a1 b1, f_sub a2 b2)"

definition vec3_distance :: "vec3 \<Rightarrow> vec3 \<Rightarrow> f64" where
  "vec3_distance a b = vec3_norm (vec3_sub a b)"

fun quat_dot :: "quat \<Rightarrow> quat \<Rightarrow> f64" where
  "quat_dot (a0, a1, a2, a3) (b0, b1, b2, b3) =
     f_add (f_add (f_add (f_mul a0 b0) (f_mul a1 b1)) (f_mul a2 b2)) (f_mul a3 b3)"

fun quat_neg :: "quat \<Rightarrow> quat" where
  "quat_neg (a, b, c, d) = (f_neg a, f_neg b, f_neg c, f_neg d)"

definition quat_align_shortest :: "quat \<Rightarrow> quat \<Rightarrow> quat" where
  "quat_align_shortest target reference =
     (if f_lt (quat_dot target reference) (Fin 0) then quat_neg target else target)"

definition quat_angle_between :: "quat \<Rightarrow> quat \<Rightarrow> f64" where
  "quat_angle_between a b =
     (let cos_half = f_clamp (quat_dot a b) (Fin (- 1)) (Fin 1)
      in f_mul (Fin 2) (f_acos (f_min (f_abs cos_half) (Fin 1))))"

fun quat_scale :: "f64 \<Rightarrow> quat \<Rightarrow> quat" where
  "quat_scale s (a, b, c, d) = (f_mul s a, f_mul s b, f_mul s c, f_mul s d)"

fun quat_add :: "quat \<Rightarrow> quat \<Rightarrow> quat" where
  "quat_add (a0, a1, a2, a3) (b0, b1, b2, b3) = (f_add a0 b0, f_add a1 b1, f_add a2 b2, f_add a3 b3)"

fun quat_sub :: "quat \<Rightarrow> quat \<Rightarrow> quat" where
  "quat_sub (a0, a1, a2, a3) (b0, b1, b2, b3) = (f_sub a0 b0, f_sub a1 b1, f_sub a2 b2, f_sub a3 b3)"

definition normalise_quat :: "quat \<Rightarrow> quat" where
  "normalise_quat q =
     (let norm_sq = quat_dot q q
      in if f_lt (Fin 0) norm_sq
         then let inv = f_div (Fin 1) (f_sqrt norm_sq)
              in (case q of (a, b, c, d) \<Rightarrow> (f_mul a inv, f_mul b inv, f_mul c inv, f_mul d inv))
         else q)"

definition quat_slerp :: "quat \<Rightarrow> quat \<Rightarrow> f64 \<Rightarrow> quat" where
  "quat_slerp from to t0 =
     (let t = f_clamp t0 (Fin 0) (Fin 1);
          dot = f_clamp (quat_dot from to) (Fin (- 1)) (Fin 1)
      in if f_lt (Fin (9995 / 10000)) (f_abs dot)
         then normalise_quat (quat_add from (quat_scale t (quat_sub to from)))
         else let theta = f_acos dot;
                  sin_theta = f_sin theta;
                  s_from = f_div (f_sin (f_mul (f_sub (Fin 1) t) theta)) sin_theta;
                  s_to = f_div (f_sin (f_mul t theta)) sin_theta
              in normalise_quat (quat_add (quat_scale s_from from) (quat_scale s_to to)))"

text \<open>The two clamps return the moved target and the distance before clamping.\<close>

definition clamp_translation :: "vec3 \<Rightarrow> vec3 \<Rightarrow> f64 \<Rightarrow> vec3 \<times> f64" where
  "clamp_translation target anchor max_step =
     (let d = vec3_sub target anchor;
          dist = vec3_norm d
      in if f_lt max_step dist
         then let scale = f_div max_step dist
              in (case (anchor, d) of ((a0, a1, a2), (dx, dy, dz)) \<Rightarrow>
                   ((f_add a0 (f_mul dx scale), f_add a1 (f_mul dy scale), f_add a2 (f_mul dz scale)), dist))
         else (target, dist))"

definition clamp_rotation :: "quat \<Rightarrow> quat \<Rightarrow> f64 \<Rightarrow> quat \<times> f64" where
  "clamp_rotation target_q anchor_q max_step =
     (let angle = quat_angle_between anchor_q target_q
      in if f_lt max_step angle \<and> f_lt F64_EPSILON angle
         then (quat_slerp anchor_q target_q (f_div max_step angle), angle)
         else (target_q, angle))"

section \<open>The cartesian ramp\<close>

definition cartesian_apply :: "cartesian_sync_state \<Rightarrow> forwarded_command \<Rightarrow> leader_state option \<Rightarrow> nat
    \<Rightarrow> cartesian_sync_state \<times> forwarded_command \<times> sync_outcome" where
  "cartesian_apply s command follower now = (case command_pose command of
       None \<Rightarrow> (s, command, Publish)
     | Some target \<Rightarrow> (case follower_pose follower of
         None \<Rightarrow> (s, command, Hold)
       | Some fpose \<Rightarrow>
         (let leader_p = pose_position target;
              ramp = unwrap_or (cs_ramp_pose s) fpose;
              anchor_p = pose_position ramp;
              anchor_q = pose_quat ramp;
              leader_q = quat_align_shortest (pose_quat target) anchor_q;
              follower_q = quat_align_shortest (pose_quat fpose) anchor_q;
              trans_gap = vec3_distance leader_p (pose_position fpose);
              rot_gap = quat_angle_between leader_q follower_q
          in if f_le trans_gap (cs_complete_threshold_m s) \<and> f_le rot_gap (cs_complete_threshold_rot_rad s)
             then let started_at = unwrap_or (cs_closeness_started_at s) now
                  in (s\<lparr>cs_ramp_pose := Some (write_pose ramp leader_p leader_q),
                        cs_closeness_started_at := Some started_at,
                        cs_synced := (if now - started_at \<ge> SYNC_HOLD_DURATION then True else cs_synced s)\<rparr>,
                      F_EndPose (write_pose target leader_p leader_q), Publish)
             else let next_p = fst (clamp_translation leader_p anchor_p (cs_max_step_m s));
                      next_q = fst (clamp_rotation leader_q anchor_q (cs_max_step_rot_rad s))
                  in (s\<lparr>cs_closeness_started_at := None,
                        cs_ramp_pose := Some (write_pose ramp next_p next_q)\<rparr>,
                      F_EndPose (write_pose target next_p next_q), Publish))))"

definition sync_apply :: "sync_state \<Rightarrow> forwarded_command \<Rightarrow> leader_state option \<Rightarrow> nat
    \<Rightarrow> (sync_state \<times> forwarded_command \<times> sync_outcome, router_error) result" where
  "sync_apply s command follower now = (case s of
       SyncDisabled \<Rightarrow> Ok (s, command, Publish)
     | SyncJoint j \<Rightarrow> bind_ok (joint_apply j command follower) (\<lambda>(j', command', outcome). Ok (SyncJoint j', command', outcome))
     | SyncCartesian c \<Rightarrow> (case cartesian_apply c command follower now of
         (c', command', outcome) \<Rightarrow> Ok (SyncCartesian c', command', outcome)))"

section \<open>What the joint ramp guarantees\<close>

lemma joint_ramp_length: "length (fst (joint_ramp m ts vs d)) = length ts"
  by (induction m ts vs d rule: joint_ramp.induct) (auto simp: Let_def split_def)

lemma joint_ramp_nth:
  "i < length ts \<Longrightarrow> i < length vs \<Longrightarrow>
     fst (joint_ramp m ts vs d) ! i = f_add (vs ! i) (f_clamp (f_sub (ts ! i) (vs ! i)) (f_neg m) m)"
  by (induction m ts vs d arbitrary: i rule: joint_ramp.induct)
    (auto simp: Let_def split_def nth_Cons split: nat.splits)

lemma joint_ramp_beyond: "length vs \<le> i \<Longrightarrow> fst (joint_ramp m ts vs d) ! i = ts ! i"
  by (induction m ts vs d arbitrary: i rule: joint_ramp.induct)
    (auto simp: Let_def split_def nth_Cons split: nat.splits)

lemma clamp_step_Fin:
  "f_add (Fin v) (f_clamp (f_sub (Fin t) (Fin v)) (f_neg (Fin m)) (Fin m)) =
     Fin (if t - v < - m then v - m else if m < t - v then v + m else t)"
  by (simp add: f_clamp_Fin)

text \<open>One clamped joint: NaN apart, the published value is within the step of the follower's, on
  the leader's side of it.\<close>

lemma clamp_step_bound:
  assumes "0 \<le> m" and "t \<noteq> NaN"
  obtains r where "f_add (Fin v) (f_clamp (f_sub t (Fin v)) (f_neg (Fin m)) (Fin m)) = Fin r" "\<bar>r - v\<bar> \<le> m"
proof (cases t)
  case (Fin x)
  with that assms(1) clamp_step_Fin [of v x m] show thesis by (auto split: if_splits)
qed (use that assms in \<open>auto simp: f_clamp_def f_sub_def\<close>)

lemma joint_ramp_Fin_diff:
  assumes "length xs = length ys"
  shows "\<exists>r. snd (joint_ramp m (map Fin xs) (map Fin ys) (Fin d)) = Fin r \<and>
    (\<forall>c. r \<le> c \<longleftrightarrow> d \<le> c \<and> (\<forall>i < length xs. \<bar>xs ! i - ys ! i\<bar> \<le> c))"
  using assms
proof (induction xs ys arbitrary: d rule: list_induct2)
  case (Cons x xs y ys)
  obtain r where r: "snd (joint_ramp m (map Fin xs) (map Fin ys) (Fin (max d \<bar>x - y\<bar>))) = Fin r"
    "\<And>c. r \<le> c \<longleftrightarrow> max d \<bar>x - y\<bar> \<le> c \<and> (\<forall>i < length xs. \<bar>xs ! i - ys ! i\<bar> \<le> c)"
    using Cons.IH by blast
  then show ?case by (auto simp: Let_def split_def nth_Cons less_Suc_eq_0_disj split: nat.splits)
qed auto

text \<open>The loop closed by a follower that reaches every published target.\<close>

definition tracked_tick :: "forwarded_command \<Rightarrow> joint_sync_state \<times> f64 list \<Rightarrow> joint_sync_state \<times> f64 list" where
  "tracked_tick command sf = (case sf of (s, follower) \<Rightarrow>
     (case joint_apply s command (Some (VectorState 0 follower)) of
        Ok (s', command', Publish) \<Rightarrow> (case command_joint_target command' of
            Ok (Some target) \<Rightarrow> (s', target)
          | _ \<Rightarrow> (s', follower))
      | _ \<Rightarrow> (s, follower)))"

lemma tracked_tick_eq:
  assumes "command_joint_target command = Ok (Some target)"
  shows "tracked_tick command (s, follower) =
    (case joint_ramp (js_max_step s) target follower (Fin 0) of (target', max_diff) \<Rightarrow>
      (if f_le max_diff (js_complete_threshold s) then s\<lparr>js_synced := True\<rparr> else s, target'))"
proof -
  obtain target' d where r: "joint_ramp (js_max_step s) target follower (Fin 0) = (target', d)" by fastforce
  then have "length target' = length target" using joint_ramp_length [of "js_max_step s" target follower "Fin 0"] by simp
  from command_joint_target_set [OF assms this] show ?thesis
    by (simp add: tracked_tick_def joint_apply_def assms bind_ok_def r)
qed

lemma tracked_ticks_sync:
  assumes cmd: "command_joint_target command = Ok (Some (map Fin xs))" and m: "0 \<le> m" and c: "0 \<le> c"
  shows "js_max_step s = Fin m \<Longrightarrow> js_complete_threshold s = Fin c \<Longrightarrow> length ys = length xs \<Longrightarrow>
    \<forall>i < length xs. \<bar>xs ! i - ys ! i\<bar> \<le> c + real k * m \<Longrightarrow>
    js_synced (fst ((tracked_tick command ^^ Suc k) (s, map Fin ys)))"
proof (induction k arbitrary: s ys)
  case 0
  obtain r where "snd (joint_ramp (Fin m) (map Fin xs) (map Fin ys) (Fin 0)) = Fin r" and "r \<le> c"
    using joint_ramp_Fin_diff [of xs ys "Fin m" 0] 0 c by auto
  then show ?case using 0 by (simp add: tracked_tick_eq [OF cmd] split_def)
next
  case (Suc k)
  define ys' where "ys' = map (\<lambda>i. if xs ! i - ys ! i < - m then ys ! i - m
    else if m < xs ! i - ys ! i then ys ! i + m else xs ! i) [0..<length xs]"
  have ramp: "fst (joint_ramp (Fin m) (map Fin xs) (map Fin ys) (Fin 0)) = map Fin ys'"
  proof (rule nth_equalityI)
    show "length (fst (joint_ramp (Fin m) (map Fin xs) (map Fin ys) (Fin 0))) = length (map Fin ys')"
      by (simp add: joint_ramp_length ys'_def)
    fix i
    assume "i < length (fst (joint_ramp (Fin m) (map Fin xs) (map Fin ys) (Fin 0)))"
    then show "fst (joint_ramp (Fin m) (map Fin xs) (map Fin ys) (Fin 0)) ! i = map Fin ys' ! i"
      using Suc.prems(3) clamp_step_Fin [of "ys ! i" "xs ! i" m]
      by (simp add: joint_ramp_length joint_ramp_nth ys'_def)
  qed
  obtain s' where tick: "tracked_tick command (s, map Fin ys) = (s', map Fin ys')"
    and s': "js_max_step s' = Fin m" "js_complete_threshold s' = Fin c"
    using ramp Suc.prems(1,2) by (auto simp: tracked_tick_eq [OF cmd] split_def)
  have "\<forall>i < length xs. \<bar>xs ! i - ys' ! i\<bar> \<le> c + real k * m"
  proof (intro allI impI)
    fix i
    assume i: "i < length xs"
    with Suc.prems(4) have "\<bar>xs ! i - ys ! i\<bar> \<le> c + real k * m + m" by (simp add: algebra_simps)
    moreover have "0 \<le> c + real k * m" using c m by simp
    ultimately show "\<bar>xs ! i - ys' ! i\<bar> \<le> c + real k * m" using i by (auto simp: ys'_def abs_if split: if_splits)
  qed
  with Suc.IH [of s' ys'] s' have "js_synced (fst ((tracked_tick command ^^ Suc k) (s', map Fin ys')))"
    by (simp add: ys'_def del: funpow.simps)
  with tick show ?case by (simp add: funpow_Suc_right del: funpow.simps)
qed

section \<open>The translation clamp\<close>

lemma vec3_norm_Fin: "vec3_norm (Fin a, Fin b, Fin c) = Fin (sqrt (a\<^sup>2 + b\<^sup>2 + c\<^sup>2))"
proof -
  have "0 \<le> a * a + b * b + c * c" by simp
  then have "\<not> a * a + b * b + c * c < 0" by linarith
  then show ?thesis by (simp add: power2_eq_square)
qed

lemma norm3_scale: "0 \<le> k \<Longrightarrow> sqrt ((a * k)\<^sup>2 + (b * k)\<^sup>2 + (c * k)\<^sup>2) = sqrt (a\<^sup>2 + b\<^sup>2 + c\<^sup>2) * k"
proof -
  assume "0 \<le> k"
  have "(a * k)\<^sup>2 + (b * k)\<^sup>2 + (c * k)\<^sup>2 = (a\<^sup>2 + b\<^sup>2 + c\<^sup>2) * k\<^sup>2" by (simp add: power_mult_distrib algebra_simps)
  with \<open>0 \<le> k\<close> show ?thesis by (simp add: real_sqrt_mult)
qed

definition vec3_finite :: "vec3 \<Rightarrow> bool" where
  "vec3_finite v = (case v of (a, b, c) \<Rightarrow> is_finite a \<and> is_finite b \<and> is_finite c)"

text \<open>A clamped target is at most the step from the anchor, and the rest of the way to the leader
  is shorter by exactly the step.\<close>

lemma clamp_translation_moves:
  assumes "vec3_finite target" and "vec3_finite anchor" and "0 \<le> m"
  obtains d where "vec3_distance target anchor = Fin d" "0 \<le> d"
    "vec3_finite (fst (clamp_translation target anchor (Fin m)))"
    "vec3_distance (fst (clamp_translation target anchor (Fin m))) anchor = Fin (min d m)"
    "vec3_distance target (fst (clamp_translation target anchor (Fin m))) = Fin (d - min d m)"
proof -
  obtain x y z where t: "target = (Fin x, Fin y, Fin z)"
    using assms(1) by (auto simp: vec3_finite_def is_finite_iff split: prod.splits)
  obtain a b c where an: "anchor = (Fin a, Fin b, Fin c)"
    using assms(2) by (auto simp: vec3_finite_def is_finite_iff split: prod.splits)
  define d where "d = sqrt ((x - a)\<^sup>2 + (y - b)\<^sup>2 + (z - c)\<^sup>2)"
  have d: "vec3_distance target anchor = Fin d" by (simp only: t an vec3_distance_def vec3_sub.simps f_sub_Fin vec3_norm_Fin d_def)
  have d0: "0 \<le> d" by (simp add: d_def)
  show thesis
  proof (cases "m < d")
    case False
    then have r: "fst (clamp_translation target anchor (Fin m)) = target"
      using d by (simp add: clamp_translation_def Let_def vec3_distance_def)
    have "vec3_distance target target = Fin 0" by (simp add: t vec3_distance_def)
    with that [OF d d0] r d False assms(1) show thesis by (simp add: min_def)
  next
    case True
    then have pos: "0 < d" using assms(3) by linarith
    define k where "k = m / d"
    have k: "0 \<le> k" "d * k = m" "k \<le> 1" using pos True assms(3) by (simp_all add: k_def)
    have r: "fst (clamp_translation target anchor (Fin m)) =
        (Fin (a + (x - a) * k), Fin (b + (y - b) * k), Fin (c + (z - c) * k))"
      using d True pos by (simp add: clamp_translation_def Let_def vec3_distance_def t an k_def del: vec3_norm.simps)
    have "vec3_distance (fst (clamp_translation target anchor (Fin m))) anchor = Fin (d * k)"
      using norm3_scale [OF k(1), of "x - a" "y - b" "z - c"]
      unfolding r unfolding an vec3_distance_def vec3_sub.simps f_sub_Fin vec3_norm_Fin add_diff_cancel_left' d_def
      by simp
    moreover have "vec3_distance target (fst (clamp_translation target anchor (Fin m))) = Fin (d * (1 - k))"
    proof -
      have "x - (a + (x - a) * k) = (x - a) * (1 - k)" "y - (b + (y - b) * k) = (y - b) * (1 - k)"
        "z - (c + (z - c) * k) = (z - c) * (1 - k)" by (simp_all add: algebra_simps)
      then show ?thesis using norm3_scale [of "1 - k" "x - a" "y - b" "z - c"] k(3)
        unfolding r unfolding t vec3_distance_def vec3_sub.simps f_sub_Fin vec3_norm_Fin d_def by simp
    qed
    ultimately show thesis
      using that [OF d d0] True k(2) by (simp add: r vec3_finite_def min_def algebra_simps)
  qed
qed

section \<open>The rotation clamp\<close>

definition unit_quat :: "quat \<Rightarrow> bool" where
  "unit_quat q \<longleftrightarrow> (case q of (a, b, c, d) \<Rightarrow> is_finite a \<and> is_finite b \<and> is_finite c \<and> is_finite d)
     \<and> quat_dot q q = Fin 1"

lemma unit_quatE:
  assumes "unit_quat q"
  obtains a b c d where "q = (Fin a, Fin b, Fin c, Fin d)" "a * a + b * b + c * c + d * d = 1"
  using assms by (auto simp: unit_quat_def is_finite_iff split: prod.splits)

lemma unit_quat_dot:
  assumes "unit_quat p" and "unit_quat q"
  obtains r where "quat_dot p q = Fin r" "\<bar>r\<bar> \<le> 1"
proof -
  obtain a b c d where p: "p = (Fin a, Fin b, Fin c, Fin d)" "a * a + b * b + c * c + d * d = 1"
    using assms(1) by (rule unit_quatE)
  obtain e f g h where q: "q = (Fin e, Fin f, Fin g, Fin h)" "e * e + f * f + g * g + h * h = 1"
    using assms(2) by (rule unit_quatE)
  let ?r = "a * e + b * f + c * g + d * h"
  have "0 \<le> (a - e) * (a - e) + (b - f) * (b - f) + (c - g) * (c - g) + (d - h) * (d - h)" by simp
  then have "?r \<le> 1" using p(2) q(2) by (simp add: algebra_simps)
  moreover have "0 \<le> (a + e) * (a + e) + (b + f) * (b + f) + (c + g) * (c + g) + (d + h) * (d + h)" by simp
  then have "- 1 \<le> ?r" using p(2) q(2) by (simp add: algebra_simps)
  ultimately show thesis using that [of ?r] by (simp add: p q)
qed

text \<open>The combination \<open>u * p + v * q\<close> of two unit quaternions.\<close>

lemma quat_combine:
  assumes "unit_quat p" and "unit_quat q" and "quat_dot p q = Fin r"
  shows "quat_dot p (quat_add (quat_scale (Fin u) p) (quat_scale (Fin v) q)) = Fin (u + v * r)"
    and "u * u + v * v + 2 * u * v * r = 1 \<Longrightarrow> unit_quat (quat_add (quat_scale (Fin u) p) (quat_scale (Fin v) q))"
proof -
  obtain a b c d where p: "p = (Fin a, Fin b, Fin c, Fin d)" "a * a + b * b + c * c + d * d = 1"
    using assms(1) by (rule unit_quatE)
  obtain e f g h where q: "q = (Fin e, Fin f, Fin g, Fin h)" "e * e + f * f + g * g + h * h = 1"
    using assms(2) by (rule unit_quatE)
  have r: "r = a * e + b * f + c * g + d * h" using assms(3) by (simp add: p q)
  have "a * (u * a + v * e) + b * (u * b + v * f) + c * (u * c + v * g) + d * (u * d + v * h)
      = u * (a * a + b * b + c * c + d * d) + v * r" unfolding r by (simp add: algebra_simps)
  then show "quat_dot p (quat_add (quat_scale (Fin u) p) (quat_scale (Fin v) q)) = Fin (u + v * r)"
    unfolding p(1) q(1) using p(2) by simp
  have "(u * a + v * e) * (u * a + v * e) + (u * b + v * f) * (u * b + v * f) + (u * c + v * g) * (u * c + v * g)
      + (u * d + v * h) * (u * d + v * h)
      = u * u * (a * a + b * b + c * c + d * d) + v * v * (e * e + f * f + g * g + h * h) + 2 * u * v * r"
    unfolding r by (simp add: algebra_simps)
  then show "unit_quat (quat_add (quat_scale (Fin u) p) (quat_scale (Fin v) q))"
    if "u * u + v * v + 2 * u * v * r = 1"
    using that unfolding p(1) q(1) by (simp add: unit_quat_def p(2) q(2))
qed

lemma normalise_unit_quat: "unit_quat q \<Longrightarrow> normalise_quat q = q"
  by (erule unit_quatE) (simp add: normalise_quat_def Let_def)

lemma slerp_weights:
  fixes \<theta> \<phi> :: real
  assumes "sin \<theta> \<noteq> 0"
  defines "u \<equiv> sin (\<theta> - \<phi>) / sin \<theta>" and "v \<equiv> sin \<phi> / sin \<theta>"
  shows "u + v * cos \<theta> = cos \<phi>" and "u * u + v * v + 2 * u * v * cos \<theta> = 1"
proof -
  show *: "u + v * cos \<theta> = cos \<phi>"
    using assms(1) by (simp add: u_def v_def sin_diff field_simps)
  have "u * u + v * v + 2 * u * v * cos \<theta> = (u + v * cos \<theta>)\<^sup>2 + v\<^sup>2 * (1 - (cos \<theta>)\<^sup>2)"
    by (simp add: power2_eq_square algebra_simps)
  also have "\<dots> = (cos \<phi>)\<^sup>2 + v\<^sup>2 * (sin \<theta>)\<^sup>2" by (simp only: * sin_squared_eq)
  also have "\<dots> = 1" using assms(1) by (simp add: v_def power_divide)
  finally show "u * u + v * v + 2 * u * v * cos \<theta> = 1" .
qed

lemma quat_angle_unit:
  assumes "quat_dot p q = Fin r" and "\<bar>r\<bar> \<le> 1"
  shows "quat_angle_between p q = Fin (2 * arccos \<bar>r\<bar>)"
proof -
  have "f_clamp (Fin r) (Fin (- 1)) (Fin 1) = Fin r" using assms(2) by (auto simp: f_clamp_Fin)
  moreover have "min \<bar>r\<bar> 1 = \<bar>r\<bar>" using assms(2) by simp
  ultimately show ?thesis using assms by (simp add: quat_angle_between_def)
qed

text \<open>Outside the near-parallel fallback, a clamped rotation is a unit quaternion at exactly the
  step from the anchor.\<close>

lemma clamp_rotation_exact:
  assumes a: "unit_quat anchor" and q: "unit_quat target" and dot: "quat_dot anchor target = Fin r"
    and r: "0 \<le> r" "r \<le> 9995 / 10000" and m: "1 / 2 ^ 52 < m" "m < 2 * arccos r"
  defines "out \<equiv> fst (clamp_rotation target anchor (Fin m))"
  shows "unit_quat out" and "quat_angle_between anchor out = Fin m"
proof -
  define \<theta> where "\<theta> = arccos r"
  have c: "cos \<theta> = r" and \<theta>: "0 < \<theta>" "\<theta> \<le> pi / 2"
    using r arccos_lt_bounded [of r] arccos_le_pi2 [of r] by (auto simp: \<theta>_def cos_arccos)
  have s: "0 < sin \<theta>" using \<theta> pi_gt_zero by (intro sin_gt_zero) linarith+
  have m0: "0 < m" using m(1) by (rule order.strict_trans [rotated]) simp
  define \<phi> where "\<phi> = m / 2"
  have \<phi>: "0 < \<phi>" "\<phi> < \<theta>" "m / (2 * \<theta>) * \<theta> = \<phi>" using m0 m(2) \<theta> by (simp_all add: \<phi>_def \<theta>_def)
  have ang: "quat_angle_between anchor target = Fin (2 * \<theta>)"
    using quat_angle_unit [OF dot] r by (simp add: \<theta>_def)
  define t where "t = m / (2 * \<theta>)"
  have t: "0 \<le> t" "t \<le> 1" "t * \<theta> = \<phi>" "(1 - t) * \<theta> = \<theta> - \<phi>"
    using \<phi> \<theta> m0 m(2) by (simp_all add: t_def \<theta>_def [symmetric] algebra_simps)
  have ct: "f_clamp (Fin t) (Fin 0) (Fin 1) = Fin t" using t by (simp add: f_clamp_Fin)
  have cr: "f_clamp (Fin r) (Fin (- 1)) (Fin 1) = Fin r" using r by (simp add: f_clamp_Fin)
  have "out = quat_slerp anchor target (Fin t)"
    using m \<theta> m0 by (simp add: out_def clamp_rotation_def ang Let_def F64_EPSILON_def t_def \<theta>_def [symmetric])
  also have "\<dots> = normalise_quat (quat_add (quat_scale (Fin (sin (\<theta> - \<phi>) / sin \<theta>)) anchor)
      (quat_scale (Fin (sin \<phi> / sin \<theta>)) target))"
    using r s t by (simp add: quat_slerp_def Let_def dot ct cr \<theta>_def [symmetric])
  finally have out: "out = normalise_quat (quat_add (quat_scale (Fin (sin (\<theta> - \<phi>) / sin \<theta>)) anchor)
      (quat_scale (Fin (sin \<phi> / sin \<theta>)) target))" .
  note w = slerp_weights [of \<theta> \<phi>, unfolded c]
  have unit: "unit_quat (quat_add (quat_scale (Fin (sin (\<theta> - \<phi>) / sin \<theta>)) anchor)
      (quat_scale (Fin (sin \<phi> / sin \<theta>)) target))"
    using s by (intro quat_combine(2) [OF a q dot] w(2)) simp
  with out show "unit_quat out" by (simp add: normalise_unit_quat)
  have "quat_dot anchor out = Fin (cos \<phi>)"
    using quat_combine(1) [OF a q dot, of "sin (\<theta> - \<phi>) / sin \<theta>" "sin \<phi> / sin \<theta>"] w(1) s out
    by (simp add: normalise_unit_quat [OF unit])
  moreover have "0 \<le> cos \<phi>" using \<phi> \<theta> by (intro cos_ge_zero) linarith+
  moreover have "arccos (cos \<phi>) = \<phi>" using \<phi> \<theta> pi_gt_zero by (intro arccos_cos) linarith+
  ultimately show "quat_angle_between anchor out = Fin m"
    using quat_angle_unit [of anchor out "cos \<phi>"] by (simp add: \<phi>_def)
qed

section \<open>What the cartesian ramp guarantees\<close>

definition pose_wf :: "pose7 \<Rightarrow> bool" where
  "pose_wf p \<longleftrightarrow> length (pose_values p) = 7"

lemma write_pose_reads:
  assumes "pose_wf p"
  shows "pose_position (write_pose p v q) = v" and "pose_quat (write_pose p v q) = q"
    and "pose_wf (write_pose p v q)" and "pose_timestamp_us (write_pose p v q) = pose_timestamp_us p"
proof -
  obtain x0 x1 x2 x3 x4 x5 x6 where p: "pose_values p = [x0, x1, x2, x3, x4, x5, x6]"
    using assms unfolding pose_wf_def by (auto simp: numeral_eq_Suc length_Suc_conv)
  obtain x y z a b c d where "v = (x, y, z)" "q = (a, b, c, d)" by (metis prod_cases3 prod_cases4)
  then show "pose_position (write_pose p v q) = v" "pose_quat (write_pose p v q) = q"
    "pose_wf (write_pose p v q)" "pose_timestamp_us (write_pose p v q) = pose_timestamp_us p"
    by (simp_all add: write_pose_def pose_position_def pose_quat_def pose_wf_def p)
qed

text \<open>Whether the gap between leader and follower is within the thresholds; \<open>None\<close> when the tick
  makes no comparison.\<close>

definition gap_within :: "cartesian_sync_state \<Rightarrow> forwarded_command \<Rightarrow> leader_state option \<Rightarrow> bool option" where
  "gap_within s command follower = (case (command_pose command, follower_pose follower) of
       (Some target, Some fpose) \<Rightarrow>
         (let anchor_q = pose_quat (unwrap_or (cs_ramp_pose s) fpose) in
          Some (f_le (vec3_distance (pose_position target) (pose_position fpose)) (cs_complete_threshold_m s)
            \<and> f_le (quat_angle_between (quat_align_shortest (pose_quat target) anchor_q)
                 (quat_align_shortest (pose_quat fpose) anchor_q)) (cs_complete_threshold_rot_rad s)))
     | _ \<Rightarrow> None)"

lemma cartesian_apply_window:
  assumes "cartesian_apply s command follower now = (s', command', outcome)"
  shows "gap_within s command follower = None \<Longrightarrow> s' = s"
    and "gap_within s command follower = Some False \<Longrightarrow>
      cs_closeness_started_at s' = None \<and> cs_synced s' = cs_synced s"
    and "gap_within s command follower = Some True \<Longrightarrow>
      cs_closeness_started_at s' = Some (unwrap_or (cs_closeness_started_at s) now) \<and>
      cs_synced s' = (cs_synced s \<or> SYNC_HOLD_DURATION \<le> now - unwrap_or (cs_closeness_started_at s) now)"
  using assms
  by (auto simp: cartesian_apply_def gap_within_def Let_def split: option.splits if_splits)

text \<open>Where a tick publishes, with the anchor it leaves.\<close>

lemma cartesian_apply_position:
  assumes "cartesian_apply s (F_EndPose target) (Some (PoseState fpose)) now = (s', command', outcome)"
    and "pose_wf target" and "pose_wf (unwrap_or (cs_ramp_pose s) fpose)"
  obtains out ramp' where "command' = F_EndPose out" "outcome = Publish" "cs_ramp_pose s' = Some ramp'"
    "pose_wf ramp'" "pose_position ramp' = pose_position out"
    "gap_within s (F_EndPose target) (Some (PoseState fpose)) = Some True \<Longrightarrow> pose_position out = pose_position target"
    "gap_within s (F_EndPose target) (Some (PoseState fpose)) = Some False \<Longrightarrow> pose_position out =
       fst (clamp_translation (pose_position target) (pose_position (unwrap_or (cs_ramp_pose s) fpose)) (cs_max_step_m s))"
  using assms
  by (auto simp: cartesian_apply_def gap_within_def Let_def write_pose_reads split: if_splits)

text \<open>Runs of the ramp.\<close>

type_synonym tick = "forwarded_command \<times> leader_state option \<times> nat"

definition cartesian_tick :: "cartesian_sync_state \<Rightarrow> tick \<Rightarrow> cartesian_sync_state" where
  "cartesian_tick s k = (case k of (command, follower, now) \<Rightarrow> fst (cartesian_apply s command follower now))"

definition tick_gap :: "cartesian_sync_state \<Rightarrow> tick \<Rightarrow> bool option" where
  "tick_gap s k = (case k of (command, follower, now) \<Rightarrow> gap_within s command follower)"

fun none_far :: "cartesian_sync_state \<Rightarrow> tick list \<Rightarrow> bool" where
  "none_far s [] = True"
| "none_far s (k # ks) \<longleftrightarrow> tick_gap s k \<noteq> Some False \<and> none_far (cartesian_tick s k) ks"

lemma none_far_snoc:
  "none_far s (ks @ [k]) \<longleftrightarrow> none_far s ks \<and> tick_gap (run_steps cartesian_tick s ks) k \<noteq> Some False"
  by (induction ks arbitrary: s) auto

text \<open>A streak: the run ends in ticks none of which is far, beginning with a close one at \<open>t\<close>.\<close>

definition streak_from :: "cartesian_sync_state \<Rightarrow> tick list \<Rightarrow> nat \<Rightarrow> bool" where
  "streak_from s ks t \<longleftrightarrow> (\<exists>pre k seg. ks = pre @ k # seg \<and> snd (snd k) = t
     \<and> tick_gap (run_steps cartesian_tick s pre) k = Some True
     \<and> none_far (run_steps cartesian_tick s pre) (k # seg))"

lemma streak_from_snoc:
  assumes "streak_from s ks t" and "tick_gap (run_steps cartesian_tick s ks) k \<noteq> Some False"
  shows "streak_from s (ks @ [k]) t"
proof -
  from assms(1) obtain pre k0 seg where 1: "ks = pre @ k0 # seg" "snd (snd k0) = t"
    "tick_gap (run_steps cartesian_tick s pre) k0 = Some True"
    "none_far (run_steps cartesian_tick s pre) (k0 # seg)"
    unfolding streak_from_def by blast
  have "none_far (run_steps cartesian_tick s pre) ((k0 # seg) @ [k])"
    unfolding none_far_snoc using 1 assms(2) by (simp only: run_steps_append) simp
  with 1 show ?thesis unfolding streak_from_def by (metis append.assoc append_Cons)
qed

lemma streak_from_start:
  "tick_gap (run_steps cartesian_tick s ks) (c, f, now) = Some True \<Longrightarrow> streak_from s (ks @ [(c, f, now)]) now"
  unfolding streak_from_def by (rule exI [of _ ks], rule exI [of _ "(c, f, now)"], rule exI [of _ "[]"]) simp

text \<open>The window: while it is open the run ends in a streak that began when it was opened, and
  sync is only declared on a streak of a full second.\<close>

definition held_streak :: "cartesian_sync_state \<Rightarrow> tick list \<Rightarrow> bool" where
  "held_streak s ks \<longleftrightarrow> (\<exists>us c f now t. \<exists>vs. ks = us @ (c, f, now) # vs \<and> streak_from s (us @ [(c, f, now)]) t
     \<and> SYNC_HOLD_DURATION \<le> now - t)"

lemma held_streak_snoc: "held_streak s ks \<Longrightarrow> held_streak s (ks @ [k])"
  unfolding held_streak_def by (metis append.assoc append_Cons)

lemma cartesian_window_invariant:
  assumes "cs_closeness_started_at s0 = None" and "\<not> cs_synced s0"
  defines "run \<equiv> run_steps cartesian_tick s0"
  shows "(\<forall>t. cs_closeness_started_at (run ks) = Some t \<longrightarrow> streak_from s0 ks t) \<and>
    (cs_synced (run ks) \<longrightarrow> held_streak s0 ks)"
proof (induction ks rule: rev_induct)
  case Nil
  from assms show ?case by simp
next
  case (snoc k ks)
  obtain c f now where k: "k = (c, f, now)" by (metis prod_cases3)
  obtain s' c' oc where ap: "cartesian_apply (run ks) c f now = (s', c', oc)" by (metis prod_cases3)
  have run: "run (ks @ [k]) = s'" by (simp add: run_def run_steps_append cartesian_tick_def k ap [unfolded run_def])
  have gap: "tick_gap (run ks) k = gap_within (run ks) c f" by (simp add: tick_gap_def k)
  note w = cartesian_apply_window [OF ap]
  consider (none) "gap_within (run ks) c f = None" | (far) "gap_within (run ks) c f = Some False"
    | (close) "gap_within (run ks) c f = Some True" by (metis (full_types) not_Some_eq)
  then show ?case
  proof cases
    case none
    with w(1) snoc gap run show ?thesis
      by (auto simp: run_def intro: streak_from_snoc held_streak_snoc)
  next
    case far
    with w(2) snoc run show ?thesis by (auto intro: held_streak_snoc)
  next
    case close
    define t where "t = unwrap_or (cs_closeness_started_at (run ks)) now"
    have str: "streak_from s0 (ks @ [k]) t"
    proof (cases "cs_closeness_started_at (run ks)")
      case None
      with close gap show ?thesis by (simp add: t_def k streak_from_start [of s0 ks] run_def)
    next
      case (Some u)
      with snoc close gap show ?thesis by (simp add: t_def run_def streak_from_snoc)
    qed
    have "held_streak s0 (ks @ [k])" if "SYNC_HOLD_DURATION \<le> now - t"
      using str that unfolding held_streak_def k by blast
    with w(3) [OF close] snoc str run show ?thesis
      by (auto simp: t_def [symmetric] intro: held_streak_snoc)
  qed
qed

section \<open>Properties\<close>

text \<open>C20: during the joint ramp, for a joint the follower reports with a finite value, the
  published target is finite and at most 0.025 rad from that value, for every leader value
  other than NaN, infinities included.\<close>

theorem joint_ramp_bounds_motion:
  assumes "sync_new config = SyncJoint s" and "command_joint_target command = Ok (Some target)"
    and "i < length target" and "i < length follower" and "target ! i \<noteq> NaN" and "follower ! i = Fin v"
  shows "\<exists>s' command' target' r. joint_apply s command (Some (VectorState ts follower)) = Ok (s', command', Publish)
    \<and> command_joint_target command' = Ok (Some target') \<and> target' ! i = Fin r \<and> \<bar>r - v\<bar> \<le> 25 / 1000"
proof -
  from assms(1) have m: "js_max_step s = Fin (25 / 1000)"
    by (auto simp: sync_new_def SYNC_MAX_STEP_RAD_def split: mapping_strategy.splits option.splits
        robot_state_kind.splits robot_command_kind.splits if_splits)
  obtain target' d where ramp: "joint_ramp (js_max_step s) target follower (Fin 0) = (target', d)" by fastforce
  have len: "length target' = length target" using joint_ramp_length [of "js_max_step s" target follower "Fin 0"] ramp by simp
  have "target' ! i = f_add (Fin v) (f_clamp (f_sub (target ! i) (Fin v)) (f_neg (Fin (25 / 1000))) (Fin (25 / 1000)))"
    using joint_ramp_nth [OF assms(3,4), of "js_max_step s" "Fin 0"] ramp assms(6) by (simp add: m)
  moreover obtain r where "f_add (Fin v) (f_clamp (f_sub (target ! i) (Fin v)) (f_neg (Fin (25 / 1000))) (Fin (25 / 1000))) = Fin r"
    "\<bar>r - v\<bar> \<le> 25 / 1000"
    by (rule clamp_step_bound [of "25 / 1000" "target ! i" v]) (use assms(5) in auto)
  ultimately show ?thesis using command_joint_target_set [OF assms(2) len] ramp
    by (simp add: joint_apply_def assms(2) bind_ok_def)
qed

definition joint_config :: teleop_runtime_config_v2 where
  "joint_config = \<lparr>tel_process_id = ''teleop'', tel_leader_channel_id = ''leader/arm'',
     tel_follower_channel_id = ''follower/arm'', tel_leader_state_kind = SK_JointPosition,
     tel_leader_state_topic = ''robot0/arm/states/joint_position'', tel_follower_command_kind = CK_JointPosition,
     tel_follower_command_topic = ''robot1/arm/commands/joint_position'',
     tel_follower_state_kind = Some SK_JointPosition,
     tel_follower_state_topic = Some ''robot1/arm/states/joint_position'',
     tel_sync_max_step_rad = None, tel_sync_complete_threshold_rad = None, tel_mapping = DirectJoint,
     tel_joint_index_map = [], tel_joint_scales = [], tel_command_defaults = ChannelCommandDefaults_default\<rparr>"

definition fresh_joint_sync :: joint_sync_state where
  "fresh_joint_sync = \<lparr>js_synced = False, js_max_step = SYNC_MAX_STEP_RAD,
     js_complete_threshold = SYNC_COMPLETE_THRESHOLD_RAD\<rparr>"

lemma sync_new_joint_config: "sync_new joint_config = SyncJoint fresh_joint_sync"
  by (simp add: sync_new_def joint_config_def fresh_joint_sync_def)

lemma joint_target_from_slice:
  "length xs \<le> MAX_DOF \<Longrightarrow> command_joint_target (F_JointPosition (JointVector15_from_slice ts xs)) = Ok (Some xs)"
  using jv15.view_make_short [of xs ts] value_vector_from_slice_wf [of MAX_DOF ts xs]
  by (simp add: slice_to_def bind_ok_def value_vector_slice_def value_vector_wf_def JointVector15_from_slice_def MAX_DOF_def)

theorem joint_ramp_bounds_motion_witness:
  "\<exists>s' command' target' r. joint_apply fresh_joint_sync (F_JointPosition (JointVector15_from_slice 0 [PInf]))
      (Some (VectorState 0 [Fin 1])) = Ok (s', command', Publish)
    \<and> command_joint_target command' = Ok (Some target') \<and> target' ! 0 = Fin r \<and> \<bar>r - 1\<bar> \<le> 25 / 1000"
  by (rule joint_ramp_bounds_motion [OF sync_new_joint_config joint_target_from_slice]) (simp_all add: MAX_DOF_def)

text \<open>C23: a follower that reaches every published target completes the ramp: if no joint starts
  further than the threshold plus \<open>k\<close> steps from the leader, the ramp is over after \<open>k + 1\<close>
  ticks.\<close>

theorem joint_sync_completes:
  assumes "sync_new config = SyncJoint s" and "command_joint_target command = Ok (Some (map Fin xs))"
    and "length ys = length xs" and "\<forall>i < length xs. \<bar>xs ! i - ys ! i\<bar> \<le> 25 / 100 + real k * (25 / 1000)"
  shows "js_synced (fst ((tracked_tick command ^^ Suc k) (s, map Fin ys)))"
proof -
  from assms(1) have "js_max_step s = Fin (25 / 1000)" "js_complete_threshold s = Fin (25 / 100)"
    by (auto simp: sync_new_def SYNC_MAX_STEP_RAD_def SYNC_COMPLETE_THRESHOLD_RAD_def
        split: mapping_strategy.splits option.splits robot_state_kind.splits robot_command_kind.splits if_splits)
  from tracked_ticks_sync [OF assms(2) _ _ this assms(3,4)] show ?thesis by simp
qed

theorem joint_sync_completes_witness:
  "js_synced (fst ((tracked_tick (F_JointPosition (JointVector15_from_slice 0 (map Fin [1]))) ^^ Suc 30)
     (fresh_joint_sync, map Fin [0])))"
  by (rule joint_sync_completes [OF sync_new_joint_config joint_target_from_slice]) (simp_all add: MAX_DOF_def)

text \<open>A follower sample with no joint values ends the joint ramp at once and lets the
  leader's target through unclamped, however far it is.\<close>

theorem empty_feedback_ends_ramp:
  assumes "command_joint_target command = Ok (Some target)"
  shows "joint_apply fresh_joint_sync command (Some (VectorState ts [])) =
    Ok (fresh_joint_sync\<lparr>js_synced := True\<rparr>, command, Publish)"
proof -
  have "joint_ramp m target [] d = (target, d)" for m d by (cases target) auto
  moreover have "set_joint_target command target = command"
    using assms by (cases command) (auto simp: slice_to_def bind_ok_def overwrite_def split: if_splits)
  ultimately show ?thesis
    by (simp add: joint_apply_def assms bind_ok_def fresh_joint_sync_def SYNC_COMPLETE_THRESHOLD_RAD_def)
qed

theorem empty_feedback_ends_ramp_witness:
  "joint_apply fresh_joint_sync (F_JointPosition (JointVector15_from_slice 0 [Fin 3])) (Some (VectorState 0 [])) =
    Ok (fresh_joint_sync\<lparr>js_synced := True\<rparr>, F_JointPosition (JointVector15_from_slice 0 [Fin 3]), Publish)"
  by (rule empty_feedback_ends_ramp [OF joint_target_from_slice]) (simp add: MAX_DOF_def)

text \<open>A leader value of NaN is published as NaN during the ramp and does not count as a
  difference, so a sample of NaN ends the ramp.\<close>

theorem nan_leader_ends_ramp:
  "\<exists>command'. joint_apply fresh_joint_sync (F_JointPosition (JointVector15_from_slice ts [NaN]))
       (Some (VectorState ts' [Fin v])) = Ok (fresh_joint_sync\<lparr>js_synced := True\<rparr>, command', Publish)
     \<and> command_joint_target command' = Ok (Some [NaN])"
proof -
  have t: "command_joint_target (F_JointPosition (JointVector15_from_slice ts [NaN])) = Ok (Some [NaN])"
    by (rule joint_target_from_slice) (simp add: MAX_DOF_def)
  from command_joint_target_set [OF t, of "[NaN]"] show ?thesis unfolding joint_apply_def
    by (simp only: t) (simp add: bind_ok_def f_sub_def f_clamp_def f_max_def fresh_joint_sync_def SYNC_MAX_STEP_RAD_def
        SYNC_COMPLETE_THRESHOLD_RAD_def)
qed

text \<open>C21: a tick of the cartesian ramp with finite positions publishes a position that
  is within the completion threshold (0.025 m) of the follower or within one step (0.0005 m) of
  the ramp anchor, and the anchor moves to what was published.\<close>

theorem cartesian_step_bounds_motion:
  assumes "cs_max_step_m s = SYNC_MAX_STEP_M" and "cs_complete_threshold_m s = SYNC_COMPLETE_THRESHOLD_M"
    and "pose_wf target" and "vec3_finite (pose_position target)"
    and "pose_wf (unwrap_or (cs_ramp_pose s) fpose)" and "vec3_finite (pose_position (unwrap_or (cs_ramp_pose s) fpose))"
  shows "\<exists>s' out ramp'. cartesian_apply s (F_EndPose target) (Some (PoseState fpose)) now = (s', F_EndPose out, Publish)
    \<and> cs_ramp_pose s' = Some ramp' \<and> pose_position ramp' = pose_position out
    \<and> (f_le (vec3_distance (pose_position out) (pose_position fpose)) (Fin (25 / 1000))
       \<or> f_le (vec3_distance (pose_position out) (pose_position (unwrap_or (cs_ramp_pose s) fpose))) (Fin (5 / 10000)))"
proof -
  obtain s' command' outcome where ap: "cartesian_apply s (F_EndPose target) (Some (PoseState fpose)) now = (s', command', outcome)"
    by (metis prod_cases3)
  from ap assms(3,5) obtain out ramp' where out: "command' = F_EndPose out" "outcome = Publish" "cs_ramp_pose s' = Some ramp'"
    "pose_wf ramp'" "pose_position ramp' = pose_position out"
    and close: "gap_within s (F_EndPose target) (Some (PoseState fpose)) = Some True \<Longrightarrow> pose_position out = pose_position target"
    and far: "gap_within s (F_EndPose target) (Some (PoseState fpose)) = Some False \<Longrightarrow> pose_position out =
       fst (clamp_translation (pose_position target) (pose_position (unwrap_or (cs_ramp_pose s) fpose)) (cs_max_step_m s))"
    by (rule cartesian_apply_position) blast
  obtain d where d: "vec3_distance (fst (clamp_translation (pose_position target)
      (pose_position (unwrap_or (cs_ramp_pose s) fpose)) (Fin (5 / 10000)))) (pose_position (unwrap_or (cs_ramp_pose s) fpose))
      = Fin (min d (5 / 10000))"
    by (rule clamp_translation_moves [OF assms(4,6), of "5 / 10000"]) auto
  have "gap_within s (F_EndPose target) (Some (PoseState fpose)) = Some True \<and>
      f_le (vec3_distance (pose_position target) (pose_position fpose)) (Fin (25 / 1000))
    \<or> gap_within s (F_EndPose target) (Some (PoseState fpose)) = Some False"
    by (auto simp: gap_within_def Let_def assms(2) SYNC_COMPLETE_THRESHOLD_M_def)
  with ap out close far d show ?thesis by (auto simp: assms(1) SYNC_MAX_STEP_M_def)
qed

definition fresh_cartesian_sync :: cartesian_sync_state where
  "fresh_cartesian_sync = \<lparr>cs_synced = False, cs_max_step_m = SYNC_MAX_STEP_M, cs_max_step_rot_rad = SYNC_MAX_STEP_ROT_RAD,
     cs_complete_threshold_m = SYNC_COMPLETE_THRESHOLD_M, cs_complete_threshold_rot_rad = SYNC_COMPLETE_THRESHOLD_ROT_RAD,
     cs_ramp_pose = None, cs_closeness_started_at = None\<rparr>"

theorem cartesian_step_bounds_motion_witness:
  "\<exists>s' out ramp'. cartesian_apply fresh_cartesian_sync (F_EndPose \<lparr>pose_timestamp_us = 0, pose_values = map Fin [1, 0, 0, 0, 0, 0, 1]\<rparr>)
      (Some (PoseState Pose7_default)) 0 = (s', F_EndPose out, Publish)
    \<and> cs_ramp_pose s' = Some ramp' \<and> pose_position ramp' = pose_position out
    \<and> (f_le (vec3_distance (pose_position out) (pose_position Pose7_default)) (Fin (25 / 1000))
       \<or> f_le (vec3_distance (pose_position out) (pose_position (unwrap_or (cs_ramp_pose fresh_cartesian_sync) Pose7_default))) (Fin (5 / 10000)))"
  by (rule cartesian_step_bounds_motion)
    (simp_all add: fresh_cartesian_sync_def pose_wf_def vec3_finite_def pose_position_def Pose7_default_def numeral_eq_Suc)

text \<open>C22: the cartesian ramp only completes after a streak of at least one second: the
  run contains a tick at which leader and follower were within both thresholds, no later tick
  of the streak was outside them, and its last tick is a second or more after the first.\<close>

theorem cartesian_sync_needs_held_second:
  assumes "cs_synced (run_steps cartesian_tick fresh_cartesian_sync ks)"
  shows "held_streak fresh_cartesian_sync ks"
  using cartesian_window_invariant [of fresh_cartesian_sync ks] assms by (simp add: fresh_cartesian_sync_def)

definition aligned_tick :: "nat \<Rightarrow> tick" where
  "aligned_tick now = (F_EndPose \<lparr>pose_timestamp_us = 0, pose_values = map Fin [0, 0, 0, 0, 0, 0, 1]\<rparr>,
     Some (PoseState \<lparr>pose_timestamp_us = 0, pose_values = map Fin [0, 0, 0, 0, 0, 0, 1]\<rparr>), now)"

lemma aligned_ticks_sync:
  "cs_synced (run_steps cartesian_tick fresh_cartesian_sync [aligned_tick 0, aligned_tick 1000000000])"
  by (simp add: cartesian_tick_def aligned_tick_def cartesian_apply_def Let_def fresh_cartesian_sync_def pose_position_def
      pose_quat_def vec3_distance_def quat_align_shortest_def quat_angle_between_def f_clamp_Fin write_pose_def
      SYNC_COMPLETE_THRESHOLD_M_def SYNC_COMPLETE_THRESHOLD_ROT_RAD_def SYNC_HOLD_DURATION_def)

theorem cartesian_sync_needs_held_second_witness:
  "held_streak fresh_cartesian_sync [aligned_tick 0, aligned_tick 1000000000]"
  by (rule cartesian_sync_needs_held_second [OF aligned_ticks_sync])

text \<open>Outside the near-parallel fallback of the interpolation (dot product up to 0.9995), a
  rotation clamp that has to move returns a unit quaternion at exactly the permitted angle from
  the anchor.\<close>

theorem rotation_step_exact:
  assumes "unit_quat anchor" and "unit_quat target" and "quat_dot anchor target = Fin r"
    and "0 \<le> r" and "r \<le> 9995 / 10000" and "1 / 2 ^ 52 < m" and "m < 2 * arccos r"
  shows "unit_quat (fst (clamp_rotation target anchor (Fin m)))
    \<and> quat_angle_between anchor (fst (clamp_rotation target anchor (Fin m))) = Fin m"
  using clamp_rotation_exact [OF assms] by blast

theorem rotation_step_exact_witness:
  "quat_angle_between (Fin 0, Fin 0, Fin 0, Fin 1)
     (fst (clamp_rotation (Fin 1, Fin 0, Fin 0, Fin 0) (Fin 0, Fin 0, Fin 0, Fin 1) (Fin (1 / 1000)))) = Fin (1 / 1000)"
proof -
  have "(1 :: real) / 1000 < 2 * arccos 0" using pi_ge_two by (simp add: arccos_0)
  then show ?thesis
    by (intro conjunct2 [OF rotation_step_exact [where r = 0]]) (simp_all add: unit_quat_def)
qed

end
