(* ===== verification/Teleop_Router.thy ===== *)
theory Teleop_Router
  imports Teleop_Sync
begin

text \<open>
  The loop of the teleoperation router, \<open>run_router\<close> with its \<open>drain_*\<close> helpers and
  \<open>load_runtime_config\<close> in \<^verbatim>\<open>teleop-router/src/lib.rs\<close>. One iteration receives what the
  three subscribers hold, reads the clock and makes at most one \<open>send_copy\<close>; those
  outcomes are its input. The interface \<open>command_stage\<close> says what the loop relies on from
  its mapping and ramp stages.
\<close>

section \<open>Loading the configuration\<close>

datatype load_error = ConfigFailed config_error | NoConfigFlag | BothConfigFlags

definition load_runtime_config :: "(string \<Rightarrow> (string, string) result)
    \<Rightarrow> (string \<Rightarrow> (teleop_runtime_config_v2, string) result) \<Rightarrow> string option \<Rightarrow> string option
    \<Rightarrow> (teleop_runtime_config_v2, load_error) result" where
  "load_runtime_config read_to_string toml config config_inline = (case (config, config_inline) of
       (Some path, None) \<Rightarrow> map_err ConfigFailed (from_file read_to_string toml teleop_validate path)
     | (None, Some inline) \<Rightarrow> map_err ConfigFailed (from_str toml teleop_validate inline)
     | (None, None) \<Rightarrow> Err NoConfigFlag
     | (Some _, Some _) \<Rightarrow> Err BothConfigFlags)"

section \<open>Draining the subscribers\<close>

text \<open>A subscriber with the results its \<open>receive\<close> calls return until the queue is empty.\<close>

datatype state_subscriber = JointSubscriber "(value_vector, string) result list"
  | ParallelSubscriber "(value_vector, string) result list"
  | PoseSubscriber "(pose7, string) result list"

fun subscriber_payload :: "state_subscriber \<Rightarrow> payload_type" where
  "subscriber_payload (JointSubscriber _) = P_JointVector15"
| "subscriber_payload (ParallelSubscriber _) = P_ParallelVector2"
| "subscriber_payload (PoseSubscriber _) = P_Pose7"

fun drain_vectors :: "leader_state option \<Rightarrow> (value_vector, string) result list \<Rightarrow> (leader_state option, router_error) result" where
  "drain_vectors latest [] = Ok latest"
| "drain_vectors latest (r # rs) =
     bind_ok (map_err Port r) (\<lambda>payload.
     bind_ok (slice_to (vv_values payload) (vv_len payload)) (\<lambda>vals.
       drain_vectors (Some (VectorState (vv_timestamp_us payload) vals)) rs))"

fun drain_poses :: "leader_state option \<Rightarrow> (pose7, string) result list \<Rightarrow> (leader_state option, router_error) result" where
  "drain_poses latest [] = Ok latest"
| "drain_poses latest (r # rs) = bind_ok (map_err Port r) (\<lambda>payload. drain_poses (Some (PoseState payload)) rs)"

fun drain_latest_state :: "state_subscriber \<Rightarrow> (leader_state option, router_error) result" where
  "drain_latest_state (JointSubscriber rs) = drain_vectors None rs"
| "drain_latest_state (ParallelSubscriber rs) = drain_vectors None rs"
| "drain_latest_state (PoseSubscriber rs) = drain_poses None rs"

fun drain_control_events :: "(control_event, string) result list \<Rightarrow> (bool, router_error) result" where
  "drain_control_events [] = Ok False"
| "drain_control_events (r # rs) = bind_ok (map_err Port r) (\<lambda>event.
     if event = Shutdown then Ok True else drain_control_events rs)"

section \<open>The loop\<close>

record router_state =
  rt_last_forwarded_timestamp_us :: "u64 option"
  rt_sync :: sync_state
  rt_follower_state :: "leader_state option"

definition router_init :: "teleop_runtime_config_v2 \<Rightarrow> router_state" where
  "router_init config = \<lparr>rt_last_forwarded_timestamp_us = None, rt_sync = sync_new config, rt_follower_state = None\<rparr>"

text \<open>\<open>ri_wait\<close> is \<open>node.wait(..).is_ok()\<close>.\<close>

record router_input =
  ri_control :: "(control_event, string) result list"
  ri_follower :: "state_subscriber option"
  ri_leader :: state_subscriber
  ri_now :: nat
  ri_send :: "(unit, string) result"
  ri_wait :: bool

type_synonym router_result = "router_state \<times> forwarded_command option \<times> (unit, router_error) result option"

definition router_wait :: "router_state \<Rightarrow> router_input \<Rightarrow> router_result" where
  "router_wait s i = (s, None, if ri_wait i then None else Some (Ok ()))"

definition or_fail :: "('a, router_error) result \<Rightarrow> router_state \<Rightarrow> ('a \<Rightarrow> router_result) \<Rightarrow> router_result" where
  "or_fail r s k = (case r of Err e \<Rightarrow> (s, None, Some (Err e)) | Ok a \<Rightarrow> k a)"

text \<open>From a fresh leader sample to the published command.\<close>

definition router_forward :: "teleop_runtime_config_v2 \<Rightarrow> router_state \<Rightarrow> router_input \<Rightarrow> u64 \<Rightarrow> forwarded_command \<Rightarrow> router_result" where
  "router_forward config s i timestamp_us command =
     or_fail (if sync_enabled (rt_sync s) then sync_apply (rt_sync s) command (rt_follower_state s) (ri_now i)
              else Ok (rt_sync s, command, Publish)) s (\<lambda>(sync, command', outcome).
       (let s1 = s\<lparr>rt_sync := sync\<rparr> in
        (case outcome of
           Publish \<Rightarrow>
             or_fail (publish_command (command_publisher_payload (tel_follower_command_kind config)) (ri_send i) command')
               s1 (\<lambda>_. (s1\<lparr>rt_last_forwarded_timestamp_us := Some timestamp_us\<rparr>, Some command', None))
         | Hold \<Rightarrow> (s1, None, None))))"

definition router_iteration :: "teleop_runtime_config_v2 \<Rightarrow> router_state \<Rightarrow> router_input \<Rightarrow> router_result" where
  "router_iteration config s i =
     or_fail (drain_control_events (ri_control i)) s (\<lambda>shutdown.
       if shutdown then (s, None, Some (Ok ()))
       else or_fail (case ri_follower i of None \<Rightarrow> Ok None | Some subscriber \<Rightarrow> drain_latest_state subscriber) s (\<lambda>received.
         (let s1 = (case received of None \<Rightarrow> s | Some state \<Rightarrow> s\<lparr>rt_follower_state := Some state\<rparr>) in
          or_fail (drain_latest_state (ri_leader i)) s1 (\<lambda>leader. case leader of
              None \<Rightarrow> router_wait s1 i
            | Some state \<Rightarrow>
                if rt_last_forwarded_timestamp_us s1 = Some (state_timestamp_us state) then (s1, None, None)
                else or_fail (map_leader_state config state) s1 (\<lambda>mapped. case mapped of
                    Some command \<Rightarrow> router_forward config s1 i (state_timestamp_us state) command
                  | None \<Rightarrow> router_wait s1 i)))))"

fun run_router_loop :: "teleop_runtime_config_v2 \<Rightarrow> router_state \<Rightarrow> router_input list
    \<Rightarrow> router_state \<times> forwarded_command list \<times> (unit, router_error) result option" where
  "run_router_loop config s [] = (s, [], None)"
| "run_router_loop config s (i # is) = (case router_iteration config s i of
       (s', sent, Some exit) \<Rightarrow> (s', (case sent of None \<Rightarrow> [] | Some c \<Rightarrow> [c]), Some exit)
     | (s', sent, None) \<Rightarrow> (case run_router_loop config s' is of (s'', sent', exit) \<Rightarrow>
         (s'', (case sent of None \<Rightarrow> [] | Some c \<Rightarrow> [c]) @ sent', exit)))"

section \<open>The stages between receiving and publishing\<close>

text \<open>What the loop needs from a stage that rewrites a command: it keeps the timestamp and the
  payload type, and does not panic on a well-formed command.\<close>

locale command_stage =
  fixes stage :: "'s \<Rightarrow> forwarded_command \<Rightarrow> ('s \<times> forwarded_command \<times> sync_outcome, router_error) result"
  assumes stage_timestamp: "stage s command = Ok (s', command', outcome) \<Longrightarrow>
      command_timestamp_us command' = command_timestamp_us command"
    and stage_payload: "stage s command = Ok (s', command', outcome) \<Longrightarrow>
      publish_command payload send command' = publish_command payload send command"
    and stage_total: "command_wf command \<Longrightarrow> is_ok (stage s command)"
begin

lemma stage_runs:
  assumes "command_wf command"
  obtains s' command' outcome where "stage s command = Ok (s', command', outcome)"
    "command_timestamp_us command' = command_timestamp_us command"
    "publish_command payload send command' = publish_command payload send command"
proof -
  from stage_total [OF assms, of s] obtain x where "stage s command = Ok x" by (auto simp: is_ok_iff_Ok)
  moreover obtain s' command' outcome where "x = (s', command', outcome)" by (metis prod_cases3)
  ultimately show thesis using that stage_timestamp stage_payload by metis
qed

end

lemma joint_apply_keeps:
  assumes "joint_apply s command follower = Ok (s', command', outcome)"
  shows "command_timestamp_us command' = command_timestamp_us command"
    "publish_command payload send command' = publish_command payload send command"
proof -
  from assms have "command' = command \<or> (\<exists>t. command' = set_joint_target command t)"
    by (cases "follower_position_slice follower"; cases "command_joint_target command")
      (auto simp: joint_apply_def bind_ok_def split_def Let_def split: option.splits)
  then show "command_timestamp_us command' = command_timestamp_us command"
    "publish_command payload send command' = publish_command payload send command"
    by (auto simp: set_joint_target_keeps)
qed

interpretation joint_stage: command_stage "\<lambda>s command. joint_apply s command follower" for follower
proof unfold_locales
  fix command and s :: joint_sync_state
  assume "command_wf command"
  then obtain t where "command_joint_target command = Ok t"
    using command_joint_target_ok by (auto simp: is_ok_iff_Ok)
  then show "is_ok (joint_apply s command follower)"
    by (auto simp: joint_apply_def bind_ok_def split_def Let_def split: option.splits)
qed (auto simp: joint_apply_keeps)

lemma write_pose_timestamp [simp]: "pose_timestamp_us (write_pose p v q) = pose_timestamp_us p"
  by (simp add: write_pose_def split: prod.splits)

lemma cartesian_apply_keeps:
  assumes "cartesian_apply s command follower now = (s', command', outcome)"
  shows "command_timestamp_us command' = command_timestamp_us command"
    "publish_command payload send command' = publish_command payload send command"
proof -
  show "command_timestamp_us command' = command_timestamp_us command"
    using assms by (cases command) (auto simp: cartesian_apply_def Let_def split: option.splits if_splits)
  have "command' = command \<or> (\<exists>p p'. command = F_EndPose p \<and> command' = F_EndPose p')"
    using assms by (cases command) (auto simp: cartesian_apply_def Let_def split: option.splits if_splits)
  then show "publish_command payload send command' = publish_command payload send command"
    by (cases payload) auto
qed

interpretation cartesian_stage: command_stage "\<lambda>s command. Ok (cartesian_apply s command follower now)" for follower now
  by unfold_locales (auto simp: cartesian_apply_keeps)

interpretation sync_stage: command_stage "\<lambda>s command. sync_apply s command follower now" for follower now
proof unfold_locales
  fix s command s' command' outcome
  assume *: "sync_apply s command follower now = Ok (s', command', outcome)"
  show "command_timestamp_us command' = command_timestamp_us command"
    using * by (cases s) (auto simp: sync_apply_def bind_ok_def joint_apply_keeps cartesian_apply_keeps
        split: sum.splits prod.splits)
  show "publish_command payload send command' = publish_command payload send command" for payload send
    using * by (cases s) (auto simp: sync_apply_def bind_ok_def joint_apply_keeps cartesian_apply_keeps
        split: sum.splits prod.splits)
next
  fix s command
  assume wf: "command_wf command"
  show "is_ok (sync_apply s command follower now)"
  proof (cases s)
    case (SyncJoint j)
    with joint_stage.stage_total [OF wf, of j follower] show ?thesis
      by (auto simp: sync_apply_def bind_ok_def split: sum.splits)
  qed (auto simp: sync_apply_def split: prod.splits)
qed

section \<open>What one iteration does\<close>

text \<open>The ways an iteration can end, for a leader sample that is mapped.\<close>

definition stage_of :: "router_state \<Rightarrow> router_input \<Rightarrow> forwarded_command \<Rightarrow> (sync_state \<times> forwarded_command \<times> sync_outcome, router_error) result" where
  "stage_of s i command = (if sync_enabled (rt_sync s) then sync_apply (rt_sync s) command (rt_follower_state s) (ri_now i)
     else Ok (rt_sync s, command, Publish))"

lemma stage_of_keeps:
  assumes "stage_of s i command = Ok (sync, command', outcome)"
  shows "command_timestamp_us command' = command_timestamp_us command"
    "publish_command payload send command' = publish_command payload send command"
proof -
  show "command_timestamp_us command' = command_timestamp_us command"
    using assms sync_stage.stage_timestamp [of "rt_sync s" command "rt_follower_state s" "ri_now i"]
    by (auto simp: stage_of_def split: if_splits)
  show "publish_command payload send command' = publish_command payload send command"
    using assms sync_stage.stage_payload [of "rt_sync s" command "rt_follower_state s" "ri_now i"]
    by (auto simp: stage_of_def split: if_splits)
qed

lemma router_forward_held:
  "stage_of s i command = Ok (sync, command', Hold) \<Longrightarrow>
     router_forward config s i ts command = (s\<lparr>rt_sync := sync\<rparr>, None, None)"
  by (simp only: router_forward_def stage_of_def [symmetric]) (simp add: or_fail_def)

lemma router_forward_cases:
  assumes "router_forward config s i ts command = (s', sent, ex)"
  obtains (failed) e where "sent = None" "ex = Some (Err e)" "rt_last_forwarded_timestamp_us s' = rt_last_forwarded_timestamp_us s"
  | (held) sync command' where "stage_of s i command = Ok (sync, command', Hold)" "sent = None" "ex = None"
      "s' = s\<lparr>rt_sync := sync\<rparr>"
  | (published) sync command' where "stage_of s i command = Ok (sync, command', Publish)" "sent = Some command'" "ex = None"
      "s' = s\<lparr>rt_sync := sync, rt_last_forwarded_timestamp_us := Some ts\<rparr>"
proof (cases "stage_of s i command")
  case (Inl e)
  with assms failed show thesis by (auto simp: router_forward_def stage_of_def [symmetric] or_fail_def)
next
  case (Inr r)
  obtain sync command' outcome where r: "r = (sync, command', outcome)" by (metis prod_cases3)
  show thesis
  proof (cases outcome)
    case Hold
    with assms Inr r held show thesis by (auto simp: router_forward_def stage_of_def [symmetric] or_fail_def Let_def)
  next
    case Publish
    with assms Inr r failed published show thesis
      by (cases "publish_command (command_publisher_payload (tel_follower_command_kind config)) (ri_send i) command'")
        (auto simp: router_forward_def stage_of_def [symmetric] or_fail_def Let_def)
  qed
qed

text \<open>The router state after the follower has been drained.\<close>

definition refreshed :: "router_state \<Rightarrow> router_input \<Rightarrow> (router_state, router_error) result" where
  "refreshed s i = bind_ok (case ri_follower i of None \<Rightarrow> Ok None | Some subscriber \<Rightarrow> drain_latest_state subscriber)
     (\<lambda>received. Ok (case received of None \<Rightarrow> s | Some state \<Rightarrow> s\<lparr>rt_follower_state := Some state\<rparr>))"

lemma refreshed_keeps:
  assumes "refreshed s i = Ok s1"
  shows "rt_last_forwarded_timestamp_us s1 = rt_last_forwarded_timestamp_us s" "rt_sync s1 = rt_sync s"
  using assms by (auto simp: refreshed_def bind_ok_def split: sum.splits option.splits)

lemma router_iteration_cases:
  assumes "router_iteration config s i = (s', sent, ex)"
  obtains (idle) "sent = None" "rt_last_forwarded_timestamp_us s' = rt_last_forwarded_timestamp_us s"
      "rt_sync s' = rt_sync s" "rt_follower_state s' = rt_follower_state s \<or> refreshed s i = Ok s'"
  | (mapped) s1 state command where "refreshed s i = Ok s1" "drain_latest_state (ri_leader i) = Ok (Some state)"
      "rt_last_forwarded_timestamp_us s \<noteq> Some (state_timestamp_us state)"
      "map_leader_state config state = Ok (Some command)"
      "router_forward config s1 i (state_timestamp_us state) command = (s', sent, ex)"
proof (cases "drain_control_events (ri_control i) = Ok False \<and> is_ok (refreshed s i)")
  case False
  with assms have "s' = s \<and> sent = None"
    by (auto simp: router_iteration_def or_fail_def refreshed_def bind_ok_def split: sum.splits if_splits option.splits)
  then show thesis by (intro idle) auto
next
  case True
  then obtain s1 where s1: "refreshed s i = Ok s1" by (auto simp: is_ok_iff_Ok)
  note keeps = refreshed_keeps [OF s1]
  have it: "router_iteration config s i = or_fail (drain_latest_state (ri_leader i)) s1 (\<lambda>leader. case leader of
              None \<Rightarrow> router_wait s1 i
            | Some state \<Rightarrow>
                if rt_last_forwarded_timestamp_us s1 = Some (state_timestamp_us state) then (s1, None, None)
                else or_fail (map_leader_state config state) s1 (\<lambda>mapped. case mapped of
                    Some command \<Rightarrow> router_forward config s1 i (state_timestamp_us state) command
                  | None \<Rightarrow> router_wait s1 i))"
    using True s1 by (auto simp: router_iteration_def or_fail_def refreshed_def bind_ok_def Let_def
        split: sum.splits if_splits)
  show thesis
  proof (cases "\<exists>state command. drain_latest_state (ri_leader i) = Ok (Some state)
      \<and> rt_last_forwarded_timestamp_us s \<noteq> Some (state_timestamp_us state) \<and> map_leader_state config state = Ok (Some command)")
    case True
    with assms it keeps s1 mapped show thesis by (auto simp: or_fail_def)
  next
    case False
    with assms it keeps have "s' = s1 \<and> sent = None"
      by (auto simp: or_fail_def router_wait_def split: sum.splits option.splits if_splits)
    with keeps s1 idle show thesis by blast
  qed
qed

text \<open>A published command carries a timestamp other than the one forwarded last.\<close>

lemma router_iteration_timestamps:
  assumes "router_iteration config s i = (s', sent, ex)"
  shows "case sent of
      None \<Rightarrow> rt_last_forwarded_timestamp_us s' = rt_last_forwarded_timestamp_us s
    | Some c \<Rightarrow> rt_last_forwarded_timestamp_us s \<noteq> Some (command_timestamp_us c)
        \<and> rt_last_forwarded_timestamp_us s' = Some (command_timestamp_us c)"
  using assms
proof (cases rule: router_iteration_cases)
  case (mapped s1 state command)
  from mapped(5) show ?thesis
    by (cases rule: router_forward_cases)
      (use mapped refreshed_keeps [OF mapped(1)] map_leader_state_command(2) [OF mapped(4)] in \<open>auto simp: stage_of_keeps\<close>)
qed simp

lemma run_router_timestamps:
  "run_router_loop config s is = (s', sent, ex) \<Longrightarrow>
     distinct_adj (map command_timestamp_us sent) \<and>
     (sent \<noteq> [] \<longrightarrow> rt_last_forwarded_timestamp_us s \<noteq> Some (command_timestamp_us (hd sent)))"
proof (induction config s "is" arbitrary: s' sent ex rule: run_router_loop.induct)
  case (2 config s i "is")
  obtain s1 c x where it: "router_iteration config s i = (s1, c, x)" by (metis prod_cases3)
  note ts = router_iteration_timestamps [OF it]
  show ?case
  proof (cases x)
    case (Some y)
    with "2.prems" it ts show ?thesis by (auto split: option.splits)
  next
    case None
    obtain s2 sent' ex' where rest: "run_router_loop config s1 is = (s2, sent', ex')" by (metis prod_cases3)
    with "2.prems" it None have sent: "sent = (case c of None \<Rightarrow> [] | Some c \<Rightarrow> [c]) @ sent'" by simp
    from "2.IH" [OF it [symmetric] refl None rest] ts sent show ?thesis
      by (cases sent') (auto split: option.splits)
  qed
qed simp

section \<open>No command before feedback\<close>

text \<open>While the ramp is active and the follower has never reported, every leader sample is held.\<close>

definition no_feedback :: "router_input \<Rightarrow> bool" where
  "no_feedback i \<longleftrightarrow> (case ri_follower i of None \<Rightarrow> True | Some subscriber \<Rightarrow> drain_latest_state subscriber = Ok None)"

lemma sync_new_cartesian: "sync_new config = SyncCartesian c \<Longrightarrow> tel_mapping config = Cartesian"
  by (auto simp: sync_new_def split: mapping_strategy.splits option.splits robot_state_kind.splits
      robot_command_kind.splits if_splits)

lemma map_cartesian_pose:
  "map_leader_state config state = Ok (Some command) \<Longrightarrow> tel_mapping config = Cartesian \<Longrightarrow> \<exists>p. command = F_EndPose p"
  by (auto simp: map_leader_state_def map_cartesian_def split: leader_state.splits robot_command_kind.splits)

lemma stage_holds_without_feedback:
  assumes "rt_sync s = sync_new config" and "sync_enabled (sync_new config)" and "rt_follower_state s = None"
    and "map_leader_state config state = Ok (Some command)"
  shows "stage_of s i command = Ok (sync_new config, command, Hold)"
proof (cases "sync_new config")
  case (SyncCartesian c)
  with assms sync_new_cartesian map_cartesian_pose obtain p where "command = F_EndPose p" by blast
  with SyncCartesian assms show ?thesis by (simp add: stage_of_def sync_apply_def cartesian_apply_def)
next
  case (SyncJoint j)
  with assms show ?thesis by (simp add: stage_of_def sync_apply_def joint_apply_def bind_ok_def)
qed (use assms in simp)

lemma router_iteration_holds:
  assumes "router_iteration config s i = (s', sent, ex)" and "no_feedback i"
    and "rt_sync s = sync_new config" and "sync_enabled (sync_new config)" and "rt_follower_state s = None"
  shows "sent = None \<and> rt_sync s' = sync_new config \<and> rt_follower_state s' = None"
proof -
  have same: "refreshed s i = Ok s1 \<Longrightarrow> s1 = s" for s1
    using assms(2) by (auto simp: refreshed_def no_feedback_def bind_ok_def split: option.splits)
  from assms(1) show ?thesis
  proof (cases rule: router_iteration_cases)
    case idle
    with same assms show ?thesis by auto
  next
    case (mapped s1 state command)
    with same have s1: "s1 = s" by blast
    from router_forward_held [OF stage_holds_without_feedback [OF assms(3,4,5) mapped(4)]] mapped(5) s1 assms
    show ?thesis by auto
  qed
qed

lemma run_router_holds:
  "run_router_loop config s is = (s', sent, ex) \<Longrightarrow> list_all no_feedback is \<Longrightarrow> rt_sync s = sync_new config \<Longrightarrow>
     sync_enabled (sync_new config) \<Longrightarrow> rt_follower_state s = None \<Longrightarrow> sent = []"
proof (induction config s "is" arbitrary: s' sent ex rule: run_router_loop.induct)
  case (2 config s i "is")
  obtain s1 c x where it: "router_iteration config s i = (s1, c, x)" by (metis prod_cases3)
  from router_iteration_holds [OF it] "2.prems"
  have "c = None" "rt_sync s1 = sync_new config" "rt_follower_state s1 = None" by auto
  with "2.IH" [OF it [symmetric]] "2.prems" it show ?case by (cases x) (auto split: prod.splits)
qed simp

section \<open>Properties\<close>

text \<open>C24: as long as the follower has not reported its state, a router that starts with a
  ramp publishes nothing, whatever the leader sends.\<close>

theorem no_command_before_feedback:
  assumes "sync_enabled (sync_new config)" and "list_all no_feedback is"
    and "run_router_loop config (router_init config) is = (s', sent, ex)"
  shows "sent = []"
  using run_router_holds [OF assms(3,2)] assms(1) by (simp add: router_init_def)

definition quiet_router_input :: router_input where
  "quiet_router_input = \<lparr>ri_control = [], ri_follower = Some (JointSubscriber []), ri_leader = JointSubscriber [],
     ri_now = 0, ri_send = Ok (), ri_wait = True\<rparr>"

theorem no_command_before_feedback_witness:
  "fst (snd (run_router_loop joint_config (router_init joint_config)
     [quiet_router_input\<lparr>ri_leader := JointSubscriber [Ok (JointVector15_from_slice 1 [Fin 2])]\<rparr>])) = []"
proof -
  have e: "sync_enabled (sync_new joint_config)" by (simp add: sync_new_joint_config fresh_joint_sync_def)
  have "list_all no_feedback [quiet_router_input\<lparr>ri_leader := JointSubscriber [Ok (JointVector15_from_slice 1 [Fin 2])]\<rparr>]"
    by (simp add: no_feedback_def quiet_router_input_def)
  from no_command_before_feedback [OF e this] show ?thesis by (metis prod.collapse)
qed

text \<open>C25: two commands published one after the other never carry the same timestamp: a leader
  sample is forwarded at most once in a row, with its own timestamp.\<close>

theorem timestamps_never_repeat:
  "distinct_adj (map command_timestamp_us (fst (snd (run_router_loop config s is))))"
  using run_router_timestamps [of config s "is"] by (metis prod.collapse)

end
