(* ===== verification/Sample_Project.thy ===== *)
theory Sample_Project
  imports Teleop_Router
begin

text \<open>
  A small project that the validator accepts: a camera with two channels, a leader arm and a
  follower arm paired joint by joint. It shows that the hypotheses of the properties about
  accepted projects can hold.
\<close>

definition color_channel :: device_channel where
  "color_channel = \<lparr>ch_channel_type = ''color'', ch_kind = Camera, ch_enabled = True, ch_name = None,
     ch_channel_label = None, ch_mode = None, ch_dof = None, ch_publish_states = [],
     ch_recorded_states = [], ch_control_frequency_hz = None,
     ch_profile = Some \<lparr>prof_width = 640, prof_height = 480, prof_fps = 30,
       prof_pixel_format = Px_Rgb24, prof_native_pixel_format = None, prof_mjpeg_quality = None,
       prof_h264_bitrate_bps = None, prof_h264_gop = None, prof_h264_preset = None,
       prof_h264_tune = None, prof_h264_profile = None\<rparr>,
     ch_preview_enabled = True, ch_record_enabled = True, ch_record = None, ch_preview_settings = None,
     ch_command_defaults = ChannelCommandDefaults_default, ch_value_limits = [],
     ch_direct_joint_compatibility = DirectJointCompatibility_default,
     ch_supported_commands = [], ch_extra = []\<rparr>"

definition arm_channel :: "robot_mode \<Rightarrow> device_channel" where
  "arm_channel mode = \<lparr>ch_channel_type = ''arm'', ch_kind = Robot, ch_enabled = True, ch_name = None,
     ch_channel_label = None, ch_mode = Some mode, ch_dof = Some 6,
     ch_publish_states = [SK_JointPosition, SK_EndEffectorPose],
     ch_recorded_states = [], ch_control_frequency_hz = Some (Fin 250), ch_profile = None,
     ch_preview_enabled = True, ch_record_enabled = True, ch_record = None, ch_preview_settings = None,
     ch_command_defaults = ChannelCommandDefaults_default, ch_value_limits = [],
     ch_direct_joint_compatibility = DirectJointCompatibility_default,
     ch_supported_commands = [CK_JointPosition, CK_EndPose], ch_extra = []\<rparr>"

definition make_device :: "string \<Rightarrow> string \<Rightarrow> device_channel list \<Rightarrow> binary_device" where
  "make_device name bus_root channels = \<lparr>dev_name = name, dev_executable = None, dev_driver = ''driver'',
     dev_id = name, dev_bus_root = bus_root, dev_channels = channels, dev_extra = []\<rparr>"

definition sample_devices :: "binary_device list" where
  "sample_devices =
     [make_device ''cam'' ''camera0'' [color_channel, color_channel\<lparr>ch_channel_type := ''depth''\<rparr>],
      make_device ''leader'' ''robot0'' [arm_channel FreeDrive],
      make_device ''follower'' ''robot1'' [arm_channel CommandFollowing]]"

definition sample_pairing :: channel_pairing where
  "sample_pairing = \<lparr>pr_leader_device = ''leader'', pr_leader_channel_type = ''arm'',
     pr_follower_device = ''follower'', pr_follower_channel_type = ''arm'', pr_mapping = DirectJoint,
     pr_leader_state = SK_JointPosition, pr_follower_command = CK_JointPosition,
     pr_joint_index_map = [], pr_joint_scales = []\<rparr>"

definition sample_project :: project_config where
  "sample_project = draft_setup_template\<lparr>pj_devices := sample_devices, pj_pairings := [sample_pairing]\<rparr>"

text \<open>What is evaluated about it, all at once.\<close>

lemma sample_project_evaluations:
  "project_ok sample_project \<and> previews_in_range sample_project
   \<and> map er_process_id (encoder_runtime_configs_v2 sample_project) =
     [''encoder.cam.color'', ''preview-encoder.cam.color'', ''encoder.cam.depth'', ''preview-encoder.cam.depth'']
   \<and> recording_encoder_configs sample_project \<noteq> [] \<and> preview_cameras sample_project \<noteq> []
   \<and> (\<forall>d \<in> set (pj_devices sample_project). CHR ''/'' \<notin> set (dev_bus_root d))"
  by code_simp

lemma sample_project_ok: "project_ok sample_project"
  using sample_project_evaluations by simp

text \<open>A variant with other devices is accepted when its devices, pairings and camera settings are:
  the sections are those of the sample.\<close>

lemma sample_variant_ok:
  assumes "ds \<noteq> []" "is_ok (devices_validate {} {} ds)"
    and "list_all (\<lambda>p. is_ok (pairing_validate p (sample_project\<lparr>pj_devices := ds, pj_pairings := ps\<rparr>))) ps"
    and "is_ok (validate_per_channel_encoder_configs (sample_project\<lparr>pj_devices := ds, pj_pairings := ps\<rparr>))"
    and "is_ok (validate_preview_compatibility (sample_project\<lparr>pj_devices := ds, pj_pairings := ps\<rparr>))"
  shows "project_ok (sample_project\<lparr>pj_devices := ds, pj_pairings := ps\<rparr>)"
  using assms sample_project_ok
  by (simp add: project_ok_def project_validate_def is_ok_checks_Cons is_ok_checks_map is_ok_reject list_all_iff)

end
