(* ===== verification/Episode_Lifecycle.thy ===== *)
theory Episode_Lifecycle
  imports Messages
begin

text \<open>
  The controller's episode state machine, \<^verbatim>\<open>controller/src/episode.rs\<close>. \<open>Instant\<close> is a
  count of nanoseconds of the monotonic clock; the wall clock read by \<open>controller_now_us\<close>
  is an argument. The machine is related to an abstract one with unbounded episode numbers,
  whose traces carry the protocol the assembler and the encoders follow.
\<close>

section \<open>State and operations\<close>

type_synonym instant = nat

record episode_lifecycle =
  lc_state :: episode_state
  lc_episode_count :: u32
  lc_next_episode_index :: u32
  lc_recording_started_at :: "instant option"
  lc_pending_elapsed_ms :: u64
  lc_stored_episode_indices :: "u32 set"

definition EpisodeLifecycle_default :: episode_lifecycle where
  "EpisodeLifecycle_default = \<lparr>lc_state = Idle, lc_episode_count = 0, lc_next_episode_index = 0,
     lc_recording_started_at = None, lc_pending_elapsed_ms = 0, lc_stored_episode_indices = {}\<rparr>"

text \<open>\<open>now.saturating_duration_since(started_at).as_millis() as u64\<close>\<close>

definition millis_since :: "instant \<Rightarrow> instant \<Rightarrow> u64" where
  "millis_since now started_at = of_nat ((now - started_at) div 1000000)"

definition elapsed_ms :: "episode_lifecycle \<Rightarrow> instant \<Rightarrow> u64" where
  "elapsed_ms s now = (case lc_state s of
       Idle \<Rightarrow> 0
     | Recording \<Rightarrow> (case lc_recording_started_at s of None \<Rightarrow> 0 | Some started_at \<Rightarrow> millis_since now started_at)
     | Pending \<Rightarrow> lc_pending_elapsed_ms s)"

definition lifecycle_status :: "episode_lifecycle \<Rightarrow> instant \<Rightarrow> episode_status" where
  "lifecycle_status s now = \<lparr>es_state = lc_state s, es_episode_count = lc_episode_count s, es_elapsed_ms = elapsed_ms s now\<rparr>"

definition resume_from_prior_recordings :: "episode_lifecycle \<Rightarrow> u32 \<Rightarrow> u32 \<Rightarrow> episode_lifecycle" where
  "resume_from_prior_recordings s next_episode_index prior_stored_episode_count =
     s\<lparr>lc_next_episode_index := next_episode_index, lc_episode_count := prior_stored_episode_count\<rparr>"

definition record_episode_stored :: "episode_lifecycle \<Rightarrow> u32 \<Rightarrow> episode_lifecycle \<times> bool" where
  "record_episode_stored s episode_index =
     (if episode_index \<ge> lc_next_episode_index s then (s, False)
      else if episode_index \<in> lc_stored_episode_indices s then (s, False)
      else (s\<lparr>lc_stored_episode_indices := insert episode_index (lc_stored_episode_indices s),
              lc_episode_count := saturating_succ (lc_episode_count s)\<rparr>, True))"

text \<open>The error is the pair the message prints.\<close>

definition handle_command :: "episode_lifecycle \<Rightarrow> episode_command \<Rightarrow> instant \<Rightarrow> u64
    \<Rightarrow> episode_lifecycle \<times> (control_event, episode_state \<times> episode_command) result" where
  "handle_command s command now controller_now_us =
     (case (lc_state s, command) of
        (Idle, Start) \<Rightarrow>
          (s\<lparr>lc_state := Recording, lc_recording_started_at := Some now, lc_pending_elapsed_ms := 0\<rparr>,
           Ok (RecordingStart (lc_next_episode_index s) controller_now_us))
      | (Recording, Stop) \<Rightarrow>
          (s\<lparr>lc_state := Pending,
             lc_pending_elapsed_ms := elapsed_ms (s\<lparr>lc_state := Pending\<rparr>) now,
             lc_recording_started_at := None\<rparr>,
           Ok (RecordingStop (lc_next_episode_index s) controller_now_us))
      | (Pending, Keep) \<Rightarrow>
          (s\<lparr>lc_state := Idle, lc_next_episode_index := saturating_succ (lc_next_episode_index s),
             lc_pending_elapsed_ms := 0\<rparr>,
           Ok (EpisodeKeep (lc_next_episode_index s)))
      | (Pending, Discard) \<Rightarrow>
          (s\<lparr>lc_state := Idle, lc_next_episode_index := saturating_succ (lc_next_episode_index s),
             lc_pending_elapsed_ms := 0\<rparr>,
           Ok (EpisodeDiscard (lc_next_episode_index s)))
      | (state, command) \<Rightarrow> (s, Err (state, command)))"

section \<open>Runs\<close>

text \<open>What reaches the machine between two iterations of the collect loop: a command with the
  two clocks it is handled at, or the notice that an episode was stored.\<close>

datatype lifecycle_input = Command episode_command instant u64 | Stored u32

definition lifecycle_step :: "episode_lifecycle \<Rightarrow> lifecycle_input \<Rightarrow> episode_lifecycle" where
  "lifecycle_step s input = (case input of
       Command command now us \<Rightarrow> fst (handle_command s command now us)
     | Stored episode_index \<Rightarrow> fst (record_episode_stored s episode_index))"

definition lifecycle_output :: "episode_lifecycle \<Rightarrow> lifecycle_input \<Rightarrow> control_event list" where
  "lifecycle_output s input = (case input of
       Command command now us \<Rightarrow> (case snd (handle_command s command now us) of Err _ \<Rightarrow> [] | Ok event \<Rightarrow> [event])
     | Stored _ \<Rightarrow> [])"

fun lifecycle_events :: "episode_lifecycle \<Rightarrow> lifecycle_input list \<Rightarrow> control_event list" where
  "lifecycle_events s [] = []"
| "lifecycle_events s (i # is) = lifecycle_output s i @ lifecycle_events (lifecycle_step s i) is"

lemma lifecycle_step_simps:
  "lifecycle_step s (Command c now us) = fst (handle_command s c now us)"
  "lifecycle_step s (Stored k) = fst (record_episode_stored s k)"
  by (simp_all add: lifecycle_step_def)

text \<open>The ways a command can be handled.\<close>

lemma handle_command_cases:
  obtains (start) "lc_state s = Idle" "command = Start"
      "handle_command s command now us =
        (s\<lparr>lc_state := Recording, lc_recording_started_at := Some now, lc_pending_elapsed_ms := 0\<rparr>,
         Ok (RecordingStart (lc_next_episode_index s) us))"
  | (stop) "lc_state s = Recording" "command = Stop"
      "handle_command s command now us =
        (s\<lparr>lc_state := Pending, lc_pending_elapsed_ms := lc_pending_elapsed_ms s, lc_recording_started_at := None\<rparr>,
         Ok (RecordingStop (lc_next_episode_index s) us))"
  | (close) ev where "lc_state s = Pending" "command = Keep \<and> ev = EpisodeKeep (lc_next_episode_index s)
        \<or> command = Discard \<and> ev = EpisodeDiscard (lc_next_episode_index s)"
      "handle_command s command now us =
        (s\<lparr>lc_state := Idle, lc_next_episode_index := saturating_succ (lc_next_episode_index s),
           lc_pending_elapsed_ms := 0\<rparr>, Ok ev)"
  | (invalid) "handle_command s command now us = (s, Err (lc_state s, command))"
      "(lc_state s, command) \<notin> {(Idle, Start), (Recording, Stop), (Pending, Keep), (Pending, Discard)}"
  by (cases "lc_state s"; cases command) (auto simp: handle_command_def elapsed_ms_def)

section \<open>Invariant\<close>

definition lifecycle_inv :: "episode_lifecycle \<Rightarrow> bool" where
  "lifecycle_inv s \<longleftrightarrow> (lc_state s = Recording \<longleftrightarrow> lc_recording_started_at s \<noteq> None)
     \<and> lc_pending_elapsed_ms s = 0
     \<and> (\<forall>i \<in> lc_stored_episode_indices s. i < lc_next_episode_index s)"

lemma less_saturating_succ: "i < n \<Longrightarrow> i < saturating_succ n"
  by (erule less_le_trans) (rule saturating_succ_le)

lemma handle_command_inv: "lifecycle_inv s \<Longrightarrow> lifecycle_inv (fst (handle_command s command now us))"
  by (rule handle_command_cases [of s command now us]) (auto simp: lifecycle_inv_def less_saturating_succ)

lemma record_episode_stored_inv: "lifecycle_inv s \<Longrightarrow> lifecycle_inv (fst (record_episode_stored s i))"
  by (auto simp: record_episode_stored_def lifecycle_inv_def)

interpretation lifecycle: invariant_machine lifecycle_step lifecycle_inv
  by unfold_locales
    (auto simp: lifecycle_step_def handle_command_inv record_episode_stored_inv split: lifecycle_input.splits)

lemma resumed_inv: "lifecycle_inv (resume_from_prior_recordings EpisodeLifecycle_default n k)"
  by (simp add: lifecycle_inv_def resume_from_prior_recordings_def EpisodeLifecycle_default_def)

interpretation episode_index: monotone_machine lifecycle_step lc_next_episode_index
proof unfold_locales
  fix s e
  show "lc_next_episode_index s \<le> lc_next_episode_index (lifecycle_step s e)"
  proof (cases e)
    case (Command c now us)
    then show ?thesis
      by (cases rule: handle_command_cases [of s c now us]) (auto simp: lifecycle_step_def saturating_succ_le)
  next
    case (Stored i)
    then show ?thesis by (simp add: lifecycle_step_def record_episode_stored_def)
  qed
qed

text \<open>The count is the prior count plus the distinct stored episodes, up to saturation.\<close>

definition count_inv :: "nat \<Rightarrow> episode_lifecycle \<Rightarrow> bool" where
  "count_inv prior s \<longleftrightarrow> finite (lc_stored_episode_indices s) \<and>
     unat (lc_episode_count s) = min (prior + card (lc_stored_episode_indices s)) (2 ^ 32 - 1)"

lemma count_inv_stored: "count_inv prior s \<Longrightarrow> count_inv prior (fst (record_episode_stored s i))"
  by (auto simp: count_inv_def record_episode_stored_def unat_saturating_succ)

interpretation episode_count: invariant_machine lifecycle_step "count_inv prior" for prior
proof unfold_locales
  fix s e
  assume inv: "count_inv prior s"
  show "count_inv prior (lifecycle_step s e)"
  proof (cases e)
    case (Command c now us)
    with inv show ?thesis
      by (cases rule: handle_command_cases [of s c now us]) (auto simp: lifecycle_step_def count_inv_def)
  next
    case (Stored i)
    with count_inv_stored [OF inv] show ?thesis by (simp add: lifecycle_step_def)
  qed
qed

section \<open>The protocol on the control topic\<close>

text \<open>The abstract machine: a phase and an unbounded episode number.\<close>

inductive episode_step :: "episode_state \<times> nat \<Rightarrow> control_event \<Rightarrow> episode_state \<times> nat \<Rightarrow> bool" where
  start: "unat i = n \<Longrightarrow> episode_step (Idle, n) (RecordingStart i ts) (Recording, n)"
| stop: "unat i = n \<Longrightarrow> episode_step (Recording, n) (RecordingStop i ts) (Pending, n)"
| keep: "unat i = n \<Longrightarrow> episode_step (Pending, n) (EpisodeKeep i) (Idle, Suc n)"
| discard: "unat i = n \<Longrightarrow> episode_step (Pending, n) (EpisodeDiscard i) (Idle, Suc n)"

inductive_cases episode_stepE: "episode_step c ev c'"

inductive episode_trace :: "episode_state \<times> nat \<Rightarrow> control_event list \<Rightarrow> episode_state \<times> nat \<Rightarrow> bool" where
  stutter: "episode_trace c [] c"
| event: "episode_step c ev c' \<Longrightarrow> episode_trace c' evs c'' \<Longrightarrow> episode_trace c (ev # evs) c''"

lemma episode_trace_one: "episode_step c ev c' \<Longrightarrow> episode_trace c [ev] c'"
  by (blast intro: episode_trace.intros)

lemma episode_trace_append: "episode_trace c evs c' \<Longrightarrow> episode_trace c' evs' c'' \<Longrightarrow> episode_trace c (evs @ evs') c''"
  by (induction rule: episode_trace.induct) (auto intro: episode_trace.intros)

definition phase_of :: "episode_lifecycle \<Rightarrow> episode_state \<times> nat" where
  "phase_of s = (lc_state s, unat (lc_next_episode_index s))"

lemma lifecycle_step_refines:
  assumes "unat (lc_next_episode_index s) < 2 ^ 32 - 1"
  shows "episode_trace (phase_of s) (lifecycle_output s i) (phase_of (lifecycle_step s i))"
proof (cases i)
  case (Command c now us)
  show ?thesis
  proof (cases rule: handle_command_cases [of s c now us])
    case start
    then show ?thesis using Command
      by (auto simp: lifecycle_step_def lifecycle_output_def phase_of_def intro!: episode_trace_one episode_step.intros)
  next
    case stop
    then show ?thesis using Command
      by (auto simp: lifecycle_step_def lifecycle_output_def phase_of_def intro!: episode_trace_one episode_step.intros)
  next
    case (close ev)
    moreover have "unat (saturating_succ (lc_next_episode_index s)) = Suc (unat (lc_next_episode_index s))"
      using assms by (simp add: unat_saturating_succ)
    ultimately show ?thesis using Command
      by (auto simp: lifecycle_step_def lifecycle_output_def phase_of_def intro!: episode_trace_one episode_step.intros)
  next
    case invalid
    then show ?thesis using Command
      by (auto simp: lifecycle_step_def lifecycle_output_def intro: episode_trace.intros)
  qed
next
  case (Stored k)
  then show ?thesis
    by (auto simp: lifecycle_step_def lifecycle_output_def record_episode_stored_def phase_of_def
        intro: episode_trace.intros)
qed

lemma lifecycle_step_index: "unat (lc_next_episode_index (lifecycle_step s i)) \<le> Suc (unat (lc_next_episode_index s))"
proof (cases i)
  case (Command c now us)
  then show ?thesis
    by (cases rule: handle_command_cases [of s c now us]) (auto simp: lifecycle_step_def unat_saturating_succ)
qed (simp add: lifecycle_step_def record_episode_stored_def)

lemma lifecycle_run_refines:
  "unat (lc_next_episode_index s) + length is < 2 ^ 32 \<Longrightarrow>
     episode_trace (phase_of s) (lifecycle_events s is) (phase_of (run_steps lifecycle_step s is))"
proof (induction "is" arbitrary: s)
  case Nil
  show ?case by (simp add: episode_trace.stutter)
next
  case (Cons i "is")
  have "episode_trace (phase_of s) (lifecycle_output s i) (phase_of (lifecycle_step s i))"
    using Cons.prems by (intro lifecycle_step_refines) simp
  moreover have "episode_trace (phase_of (lifecycle_step s i)) (lifecycle_events (lifecycle_step s i) is)
      (phase_of (run_steps lifecycle_step (lifecycle_step s i) is))"
    using Cons.prems lifecycle_step_index [of s i] by (intro Cons.IH) simp
  ultimately show ?case by (simp add: episode_trace_append)
qed

text \<open>Consequences of following the protocol: the numbers of the episodes started, and of the
  episodes closed, are consecutive.\<close>

fun start_index :: "control_event \<Rightarrow> nat list" where
  "start_index (RecordingStart i _) = [unat i]"
| "start_index _ = []"

fun close_index :: "control_event \<Rightarrow> nat list" where
  "close_index (EpisodeKeep i) = [unat i]"
| "close_index (EpisodeDiscard i) = [unat i]"
| "close_index _ = []"

definition opened :: "episode_state \<times> nat \<Rightarrow> nat" where
  "opened c = (if fst c = Idle then snd c else Suc (snd c))"

lemma episode_trace_starts:
  "episode_trace c evs c' \<Longrightarrow>
     opened c \<le> opened c' \<and> concat (map start_index evs) = [opened c ..< opened c']"
proof (induction rule: episode_trace.induct)
  case (event c ev c' evs c'')
  from event.hyps(1) event.IH show ?case
    by (cases rule: episode_step.cases) (auto simp: opened_def upt_conv_Cons split: if_splits)
qed simp

lemma episode_trace_closes:
  "episode_trace c evs c' \<Longrightarrow> snd c \<le> snd c' \<and> concat (map close_index evs) = [snd c ..< snd c']"
proof (induction rule: episode_trace.induct)
  case (event c ev c' evs c'')
  from event.hyps(1) event.IH show ?case
    by (cases rule: episode_step.cases) (auto simp: upt_conv_Cons)
qed simp

section \<open>Properties\<close>

text \<open>C19: from any resumed lifecycle and for any sequence of commands and storage notices
  short of exhausting the 32-bit episode numbers, the events the machine emits are a trace of
  the episode protocol (start, stop, then keep or discard, all with the current number).\<close>

theorem lifecycle_refines_protocol:
  assumes "unat n + length is < 2 ^ 32"
  shows "episode_trace (Idle, unat n) (lifecycle_events (resume_from_prior_recordings EpisodeLifecycle_default n k) is)
    (phase_of (run_steps lifecycle_step (resume_from_prior_recordings EpisodeLifecycle_default n k) is))"
  using lifecycle_run_refines [of "resume_from_prior_recordings EpisodeLifecycle_default n k" "is"] assms
  by (simp add: phase_of_def resume_from_prior_recordings_def EpisodeLifecycle_default_def)

theorem lifecycle_refines_protocol_witness:
  "episode_trace (Idle, unat (5 :: u32)) (lifecycle_events (resume_from_prior_recordings EpisodeLifecycle_default 5 5)
      [Command Start 0 1, Command Stop 9 2, Command Keep 9 3])
    (phase_of (run_steps lifecycle_step (resume_from_prior_recordings EpisodeLifecycle_default 5 5)
      [Command Start 0 1, Command Stop 9 2, Command Keep 9 3]))"
  by (rule lifecycle_refines_protocol) simp

text \<open>C8: the episodes started in a run are numbered consecutively from the resumed
  number, and those closed by keep or discard are the same numbers, except for one still open:
  no number is reused or skipped.\<close>

theorem episode_numbers_consecutive:
  assumes "unat n + length is < 2 ^ 32"
  shows "(let s = resume_from_prior_recordings EpisodeLifecycle_default n k; s' = run_steps lifecycle_step s is in
    concat (map start_index (lifecycle_events s is)) =
      [unat n ..< unat (lc_next_episode_index s') + (if lc_state s' = Idle then 0 else 1)]
    \<and> concat (map close_index (lifecycle_events s is)) = [unat n ..< unat (lc_next_episode_index s')])"
proof -
  define s where "s = resume_from_prior_recordings EpisodeLifecycle_default n k"
  define s' where "s' = run_steps lifecycle_step s is"
  have ph: "phase_of s = (Idle, unat n)"
    by (simp add: s_def phase_of_def resume_from_prior_recordings_def EpisodeLifecycle_default_def)
  have "episode_trace (phase_of s) (lifecycle_events s is) (phase_of s')"
    using lifecycle_run_refines [of s "is"] assms(1)
    by (simp add: s_def s'_def resume_from_prior_recordings_def EpisodeLifecycle_default_def)
  from episode_trace_starts [OF this] episode_trace_closes [OF this] show ?thesis
    unfolding Let_def s_def [symmetric] s'_def [symmetric] ph
    by (auto simp: phase_of_def opened_def)
qed

theorem episode_numbers_consecutive_witness:
  "(let s = resume_from_prior_recordings EpisodeLifecycle_default 5 5;
        s' = run_steps lifecycle_step s [Command Start 0 1, Command Stop 9 2, Command Keep 9 3, Command Start 10 4] in
    concat (map start_index (lifecycle_events s [Command Start 0 1, Command Stop 9 2, Command Keep 9 3, Command Start 10 4])) =
      [unat (5 :: u32) ..< unat (lc_next_episode_index s') + (if lc_state s' = Idle then 0 else 1)]
    \<and> concat (map close_index (lifecycle_events s [Command Start 0 1, Command Stop 9 2, Command Keep 9 3, Command Start 10 4]))
      = [unat (5 :: u32) ..< unat (lc_next_episode_index s')])"
  by (rule episode_numbers_consecutive) simp

text \<open>The lifecycle invariant holds after every run: the recording start time is set exactly
  while recording, and only numbers already handed out are recorded as stored.\<close>

theorem lifecycle_invariant:
  "(let s = run_steps lifecycle_step (resume_from_prior_recordings EpisodeLifecycle_default n k) is in
    (lc_state s = Recording \<longleftrightarrow> lc_recording_started_at s \<noteq> None)
    \<and> (\<forall>i. i \<in> lc_stored_episode_indices s \<longrightarrow> i < lc_next_episode_index s) \<and> n \<le> lc_next_episode_index s)"
  using lifecycle.run_inv [OF resumed_inv, of n k "is"]
    episode_index.run_mono [of "resume_from_prior_recordings EpisodeLifecycle_default n k" "is"]
  by (simp add: lifecycle_inv_def Let_def resume_from_prior_recordings_def)

theorem lifecycle_invariant_witness:
  "(0 :: u32) \<le> lc_next_episode_index (run_steps lifecycle_step
     (resume_from_prior_recordings EpisodeLifecycle_default 0 0) [Command Start 0 0, Stored 0])"
  using lifecycle_invariant [of 0 0 "[Command Start 0 0, Stored 0]"] by (simp only: Let_def)

text \<open>The status published while an episode waits for keep or discard reports an elapsed
  time of zero, however long the recording was: the state is already \<open>Pending\<close> when the
  elapsed time is computed.\<close>

theorem pending_elapsed_is_zero:
  assumes "lc_state (run_steps lifecycle_step (resume_from_prior_recordings EpisodeLifecycle_default n k) is) = Pending"
  shows "es_elapsed_ms (lifecycle_status (run_steps lifecycle_step
    (resume_from_prior_recordings EpisodeLifecycle_default n k) is) now) = 0"
  using lifecycle.run_inv [OF resumed_inv, of n k "is"] assms
  by (simp add: lifecycle_inv_def lifecycle_status_def elapsed_ms_def)

theorem pending_elapsed_is_zero_witness:
  "es_elapsed_ms (lifecycle_status (run_steps lifecycle_step (resume_from_prior_recordings EpisodeLifecycle_default 0 0)
     [Command Start 0 0, Command Stop 2000000000 0]) 2000000000) = 0"
  by (rule pending_elapsed_is_zero)
    (simp add: lifecycle_step_simps handle_command_def resume_from_prior_recordings_def EpisodeLifecycle_default_def)

text \<open>The episode count is the number found on disk plus the number of different episodes
  reported as stored since, saturating at the largest 32-bit value.\<close>

theorem episode_count_exact:
  "(let s = run_steps lifecycle_step (resume_from_prior_recordings EpisodeLifecycle_default n k) is in
    unat (lc_episode_count s) = min (unat k + card (lc_stored_episode_indices s)) (2 ^ 32 - 1))"
proof -
  have "unat k \<le> 2 ^ 32 - 1" using unsigned_less [of k, where ?'a = nat] by simp
  then have "count_inv (unat k) (resume_from_prior_recordings EpisodeLifecycle_default n k)"
    by (simp add: count_inv_def resume_from_prior_recordings_def EpisodeLifecycle_default_def)
  from episode_count.run_inv [OF this] show ?thesis by (simp add: count_inv_def Let_def)
qed

text \<open>A command is rejected exactly when it is not one of the four transitions, the
  error names the state and the command, and the machine is left as it was.\<close>

theorem invalid_commands_rejected:
  "snd (handle_command s command now us) = Err e \<longleftrightarrow>
     (lc_state s, command) \<notin> {(Idle, Start), (Recording, Stop), (Pending, Keep), (Pending, Discard)}
     \<and> e = (lc_state s, command) \<and> fst (handle_command s command now us) = s"
  by (cases rule: handle_command_cases [of s command now us]) auto

end
