(* ===== verification/Collect_Loop.thy ===== *)
theory Collect_Loop
  imports Episode_Lifecycle
begin

text \<open>
  The controller's collect loop, \<open>run_collect_loop\<close> and its helpers in
  \<^verbatim>\<open>controller/src/collect.rs\<close> with \<open>poll_children_once\<close> of \<^verbatim>\<open>controller/src/process.rs\<close>. One
  iteration reads the shutdown flag, the children, four message queues and the clocks, and
  publishes control events and the episode status. What the operating system and the
  iceoryx2 ports return in an iteration is its input; every \<open>?\<close> of the loop is an exit.
\<close>

section \<open>Draining and publishing\<close>

text \<open>\<open>loop { let Some(sample) = subscriber.receive()? else { return Ok(events) }; .. }\<close> over the
  results of \<open>receive\<close> up to the empty queue.\<close>

fun drain :: "('a, string) result list \<Rightarrow> ('a list, string) result" where
  "drain [] = Ok []"
| "drain (r # rs) = bind_ok r (\<lambda>sample. bind_ok (drain rs) (\<lambda>samples. Ok (sample # samples)))"

text \<open>\<open>for event in control_events { publish(event)?; }\<close>: what was sent, and the error.\<close>

fun publish_all :: "('a \<Rightarrow> (unit, string) result) \<Rightarrow> 'a list \<Rightarrow> 'a list \<times> (unit, string) result" where
  "publish_all publish [] = ([], Ok ())"
| "publish_all publish (event # events) = (case publish event of
       Err e \<Rightarrow> ([], Err e)
     | Ok _ \<Rightarrow> (case publish_all publish events of (sent, r) \<Rightarrow> (event # sent, r)))"

section \<open>Children\<close>

datatype shutdown_trigger = Signal | ChildExited string i32

text \<open>A child is its identifier and the answer of \<open>try_wait\<close>.\<close>

fun poll_children_once :: "(string \<times> (i32 option, string) result) list \<Rightarrow> (shutdown_trigger option, string) result" where
  "poll_children_once [] = Ok None"
| "poll_children_once ((child_id, try_wait) # children) = bind_ok try_wait (\<lambda>exited. case exited of
       Some status \<Rightarrow> Ok (Some (ChildExited child_id status))
     | None \<Rightarrow> poll_children_once children)"

fun result_for_shutdown_trigger :: "shutdown_trigger \<Rightarrow> (unit, string \<times> i32) result" where
  "result_for_shutdown_trigger Signal = Ok ()"
| "result_for_shutdown_trigger (ChildExited child_id status) = Err (child_id, status)"

section \<open>One iteration\<close>

record collect_state =
  col_lifecycle :: episode_lifecycle
  col_start_blocked :: bool

definition apply_backpressure_events :: "bool \<Rightarrow> backpressure_event list \<Rightarrow> bool" where
  "apply_backpressure_events start_blocked events = fold (\<lambda>event start_blocked. True) events start_blocked"

fun apply_episode_stored_events :: "collect_state \<Rightarrow> episode_stored list \<Rightarrow> collect_state \<times> bool" where
  "apply_episode_stored_events s [] = (s, False)"
| "apply_episode_stored_events s (event # events) =
     (case record_episode_stored (col_lifecycle s) (est_episode_index event) of
        (lifecycle, True) \<Rightarrow>
          (fst (apply_episode_stored_events \<lparr>col_lifecycle = lifecycle, col_start_blocked = False\<rparr> events), True)
      | (lifecycle, False) \<Rightarrow> apply_episode_stored_events (s\<lparr>col_lifecycle := lifecycle\<rparr>) events)"

definition apply_episode_dropped_events :: "bool \<Rightarrow> episode_dropped list \<Rightarrow> bool \<times> bool" where
  "apply_episode_dropped_events start_blocked events =
     fold (\<lambda>event (start_blocked, changed). (False, True)) events (start_blocked, False)"

text \<open>Each command comes with the wall-clock reading its event is stamped with.\<close>

fun collect_control_events :: "collect_state \<Rightarrow> (episode_command \<times> u64) list \<Rightarrow> instant
    \<Rightarrow> collect_state \<times> control_event list \<times> bool" where
  "collect_control_events s [] now = (s, [], False)"
| "collect_control_events s ((command, us) # commands) now =
     (if command = Start \<and> col_start_blocked s then collect_control_events s commands now
      else case handle_command (col_lifecycle s) command now us of
          (lifecycle, Ok event) \<Rightarrow>
            (let unblocked = (case event of EpisodeDiscard _ \<Rightarrow> False | _ \<Rightarrow> col_start_blocked s);
                 (s', events, _) = collect_control_events \<lparr>col_lifecycle = lifecycle, col_start_blocked = unblocked\<rparr> commands now
             in (s', event # events, True))
        | (lifecycle, Err _) \<Rightarrow> collect_control_events (s\<lparr>col_lifecycle := lifecycle\<rparr>) commands now)"

record iteration_input =
  in_shutdown_requested :: bool
  in_children :: "(string \<times> (i32 option, string) result) list"
  in_backpressure :: "(backpressure_event, string) result list"
  in_stored :: "(episode_stored, string) result list"
  in_dropped :: "(episode_dropped, string) result list"
  in_commands :: "(episode_command \<times> u64, string) result list"
  in_now :: instant
  in_publish_control :: "control_event \<Rightarrow> (unit, string) result"
  in_status_now :: instant
  in_publish_status :: "episode_status \<Rightarrow> (unit, string) result"

text \<open>The state left, what was published on the two topics, and the exit if the loop ends.\<close>

type_synonym iteration_result =
  "collect_state \<times> control_event list \<times> episode_status list \<times> (shutdown_trigger, string) result option"

definition or_exit :: "('a, string) result \<Rightarrow> collect_state \<Rightarrow> ('a \<Rightarrow> iteration_result) \<Rightarrow> iteration_result" where
  "or_exit r s k = (case r of Err e \<Rightarrow> (s, [], [], Some (Err e)) | Ok a \<Rightarrow> k a)"

definition publish_iteration :: "collect_state \<Rightarrow> iteration_input \<Rightarrow> control_event list \<Rightarrow> bool \<Rightarrow> iteration_result" where
  "publish_iteration s i events status_changed =
     (case publish_all (in_publish_control i) events of
        (sent, Err e) \<Rightarrow> (s, sent, [], Some (Err e))
      | (sent, Ok _) \<Rightarrow>
          if status_changed \<or> lc_state (col_lifecycle s) = Recording
          then let st = lifecycle_status (col_lifecycle s) (in_status_now i)
               in (case in_publish_status i st of
                     Err e \<Rightarrow> (s, sent, [], Some (Err e))
                   | Ok _ \<Rightarrow> (s, sent, [st], None))
          else (s, sent, [], None))"

definition collect_iteration :: "collect_state \<Rightarrow> iteration_input \<Rightarrow> iteration_result" where
  "collect_iteration s i =
     (if in_shutdown_requested i then (s, [], [], Some (Ok Signal))
      else or_exit (poll_children_once (in_children i)) s (\<lambda>trigger. case trigger of
          Some t \<Rightarrow> (s, [], [], Some (Ok t))
        | None \<Rightarrow>
          or_exit (drain (in_backpressure i)) s (\<lambda>backpressure.
          (let s1 = s\<lparr>col_start_blocked := apply_backpressure_events (col_start_blocked s) backpressure\<rparr> in
          or_exit (drain (in_stored i)) s1 (\<lambda>stored.
          (let (s2, stored_changed) = apply_episode_stored_events s1 stored in
          or_exit (drain (in_dropped i)) s2 (\<lambda>dropped.
          (let (blocked, dropped_changed) = apply_episode_dropped_events (col_start_blocked s2) dropped;
               s3 = s2\<lparr>col_start_blocked := blocked\<rparr> in
          or_exit (drain (in_commands i)) s3 (\<lambda>commands.
          (let (s4, events, command_changed) = collect_control_events s3 commands (in_now i) in
          publish_iteration s4 i events (stored_changed \<or> dropped_changed \<or> command_changed)))))))))))"

fun run_collect_loop :: "collect_state \<Rightarrow> iteration_input list \<Rightarrow> iteration_result" where
  "run_collect_loop s [] = (s, [], [], None)"
| "run_collect_loop s (i # is) = (case collect_iteration s i of
       (s', sent, statuses, Some exit) \<Rightarrow> (s', sent, statuses, Some exit)
     | (s', sent, statuses, None) \<Rightarrow>
         (case run_collect_loop s' is of (s'', sent', statuses', exit) \<Rightarrow>
            (s'', sent @ sent', statuses @ statuses', exit)))"

section \<open>The loop drives the lifecycle\<close>

lemma length_drain: "drain rs = Ok xs \<Longrightarrow> length xs = length rs"
  by (induction rs arbitrary: xs) (auto simp: bind_ok_def split: sum.splits)

lemma publish_all_prefix:
  "publish_all publish events = (sent, r) \<Longrightarrow> \<exists>rest. events = sent @ rest \<and> (is_ok r \<longrightarrow> rest = [])"
  by (induction publish events arbitrary: sent r rule: publish_all.induct) (fastforce split: sum.splits prod.splits)+

lemma stored_events_run:
  "col_lifecycle (fst (apply_episode_stored_events s events)) =
     run_steps lifecycle_step (col_lifecycle s) (map (\<lambda>e. Stored (est_episode_index e)) events)"
  by (induction s events rule: apply_episode_stored_events.induct)
    (auto simp: lifecycle_step_simps split: prod.splits bool.splits)

lemma lifecycle_events_stored: "lifecycle_events s (map Stored ks @ is) = lifecycle_events (run_steps lifecycle_step s (map Stored ks)) is"
  by (induction ks arbitrary: s) (auto simp: lifecycle_output_def)

text \<open>The commands that reach the machine are those not skipped as blocked.\<close>

lemma control_events_run:
  "collect_control_events s commands now = (s', events, changed) \<Longrightarrow>
     \<exists>is. col_lifecycle s' = run_steps lifecycle_step (col_lifecycle s) is
       \<and> events = lifecycle_events (col_lifecycle s) is \<and> length is \<le> length commands
       \<and> (changed \<longleftrightarrow> events \<noteq> [])"
proof (induction s commands now arbitrary: s' events changed rule: collect_control_events.induct)
  case (1 s now)
  then show ?case by (intro exI [of _ "[]"]) simp
next
  case (2 s command us commands now)
  let ?l = "col_lifecycle s"
  let ?i = "Command command now us"
  consider (blocked) "command = Start \<and> col_start_blocked s"
    | (ok) lc event where "\<not> (command = Start \<and> col_start_blocked s)" "handle_command ?l command now us = (lc, Ok event)"
    | (err) lc e where "\<not> (command = Start \<and> col_start_blocked s)" "handle_command ?l command now us = (lc, Err e)"
    by (metis obj_sumE surj_pair)
  then show ?case
  proof cases
    case blocked
    with "2.prems" have "collect_control_events s commands now = (s', events, changed)" by simp
    from "2.IH"(1) [OF blocked this] show ?thesis by fastforce
  next
    case (ok lc event)
    define b where "b = (case event of EpisodeDiscard _ \<Rightarrow> False | _ \<Rightarrow> col_start_blocked s)"
    obtain events' changed' where rec: "collect_control_events \<lparr>col_lifecycle = lc, col_start_blocked = b\<rparr> commands now
        = (s', events', changed')" and ev: "events = event # events'" and ch: "changed"
      using "2.prems" ok by (auto simp: b_def Let_def split: prod.splits)
    from "2.IH"(3) [OF ok(1) ok(2) [symmetric] refl b_def rec]
    obtain "is" where "col_lifecycle s' = run_steps lifecycle_step lc is"
      "events' = lifecycle_events lc is" "length is \<le> length commands"
      by auto
    then show ?thesis using ok(2) ev ch
      by (intro exI [of _ "?i # is"]) (auto simp: lifecycle_step_simps lifecycle_output_def)
  next
    case (err lc e)
    then have rec: "collect_control_events (s\<lparr>col_lifecycle := lc\<rparr>) commands now = (s', events, changed)"
      using "2.prems" by (auto split: if_splits)
    from "2.IH"(2) [OF err(1) err(2) [symmetric] refl rec]
    obtain "is" where "col_lifecycle s' = run_steps lifecycle_step lc is"
      "events = lifecycle_events lc is" "length is \<le> length commands" "changed \<longleftrightarrow> events \<noteq> []"
      by auto
    then show ?thesis using err(2)
      by (intro exI [of _ "?i # is"]) (auto simp: lifecycle_step_simps lifecycle_output_def)
  qed
qed

lemma publish_iteration_prefix:
  assumes "publish_iteration s i events changed = (s', sent, statuses, ex)"
  shows "s' = s \<and> (\<exists>rest. events = sent @ rest \<and> (ex = None \<longrightarrow> rest = []))"
proof -
  obtain sent' r where pub: "publish_all (in_publish_control i) events = (sent', r)" by fastforce
  from publish_all_prefix [OF this] obtain rest where "events = sent' @ rest" "is_ok r \<longrightarrow> rest = []" by blast
  with pub assms show ?thesis
    by (cases r) (auto simp: publish_iteration_def Let_def split: if_splits sum.splits)
qed

text \<open>The effect of one iteration, exits included: it feeds the machine some inputs and publishes
  a prefix of the events they produce, all of them when the loop goes on.\<close>

definition iteration_feeds :: "episode_lifecycle \<Rightarrow> nat \<Rightarrow> iteration_result \<Rightarrow> bool" where
  "iteration_feeds l n r = (case r of (s', sent, statuses, ex) \<Rightarrow>
     (\<exists>is rest. col_lifecycle s' = run_steps lifecycle_step l is \<and> lifecycle_events l is = sent @ rest
       \<and> (ex = None \<longrightarrow> rest = []) \<and> length is \<le> n))"

lemma iteration_feeds_exit: "iteration_feeds (col_lifecycle s) n (s, [], [], Some x)"
  by (auto simp: iteration_feeds_def intro!: exI [of _ "[]"])

lemma iteration_feeds_or_exit:
  "(\<And>e. iteration_feeds l n (s, [], [], Some (Err e))) \<Longrightarrow> (\<And>a. r = Ok a \<Longrightarrow> iteration_feeds l n (k a)) \<Longrightarrow>
     iteration_feeds l n (or_exit r s k)"
  by (cases r) (auto simp: or_exit_def)

lemma iteration_feeds_stored:
  assumes "length stored \<le> n"
  shows "iteration_feeds (col_lifecycle s) n (fst (apply_episode_stored_events s stored), [], [], Some x)"
proof -
  let ?is = "map (\<lambda>e. Stored (est_episode_index e)) stored"
  have "lifecycle_events (col_lifecycle s) ?is = []"
    using lifecycle_events_stored [of _ "map est_episode_index stored" "[]"] by (simp add: comp_def)
  with assms show ?thesis
    by (auto simp: iteration_feeds_def stored_events_run intro!: exI [of _ ?is])
qed

lemma iteration_feeds_commands:
  assumes s2: "s2 = fst (apply_episode_stored_events s stored)" and s3: "col_lifecycle s3 = col_lifecycle s2"
    and cmds: "collect_control_events s3 commands now = (s4, events, changed)"
    and n: "length stored + length commands \<le> n"
  shows "iteration_feeds (col_lifecycle s) n (publish_iteration s4 i events ch)"
proof -
  let ?ks = "map (\<lambda>e. Stored (est_episode_index e)) stored"
  from control_events_run [OF cmds] obtain "is" where run: "col_lifecycle s4 = run_steps lifecycle_step (col_lifecycle s3) is"
    "events = lifecycle_events (col_lifecycle s3) is" "length is \<le> length commands" by blast
  have ks: "col_lifecycle s3 = run_steps lifecycle_step (col_lifecycle s) ?ks"
    by (simp add: s2 s3 stored_events_run)
  have evs: "lifecycle_events (col_lifecycle s) (?ks @ is) = events"
    using lifecycle_events_stored [of "col_lifecycle s" "map est_episode_index stored" "is"] ks run(2)
    by (simp add: comp_def)
  obtain s' sent sts ex where pub: "publish_iteration s4 i events ch = (s', sent, sts, ex)" by (metis prod_cases4)
  from publish_iteration_prefix [OF this] obtain rest where "s' = s4" "events = sent @ rest" "ex = None \<longrightarrow> rest = []"
    by blast
  with pub evs ks run(1,3) n show ?thesis
    by (auto simp: iteration_feeds_def run_steps_append intro!: exI [of _ "?ks @ is"])
qed

lemma collect_iteration_feeds:
  "iteration_feeds (col_lifecycle s) (length (in_stored i) + length (in_commands i)) (collect_iteration s i)"
proof -
  let ?n = "length (in_stored i) + length (in_commands i)"
  have blocked: "iteration_feeds (col_lifecycle s) ?n (s\<lparr>col_start_blocked := b\<rparr>, [], [], Some x)" for b x
    using iteration_feeds_exit [of "s\<lparr>col_start_blocked := b\<rparr>" ?n x] by simp
  define t where "t b stored = fst (apply_episode_stored_events (s\<lparr>col_start_blocked := b\<rparr>) stored)" for b stored
  have stored: "iteration_feeds (col_lifecycle s) ?n (t b stored, [], [], Some x)"
      "iteration_feeds (col_lifecycle s) ?n (t b stored\<lparr>col_start_blocked := c\<rparr>, [], [], Some x)"
    if "drain (in_stored i) = Ok stored" for b c stored x
    using iteration_feeds_stored [of stored ?n "s\<lparr>col_start_blocked := b\<rparr>" x] that length_drain [of "in_stored i" stored]
    by (simp_all add: iteration_feeds_def t_def)
  have commands: "iteration_feeds (col_lifecycle s) ?n (publish_iteration (fst r) i (fst (snd r)) ch)"
    if "drain (in_stored i) = Ok stored" "drain (in_commands i) = Ok commands"
      "r = collect_control_events (t b stored\<lparr>col_start_blocked := c\<rparr>) commands (in_now i)"
    for b c stored commands r ch
  proof (cases r)
    case (fields s4 events changed)
    with that(3) have "collect_control_events (t b stored\<lparr>col_start_blocked := c\<rparr>) commands (in_now i) = (s4, events, changed)"
      by simp
    then have "iteration_feeds (col_lifecycle (s\<lparr>col_start_blocked := b\<rparr>)) ?n (publish_iteration s4 i events ch)"
      by (rule iteration_feeds_commands [OF t_def [of b stored], rotated]) (use that(1,2) in \<open>auto simp: length_drain\<close>)
    then show ?thesis by (simp add: fields)
  qed
  show ?thesis
    unfolding collect_iteration_def
    by (auto simp: Let_def split_def iteration_feeds_exit blocked t_def [symmetric] split: option.splits
        intro!: iteration_feeds_or_exit intro: stored commands)
qed

section \<open>Runs of the loop\<close>

definition messages_in :: "iteration_input list \<Rightarrow> nat" where
  "messages_in is = sum_list (map (\<lambda>i. length (in_stored i) + length (in_commands i)) is)"

lemma lifecycle_events_append:
  "lifecycle_events s (is @ js) = lifecycle_events s is @ lifecycle_events (run_steps lifecycle_step s is) js"
  by (induction "is" arbitrary: s) auto

lemma iteration_feeds_then:
  assumes "iteration_feeds l m (s', sent, statuses, None)" and "iteration_feeds (col_lifecycle s') n (s'', sent', statuses', ex)"
  shows "iteration_feeds l (m + n) (s'', sent @ sent', all_statuses, ex)"
proof -
  from assms(1) obtain "is" where "col_lifecycle s' = run_steps lifecycle_step l is" "lifecycle_events l is = sent" "length is \<le> m"
    by (auto simp: iteration_feeds_def)
  moreover from assms(2) obtain js rest where "col_lifecycle s'' = run_steps lifecycle_step (col_lifecycle s') js"
    "lifecycle_events (col_lifecycle s') js = sent' @ rest" "ex = None \<longrightarrow> rest = []" "length js \<le> n"
    by (auto simp: iteration_feeds_def)
  ultimately show ?thesis
    by (auto simp: iteration_feeds_def run_steps_append lifecycle_events_append intro!: exI [of _ "is @ js"])
qed

lemma iteration_feeds_more: "iteration_feeds l m r \<Longrightarrow> m \<le> n \<Longrightarrow> iteration_feeds l n r"
  unfolding iteration_feeds_def by (fastforce split: prod.splits)

lemma run_collect_loop_feeds: "iteration_feeds (col_lifecycle s) (messages_in is) (run_collect_loop s is)"
proof (induction "is" arbitrary: s)
  case Nil
  show ?case by (auto simp: iteration_feeds_def messages_in_def intro!: exI [of _ "[]"])
next
  case (Cons i "is")
  obtain s' sent sts ex where it: "collect_iteration s i = (s', sent, sts, ex)" by (metis prod_cases4)
  then have first: "iteration_feeds (col_lifecycle s) (length (in_stored i) + length (in_commands i)) (s', sent, sts, ex)"
    using collect_iteration_feeds [of s i] by simp
  show ?case
  proof (cases ex)
    case (Some x)
    with first it show ?thesis by (auto simp: messages_in_def intro: iteration_feeds_more)
  next
    case None
    obtain s'' sent' sts' ex' where rest: "run_collect_loop s' is = (s'', sent', sts', ex')" by (metis prod_cases4)
    from iteration_feeds_then [OF first [unfolded None] Cons.IH [of s', unfolded rest]] it None rest
    show ?thesis by (simp add: messages_in_def)
  qed
qed

lemma episode_trace_prefix: "episode_trace c evs c'' \<Longrightarrow> evs = xs @ ys \<Longrightarrow> \<exists>c'. episode_trace c xs c'"
proof (induction arbitrary: xs rule: episode_trace.induct)
  case (event c ev c' evs c'')
  show ?case
  proof (cases xs)
    case Nil
    then show ?thesis by (blast intro: episode_trace.stutter)
  next
    case (Cons x xs')
    with event show ?thesis by (metis append_Cons episode_trace.event list.inject)
  qed
qed (blast intro: episode_trace.stutter)

lemma run_collect_loop_trace:
  assumes "run_collect_loop s is = (s', sent, statuses, ex)"
    and "unat (lc_next_episode_index (col_lifecycle s)) + messages_in is < 2 ^ 32"
  shows "\<exists>c'. episode_trace (phase_of (col_lifecycle s)) sent c'"
proof -
  from run_collect_loop_feeds [of s "is"] assms(1) obtain js rest where
    js: "lifecycle_events (col_lifecycle s) js = sent @ rest" "length js \<le> messages_in is"
    by (auto simp: iteration_feeds_def)
  have "episode_trace (phase_of (col_lifecycle s)) (sent @ rest) (phase_of (run_steps lifecycle_step (col_lifecycle s) js))"
    using lifecycle_run_refines [of "col_lifecycle s" js] js assms(2) by simp
  then show ?thesis by (rule episode_trace_prefix) simp
qed

section \<open>Backpressure\<close>

lemma handle_command_no_start:
  "handle_command l command now us = (l', Ok event) \<Longrightarrow> command \<noteq> Start \<Longrightarrow> start_index event = []"
  by (cases rule: handle_command_cases [of l command now us]) auto

lemma handle_command_discard_event:
  "handle_command l command now us = (l', Ok (EpisodeDiscard k)) \<Longrightarrow> command = Discard"
  by (cases rule: handle_command_cases [of l command now us]) auto

lemma blocked_commands:
  "collect_control_events s commands now = (s', events, changed) \<Longrightarrow> col_start_blocked s \<Longrightarrow>
     Discard \<notin> fst ` set commands \<Longrightarrow> col_start_blocked s' \<and> concat (map start_index events) = []"
proof (induction s commands now arbitrary: s' events changed rule: collect_control_events.induct)
  case (2 s command us commands now)
  show ?case
  proof (cases "command = Start")
    case True
    with "2.IH"(1) "2.prems" show ?thesis by auto
  next
    case False
    obtain lc r where h: "handle_command (col_lifecycle s) command now us = (lc, r)" by fastforce
    show ?thesis
    proof (cases r)
      case (Inl e)
      with "2.IH"(2) "2.prems" False h show ?thesis by auto
    next
      case (Inr event)
      have nd: "command \<noteq> Discard" using "2.prems"(3) by auto
      have b: "(case event of EpisodeDiscard _ \<Rightarrow> False | _ \<Rightarrow> col_start_blocked s) = True"
        using handle_command_discard_event h Inr nd "2.prems"(2) by (fastforce split: control_event.splits)
      obtain events' changed' where rec: "collect_control_events \<lparr>col_lifecycle = lc, col_start_blocked = True\<rparr> commands now
          = (s', events', changed')" and ev: "events = event # events'"
        using "2.prems"(1,2) False h Inr b by (auto simp: Let_def split: prod.splits)
      have "col_start_blocked s' \<and> concat (map start_index events') = []"
        by (rule "2.IH"(3) [OF _ h [symmetric] Inr b [symmetric] rec]) (use False "2.prems" in auto)
      with ev handle_command_no_start h Inr False show ?thesis by auto
    qed
  qed
qed simp

lemma idle_blocked_commands:
  "lc_state (col_lifecycle s) = Idle \<Longrightarrow> col_start_blocked s \<Longrightarrow> collect_control_events s commands now = (s, [], False)"
proof (induction commands)
  case (Cons cu commands)
  obtain command us where cu: "cu = (command, us)" by fastforce
  from Cons show ?case
    by (cases rule: handle_command_cases [of "col_lifecycle s" command now us]) (auto simp: cu)
qed simp

lemma stored_events_stay_unblocked:
  "\<not> col_start_blocked s \<Longrightarrow> \<not> col_start_blocked (fst (apply_episode_stored_events s events))"
  by (induction s events rule: apply_episode_stored_events.induct) (auto split: prod.splits bool.splits)

lemma stored_events_unblock:
  "snd (apply_episode_stored_events s events) \<Longrightarrow> \<not> col_start_blocked (fst (apply_episode_stored_events s events))"
proof (induction events arbitrary: s)
  case (Cons event events)
  obtain l fresh where r: "record_episode_stored (col_lifecycle s) (est_episode_index event) = (l, fresh)" by fastforce
  show ?case
  proof (cases fresh)
    case True
    with r show ?thesis by (simp add: stored_events_stay_unblocked)
  next
    case False
    with r Cons show ?thesis by simp
  qed
qed simp

section \<open>Properties\<close>

text \<open>C3: whatever the children, the queues and the ports do, and wherever the loop
  exits, the control events the controller has published form a trace of the episode protocol.\<close>

theorem published_events_follow_protocol:
  assumes "run_collect_loop \<lparr>col_lifecycle = resume_from_prior_recordings EpisodeLifecycle_default n k,
      col_start_blocked = b\<rparr> is = (s', sent, statuses, ex)"
    and "unat n + messages_in is < 2 ^ 32"
  shows "\<exists>c'. episode_trace (Idle, unat n) sent c'"
  using run_collect_loop_trace [OF assms(1)] assms(2)
  by (simp add: phase_of_def resume_from_prior_recordings_def EpisodeLifecycle_default_def)

definition quiet_input :: iteration_input where
  "quiet_input = \<lparr>in_shutdown_requested = False, in_children = [], in_backpressure = [], in_stored = [],
     in_dropped = [], in_commands = [], in_now = 0, in_publish_control = (\<lambda>_. Ok ()), in_status_now = 0,
     in_publish_status = (\<lambda>_. Ok ())\<rparr>"

theorem published_events_follow_protocol_witness:
  "\<exists>c'. episode_trace (Idle, unat (0 :: u32)) [RecordingStart 0 7] c'"
proof -
  have "run_collect_loop \<lparr>col_lifecycle = resume_from_prior_recordings EpisodeLifecycle_default 0 0, col_start_blocked = False\<rparr>
      [quiet_input\<lparr>in_commands := [Ok (Start, 7)]\<rparr>, quiet_input\<lparr>in_shutdown_requested := True\<rparr>]
    = (fst (run_collect_loop \<lparr>col_lifecycle = resume_from_prior_recordings EpisodeLifecycle_default 0 0, col_start_blocked = False\<rparr>
      [quiet_input\<lparr>in_commands := [Ok (Start, 7)]\<rparr>, quiet_input\<lparr>in_shutdown_requested := True\<rparr>]),
      [RecordingStart 0 7], [\<lparr>es_state = Recording, es_episode_count = 0, es_elapsed_ms = 0\<rparr>], Some (Ok Signal))"
    by (simp add: collect_iteration_def publish_iteration_def or_exit_def quiet_input_def bind_ok_def Let_def
        apply_backpressure_events_def apply_episode_dropped_events_def handle_command_def lifecycle_status_def
        elapsed_ms_def millis_since_def resume_from_prior_recordings_def EpisodeLifecycle_default_def)
  from published_events_follow_protocol [OF this] show ?thesis
    by (simp add: messages_in_def quiet_input_def)
qed

text \<open>While starts are blocked no batch of commands without a discard makes the
  controller emit a recording start, and the block stays; a storage notice that is counted
  lifts it.\<close>

theorem backpressure_blocks_starts:
  assumes "apply_backpressure_events b (event # events) = col_start_blocked s"
    and "collect_control_events s commands now = (s', sent, changed)" and "Discard \<notin> fst ` set commands"
  shows "col_start_blocked s' \<and> concat (map start_index sent) = []
    \<and> (snd (apply_episode_stored_events s' stored) \<longrightarrow> \<not> col_start_blocked (fst (apply_episode_stored_events s' stored)))"
proof -
  have "fold (\<lambda>e c. True) es True" for es :: "backpressure_event list" by (induction es) auto
  with assms(1) have "col_start_blocked s" by (auto simp: apply_backpressure_events_def)
  from blocked_commands [OF assms(2) this assms(3)] stored_events_unblock show ?thesis by blast
qed

theorem backpressure_blocks_starts_witness:
  "(case collect_control_events \<lparr>col_lifecycle = EpisodeLifecycle_default, col_start_blocked = True\<rparr> [(Start, 0), (Keep, 1)] 0 of
     (s', sent, changed) \<Rightarrow> col_start_blocked s' \<and> concat (map start_index sent) = [])"
proof -
  let ?s = "\<lparr>col_lifecycle = EpisodeLifecycle_default, col_start_blocked = True\<rparr>"
  obtain s' sent changed where r: "collect_control_events ?s [(Start, 0), (Keep, 1)] 0 = (s', sent, changed)"
    using prod_cases3 by blast
  have "apply_backpressure_events False [\<lparr>bp_process_id = FixedString64_default, bp_queue_name = FixedString64_default\<rparr>]
    = col_start_blocked ?s" by (simp add: apply_backpressure_events_def)
  from backpressure_blocks_starts [OF this r] have "col_start_blocked s' \<and> concat (map start_index sent) = []" by simp
  then show ?thesis unfolding r by (simp only: prod.case)
qed

text \<open>In the idle state a block can not be lifted by the operator: every batch of
  commands leaves the controller exactly as it was and emits nothing, so only a storage or drop
  notice ends the block.\<close>

theorem idle_block_needs_outside_help:
  assumes "lc_state (col_lifecycle s) = Idle" and "col_start_blocked s"
  shows "collect_control_events s commands now = (s, [], False)"
  using assms by (rule idle_blocked_commands)

theorem idle_block_needs_outside_help_witness:
  "collect_control_events \<lparr>col_lifecycle = EpisodeLifecycle_default, col_start_blocked = True\<rparr>
     [(Start, 0), (Discard, 0)] 0 = (\<lparr>col_lifecycle = EpisodeLifecycle_default, col_start_blocked = True\<rparr>, [], False)"
  by (rule idle_block_needs_outside_help) (simp_all add: EpisodeLifecycle_default_def)

end
