(* ===== verification/Annexb.thy ===== *)
theory Annexb
  imports Prelude
begin

unbundle bit_operations_syntax

text \<open>
  The byte-level helpers of \<^verbatim>\<open>encoder/src/annexb.rs\<close>: splitting an Annex B access unit into its
  NAL units, the parameter sets of H.264 and H.265, and the sequence header of an AV1 temporal
  unit with its LEB128 sizes. A byte is a \<open>u8\<close> word, a slice a list.
\<close>

type_synonym bytes = "u8 list"

section \<open>Splitting at start codes\<close>

text \<open>The scan of \<open>split_annex_b_nalus\<close>: the offset and the length of every start code.\<close>

function nalu_starts :: "bytes \<Rightarrow> nat \<Rightarrow> (nat \<times> nat) list" where
  "nalu_starts bs i =
     (if i + 2 < length bs then
        if bs ! i = 0 \<and> bs ! (i + 1) = 0 then
          if bs ! (i + 2) = 1 then (i, 3) # nalu_starts bs (i + 3)
          else if i + 3 < length bs \<and> bs ! (i + 2) = 0 \<and> bs ! (i + 3) = 1
          then (i, 4) # nalu_starts bs (i + 4)
          else nalu_starts bs (i + 1)
        else nalu_starts bs (i + 1)
      else [])"
  by pat_completeness auto
termination by (relation "measure (\<lambda>(bs, i). length bs - i)") auto

declare nalu_starts.simps [simp del]

text \<open>The loop over \<open>starts\<close>: each body runs to the next start code or the end.\<close>

fun nalu_bodies :: "bytes \<Rightarrow> (nat \<times> nat) list \<Rightarrow> bytes list" where
  "nalu_bodies bs [] = []"
| "nalu_bodies bs ((offset, prefix) # starts) =
     (let body_start = offset + prefix;
          body_end = (case starts of [] \<Rightarrow> length bs | (next_offset, _) # _ \<Rightarrow> next_offset)
      in (if body_start \<le> body_end then [take (body_end - body_start) (drop body_start bs)] else [])
         @ nalu_bodies bs starts)"

definition split_annex_b_nalus :: "bytes \<Rightarrow> bytes list" where
  "split_annex_b_nalus bs = nalu_bodies bs (nalu_starts bs 0)"

section \<open>Parameter sets\<close>

definition START4 :: bytes where "START4 = [0, 0, 0, 1]"

definition h264_nal_type :: "bytes \<Rightarrow> u8" where
  "h264_nal_type nalu = hd nalu AND 0x1F"

definition h265_nal_type :: "bytes \<Rightarrow> u8" where
  "h265_nal_type nalu = drop_bit 1 (hd nalu) AND 0x3F"

text \<open>\<open>get_or_insert\<close> in the loop over the non-empty units keeps the first of each type.\<close>

definition first_of_type :: "(bytes \<Rightarrow> u8) \<Rightarrow> u8 \<Rightarrow> bytes list \<Rightarrow> bytes option" where
  "first_of_type nal_type t nalus = find (\<lambda>nalu. nalu \<noteq> [] \<and> nal_type nalu = t) nalus"

definition extract_h264_parameter_sets :: "bytes \<Rightarrow> bytes option" where
  "extract_h264_parameter_sets annex_b =
     (let nalus = split_annex_b_nalus annex_b in
      Option.bind (first_of_type h264_nal_type 7 nalus) (\<lambda>sps.
      Option.bind (first_of_type h264_nal_type 8 nalus) (\<lambda>pps.
        Some (START4 @ sps @ START4 @ pps))))"

definition extract_h265_parameter_sets :: "bytes \<Rightarrow> bytes option" where
  "extract_h265_parameter_sets annex_b =
     (let nalus = split_annex_b_nalus annex_b in
      Option.bind (first_of_type h265_nal_type 32 nalus) (\<lambda>vps.
      Option.bind (first_of_type h265_nal_type 33 nalus) (\<lambda>sps.
      Option.bind (first_of_type h265_nal_type 34 nalus) (\<lambda>pps.
        Some (concat (map (\<lambda>nalu. START4 @ nalu) [vps, sps, pps]))))))"

definition is_h264_keyframe :: "bytes \<Rightarrow> bool" where
  "is_h264_keyframe annex_b =
     list_ex (\<lambda>nalu. nalu \<noteq> [] \<and> h264_nal_type nalu \<in> {5, 7, 8}) (split_annex_b_nalus annex_b)"

section \<open>AV1\<close>

text \<open>The loop of \<open>read_leb128\<close> over at most eight bytes.\<close>

fun leb128_loop :: "u64 \<Rightarrow> nat \<Rightarrow> nat \<Rightarrow> bytes \<Rightarrow> (u64 \<times> nat) option" where
  "leb128_loop val shift idx [] = None"
| "leb128_loop val shift idx (b # bs) =
     (let val' = val OR push_bit shift (ucast (b AND 0x7F)) in
      if b AND 0x80 = 0 then Some (val', idx + 1) else leb128_loop val' (shift + 7) (idx + 1) bs)"

definition read_leb128 :: "bytes \<Rightarrow> (u64 \<times> nat) option" where
  "read_leb128 bs = leb128_loop 0 0 0 (take 8 bs)"

text \<open>One turn of the loop of \<open>extract_av1_sequence_header\<close>: past the header and extension bytes
  and the size, the payload's bounds. \<open>checked_add\<close> fails at the range of \<open>usize\<close>.\<close>

definition obu_payload :: "bytes \<Rightarrow> nat \<Rightarrow> (nat \<times> nat) option" where
  "obu_payload tu i =
     (let header = tu ! i; has_extension = (drop_bit 2 header AND 1 \<noteq> 0); has_size = (drop_bit 1 header AND 1 \<noteq> 0);
          i1 = i + 1
      in if has_extension \<and> i1 \<ge> length tu then None
         else let i2 = (if has_extension then i1 + 1 else i1) in
           Option.bind (if has_size
               then map_option (\<lambda>(len, consumed). (unat len, i2 + consumed)) (read_leb128 (drop i2 tu))
               else Some (length tu - i2, i2))
             (\<lambda>(payload_len, i3).
               if i3 + payload_len \<ge> 2 ^ 64 then None
               else if i3 + payload_len > length tu then None
               else Some (i3, i3 + payload_len)))"

lemma obu_payload_advances: "obu_payload tu i = Some (a, e) \<Longrightarrow> i < a \<and> a \<le> e \<and> e \<le> length tu"
  by (auto simp: obu_payload_def Let_def bind_eq_Some_conv split: if_splits)

function av1_loop :: "bytes \<Rightarrow> nat \<Rightarrow> bytes option" where
  "av1_loop tu i =
     (if i < length tu then
        (case obu_payload tu i of
           None \<Rightarrow> None
         | Some (payload_start, payload_end) \<Rightarrow>
             if drop_bit 3 (tu ! i) AND 0x0F = 1
             then Some (take (payload_end - payload_start) (drop payload_start tu))
             else av1_loop tu payload_end)
      else None)"
  by pat_completeness auto
termination
  by (relation "measure (\<lambda>(tu, i). length tu - i)") (auto dest: obu_payload_advances)

declare av1_loop.simps [simp del]

definition extract_av1_sequence_header :: "bytes \<Rightarrow> bytes option" where
  "extract_av1_sequence_header tu = av1_loop tu 0"

section \<open>The scan, on lists\<close>

fun scan :: "nat \<Rightarrow> bytes \<Rightarrow> (nat \<times> nat) list" where
  "scan i (a # b # c # r) =
     (if a = 0 \<and> b = 0 then
        if c = 1 then (i, 3) # scan (i + 3) r
        else (case r of
            d # r' \<Rightarrow> if c = 0 \<and> d = 1 then (i, 4) # scan (i + 4) r' else scan (i + 1) (b # c # r)
          | [] \<Rightarrow> scan (i + 1) (b # c # r))
      else scan (i + 1) (b # c # r))"
| "scan i _ = []"

lemma scan_short: "length bs < 3 \<Longrightarrow> scan i bs = []"
  by (cases "(i, bs)" rule: scan.cases) auto

lemma drop_three: "i + 2 < length bs \<Longrightarrow> drop i bs = bs ! i # bs ! (i + 1) # bs ! (i + 2) # drop (i + 3) bs"
  using Cons_nth_drop_Suc [of i bs] Cons_nth_drop_Suc [of "i + 1" bs] Cons_nth_drop_Suc [of "i + 2" bs]
  by (simp add: numeral_eq_Suc)

lemma scan_drop:
  assumes "i + 2 < length bs"
  shows "scan i (drop i bs) =
     (if bs ! i = 0 \<and> bs ! (i + 1) = 0 then
        if bs ! (i + 2) = 1 then (i, 3) # scan (i + 3) (drop (i + 3) bs)
        else if i + 3 < length bs \<and> bs ! (i + 2) = 0 \<and> bs ! (i + 3) = 1
        then (i, 4) # scan (i + 4) (drop (i + 4) bs)
        else scan (i + 1) (drop (i + 1) bs)
      else scan (i + 1) (drop (i + 1) bs))"
proof -
  have tail: "drop (i + 1) bs = bs ! (i + 1) # bs ! (i + 2) # drop (i + 3) bs"
    using drop_three [OF assms] by (metis Suc_eq_plus1 drop_Suc list.sel(3) tl_drop)
  show ?thesis
  proof (cases "i + 3 < length bs")
    case True
    then have four: "drop (i + 3) bs = bs ! (i + 3) # drop (i + 4) bs"
      using Cons_nth_drop_Suc [of "i + 3" bs] by (simp add: numeral_eq_Suc)
    show ?thesis
      using True by (subst drop_three [OF assms], subst scan.simps(1)) (simp only: four tail list.case simp_thms if_True if_False)
  next
    case False
    then have four: "drop (i + 3) bs = []" by simp
    show ?thesis
      using False by (subst drop_three [OF assms], subst scan.simps(1)) (simp only: four tail list.case simp_thms if_True if_False)
  qed
qed

lemma nalu_starts_scan: "nalu_starts bs i = scan i (drop i bs)"
proof (induction bs i rule: nalu_starts.induct)
  case (1 bs i)
  show ?case
  proof (cases "i + 2 < length bs")
    case False
    then show ?thesis by (subst nalu_starts.simps) (simp add: scan_short)
  next
    case True
    show ?thesis
      using 1 True
      by (subst nalu_starts.simps, subst scan_drop [OF True]) (simp del: One_nat_def drop_drop)
  qed
qed

text \<open>A stretch of bytes with no start code in it.\<close>

fun start_free :: "bytes \<Rightarrow> bool" where
  "start_free (a # b # c # r) \<longleftrightarrow> \<not> (a = 0 \<and> b = 0 \<and> c = 1) \<and> start_free (b # c # r)"
| "start_free _ \<longleftrightarrow> True"

lemma start_free_tl: "start_free (a # r) \<Longrightarrow> start_free r"
  by (cases "a # r" rule: start_free.cases) auto

lemma start_free_append: "start_free (xs @ ys) \<Longrightarrow> start_free xs"
proof (induction xs rule: start_free.induct)
  case (1 a b c r)
  then show ?case by simp
qed auto

lemma start_free_take: "start_free bs \<Longrightarrow> start_free (take n bs)"
  by (metis append_take_drop_id start_free_append)

text \<open>An access unit as its NAL units, each with the length of its start code.\<close>

type_synonym nal_unit = "bool \<times> bytes"

definition framed :: "nal_unit \<Rightarrow> bytes" where
  "framed u = (if fst u then START4 else [0, 0, 1]) @ snd u"

lemma framed_simps [simp]: "framed (True, nal) = 0 # 0 # 0 # 1 # nal" "framed (False, nal) = 0 # 0 # 1 # nal"
  by (auto simp: framed_def START4_def)

text \<open>A three-byte start code after a zero byte would read as a four-byte one.\<close>

fun spaced :: "bytes \<Rightarrow> nal_unit list \<Rightarrow> bool" where
  "spaced prev [] \<longleftrightarrow> True"
| "spaced prev ((long, nal) # units) \<longleftrightarrow>
     (long \<or> prev = [] \<or> last prev \<noteq> 0) \<and> start_free nal \<and> spaced nal units"

fun starts_of :: "nat \<Rightarrow> nal_unit list \<Rightarrow> (nat \<times> nat) list" where
  "starts_of i [] = []"
| "starts_of i ((long, nal) # units) =
     (let n = if long then 4 else 3 in (i, n) # starts_of (i + n + length nal) units)"

lemma scan_start_free: "start_free nal \<Longrightarrow> scan i nal = []"
proof (induction nal arbitrary: i rule: start_free.induct)
  case (1 a b c r)
  then show ?case by (cases r) auto
qed auto

lemma scan_long: "start_free nal \<Longrightarrow>
  scan i (nal @ 0 # 0 # 0 # 1 # r) = (i + length nal, 4) # scan (i + length nal + 4) r"
proof (induction nal arbitrary: i rule: start_free.induct)
  case (1 a b c s)
  then show ?case by (cases s) auto
qed auto

lemma scan_short_code: "start_free nal \<Longrightarrow> nal = [] \<or> last nal \<noteq> 0 \<Longrightarrow>
  scan i (nal @ 0 # 0 # 1 # r) = (i + length nal, 3) # scan (i + length nal + 3) r"
proof (induction nal arbitrary: i rule: start_free.induct)
  case (1 a b c s)
  then show ?case by (cases s) auto
qed auto

lemma scan_units:
  "start_free nal \<Longrightarrow> spaced nal units \<Longrightarrow>
   scan i (nal @ concat (map framed units)) = starts_of (i + length nal) units"
proof (induction units arbitrary: nal i)
  case Nil
  then show ?case by (simp add: scan_start_free)
next
  case (Cons u units)
  obtain long m where u: "u = (long, m)" by (cases u)
  from Cons.prems u have "start_free m" and "spaced m units" by auto
  note IH = Cons.IH [OF this]
  show ?case
    using Cons.prems IH by (cases long) (auto simp: u scan_long scan_short_code ac_simps)
qed

lemma nalu_bodies_units:
  "drop i bs = concat (map framed units) \<Longrightarrow> i \<le> length bs \<Longrightarrow> nalu_bodies bs (starts_of i units) = map snd units"
proof (induction units arbitrary: i)
  case Nil
  then show ?case by simp
next
  case (Cons u units)
  obtain long nal where u: "u = (long, nal)" by (cases u)
  define n where "n = (if long then 4 else 3 :: nat)"
  have rest: "drop (i + n) bs = nal @ concat (map framed units)"
    using arg_cong [OF Cons.prems(1), of "drop n"] by (cases long) (auto simp: u n_def add.commute)
  then have next_: "drop (i + n + length nal) bs = concat (map framed units)"
    by (metis add.commute append_eq_conv_conj drop_drop)
  have len: "length bs = i + n + length nal + length (concat (map framed units))"
    using arg_cong [OF Cons.prems(1), of length] Cons.prems(2)
    by (cases long) (auto simp: u n_def simp del: length_concat)
  have bodies: "nalu_bodies bs (starts_of (i + n + length nal) units) = map snd units"
    using Cons.IH [OF next_] len by simp
  show ?case
  proof (cases units)
    case Nil
    with rest len bodies show ?thesis by (simp add: u Let_def n_def [symmetric])
  next
    case (Cons v vs)
    with rest bodies show ?thesis by (cases v) (simp add: u Let_def n_def [symmetric])
  qed
qed

theorem split_units:
  assumes "start_free junk" and "spaced junk units"
  shows "split_annex_b_nalus (junk @ concat (map framed units)) = map snd units"
  using assms by (simp add: split_annex_b_nalus_def nalu_starts_scan scan_units nalu_bodies_units)

text \<open>Every slice is of this form, so the bodies have no start code in them.\<close>

lemma units_exist: "\<exists>junk units. bs = junk @ concat (map framed units) \<and> start_free junk \<and> spaced junk units"
proof (induction bs rule: length_induct)
  case (1 bs)
  consider (long) r where "bs = 0 # 0 # 0 # 1 # r" | (short) r where "bs = 0 # 0 # 1 # r"
    | (shift) a r where "bs = a # r" and "\<nexists>r'. bs = 0 # 0 # 0 # 1 # r'" and "\<nexists>r'. bs = 0 # 0 # 1 # r'" | (Nil) "bs = []"
    by (cases bs) auto
  then show ?case
  proof cases
    case long
    then obtain junk units where "r = junk @ concat (map framed units)" "start_free junk" "spaced junk units"
      using 1 [rule_format, of r] by auto
    with long show ?thesis by (intro exI [of _ "[]"] exI [of _ "(True, junk) # units"]) simp
  next
    case short
    then obtain junk units where "r = junk @ concat (map framed units)" "start_free junk" "spaced junk units"
      using 1 [rule_format, of r] by auto
    with short show ?thesis by (intro exI [of _ "[]"] exI [of _ "(False, junk) # units"]) simp
  next
    case shift
    then obtain junk units where r: "r = junk @ concat (map framed units)" and "start_free junk" and sp: "spaced junk units"
      using 1 [rule_format, of r] by auto
    with shift have free: "start_free (a # junk)" by (cases "a # junk" rule: start_free.cases) auto
    have "spaced (a # junk) units"
    proof (cases units)
      case (Cons u us)
      then obtain long nal where "u = (long, nal)" by (cases u)
      with Cons shift r sp show ?thesis by (cases long; cases junk) auto
    qed simp
    with free shift r show ?thesis by (intro exI [of _ "a # junk"] exI [of _ units]) simp
  next
    case Nil
    then show ?thesis by (intro exI [of _ "[]"]) simp
  qed
qed

lemma spaced_start_free: "spaced prev units \<Longrightarrow> nal \<in> set (map snd units) \<Longrightarrow> start_free nal"
  by (induction prev units rule: spaced.induct) auto

lemma split_bodies_free: "nal \<in> set (split_annex_b_nalus bs) \<Longrightarrow> start_free nal"
  using units_exist [of bs] split_units spaced_start_free by metis

lemma split_long: "list_all start_free nals \<Longrightarrow> split_annex_b_nalus (concat (map (\<lambda>nal. START4 @ nal) nals)) = nals"
proof -
  assume free: "list_all start_free nals"
  have "spaced prev (map (Pair True) nals)" for prev
    using free by (induction nals arbitrary: prev) auto
  moreover have "map framed (map (Pair True) nals) = map (\<lambda>nal. START4 @ nal) nals"
    by (simp add: START4_def)
  ultimately show ?thesis
    using split_units [of "[]" "map (Pair True) nals"] by (simp add: comp_def START4_def)
qed

section \<open>Parameter sets are a fixed point\<close>

lemma first_of_type_Some:
  "first_of_type ty t nals = Some nal \<Longrightarrow> nal \<in> set nals \<and> nal \<noteq> [] \<and> ty nal = t"
  by (auto simp: first_of_type_def find_Some_iff)

lemma h264_parameter_sets:
  assumes "extract_h264_parameter_sets au = Some ps"
  shows "(\<exists>sps pps. first_of_type h264_nal_type 7 (split_annex_b_nalus au) = Some sps
            \<and> first_of_type h264_nal_type 8 (split_annex_b_nalus au) = Some pps
            \<and> split_annex_b_nalus ps = [sps, pps])
         \<and> extract_h264_parameter_sets ps = Some ps \<and> is_h264_keyframe au \<and> is_h264_keyframe ps"
proof -
  let ?nals = "split_annex_b_nalus au"
  from assms obtain sps pps where s: "first_of_type h264_nal_type 7 ?nals = Some sps"
    and p: "first_of_type h264_nal_type 8 ?nals = Some pps" and ps: "ps = START4 @ sps @ START4 @ pps"
    by (auto simp: extract_h264_parameter_sets_def Let_def bind_eq_Some_conv)
  note sps = first_of_type_Some [OF s] and pps = first_of_type_Some [OF p]
  have split: "split_annex_b_nalus ps = [sps, pps]"
    using split_long [of "[sps, pps]"] sps pps split_bodies_free by (auto simp: ps)
  then have "extract_h264_parameter_sets ps = Some ps"
    using sps pps by (simp add: extract_h264_parameter_sets_def first_of_type_def ps)
  moreover have "is_h264_keyframe au" using sps by (auto simp: is_h264_keyframe_def list_ex_iff)
  moreover have "is_h264_keyframe ps" using sps split by (simp add: is_h264_keyframe_def)
  ultimately show ?thesis using s p split by blast
qed

lemma h265_parameter_sets:
  assumes "extract_h265_parameter_sets au = Some ps"
  shows "(\<exists>vps sps pps. split_annex_b_nalus ps = [vps, sps, pps]
            \<and> set [vps, sps, pps] \<subseteq> set (split_annex_b_nalus au)
            \<and> map h265_nal_type [vps, sps, pps] = [32, 33, 34])
         \<and> extract_h265_parameter_sets ps = Some ps"
proof -
  let ?nals = "split_annex_b_nalus au"
  from assms obtain vps sps pps where v: "first_of_type h265_nal_type 32 ?nals = Some vps"
    and s: "first_of_type h265_nal_type 33 ?nals = Some sps"
    and p: "first_of_type h265_nal_type 34 ?nals = Some pps"
    and ps: "ps = concat (map (\<lambda>nalu. START4 @ nalu) [vps, sps, pps])"
    by (auto simp: extract_h265_parameter_sets_def Let_def bind_eq_Some_conv)
  note vps = first_of_type_Some [OF v] and sps = first_of_type_Some [OF s] and pps = first_of_type_Some [OF p]
  have split: "split_annex_b_nalus ps = [vps, sps, pps]"
    using split_long [of "[vps, sps, pps]"] vps sps pps split_bodies_free by (auto simp: ps)
  then have "extract_h265_parameter_sets ps = Some ps"
    using vps sps pps by (simp add: extract_h265_parameter_sets_def first_of_type_def ps)
  with split vps sps pps show ?thesis by auto
qed

section \<open>LEB128 and OBU framing\<close>

text \<open>The reference encoders: little-endian groups of seven bits, and an OBU with its size field.\<close>

fun leb128 :: "nat \<Rightarrow> bytes" where
  "leb128 n = (if n < 128 then [word_of_nat n] else (word_of_nat (n mod 128) OR 0x80) # leb128 (n div 128))"

declare leb128.simps [simp del]

lemma septet_bit: "n < 128 \<Longrightarrow> bit n k \<Longrightarrow> k < 7" for n :: nat
proof -
  assume "n < 128" and "bit n k"
  then have "take_bit 7 n = n" by (simp add: take_bit_nat_eq_self_iff)
  with \<open>bit n k\<close> show "k < 7" by (metis bit_take_bit_iff)
qed

lemma septet_masks: "bit (0x7F :: u8) k \<longleftrightarrow> k < 7" "bit (0x80 :: u8) k \<longleftrightarrow> k = 7"
proof -
  have "(0x7F :: u8) = mask 7" by (simp add: mask_eq_exp_minus_1)
  then show "bit (0x7F :: u8) k \<longleftrightarrow> k < 7" by (simp only: bit_mask_iff) auto
  have "(0x80 :: u8) = 2 ^ 7" by simp
  then show "bit (0x80 :: u8) k \<longleftrightarrow> k = 7" by (simp only: bit_exp_iff) auto
qed

lemma septet_bytes:
  assumes "n < 128"
  shows "(word_of_nat n :: u8) AND 0x7F = word_of_nat n" and "(word_of_nat n :: u8) AND 0x80 = 0"
    and "((word_of_nat n :: u8) OR 0x80) AND 0x80 \<noteq> 0"
    and "((word_of_nat n :: u8) OR 0x80) AND 0x7F = word_of_nat n"
    and "(ucast (word_of_nat n :: u8) :: u64) = word_of_nat n"
proof -
  note b = septet_bit [OF assms]
  show "(word_of_nat n :: u8) AND 0x7F = word_of_nat n"
    by (rule bit_word_eqI, simp only: bit_and_iff bit_or_iff septet_masks) (auto simp: bit_simps dest: b)
  show "(word_of_nat n :: u8) AND 0x80 = 0"
    by (rule bit_word_eqI, simp only: bit_and_iff bit_or_iff septet_masks) (auto simp: bit_simps dest: b)
  show "((word_of_nat n :: u8) OR 0x80) AND 0x7F = word_of_nat n"
    by (rule bit_word_eqI, simp only: bit_and_iff bit_or_iff septet_masks) (auto simp: bit_simps dest: b)
  have "bit (((word_of_nat n :: u8) OR 0x80) AND 0x80) 7"
    by (simp only: bit_and_iff bit_or_iff septet_masks) simp
  then show "((word_of_nat n :: u8) OR 0x80) AND 0x80 \<noteq> 0" by force
  show "(ucast (word_of_nat n :: u8) :: u64) = word_of_nat n"
    by (rule bit_word_eqI) (auto simp: bit_simps dest: b)
qed

lemma septet_join:
  "(word_of_nat n :: u64) = word_of_nat (n mod 128) OR push_bit 7 (word_of_nat (n div 128))"
proof (rule bit_word_eqI)
  fix k assume "k < LENGTH(64)"
  have "n mod 128 = take_bit 7 n" "n div 128 = drop_bit 7 n"
    by (simp_all add: take_bit_eq_mod drop_bit_eq_div)
  then show "bit (word_of_nat n :: u64) k = bit (word_of_nat (n mod 128) OR push_bit 7 (word_of_nat (n div 128)) :: u64) k"
    using \<open>k < _\<close> by (auto simp: bit_simps)
qed

lemma leb128_loop_reads:
  "n < 2 ^ (7 * k) \<Longrightarrow> 0 < k \<Longrightarrow>
   leb128_loop v shift idx (take k (leb128 n @ rest)) = Some (v OR push_bit shift (word_of_nat n), idx + length (leb128 n))"
proof (induction k arbitrary: n v shift idx)
  case 0
  then show ?case by simp
next
  case (Suc k)
  show ?case
  proof (cases "n < 128")
    case True
    then show ?thesis by (simp add: leb128.simps [of n] septet_bytes)
  next
    case False
    define q r where "q = n div 128" and "r = n mod 128"
    have r: "r < 128" by (simp add: r_def)
    have "0 < k" using Suc.prems False by (cases k) auto
    moreover have "q < 2 ^ (7 * k)"
      using Suc.prems(1) by (simp add: q_def power_add less_mult_imp_div_less mult.commute)
    ultimately have "leb128_loop (v OR push_bit shift (word_of_nat r)) (shift + 7) (idx + 1) (take k (leb128 q @ rest))
      = Some ((v OR push_bit shift (word_of_nat r)) OR push_bit (shift + 7) (word_of_nat q), idx + 1 + length (leb128 q))"
      using Suc.IH by blast
    moreover have "v OR push_bit shift (word_of_nat n :: u64)
        = (v OR push_bit shift (word_of_nat r)) OR push_bit (shift + 7) (word_of_nat q)"
      by (subst septet_join) (simp add: q_def r_def push_bit_or or.assoc add.commute flip: push_bit_push_bit)
    ultimately show ?thesis
      using False septet_bytes [of r, OF r] by (simp add: leb128.simps [of n] r_def [symmetric] q_def [symmetric] Let_def)
  qed
qed

lemma read_leb128_leb128:
  "n < 2 ^ 56 \<Longrightarrow> read_leb128 (leb128 n @ rest) = Some (word_of_nat n, length (leb128 n))"
  using leb128_loop_reads [of n 8 0 0 0 rest] by (simp add: read_leb128_def)

text \<open>An OBU with a size field: its type, its extension byte and its payload.\<close>

record obu =
  obu_type :: nat
  obu_extension :: "u8 option"
  obu_bytes :: bytes

definition obu_header :: "obu \<Rightarrow> u8" where
  "obu_header u = word_of_nat (8 * obu_type u + (if obu_extension u = None then 0 else 4) + 2)"

definition encode_obu :: "obu \<Rightarrow> bytes" where
  "encode_obu u = obu_header u # (case obu_extension u of None \<Rightarrow> [] | Some e \<Rightarrow> [e])
     @ leb128 (length (obu_bytes u)) @ obu_bytes u"

lemma obu_header_fields:
  assumes "obu_type u < 16"
  shows "drop_bit 3 (obu_header u) AND 0x0F = word_of_nat (obu_type u)"
    and "drop_bit 2 (obu_header u) AND 1 = (if obu_extension u = None then 0 else 1)"
    and "drop_bit 1 (obu_header u) AND 1 \<noteq> 0"
proof -
  have "obu_type u \<in> set [0..<16]" using assms by simp
  then have cases: "obu_type u = 0 \<or> obu_type u = 1 \<or> obu_type u = 2 \<or> obu_type u = 3 \<or> obu_type u = 4
     \<or> obu_type u = 5 \<or> obu_type u = 6 \<or> obu_type u = 7 \<or> obu_type u = 8 \<or> obu_type u = 9 \<or> obu_type u = 10
     \<or> obu_type u = 11 \<or> obu_type u = 12 \<or> obu_type u = 13 \<or> obu_type u = 14 \<or> obu_type u = 15"
    by (simp add: upt_rec numeral_eq_Suc)
  show "drop_bit 3 (obu_header u) AND 0x0F = word_of_nat (obu_type u)"
    using cases by (elim disjE) (simp_all add: obu_header_def)
  show "drop_bit 2 (obu_header u) AND 1 = (if obu_extension u = None then 0 else 1)"
    using cases by (elim disjE) (simp_all add: obu_header_def)
  show "drop_bit 1 (obu_header u) AND 1 \<noteq> 0"
    using cases by (elim disjE) (simp_all add: obu_header_def)
qed

lemma encode_obu_head: "drop i tu = encode_obu u @ rest \<Longrightarrow> i < length tu \<and> tu ! i = obu_header u"
  by (cases "i < length tu") (auto simp: encode_obu_def intro: nth_via_drop)

lemma obu_payload_encoded:
  assumes tu: "drop i tu = encode_obu u @ rest" and "obu_type u < 16" and "length tu < 2 ^ 56"
  shows "\<exists>a. obu_payload tu i = Some (a, a + length (obu_bytes u))
    \<and> take (length (obu_bytes u)) (drop a tu) = obu_bytes u \<and> drop (a + length (obu_bytes u)) tu = rest"
proof -
  let ?p = "obu_bytes u" and ?size = "leb128 (length (obu_bytes u))"
  define i2 where "i2 = (if obu_extension u = None then i + 1 else i + 2)"
  define a where "a = i2 + length ?size"
  note i = encode_obu_head [OF tu, THEN conjunct1] and head = encode_obu_head [OF tu, THEN conjunct2]
  have d2: "drop i2 tu = ?size @ ?p @ rest"
  proof (cases "obu_extension u")
    case None
    then show ?thesis using arg_cong [OF tu, of "drop 1"] by (simp add: i2_def encode_obu_def add.commute)
  next
    case (Some e)
    then show ?thesis using arg_cong [OF tu, of "drop 2"] by (simp add: i2_def encode_obu_def add.commute)
  qed
  have da: "drop a tu = ?p @ rest"
    using arg_cong [OF d2, of "drop (length ?size)"] by (simp add: a_def add.commute)
  have "length tu - i = length (encode_obu u @ rest)" using tu by (metis length_drop)
  then have len: "length tu = a + length ?p + length rest"
    using i by (auto simp: encode_obu_def a_def i2_def split: option.splits)
  have read: "read_leb128 (drop i2 tu) = Some (word_of_nat (length ?p), length ?size)"
    unfolding d2 using len assms(3) by (intro read_leb128_leb128) simp
  have small: "unat (word_of_nat (length ?p) :: u64) = length ?p"
    using len assms(3) by (simp add: unat_of_nat)
  have ext: "\<not> (obu_extension u \<noteq> None \<and> i + 1 \<ge> length tu)"
    using len by (cases "obu_extension u") (auto simp: a_def i2_def)
  have "obu_payload tu i = Some (a, a + length ?p)"
    using ext read small len assms(3) obu_header_fields [OF assms(2)]
    by (cases "obu_extension u") (simp_all add: obu_payload_def Let_def head i2_def a_def)
  moreover have "drop (a + length ?p) tu = rest"
    using arg_cong [OF da, of "drop (length ?p)"] by (simp add: add.commute)
  ultimately show ?thesis using da by (intro exI [of _ a]) simp
qed

lemma av1_loop_encoded:
  "drop i tu = concat (map encode_obu obus) \<Longrightarrow> list_all (\<lambda>u. obu_type u < 16) obus \<Longrightarrow> length tu < 2 ^ 56 \<Longrightarrow>
   av1_loop tu i = map_option obu_bytes (find (\<lambda>u. obu_type u = 1) obus)"
proof (induction obus arbitrary: i)
  case Nil
  then show ?case by (subst av1_loop.simps) simp
next
  case (Cons u obus)
  from Cons.prems obtain a where pay: "obu_payload tu i = Some (a, a + length (obu_bytes u))"
    and bytes: "take (length (obu_bytes u)) (drop a tu) = obu_bytes u"
    and rest: "drop (a + length (obu_bytes u)) tu = concat (map encode_obu obus)"
    using obu_payload_encoded [of i tu u "concat (map encode_obu obus)"] by auto
  have "drop i tu = encode_obu u @ concat (map encode_obu obus)" using Cons.prems(1) by simp
  from encode_obu_head [OF this] have i: "i < length tu" and head: "tu ! i = obu_header u" by auto
  have one: "(word_of_nat (obu_type u) :: u8) = 1 \<longleftrightarrow> obu_type u = 1"
    using word_of_nat_eq_iff [where ?'a = 8, of "obu_type u" 1] Cons.prems(2) by (simp add: take_bit_nat_eq_self)
  show ?case
    using i pay bytes rest Cons head one obu_header_fields(1) [of u]
    by (subst av1_loop.simps) simp
qed

theorem av1_sequence_header_found:
  assumes "list_all (\<lambda>u. obu_type u < 16) obus" and "length (concat (map encode_obu obus)) < 2 ^ 56"
  shows "extract_av1_sequence_header (concat (map encode_obu obus))
           = map_option obu_bytes (find (\<lambda>u. obu_type u = 1) obus)"
  using assms av1_loop_encoded [of 0] by (simp add: extract_av1_sequence_header_def)

section \<open>Properties\<close>

text \<open>C37: the Annex B splitter returns exactly the units of a byte stream: every byte string is
  a start-free prefix followed by framed units, and for each such reading the splitter returns the
  bodies of the units, in order.\<close>

theorem annexb_units_recovered:
  "(\<exists>junk units. bs = junk @ concat (map framed units) \<and> start_free junk \<and> spaced junk units)
   \<and> (\<forall>junk units. bs = junk @ concat (map framed units) \<and> start_free junk \<and> spaced junk units
        \<longrightarrow> split_annex_b_nalus bs = map snd units)"
  using units_exist split_units by blast

theorem annexb_units_recovered_witness:
  "split_annex_b_nalus (concat (map framed [(True, [0x67, 0x42]), (False, [0x68])])) = [[0x67, 0x42], [0x68]]"
proof -
  let ?units = "[(True, [0x67, 0x42]), (False, [0x68 :: 8 word])]"
  have "start_free []" "spaced [] ?units" by code_simp+
  moreover from annexb_units_recovered [of "concat (map framed ?units)"]
  have "concat (map framed ?units) = [] @ concat (map framed ?units) \<and> start_free [] \<and> spaced [] ?units
    \<longrightarrow> split_annex_b_nalus (concat (map framed ?units)) = map snd ?units" by blast
  ultimately show ?thesis by simp
qed

text \<open>The parameter sets extracted from an H.264 access unit are the first SPS and
  PPS of the unit, they are again a well-formed access unit from which the same sets are
  extracted, and both count as keyframes.\<close>

theorem parameter_sets_self_contained:
  assumes "extract_h264_parameter_sets au = Some ps"
  shows "(\<exists>sps pps. first_of_type h264_nal_type 7 (split_annex_b_nalus au) = Some sps
            \<and> first_of_type h264_nal_type 8 (split_annex_b_nalus au) = Some pps
            \<and> split_annex_b_nalus ps = [sps, pps])
         \<and> extract_h264_parameter_sets ps = Some ps \<and> is_h264_keyframe au \<and> is_h264_keyframe ps"
  using assms by (rule h264_parameter_sets)

theorem parameter_sets_self_contained_witness:
  "extract_h264_parameter_sets [0, 0, 0, 1, 0x67, 1, 0, 0, 0, 1, 0x68, 2] = Some [0, 0, 0, 1, 0x67, 1, 0, 0, 0, 1, 0x68, 2]
   \<and> is_h264_keyframe [0, 0, 0, 1, 0x67, 1, 0, 0, 1, 0x68, 2]"
proof -
  have "extract_h264_parameter_sets [0, 0, 0, 1, 0x67, 1, 0, 0, 1, 0x68, 2] = Some [0, 0, 0, 1, 0x67, 1, 0, 0, 0, 1, 0x68, 2]"
    by code_simp
  from parameter_sets_self_contained [OF this] show ?thesis by blast
qed

text \<open>C38: in a temporal unit made of encoded OBUs the extractor returns the bytes of the first
  sequence header, and nothing when there is none.\<close>

theorem sequence_header_found:
  assumes "list_all (\<lambda>u. obu_type u < 16) obus" and "length (concat (map encode_obu obus)) < 2 ^ 56"
  shows "extract_av1_sequence_header (concat (map encode_obu obus))
           = map_option obu_bytes (find (\<lambda>u. obu_type u = 1) obus)"
  using assms by (rule av1_sequence_header_found)

theorem sequence_header_found_witness:
  "extract_av1_sequence_header (encode_obu \<lparr>obu_type = 2, obu_extension = None, obu_bytes = []\<rparr>
     @ encode_obu \<lparr>obu_type = 1, obu_extension = None, obu_bytes = [7, 8]\<rparr>) = Some [7, 8]"
  using sequence_header_found [of "[\<lparr>obu_type = 2, obu_extension = None, obu_bytes = []\<rparr>,
      \<lparr>obu_type = 1, obu_extension = None, obu_bytes = [7, 8]\<rparr>]"]
  by (simp add: encode_obu_def leb128.simps)

end
