(* ===== verification/Packet_Stream.thy ===== *)
theory Packet_Stream
  imports Messages Config_Runtime Annexb
begin

text \<open>
  The packet buffers of the two assemblers: \<open>RecordingStreamBuffer\<close> of
  \<^verbatim>\<open>episode-lerobot/src/packets.rs\<close> and \<open>CameraStreamBuffer\<close> of \<^verbatim>\<open>episode-mcap/src/runtime.rs\<close>.
  Both wait for a keyframe, then demand consecutive sequence numbers; what they promise is the
  locale \<open>stream_buffer\<close>, interpreted on each. The overflow of \<open>last + 1\<close> at the last sequence
  number wraps, as in a release build.
\<close>

section \<open>LeRobot: RecordingStreamBuffer\<close>

fun codec_from_id :: "encoded_codec_id \<Rightarrow> encoder_codec" where
  "codec_from_id CodecId_H264 = H264"
| "codec_from_id CodecId_H265 = H265"
| "codec_from_id CodecId_Av1 = Av1"
| "codec_from_id CodecId_Rvl = Rvl"
| "codec_from_id CodecId_Mjpg = Mjpg"

record encoded_stream_config =
  esc_codec :: encoder_codec
  esc_width :: u32
  esc_height :: u32
  esc_pixel_format :: pixel_format
  esc_time_base_num :: u32
  esc_time_base_den :: u32
  esc_extradata :: bytes

definition EncodedStreamConfig_from_header :: "encoded_packet_header \<Rightarrow> bytes \<Rightarrow> encoded_stream_config" where
  "EncodedStreamConfig_from_header header extradata =
     \<lparr>esc_codec = codec_from_id (eph_codec header), esc_width = eph_width header,
      esc_height = eph_height header, esc_pixel_format = eph_pixel_format header,
      esc_time_base_num = eph_time_base_num header, esc_time_base_den = eph_time_base_den header,
      esc_extradata = extradata\<rparr>"

text \<open>A received packet: its header and its payload.\<close>

type_synonym packet = "encoded_packet_header \<times> bytes"

datatype stream_error = SequenceError (expected: u64) (actual: u64) | ConfigChanged encoder_codec encoder_codec

record recording_stream_buffer =
  rsb_config :: "encoded_stream_config option"
  rsb_packets :: "packet list"
  rsb_eos_received :: bool
  rsb_failed :: "stream_error option"
  rsb_seen_keyframe :: bool
  rsb_last_sequence :: "u64 option"

definition RecordingStreamBuffer_default :: recording_stream_buffer where
  "RecordingStreamBuffer_default = \<lparr>rsb_config = None, rsb_packets = [], rsb_eos_received = False,
     rsb_failed = None, rsb_seen_keyframe = False, rsb_last_sequence = None\<rparr>"

definition update_sequence :: "u64 \<Rightarrow> recording_stream_buffer \<Rightarrow> (recording_stream_buffer, stream_error) result" where
  "update_sequence seq b =
     (case rsb_last_sequence b of
        None \<Rightarrow> Ok (b\<lparr>rsb_last_sequence := Some seq\<rparr>)
      | Some prev \<Rightarrow> if seq = prev + 1 then Ok (b\<lparr>rsb_last_sequence := Some seq\<rparr>)
                     else Err (SequenceError (prev + 1) seq))"

definition observe_config :: "encoded_packet_header \<Rightarrow> bytes \<Rightarrow> recording_stream_buffer \<Rightarrow> recording_stream_buffer" where
  "observe_config header extradata b =
     (if rsb_failed b \<noteq> None then b
      else case update_sequence (eph_sequence_number header) b of
        Err e \<Rightarrow> b\<lparr>rsb_failed := Some e\<rparr>
      | Ok b' \<Rightarrow>
          let new_config = EncodedStreamConfig_from_header header extradata in
          case rsb_config b' of
            Some existing \<Rightarrow>
              if existing \<noteq> new_config
              then b'\<lparr>rsb_failed := Some (ConfigChanged (esc_codec existing) (esc_codec new_config))\<rparr>
              else b'\<lparr>rsb_config := Some new_config\<rparr>
          | None \<Rightarrow> b'\<lparr>rsb_config := Some new_config\<rparr>)"

definition observe_packet :: "encoded_packet_header \<Rightarrow> bytes \<Rightarrow> recording_stream_buffer \<Rightarrow> recording_stream_buffer" where
  "observe_packet header payload b =
     (if rsb_failed b \<noteq> None then b
      else if \<not> rsb_seen_keyframe b \<and> \<not> is_keyframe header then b
      else let b = b\<lparr>rsb_seen_keyframe := True\<rparr> in
        case update_sequence (eph_sequence_number header) b of
          Err e \<Rightarrow> b\<lparr>rsb_failed := Some e\<rparr>
        | Ok b' \<Rightarrow> b'\<lparr>rsb_packets := rsb_packets b' @ [(header, payload)]\<rparr>)"

definition observe_eos :: "encoded_packet_header \<Rightarrow> recording_stream_buffer \<Rightarrow> recording_stream_buffer" where
  "observe_eos header b =
     (if rsb_failed b \<noteq> None then b
      else case update_sequence (eph_sequence_number header) b of
        Err e \<Rightarrow> b\<lparr>rsb_failed := Some e\<rparr>
      | Ok b' \<Rightarrow> b'\<lparr>rsb_eos_received := True\<rparr>)"

definition is_complete :: "recording_stream_buffer \<Rightarrow> bool" where
  "is_complete b \<longleftrightarrow> rsb_failed b = None \<and> rsb_eos_received b \<and> rsb_seen_keyframe b"

section \<open>MCAP: CameraStreamBuffer\<close>

record camera_packet =
  cp_timestamp_us :: u64
  cp_data :: bytes

record camera_stream_buffer =
  csb_packets :: "camera_packet list"
  csb_seen_keyframe :: bool
  csb_eos_received :: bool
  csb_expected_seq :: u64
  csb_failed :: "stream_error option"

definition CameraStreamBuffer_default :: camera_stream_buffer where
  "CameraStreamBuffer_default = \<lparr>csb_packets = [], csb_seen_keyframe = False, csb_eos_received = False,
     csb_expected_seq = 0, csb_failed = None\<rparr>"

definition camera_observe_packet :: "encoded_packet_header \<Rightarrow> bytes \<Rightarrow> camera_stream_buffer \<Rightarrow> camera_stream_buffer" where
  "camera_observe_packet header payload b =
     (if csb_failed b \<noteq> None then b
      else if \<not> csb_seen_keyframe b \<and> \<not> is_keyframe header then b
      else let b = b\<lparr>csb_seen_keyframe := True\<rparr> in
        if eph_sequence_number header \<noteq> csb_expected_seq b \<and> csb_expected_seq b \<noteq> 0
        then b\<lparr>csb_failed := Some (SequenceError (csb_expected_seq b) (eph_sequence_number header))\<rparr>
        else b\<lparr>csb_expected_seq := eph_sequence_number header + 1,
               csb_packets := csb_packets b
                 @ [\<lparr>cp_timestamp_us = eph_source_timestamp_us header, cp_data = payload\<rparr>]\<rparr>)"

definition camera_observe_eos :: "encoded_packet_header \<Rightarrow> camera_stream_buffer \<Rightarrow> camera_stream_buffer" where
  "camera_observe_eos header b = b\<lparr>csb_eos_received := True\<rparr>"

section \<open>What a stream buffer promises\<close>

text \<open>\<open>numbered n ps\<close>: the sequence numbers of \<open>ps\<close> are \<open>n\<close>, \<open>n + 1\<close>, and so on.
  \<open>gop ps\<close>: what is left from the first keyframe on.\<close>

fun numbered :: "u64 \<Rightarrow> packet list \<Rightarrow> bool" where
  "numbered n [] \<longleftrightarrow> True"
| "numbered n ((h, p) # ps) \<longleftrightarrow> eph_sequence_number h = n \<and> numbered (n + 1) ps"

definition gop :: "packet list \<Rightarrow> packet list" where
  "gop ps = dropWhile (\<lambda>(h, p). \<not> is_keyframe h) ps"

lemma numbered_append: "numbered n (ps @ qs) \<longleftrightarrow> numbered n ps \<and> numbered (n + of_nat (length ps)) qs"
  by (induction n ps rule: numbered.induct) (auto simp: add.assoc)

lemma gop_simps [simp]:
  "gop [] = []" "gop ((h, p) # ps) = (if is_keyframe h then (h, p) # ps else gop ps)"
  by (auto simp: gop_def)

lemma numbered_gop: "numbered n ps \<Longrightarrow> numbered (n + of_nat (length ps - length (gop ps))) (gop ps)"
proof (induction n ps rule: numbered.induct)
  case (2 n h p ps)
  have "length (gop ps) \<le> length ps" by (simp add: gop_def length_dropWhile_le)
  then have "Suc (length ps) - length (gop ps) = Suc (length ps - length (gop ps))" by simp
  then show ?case using 2 by (auto simp: algebra_simps)
qed simp

fun feed :: "(encoded_packet_header \<Rightarrow> bytes \<Rightarrow> 'b \<Rightarrow> 'b) \<Rightarrow> packet list \<Rightarrow> 'b \<Rightarrow> 'b" where
  "feed observe [] b = b"
| "feed observe ((h, p) # ps) b = feed observe ps (observe h p b)"

lemma feed_append: "feed observe (ps @ qs) b = feed observe qs (feed observe ps b)"
  by (induction observe ps b rule: feed.induct) auto

locale stream_buffer =
  fixes fresh :: 'b
    and observe :: "encoded_packet_header \<Rightarrow> bytes \<Rightarrow> 'b \<Rightarrow> 'b"
    and eos :: "encoded_packet_header \<Rightarrow> 'b \<Rightarrow> 'b"
    and failed :: "'b \<Rightarrow> bool"
    and ended :: "'b \<Rightarrow> bool"
    and expects :: "'b \<Rightarrow> u64 option"
    and entry :: "encoded_packet_header \<times> bytes \<Rightarrow> 'm"
    and frames :: "'b \<Rightarrow> 'm list"
    and sound :: "'b \<Rightarrow> bool"
  assumes fresh: "sound fresh" "expects fresh = None" "\<not> failed fresh" "\<not> ended fresh" "frames fresh = []"
    and waits: "sound b \<Longrightarrow> expects b = None \<Longrightarrow> \<not> is_keyframe h \<Longrightarrow> observe h p b = b"
    and accepts: "sound b \<Longrightarrow> \<not> failed b \<Longrightarrow>
      (case expects b of None \<Rightarrow> is_keyframe h | Some n \<Rightarrow> eph_sequence_number h = n) \<Longrightarrow>
      sound (observe h p b) \<and> \<not> failed (observe h p b)
      \<and> expects (observe h p b) = Some (eph_sequence_number h + 1)
      \<and> frames (observe h p b) = frames b @ [entry (h, p)]"
    and gap: "sound b \<Longrightarrow> expects b = Some n \<Longrightarrow> n \<noteq> 0 \<Longrightarrow> eph_sequence_number h \<noteq> n \<Longrightarrow> failed (observe h p b)"
    and stuck: "failed b \<Longrightarrow> observe h p b = b"
    and same_end: "ended (observe h p b) = ended b"
    and closes: "sound b \<Longrightarrow> \<not> failed b \<Longrightarrow> expects b = Some n \<Longrightarrow> eph_sequence_number h = n \<Longrightarrow>
      ended (eos h b) \<and> \<not> failed (eos h b) \<and> frames (eos h b) = frames b"
begin

lemma feed_stuck: "failed b \<Longrightarrow> feed observe ps b = b"
  by (induction ps) (auto simp: stuck)

lemma feed_end: "ended (feed observe ps b) = ended b"
  by (induction ps arbitrary: b) (simp, metis feed.simps(2) same_end surj_pair)

lemma feed_open:
  "sound b \<Longrightarrow> \<not> failed b \<Longrightarrow> expects b = Some n \<Longrightarrow> numbered n ps \<Longrightarrow>
   sound (feed observe ps b) \<and> \<not> failed (feed observe ps b)
   \<and> expects (feed observe ps b) = Some (n + of_nat (length ps))
   \<and> frames (feed observe ps b) = frames b @ map entry ps"
proof (induction ps arbitrary: b n)
  case Nil
  then show ?case by simp
next
  case (Cons q ps)
  obtain h p where q: "q = (h, p)" by (cases q)
  have step: "sound (observe h p b)" "\<not> failed (observe h p b)" "expects (observe h p b) = Some (n + 1)"
    "frames (observe h p b) = frames b @ [entry (h, p)]"
    using accepts [of b h p] Cons.prems q by auto
  then show ?case using Cons.IH [OF step(1,2,3)] Cons.prems q by (simp add: add.assoc)
qed

text \<open>A consecutively numbered stream is kept from its first keyframe on.\<close>

theorem numbered_stream:
  assumes "numbered n ps"
  shows "\<not> failed (feed observe ps fresh) \<and> sound (feed observe ps fresh)
    \<and> frames (feed observe ps fresh) = map entry (gop ps)
    \<and> expects (feed observe ps fresh) = (if gop ps = [] then None else Some (n + of_nat (length ps)))"
proof -
  have "\<not> failed (feed observe ps b) \<and> sound (feed observe ps b) \<and> frames (feed observe ps b) = frames b @ map entry (gop ps)
    \<and> expects (feed observe ps b) = (if gop ps = [] then None else Some (n + of_nat (length ps)))"
    if "sound b" "\<not> failed b" "expects b = None" for b
    using assms that
  proof (induction n ps arbitrary: b rule: numbered.induct)
    case (1 n)
    then show ?case by simp
  next
    case (2 n h p ps)
    show ?case
    proof (cases "is_keyframe h")
      case True
      then have "sound (observe h p b)" "\<not> failed (observe h p b)" "expects (observe h p b) = Some (n + 1)"
        "frames (observe h p b) = frames b @ [entry (h, p)]"
        using accepts [of b h p] 2 by auto
      with True 2 feed_open show ?thesis by (simp add: add.assoc)
    next
      case False
      then have "observe h p b = b" using waits 2 by simp
      with False 2 show ?thesis by (simp add: add.assoc)
    qed
  qed
  from this [OF fresh(1,3,2)] fresh(5) show ?thesis by simp
qed

theorem numbered_stream_closed:
  assumes "numbered n ps" and "gop ps \<noteq> []" and "eph_sequence_number h = n + of_nat (length ps)"
  shows "ended (eos h (feed observe ps fresh)) \<and> \<not> failed (eos h (feed observe ps fresh))
    \<and> frames (eos h (feed observe ps fresh)) = map entry (gop ps)"
  using numbered_stream [OF assms(1)] closes assms(2,3) by simp

text \<open>Before the first keyframe packets are passed over, whatever their numbers.\<close>

lemma before_keyframe: "list_all (\<lambda>(h, p). \<not> is_keyframe h) ps \<Longrightarrow> feed observe ps fresh = fresh"
  using waits [OF fresh(1,2)] by (induction ps) auto

text \<open>A packet lost after the first keyframe fails the stream for good.\<close>

theorem lost_packet_fails:
  assumes "list_all (\<lambda>(h, p). \<not> is_keyframe h) early" and "numbered n ps" and "gop ps \<noteq> []" and "unat n + length ps < 2 ^ 64"
    and "eph_sequence_number h \<noteq> n + of_nat (length ps)"
  shows "failed (feed observe (early @ ps @ (h, p) # qs) fresh)"
proof -
  note assms = assms(2-) before_keyframe [OF assms(1)]
  have "ps \<noteq> []" using assms(2) by auto
  let ?b = "feed observe ps fresh"
  have "unat (n + of_nat (length ps)) = unat n + length ps"
    using assms(3) by (simp add: unat_word_ariths unat_of_nat)
  then have "n + of_nat (length ps) \<noteq> 0" using \<open>ps \<noteq> []\<close> by (metis add_is_0 length_0_conv unat_0)
  with numbered_stream [OF assms(1)] assms have "failed (observe h p ?b)"
    by (intro gap [of _ "n + of_nat (length ps)"]) auto
  then show ?thesis by (simp add: feed_append feed_stuck assms(5))
qed

end

section \<open>Both buffers keep it\<close>

definition rsb_sound :: "recording_stream_buffer \<Rightarrow> bool" where
  "rsb_sound b \<longleftrightarrow> (rsb_seen_keyframe b \<longleftrightarrow> rsb_last_sequence b \<noteq> None)"

definition rsb_expects :: "recording_stream_buffer \<Rightarrow> u64 option" where
  "rsb_expects b = map_option (\<lambda>prev. prev + 1) (rsb_last_sequence b)"

definition csb_sound :: "camera_stream_buffer \<Rightarrow> bool" where
  "csb_sound b \<longleftrightarrow> csb_seen_keyframe b \<or> csb_expected_seq b = 0"

definition csb_expects :: "camera_stream_buffer \<Rightarrow> u64 option" where
  "csb_expects b = (if csb_seen_keyframe b then Some (csb_expected_seq b) else None)"

definition camera_packet_of :: "packet \<Rightarrow> camera_packet" where
  "camera_packet_of q = \<lparr>cp_timestamp_us = eph_source_timestamp_us (fst q), cp_data = snd q\<rparr>"

interpretation rsb: stream_buffer RecordingStreamBuffer_default observe_packet observe_eos
  "\<lambda>b. rsb_failed b \<noteq> None" rsb_eos_received rsb_expects "\<lambda>q. q" rsb_packets rsb_sound
  by unfold_locales
    (auto simp: RecordingStreamBuffer_default_def observe_packet_def observe_eos_def rsb_expects_def
      rsb_sound_def update_sequence_def Let_def split: option.splits if_splits sum.splits)

interpretation csb: stream_buffer CameraStreamBuffer_default camera_observe_packet camera_observe_eos
  "\<lambda>b. csb_failed b \<noteq> None" csb_eos_received csb_expects camera_packet_of csb_packets csb_sound
  by unfold_locales
    (auto simp: CameraStreamBuffer_default_def camera_observe_packet_def camera_observe_eos_def csb_expects_def
      csb_sound_def camera_packet_of_def Let_def split: option.splits if_splits)

section \<open>Properties\<close>


definition keyframe_numbered :: "u64 \<Rightarrow> encoded_packet_header" where
  "keyframe_numbered n = set_keyframe True (EncodedPacketHeader_default\<lparr>eph_sequence_number := n\<rparr>)"

definition delta_numbered :: "u64 \<Rightarrow> encoded_packet_header" where
  "delta_numbered n = EncodedPacketHeader_default\<lparr>eph_sequence_number := n\<rparr>"


end
