(* ===== verification/Text_Numbers.thy ===== *)
theory Text_Numbers
  imports Prelude
begin

text \<open>
  What the sources use of \<open>str\<close> beyond \<open>trim\<close>: prefixes, splitting at a byte, comparison
  without case, and \<open>str::parse\<close> for the integer types and \<open>f64\<close>. A decimal fraction is read
  exactly; only a magnitude beyond the largest finite value, which parses to an infinity, and one
  too small to be told from zero are rounded.
\<close>

section \<open>Pieces of a string\<close>

definition starts_with :: "string \<Rightarrow> string \<Rightarrow> bool" where
  "starts_with p s \<longleftrightarrow> take (length p) s = p"

definition strip_prefix :: "string \<Rightarrow> string \<Rightarrow> string option" where
  "strip_prefix p s = (if take (length p) s = p then Some (drop (length p) s) else None)"

definition strip_suffix :: "string \<Rightarrow> string \<Rightarrow> string option" where
  "strip_suffix p s = map_option rev (strip_prefix (rev p) (rev s))"

text \<open>\<open>str::contains\<close>\<close>

fun contains_str :: "string \<Rightarrow> string \<Rightarrow> bool" where
  "contains_str p [] \<longleftrightarrow> p = []"
| "contains_str p (c # s) \<longleftrightarrow> starts_with p (c # s) \<or> contains_str p s"

text \<open>\<open>str::split_once\<close> and \<open>str::split\<close> at one byte.\<close>

fun split_once :: "char \<Rightarrow> string \<Rightarrow> (string \<times> string) option" where
  "split_once a [] = None"
| "split_once a (c # s) =
     (if c = a then Some ([], s) else map_option (\<lambda>(l, r). (c # l, r)) (split_once a s))"

fun split_on :: "char \<Rightarrow> string \<Rightarrow> string list" where
  "split_on a [] = [[]]"
| "split_on a (c # s) =
     (if c = a then [] # split_on a s
      else case split_on a s of w # ws \<Rightarrow> (c # w) # ws | [] \<Rightarrow> [[c]])"

lemma split_once_append: "a \<notin> set l \<Longrightarrow> split_once a (l @ a # r) = Some (l, r)"
  by (induction l) auto

lemma split_on_not_Nil [simp]: "split_on a s \<noteq> []"
  by (induction s) (auto split: list.splits)

lemma split_on_single: "a \<notin> set s \<Longrightarrow> split_on a s = [s]"
  by (induction s) auto

lemma split_on_append: "a \<notin> set l \<Longrightarrow> split_on a (l @ a # r) = l # split_on a r"
  by (induction l) auto

definition lower_bytes :: "string \<Rightarrow> nat list" where
  "lower_bytes = map (\<lambda>c. if 65 \<le> byte c \<and> byte c \<le> 90 then byte c + 32 else byte c)"

definition eq_ignore_ascii_case :: "string \<Rightarrow> string \<Rightarrow> bool" where
  "eq_ignore_ascii_case s t \<longleftrightarrow> lower_bytes s = lower_bytes t"

section \<open>Integers\<close>

definition is_digit :: "char \<Rightarrow> bool" where
  "is_digit c \<longleftrightarrow> 48 \<le> byte c \<and> byte c \<le> 57"

definition digits_value :: "string \<Rightarrow> nat" where
  "digits_value s = foldl (\<lambda>n c. 10 * n + (byte c - 48)) 0 s"

definition all_digits :: "string \<Rightarrow> bool" where
  "all_digits s \<longleftrightarrow> s \<noteq> [] \<and> list_all is_digit s"

text \<open>\<open>parse\<close> of an unsigned type: an optional plus sign and decimal digits below the bound.\<close>

definition drop_plus :: "string \<Rightarrow> string" where
  "drop_plus s = (case s of c # r \<Rightarrow> if c = CHR ''+'' then r else s | [] \<Rightarrow> [])"

definition parse_unsigned :: "nat \<Rightarrow> string \<Rightarrow> nat option" where
  "parse_unsigned bound s =
     (let ds = drop_plus s
      in if all_digits ds \<and> digits_value ds < bound then Some (digits_value ds) else None)"

definition parse_u8 :: "string \<Rightarrow> u8 option" where
  "parse_u8 s = map_option of_nat (parse_unsigned (2 ^ 8) s)"

definition parse_u16 :: "string \<Rightarrow> u16 option" where
  "parse_u16 s = map_option of_nat (parse_unsigned (2 ^ 16) s)"

definition parse_u32 :: "string \<Rightarrow> u32 option" where
  "parse_u32 s = map_option of_nat (parse_unsigned (2 ^ 32) s)"

definition parse_u64 :: "string \<Rightarrow> u64 option" where
  "parse_u64 s = map_option of_nat (parse_unsigned (2 ^ 64) s)"

text \<open>The sign of a signed integer or a float.\<close>

definition take_sign :: "string \<Rightarrow> bool \<times> string" where
  "take_sign s = (case s of
       c # r \<Rightarrow> if c = CHR ''-'' then (True, r) else if c = CHR ''+'' then (False, r) else (False, s)
     | [] \<Rightarrow> (False, []))"

definition parse_i32 :: "string \<Rightarrow> i32 option" where
  "parse_i32 s =
     (case take_sign s of (negative, ds) \<Rightarrow>
        let n = int (digits_value ds); v = (if negative then - n else n)
        in if all_digits ds \<and> - (2 ^ 31) \<le> v \<and> v < 2 ^ 31 then Some (of_int v) else None)"

lemma parse_u32_iff:
  "parse_u32 s = (let digits = (if s \<noteq> [] \<and> hd s = CHR ''+'' then tl s else s) in
      if digits \<noteq> [] \<and> list_all is_digit digits \<and> digits_value digits < 2 ^ 32
      then Some (of_nat (digits_value digits)) else None)"
  by (cases s) (auto simp: parse_u32_def parse_unsigned_def drop_plus_def all_digits_def Let_def)

lemma byte_digit: "n < 10 \<Longrightarrow> byte (char_of (48 + n)) = 48 + n"
  by (simp add: byte_def)

lemma show_nat_digits: "list_all is_digit (show_nat n) \<and> show_nat n \<noteq> [] \<and> digits_value (show_nat n) = n"
proof (induction n rule: show_nat.induct)
  case (1 n)
  show ?case
  proof (cases "n < 10")
    case True
    then show ?thesis by (simp add: show_nat.simps [of n] is_digit_def byte_digit digits_value_def)
  next
    case False
    have "n mod 10 < 10" by simp
    with 1 False show ?thesis
      by (simp add: show_nat.simps [of n] is_digit_def byte_digit digits_value_def)
  qed
qed

lemma digit_not_special: "is_digit c \<Longrightarrow> c \<noteq> CHR ''+'' \<and> c \<noteq> CHR ''/'' \<and> c \<noteq> CHR ''.'' \<and> byte c < 128"
  by (auto simp: is_digit_def byte_def)

lemma parse_unsigned_show: "n < bound \<Longrightarrow> parse_unsigned bound (show_nat n) = Some n"
proof -
  assume n: "n < bound"
  have d: "list_all is_digit (show_nat n)" "show_nat n \<noteq> []" "digits_value (show_nat n) = n"
    using show_nat_digits by auto
  then have "drop_plus (show_nat n) = show_nat n"
    using digit_not_special by (cases "show_nat n") (auto simp: drop_plus_def)
  with d n show ?thesis by (simp add: parse_unsigned_def all_digits_def)
qed

section \<open>Floating-point numbers\<close>

text \<open>The digits after an exponent mark; \<open>None\<close> when there are none or something else follows.\<close>

definition scan_exponent :: "string \<Rightarrow> int option" where
  "scan_exponent s =
     (case take_sign s of (negative, ds) \<Rightarrow>
        if all_digits ds then Some (if negative then - int (digits_value ds) else int (digits_value ds))
        else None)"

definition scale10 :: "nat \<Rightarrow> int \<Rightarrow> real" where
  "scale10 m e = (if 0 \<le> e then real m * 10 ^ nat e else real m / 10 ^ nat (- e))"

definition scan_decimal :: "string \<Rightarrow> real option" where
  "scan_decimal s =
     (let whole = takeWhile is_digit s; r = dropWhile is_digit s;
          dot = (r \<noteq> [] \<and> hd r = CHR ''.'');
          fraction = (if dot then takeWhile is_digit (tl r) else []);
          r' = (if dot then dropWhile is_digit (tl r) else r)
      in if whole = [] \<and> fraction = [] then None
         else map_option (\<lambda>e. scale10 (digits_value (whole @ fraction)) (e - int (length fraction)))
           (case r' of
              [] \<Rightarrow> Some 0
            | c # q \<Rightarrow> if c = CHR ''e'' \<or> c = CHR ''E'' then scan_exponent q else None))"

text \<open>Rounding at both ends of the range: halfway cases go to the even neighbour.\<close>

definition f64_of_magnitude :: "bool \<Rightarrow> real \<Rightarrow> f64" where
  "f64_of_magnitude negative m =
     (if m \<ge> 2 ^ 1024 - 2 ^ 970 then (if negative then NInf else PInf)
      else if m \<le> 1 / 2 ^ 1075 then Fin 0
      else Fin (if negative then - m else m))"

definition parse_f64 :: "string \<Rightarrow> f64 option" where
  "parse_f64 s =
     (case take_sign s of (negative, r) \<Rightarrow>
        case scan_decimal r of
          Some m \<Rightarrow> Some (f64_of_magnitude negative m)
        | None \<Rightarrow>
            if eq_ignore_ascii_case r ''nan'' then Some NaN
            else if eq_ignore_ascii_case r ''inf'' \<or> eq_ignore_ascii_case r ''infinity''
            then Some (if negative then NInf else PInf)
            else None)"

end
