(* ===== verification/Encoder_Media.thy ===== *)
theory Encoder_Media
  imports Packet_Stream Text_Numbers
begin

text \<open>
  The decisions of \<^verbatim>\<open>encoder/src/media.rs\<close> around libav: which encoder of the host a codec and a
  backend mean, the chroma subsampling, bit depth and pixel formats a session settles on, the
  options it passes, the presentation timestamps, the capability report and the choice of a
  VAAPI render node. What the host offers (device files, the codecs of its libav and their pixel
  formats, the two feature flags of the libav version) is the record \<open>av_host\<close>.
\<close>

section \<open>Errors and the host\<close>

datatype av_pixel = AV_YUV420P | AV_YUV422P | AV_YUV420P10LE | AV_YUV422P10LE | AV_NV12 | AV_NV16
  | AV_P010LE | AV_P210LE | AV_VAAPI | AV_CUDA | AV_YUV444P | AV_YUVJ420P | AV_YUVJ422P
  | AV_YUVJ444P | AV_RGB24 | AV_BGR24 | AV_GRAY8 | AV_YUYV422 | AV_other nat

text \<open>\<open>EncoderError\<close>, one constructor per message or source of the code modelled.\<close>

datatype encode_error =
    BackendUnavailable encoder_backend encoder_codec
  | UnsupportedBitDepth u8
  | DepthNeedsRvl
  | AnnexBNeedsPassthrough
  | MjpegNeedsDecoder
  | DirectCopyUnsupported pixel_format
  | DimensionsChanged u32 u32 u32 u32
  | DecodedDimensions pixel_format u32 u32 u32 u32
  | PayloadTooShort nat nat
  | OddDepthPayload nat
  | RvlNeedsDepth pixel_format
  | RvlNonDepthFrame
  | PassthroughCodec encoder_codec
  | PassthroughFormat pixel_format
  | PassthroughRescale u32 u32 u32 u32
  | PassthroughDrift u32 u32 u32 u32
  | NotColorCodec
  | NotDepthCodec encoder_codec
  | NoDepthBackend
  | NoColorBackend encoder_codec pixel_format
  | ColorBackendMissing encoder_backend
  | ColorBackendUnavailable encoder_backend
  | ColorBackendUnsupported encoder_backend encoder_codec pixel_format
  | VaapiOverrideMissing string
  | RvlMagicInvalid
  | UnexpectedEof
  | Libav string
  | RvlError string
  | BusError string
  | NoCuvidDecoder
  | DecoderMissing
  | NoHwEncoder encoder_backend encoder_codec
  | FilterPixelFormat av_pixel
  | NoHwFrames
  | EncodePanic string

record av_host =
  h_nvidiactl :: bool
  h_nvidia_version :: bool
  h_dri :: "string list option"
  h_card0 :: bool
  h_encoder :: "string \<Rightarrow> bool"
  h_decoder :: "string \<Rightarrow> bool"
  h_formats :: "string \<Rightarrow> av_pixel list option"
  h_ffmpeg_5_0 :: bool
  h_ffmpeg_5_1 :: bool

section \<open>Metrics\<close>

text \<open>Counters are unbounded; the wall-clock \<open>encode_time\<close> is left out.\<close>

record encode_metrics =
  em_frames :: nat
  em_raw_bytes :: nat
  em_encoded_bytes :: nat
  em_dropped_frames :: nat

definition EncodeMetrics_default :: encode_metrics where
  "EncodeMetrics_default = \<lparr>em_frames = 0, em_raw_bytes = 0, em_encoded_bytes = 0, em_dropped_frames = 0\<rparr>"

definition record_frame :: "nat \<Rightarrow> nat \<Rightarrow> encode_metrics \<Rightarrow> encode_metrics" where
  "record_frame raw_bytes encoded_bytes m =
     m\<lparr>em_frames := em_frames m + 1, em_raw_bytes := em_raw_bytes m + raw_bytes,
       em_encoded_bytes := em_encoded_bytes m + encoded_bytes\<rparr>"

section \<open>Encoders and decoders of the host\<close>

fun backend_is_usable :: "av_host \<Rightarrow> encoder_backend \<Rightarrow> bool" where
  "backend_is_usable h BackendAuto \<longleftrightarrow> True"
| "backend_is_usable h BackendCpu \<longleftrightarrow> True"
| "backend_is_usable h BackendNvidia \<longleftrightarrow> h_nvidiactl h \<or> h_nvidia_version h"
| "backend_is_usable h BackendVaapi \<longleftrightarrow>
     (case h_dri h of None \<Rightarrow> False | Some names \<Rightarrow> list_ex (starts_with ''renderD'') names) \<or> h_card0 h"
| "backend_is_usable h BackendPassthrough \<longleftrightarrow> False"
| "backend_is_usable h BackendHorizonX5 \<longleftrightarrow> False"

fun encoder_candidates :: "encoder_codec \<Rightarrow> encoder_backend \<Rightarrow> string list" where
  "encoder_candidates H264 BackendCpu = [''libx264'', ''h264'']"
| "encoder_candidates H264 BackendNvidia = [''h264_nvenc'']"
| "encoder_candidates H264 BackendVaapi = [''h264_vaapi'']"
| "encoder_candidates H265 BackendCpu = [''libx265'', ''hevc'']"
| "encoder_candidates H265 BackendNvidia = [''hevc_nvenc'']"
| "encoder_candidates H265 BackendVaapi = [''hevc_vaapi'']"
| "encoder_candidates Av1 BackendCpu = [''libsvtav1'', ''librav1e'', ''libaom-av1'', ''av1'']"
| "encoder_candidates Av1 BackendNvidia = [''av1_nvenc'']"
| "encoder_candidates Av1 BackendVaapi = [''av1_vaapi'']"
| "encoder_candidates Mjpg BackendCpu = [''mjpeg'']"
| "encoder_candidates Rvl BackendCpu = [''rvl'']"
| "encoder_candidates _ _ = []"

definition select_encoder_name :: "av_host \<Rightarrow> encoder_codec \<Rightarrow> encoder_backend \<Rightarrow> string option" where
  "select_encoder_name h codec backend =
     (if \<not> backend_is_usable h backend then None
      else find (h_encoder h) (encoder_candidates codec backend))"

fun decoder_candidates :: "encoder_codec \<Rightarrow> encoder_backend \<Rightarrow> string list" where
  "decoder_candidates H264 BackendCpu = [''h264'']"
| "decoder_candidates H264 BackendNvidia = [''h264_cuvid'']"
| "decoder_candidates H264 BackendVaapi = [''h264'']"
| "decoder_candidates H265 BackendCpu = [''hevc'']"
| "decoder_candidates H265 BackendNvidia = [''hevc_cuvid'']"
| "decoder_candidates H265 BackendVaapi = [''hevc'']"
| "decoder_candidates Av1 BackendCpu = [''av1'']"
| "decoder_candidates Av1 BackendNvidia = [''av1_cuvid'']"
| "decoder_candidates Av1 BackendVaapi = [''av1'']"
| "decoder_candidates Mjpg BackendCpu = [''mjpeg'']"
| "decoder_candidates Rvl BackendCpu = [''rvl'']"
| "decoder_candidates _ _ = []"

definition select_decoder_name :: "av_host \<Rightarrow> encoder_codec \<Rightarrow> encoder_backend \<Rightarrow> string option" where
  "select_decoder_name h codec backend =
     (if \<not> backend_is_usable h backend then None
      else find (\<lambda>name. if name = ''rvl'' then True else h_decoder h name) (decoder_candidates codec backend))"

definition resolve_backend :: "av_host \<Rightarrow> encoder_codec \<Rightarrow> encoder_backend \<Rightarrow> encoder_backend" where
  "resolve_backend h codec requested =
     (if codec = Rvl then BackendCpu
      else if requested \<noteq> BackendAuto then requested
      else case find (\<lambda>candidate. select_encoder_name h codec candidate \<noteq> None)
             [BackendNvidia, BackendVaapi, BackendCpu] of
        Some candidate \<Rightarrow> candidate
      | None \<Rightarrow> BackendCpu)"

section \<open>Pixel formats\<close>

definition scaled_pixel_format ::
  "av_host \<Rightarrow> encoder_backend \<Rightarrow> chroma_subsampling \<Rightarrow> u8 \<Rightarrow> (av_pixel, encode_error) result" where
  "scaled_pixel_format h backend subsampling depth =
     (if backend \<in> {BackendCpu, BackendAuto} \<and> depth = 8
      then Ok (case subsampling of S420 \<Rightarrow> AV_YUV420P | S422 \<Rightarrow> AV_YUV422P)
      else if backend \<in> {BackendCpu, BackendAuto} \<and> depth = 10
      then Ok (case subsampling of S420 \<Rightarrow> AV_YUV420P10LE | S422 \<Rightarrow> AV_YUV422P10LE)
      else if backend \<in> {BackendNvidia, BackendVaapi} \<and> depth = 8
      then Ok (case subsampling of S420 \<Rightarrow> AV_NV12 | S422 \<Rightarrow> AV_NV16)
      else if backend \<in> {BackendNvidia, BackendVaapi} \<and> depth = 10
      then Ok (case subsampling of S420 \<Rightarrow> AV_P010LE | S422 \<Rightarrow> if h_ffmpeg_5_0 h then AV_P210LE else AV_P010LE)
      else Err (UnsupportedBitDepth depth))"

definition encoder_pixel_format ::
  "av_host \<Rightarrow> encoder_backend \<Rightarrow> chroma_subsampling \<Rightarrow> u8 \<Rightarrow> (av_pixel, encode_error) result" where
  "encoder_pixel_format h backend subsampling depth =
     (if backend = BackendVaapi \<and> h_ffmpeg_5_1 h then Ok AV_VAAPI
      else scaled_pixel_format h backend subsampling depth)"

text \<open>\<open>unreachable!\<close> is the error \<open>EncodePanic\<close>.\<close>

definition resolve_chroma_subsampling ::
  "av_host \<Rightarrow> string \<Rightarrow> encoder_backend \<Rightarrow> chroma_subsampling \<Rightarrow> (chroma_subsampling, encode_error) result" where
  "resolve_chroma_subsampling h codec_name backend requested =
     (if requested = S420 then Ok S420
      else if backend = BackendVaapi then Ok S420
      else case h_formats h codec_name of
        None \<Rightarrow> Ok S420
      | Some formats \<Rightarrow>
          if backend \<in> {BackendPassthrough, BackendHorizonX5} then Err (EncodePanic ''unreachable'')
          else let wanted = (if backend \<in> {BackendCpu, BackendAuto} then AV_YUV422P else AV_NV16)
          in if wanted \<in> set formats then Ok S422 else Ok S420)"

definition resolve_bit_depth ::
  "av_host \<Rightarrow> string \<Rightarrow> encoder_backend \<Rightarrow> chroma_subsampling \<Rightarrow> u8 \<Rightarrow> (u8, encode_error) result" where
  "resolve_bit_depth h codec_name backend subsampling requested =
     (if requested = 8 then Ok 8
      else if requested \<noteq> 10 then Ok 8
      else if backend = BackendVaapi then Ok 8
      else if codec_name = ''h264_nvenc'' then Ok 8
      else case h_formats h codec_name of
        None \<Rightarrow> Ok 8
      | Some formats \<Rightarrow>
          if backend \<in> {BackendPassthrough, BackendHorizonX5} then Err (EncodePanic ''unreachable'')
          else let wanted =
              (if backend \<in> {BackendCpu, BackendAuto}
               then (case subsampling of S420 \<Rightarrow> AV_YUV420P10LE | S422 \<Rightarrow> AV_YUV422P10LE)
               else (case subsampling of S420 \<Rightarrow> AV_P010LE
                       | S422 \<Rightarrow> if h_ffmpeg_5_0 h then AV_P210LE else AV_P010LE))
          in if wanted \<in> set formats then Ok 10 else Ok 8)"

fun pixel_format_for_libav :: "pixel_format \<Rightarrow> (av_pixel, encode_error) result" where
  "pixel_format_for_libav Px_Rgb24 = Ok AV_RGB24"
| "pixel_format_for_libav Px_Bgr24 = Ok AV_BGR24"
| "pixel_format_for_libav Px_Gray8 = Ok AV_GRAY8"
| "pixel_format_for_libav Px_Yuyv = Ok AV_YUYV422"
| "pixel_format_for_libav Px_Mjpeg = Err MjpegNeedsDecoder"
| "pixel_format_for_libav Px_Depth16 = Err DepthNeedsRvl"
| "pixel_format_for_libav Px_H264AnnexB = Err AnnexBNeedsPassthrough"
| "pixel_format_for_libav Px_Nv12 = Ok AV_NV12"

fun validate_source_pixel_format :: "pixel_format \<Rightarrow> (unit, encode_error) result" where
  "validate_source_pixel_format Px_Depth16 = Err DepthNeedsRvl"
| "validate_source_pixel_format Px_H264AnnexB = Err AnnexBNeedsPassthrough"
| "validate_source_pixel_format _ = Ok ()"

text \<open>\<open>ensure_frame_compatibility\<close>, and the copy of a packed frame into rows of a given stride.\<close>

definition ensure_frame_compatibility ::
  "camera_frame_header \<Rightarrow> u32 \<Rightarrow> u32 \<Rightarrow> bool \<Rightarrow> (unit, encode_error) result" where
  "ensure_frame_compatibility header width height allow_rescale =
     reject (\<not> allow_rescale \<and> (cfh_width header \<noteq> width \<or> cfh_height header \<noteq> height))
       (DimensionsChanged width height (cfh_width header) (cfh_height header))"

definition write_at :: "nat \<Rightarrow> bytes \<Rightarrow> bytes \<Rightarrow> bytes" where
  "write_at offset src dst = take offset dst @ src @ drop (offset + length src) dst"

text \<open>Writing outside the destination panics; the rows are copied in order.\<close>

fun copy_rows :: "nat list \<Rightarrow> nat \<Rightarrow> nat \<Rightarrow> bytes \<Rightarrow> bytes \<Rightarrow> (bytes, encode_error) result" where
  "copy_rows [] row_bytes stride payload dst = Ok dst"
| "copy_rows (row # rows) row_bytes stride payload dst =
     (if row * stride + row_bytes > length dst \<or> row * row_bytes + row_bytes > length payload
      then Err (EncodePanic ''slice'')
      else copy_rows rows row_bytes stride payload
        (write_at (row * stride) (take row_bytes (drop (row * row_bytes) payload)) dst))"

definition copy_frame_payload ::
  "nat \<Rightarrow> camera_frame_header \<Rightarrow> bytes \<Rightarrow> bytes \<Rightarrow> (bytes, encode_error) result" where
  "copy_frame_payload stride header payload data =
     bind_ok (case cfh_pixel_format header of
         Px_Rgb24 \<Rightarrow> Ok 3 | Px_Bgr24 \<Rightarrow> Ok 3 | Px_Yuyv \<Rightarrow> Ok 2 | Px_Gray8 \<Rightarrow> Ok 1
       | other \<Rightarrow> Err (DirectCopyUnsupported other)) (\<lambda>bpp.
       let row_bytes = unat (cfh_width header) * bpp;
           expected_bytes = row_bytes * unat (cfh_height header)
       in if length payload < expected_bytes then Err (PayloadTooShort expected_bytes (length payload))
          else copy_rows [0..<unat (cfh_height header)] row_bytes stride payload data)"

section \<open>Options, colours, devices\<close>

datatype av_color = AV_BT709 | AV_SMPTE170M

fun color_space_metadata :: "encoder_color_space \<Rightarrow> (av_color \<times> av_color \<times> av_color) option" where
  "color_space_metadata ColorAuto = None"
| "color_space_metadata Bt709Limited = Some (AV_BT709, AV_BT709, AV_BT709)"
| "color_space_metadata Bt601Limited = Some (AV_SMPTE170M, AV_SMPTE170M, AV_SMPTE170M)"

text \<open>A dictionary in the order its entries are set; the keys set here are distinct.\<close>

definition build_codec_options ::
  "string \<Rightarrow> encoder_backend \<Rightarrow> u8 option \<Rightarrow> string option \<Rightarrow> string option \<Rightarrow> (string \<times> string) list" where
  "build_codec_options codec_name backend crf preset tune =
     (case preset of Some p \<Rightarrow> [(''preset'', p)] | None \<Rightarrow> [])
     @ (case tune of Some t \<Rightarrow> [(''tune'', t)] | None \<Rightarrow> [])
     @ (case crf of None \<Rightarrow> []
        | Some c \<Rightarrow>
            let crf_str = show_nat (unat c) in
            if codec_name \<in> {''h264_nvenc'', ''hevc_nvenc'', ''av1_nvenc''} \<and> backend \<in> {BackendNvidia, BackendAuto}
            then [(''rc'', ''vbr''), (''cq'', crf_str)]
            else if backend = BackendVaapi then [(''rc_mode'', ''CQP''), (''qp'', crf_str)]
            else [(''crf'', crf_str)])"

datatype av_device = DEVICE_CUDA | DEVICE_VAAPI

fun backend_hw_device_type :: "encoder_backend \<Rightarrow> av_device option" where
  "backend_hw_device_type BackendNvidia = Some DEVICE_CUDA"
| "backend_hw_device_type BackendVaapi = Some DEVICE_VAAPI"
| "backend_hw_device_type _ = None"

section \<open>Capabilities\<close>

fun availability_note :: "encoder_backend \<Rightarrow> bool \<Rightarrow> string option" where
  "availability_note _ False = None"
| "availability_note BackendAuto True = Some ''auto resolves to the best available backend''"
| "availability_note BackendCpu True = Some ''software codec path''"
| "availability_note BackendNvidia True = Some ''requires CUDA/NVENC capable host libraries''"
| "availability_note BackendVaapi True = Some ''requires VAAPI-capable host libraries''"
| "availability_note BackendPassthrough True = None"
| "availability_note BackendHorizonX5 True = None"

definition probe_video_capabilities ::
  "av_host \<Rightarrow> encoder_codec \<Rightarrow> encoder_backend list \<Rightarrow> pixel_format list \<Rightarrow> encoder_capability list" where
  "probe_video_capabilities h codec backends pixel_formats =
     concat (map (\<lambda>backend.
       let encode_name = select_encoder_name h codec backend;
           decode_name = select_decoder_name h codec backend
       in [\<lparr>cap_codec = codec, cap_implementation = ImplLibav, cap_direction = Encode, cap_backend = backend,
            cap_pixel_formats = pixel_formats, cap_available = (encode_name \<noteq> None),
            cap_codec_name = encode_name, cap_note = availability_note backend (encode_name \<noteq> None)\<rparr>,
           \<lparr>cap_codec = codec, cap_implementation = ImplLibav, cap_direction = Decode, cap_backend = backend,
            cap_pixel_formats = pixel_formats, cap_available = (decode_name \<noteq> None),
            cap_codec_name = decode_name, cap_note = availability_note backend (decode_name \<noteq> None)\<rparr>])
       backends)"

definition rvl_capability :: "encoder_capability_direction \<Rightarrow> string \<Rightarrow> encoder_capability" where
  "rvl_capability direction note =
     \<lparr>cap_codec = Rvl, cap_implementation = ImplRvl, cap_direction = direction, cap_backend = BackendCpu,
      cap_pixel_formats = [Px_Depth16], cap_available = True, cap_codec_name = Some ''rvl'', cap_note = Some note\<rparr>"

definition video_pixel_formats :: "pixel_format list" where
  "video_pixel_formats = [Px_Rgb24, Px_Bgr24, Px_Gray8, Px_Yuyv, Px_Mjpeg]"

text \<open>\<open>av_init\<close> is the result of \<open>ffmpeg::init\<close>.\<close>

definition probe_capabilities ::
  "(unit, encode_error) result \<Rightarrow> av_host \<Rightarrow> (encoder_capability_report, encode_error) result" where
  "probe_capabilities av_init h =
     bind_ok av_init (\<lambda>_. Ok \<lparr>report_codecs =
       concat (map (\<lambda>codec. probe_video_capabilities h codec [BackendCpu, BackendNvidia, BackendVaapi] video_pixel_formats)
         [H264, H265, Av1])
       @ probe_video_capabilities h Mjpg [BackendCpu] video_pixel_formats
       @ [rvl_capability Encode ''pure Rust in-repo depth encoder'',
          rvl_capability Decode ''pure Rust in-repo depth decoder'']\<rparr>)"

section \<open>Presentation timestamps\<close>

text \<open>\<open>i64\<close> values as integers; \<open>last + 1\<close> wraps at the top of the range, as in a release build. The
  result is \<open>None\<close> for a dropped frame; the flag is the warning logged once.\<close>

definition i64_wrap :: "int \<Rightarrow> int" where
  "i64_wrap z = (z + 2 ^ 63) mod 2 ^ 64 - 2 ^ 63"

definition compute_pts_us ::
  "u64 \<Rightarrow> u64 \<Rightarrow> int option \<Rightarrow> bool \<Rightarrow> int option \<times> int option \<times> bool" where
  "compute_pts_us frame_timestamp_us recording_start_us last_pts warned =
     (if uint frame_timestamp_us \<ge> 2 ^ 63 \<or> uint recording_start_us \<ge> 2 ^ 63 then (None, last_pts, warned)
      else let raw_pts = uint frame_timestamp_us - uint recording_start_us in
        if raw_pts < 0 then (None, last_pts, warned)
        else case last_pts of
          Some prev \<Rightarrow>
            if raw_pts \<le> prev
            then (Some (i64_wrap (prev + 1)), Some (i64_wrap (prev + 1)), True)
            else (Some raw_pts, Some raw_pts, warned)
        | None \<Rightarrow> (Some raw_pts, Some raw_pts, warned))"

section \<open>VAAPI render nodes\<close>

definition list_drm_render_d_nodes :: "av_host \<Rightarrow> string list" where
  "list_drm_render_d_nodes h =
     (case h_dri h of None \<Rightarrow> []
      | Some names \<Rightarrow>
          sort_key (\<lambda>n. case parse_u32 (drop 7 n) of Some k \<Rightarrow> k | None \<Rightarrow> - 1)
            (filter (\<lambda>n. starts_with ''renderD'' n \<and> length n > 7) names))"

text \<open>\<open>vendor\<close> reads the vendor file of a node, \<open>path_exists\<close> tests a path.\<close>

definition is_nvidia_drm_node :: "(string \<Rightarrow> string option) \<Rightarrow> string \<Rightarrow> bool" where
  "is_nvidia_drm_node vendor drm_name =
     (case vendor (''/sys/class/drm/'' @ drm_name @ ''/device/vendor'') of
        None \<Rightarrow> False | Some s \<Rightarrow> eq_ignore_ascii_case (trim s) ''0x10de'')"

definition first_non_nvidia_render_node_path ::
  "av_host \<Rightarrow> (string \<Rightarrow> string option) \<Rightarrow> (string \<Rightarrow> bool) \<Rightarrow> string option" where
  "first_non_nvidia_render_node_path h vendor path_exists =
     find path_exists (map (\<lambda>name. ''/dev/dri/'' @ name)
       (filter (\<lambda>name. \<not> is_nvidia_drm_node vendor name) (list_drm_render_d_nodes h)))"

definition vaapi_device ::
  "string option \<Rightarrow> av_host \<Rightarrow> (string \<Rightarrow> string option) \<Rightarrow> (string \<Rightarrow> bool) \<Rightarrow> (string option, encode_error) result" where
  "vaapi_device override h vendor path_exists =
     (case override of
        Some over \<Rightarrow>
          if trim over \<noteq> []
          then if \<not> path_exists (trim over) then Err (VaapiOverrideMissing (trim over)) else Ok (Some (trim over))
          else Ok (first_non_nvidia_render_node_path h vendor path_exists)
      | None \<Rightarrow> Ok (first_non_nvidia_render_node_path h vendor path_exists))"

end
