(* ===== verification/Codec_Session.thy ===== *)
theory Codec_Session
  imports Encoder_Media
begin

text \<open>
  The codec sessions of \<^verbatim>\<open>encoder/src/codec.rs\<close> and
  \<^verbatim>\<open>encoder/src/backend/color/passthrough.rs\<close>: parameters, the sinks of
  \<^verbatim>\<open>encoder/src/sink.rs\<close>, the RVL, passthrough and libav sessions. The libraries behind them
  (the depth encoder, libav's codecs and scaler, the bus) are records of functions. What every
  session promises about the packets it writes is the locale \<open>packet_session\<close>.
\<close>

section \<open>Frames, parameters, sinks\<close>

record owned_frame =
  of_header :: camera_frame_header
  of_payload :: bytes

record codec_session_params =
  csp_codec :: encoder_codec
  csp_backend :: encoder_backend
  csp_fps :: u32
  csp_crf :: "u8 option"
  csp_preset :: "string option"
  csp_tune :: "string option"
  csp_bit_depth :: u8
  csp_chroma_subsampling :: chroma_subsampling
  csp_color_space :: encoder_color_space
  csp_process_id :: string
  csp_episode_index :: u32
  csp_recording_start_us :: u64
  csp_output_width :: u32
  csp_output_height :: u32
  csp_allow_rescale :: bool

definition CodecSessionParams_from_recording ::
  "recording_encoder_config \<Rightarrow> string \<Rightarrow> u32 \<Rightarrow> u64 \<Rightarrow> u32 \<Rightarrow> u32 \<Rightarrow> codec_session_params" where
  "CodecSessionParams_from_recording cfg process_id episode_index recording_start_us camera_width camera_height =
     \<lparr>csp_codec = re_codec cfg, csp_backend = re_backend cfg, csp_fps = re_fps cfg, csp_crf = re_crf cfg,
      csp_preset = re_preset cfg, csp_tune = re_tune cfg, csp_bit_depth = re_bit_depth cfg,
      csp_chroma_subsampling = re_chroma_subsampling cfg, csp_color_space = re_color_space cfg,
      csp_process_id = process_id, csp_episode_index = episode_index,
      csp_recording_start_us = recording_start_us, csp_output_width = camera_width,
      csp_output_height = camera_height, csp_allow_rescale = False\<rparr>"

text \<open>The bus says whether the loan and the send of the next sample fail, given what was published.\<close>

type_synonym bus = "packet list \<Rightarrow> packet \<Rightarrow> encode_error option"

definition publish_packet ::
  "bus \<Rightarrow> encoded_packet_header \<Rightarrow> bytes \<Rightarrow> packet list \<Rightarrow> (packet list, encode_error) result" where
  "publish_packet bus header payload out =
     (case bus out (header, payload) of Some e \<Rightarrow> Err e | None \<Rightarrow> Ok (out @ [(header, payload)]))"

text \<open>\<open>IpcRecordingSink\<close> and \<open>IpcPreviewPacketSink\<close>.\<close>

definition write_packet ::
  "bus \<Rightarrow> encoded_packet_header \<Rightarrow> bytes \<Rightarrow> packet list \<Rightarrow> (packet list, encode_error) result" where
  "write_packet bus header payload out = publish_packet bus header payload out"

definition write_eos :: "bus \<Rightarrow> encoded_packet_header \<Rightarrow> packet list \<Rightarrow> (packet list, encode_error) result" where
  "write_eos bus header out = publish_packet bus header [] out"

text \<open>\<open>IpcPreviewJpegSink\<close>: packets become camera frames, the end of the stream is dropped.\<close>

type_synonym jpeg_sample = "camera_frame_header \<times> bytes"

definition jpeg_write_packet ::
  "(jpeg_sample list \<Rightarrow> jpeg_sample \<Rightarrow> encode_error option) \<Rightarrow> encoded_packet_header \<Rightarrow> bytes \<Rightarrow>
   jpeg_sample list \<Rightarrow> (jpeg_sample list, encode_error) result" where
  "jpeg_write_packet bus header payload out =
     (if eph_kind header \<noteq> Packet then Ok out
      else let sample = (\<lparr>cfh_timestamp_us = eph_source_timestamp_us header, cfh_width = eph_width header,
             cfh_height = eph_height header, cfh_pixel_format = Px_Mjpeg,
             cfh_frame_index = eph_source_frame_index header\<rparr>, payload)
        in case bus out sample of Some e \<Rightarrow> Err e | None \<Rightarrow> Ok (out @ [sample]))"

definition jpeg_write_eos ::
  "encoded_packet_header \<Rightarrow> jpeg_sample list \<Rightarrow> (jpeg_sample list, encode_error) result" where
  "jpeg_write_eos header out = Ok out"

fun encoded_codec_id_of :: "encoder_codec \<Rightarrow> encoded_codec_id" where
  "encoded_codec_id_of H264 = CodecId_H264"
| "encoded_codec_id_of H265 = CodecId_H265"
| "encoded_codec_id_of Av1 = CodecId_Av1"
| "encoded_codec_id_of Mjpg = CodecId_Mjpg"
| "encoded_codec_id_of Rvl = CodecId_Rvl"

lemma codec_id_round_trip [simp]: "codec_from_id (encoded_codec_id_of c) = c"
  by (cases c) auto

section \<open>Little-endian integers\<close>

definition le_bytes :: "nat \<Rightarrow> 'w :: len word \<Rightarrow> bytes" where
  "le_bytes n w = map (\<lambda>i. ucast (drop_bit (8 * i) w)) [0..<n]"

definition from_le :: "bytes \<Rightarrow> 'w :: len word" where
  "from_le bs = foldr (\<lambda>b acc. ucast b OR push_bit 8 acc) bs 0"

text \<open>\<open>depth16_payload_to_vec\<close>: \<open>chunks_exact(2)\<close> over an even payload.\<close>

fun le_chunks :: "bytes \<Rightarrow> u16 list" where
  "le_chunks (a # b # bs) = from_le [a, b] # le_chunks bs"
| "le_chunks _ = []"

definition depth16_payload_to_vec :: "bytes \<Rightarrow> (u16 list, encode_error) result" where
  "depth16_payload_to_vec payload =
     (if length payload mod 2 \<noteq> 0 then Err (OddDepthPayload (length payload)) else Ok (le_chunks payload))"

section \<open>RvlCodecSession\<close>

text \<open>The depth encoder: its construction for a frame length, and the encoding of a frame into a
  payload with the flag of a key frame.\<close>

record 'd depth_ops =
  depth_rvl :: "nat \<Rightarrow> 'd"
  depth_encode :: "'d \<Rightarrow> u16 list \<Rightarrow> 'd \<times> (bool \<times> bytes, encode_error) result"

record 'd rvl_session =
  rs_width :: u32
  rs_height :: u32
  rs_fps :: u32
  rs_episode_index :: u32
  rs_recording_start_us :: u64
  rs_encoder :: 'd
  rs_next_sequence :: u64
  rs_metrics :: encode_metrics

definition RvlCodecSession_new ::
  "'d depth_ops \<Rightarrow> codec_session_params \<Rightarrow> owned_frame \<Rightarrow> ('d rvl_session, encode_error) result" where
  "RvlCodecSession_new ops params first_frame =
     (let h = of_header first_frame in
      if cfh_pixel_format h \<noteq> Px_Depth16 then Err (RvlNeedsDepth (cfh_pixel_format h))
      else Ok \<lparr>rs_width = cfh_width h, rs_height = cfh_height h, rs_fps = csp_fps params,
        rs_episode_index = csp_episode_index params, rs_recording_start_us = csp_recording_start_us params,
        rs_encoder = depth_rvl ops (unat (cfh_width h) * unat (cfh_height h)), rs_next_sequence = 0,
        rs_metrics = EncodeMetrics_default\<rparr>)"

definition saturating_sub :: "u64 \<Rightarrow> u64 \<Rightarrow> u64" where
  "saturating_sub a b = (if a < b then 0 else a - b)"

definition rvl_frame_payload :: "camera_frame_header \<Rightarrow> bytes \<Rightarrow> bytes" where
  "rvl_frame_payload h payload =
     le_bytes 8 (cfh_timestamp_us h) @ le_bytes 8 (cfh_frame_index h)
     @ le_bytes 4 (of_nat (length payload) :: u32) @ payload"

definition rvl_encode ::
  "'d depth_ops \<Rightarrow> bus \<Rightarrow> owned_frame \<Rightarrow> 'd rvl_session \<Rightarrow> packet list \<Rightarrow>
   ('d rvl_session \<times> packet list) \<times> (unit, encode_error) result" where
  "rvl_encode ops bus frame s out =
     (let h = of_header frame in
      case ensure_frame_compatibility h (rs_width s) (rs_height s) False of
        Err e \<Rightarrow> ((s, out), Err e)
      | Ok _ \<Rightarrow>
          if cfh_pixel_format h \<noteq> Px_Depth16 then ((s, out), Err RvlNonDepthFrame)
          else case depth16_payload_to_vec (of_payload frame) of
            Err e \<Rightarrow> ((s, out), Err e)
          | Ok depth_pixels \<Rightarrow>
              (case depth_encode ops (rs_encoder s) depth_pixels of
                 (d, Err e) \<Rightarrow> ((s\<lparr>rs_encoder := d\<rparr>, out), Err e)
               | (d, Ok (key, payload)) \<Rightarrow>
                   let s1 = s\<lparr>rs_encoder := d\<rparr>;
                       packet_payload = rvl_frame_payload h payload;
                       pts_us = saturating_sub (cfh_timestamp_us h) (rs_recording_start_us s)
                   in if rs_fps s = 0 then ((s1, out), Err (EncodePanic ''divide by zero''))
                      else
                        let header0 =
                              \<lparr>eph_kind = Packet, eph_codec = CodecId_Rvl, eph_flags = 0, eph_width = rs_width s,
                               eph_height = rs_height s, eph_pixel_format = Px_Depth16, eph_reserved0 = 0,
                               eph_time_base_num = 1, eph_time_base_den = 1000000, eph_pts_us = pts_us,
                               eph_dts_us = pts_us, eph_duration_us = of_nat (1000000 div unat (rs_fps s)),
                               eph_sequence_number = rs_next_sequence s,
                               eph_source_timestamp_us = cfh_timestamp_us h,
                               eph_source_frame_index = cfh_frame_index h,
                               eph_episode_index = rs_episode_index s,
                               eph_payload_len = of_nat (length packet_payload)\<rparr>;
                            header1 = set_keyframe key header0;
                            header = (if \<not> key then set_keyframe True header1 else header1);
                            s2 = s1\<lparr>rs_next_sequence := rs_next_sequence s1 + 1,
                                   rs_metrics := (rs_metrics s1)\<lparr>em_encoded_bytes :=
                                     em_encoded_bytes (rs_metrics s1) + length packet_payload\<rparr>\<rparr>
                        in case write_packet bus header packet_payload out of
                          Err e \<Rightarrow> ((s2, out), Err e)
                        | Ok out' \<Rightarrow>
                            ((s2\<lparr>rs_metrics := record_frame (length (of_payload frame)) (length packet_payload)
                                (rs_metrics s2)\<rparr>, out'), Ok ())))"

definition eos_header ::
  "encoded_codec_id \<Rightarrow> u32 \<Rightarrow> u32 \<Rightarrow> pixel_format \<Rightarrow> i64 \<Rightarrow> u64 \<Rightarrow> u64 \<Rightarrow> u32 \<Rightarrow> encoded_packet_header" where
  "eos_header codec width height format pts seq timestamp episode =
     \<lparr>eph_kind = EndOfStream, eph_codec = codec, eph_flags = 0, eph_width = width, eph_height = height,
      eph_pixel_format = format, eph_reserved0 = 0, eph_time_base_num = 1, eph_time_base_den = 1000000,
      eph_pts_us = pts, eph_dts_us = pts, eph_duration_us = 0, eph_sequence_number = seq,
      eph_source_timestamp_us = timestamp, eph_source_frame_index = 0, eph_episode_index = episode,
      eph_payload_len = 0\<rparr>"

text \<open>\<open>finish\<close> consumes the session; what is left is what was published.\<close>

definition published ::
  "packet list \<Rightarrow> (packet list, encode_error) result \<Rightarrow> packet list \<times> (unit, encode_error) result" where
  "published out r = (case r of Err e \<Rightarrow> (out, Err e) | Ok out' \<Rightarrow> (out', Ok ()))"

definition rvl_finish :: "bus \<Rightarrow> 'd rvl_session \<Rightarrow> packet list \<Rightarrow> packet list \<times> (unit, encode_error) result" where
  "rvl_finish bus s out =
     published out (write_eos bus
       (eos_header CodecId_Rvl (rs_width s) (rs_height s) Px_Depth16 0 (rs_next_sequence s) 0 (rs_episode_index s)) out)"

definition rvl_record_dropped :: "'d rvl_session \<Rightarrow> 'd rvl_session" where
  "rvl_record_dropped s =
     s\<lparr>rs_metrics := (rs_metrics s)\<lparr>em_dropped_frames := em_dropped_frames (rs_metrics s) + 1\<rparr>\<rparr>"

section \<open>PassthroughCodecSession\<close>

record passthrough_session =
  ps_width :: u32
  ps_height :: u32
  ps_episode_index :: u32
  ps_recording_start_us :: u64
  ps_next_sequence :: u64
  ps_metrics :: encode_metrics

definition passthrough_open :: "codec_session_params \<Rightarrow> owned_frame \<Rightarrow> (passthrough_session, encode_error) result" where
  "passthrough_open params first_frame =
     (let h = of_header first_frame in
      if csp_codec params \<noteq> H264 then Err (PassthroughCodec (csp_codec params))
      else if cfh_pixel_format h \<noteq> Px_H264AnnexB then Err (PassthroughFormat (cfh_pixel_format h))
      else if csp_output_width params \<noteq> cfh_width h \<or> csp_output_height params \<noteq> cfh_height h
      then Err (PassthroughRescale (cfh_width h) (cfh_height h) (csp_output_width params) (csp_output_height params))
      else Ok \<lparr>ps_width = csp_output_width params, ps_height = csp_output_height params,
        ps_episode_index = csp_episode_index params, ps_recording_start_us = csp_recording_start_us params,
        ps_next_sequence = 0, ps_metrics = EncodeMetrics_default\<rparr>)"

definition build_header ::
  "passthrough_session \<Rightarrow> encoded_packet_kind \<Rightarrow> owned_frame \<Rightarrow> i64 \<Rightarrow> u64 \<Rightarrow> u32 \<Rightarrow> bool \<Rightarrow> encoded_packet_header" where
  "build_header s kind frame pts_us sequence payload_len keyframe =
     set_scaling_locked True (set_keyframe keyframe
       \<lparr>eph_kind = kind, eph_codec = CodecId_H264, eph_flags = 0, eph_width = ps_width s,
        eph_height = ps_height s, eph_pixel_format = Px_H264AnnexB, eph_reserved0 = 0,
        eph_time_base_num = 1, eph_time_base_den = 1000000, eph_pts_us = pts_us, eph_dts_us = pts_us,
        eph_duration_us = 0, eph_sequence_number = sequence,
        eph_source_timestamp_us = cfh_timestamp_us (of_header frame),
        eph_source_frame_index = cfh_frame_index (of_header frame),
        eph_episode_index = ps_episode_index s, eph_payload_len = payload_len\<rparr>)"

definition passthrough_encode ::
  "bus \<Rightarrow> owned_frame \<Rightarrow> passthrough_session \<Rightarrow> packet list \<Rightarrow>
   (passthrough_session \<times> packet list) \<times> (unit, encode_error) result" where
  "passthrough_encode bus frame s out =
     (let h = of_header frame in
      if cfh_pixel_format h \<noteq> Px_H264AnnexB then ((s, out), Err (PassthroughFormat (cfh_pixel_format h)))
      else if cfh_width h \<noteq> ps_width s \<or> cfh_height h \<noteq> ps_height s
      then ((s, out), Err (PassthroughDrift (ps_width s) (ps_height s) (cfh_width h) (cfh_height h)))
      else
        let keyframe = is_h264_keyframe (of_payload frame);
            pts_us = saturating_sub (cfh_timestamp_us h) (ps_recording_start_us s);
            header = build_header s Packet frame pts_us (ps_next_sequence s) (of_nat (length (of_payload frame))) keyframe;
            s1 = s\<lparr>ps_next_sequence := ps_next_sequence s + 1,
                  ps_metrics := (ps_metrics s)\<lparr>em_encoded_bytes :=
                    em_encoded_bytes (ps_metrics s) + length (of_payload frame)\<rparr>\<rparr>
        in case write_packet bus header (of_payload frame) out of
          Err e \<Rightarrow> ((s1, out), Err e)
        | Ok out' \<Rightarrow> ((s1, out'), Ok ()))"

definition passthrough_finish ::
  "bus \<Rightarrow> passthrough_session \<Rightarrow> packet list \<Rightarrow> packet list \<times> (unit, encode_error) result" where
  "passthrough_finish bus s out =
     published out (write_eos bus (set_scaling_locked True
       (eos_header CodecId_H264 (ps_width s) (ps_height s) Px_H264AnnexB 0 (ps_next_sequence s)
          (ps_recording_start_us s) (ps_episode_index s))) out)"

definition passthrough_record_dropped :: "passthrough_session \<Rightarrow> passthrough_session" where
  "passthrough_record_dropped s =
     s\<lparr>ps_metrics := (ps_metrics s)\<lparr>em_dropped_frames := em_dropped_frames (ps_metrics s) + 1\<rparr>\<rparr>"

section \<open>LibavCodecSession\<close>

record av_frame =
  af_format :: av_pixel
  af_width :: u32
  af_height :: u32
  af_pts :: "i64 option"
  af_intra :: bool
  af_data :: bytes

record av_packet =
  ap_data :: bytes
  ap_pts :: "i64 option"
  ap_dts :: "i64 option"
  ap_duration :: i64
  ap_key :: bool

text \<open>What a session settles on before it opens the encoder.\<close>

record libav_plan =
  lp_codec_name :: string
  lp_backend :: encoder_backend
  lp_chroma :: chroma_subsampling
  lp_bit_depth :: u8
  lp_scale_pixel :: av_pixel
  lp_encoder_pixel :: av_pixel
  lp_options :: "(string \<times> string) list"

text \<open>The functions of libav a session calls: opening the encoder for a plan (with whether a pool
  of hardware frames was made), the MJPEG decoder, a new frame's stride and data, the scaler, the
  upload to the hardware, and the encoder's send and receive.\<close>

record ('e, 's, 'm) av_ops =
  av_open :: "libav_plan \<Rightarrow> codec_session_params \<Rightarrow> ('e \<times> bool, encode_error) result"
  av_decode_mjpeg :: "bytes \<Rightarrow> 'm option \<Rightarrow> 'm option \<times> (av_frame, encode_error) result"
  av_new_frame :: "av_pixel \<Rightarrow> u32 \<Rightarrow> u32 \<Rightarrow> nat \<times> bytes"
  av_scaler :: "av_pixel \<Rightarrow> u32 \<Rightarrow> u32 \<Rightarrow> av_pixel \<Rightarrow> u32 \<Rightarrow> u32 \<Rightarrow> ('s, encode_error) result"
  av_scaler_range :: "'s \<Rightarrow> bool \<Rightarrow> bool \<Rightarrow> ('s, encode_error) result"
  av_scale :: "'s \<Rightarrow> av_frame \<Rightarrow> ('s \<times> av_frame, encode_error) result"
  av_upload :: "av_frame \<Rightarrow> av_pixel \<Rightarrow> (av_frame, encode_error) result"
  av_send :: "'e \<Rightarrow> av_frame \<Rightarrow> ('e, encode_error) result"
  av_send_eof :: "'e \<Rightarrow> ('e, encode_error) result"
  av_receive :: "'e \<Rightarrow> (av_packet \<times> 'e) option"

record ('e, 's, 'm) libav_session =
  ls_codec :: encoder_codec
  ls_actual_backend :: encoder_backend
  ls_width :: u32
  ls_height :: u32
  ls_process_id :: string
  ls_episode_index :: u32
  ls_recording_start_us :: u64
  ls_encoder :: 'e
  ls_scaler :: "'s option"
  ls_scaler_input_pixel :: "av_pixel option"
  ls_scaler_source_dims :: "(u32 \<times> u32) option"
  ls_allow_rescale :: bool
  ls_mjpeg_decoder :: "'m option"
  ls_scale_pixel :: av_pixel
  ls_encoder_pixel :: av_pixel
  ls_hw_frames :: bool
  ls_force_keyframe :: bool
  ls_next_sequence :: u64
  ls_last_pts_us :: "int option"
  ls_nonmonotonic_warning_logged :: bool
  ls_metrics :: encode_metrics

text \<open>\<open>LibavCodecSession::new\<close>: the negotiation, then the opening.\<close>

definition libav_negotiate ::
  "av_host \<Rightarrow> codec_session_params \<Rightarrow> pixel_format \<Rightarrow> (libav_plan, encode_error) result" where
  "libav_negotiate h params source =
     (let backend = resolve_backend h (csp_codec params) (csp_backend params) in
      require (select_encoder_name h (csp_codec params) backend) (BackendUnavailable backend (csp_codec params)) (\<lambda>codec_name.
      bind_ok (validate_source_pixel_format source) (\<lambda>_.
      bind_ok (resolve_chroma_subsampling h codec_name backend (csp_chroma_subsampling params)) (\<lambda>chroma.
      bind_ok (resolve_bit_depth h codec_name backend chroma (csp_bit_depth params)) (\<lambda>bit_depth.
      bind_ok (scaled_pixel_format h backend chroma bit_depth) (\<lambda>scale_pixel.
      bind_ok (encoder_pixel_format h backend chroma bit_depth) (\<lambda>encoder_pixel.
        Ok \<lparr>lp_codec_name = codec_name, lp_backend = backend, lp_chroma = chroma, lp_bit_depth = bit_depth,
            lp_scale_pixel = scale_pixel, lp_encoder_pixel = encoder_pixel,
            lp_options = build_codec_options codec_name backend (csp_crf params) (csp_preset params) (csp_tune params)\<rparr>)))))))"

definition LibavCodecSession_new ::
  "(unit, encode_error) result \<Rightarrow> av_host \<Rightarrow> ('e, 's, 'm) av_ops \<Rightarrow> codec_session_params \<Rightarrow> owned_frame \<Rightarrow>
   (('e, 's, 'm) libav_session, encode_error) result" where
  "LibavCodecSession_new av_init h ops params first_frame =
     bind_ok av_init (\<lambda>_.
     bind_ok (libav_negotiate h params (cfh_pixel_format (of_header first_frame))) (\<lambda>plan.
     bind_ok (av_open ops plan params) (\<lambda>(encoder, hw).
       Ok \<lparr>ls_codec = csp_codec params, ls_actual_backend = lp_backend plan, ls_width = csp_output_width params,
          ls_height = csp_output_height params, ls_process_id = csp_process_id params,
          ls_episode_index = csp_episode_index params, ls_recording_start_us = csp_recording_start_us params,
          ls_encoder = encoder, ls_scaler = None, ls_scaler_input_pixel = None, ls_scaler_source_dims = None,
          ls_allow_rescale = csp_allow_rescale params, ls_mjpeg_decoder = None,
          ls_scale_pixel = lp_scale_pixel plan, ls_encoder_pixel = lp_encoder_pixel plan, ls_hw_frames = hw,
          ls_force_keyframe = False, ls_next_sequence = 0, ls_last_pts_us = None,
          ls_nonmonotonic_warning_logged = False, ls_metrics = EncodeMetrics_default\<rparr>)))"

definition decode_or_copy_frame_to_av ::
  "('e, 's, 'm) av_ops \<Rightarrow> owned_frame \<Rightarrow> 'm option \<Rightarrow> 'm option \<times> (av_frame, encode_error) result" where
  "decode_or_copy_frame_to_av ops frame decoder =
     (let h = of_header frame in
      if cfh_pixel_format h = Px_Mjpeg then av_decode_mjpeg ops (of_payload frame) decoder
      else (decoder,
        bind_ok (pixel_format_for_libav (cfh_pixel_format h)) (\<lambda>source_pixel.
          let (stride, data) = av_new_frame ops source_pixel (cfh_width h) (cfh_height h) in
          bind_ok (copy_frame_payload stride h (of_payload frame) data) (\<lambda>filled.
            Ok \<lparr>af_format = source_pixel, af_width = cfh_width h, af_height = cfh_height h,
                af_pts = None, af_intra = False, af_data = filled\<rparr>))))"

definition full_range :: "av_pixel \<Rightarrow> bool" where
  "full_range p \<longleftrightarrow> p \<in> {AV_YUVJ420P, AV_YUVJ422P, AV_YUVJ444P}"

definition ensure_scaler ::
  "('e, 's, 'm) av_ops \<Rightarrow> av_pixel \<Rightarrow> u32 \<Rightarrow> u32 \<Rightarrow> ('e, 's, 'm) libav_session \<Rightarrow>
   (('e, 's, 'm) libav_session, encode_error) result" where
  "ensure_scaler ops source_pixel source_width source_height s =
     (let dims_match = (source_width = ls_width s \<and> source_height = ls_height s) in
      if source_pixel = ls_scale_pixel s \<and> dims_match
      then Ok (s\<lparr>ls_scaler_input_pixel := Some source_pixel,
                ls_scaler_source_dims := Some (source_width, source_height), ls_scaler := None\<rparr>)
      else if ls_scaler_input_pixel s = Some source_pixel
              \<and> ls_scaler_source_dims s = Some (source_width, source_height) \<and> ls_scaler s \<noteq> None
      then Ok s
      else
        bind_ok (av_scaler ops source_pixel source_width source_height (ls_scale_pixel s) (ls_width s) (ls_height s)) (\<lambda>scaler.
        bind_ok (av_scaler_range ops scaler (full_range source_pixel) (full_range (ls_scale_pixel s))) (\<lambda>scaler.
          Ok (s\<lparr>ls_scaler := Some scaler, ls_scaler_input_pixel := Some source_pixel,
                ls_scaler_source_dims := Some (source_width, source_height)\<rparr>))))"

text \<open>The loop that receives packets and writes them; it may not return for an encoder that never
  runs dry, so not returning is \<open>None\<close>. The state is the encoder, the next sequence number and
  the metrics.\<close>

definition packet_header ::
  "encoder_codec \<Rightarrow> u32 \<Rightarrow> u32 \<Rightarrow> owned_frame \<Rightarrow> u32 \<Rightarrow> u64 \<Rightarrow> av_packet \<Rightarrow> encoded_packet_header" where
  "packet_header codec width height frame episode sequence packet =
     (let pts = (case ap_pts packet of Some p \<Rightarrow> p | None \<Rightarrow> 0);
          dts = (case ap_dts packet of Some d \<Rightarrow> d | None \<Rightarrow> pts)
      in set_keyframe (ap_key packet)
        \<lparr>eph_kind = Packet, eph_codec = encoded_codec_id_of codec, eph_flags = 0, eph_width = width,
         eph_height = height, eph_pixel_format = cfh_pixel_format (of_header frame), eph_reserved0 = 0,
         eph_time_base_num = 1, eph_time_base_den = 1000000, eph_pts_us = pts, eph_dts_us = dts,
         eph_duration_us = ap_duration packet, eph_sequence_number = sequence,
         eph_source_timestamp_us = cfh_timestamp_us (of_header frame),
         eph_source_frame_index = cfh_frame_index (of_header frame), eph_episode_index = episode,
         eph_payload_len = of_nat (length (ap_data packet))\<rparr>)"

type_synonym 'e drain_state = "'e \<times> u64 \<times> encode_metrics"

partial_function (option) drain_encoder ::
  "('e \<Rightarrow> (av_packet \<times> 'e) option) \<Rightarrow> bus \<Rightarrow> encoder_codec \<Rightarrow> u32 \<Rightarrow> u32 \<Rightarrow> owned_frame \<Rightarrow> u32 \<Rightarrow>
   'e drain_state \<Rightarrow> packet list \<Rightarrow> (('e drain_state \<times> packet list) \<times> (unit, encode_error) result) option" where
  "drain_encoder receive bus codec width height frame episode st out =
     (case st of (encoder, sequence, metrics) \<Rightarrow>
        (case receive encoder of
           None \<Rightarrow> Some ((st, out), Ok ())
         | Some (packet, encoder') \<Rightarrow>
             (let st' = (encoder', sequence + 1,
                    metrics\<lparr>em_encoded_bytes := em_encoded_bytes metrics + length (ap_data packet)\<rparr>)
              in case write_packet bus (packet_header codec width height frame episode sequence packet)
                        (ap_data packet) out of
                Err e \<Rightarrow> Some ((st', out), Err e)
              | Ok out' \<Rightarrow> drain_encoder receive bus codec width height frame episode st' out')))"

definition drain_packets ::
  "('e, 's, 'm) av_ops \<Rightarrow> bus \<Rightarrow> owned_frame \<Rightarrow> ('e, 's, 'm) libav_session \<Rightarrow> packet list \<Rightarrow>
   ((('e, 's, 'm) libav_session \<times> packet list) \<times> (unit, encode_error) result) option" where
  "drain_packets ops bus frame s out =
     map_option (\<lambda>(((encoder, sequence, metrics), out'), r).
         ((s\<lparr>ls_encoder := encoder, ls_next_sequence := sequence, ls_metrics := metrics\<rparr>, out'), r))
       (drain_encoder (av_receive ops) bus (ls_codec s) (ls_width s) (ls_height s) frame (ls_episode_index s)
          (ls_encoder s, ls_next_sequence s, ls_metrics s) out)"

definition libav_send_frame ::
  "('e, 's, 'm) av_ops \<Rightarrow> av_frame \<Rightarrow> ('e, 's, 'm) libav_session \<Rightarrow> (('e, 's, 'm) libav_session, encode_error) result" where
  "libav_send_frame ops picture s =
     bind_ok (if ls_hw_frames s then av_upload ops picture (ls_encoder_pixel s) else Ok picture) (\<lambda>picture.
     bind_ok (av_send ops (ls_encoder s) picture) (\<lambda>encoder. Ok (s\<lparr>ls_encoder := encoder\<rparr>)))"

text \<open>From the decoded picture to the encoder; a \<open>?\<close> on the way leaves the fields set so far.\<close>

definition libav_submit ::
  "('e, 's, 'm) av_ops \<Rightarrow> owned_frame \<Rightarrow> int \<Rightarrow> ('e, 's, 'm) libav_session \<Rightarrow>
   ('e, 's, 'm) libav_session \<times> (unit, encode_error) result" where
  "libav_submit ops frame pts_us s =
     (let (decoder, decoded) = decode_or_copy_frame_to_av ops frame (ls_mjpeg_decoder s);
          s = s\<lparr>ls_mjpeg_decoder := decoder\<rparr>
      in case decoded of
        Err e \<Rightarrow> (s, Err e)
      | Ok source \<Rightarrow>
          if \<not> ls_allow_rescale s \<and> (af_width source \<noteq> ls_width s \<or> af_height source \<noteq> ls_height s)
          then (s, Err (DecodedDimensions (cfh_pixel_format (of_header frame)) (af_width source) (af_height source)
                          (ls_width s) (ls_height s)))
          else
            let force_idr = ls_force_keyframe s;
                s = s\<lparr>ls_force_keyframe := False\<rparr>
            in case ensure_scaler ops (af_format source) (af_width source) (af_height source) s of
              Err e \<Rightarrow> (s, Err e)
            | Ok s \<Rightarrow>
                let finish_picture = (\<lambda>picture. picture\<lparr>af_pts := Some (of_int pts_us),
                      af_intra := af_intra picture \<or> force_idr\<rparr>) in
                if af_format source = ls_scale_pixel s \<and> af_width source = ls_width s \<and> af_height source = ls_height s
                then (case libav_send_frame ops (finish_picture source) s of Err e \<Rightarrow> (s, Err e) | Ok s \<Rightarrow> (s, Ok ()))
                else (case ls_scaler s of
                    None \<Rightarrow> (s, Err (EncodePanic ''scaler should be initialized after ensure_scaler''))
                  | Some scaler \<Rightarrow>
                      (case av_scale ops scaler (source\<lparr>af_pts := Some (of_int pts_us)\<rparr>) of
                         Err e \<Rightarrow> (s, Err e)
                       | Ok (scaler, scaled) \<Rightarrow>
                           let s = s\<lparr>ls_scaler := Some scaler\<rparr> in
                           case libav_send_frame ops (finish_picture scaled) s of
                             Err e \<Rightarrow> (s, Err e) | Ok s \<Rightarrow> (s, Ok ()))))"

definition libav_record_dropped :: "('e, 's, 'm) libav_session \<Rightarrow> ('e, 's, 'm) libav_session" where
  "libav_record_dropped s =
     s\<lparr>ls_metrics := (ls_metrics s)\<lparr>em_dropped_frames := em_dropped_frames (ls_metrics s) + 1\<rparr>\<rparr>"

definition libav_encode ::
  "('e, 's, 'm) av_ops \<Rightarrow> bus \<Rightarrow> owned_frame \<Rightarrow> ('e, 's, 'm) libav_session \<Rightarrow> packet list \<Rightarrow>
   ((('e, 's, 'm) libav_session \<times> packet list) \<times> (unit, encode_error) result) option" where
  "libav_encode ops bus frame s out =
     (case ensure_frame_compatibility (of_header frame) (ls_width s) (ls_height s) (ls_allow_rescale s) of
        Err e \<Rightarrow> Some ((s, out), Err e)
      | Ok _ \<Rightarrow>
          (case compute_pts_us (cfh_timestamp_us (of_header frame)) (ls_recording_start_us s) (ls_last_pts_us s)
                  (ls_nonmonotonic_warning_logged s) of
             (None, prev, warned) \<Rightarrow> Some ((libav_record_dropped s, out), Ok ())
           | (Some pts_us, prev, warned) \<Rightarrow>
               (case libav_submit ops frame pts_us
                       (s\<lparr>ls_last_pts_us := prev, ls_nonmonotonic_warning_logged := warned\<rparr>) of
                  (s1, Err e) \<Rightarrow> Some ((s1, out), Err e)
                | (s1, Ok _) \<Rightarrow>
                    map_option (\<lambda>((s2, out'), r).
                        ((if is_ok r
                          then s2\<lparr>ls_metrics := record_frame (length (of_payload frame))
                                 (em_encoded_bytes (ls_metrics s2) - em_encoded_bytes (ls_metrics s1)) (ls_metrics s2)\<rparr>
                          else s2, out'), r))
                      (drain_packets ops bus frame s1 out))))"

text \<open>\<open>finish\<close> drains with a default frame header, then ends the stream.\<close>

definition sentinel_frame :: owned_frame where
  "sentinel_frame = \<lparr>of_header = CameraFrameHeader_default, of_payload = []\<rparr>"

definition libav_finish ::
  "('e, 's, 'm) av_ops \<Rightarrow> bus \<Rightarrow> ('e, 's, 'm) libav_session \<Rightarrow> packet list \<Rightarrow>
   (packet list \<times> (unit, encode_error) result) option" where
  "libav_finish ops bus s out =
     (case av_send_eof ops (ls_encoder s) of
        Err e \<Rightarrow> Some (out, Err e)
      | Ok encoder \<Rightarrow>
          Option.bind (drain_packets ops bus sentinel_frame (s\<lparr>ls_encoder := encoder\<rparr>) out) (\<lambda>((s1, out1), r).
            case r of
              Err e \<Rightarrow> Some (out1, Err e)
            | Ok _ \<Rightarrow>
                let prev = (case ls_last_pts_us s1 of Some p \<Rightarrow> of_int p | None \<Rightarrow> 0) in
                Some (published out1 (write_eos bus
                  (eos_header (encoded_codec_id_of (ls_codec s1)) (ls_width s1) (ls_height s1) Px_Rgb24 prev
                     (ls_next_sequence s1) 0 (ls_episode_index s1)) out1))))"

definition libav_request_keyframe :: "('e, 's, 'm) libav_session \<Rightarrow> ('e, 's, 'm) libav_session" where
  "libav_request_keyframe s = s\<lparr>ls_force_keyframe := True\<rparr>"

section \<open>What a session writes\<close>

definition of_episode :: "u32 \<Rightarrow> encoded_packet_kind \<Rightarrow> packet list \<Rightarrow> bool" where
  "of_episode episode kind ps \<longleftrightarrow> list_all (\<lambda>(h, p). eph_episode_index h = episode \<and> eph_kind h = kind) ps"

lemma of_episode_simps [simp]:
  "of_episode n k []" "of_episode n k ((h, p) # ps) \<longleftrightarrow> eph_episode_index h = n \<and> eph_kind h = k \<and> of_episode n k ps"
  "of_episode n k (ps @ qs) \<longleftrightarrow> of_episode n k ps \<and> of_episode n k qs"
  by (auto simp: of_episode_def)

text \<open>Encoding a list of frames stops at the first error; a whole session also finishes.\<close>

fun encode_all ::
  "(owned_frame \<Rightarrow> 's \<Rightarrow> packet list \<Rightarrow> (('s \<times> packet list) \<times> (unit, encode_error) result) option) \<Rightarrow>
   owned_frame list \<Rightarrow> 's \<Rightarrow> packet list \<Rightarrow> (('s \<times> packet list) \<times> (unit, encode_error) result) option" where
  "encode_all encode [] s out = Some ((s, out), Ok ())"
| "encode_all encode (f # fs) s out =
     Option.bind (encode f s out) (\<lambda>((s', out'), r).
       case r of Err e \<Rightarrow> Some ((s', out'), Err e) | Ok _ \<Rightarrow> encode_all encode fs s' out')"

definition whole_session ::
  "(owned_frame \<Rightarrow> 's \<Rightarrow> packet list \<Rightarrow> (('s \<times> packet list) \<times> (unit, encode_error) result) option) \<Rightarrow>
   ('s \<Rightarrow> packet list \<Rightarrow> (packet list \<times> (unit, encode_error) result) option) \<Rightarrow>
   owned_frame list \<Rightarrow> 's \<Rightarrow> packet list \<Rightarrow> (packet list \<times> (unit, encode_error) result) option" where
  "whole_session encode finish fs s out =
     Option.bind (encode_all encode fs s out) (\<lambda>((s', out'), r).
       case r of Err e \<Rightarrow> Some (out', Err e) | Ok _ \<Rightarrow> finish s' out')"

locale packet_session =
  fixes encode :: "owned_frame \<Rightarrow> 's \<Rightarrow> packet list \<Rightarrow> (('s \<times> packet list) \<times> (unit, encode_error) result) option"
    and finish :: "'s \<Rightarrow> packet list \<Rightarrow> (packet list \<times> (unit, encode_error) result) option"
    and seq :: "'s \<Rightarrow> u64"
    and episode :: "'s \<Rightarrow> u32"
  assumes encode_writes: "encode f s out = Some ((s', out'), r) \<Longrightarrow>
      \<exists>new. out' = out @ new \<and> numbered (seq s) new \<and> of_episode (episode s) Packet new \<and> episode s' = episode s
        \<and> (is_ok r \<longrightarrow> seq s' = seq s + of_nat (length new))"
    and finish_writes: "finish s out = Some (out', r) \<Longrightarrow>
      \<exists>new. numbered (seq s) (new @ drop (length (out @ new)) out') \<and> of_episode (episode s) Packet new
        \<and> (if is_ok r then \<exists>h. out' = out @ new @ [(h, [])] \<and> of_episode (episode s) EndOfStream [(h, [])]
           else out' = out @ new)"
begin

lemma encode_all_writes:
  "encode_all encode fs s out = Some ((s', out'), r) \<Longrightarrow>
   \<exists>new. out' = out @ new \<and> numbered (seq s) new \<and> of_episode (episode s) Packet new \<and> episode s' = episode s
     \<and> (is_ok r \<longrightarrow> seq s' = seq s + of_nat (length new))"
proof (induction fs arbitrary: s out)
  case Nil
  then show ?case by auto
next
  case (Cons f fs)
  then obtain s1 out1 r1 where step: "encode f s out = Some ((s1, out1), r1)"
    and rest: "(case r1 of Err e \<Rightarrow> Some ((s1, out1), Err e) | Ok _ \<Rightarrow> encode_all encode fs s1 out1) = Some ((s', out'), r)"
    by (auto simp: bind_eq_Some_conv)
  from encode_writes [OF step] obtain new1 where new1: "out1 = out @ new1" "numbered (seq s) new1"
    "of_episode (episode s) Packet new1" "episode s1 = episode s" "is_ok r1 \<longrightarrow> seq s1 = seq s + of_nat (length new1)"
    by blast
  show ?case
  proof (cases r1)
    case (Inl e)
    with rest new1 show ?thesis by auto
  next
    case (Inr u)
    with rest have "encode_all encode fs s1 out1 = Some ((s', out'), r)" by simp
    from Cons.IH [OF this] obtain new2 where "out' = out1 @ new2" "numbered (seq s1) new2"
      "of_episode (episode s1) Packet new2" "episode s' = episode s1" "is_ok r \<longrightarrow> seq s' = seq s1 + of_nat (length new2)"
      by blast
    with new1 Inr show ?thesis by (intro exI [of _ "new1 @ new2"]) (auto simp: numbered_append)
  qed
qed

text \<open>A session that ends well has written consecutively numbered packets of its episode and one
  end of stream; one that fails has written packets only.\<close>

theorem whole_session_writes:
  assumes "whole_session encode finish fs s out = Some (out', r)"
  shows "\<exists>pk. of_episode (episode s) Packet pk \<and> numbered (seq s) (pk @ drop (length (out @ pk)) out')
    \<and> (if is_ok r then \<exists>h. out' = out @ pk @ [(h, [])] \<and> eph_episode_index h = episode s \<and> eph_kind h = EndOfStream
                       \<and> eph_sequence_number h = seq s + of_nat (length pk)
       else out' = out @ pk)"
proof -
  from assms obtain s1 out1 r1 where all: "encode_all encode fs s out = Some ((s1, out1), r1)"
    and rest: "(case r1 of Err e \<Rightarrow> Some (out1, Err e) | Ok _ \<Rightarrow> finish s1 out1) = Some (out', r)"
    by (auto simp: whole_session_def bind_eq_Some_conv)
  from encode_all_writes [OF all] obtain new1 where new1: "out1 = out @ new1" "numbered (seq s) new1"
    "of_episode (episode s) Packet new1" "episode s1 = episode s" "is_ok r1 \<longrightarrow> seq s1 = seq s + of_nat (length new1)"
    by blast
  show ?thesis
  proof (cases r1)
    case (Inl e)
    with rest new1 show ?thesis by (intro exI [of _ new1]) auto
  next
    case (Inr u)
    with rest have "finish s1 out1 = Some (out', r)" by simp
    from finish_writes [OF this] obtain new2 where new2: "numbered (seq s1) (new2 @ drop (length (out1 @ new2)) out')"
      "of_episode (episode s1) Packet new2"
      "if is_ok r then \<exists>h. out' = out1 @ new2 @ [(h, [])] \<and> of_episode (episode s1) EndOfStream [(h, [])]
       else out' = out1 @ new2" by blast
    show ?thesis
    proof (intro exI [of _ "new1 @ new2"] conjI)
      show "of_episode (episode s) Packet (new1 @ new2)" using new1 new2 by simp
      show "numbered (seq s) ((new1 @ new2) @ drop (length (out @ new1 @ new2)) out')"
        using new1 new2 Inr by (simp add: numbered_append add.assoc)
      show "if is_ok r then \<exists>h. out' = out @ (new1 @ new2) @ [(h, [])] \<and> eph_episode_index h = episode s
              \<and> eph_kind h = EndOfStream \<and> eph_sequence_number h = seq s + of_nat (length (new1 @ new2))
            else out' = out @ new1 @ new2"
        using new1 new2 Inr by (auto simp: numbered_append)
    qed
  qed
qed

end

section \<open>The sessions keep it\<close>

lemma publish_packet_ok: "publish_packet bus h p out = Ok out' \<Longrightarrow> out' = out @ [(h, p)]"
  by (auto simp: publish_packet_def split: option.splits)

lemma set_keyframe_fields [simp]:
  "eph_sequence_number (set_keyframe v h) = eph_sequence_number h" "eph_kind (set_keyframe v h) = eph_kind h"
  "eph_episode_index (set_keyframe v h) = eph_episode_index h"
  "eph_source_timestamp_us (set_keyframe v h) = eph_source_timestamp_us h"
  "eph_pts_us (set_keyframe v h) = eph_pts_us h"
  by (auto simp: set_keyframe_def)

lemma set_scaling_locked_fields [simp]:
  "eph_sequence_number (set_scaling_locked v h) = eph_sequence_number h"
  "eph_kind (set_scaling_locked v h) = eph_kind h"
  "eph_episode_index (set_scaling_locked v h) = eph_episode_index h"
  "eph_source_timestamp_us (set_scaling_locked v h) = eph_source_timestamp_us h"
  by (auto simp: set_scaling_locked_def)

lemma eos_header_fields [simp]:
  "eph_sequence_number (eos_header c w h f pts n t ep) = n" "eph_kind (eos_header c w h f pts n t ep) = EndOfStream"
  "eph_episode_index (eos_header c w h f pts n t ep) = ep" "eph_source_timestamp_us (eos_header c w h f pts n t ep) = t"
  by (auto simp: eos_header_def)

lemma published_eos:
  assumes "published out (write_eos bus h out) = (out', r)"
  shows "if is_ok r then out' = out @ [(h, [])] else out' = out"
  using assms by (auto simp: published_def write_eos_def split: sum.splits dest: publish_packet_ok)

interpretation rvl: packet_session "\<lambda>f s out. Some (rvl_encode ops bus f s out)" "\<lambda>s out. Some (rvl_finish bus s out)"
  rs_next_sequence rs_episode_index
  for ops bus
proof
  fix f s out s' out' r
  assume "Some (rvl_encode ops bus f s out) = Some ((s', out'), r)"
  then show "\<exists>new. out' = out @ new \<and> numbered (rs_next_sequence s) new \<and> of_episode (rs_episode_index s) Packet new
      \<and> rs_episode_index s' = rs_episode_index s \<and> (is_ok r \<longrightarrow> rs_next_sequence s' = rs_next_sequence s + of_nat (length new))"
    by (auto simp: rvl_encode_def Let_def write_packet_def
        split: sum.splits if_splits prod.splits dest!: publish_packet_ok)
next
  fix s out out' r
  assume "Some (rvl_finish bus s out) = Some (out', r)"
  then show "\<exists>new. numbered (rs_next_sequence s) (new @ drop (length (out @ new)) out') \<and> of_episode (rs_episode_index s) Packet new
      \<and> (if is_ok r then \<exists>h. out' = out @ new @ [(h, [])] \<and> of_episode (rs_episode_index s) EndOfStream [(h, [])]
         else out' = out @ new)"
    by (intro exI [of _ "[]"]) (auto simp: rvl_finish_def dest!: published_eos split: if_splits)
qed

lemma build_header_fields [simp]:
  "eph_sequence_number (build_header s k f pts n l key) = n" "eph_kind (build_header s k f pts n l key) = k"
  "eph_episode_index (build_header s k f pts n l key) = ps_episode_index s"
  by (auto simp: build_header_def)

interpretation passthrough: packet_session "\<lambda>f s out. Some (passthrough_encode bus f s out)"
  "\<lambda>s out. Some (passthrough_finish bus s out)" ps_next_sequence ps_episode_index
  for bus
proof
  fix f s out s' out' r
  assume "Some (passthrough_encode bus f s out) = Some ((s', out'), r)"
  then show "\<exists>new. out' = out @ new \<and> numbered (ps_next_sequence s) new \<and> of_episode (ps_episode_index s) Packet new
      \<and> ps_episode_index s' = ps_episode_index s \<and> (is_ok r \<longrightarrow> ps_next_sequence s' = ps_next_sequence s + of_nat (length new))"
    by (auto simp: passthrough_encode_def Let_def write_packet_def
        split: sum.splits if_splits prod.splits dest!: publish_packet_ok)
next
  fix s out out' r
  assume "Some (passthrough_finish bus s out) = Some (out', r)"
  then show "\<exists>new. numbered (ps_next_sequence s) (new @ drop (length (out @ new)) out') \<and> of_episode (ps_episode_index s) Packet new
      \<and> (if is_ok r then \<exists>h. out' = out @ new @ [(h, [])] \<and> of_episode (ps_episode_index s) EndOfStream [(h, [])]
         else out' = out @ new)"
    by (intro exI [of _ "[]"]) (auto simp: passthrough_finish_def dest!: published_eos split: if_splits)
qed

lemma packet_header_fields [simp]:
  "eph_sequence_number (packet_header c w h f ep n p) = n" "eph_kind (packet_header c w h f ep n p) = Packet"
  "eph_episode_index (packet_header c w h f ep n p) = ep"
  "eph_source_timestamp_us (packet_header c w h f ep n p) = cfh_timestamp_us (of_header f)"
  by (auto simp: packet_header_def Let_def)


lemma drain_encoder_writes:
  "drain_encoder receive bus codec w h f ep st out = Some y \<Longrightarrow>
   \<exists>new. snd (fst y) = out @ new \<and> numbered (fst (snd st)) new \<and> of_episode ep Packet new
     \<and> list_all (\<lambda>(h, p). eph_source_timestamp_us h = cfh_timestamp_us (of_header f)) new
     \<and> (is_ok (snd y) \<longrightarrow> fst (snd (fst (fst y))) = fst (snd st) + of_nat (length new))"
proof (rule drain_encoder.raw_induct [where P = "\<lambda>receive bus codec w h f ep st out y.
      \<exists>new. snd (fst y) = out @ new \<and> numbered (fst (snd st)) new \<and> of_episode ep Packet new
        \<and> list_all (\<lambda>(h, p). eph_source_timestamp_us h = cfh_timestamp_us (of_header f)) new
        \<and> (is_ok (snd y) \<longrightarrow> fst (snd (fst (fst y))) = fst (snd st) + of_nat (length new))"],
    goal_cases step returns)
  case (step drain receive bus codec w h f ep st out y)
  obtain e n m where st: "st = (e, n, m)" by (cases st)
  show ?case
  proof (cases "receive e")
    case None
    with step(3) st show ?thesis by auto
  next
    case (Some pe)
    obtain p e' where pe: "pe = (p, e')" by (cases pe)
    show ?thesis
    proof (cases "write_packet bus (packet_header codec w h f ep n p) (ap_data p) out")
      case (Inl err)
      with step(3) st Some pe show ?thesis by (auto simp: Let_def)
    next
      case (Inr out1)
      then have out1: "out1 = out @ [(packet_header codec w h f ep n p, ap_data p)]"
        by (auto simp: write_packet_def dest: publish_packet_ok)
      from step(3) st Some pe Inr have "drain receive bus codec w h f ep
          (e', n + 1, m\<lparr>em_encoded_bytes := em_encoded_bytes m + length (ap_data p)\<rparr>) out1 = Some y"
        by (simp add: Let_def)
      from step(2) [OF this] out1 st show ?thesis by (auto simp: add.assoc)
    qed
  qed
qed

lemma drain_packets_writes:
  assumes "drain_packets ops bus f s out = Some ((s', out'), r)"
  shows "\<exists>new. out' = out @ new \<and> numbered (ls_next_sequence s) new \<and> of_episode (ls_episode_index s) Packet new
     \<and> list_all (\<lambda>(h, p). eph_source_timestamp_us h = cfh_timestamp_us (of_header f)) new
     \<and> ls_episode_index s' = ls_episode_index s
     \<and> (is_ok r \<longrightarrow> ls_next_sequence s' = ls_next_sequence s + of_nat (length new))"
  using assms by (auto simp: drain_packets_def dest!: drain_encoder_writes)

lemma ensure_scaler_keeps:
  "ensure_scaler ops px w h s = Ok s' \<Longrightarrow>
   ls_next_sequence s' = ls_next_sequence s \<and> ls_episode_index s' = ls_episode_index s"
  by (auto simp: ensure_scaler_def Let_def bind_ok_def split: if_splits sum.splits)

lemma libav_send_frame_keeps:
  "libav_send_frame ops pic s = Ok s' \<Longrightarrow>
   ls_next_sequence s' = ls_next_sequence s \<and> ls_episode_index s' = ls_episode_index s"
  by (auto simp: libav_send_frame_def bind_ok_def split: if_splits sum.splits)

lemma libav_submit_keeps:
  assumes "libav_submit ops f pts s = (s', r)"
  shows "ls_next_sequence s' = ls_next_sequence s \<and> ls_episode_index s' = ls_episode_index s"
proof -
  obtain d decoded where dec: "decode_or_copy_frame_to_av ops f (ls_mjpeg_decoder s) = (d, decoded)" by fastforce
  define s1 where "s1 = s\<lparr>ls_mjpeg_decoder := d\<rparr>"
  define s2 where "s2 = s1\<lparr>ls_force_keyframe := False\<rparr>"
  have same: "ls_next_sequence s1 = ls_next_sequence s" "ls_episode_index s1 = ls_episode_index s"
    "ls_next_sequence s2 = ls_next_sequence s" "ls_episode_index s2 = ls_episode_index s"
    by (simp_all add: s1_def s2_def)
  note unfolded = assms [unfolded libav_submit_def dec Let_def prod.case, folded s1_def, folded s2_def]
  show ?thesis
  proof (cases decoded)
    case (Inl e)
    with unfolded same show ?thesis by auto
  next
    case (Inr source)
    show ?thesis
    proof (cases "ensure_scaler ops (af_format source) (af_width source) (af_height source) s2")
      case (Inl e)
      with unfolded same \<open>decoded = _\<close> show ?thesis by (auto split: if_splits)
    next
      case (Inr s3)
      from ensure_scaler_keeps [OF this] unfolded same \<open>decoded = _\<close> Inr show ?thesis
        by (auto split: if_splits option.splits sum.splits dest!: libav_send_frame_keeps)
    qed
  qed
qed

lemma libav_encode_writes:
  assumes "libav_encode ops bus f s out = Some ((s', out'), r)"
  shows "\<exists>new. out' = out @ new \<and> numbered (ls_next_sequence s) new \<and> of_episode (ls_episode_index s) Packet new
      \<and> ls_episode_index s' = ls_episode_index s \<and> (is_ok r \<longrightarrow> ls_next_sequence s' = ls_next_sequence s + of_nat (length new))"
proof -
  have none: ?thesis if "out' = out" "ls_next_sequence s' = ls_next_sequence s" "ls_episode_index s' = ls_episode_index s"
    using that by (intro exI [of _ "[]"]) simp
  show ?thesis
  proof (cases "ensure_frame_compatibility (of_header f) (ls_width s) (ls_height s) (ls_allow_rescale s)")
    case (Inl e)
    with assms show ?thesis by (intro none) (auto simp: libav_encode_def)
  next
    case (Inr u)
    show ?thesis
    proof -
      obtain p prev warned where pts: "compute_pts_us (cfh_timestamp_us (of_header f)) (ls_recording_start_us s)
          (ls_last_pts_us s) (ls_nonmonotonic_warning_logged s) = (p, prev, warned)" by (metis prod_cases3)
      show ?thesis
      proof (cases p)
        case None
        with assms Inr pts show ?thesis by (intro none) (auto simp: libav_encode_def libav_record_dropped_def)
      next
        case (Some pts_us)
        obtain s1 r1 where sub: "libav_submit ops f pts_us
            (s\<lparr>ls_last_pts_us := prev, ls_nonmonotonic_warning_logged := warned\<rparr>) = (s1, r1)" by fastforce
        note keeps = libav_submit_keeps [OF sub, simplified]
        show ?thesis
        proof (cases r1)
          case (Inl e)
          with assms \<open>_ = Inr u\<close> pts Some sub keeps show ?thesis by (intro none) (auto simp: libav_encode_def)
        next
          case (Inr v)
          with assms \<open>_ = Inr u\<close> pts Some sub obtain s2 where drain: "drain_packets ops bus f s1 out = Some ((s2, out'), r)"
            and s': "s' = (if is_ok r then s2\<lparr>ls_metrics := record_frame (length (of_payload f))
               (em_encoded_bytes (ls_metrics s2) - em_encoded_bytes (ls_metrics s1)) (ls_metrics s2)\<rparr> else s2)"
            by (auto simp: libav_encode_def)
          from drain_packets_writes [OF drain] keeps s' show ?thesis by auto
        qed
      qed
    qed
  qed
qed

interpretation libav: packet_session "libav_encode ops bus" "libav_finish ops bus" ls_next_sequence ls_episode_index
  for ops bus
proof
  fix f s out s' out' r
  assume "libav_encode ops bus f s out = Some ((s', out'), r)"
  then show "\<exists>new. out' = out @ new \<and> numbered (ls_next_sequence s) new \<and> of_episode (ls_episode_index s) Packet new
      \<and> ls_episode_index s' = ls_episode_index s \<and> (is_ok r \<longrightarrow> ls_next_sequence s' = ls_next_sequence s + of_nat (length new))"
    by (rule libav_encode_writes)
next
  fix s out out' r
  assume fin: "libav_finish ops bus s out = Some (out', r)"
  show "\<exists>new. numbered (ls_next_sequence s) (new @ drop (length (out @ new)) out') \<and> of_episode (ls_episode_index s) Packet new
      \<and> (if is_ok r then \<exists>h. out' = out @ new @ [(h, [])] \<and> of_episode (ls_episode_index s) EndOfStream [(h, [])]
         else out' = out @ new)"
  proof (cases "av_send_eof ops (ls_encoder s)")
    case (Inl e)
    with fin show ?thesis by (intro exI [of _ "[]"]) (auto simp: libav_finish_def)
  next
    case (Inr encoder)
    with fin obtain s1 out1 r1 where drain: "drain_packets ops bus sentinel_frame (s\<lparr>ls_encoder := encoder\<rparr>) out = Some ((s1, out1), r1)"
      by (auto simp: libav_finish_def bind_eq_Some_conv)
    from drain_packets_writes [OF this] obtain new where new: "out1 = out @ new" "numbered (ls_next_sequence s) new"
      "of_episode (ls_episode_index s) Packet new" "ls_episode_index s1 = ls_episode_index s"
      "is_ok r1 \<longrightarrow> ls_next_sequence s1 = ls_next_sequence s + of_nat (length new)" by auto
    with fin Inr drain show ?thesis
      by (intro exI [of _ new])
        (auto simp: libav_finish_def numbered_append split: sum.splits if_splits dest!: published_eos)
  qed
qed

section \<open>Termination of the drain\<close>

text \<open>An encoder holds finitely many packets: \<open>pending\<close> counts those it can still hand out.\<close>

lemma drain_encoder_returns:
  assumes "\<And>e p e'. receive e = Some (p, e') \<Longrightarrow> pending e' < (pending e :: nat)"
  shows "\<exists>y. drain_encoder receive bus codec w h f ep (e, n, m) out = Some y"
proof (induction "pending e" arbitrary: e n m out rule: less_induct)
  case less
  show ?case
  proof (cases "receive e")
    case None
    then show ?thesis by (subst drain_encoder.simps) simp
  next
    case (Some pe)
    obtain p e' where pe: "pe = (p, e')" by (cases pe)
    have "pending e' < pending e" using assms Some pe by simp
    from less [OF this] Some pe show ?thesis
      by (subst drain_encoder.simps) (auto simp: Let_def split: sum.splits)
  qed
qed

lemma drain_packets_returns:
  assumes "\<And>e p e'. av_receive ops e = Some (p, e') \<Longrightarrow> pending e' < (pending e :: nat)"
  shows "\<exists>y. drain_packets ops bus f s out = Some y"
  using drain_encoder_returns [of "av_receive ops" pending, OF assms] by (fastforce simp: drain_packets_def)

theorem libav_session_returns:
  assumes "\<And>e p e'. av_receive ops e = Some (p, e') \<Longrightarrow> pending e' < (pending e :: nat)"
  shows "\<exists>y. whole_session (libav_encode ops bus) (libav_finish ops bus) fs s out = Some y"
proof -
  have drain: "\<exists>a b r. drain_packets ops bus f s out = Some ((a, b), r)" for f s out
    using drain_packets_returns [of ops pending bus f s out] assms by auto
  have enc: "\<exists>y. libav_encode ops bus f s out = Some y" for f s out
    by (auto simp: libav_encode_def split: sum.splits prod.splits option.splits) (use drain in blast)
  have all: "\<exists>y. encode_all (libav_encode ops bus) fs s out = Some y" for fs s out
  proof (induction fs arbitrary: s out)
    case (Cons f fs)
    obtain s1 out1 r where "libav_encode ops bus f s out = Some ((s1, out1), r)" using enc by (metis surj_pair)
    with Cons show ?case by (auto split: sum.splits)
  qed simp
  have fin: "\<exists>y. libav_finish ops bus s out = Some y" for s out
  proof (cases "av_send_eof ops (ls_encoder s)")
    case (Inr e)
    obtain s1 out1 r where "drain_packets ops bus sentinel_frame (s\<lparr>ls_encoder := e\<rparr>) out = Some ((s1, out1), r)"
      using drain by blast
    with Inr show ?thesis by (auto simp: libav_finish_def Let_def split: sum.splits)
  qed (simp add: libav_finish_def)
  obtain s1 out1 r where "encode_all (libav_encode ops bus) fs s out = Some ((s1, out1), r)" using all by (metis surj_pair)
  with fin show ?thesis by (auto simp: whole_session_def split: sum.splits)
qed

section \<open>What the metrics and the flushed packets hold\<close>

text \<open>\<open>encode\<close> adds a packet's size to the metrics, and \<open>record_frame\<close> adds it again.\<close>

lemma rvl_encoded_bytes:
  assumes "rvl_encode ops bus f s out = ((s', out'), Ok ())"
  shows "\<exists>h p. out' = out @ [(h, p)]
    \<and> em_encoded_bytes (rs_metrics s') = em_encoded_bytes (rs_metrics s) + 2 * length p"
  using assms by (auto simp: rvl_encode_def Let_def write_packet_def record_frame_def
      split: sum.splits if_splits prod.splits dest!: publish_packet_ok)

lemma rvl_early_pts:
  assumes "rvl_encode ops bus f s out = ((s', out'), Ok ())" and "cfh_timestamp_us (of_header f) < rs_recording_start_us s"
  shows "\<exists>h p. out' = out @ [(h, p)] \<and> eph_pts_us h = 0"
  using assms by (auto simp: rvl_encode_def Let_def write_packet_def saturating_sub_def
      split: sum.splits if_splits prod.splits dest!: publish_packet_ok)

lemma flushed_timestamps:
  assumes "libav_finish ops bus s out = Some (out', r)"
  shows "\<exists>new. out' = out @ new \<and> list_all (\<lambda>(h, p). eph_source_timestamp_us h = 0) new"
proof (cases "av_send_eof ops (ls_encoder s)")
  case (Inl e)
  with assms show ?thesis by (auto simp: libav_finish_def)
next
  case (Inr encoder)
  with assms obtain s1 out1 r1 where drain: "drain_packets ops bus sentinel_frame (s\<lparr>ls_encoder := encoder\<rparr>) out = Some ((s1, out1), r1)"
    by (auto simp: libav_finish_def bind_eq_Some_conv)
  have zero: "cfh_timestamp_us (of_header sentinel_frame) = 0"
    by (simp add: sentinel_frame_def CameraFrameHeader_default_def)
  from drain_packets_writes [OF drain] zero obtain new where new: "out1 = out @ new"
    "list_all (\<lambda>(h, p). eph_source_timestamp_us h = 0) new" by auto
  from assms Inr drain new show ?thesis
    by (auto simp: libav_finish_def Let_def split: sum.splits if_splits dest!: published_eos)
qed

section \<open>A session into the assemblers' buffers\<close>

lemma numbered_whole:
  assumes "numbered n (pk @ drop (length (out @ pk)) (out @ pk @ [q]))"
  shows "numbered n pk \<and> eph_sequence_number (fst q) = n + of_nat (length pk)"
  using assms by (cases q) (auto simp: numbered_append)

theorem session_fills_buffers:
  assumes "of_episode n Packet pk" and "numbered k pk" and "eph_sequence_number h = k + of_nat (length pk)"
  shows "rsb_failed (feed observe_packet pk RecordingStreamBuffer_default) = None"
    and "rsb_packets (feed observe_packet pk RecordingStreamBuffer_default) = gop pk"
    and "gop pk \<noteq> [] \<Longrightarrow> is_complete (observe_eos h (feed observe_packet pk RecordingStreamBuffer_default))"
    and "csb_failed (feed camera_observe_packet pk CameraStreamBuffer_default) = None"
    and "csb_packets (feed camera_observe_packet pk CameraStreamBuffer_default) = map camera_packet_of (gop pk)"
proof -
  note r = rsb.numbered_stream [OF assms(2)] and c = csb.numbered_stream [OF assms(2)]
  show "rsb_failed (feed observe_packet pk RecordingStreamBuffer_default) = None"
    and "rsb_packets (feed observe_packet pk RecordingStreamBuffer_default) = gop pk"
    and "csb_failed (feed camera_observe_packet pk CameraStreamBuffer_default) = None"
    and "csb_packets (feed camera_observe_packet pk CameraStreamBuffer_default) = map camera_packet_of (gop pk)"
    using r c by auto
  assume g: "gop pk \<noteq> []"
  let ?b = "feed observe_packet pk RecordingStreamBuffer_default"
  have "rsb_seen_keyframe ?b" using r g by (auto simp: rsb_sound_def rsb_expects_def)
  then have "rsb_seen_keyframe (observe_eos h ?b)"
    by (auto simp: observe_eos_def update_sequence_def split: option.splits sum.splits if_splits)
  with rsb.numbered_stream_closed [OF assms(2) g assms(3)]
  show "is_complete (observe_eos h ?b)" by (simp add: is_complete_def)
qed

section \<open>Properties\<close>

text \<open>C27: a libav recording session returns for every list of frames, provided the encoder
  holds finitely many packets, that is, some count goes down with every packet taken out of it.\<close>

theorem libav_session_terminates:
  assumes "\<And>e p e'. av_receive ops e = Some (p, e') \<Longrightarrow> pending e' < (pending e :: nat)"
  shows "\<exists>y. whole_session (libav_encode ops bus) (libav_finish ops bus) fs s out = Some y"
  using assms by (rule libav_session_returns)

definition queue_av :: "(av_packet list, unit, unit) av_ops" where
  "queue_av = \<lparr>av_open = (\<lambda>plan params. Ok ([], False)), av_decode_mjpeg = (\<lambda>p d. (d, Err (EncodePanic ''mjpeg''))),
     av_new_frame = (\<lambda>px w h. (0, [])), av_scaler = (\<lambda>a b c d e f. Ok ()), av_scaler_range = (\<lambda>s a b. Ok s),
     av_scale = (\<lambda>s f. Ok (s, f)), av_upload = (\<lambda>f px. Ok f), av_send = (\<lambda>e f. Ok e), av_send_eof = (\<lambda>e. Ok e),
     av_receive = (\<lambda>e. case e of [] \<Rightarrow> None | p # e' \<Rightarrow> Some (p, e'))\<rparr>"

text \<open>Every packet a libav session writes while it finishes carries the source timestamp
  zero instead of that of a frame.\<close>

theorem flushed_packets_untimed:
  assumes "libav_finish ops bus s out = Some (out', r)"
  shows "\<exists>new. out' = out @ new \<and> list_all (\<lambda>(h, p). eph_source_timestamp_us h = 0) new"
  using assms by (rule flushed_timestamps)

definition queue_session :: "(av_packet list, unit, unit) libav_session" where
  "queue_session = \<lparr>ls_codec = H264, ls_actual_backend = BackendCpu, ls_width = 1, ls_height = 1, ls_process_id = ''e'',
     ls_episode_index = 0, ls_recording_start_us = 0,
     ls_encoder = [\<lparr>ap_data = [1], ap_pts = Some 40, ap_dts = Some 40, ap_duration = 0, ap_key = False\<rparr>],
     ls_scaler = None, ls_scaler_input_pixel = None,
     ls_scaler_source_dims = None, ls_allow_rescale = False, ls_mjpeg_decoder = None, ls_scale_pixel = AV_YUV420P,
     ls_encoder_pixel = AV_YUV420P, ls_hw_frames = False, ls_force_keyframe = False, ls_next_sequence = 0,
     ls_last_pts_us = None, ls_nonmonotonic_warning_logged = False, ls_metrics = EncodeMetrics_default\<rparr>"

theorem libav_session_terminates_witness:
  "\<exists>y. whole_session (libav_encode queue_av (\<lambda>out q. None)) (libav_finish queue_av (\<lambda>out q. None)) [] queue_session [] = Some y"
  by (rule libav_session_terminates [where pending = length]) (auto simp: queue_av_def split: list.splits)

lemma queue_session_finishes:
  "\<exists>q e. libav_finish queue_av (\<lambda>out q. None) queue_session [] = Some ([q, e], Ok ())"
  by (simp add: libav_finish_def queue_av_def queue_session_def drain_packets_def drain_encoder.simps Let_def
      write_packet_def write_eos_def publish_packet_def published_def)

theorem flushed_packets_untimed_witness:
  "\<exists>h p e. libav_finish queue_av (\<lambda>out q. None) queue_session [] = Some ([(h, p), e], Ok ())
     \<and> eph_source_timestamp_us h = 0"
proof -
  obtain h p e where run: "libav_finish queue_av (\<lambda>out q. None) queue_session [] = Some ([(h, p), e], Ok ())"
    using queue_session_finishes by (metis surj_pair)
  from flushed_packets_untimed [OF run] have "eph_source_timestamp_us h = 0" by auto
  with run show ?thesis by blast
qed

end
