(* ===== verification/Hw_Session.thy ===== *)
theory Hw_Session
  imports Codec_Session
begin

text \<open>
  The hardware sessions of \<^verbatim>\<open>encoder/src/backend/color/libav_vaapi.rs\<close> and
  \<^verbatim>\<open>libav_nvidia.rs\<close>, with the arguments of \<^verbatim>\<open>backend/filter_graph.rs\<close>: an input stage that
  decodes or wraps a frame, a filter graph that uploads and scales, and an encoder. Decoders,
  bitstream filter and graph are functions of the record \<open>hw_ops\<close>; the encoder is that of
  \<open>av_ops\<close>. Both keep the contract of \<open>packet_session\<close>.
\<close>

section \<open>The filter graph\<close>

datatype hw_accel = Cuda | Vaapi

fun scale_filter_name :: "hw_accel \<Rightarrow> string" where
  "scale_filter_name Cuda = ''scale_cuda''"
| "scale_filter_name Vaapi = ''scale_vaapi''"

fun hw_pixel :: "av_host \<Rightarrow> hw_accel \<Rightarrow> av_pixel" where
  "hw_pixel h Cuda = AV_CUDA"
| "hw_pixel h Vaapi = (if h_ffmpeg_5_1 h then AV_VAAPI else AV_NV12)"

fun hw_pixel_name :: "hw_accel \<Rightarrow> string" where
  "hw_pixel_name Cuda = ''cuda''"
| "hw_pixel_name Vaapi = ''vaapi''"

datatype input_residency = ResidesHw | ResidesCpu

record scale_graph_config =
  sg_hw_accel :: hw_accel
  sg_residency :: input_residency
  sg_src_width :: u32
  sg_src_height :: u32
  sg_src_pixel :: av_pixel
  sg_dst_width :: u32
  sg_dst_height :: u32
  sg_dst_sw_format :: av_pixel

definition pix_fmt_name :: "av_host \<Rightarrow> av_pixel \<Rightarrow> (string, encode_error) result" where
  "pix_fmt_name h fmt =
     (case fmt of AV_NV12 \<Rightarrow> Ok ''nv12'' | AV_NV16 \<Rightarrow> Ok ''nv16'' | AV_YUV420P \<Rightarrow> Ok ''yuv420p''
      | AV_YUV422P \<Rightarrow> Ok ''yuv422p'' | AV_YUVJ420P \<Rightarrow> Ok ''yuvj420p'' | AV_YUVJ422P \<Rightarrow> Ok ''yuvj422p''
      | AV_YUVJ444P \<Rightarrow> Ok ''yuvj444p'' | AV_RGB24 \<Rightarrow> Ok ''rgb24'' | AV_BGR24 \<Rightarrow> Ok ''bgr24''
      | AV_YUYV422 \<Rightarrow> Ok ''yuyv422'' | AV_GRAY8 \<Rightarrow> Ok ''gray'' | AV_CUDA \<Rightarrow> Ok ''cuda''
      | AV_VAAPI \<Rightarrow> if h_ffmpeg_5_1 h then Ok ''vaapi'' else Err (FilterPixelFormat fmt)
      | _ \<Rightarrow> Err (FilterPixelFormat fmt))"

definition source_args :: "av_host \<Rightarrow> scale_graph_config \<Rightarrow> (string, encode_error) result" where
  "source_args h c =
     bind_ok (case sg_residency c of ResidesHw \<Rightarrow> Ok (hw_pixel_name (sg_hw_accel c))
                | ResidesCpu \<Rightarrow> pix_fmt_name h (sg_src_pixel c)) (\<lambda>pix_fmt.
       Ok (''video_size='' @ show_nat (unat (sg_src_width c)) @ ''x'' @ show_nat (unat (sg_src_height c))
           @ '':pix_fmt='' @ pix_fmt @ '':time_base='' @ show_nat 1 @ ''/'' @ show_nat 1000000 @ '':pixel_aspect=1/1''))"

definition scale_args :: "av_host \<Rightarrow> scale_graph_config \<Rightarrow> (string, encode_error) result" where
  "scale_args h c =
     bind_ok (pix_fmt_name h (sg_dst_sw_format c)) (\<lambda>fmt.
       Ok (''w='' @ show_nat (unat (sg_dst_width c)) @ '':h='' @ show_nat (unat (sg_dst_height c)) @ '':format='' @ fmt))"

record hw_encoder_config =
  he_codec_name :: string
  he_width :: u32
  he_height :: u32
  he_fps :: u32
  he_pixel :: av_pixel
  he_color :: "(av_color \<times> av_color \<times> av_color) option"
  he_options :: "(string \<times> string) list"

text \<open>The decoders (software, cuvid), the \<open>mjpeg2jpeg\<close> bitstream filter, the graph built from its
  source arguments, scale filter, scale arguments and residency, and the opening of the encoder
  on the frames of a graph.\<close>

record ('x, 'b, 'g, 'e) hw_ops =
  hw_device :: "encoder_backend \<Rightarrow> (unit, encode_error) result"
  hw_decoder :: "(('x, encode_error) result)"
  hw_cuvid :: "string \<Rightarrow> u32 \<Rightarrow> u32 \<Rightarrow> ('x, encode_error) result"
  hw_decode_send :: "'x \<Rightarrow> bytes \<Rightarrow> ('x, encode_error) result"
  hw_decode_receive :: "'x \<Rightarrow> (av_frame \<times> 'x) option"
  hw_bsf_new :: "('b, encode_error) result"
  hw_bsf_filter :: "'b \<Rightarrow> bytes \<Rightarrow> ('b \<times> bytes, encode_error) result"
  hw_has_frames :: "av_frame \<Rightarrow> bool"
  hw_graph :: "string \<Rightarrow> string \<Rightarrow> string \<Rightarrow> input_residency \<Rightarrow> ('g, encode_error) result"
  hw_graph_send :: "'g \<Rightarrow> av_frame \<Rightarrow> ('g, encode_error) result"
  hw_graph_receive :: "'g \<Rightarrow> ((av_frame \<times> 'g) option, encode_error) result"
  hw_open :: "hw_encoder_config \<Rightarrow> 'g \<Rightarrow> ('e, encode_error) result"

definition ScaleGraph_build ::
  "av_host \<Rightarrow> ('x, 'b, 'g, 'e) hw_ops \<Rightarrow> scale_graph_config \<Rightarrow> ('g, encode_error) result" where
  "ScaleGraph_build h ops c =
     bind_ok (source_args h c) (\<lambda>src_args.
     bind_ok (scale_args h c) (\<lambda>sc_args.
       hw_graph ops src_args (scale_filter_name (sg_hw_accel c)) sc_args (sg_residency c)))"

section \<open>Loops over decoder and graph\<close>

definition relabel :: "av_pixel \<Rightarrow> av_pixel" where
  "relabel p = (case p of AV_YUVJ420P \<Rightarrow> AV_YUV420P | AV_YUVJ422P \<Rightarrow> AV_YUV422P | AV_YUVJ444P \<Rightarrow> AV_YUV444P | _ \<Rightarrow> p)"

text \<open>Receive every decoded frame, stamped with the timestamp of the packet just sent.\<close>

partial_function (option) collect_decoded ::
  "('x \<Rightarrow> (av_frame \<times> 'x) option) \<Rightarrow> bool \<Rightarrow> i64 \<Rightarrow> 'x \<Rightarrow> av_frame list \<Rightarrow> ('x \<times> av_frame list) option" where
  "collect_decoded receive relabels pts decoder frames =
     (case receive decoder of
        None \<Rightarrow> Some (decoder, frames)
      | Some (decoded, decoder') \<Rightarrow>
          collect_decoded receive relabels pts decoder' (frames @
            [decoded\<lparr>af_format := (if relabels then relabel (af_format decoded) else af_format decoded),
                     af_pts := Some pts\<rparr>]))"

text \<open>Every frame the graph has ready goes to the encoder; the first takes a pending keyframe
  request. The state is the graph, the encoder and the request.\<close>

partial_function (option) pump_graph ::
  "('g \<Rightarrow> ((av_frame \<times> 'g) option, encode_error) result) \<Rightarrow> ('e \<Rightarrow> av_frame \<Rightarrow> ('e, encode_error) result) \<Rightarrow>
   'g \<times> 'e \<times> bool \<Rightarrow> (('g \<times> 'e \<times> bool) \<times> (unit, encode_error) result) option" where
  "pump_graph receive send st =
     (case st of (graph, encoder, force) \<Rightarrow>
       (case receive graph of
          Err e \<Rightarrow> Some (st, Err e)
        | Ok None \<Rightarrow> Some (st, Ok ())
        | Ok (Some (scaled, graph')) \<Rightarrow>
            (case send encoder (scaled\<lparr>af_intra := af_intra scaled \<or> force\<rparr>) of
               Err e \<Rightarrow> Some ((graph', encoder, False), Err e)
             | Ok encoder' \<Rightarrow> pump_graph receive send (graph', encoder', False))))"

fun send_all :: "('g \<Rightarrow> av_frame \<Rightarrow> ('g, encode_error) result) \<Rightarrow> av_frame list \<Rightarrow> 'g \<Rightarrow> 'g \<times> (unit, encode_error) result" where
  "send_all send [] graph = (graph, Ok ())"
| "send_all send (d # ds) graph =
     (case send graph d of Err e \<Rightarrow> (graph, Err e) | Ok graph' \<Rightarrow> send_all send ds graph')"

section \<open>VaapiHwSession\<close>

datatype ('x, 'b) input_stage = Cuvid 'x "'b option" | CpuDecode 'x | RawInput av_pixel

record ('x, 'b, 'g, 'e) hw_session =
  hs_codec :: encoder_codec
  hs_width :: u32
  hs_height :: u32
  hs_episode_index :: u32
  hs_recording_start_us :: u64
  hs_fps :: u32
  hs_crf :: "u8 option"
  hs_color_space :: encoder_color_space
  hs_pipeline :: "(('x, 'b) input_stage \<times> ('g \<times> 'e) option) option"
  hs_force_keyframe :: bool
  hs_next_sequence :: u64
  hs_last_pts_us :: "int option"
  hs_nonmonotonic_warning_logged :: bool
  hs_metrics :: encode_metrics

definition hw_session_empty :: "codec_session_params \<Rightarrow> ('x, 'b, 'g, 'e) hw_session" where
  "hw_session_empty params =
     \<lparr>hs_codec = csp_codec params, hs_width = csp_output_width params, hs_height = csp_output_height params,
      hs_episode_index = csp_episode_index params, hs_recording_start_us = csp_recording_start_us params,
      hs_fps = csp_fps params, hs_crf = csp_crf params, hs_color_space = csp_color_space params,
      hs_pipeline = None, hs_force_keyframe = False, hs_next_sequence = 0, hs_last_pts_us = None,
      hs_nonmonotonic_warning_logged = False, hs_metrics = EncodeMetrics_default\<rparr>"

definition vaapi_open_encoder ::
  "av_host \<Rightarrow> ('x, 'b, 'g, 'e) hw_ops \<Rightarrow> ('x, 'b, 'g, 'e) hw_session \<Rightarrow> 'g \<Rightarrow> ('e, encode_error) result" where
  "vaapi_open_encoder h ops s graph =
     require (select_encoder_name h (hs_codec s) BackendVaapi) (NoHwEncoder BackendVaapi (hs_codec s)) (\<lambda>codec_name.
       hw_open ops
         \<lparr>he_codec_name = codec_name, he_width = hs_width s, he_height = hs_height s, he_fps = hs_fps s,
          he_pixel = (if h_ffmpeg_5_1 h then AV_VAAPI else AV_NV12), he_color = color_space_metadata (hs_color_space s),
          he_options = build_codec_options codec_name BackendVaapi (hs_crf s) None None\<rparr> graph)"

definition cpu_graph_config :: "hw_accel \<Rightarrow> ('x, 'b, 'g, 'e) hw_session \<Rightarrow> owned_frame \<Rightarrow> av_pixel \<Rightarrow> scale_graph_config" where
  "cpu_graph_config accel s first_frame source_pixel =
     \<lparr>sg_hw_accel = accel, sg_residency = ResidesCpu, sg_src_width = cfh_width (of_header first_frame),
      sg_src_height = cfh_height (of_header first_frame), sg_src_pixel = source_pixel,
      sg_dst_width = hs_width s, sg_dst_height = hs_height s, sg_dst_sw_format = AV_NV12\<rparr>"

text \<open>The first frame is decoded to learn its format, and sent to the graph with timestamp 0.\<close>

definition vaapi_build_cpu_decode_pipeline ::
  "av_host \<Rightarrow> ('x, 'b, 'g, 'e) hw_ops \<Rightarrow> ('x, 'b, 'g, 'e) hw_session \<Rightarrow> owned_frame \<Rightarrow>
   (('x, 'b) input_stage \<times> ('g \<times> 'e) option, encode_error) result" where
  "vaapi_build_cpu_decode_pipeline h ops s first_frame =
     bind_ok (hw_decoder ops) (\<lambda>decoder.
     bind_ok (hw_decode_send ops decoder (of_payload first_frame)) (\<lambda>decoder.
     require (hw_decode_receive ops decoder) DecoderMissing (\<lambda>(decoded, decoder).
       let source_pixel = relabel (af_format decoded) in
       bind_ok (ScaleGraph_build h ops (cpu_graph_config Vaapi s first_frame source_pixel)) (\<lambda>graph.
       bind_ok (vaapi_open_encoder h ops s graph) (\<lambda>encoder.
       bind_ok (hw_graph_send ops graph (decoded\<lparr>af_format := source_pixel, af_pts := Some 0\<rparr>)) (\<lambda>graph.
         Ok (CpuDecode decoder, Some (graph, encoder))))))))"

definition vaapi_build_raw_pipeline ::
  "av_host \<Rightarrow> ('x, 'b, 'g, 'e) hw_ops \<Rightarrow> ('x, 'b, 'g, 'e) hw_session \<Rightarrow> av_pixel \<Rightarrow> owned_frame \<Rightarrow>
   (('x, 'b) input_stage \<times> ('g \<times> 'e) option, encode_error) result" where
  "vaapi_build_raw_pipeline h ops s source_pixel first_frame =
     bind_ok (ScaleGraph_build h ops (cpu_graph_config Vaapi s first_frame source_pixel)) (\<lambda>graph.
     bind_ok (vaapi_open_encoder h ops s graph) (\<lambda>encoder.
       Ok (RawInput source_pixel, Some (graph, encoder))))"

text \<open>\<open>None\<close> is the software decoder, \<open>Some\<close> the raw pixel format.\<close>

fun vaapi_input_strategy :: "pixel_format \<Rightarrow> av_pixel option" where
  "vaapi_input_strategy Px_Mjpeg = None"
| "vaapi_input_strategy Px_Rgb24 = Some AV_RGB24"
| "vaapi_input_strategy Px_Bgr24 = Some AV_BGR24"
| "vaapi_input_strategy Px_Yuyv = Some AV_YUYV422"
| "vaapi_input_strategy Px_Gray8 = Some AV_GRAY8"
| "vaapi_input_strategy Px_H264AnnexB = Some AV_GRAY8"
| "vaapi_input_strategy Px_Depth16 = Some AV_GRAY8"
| "vaapi_input_strategy Px_Nv12 = Some AV_NV12"

definition VaapiHwSession_new ::
  "(unit, encode_error) result \<Rightarrow> av_host \<Rightarrow> ('x, 'b, 'g, 'e) hw_ops \<Rightarrow> codec_session_params \<Rightarrow> owned_frame \<Rightarrow>
   (('x, 'b, 'g, 'e) hw_session, encode_error) result" where
  "VaapiHwSession_new av_init h ops params first_frame =
     bind_ok av_init (\<lambda>_.
     bind_ok (hw_device ops BackendVaapi) (\<lambda>_.
       let s = hw_session_empty params in
       bind_ok (case vaapi_input_strategy (cfh_pixel_format (of_header first_frame)) of
           None \<Rightarrow> vaapi_build_cpu_decode_pipeline h ops s first_frame
         | Some source_pixel \<Rightarrow> vaapi_build_raw_pipeline h ops s source_pixel first_frame) (\<lambda>pipeline.
         Ok (s\<lparr>hs_pipeline := Some pipeline\<rparr>))))"

text \<open>A raw frame is copied into a new picture.\<close>

definition raw_picture ::
  "('e, 's, 'm) av_ops \<Rightarrow> av_pixel \<Rightarrow> owned_frame \<Rightarrow> i64 \<Rightarrow> (av_frame, encode_error) result" where
  "raw_picture av source_pixel frame pts =
     (let h = of_header frame; (stride, data) = av_new_frame av source_pixel (cfh_width h) (cfh_height h) in
      bind_ok (copy_frame_payload stride h (of_payload frame) data) (\<lambda>filled.
        Ok \<lparr>af_format = source_pixel, af_width = cfh_width h, af_height = cfh_height h,
            af_pts = Some pts, af_intra = False, af_data = filled\<rparr>))"

definition set_input :: "('x, 'b) input_stage \<Rightarrow> ('x, 'b, 'g, 'e) hw_session \<Rightarrow> ('x, 'b, 'g, 'e) hw_session" where
  "set_input input s = s\<lparr>hs_pipeline := map_option (\<lambda>(_, output). (input, output)) (hs_pipeline s)\<rparr>"

definition set_output :: "'g \<times> 'e \<Rightarrow> ('x, 'b, 'g, 'e) hw_session \<Rightarrow> ('x, 'b, 'g, 'e) hw_session" where
  "set_output output s = s\<lparr>hs_pipeline := map_option (\<lambda>(input, _). (input, Some output)) (hs_pipeline s)\<rparr>"

definition vaapi_push_input ::
  "('e, 's, 'm) av_ops \<Rightarrow> ('x, 'b, 'g, 'e) hw_ops \<Rightarrow> owned_frame \<Rightarrow> i64 \<Rightarrow> ('x, 'b, 'g, 'e) hw_session \<Rightarrow>
   (('x, 'b, 'g, 'e) hw_session \<times> (av_frame list, encode_error) result) option" where
  "vaapi_push_input av ops frame pts s =
     (case hs_pipeline s of
        None \<Rightarrow> Some (s, Err (EncodePanic ''pipeline not initialised''))
      | Some (CpuDecode decoder, _) \<Rightarrow>
          (case hw_decode_send ops decoder (of_payload frame) of
             Err e \<Rightarrow> Some (s, Err e)
           | Ok decoder \<Rightarrow>
               map_option (\<lambda>(decoder, frames). (set_input (CpuDecode decoder) s, Ok frames))
                 (collect_decoded (hw_decode_receive ops) True pts decoder []))
      | Some (RawInput source_pixel, _) \<Rightarrow> Some (s, bind_ok (raw_picture av source_pixel frame pts) (\<lambda>p. Ok [p]))
      | Some (Cuvid _ _, _) \<Rightarrow> Some (s, Err (EncodePanic ''no such input stage'')))"

text \<open>\<open>drain_filter_and_encode\<close>: the graph into the encoder, then the encoder's packets to the sink.\<close>

definition hw_drain ::
  "('e, 's, 'm) av_ops \<Rightarrow> bus \<Rightarrow> owned_frame \<Rightarrow> 'g \<Rightarrow> 'e \<Rightarrow> ('x, 'b, 'g, 'e) hw_session \<Rightarrow> packet list \<Rightarrow>
   ((('x, 'b, 'g, 'e) hw_session \<times> packet list) \<times> (unit, encode_error) result) option" where
  "hw_drain av bus frame graph encoder s out =
     map_option (\<lambda>(((encoder, sequence, metrics), out'), r).
         ((set_output (graph, encoder) (s\<lparr>hs_next_sequence := sequence, hs_metrics := metrics\<rparr>), out'), r))
       (drain_encoder (av_receive av) bus (hs_codec s) (hs_width s) (hs_height s) frame (hs_episode_index s)
          (encoder, hs_next_sequence s, hs_metrics s) out)"

definition drain_filter_and_encode ::
  "('e, 's, 'm) av_ops \<Rightarrow> ('x, 'b, 'g, 'e) hw_ops \<Rightarrow> bus \<Rightarrow> owned_frame \<Rightarrow> ('x, 'b, 'g, 'e) hw_session \<Rightarrow>
   packet list \<Rightarrow> ((('x, 'b, 'g, 'e) hw_session \<times> packet list) \<times> (unit, encode_error) result) option" where
  "drain_filter_and_encode av ops bus frame s out =
     (case hs_pipeline s of
        None \<Rightarrow> Some ((s, out), Err (EncodePanic ''pipeline not initialised''))
      | Some (_, None) \<Rightarrow> Some ((s, out), Ok ())
      | Some (_, Some (graph, encoder)) \<Rightarrow>
          Option.bind (pump_graph (hw_graph_receive ops) (av_send av) (graph, encoder, hs_force_keyframe s))
            (\<lambda>((graph, encoder, force), r).
               let s = set_output (graph, encoder) (s\<lparr>hs_force_keyframe := force\<rparr>) in
               case r of Err e \<Rightarrow> Some ((s, out), Err e) | Ok _ \<Rightarrow> hw_drain av bus frame graph encoder s out))"

definition vaapi_encode ::
  "('e, 's, 'm) av_ops \<Rightarrow> ('x, 'b, 'g, 'e) hw_ops \<Rightarrow> bus \<Rightarrow> owned_frame \<Rightarrow> ('x, 'b, 'g, 'e) hw_session \<Rightarrow>
   packet list \<Rightarrow> ((('x, 'b, 'g, 'e) hw_session \<times> packet list) \<times> (unit, encode_error) result) option" where
  "vaapi_encode av ops bus frame s out =
     (case compute_pts_us (cfh_timestamp_us (of_header frame)) (hs_recording_start_us s) (hs_last_pts_us s)
             (hs_nonmonotonic_warning_logged s) of
        (None, _, _) \<Rightarrow> Some ((s, out), Ok ())
      | (Some pts_us, prev, warned) \<Rightarrow>
          Option.bind (vaapi_push_input av ops frame (of_int pts_us)
              (s\<lparr>hs_last_pts_us := prev, hs_nonmonotonic_warning_logged := warned\<rparr>)) (\<lambda>(s, pushed).
            case pushed of
              Err e \<Rightarrow> Some ((s, out), Err e)
            | Ok decoded \<Rightarrow>
                (case hs_pipeline s of
                   Some (_, Some (graph, encoder)) \<Rightarrow>
                     (let (graph, r) = send_all (hw_graph_send ops) decoded graph;
                          s = set_output (graph, encoder) s
                      in case r of
                        Err e \<Rightarrow> Some ((s, out), Err e)
                      | Ok _ \<Rightarrow> drain_filter_and_encode av ops bus frame s out)
                 | _ \<Rightarrow> Some ((s, out), Err (EncodePanic ''pipeline not initialised'')))))"

definition synth_frame :: "('x, 'b, 'g, 'e) hw_session \<Rightarrow> owned_frame" where
  "synth_frame s = \<lparr>of_header = \<lparr>cfh_timestamp_us = hs_recording_start_us s, cfh_width = hs_width s,
     cfh_height = hs_height s, cfh_pixel_format = Px_Rgb24, cfh_frame_index = 0\<rparr>, of_payload = []\<rparr>"

text \<open>\<open>finish\<close> ends the encoder and drains it; the graph and the decoder are not flushed.\<close>

definition hw_finish ::
  "('e, 's, 'm) av_ops \<Rightarrow> bus \<Rightarrow> ('x, 'b, 'g, 'e) hw_session \<Rightarrow> packet list \<Rightarrow>
   (packet list \<times> (unit, encode_error) result) option" where
  "hw_finish av bus s out =
     (let eos = (\<lambda>s out. published out (write_eos bus
            (eos_header (encoded_codec_id_of (hs_codec s)) (hs_width s) (hs_height s) Px_Rgb24 0 (hs_next_sequence s)
               (hs_recording_start_us s) (hs_episode_index s)) out))
      in case hs_pipeline s of
        Some (_, Some (graph, encoder)) \<Rightarrow>
          (case av_send_eof av encoder of
             Err e \<Rightarrow> Some (out, Err e)
           | Ok encoder \<Rightarrow>
               Option.bind (hw_drain av bus (synth_frame s) graph encoder s out) (\<lambda>((s1, out1), r).
                 case r of Err e \<Rightarrow> Some (out1, Err e) | Ok _ \<Rightarrow> Some (eos s1 out1)))
      | _ \<Rightarrow> Some (eos s out))"

definition hw_request_keyframe :: "('x, 'b, 'g, 'e) hw_session \<Rightarrow> ('x, 'b, 'g, 'e) hw_session" where
  "hw_request_keyframe s = s\<lparr>hs_force_keyframe := True\<rparr>"

definition hw_record_dropped :: "('x, 'b, 'g, 'e) hw_session \<Rightarrow> ('x, 'b, 'g, 'e) hw_session" where
  "hw_record_dropped s =
     s\<lparr>hs_metrics := (hs_metrics s)\<lparr>em_dropped_frames := em_dropped_frames (hs_metrics s) + 1\<rparr>\<rparr>"

section \<open>NvidiaCudaSession\<close>

datatype nvidia_strategy = StrategyCuvid string | StrategyCuvidBsf string | StrategyRaw av_pixel

text \<open>A codec is named by the cuvid decoder it maps to.\<close>

fun nvidia_input_strategy :: "pixel_format \<Rightarrow> nvidia_strategy" where
  "nvidia_input_strategy Px_Mjpeg = StrategyCuvidBsf ''mjpeg_cuvid''"
| "nvidia_input_strategy Px_H264AnnexB = StrategyCuvid ''h264_cuvid''"
| "nvidia_input_strategy Px_Rgb24 = StrategyRaw AV_RGB24"
| "nvidia_input_strategy Px_Bgr24 = StrategyRaw AV_BGR24"
| "nvidia_input_strategy Px_Yuyv = StrategyRaw AV_YUYV422"
| "nvidia_input_strategy Px_Gray8 = StrategyRaw AV_GRAY8"
| "nvidia_input_strategy Px_Depth16 = StrategyRaw AV_GRAY8"
| "nvidia_input_strategy Px_Nv12 = StrategyRaw AV_NV12"

definition nvidia_open_encoder ::
  "av_host \<Rightarrow> ('x, 'b, 'g, 'e) hw_ops \<Rightarrow> ('x, 'b, 'g, 'e) hw_session \<Rightarrow> 'g \<Rightarrow> ('e, encode_error) result" where
  "nvidia_open_encoder h ops s graph =
     require (select_encoder_name h (hs_codec s) BackendNvidia) (NoHwEncoder BackendNvidia (hs_codec s)) (\<lambda>codec_name.
       hw_open ops
         \<lparr>he_codec_name = codec_name, he_width = hs_width s, he_height = hs_height s, he_fps = hs_fps s,
          he_pixel = AV_CUDA, he_color = color_space_metadata (hs_color_space s),
          he_options = build_codec_options codec_name BackendNvidia (hs_crf s) None None\<rparr> graph)"

definition build_cuvid_pipeline ::
  "('x, 'b, 'g, 'e) hw_ops \<Rightarrow> string \<Rightarrow> owned_frame \<Rightarrow> 'b option \<Rightarrow>
   (('x, 'b) input_stage \<times> ('g \<times> 'e) option, encode_error) result" where
  "build_cuvid_pipeline ops decoder_name first_frame bsf =
     bind_ok (hw_cuvid ops decoder_name (cfh_width (of_header first_frame)) (cfh_height (of_header first_frame))) (\<lambda>decoder.
       Ok (Cuvid decoder bsf, None))"

definition nvidia_build_raw_pipeline ::
  "av_host \<Rightarrow> ('x, 'b, 'g, 'e) hw_ops \<Rightarrow> ('x, 'b, 'g, 'e) hw_session \<Rightarrow> av_pixel \<Rightarrow> owned_frame \<Rightarrow>
   (('x, 'b) input_stage \<times> ('g \<times> 'e) option, encode_error) result" where
  "nvidia_build_raw_pipeline h ops s source_pixel first_frame =
     bind_ok (ScaleGraph_build h ops (cpu_graph_config Cuda s first_frame source_pixel)) (\<lambda>graph.
     bind_ok (nvidia_open_encoder h ops s graph) (\<lambda>encoder.
       Ok (RawInput source_pixel, Some (graph, encoder))))"

definition NvidiaCudaSession_new ::
  "(unit, encode_error) result \<Rightarrow> av_host \<Rightarrow> ('x, 'b, 'g, 'e) hw_ops \<Rightarrow> codec_session_params \<Rightarrow> owned_frame \<Rightarrow>
   (('x, 'b, 'g, 'e) hw_session, encode_error) result" where
  "NvidiaCudaSession_new av_init h ops params first_frame =
     bind_ok av_init (\<lambda>_.
     bind_ok (hw_device ops BackendNvidia) (\<lambda>_.
       let s = hw_session_empty params in
       bind_ok (case nvidia_input_strategy (cfh_pixel_format (of_header first_frame)) of
           StrategyCuvid name \<Rightarrow> build_cuvid_pipeline ops name first_frame None
         | StrategyCuvidBsf name \<Rightarrow>
             bind_ok (hw_bsf_new ops) (\<lambda>bsf. build_cuvid_pipeline ops name first_frame (Some bsf))
         | StrategyRaw source_pixel \<Rightarrow> nvidia_build_raw_pipeline h ops s source_pixel first_frame) (\<lambda>pipeline.
         Ok (s\<lparr>hs_pipeline := Some pipeline\<rparr>))))"

text \<open>The output stage of the cuvid path is built on the first decoded frame.\<close>

definition build_cuvid_output_for_frame ::
  "av_host \<Rightarrow> ('x, 'b, 'g, 'e) hw_ops \<Rightarrow> ('x, 'b, 'g, 'e) hw_session \<Rightarrow> av_frame \<Rightarrow> ('g \<times> 'e, encode_error) result" where
  "build_cuvid_output_for_frame h ops s decoded =
     (if \<not> hw_has_frames ops decoded then Err NoHwFrames
      else bind_ok (ScaleGraph_build h ops
             \<lparr>sg_hw_accel = Cuda, sg_residency = ResidesHw, sg_src_width = af_width decoded,
              sg_src_height = af_height decoded, sg_src_pixel = AV_CUDA, sg_dst_width = hs_width s,
              sg_dst_height = hs_height s, sg_dst_sw_format = AV_NV12\<rparr>) (\<lambda>graph.
           bind_ok (nvidia_open_encoder h ops s graph) (\<lambda>encoder. Ok (graph, encoder))))"

definition nvidia_push_input ::
  "('e, 's, 'm) av_ops \<Rightarrow> ('x, 'b, 'g, 'e) hw_ops \<Rightarrow> owned_frame \<Rightarrow> i64 \<Rightarrow> ('x, 'b, 'g, 'e) hw_session \<Rightarrow>
   (('x, 'b, 'g, 'e) hw_session \<times> (av_frame list, encode_error) result) option" where
  "nvidia_push_input av ops frame pts s =
     (case hs_pipeline s of
        None \<Rightarrow> Some (s, Err (EncodePanic ''pipeline not initialised''))
      | Some (Cuvid decoder bsf, _) \<Rightarrow>
          (case (case bsf of None \<Rightarrow> Ok (None, of_payload frame)
                   | Some b \<Rightarrow> bind_ok (hw_bsf_filter ops b (of_payload frame)) (\<lambda>(b, data). Ok (Some b, data))) of
             Err e \<Rightarrow> Some (s, Err e)
           | Ok (bsf, data) \<Rightarrow>
               (case hw_decode_send ops decoder data of
                  Err e \<Rightarrow> Some (set_input (Cuvid decoder bsf) s, Err e)
                | Ok decoder \<Rightarrow>
                    map_option (\<lambda>(decoder, frames). (set_input (Cuvid decoder bsf) s, Ok frames))
                      (collect_decoded (hw_decode_receive ops) False pts decoder [])))
      | Some (CpuDecode decoder, _) \<Rightarrow>
          (case hw_decode_send ops decoder (of_payload frame) of
             Err e \<Rightarrow> Some (s, Err e)
           | Ok decoder \<Rightarrow>
               map_option (\<lambda>(decoder, frames). (set_input (CpuDecode decoder) s, Ok frames))
                 (collect_decoded (hw_decode_receive ops) True pts decoder []))
      | Some (RawInput source_pixel, _) \<Rightarrow> Some (s, bind_ok (raw_picture av source_pixel frame pts) (\<lambda>p. Ok [p])))"

fun nvidia_send_decoded ::
  "av_host \<Rightarrow> ('x, 'b, 'g, 'e) hw_ops \<Rightarrow> av_frame list \<Rightarrow> ('x, 'b, 'g, 'e) hw_session \<Rightarrow>
   ('x, 'b, 'g, 'e) hw_session \<times> (unit, encode_error) result" where
  "nvidia_send_decoded h ops [] s = (s, Ok ())"
| "nvidia_send_decoded h ops (d # ds) s =
     (case (case hs_pipeline s of Some (_, Some output) \<Rightarrow> Ok output | _ \<Rightarrow> build_cuvid_output_for_frame h ops s d) of
        Err e \<Rightarrow> (s, Err e)
      | Ok (graph, encoder) \<Rightarrow>
          (case hw_graph_send ops graph d of
             Err e \<Rightarrow> (set_output (graph, encoder) s, Err e)
           | Ok graph \<Rightarrow> nvidia_send_decoded h ops ds (set_output (graph, encoder) s)))"

definition nvidia_encode ::
  "av_host \<Rightarrow> ('e, 's, 'm) av_ops \<Rightarrow> ('x, 'b, 'g, 'e) hw_ops \<Rightarrow> bus \<Rightarrow> owned_frame \<Rightarrow>
   ('x, 'b, 'g, 'e) hw_session \<Rightarrow> packet list \<Rightarrow>
   ((('x, 'b, 'g, 'e) hw_session \<times> packet list) \<times> (unit, encode_error) result) option" where
  "nvidia_encode h av ops bus frame s out =
     (case compute_pts_us (cfh_timestamp_us (of_header frame)) (hs_recording_start_us s) (hs_last_pts_us s)
             (hs_nonmonotonic_warning_logged s) of
        (None, _, _) \<Rightarrow> Some ((s, out), Ok ())
      | (Some pts_us, prev, warned) \<Rightarrow>
          Option.bind (nvidia_push_input av ops frame (of_int pts_us)
              (s\<lparr>hs_last_pts_us := prev, hs_nonmonotonic_warning_logged := warned\<rparr>)) (\<lambda>(s, pushed).
            case pushed of
              Err e \<Rightarrow> Some ((s, out), Err e)
            | Ok decoded \<Rightarrow>
                (case nvidia_send_decoded h ops decoded s of
                   (s, Err e) \<Rightarrow> Some ((s, out), Err e)
                 | (s, Ok _) \<Rightarrow> drain_filter_and_encode av ops bus frame s out)))"

section \<open>The contract\<close>

lemma set_input_keeps [simp]:
  "hs_next_sequence (set_input i s) = hs_next_sequence s" "hs_episode_index (set_input i s) = hs_episode_index s"
  by (simp_all add: set_input_def)

lemma set_output_keeps [simp]:
  "hs_next_sequence (set_output o' s) = hs_next_sequence s" "hs_episode_index (set_output o' s) = hs_episode_index s"
  by (simp_all add: set_output_def)

lemma hw_drain_writes:
  assumes "hw_drain av bus f g e s out = Some ((s', out'), r)"
  shows "\<exists>new. out' = out @ new \<and> numbered (hs_next_sequence s) new \<and> of_episode (hs_episode_index s) Packet new
     \<and> hs_episode_index s' = hs_episode_index s
     \<and> (is_ok r \<longrightarrow> hs_next_sequence s' = hs_next_sequence s + of_nat (length new))"
  using assms by (auto simp: hw_drain_def dest!: drain_encoder_writes)

lemma drain_filter_writes:
  assumes "drain_filter_and_encode av ops bus f s out = Some ((s', out'), r)"
  shows "\<exists>new. out' = out @ new \<and> numbered (hs_next_sequence s) new \<and> of_episode (hs_episode_index s) Packet new
     \<and> hs_episode_index s' = hs_episode_index s
     \<and> (is_ok r \<longrightarrow> hs_next_sequence s' = hs_next_sequence s + of_nat (length new))"
proof (cases "\<exists>i g e. hs_pipeline s = Some (i, Some (g, e))")
  case False
  with assms show ?thesis
    by (intro exI [of _ "[]"]) (auto simp: drain_filter_and_encode_def split: option.splits prod.splits)
next
  case True
  then obtain i g e where pipe: "hs_pipeline s = Some (i, Some (g, e))" by blast
  with assms obtain g' e' force r1 where pump: "pump_graph (hw_graph_receive ops) (av_send av)
      (g, e, hs_force_keyframe s) = Some ((g', e', force), r1)"
    by (auto simp: drain_filter_and_encode_def bind_eq_Some_conv)
  show ?thesis
  proof (cases r1)
    case (Inl err)
    with assms pipe pump show ?thesis by (intro exI [of _ "[]"]) (auto simp: drain_filter_and_encode_def Let_def)
  next
    case (Inr u)
    with assms pipe pump have "hw_drain av bus f g' e' (set_output (g', e') (s\<lparr>hs_force_keyframe := force\<rparr>)) out
        = Some ((s', out'), r)"
      by (simp add: drain_filter_and_encode_def Let_def)
    from hw_drain_writes [OF this] show ?thesis by simp
  qed
qed

lemma vaapi_push_keeps:
  assumes "vaapi_push_input av ops f pts s = Some (s', r)"
  shows "hs_next_sequence s' = hs_next_sequence s \<and> hs_episode_index s' = hs_episode_index s"
  using assms by (auto simp: vaapi_push_input_def split: option.splits input_stage.splits sum.splits)

lemma nvidia_push_keeps:
  assumes "nvidia_push_input av ops f pts s = Some (s', r)"
  shows "hs_next_sequence s' = hs_next_sequence s \<and> hs_episode_index s' = hs_episode_index s"
  using assms by (auto simp: nvidia_push_input_def split: option.splits input_stage.splits sum.splits prod.splits)

lemma nvidia_send_keeps:
  "nvidia_send_decoded h ops ds s = (s', r) \<Longrightarrow>
   hs_next_sequence s' = hs_next_sequence s \<and> hs_episode_index s' = hs_episode_index s"
proof (induction h ops ds s rule: nvidia_send_decoded.induct)
  case (2 h ops d ds s)
  let ?out = "case hs_pipeline s of Some (_, Some output) \<Rightarrow> Ok output | _ \<Rightarrow> build_cuvid_output_for_frame h ops s d"
  show ?case
  proof (cases ?out)
    case (Inl e)
    with 2 show ?thesis by simp
  next
    case (Inr ge)
    obtain g e where "ge = (g, e)" by (cases ge)
    with 2 Inr show ?thesis by (cases "hw_graph_send ops g d") auto
  qed
qed simp

lemma vaapi_encode_writes:
  assumes "vaapi_encode av ops bus f s out = Some ((s', out'), r)"
  shows "\<exists>new. out' = out @ new \<and> numbered (hs_next_sequence s) new \<and> of_episode (hs_episode_index s) Packet new
     \<and> hs_episode_index s' = hs_episode_index s
     \<and> (is_ok r \<longrightarrow> hs_next_sequence s' = hs_next_sequence s + of_nat (length new))"
proof -
  have none: ?thesis if "out' = out" "hs_next_sequence s' = hs_next_sequence s" "hs_episode_index s' = hs_episode_index s"
    using that by (intro exI [of _ "[]"]) simp
  show ?thesis
  proof -
    obtain p prev warned where pts: "compute_pts_us (cfh_timestamp_us (of_header f)) (hs_recording_start_us s)
        (hs_last_pts_us s) (hs_nonmonotonic_warning_logged s) = (p, prev, warned)" by (metis prod_cases3)
    show ?thesis
    proof (cases p)
      case None
      with assms pts show ?thesis by (intro none) (auto simp: vaapi_encode_def)
    next
      case (Some pts)
      with assms pts obtain s1 pushed where push: "vaapi_push_input av ops f (of_int pts)
          (s\<lparr>hs_last_pts_us := prev, hs_nonmonotonic_warning_logged := warned\<rparr>) = Some (s1, pushed)"
        by (auto simp: vaapi_encode_def bind_eq_Some_conv)
      note keeps = vaapi_push_keeps [OF push, simplified]
      show ?thesis
      proof (cases pushed)
        case (Inl e)
        with assms pts Some push keeps show ?thesis by (intro none) (auto simp: vaapi_encode_def)
      next
        case decoded: (Inr ds)
        show ?thesis
        proof (cases "\<exists>i g e. hs_pipeline s1 = Some (i, Some (g, e))")
          case False
          with assms pts Some push keeps decoded show ?thesis
            by (intro none) (auto simp: vaapi_encode_def split: option.splits)
        next
          case True
          then obtain i g e where pipe: "hs_pipeline s1 = Some (i, Some (g, e))" by blast
          obtain g' r1 where send: "send_all (hw_graph_send ops) ds g = (g', r1)" by fastforce
          show ?thesis
          proof (cases r1)
            case (Inl err)
            with assms pts Some push keeps decoded pipe send show ?thesis
              by (intro none) (auto simp: vaapi_encode_def Let_def)
          next
            case (Inr u)
            with assms pts Some push decoded pipe send
            have "drain_filter_and_encode av ops bus f (set_output (g', e) s1) out = Some ((s', out'), r)"
              by (auto simp: vaapi_encode_def Let_def)
            from drain_filter_writes [OF this] keeps show ?thesis by simp
          qed
        qed
      qed
    qed
  qed
qed

lemma nvidia_encode_writes:
  assumes "nvidia_encode h av ops bus f s out = Some ((s', out'), r)"
  shows "\<exists>new. out' = out @ new \<and> numbered (hs_next_sequence s) new \<and> of_episode (hs_episode_index s) Packet new
     \<and> hs_episode_index s' = hs_episode_index s
     \<and> (is_ok r \<longrightarrow> hs_next_sequence s' = hs_next_sequence s + of_nat (length new))"
proof -
  have none: ?thesis if "out' = out" "hs_next_sequence s' = hs_next_sequence s" "hs_episode_index s' = hs_episode_index s"
    using that by (intro exI [of _ "[]"]) simp
  show ?thesis
  proof -
    obtain p prev warned where pts: "compute_pts_us (cfh_timestamp_us (of_header f)) (hs_recording_start_us s)
        (hs_last_pts_us s) (hs_nonmonotonic_warning_logged s) = (p, prev, warned)" by (metis prod_cases3)
    show ?thesis
    proof (cases p)
      case None
      with assms pts show ?thesis by (intro none) (auto simp: nvidia_encode_def)
    next
      case (Some pts)
      with assms pts obtain s1 pushed where push: "nvidia_push_input av ops f (of_int pts)
          (s\<lparr>hs_last_pts_us := prev, hs_nonmonotonic_warning_logged := warned\<rparr>) = Some (s1, pushed)"
        by (auto simp: nvidia_encode_def bind_eq_Some_conv)
      note keeps = nvidia_push_keeps [OF push, simplified]
      show ?thesis
      proof (cases pushed)
        case (Inl e)
        with assms pts Some push keeps show ?thesis by (intro none) (auto simp: nvidia_encode_def)
      next
        case decoded: (Inr ds)
        obtain s2 r1 where send: "nvidia_send_decoded h ops ds s1 = (s2, r1)" by fastforce
        note keeps2 = nvidia_send_keeps [OF send]
        show ?thesis
        proof (cases r1)
          case (Inl err)
          with assms pts Some push keeps keeps2 decoded send show ?thesis
            by (intro none) (auto simp: nvidia_encode_def)
        next
          case (Inr u)
          with assms pts Some push decoded send
          have "drain_filter_and_encode av ops bus f s2 out = Some ((s', out'), r)"
            by (auto simp: nvidia_encode_def)
          from drain_filter_writes [OF this] keeps keeps2 show ?thesis by simp
        qed
      qed
    qed
  qed
qed

lemma hw_finish_writes:
  assumes fin: "hw_finish av bus s out = Some (out', r)"
  shows "\<exists>new. numbered (hs_next_sequence s) (new @ drop (length (out @ new)) out') \<and> of_episode (hs_episode_index s) Packet new
      \<and> (if is_ok r then \<exists>h. out' = out @ new @ [(h, [])] \<and> of_episode (hs_episode_index s) EndOfStream [(h, [])]
         else out' = out @ new)"
proof (cases "\<exists>i g e. hs_pipeline s = Some (i, Some (g, e))")
  case False
  with fin show ?thesis
    by (intro exI [of _ "[]"])
      (auto simp: hw_finish_def Let_def split: option.splits prod.splits if_splits dest!: published_eos)
next
  case True
  then obtain i g e where pipe: "hs_pipeline s = Some (i, Some (g, e))" by blast
  show ?thesis
  proof (cases "av_send_eof av e")
    case (Inl err)
    with fin pipe show ?thesis by (intro exI [of _ "[]"]) (auto simp: hw_finish_def Let_def)
  next
    case (Inr e')
    with fin pipe obtain s1 out1 r1 where drain: "hw_drain av bus (synth_frame s) g e' s out = Some ((s1, out1), r1)"
      by (auto simp: hw_finish_def Let_def bind_eq_Some_conv)
    from hw_drain_writes [OF this] obtain new where new: "out1 = out @ new" "numbered (hs_next_sequence s) new"
      "of_episode (hs_episode_index s) Packet new" "hs_episode_index s1 = hs_episode_index s"
      "is_ok r1 \<longrightarrow> hs_next_sequence s1 = hs_next_sequence s + of_nat (length new)" by auto
    with fin Inr drain pipe show ?thesis
      by (intro exI [of _ new])
        (auto simp: hw_finish_def Let_def numbered_append split: sum.splits if_splits dest!: published_eos)
  qed
qed

interpretation vaapi: packet_session "vaapi_encode av ops bus" "hw_finish av bus" hs_next_sequence hs_episode_index
  for av ops bus
  by unfold_locales (rule vaapi_encode_writes, assumption, rule hw_finish_writes, assumption)

interpretation nvidia: packet_session "nvidia_encode h av ops bus" "hw_finish av bus" hs_next_sequence hs_episode_index
  for h av ops bus
  by unfold_locales (rule nvidia_encode_writes, assumption, rule hw_finish_writes, assumption)

end
