(* ===== verification/Encoder_Backends.thy ===== *)
theory Encoder_Backends
  imports Hw_Session
begin

text \<open>
  The two backend registries of the encoder, \<^verbatim>\<open>encoder/src/backend/color/mod.rs\<close> and
  \<^verbatim>\<open>encoder/src/backend/depth/mod.rs\<close>, the backends they hold and \<open>open_session\<close> of
  \<^verbatim>\<open>encoder/src/codec.rs\<close>, which opens the session of a stream from its parameters and its first
  frame. A boxed session is the sum of the five session types; it keeps their contract.
\<close>

section \<open>Codecs of the registries\<close>

datatype color_backend_id = CB_Cpu | CB_Nvidia | CB_Vaapi | CB_Passthrough | CB_HorizonX5

fun color_backend_id_as_str :: "color_backend_id \<Rightarrow> string" where
  "color_backend_id_as_str CB_Cpu = ''cpu''"
| "color_backend_id_as_str CB_Nvidia = ''nvidia''"
| "color_backend_id_as_str CB_Vaapi = ''vaapi''"
| "color_backend_id_as_str CB_Passthrough = ''passthrough''"
| "color_backend_id_as_str CB_HorizonX5 = ''horizon-x5''"

datatype color_codec = CC_H264 | CC_H265 | CC_Av1 | CC_Mjpg

fun color_codec_try_from :: "encoder_codec \<Rightarrow> (color_codec, encode_error) result" where
  "color_codec_try_from H264 = Ok CC_H264"
| "color_codec_try_from H265 = Ok CC_H265"
| "color_codec_try_from Av1 = Ok CC_Av1"
| "color_codec_try_from Mjpg = Ok CC_Mjpg"
| "color_codec_try_from Rvl = Err NotColorCodec"

fun color_codec_into :: "color_codec \<Rightarrow> encoder_codec" where
  "color_codec_into CC_H264 = H264"
| "color_codec_into CC_H265 = H265"
| "color_codec_into CC_Av1 = Av1"
| "color_codec_into CC_Mjpg = Mjpg"

datatype depth_codec = DC_Rvl

fun depth_codec_try_from :: "encoder_codec \<Rightarrow> (depth_codec, encode_error) result" where
  "depth_codec_try_from Rvl = Ok DC_Rvl"
| "depth_codec_try_from other = Err (NotDepthCodec other)"

fun depth_codec_into :: "depth_codec \<Rightarrow> encoder_codec" where
  "depth_codec_into DC_Rvl = Rvl"

section \<open>Boxed sessions\<close>

datatype ('d, 'e, 's, 'm, 'x, 'b, 'g) codec_session =
    RvlSession "'d rvl_session"
  | PassthroughSession passthrough_session
  | LibavSession "('e, 's, 'm) libav_session"
  | NvidiaSession "('x, 'b, 'g, 'e) hw_session"
  | VaapiSession "('x, 'b, 'g, 'e) hw_session"

text \<open>Everything outside the sources an encoder process runs on.\<close>

record ('d, 'e, 's, 'm, 'x, 'b, 'g) encoder_world =
  w_init :: "(unit, encode_error) result"
  w_host :: av_host
  w_depth :: "'d depth_ops"
  w_av :: "('e, 's, 'm) av_ops"
  w_hw :: "('x, 'b, 'g, 'e) hw_ops"
  w_bus :: bus

definition rewrap :: "('t \<Rightarrow> 'u) \<Rightarrow> ('t \<times> packet list) \<times> (unit, encode_error) result \<Rightarrow> ('u \<times> packet list) \<times> (unit, encode_error) result" where
  "rewrap f = (\<lambda>((s, out), r). ((f s, out), r))"

fun session_encode ::
  "('d, 'e, 's, 'm, 'x, 'b, 'g) encoder_world \<Rightarrow> owned_frame \<Rightarrow> ('d, 'e, 's, 'm, 'x, 'b, 'g) codec_session \<Rightarrow>
   packet list \<Rightarrow> ((('d, 'e, 's, 'm, 'x, 'b, 'g) codec_session \<times> packet list) \<times> (unit, encode_error) result) option" where
  "session_encode w f (RvlSession s) out = Some (rewrap RvlSession (rvl_encode (w_depth w) (w_bus w) f s out))"
| "session_encode w f (PassthroughSession s) out = Some (rewrap PassthroughSession (passthrough_encode (w_bus w) f s out))"
| "session_encode w f (LibavSession s) out = map_option (rewrap LibavSession) (libav_encode (w_av w) (w_bus w) f s out)"
| "session_encode w f (NvidiaSession s) out =
     map_option (rewrap NvidiaSession) (nvidia_encode (w_host w) (w_av w) (w_hw w) (w_bus w) f s out)"
| "session_encode w f (VaapiSession s) out =
     map_option (rewrap VaapiSession) (vaapi_encode (w_av w) (w_hw w) (w_bus w) f s out)"

fun session_finish ::
  "('d, 'e, 's, 'm, 'x, 'b, 'g) encoder_world \<Rightarrow> ('d, 'e, 's, 'm, 'x, 'b, 'g) codec_session \<Rightarrow> packet list \<Rightarrow>
   (packet list \<times> (unit, encode_error) result) option" where
  "session_finish w (RvlSession s) out = Some (rvl_finish (w_bus w) s out)"
| "session_finish w (PassthroughSession s) out = Some (passthrough_finish (w_bus w) s out)"
| "session_finish w (LibavSession s) out = libav_finish (w_av w) (w_bus w) s out"
| "session_finish w (NvidiaSession s) out = hw_finish (w_av w) (w_bus w) s out"
| "session_finish w (VaapiSession s) out = hw_finish (w_av w) (w_bus w) s out"

fun session_record_dropped ::
  "('d, 'e, 's, 'm, 'x, 'b, 'g) codec_session \<Rightarrow> ('d, 'e, 's, 'm, 'x, 'b, 'g) codec_session" where
  "session_record_dropped (RvlSession s) = RvlSession (rvl_record_dropped s)"
| "session_record_dropped (PassthroughSession s) = PassthroughSession (passthrough_record_dropped s)"
| "session_record_dropped (LibavSession s) = LibavSession (libav_record_dropped s)"
| "session_record_dropped (NvidiaSession s) = NvidiaSession (hw_record_dropped s)"
| "session_record_dropped (VaapiSession s) = VaapiSession (hw_record_dropped s)"

text \<open>The default \<open>request_keyframe\<close> of the trait does nothing.\<close>

fun session_request_keyframe ::
  "('d, 'e, 's, 'm, 'x, 'b, 'g) codec_session \<Rightarrow> ('d, 'e, 's, 'm, 'x, 'b, 'g) codec_session" where
  "session_request_keyframe (LibavSession s) = LibavSession (libav_request_keyframe s)"
| "session_request_keyframe (NvidiaSession s) = NvidiaSession (hw_request_keyframe s)"
| "session_request_keyframe (VaapiSession s) = VaapiSession (hw_request_keyframe s)"
| "session_request_keyframe s = s"

fun session_seq :: "('d, 'e, 's, 'm, 'x, 'b, 'g) codec_session \<Rightarrow> u64" where
  "session_seq (RvlSession s) = rs_next_sequence s"
| "session_seq (PassthroughSession s) = ps_next_sequence s"
| "session_seq (LibavSession s) = ls_next_sequence s"
| "session_seq (NvidiaSession s) = hs_next_sequence s"
| "session_seq (VaapiSession s) = hs_next_sequence s"

fun session_episode :: "('d, 'e, 's, 'm, 'x, 'b, 'g) codec_session \<Rightarrow> u32" where
  "session_episode (RvlSession s) = rs_episode_index s"
| "session_episode (PassthroughSession s) = ps_episode_index s"
| "session_episode (LibavSession s) = ls_episode_index s"
| "session_episode (NvidiaSession s) = hs_episode_index s"
| "session_episode (VaapiSession s) = hs_episode_index s"

section \<open>The color registry\<close>

record 'z color_backend =
  cb_id :: color_backend_id
  cb_priority :: nat
  cb_available :: bool
  cb_supports :: "color_codec \<Rightarrow> pixel_format \<Rightarrow> bool"
  cb_open :: "codec_session_params \<Rightarrow> owned_frame \<Rightarrow> ('z, encode_error) result"

definition with_backend :: "codec_session_params \<Rightarrow> encoder_backend \<Rightarrow> codec_session_params" where
  "with_backend params backend = params\<lparr>csp_backend := backend\<rparr>"

definition libav_codec_available :: "av_host \<Rightarrow> color_codec \<Rightarrow> encoder_backend \<Rightarrow> bool" where
  "libav_codec_available h codec backend \<longleftrightarrow> select_encoder_name h (color_codec_into codec) backend \<noteq> None"

definition passthrough_supports :: "color_codec \<Rightarrow> pixel_format \<Rightarrow> bool" where
  "passthrough_supports codec input \<longleftrightarrow> codec = CC_H264 \<and> input = Px_H264AnnexB"

definition PassthroughBackend ::
  "('d, 'e, 's, 'm, 'x, 'b, 'g) codec_session color_backend" where
  "PassthroughBackend = \<lparr>cb_id = CB_Passthrough, cb_priority = 1000, cb_available = True,
     cb_supports = passthrough_supports,
     cb_open = (\<lambda>params f. bind_ok (passthrough_open params f) (\<lambda>s. Ok (PassthroughSession s)))\<rparr>"

definition cpu_supports :: "color_codec \<Rightarrow> pixel_format \<Rightarrow> bool" where
  "cpu_supports codec input \<longleftrightarrow> codec \<in> {CC_H264, CC_H265, CC_Av1, CC_Mjpg}
     \<and> input \<in> {Px_Rgb24, Px_Bgr24, Px_Yuyv, Px_Mjpeg, Px_Gray8}"

definition LibavCpuBackend ::
  "('d, 'e, 's, 'm, 'x, 'b, 'g) encoder_world \<Rightarrow> ('d, 'e, 's, 'm, 'x, 'b, 'g) codec_session color_backend" where
  "LibavCpuBackend w = \<lparr>cb_id = CB_Cpu, cb_priority = 10, cb_available = True, cb_supports = cpu_supports,
     cb_open = (\<lambda>params f. bind_ok (LibavCodecSession_new (w_init w) (w_host w) (w_av w)
       (with_backend params BackendCpu) f) (\<lambda>s. Ok (LibavSession s)))\<rparr>"

definition nvidia_supports :: "av_host \<Rightarrow> color_codec \<Rightarrow> pixel_format \<Rightarrow> bool" where
  "nvidia_supports h codec input \<longleftrightarrow> codec \<in> {CC_H264, CC_H265, CC_Av1, CC_Mjpg}
     \<and> input \<in> {Px_Rgb24, Px_Bgr24, Px_Yuyv, Px_Mjpeg, Px_Gray8, Px_H264AnnexB}
     \<and> libav_codec_available h codec BackendNvidia"

text \<open>When the hardware pipeline does not open, the backend falls back to the libav session.\<close>

definition LibavNvidiaBackend ::
  "('d, 'e, 's, 'm, 'x, 'b, 'g) encoder_world \<Rightarrow> ('d, 'e, 's, 'm, 'x, 'b, 'g) codec_session color_backend" where
  "LibavNvidiaBackend w = \<lparr>cb_id = CB_Nvidia, cb_priority = 100,
     cb_available = libav_codec_available (w_host w) CC_H264 BackendNvidia,
     cb_supports = nvidia_supports (w_host w),
     cb_open = (\<lambda>params f. let pinned = with_backend params BackendNvidia in
       case NvidiaCudaSession_new (w_init w) (w_host w) (w_hw w) pinned f of
         Ok s \<Rightarrow> Ok (NvidiaSession s)
       | Err _ \<Rightarrow> bind_ok (LibavCodecSession_new (w_init w) (w_host w) (w_av w) pinned f) (\<lambda>s. Ok (LibavSession s)))\<rparr>"

definition vaapi_supports :: "av_host \<Rightarrow> color_codec \<Rightarrow> pixel_format \<Rightarrow> bool" where
  "vaapi_supports h codec input \<longleftrightarrow> codec \<in> {CC_H264, CC_H265, CC_Av1, CC_Mjpg}
     \<and> input \<in> {Px_Rgb24, Px_Bgr24, Px_Yuyv, Px_Mjpeg, Px_Gray8}
     \<and> libav_codec_available h codec BackendVaapi"

definition LibavVaapiBackend ::
  "('d, 'e, 's, 'm, 'x, 'b, 'g) encoder_world \<Rightarrow> ('d, 'e, 's, 'm, 'x, 'b, 'g) codec_session color_backend" where
  "LibavVaapiBackend w = \<lparr>cb_id = CB_Vaapi, cb_priority = 50,
     cb_available = libav_codec_available (w_host w) CC_H264 BackendVaapi,
     cb_supports = vaapi_supports (w_host w),
     cb_open = (\<lambda>params f. let pinned = with_backend params BackendVaapi in
       case VaapiHwSession_new (w_init w) (w_host w) (w_hw w) pinned f of
         Ok s \<Rightarrow> Ok (VaapiSession s)
       | Err _ \<Rightarrow> bind_ok (LibavCodecSession_new (w_init w) (w_host w) (w_av w) pinned f) (\<lambda>s. Ok (LibavSession s)))\<rparr>"

text \<open>A stable sort by falling priority.\<close>

definition by_priority :: "'z color_backend list \<Rightarrow> 'z color_backend list" where
  "by_priority backends = sort_key (\<lambda>b. - int (cb_priority b)) backends"

definition default_set ::
  "('d, 'e, 's, 'm, 'x, 'b, 'g) encoder_world \<Rightarrow> ('d, 'e, 's, 'm, 'x, 'b, 'g) codec_session color_backend list" where
  "default_set w = by_priority [PassthroughBackend, LibavNvidiaBackend w, LibavVaapiBackend w, LibavCpuBackend w]"

fun color_backend_id_from_config :: "encoder_backend \<Rightarrow> (color_backend_id, encode_error) result" where
  "color_backend_id_from_config BackendCpu = Ok CB_Cpu"
| "color_backend_id_from_config BackendNvidia = Ok CB_Nvidia"
| "color_backend_id_from_config BackendVaapi = Ok CB_Vaapi"
| "color_backend_id_from_config BackendPassthrough = Ok CB_Passthrough"
| "color_backend_id_from_config BackendHorizonX5 = Ok CB_HorizonX5"
| "color_backend_id_from_config BackendAuto = Err (EncodePanic ''Auto is not a concrete backend'')"

definition color_registry_open ::
  "'z color_backend list \<Rightarrow> color_codec \<Rightarrow> encoder_backend \<Rightarrow> codec_session_params \<Rightarrow> owned_frame \<Rightarrow>
   ('z, encode_error) result" where
  "color_registry_open backends codec hint params first_frame =
     (let input = cfh_pixel_format (of_header first_frame) in
      if hint = BackendAuto then
        (case find (\<lambda>b. cb_available b \<and> cb_supports b codec input) backends of
           Some b \<Rightarrow> cb_open b params first_frame
         | None \<Rightarrow> Err (NoColorBackend (color_codec_into codec) input))
      else
        bind_ok (color_backend_id_from_config hint) (\<lambda>target.
        require (find (\<lambda>b. cb_id b = target) backends) (ColorBackendMissing hint) (\<lambda>b.
          if \<not> cb_available b then Err (ColorBackendUnavailable hint)
          else if \<not> cb_supports b codec input then Err (ColorBackendUnsupported hint (color_codec_into codec) input)
          else cb_open b params first_frame)))"

section \<open>The depth registry and \<open>open_session\<close>\<close>

record 'z depth_backend =
  db_supports :: "depth_codec \<Rightarrow> bool"
  db_open :: "codec_session_params \<Rightarrow> owned_frame \<Rightarrow> ('z, encode_error) result"

definition RvlBackend ::
  "('d, 'e, 's, 'm, 'x, 'b, 'g) encoder_world \<Rightarrow> ('d, 'e, 's, 'm, 'x, 'b, 'g) codec_session depth_backend" where
  "RvlBackend w = \<lparr>db_supports = (\<lambda>codec. codec = DC_Rvl),
     db_open = (\<lambda>params f. bind_ok (RvlCodecSession_new (w_depth w) params f) (\<lambda>s. Ok (RvlSession s)))\<rparr>"

definition depth_registry_open ::
  "'z depth_backend list \<Rightarrow> depth_codec \<Rightarrow> codec_session_params \<Rightarrow> owned_frame \<Rightarrow> ('z, encode_error) result" where
  "depth_registry_open backends codec params first_frame =
     require (find (\<lambda>b. db_supports b codec) backends) NoDepthBackend (\<lambda>b. db_open b params first_frame)"

definition open_session ::
  "('d, 'e, 's, 'm, 'x, 'b, 'g) encoder_world \<Rightarrow> codec_session_params \<Rightarrow> owned_frame \<Rightarrow>
   (('d, 'e, 's, 'm, 'x, 'b, 'g) codec_session, encode_error) result" where
  "open_session w params first_frame =
     (if csp_codec params = Rvl \<or> cfh_pixel_format (of_header first_frame) = Px_Depth16
      then bind_ok (depth_codec_try_from (csp_codec params)) (\<lambda>codec.
             depth_registry_open [RvlBackend w] codec params first_frame)
      else bind_ok (color_codec_try_from (csp_codec params)) (\<lambda>codec.
             color_registry_open (default_set w) codec (csp_backend params) params first_frame))"

section \<open>What is opened\<close>

lemma default_set_order:
  "default_set w = [PassthroughBackend, LibavNvidiaBackend w, LibavVaapiBackend w, LibavCpuBackend w]"
  by (simp add: default_set_def by_priority_def PassthroughBackend_def LibavNvidiaBackend_def
      LibavVaapiBackend_def LibavCpuBackend_def)

lemma libav_new_fresh:
  "LibavCodecSession_new i h ops params f = Ok s \<Longrightarrow> ls_next_sequence s = 0 \<and> ls_episode_index s = csp_episode_index params"
  by (auto simp: LibavCodecSession_new_def bind_ok_def split: sum.splits prod.splits)

lemma hw_empty_fresh [simp]:
  "hs_next_sequence (hw_session_empty params) = 0" "hs_episode_index (hw_session_empty params) = csp_episode_index params"
  by (auto simp: hw_session_empty_def)

lemma nvidia_new_fresh:
  "NvidiaCudaSession_new i h ops params f = Ok s \<Longrightarrow> hs_next_sequence s = 0 \<and> hs_episode_index s = csp_episode_index params"
  by (auto simp: NvidiaCudaSession_new_def bind_ok_def Let_def split: sum.splits)

lemma vaapi_new_fresh:
  "VaapiHwSession_new i h ops params f = Ok s \<Longrightarrow> hs_next_sequence s = 0 \<and> hs_episode_index s = csp_episode_index params"
  by (auto simp: VaapiHwSession_new_def bind_ok_def Let_def split: sum.splits)

definition fresh_session :: "('d, 'e, 's, 'm, 'x, 'b, 'g) codec_session \<Rightarrow> u32 \<Rightarrow> bool" where
  "fresh_session s episode \<longleftrightarrow> session_seq s = 0 \<and> session_episode s = episode"

lemma backend_open_fresh:
  assumes "b \<in> set (default_set w)" and "cb_open b params f = Ok s"
  shows "fresh_session s (csp_episode_index params)"
  using assms
  by (auto simp: default_set_order PassthroughBackend_def LibavNvidiaBackend_def LibavVaapiBackend_def
      LibavCpuBackend_def passthrough_open_def bind_ok_def Let_def with_backend_def fresh_session_def
      split: sum.splits if_splits dest!: libav_new_fresh nvidia_new_fresh vaapi_new_fresh)

lemma find_in_set: "find P xs = Some x \<Longrightarrow> x \<in> set xs"
  by (auto simp: find_Some_iff)

text \<open>Whatever session is opened numbers its packets from 0 and stamps them with its episode.\<close>

theorem open_session_fresh:
  assumes "open_session w params f = Ok s"
  shows "session_seq s = 0 \<and> session_episode s = csp_episode_index params"
proof -
  have color: "fresh_session s (csp_episode_index params)"
    if "color_registry_open (default_set w) codec hint params f = Ok s" for codec hint
    using that
    by (auto simp: color_registry_open_def Let_def bind_ok_def require_def split: if_splits option.splits sum.splits
        intro: backend_open_fresh dest: find_in_set)
  have depth: "fresh_session s (csp_episode_index params)"
    if "depth_registry_open [RvlBackend w] codec params f = Ok s" for codec
    using that
    by (auto simp: depth_registry_open_def RvlBackend_def RvlCodecSession_new_def require_def bind_ok_def Let_def
        fresh_session_def split: if_splits option.splits sum.splits)
  from assms have "fresh_session s (csp_episode_index params)"
    by (auto simp: open_session_def bind_ok_def split: if_splits sum.splits intro: color depth)
  then show ?thesis by (simp add: fresh_session_def)
qed

lemma rewrap_SomeD: "rewrap F z = ((s', out'), r) \<Longrightarrow> \<exists>t. z = ((t, out'), r) \<and> s' = F t"
  by (cases z) (auto simp: rewrap_def)

interpretation boxed: packet_session "session_encode w" "session_finish w" session_seq session_episode
  for w
proof
  fix f s out s' out' r
  assume "session_encode w f s out = Some ((s', out'), r)"
  then show "\<exists>new. out' = out @ new \<and> numbered (session_seq s) new \<and> of_episode (session_episode s) Packet new
      \<and> session_episode s' = session_episode s \<and> (is_ok r \<longrightarrow> session_seq s' = session_seq s + of_nat (length new))"
    by (cases s) (auto dest!: rewrap_SomeD rvl.encode_writes [OF arg_cong [of _ _ Some]]
        passthrough.encode_writes [OF arg_cong [of _ _ Some]] libav.encode_writes nvidia.encode_writes vaapi.encode_writes)
next
  fix s out out' r
  assume "session_finish w s out = Some (out', r)"
  then show "\<exists>new. numbered (session_seq s) (new @ drop (length (out @ new)) out') \<and> of_episode (session_episode s) Packet new
      \<and> (if is_ok r then \<exists>h. out' = out @ new @ [(h, [])] \<and> of_episode (session_episode s) EndOfStream [(h, [])]
         else out' = out @ new)"
    by (cases s; simp only: session_finish.simps session_seq.simps session_episode.simps)
      (rule rvl.finish_writes passthrough.finish_writes libav.finish_writes vaapi.finish_writes; assumption)+
qed

text \<open>\<open>Auto\<close> always finds a backend for the raw formats a camera sends, and passthrough for H.264.\<close>

lemma auto_color_backend:
  assumes "input \<in> {Px_Rgb24, Px_Bgr24, Px_Yuyv, Px_Mjpeg, Px_Gray8}"
  shows "\<exists>b. find (\<lambda>b. cb_available b \<and> cb_supports b codec input) (default_set w) = Some b"
proof -
  have "cb_available (LibavCpuBackend w) \<and> cb_supports (LibavCpuBackend w) codec input"
    using assms by (cases codec) (auto simp: LibavCpuBackend_def cpu_supports_def)
  moreover have "LibavCpuBackend w \<in> set (default_set w)" by (simp add: default_set_order)
  ultimately show ?thesis by (metis (no_types, lifting) find_None_iff not_None_eq)
qed

lemma auto_passthrough:
  "color_registry_open (default_set w) CC_H264 BackendAuto params f
     = bind_ok (passthrough_open params f) (\<lambda>s. Ok (PassthroughSession s))"
  if "cfh_pixel_format (of_header f) = Px_H264AnnexB"
  using that by (simp add: color_registry_open_def default_set_order PassthroughBackend_def passthrough_supports_def)

lemma nv12_unsupported:
  "cfh_pixel_format (of_header f) = Px_Nv12 \<Longrightarrow> \<not> is_ok (color_registry_open (default_set w) codec hint params f)"
  by (cases hint) (auto simp: color_registry_open_def default_set_order PassthroughBackend_def passthrough_supports_def
      LibavCpuBackend_def cpu_supports_def LibavNvidiaBackend_def nvidia_supports_def LibavVaapiBackend_def
      vaapi_supports_def bind_ok_def require_def split: if_splits)

section \<open>The negotiation of a libav session\<close>

text \<open>Once an encoder is found, the session settles: no bit depth is left unsupported and no
  \<open>unreachable!\<close> is reached; what differs from 4:2:0 in eight bits is listed by the encoder.\<close>

lemma selected_backend: "select_encoder_name h codec backend = Some name \<Longrightarrow> backend \<in> {BackendCpu, BackendNvidia, BackendVaapi}"
  by (cases "(codec, backend)" rule: encoder_candidates.cases) (auto simp: select_encoder_name_def split: if_splits)

lemma negotiated_chroma:
  assumes "backend \<in> {BackendCpu, BackendNvidia, BackendVaapi}"
  shows "\<exists>c. resolve_chroma_subsampling h name backend req = Ok c \<and> (backend = BackendVaapi \<longrightarrow> c = S420)
    \<and> (c = S422 \<longrightarrow> (\<exists>fs. h_formats h name = Some fs \<and> (if backend = BackendCpu then AV_YUV422P else AV_NV16) \<in> set fs))"
  using assms by (auto simp: resolve_chroma_subsampling_def Let_def split: option.splits)

lemma negotiated_depth:
  assumes "backend \<in> {BackendCpu, BackendNvidia, BackendVaapi}"
  shows "\<exists>d. resolve_bit_depth h name backend c req = Ok d \<and> d \<in> {8, 10} \<and> (backend = BackendVaapi \<longrightarrow> d = 8)
    \<and> (d = 10 \<longrightarrow> (\<exists>fs p. h_formats h name = Some fs \<and> scaled_pixel_format h backend c 10 = Ok p \<and> p \<in> set fs))"
  using assms
  by (auto simp: resolve_bit_depth_def Let_def scaled_pixel_format_def split: option.splits chroma_subsampling.splits)

lemma scaled_total:
  assumes "backend \<in> {BackendCpu, BackendNvidia, BackendVaapi}" and "d \<in> {8, 10}"
  shows "\<exists>p. scaled_pixel_format h backend c d = Ok p"
  using assms by (auto simp: scaled_pixel_format_def)

theorem negotiation_settles:
  assumes "select_encoder_name h (csp_codec params) (resolve_backend h (csp_codec params) (csp_backend params)) \<noteq> None"
    and "source \<notin> {Px_Depth16, Px_H264AnnexB}"
  shows "\<exists>plan. libav_negotiate h params source = Ok plan \<and> lp_bit_depth plan \<in> {8, 10}
    \<and> lp_backend plan \<in> {BackendCpu, BackendNvidia, BackendVaapi}
    \<and> (lp_bit_depth plan = 10 \<longrightarrow> (\<exists>fs. h_formats h (lp_codec_name plan) = Some fs \<and> lp_scale_pixel plan \<in> set fs))"
proof -
  let ?b = "resolve_backend h (csp_codec params) (csp_backend params)"
  from assms(1) obtain name where name: "select_encoder_name h (csp_codec params) ?b = Some name" by auto
  note b = selected_backend [OF name]
  from negotiated_chroma [OF b] obtain c where c: "resolve_chroma_subsampling h name ?b (csp_chroma_subsampling params) = Ok c"
    by blast
  from negotiated_depth [OF b, of h name c "csp_bit_depth params"]
  obtain d where d: "resolve_bit_depth h name ?b c (csp_bit_depth params) = Ok d" "d \<in> {8, 10}"
    and listed: "d = 10 \<longrightarrow> (\<exists>fs p. h_formats h name = Some fs \<and> scaled_pixel_format h ?b c 10 = Ok p \<and> p \<in> set fs)"
    by (elim exE conjE) (rule that)
  from scaled_total [OF b d(2)] obtain p where p: "scaled_pixel_format h ?b c d = Ok p" by blast
  have "\<exists>q. encoder_pixel_format h ?b c d = Ok q" using p by (simp add: encoder_pixel_format_def)
  then obtain q where q: "encoder_pixel_format h ?b c d = Ok q" ..
  have src: "validate_source_pixel_format source = Ok ()" using assms(2) by (cases source) auto
  show ?thesis
    using name c d p q src listed b
    by (auto simp: libav_negotiate_def Let_def require_def bind_ok_def)
qed

end
