(* ===== verification/Recording_Runtime.thy ===== *)
theory Recording_Runtime
  imports Encoder_Backends
begin

text \<open>
  The recording encoder process, \<^verbatim>\<open>encoder/src/recording_runtime.rs\<close>: a main thread that
  forwards control events and camera frames to a worker, and the worker that opens, drives and
  finishes codec sessions. A turn of the main loop takes what its subscribers hold, a turn of the
  worker what its channels hold; the frame channel is bounded by \<open>queue_size\<close>.
\<close>

section \<open>The worker\<close>

datatype worker_control = WorkerRecordingStart u32 u64 | WorkerRecordingStop | DroppedFrame | WorkerShutdown

datatype worker_event = WorkerError encode_error | ShutdownComplete

record 's worker =
  wk_pending :: "(u32 \<times> u64) option"
  wk_session :: "'s option"
  wk_stop_after_drain :: bool
  wk_out :: "packet list"

definition worker_init :: "'s worker" where
  "worker_init = \<lparr>wk_pending = None, wk_session = None, wk_stop_after_drain = False, wk_out = []\<rparr>"

text \<open>\<open>active_session.take()\<close> and its \<open>finish\<close>; an error is reported and returned. The result is
  \<open>None\<close> when a drain does not return; the third component is how the worker returned, if it did.\<close>

type_synonym 's worker_step = "('s worker \<times> worker_event list \<times> (unit, encode_error) result option) option"

definition finish_active ::
  "('d, 'e, 's, 'm, 'x, 'b, 'g) encoder_world \<Rightarrow> ('d, 'e, 's, 'm, 'x, 'b, 'g) codec_session worker \<Rightarrow>
   ('d, 'e, 's, 'm, 'x, 'b, 'g) codec_session worker_step" where
  "finish_active w wk =
     (case wk_session wk of
        None \<Rightarrow> Some (wk, [], None)
      | Some s \<Rightarrow>
          map_option (\<lambda>(out, r). (wk\<lparr>wk_session := None, wk_out := out\<rparr>,
              (case r of Err e \<Rightarrow> [WorkerError e] | Ok _ \<Rightarrow> []),
              (case r of Err e \<Rightarrow> Some (Err e) | Ok _ \<Rightarrow> None)))
            (session_finish w s (wk_out wk)))"

definition worker_control_step ::
  "('d, 'e, 's, 'm, 'x, 'b, 'g) encoder_world \<Rightarrow> worker_control \<Rightarrow>
   ('d, 'e, 's, 'm, 'x, 'b, 'g) codec_session worker \<Rightarrow> ('d, 'e, 's, 'm, 'x, 'b, 'g) codec_session worker_step" where
  "worker_control_step w control wk =
     (case control of
        WorkerRecordingStart episode_index controller_ts_us \<Rightarrow>
          map_option (\<lambda>(wk', events, exit).
              if exit = None
              then (wk'\<lparr>wk_pending := Some (episode_index, controller_ts_us), wk_stop_after_drain := False\<rparr>, events, None)
              else (wk', events, exit)) (finish_active w wk)
      | WorkerRecordingStop \<Rightarrow> Some (wk\<lparr>wk_stop_after_drain := True\<rparr>, [], None)
      | DroppedFrame \<Rightarrow> Some (wk\<lparr>wk_session := map_option session_record_dropped (wk_session wk)\<rparr>, [], None)
      | WorkerShutdown \<Rightarrow>
          map_option (\<lambda>(wk', events, exit).
              if exit = None then (wk', events @ [ShutdownComplete], Some (Ok ())) else (wk', events, exit))
            (finish_active w wk))"

fun worker_controls ::
  "('d, 'e, 's, 'm, 'x, 'b, 'g) encoder_world \<Rightarrow> worker_control list \<Rightarrow>
   ('d, 'e, 's, 'm, 'x, 'b, 'g) codec_session worker \<Rightarrow> ('d, 'e, 's, 'm, 'x, 'b, 'g) codec_session worker_step" where
  "worker_controls w [] wk = Some (wk, [], None)"
| "worker_controls w (c # cs) wk =
     Option.bind (worker_control_step w c wk) (\<lambda>(wk', events, exit).
       if exit \<noteq> None then Some (wk', events, exit)
       else map_option (\<lambda>(wk'', events', exit'). (wk'', events @ events', exit')) (worker_controls w cs wk'))"

definition handle_frame ::
  "('d, 'e, 's, 'm, 'x, 'b, 'g) encoder_world \<Rightarrow> encoder_runtime_config_v2 \<Rightarrow> recording_encoder_config \<Rightarrow>
   owned_frame \<Rightarrow> ('d, 'e, 's, 'm, 'x, 'b, 'g) codec_session worker \<Rightarrow>
   (('d, 'e, 's, 'm, 'x, 'b, 'g) codec_session worker \<times> (unit, encode_error) result) option" where
  "handle_frame w config recording frame wk =
     (let encode = (\<lambda>s wk. map_option (\<lambda>((s', out), r). (wk\<lparr>wk_session := Some s', wk_out := out\<rparr>, r))
            (session_encode w frame s (wk_out wk)))
      in case wk_session wk of
        Some s \<Rightarrow> encode s wk
      | None \<Rightarrow>
          (case wk_pending wk of
             None \<Rightarrow> Some (wk, Ok ())
           | Some (episode_index, controller_ts_us) \<Rightarrow>
               (case open_session w (CodecSessionParams_from_recording recording (er_process_id config) episode_index
                       controller_ts_us (cfh_width (of_header frame)) (cfh_height (of_header frame))) frame of
                  Err e \<Rightarrow> Some (wk, Err e)
                | Ok s \<Rightarrow> encode (session_request_keyframe s) (wk\<lparr>wk_session := Some (session_request_keyframe s)\<rparr>))))"

text \<open>An error of \<open>handle_frame\<close> returns from the worker without an event.\<close>

fun worker_frames ::
  "('d, 'e, 's, 'm, 'x, 'b, 'g) encoder_world \<Rightarrow> encoder_runtime_config_v2 \<Rightarrow> recording_encoder_config \<Rightarrow>
   owned_frame list \<Rightarrow> ('d, 'e, 's, 'm, 'x, 'b, 'g) codec_session worker \<Rightarrow>
   ('d, 'e, 's, 'm, 'x, 'b, 'g) codec_session worker_step" where
  "worker_frames w config recording [] wk = Some (wk, [], None)"
| "worker_frames w config recording (f # fs) wk =
     Option.bind (handle_frame w config recording f wk) (\<lambda>(wk', r).
       case r of Err e \<Rightarrow> Some (wk', [], Some (Err e)) | Ok _ \<Rightarrow> worker_frames w config recording fs wk')"

text \<open>What \<open>recv_timeout\<close> returns when no frame was waiting.\<close>

datatype late_frame = Received owned_frame | Timeout | Disconnected

record worker_turn =
  wt_controls :: "worker_control list"
  wt_frames :: "owned_frame list"
  wt_late :: late_frame

definition worker_stop ::
  "('d, 'e, 's, 'm, 'x, 'b, 'g) encoder_world \<Rightarrow> bool \<Rightarrow> ('d, 'e, 's, 'm, 'x, 'b, 'g) codec_session worker \<Rightarrow>
   ('d, 'e, 's, 'm, 'x, 'b, 'g) codec_session worker_step" where
  "worker_stop w processed_any_frame wk =
     (if wk_stop_after_drain wk \<and> \<not> processed_any_frame
      then map_option (\<lambda>(wk', events, exit).
               if exit = None then (wk'\<lparr>wk_stop_after_drain := False\<rparr>, events, None) else (wk', events, exit))
             (finish_active w (wk\<lparr>wk_pending := None\<rparr>))
      else Some (wk, [], None))"

definition worker_next ::
  "'s worker_step \<Rightarrow> ('s worker \<Rightarrow> 's worker_step) \<Rightarrow> 's worker_step" where
  "worker_next m k = Option.bind m (\<lambda>(wk, events, exit).
     if exit \<noteq> None then Some (wk, events, exit)
     else map_option (\<lambda>(wk', events', exit'). (wk', events @ events', exit')) (k wk))"

definition worker_iter ::
  "('d, 'e, 's, 'm, 'x, 'b, 'g) encoder_world \<Rightarrow> encoder_runtime_config_v2 \<Rightarrow> recording_encoder_config \<Rightarrow>
   worker_turn \<Rightarrow> ('d, 'e, 's, 'm, 'x, 'b, 'g) codec_session worker \<Rightarrow>
   ('d, 'e, 's, 'm, 'x, 'b, 'g) codec_session worker_step" where
  "worker_iter w config recording turn wk =
     worker_next (worker_controls w (wt_controls turn) wk) (\<lambda>wk.
     worker_next (worker_frames w config recording (wt_frames turn) wk) (\<lambda>wk.
       if wt_frames turn \<noteq> [] then worker_stop w True wk
       else case wt_late turn of
         Received f \<Rightarrow> worker_next (worker_frames w config recording [f] wk) (worker_stop w True)
       | Timeout \<Rightarrow> worker_stop w False wk
       | Disconnected \<Rightarrow> Some (wk, [ShutdownComplete], Some (Ok ()))))"

text \<open>The worker over a list of turns, until it returns.\<close>

fun worker_main ::
  "('d, 'e, 's, 'm, 'x, 'b, 'g) encoder_world \<Rightarrow> encoder_runtime_config_v2 \<Rightarrow> recording_encoder_config \<Rightarrow>
   worker_turn list \<Rightarrow> ('d, 'e, 's, 'm, 'x, 'b, 'g) codec_session worker \<Rightarrow>
   ('d, 'e, 's, 'm, 'x, 'b, 'g) codec_session worker_step" where
  "worker_main w config recording [] wk = Some (wk, [], None)"
| "worker_main w config recording (t # ts) wk =
     worker_next (worker_iter w config recording t wk) (worker_main w config recording ts)"

section \<open>The main loop\<close>

record encoder_run =
  rn_recording_active :: bool
  rn_shutdown_requested :: bool
  rn_controls :: "worker_control list"
  rn_frames :: "owned_frame list"
  rn_backpressure :: "backpressure_event list"

definition encoder_run_init :: encoder_run where
  "encoder_run_init = \<lparr>rn_recording_active = False, rn_shutdown_requested = False, rn_controls = [],
     rn_frames = [], rn_backpressure = []\<rparr>"

definition send_control :: "worker_control \<Rightarrow> encoder_run \<Rightarrow> encoder_run" where
  "send_control c r = r\<lparr>rn_controls := rn_controls r @ [c]\<rparr>"

text \<open>The events of the worker; an error shuts the worker down and ends the process.\<close>

fun drain_worker_events :: "worker_event list \<Rightarrow> encoder_run \<Rightarrow> encoder_run \<times> encode_error option" where
  "drain_worker_events [] r = (r, None)"
| "drain_worker_events (WorkerError e # es) r = (send_control WorkerShutdown r, Some e)"
| "drain_worker_events (ShutdownComplete # es) r = drain_worker_events es (r\<lparr>rn_shutdown_requested := True\<rparr>)"

text \<open>The control events of a turn, with the flags \<open>request_stop\<close> and \<open>request_shutdown\<close>.\<close>

fun drain_control :: "control_event list \<Rightarrow> encoder_run \<times> bool \<times> bool \<Rightarrow> encoder_run \<times> bool \<times> bool" where
  "drain_control [] st = st"
| "drain_control (c # cs) (r, request_stop, request_shutdown) =
     drain_control cs (case c of
         RecordingStart episode_index controller_ts_us \<Rightarrow>
           ((send_control (WorkerRecordingStart episode_index controller_ts_us) r)\<lparr>rn_recording_active := True\<rparr>,
            request_stop, request_shutdown)
       | RecordingStop _ _ \<Rightarrow> (r, True, request_shutdown)
       | Shutdown \<Rightarrow> (r, request_stop, True)
       | _ \<Rightarrow> (r, request_stop, request_shutdown))"

definition frame_queue_event :: "encoder_runtime_config_v2 \<Rightarrow> backpressure_event" where
  "frame_queue_event config = \<lparr>bp_process_id = FixedString64_new (er_process_id config),
     bp_queue_name = FixedString64_new ''frame_queue''\<rparr>"

text \<open>One camera frame: \<open>try_send\<close> on the bounded channel.\<close>

definition forward_frame ::
  "encoder_runtime_config_v2 \<Rightarrow> recording_encoder_config \<Rightarrow> owned_frame \<Rightarrow> encoder_run \<Rightarrow> encoder_run" where
  "forward_frame config recording frame r =
     (if \<not> rn_recording_active r then r
      else if length (rn_frames r) < unat (re_queue_size recording) then r\<lparr>rn_frames := rn_frames r @ [frame]\<rparr>
      else send_control DroppedFrame (r\<lparr>rn_backpressure := rn_backpressure r @ [frame_queue_event config]\<rparr>))"

definition main_iter ::
  "encoder_runtime_config_v2 \<Rightarrow> recording_encoder_config \<Rightarrow> worker_event list \<Rightarrow> control_event list \<Rightarrow>
   owned_frame list \<Rightarrow> encoder_run \<Rightarrow> encoder_run \<times> encode_error option" where
  "main_iter config recording events controls frames r =
     (case drain_worker_events events r of
        (r, Some e) \<Rightarrow> (r, Some e)
      | (r, None) \<Rightarrow>
          let (r, request_stop, request_shutdown) = drain_control controls (r, False, False);
              r = fold (forward_frame config recording) frames r;
              r = (if request_stop then (send_control WorkerRecordingStop r)\<lparr>rn_recording_active := False\<rparr> else r);
              r = (if request_shutdown then (send_control WorkerShutdown r)\<lparr>rn_recording_active := False\<rparr> else r)
          in (r, None))"

section \<open>The log is a sequence of episodes\<close>

text \<open>A closed episode is its packets, numbered from 0, and the end of the stream.\<close>

definition closed_episode :: "u32 \<Rightarrow> packet list \<Rightarrow> bool" where
  "closed_episode n ps \<longleftrightarrow> (\<exists>pk h. ps = pk @ [(h, [])] \<and> of_episode n Packet pk \<and> numbered 0 ps
     \<and> eph_kind h = EndOfStream \<and> eph_episode_index h = n)"

definition open_episode :: "u32 \<Rightarrow> packet list \<Rightarrow> bool" where
  "open_episode n ps \<longleftrightarrow> of_episode n Packet ps \<and> numbered 0 ps"

inductive episodes :: "packet list \<Rightarrow> bool" where
  no_episode: "episodes []"
| next_episode: "episodes ps \<Longrightarrow> closed_episode n qs \<Longrightarrow> episodes (ps @ qs)"

definition worker_ok :: "('d, 'e, 's, 'm, 'x, 'b, 'g) codec_session worker \<Rightarrow> bool" where
  "worker_ok wk \<longleftrightarrow> (case wk_session wk of
       None \<Rightarrow> episodes (wk_out wk)
     | Some s \<Rightarrow> \<exists>done pk. wk_out wk = done @ pk \<and> episodes done \<and> open_episode (session_episode s) pk
         \<and> session_seq s = of_nat (length pk))"

text \<open>A worker that returned with an error may leave an episode open.\<close>

definition log_ok :: "packet list \<Rightarrow> bool" where
  "log_ok out \<longleftrightarrow> (\<exists>done pk n. out = done @ pk \<and> episodes done \<and> open_episode n pk)"

lemma episodes_log_ok: "episodes out \<Longrightarrow> log_ok out"
  unfolding log_ok_def by (intro exI [of _ out] exI [of _ "[]"]) (simp add: open_episode_def)

lemma worker_ok_log: "worker_ok wk \<Longrightarrow> log_ok (wk_out wk)"
proof (cases "wk_session wk")
  case None
  then show "worker_ok wk \<Longrightarrow> log_ok (wk_out wk)" by (simp add: worker_ok_def episodes_log_ok)
next
  case (Some s)
  then show "worker_ok wk \<Longrightarrow> log_ok (wk_out wk)" by (auto simp: worker_ok_def log_ok_def)
qed

lemma worker_ok_openI:
  "wk_session wk = Some s \<Longrightarrow> wk_out wk = don @ pk \<Longrightarrow> episodes don \<Longrightarrow> open_episode (session_episode s) pk \<Longrightarrow>
   session_seq s = of_nat (length pk) \<Longrightarrow> worker_ok wk"
  by (auto simp: worker_ok_def)

lemma worker_ok_openE:
  assumes "worker_ok wk" and "wk_session wk = Some s"
  obtains don pk where "wk_out wk = don @ pk" "episodes don" "open_episode (session_episode s) pk"
    "session_seq s = of_nat (length pk)"
  using assms by (auto simp: worker_ok_def)

lemma worker_ok_cong:
  "wk_session wk' = wk_session wk \<Longrightarrow> wk_out wk' = wk_out wk \<Longrightarrow> worker_ok wk' = worker_ok wk"
  by (cases "wk_session wk") (simp_all add: worker_ok_def)

lemma worker_ok_flags [simp]:
  "worker_ok (wk\<lparr>wk_pending := x\<rparr>) = worker_ok wk" "worker_ok (wk\<lparr>wk_stop_after_drain := b\<rparr>) = worker_ok wk"
  by (rule worker_ok_cong; simp)+

definition step_ok :: "('d, 'e, 's, 'm, 'x, 'b, 'g) codec_session worker \<times> worker_event list \<times> (unit, encode_error) result option \<Rightarrow> bool" where
  "step_ok y \<longleftrightarrow> (case y of (wk, _, exit) \<Rightarrow>
     (case exit of Some (Err _) \<Rightarrow> log_ok (wk_out wk) | _ \<Rightarrow> worker_ok wk))"

lemma session_flags [simp]:
  "session_seq (session_request_keyframe s) = session_seq s"
  "session_episode (session_request_keyframe s) = session_episode s"
  "session_seq (session_record_dropped s) = session_seq s"
  "session_episode (session_record_dropped s) = session_episode s"
  by (cases s; simp add: libav_request_keyframe_def hw_request_keyframe_def rvl_record_dropped_def
      passthrough_record_dropped_def libav_record_dropped_def hw_record_dropped_def)+

lemma finish_active_ok:
  assumes "worker_ok wk" and "finish_active w wk = Some (wk', events, exit)"
  shows "(case exit of None \<Rightarrow> worker_ok wk' \<and> wk_session wk' = None | Some r \<Rightarrow> \<not> is_ok r \<and> log_ok (wk_out wk'))
    \<and> wk_pending wk' = wk_pending wk \<and> wk_stop_after_drain wk' = wk_stop_after_drain wk"
proof (cases "wk_session wk")
  case None
  with assms show ?thesis by (auto simp: finish_active_def)
next
  case (Some s)
  with assms(1) obtain don pk where old: "wk_out wk = don @ pk" "episodes don" "open_episode (session_episode s) pk"
    "session_seq s = of_nat (length pk)" by (auto simp: worker_ok_def)
  from assms(2) Some obtain out r where fin: "session_finish w s (wk_out wk) = Some (out, r)"
    and wk': "wk' = wk\<lparr>wk_session := None, wk_out := out\<rparr>" "exit = (case r of Err e \<Rightarrow> Some (Err e) | Ok _ \<Rightarrow> None)"
    by (auto simp: finish_active_def)
  from boxed.finish_writes [OF fin] obtain new where new: "numbered (session_seq s) (new @ drop (length (wk_out wk @ new)) out)"
    "of_episode (session_episode s) Packet new"
    "if is_ok r then \<exists>h. out = wk_out wk @ new @ [(h, [])] \<and> of_episode (session_episode s) EndOfStream [(h, [])]
     else out = wk_out wk @ new" by blast
  show ?thesis
  proof (cases r)
    case (Inl e)
    with new old have "out = don @ (pk @ new)" "open_episode (session_episode s) (pk @ new)"
      by (auto simp: open_episode_def numbered_append)
    with old have "log_ok out" by (auto simp: log_ok_def)
    with wk' Inl show ?thesis by simp
  next
    case (Inr u)
    with new obtain h where h: "out = wk_out wk @ new @ [(h, [])]" "eph_episode_index h = session_episode s"
      "eph_kind h = EndOfStream" by auto
    have "closed_episode (session_episode s) (pk @ new @ [(h, [])])"
      using new old h Inr by (auto simp: closed_episode_def open_episode_def numbered_append intro!: exI [of _ "pk @ new"])
    with old have "episodes (don @ pk @ new @ [(h, [])])" by (auto intro: next_episode)
    with h old wk' Inr show ?thesis by (simp add: worker_ok_def)
  qed
qed

lemma step_okI: "(case exit of Some (Err _) \<Rightarrow> log_ok (wk_out wk) | _ \<Rightarrow> worker_ok wk) \<Longrightarrow> step_ok (wk, events, exit)"
  by (simp add: step_ok_def)

lemma control_step_ok:
  assumes "worker_ok wk" and "worker_control_step w c wk = Some y"
  shows "step_ok y"
proof (cases c)
  case (WorkerRecordingStart n t)
  with assms(2) obtain wk' ev ex where fin: "finish_active w wk = Some (wk', ev, ex)"
    and y: "y = (if ex = None then (wk'\<lparr>wk_pending := Some (n, t), wk_stop_after_drain := False\<rparr>, ev, None) else (wk', ev, ex))"
    by (auto simp: worker_control_step_def)
  from finish_active_ok [OF assms(1) fin] y show ?thesis
    by (cases ex) (auto simp: step_ok_def split: sum.splits)
next
  case WorkerRecordingStop
  with assms show ?thesis by (auto simp: worker_control_step_def step_ok_def)
next
  case DroppedFrame
  with assms(2) have y: "y = (wk\<lparr>wk_session := map_option session_record_dropped (wk_session wk)\<rparr>, [], None)"
    by (simp add: worker_control_step_def)
  have "worker_ok (wk\<lparr>wk_session := map_option session_record_dropped (wk_session wk)\<rparr>)"
  proof (cases "wk_session wk")
    case None
    with assms(1) show ?thesis by (simp add: worker_ok_def)
  next
    case (Some s)
    from worker_ok_openE [OF assms(1) Some] obtain don pk where "wk_out wk = don @ pk" "episodes don"
      "open_episode (session_episode s) pk" "session_seq s = of_nat (length pk)" by blast
    then show ?thesis by (intro worker_ok_openI [of _ "session_record_dropped s" don pk]) (simp_all add: Some)
  qed
  with y show ?thesis by (simp add: step_ok_def)
next
  case WorkerShutdown
  with assms(2) obtain wk' ev ex where fin: "finish_active w wk = Some (wk', ev, ex)"
    and y: "y = (if ex = None then (wk', ev @ [ShutdownComplete], Some (Ok ())) else (wk', ev, ex))"
    by (auto simp: worker_control_step_def)
  from finish_active_ok [OF assms(1) fin] y show ?thesis
    by (cases ex) (auto simp: step_ok_def split: sum.splits)
qed

lemma worker_next_ok:
  assumes "worker_next m k = Some y" and "\<And>x. m = Some x \<Longrightarrow> step_ok x"
    and "\<And>wk z. worker_ok wk \<Longrightarrow> k wk = Some z \<Longrightarrow> step_ok z"
  shows "step_ok y"
proof -
  from assms(1) obtain wk ev ex where m: "m = Some (wk, ev, ex)" by (auto simp: worker_next_def bind_eq_Some_conv)
  note ok = assms(2) [OF m]
  show ?thesis
  proof (cases ex)
    case None
    with ok have "worker_ok wk" by (simp add: step_ok_def)
    with assms(1,3) m None show ?thesis by (fastforce simp: worker_next_def step_ok_def)
  next
    case (Some r)
    with assms(1) m ok show ?thesis by (auto simp: worker_next_def)
  qed
qed

lemma worker_controls_next:
  "worker_controls w (c # cs) wk = worker_next (worker_control_step w c wk) (worker_controls w cs)"
  by (simp add: worker_next_def)

lemma controls_ok: "worker_ok wk \<Longrightarrow> worker_controls w cs wk = Some y \<Longrightarrow> step_ok y"
proof (induction cs arbitrary: wk y)
  case Nil
  then show ?case by (auto simp: step_ok_def)
next
  case (Cons c cs)
  show ?case
    by (rule worker_next_ok [OF Cons.prems(2) [unfolded worker_controls_next]])
      (use Cons control_step_ok in blast)+
qed

lemma encode_ok:
  assumes "wk_out wk = don @ pk" and "episodes don" and "open_episode (session_episode s) pk"
    and "session_seq s = of_nat (length pk)" and "session_encode w f s (wk_out wk) = Some ((s', out), r)"
  shows "case r of Err _ \<Rightarrow> log_ok out | Ok _ \<Rightarrow> worker_ok (wk\<lparr>wk_session := Some s', wk_out := out\<rparr>)"
proof -
  from boxed.encode_writes [OF assms(5)] obtain new where new: "out = wk_out wk @ new" "numbered (session_seq s) new"
    "of_episode (session_episode s) Packet new" "session_episode s' = session_episode s"
    "is_ok r \<longrightarrow> session_seq s' = session_seq s + of_nat (length new)" by blast
  then have out: "out = don @ (pk @ new)" and op: "open_episode (session_episode s) (pk @ new)"
    using assms by (auto simp: open_episode_def numbered_append)
  show ?thesis
  proof (cases r)
    case (Inl e)
    with out op assms(2) show ?thesis by (auto simp: log_ok_def)
  next
    case (Inr u)
    have "worker_ok (wk\<lparr>wk_session := Some s', wk_out := out\<rparr>)"
      by (rule worker_ok_openI [of _ s' don "pk @ new"]) (use new out op assms Inr in simp_all)
    with Inr show ?thesis by simp
  qed
qed

lemma handle_frame_ok:
  assumes "worker_ok wk" and "handle_frame w cfg rcfg f wk = Some (wk', r)"
  shows "case r of Err _ \<Rightarrow> log_ok (wk_out wk') | Ok _ \<Rightarrow> worker_ok wk'"
proof (cases "wk_session wk")
  case (Some s)
  with assms obtain don pk where "wk_out wk = don @ pk" "episodes don" "open_episode (session_episode s) pk"
    "session_seq s = of_nat (length pk)" by (auto simp: worker_ok_def)
  note don = this
  from assms(2) Some obtain s' out where enc: "session_encode w f s (wk_out wk) = Some ((s', out), r)"
    and wk': "wk' = wk\<lparr>wk_session := Some s', wk_out := out\<rparr>" by (auto simp: handle_frame_def Let_def)
  from encode_ok [OF don enc] wk' show ?thesis by (cases r) simp_all
next
  case None
  note closed = assms(1) [unfolded worker_ok_def None option.case]
  show ?thesis
  proof (cases "wk_pending wk")
    case None
    with assms \<open>wk_session wk = None\<close> show ?thesis by (auto simp: handle_frame_def Let_def)
  next
    case (Some nt)
    obtain n t where nt: "nt = (n, t)" by (cases nt)
    let ?params = "CodecSessionParams_from_recording rcfg (er_process_id cfg) n t (cfh_width (of_header f)) (cfh_height (of_header f))"
    show ?thesis
    proof (cases "open_session w ?params f")
      case (Inl e)
      with assms None Some nt closed show ?thesis by (auto simp: handle_frame_def Let_def intro: episodes_log_ok)
    next
      case (Inr s)
      have seq: "session_seq (session_request_keyframe s) = of_nat (length ([] :: packet list))"
        using open_session_fresh [OF Inr] by simp
      have op: "open_episode (session_episode (session_request_keyframe s)) []" by (simp add: open_episode_def)
      have out: "wk_out (wk\<lparr>wk_session := Some (session_request_keyframe s)\<rparr>) = wk_out wk @ []" by simp
      let ?wk = "wk\<lparr>wk_session := Some (session_request_keyframe s)\<rparr>"
      from assms(2) None Some nt Inr obtain s' out'
        where enc: "session_encode w f (session_request_keyframe s) (wk_out ?wk) = Some ((s', out'), r)"
          and wk': "wk' = ?wk\<lparr>wk_session := Some s', wk_out := out'\<rparr>" by (auto simp: handle_frame_def Let_def)
      from encode_ok [OF out closed op seq enc] wk' show ?thesis by (cases r) simp_all
    qed
  qed
qed

lemma frames_ok: "worker_ok wk \<Longrightarrow> worker_frames w cfg rcfg fs wk = Some y \<Longrightarrow> step_ok y"
proof (induction fs arbitrary: wk)
  case Nil
  then show ?case by (auto simp: step_ok_def)
next
  case (Cons f fs)
  then obtain wk' r where step: "handle_frame w cfg rcfg f wk = Some (wk', r)"
    and rest: "(case r of Err e \<Rightarrow> Some (wk', [], Some (Err e)) | Ok _ \<Rightarrow> worker_frames w cfg rcfg fs wk') = Some y"
    by (auto simp: bind_eq_Some_conv)
  from handle_frame_ok [OF Cons.prems(1) step] rest Cons.IH show ?case
    by (cases r) (auto simp: step_ok_def)
qed

lemma stop_ok: "worker_ok wk \<Longrightarrow> worker_stop w b wk = Some y \<Longrightarrow> step_ok y"
proof (cases "wk_stop_after_drain wk \<and> \<not> b")
  case True
  assume ok: "worker_ok wk" and stop: "worker_stop w b wk = Some y"
  from ok have ok': "worker_ok (wk\<lparr>wk_pending := None\<rparr>)" by simp
  from stop True obtain wk' ev ex where fin: "finish_active w (wk\<lparr>wk_pending := None\<rparr>) = Some (wk', ev, ex)"
    and y: "y = (if ex = None then (wk'\<lparr>wk_stop_after_drain := False\<rparr>, ev, None) else (wk', ev, ex))"
    by (auto simp: worker_stop_def)
  from finish_active_ok [OF ok' fin] y show "step_ok y"
    by (cases ex) (auto simp: step_ok_def split: sum.splits)
qed (auto simp: worker_stop_def step_ok_def)

lemma iter_ok:
  assumes "worker_ok wk" and "worker_iter w cfg rcfg t wk = Some y"
  shows "step_ok y"
proof (rule worker_next_ok [OF assms(2) [unfolded worker_iter_def]])
  show "step_ok x" if "worker_controls w (wt_controls t) wk = Some x" for x
    using controls_ok [OF assms(1) that] .
  fix wk1 z
  assume ok1: "worker_ok wk1"
    and z: "worker_next (worker_frames w cfg rcfg (wt_frames t) wk1) (\<lambda>wk.
       if wt_frames t \<noteq> [] then worker_stop w True wk
       else case wt_late t of
         Received f \<Rightarrow> worker_next (worker_frames w cfg rcfg [f] wk) (worker_stop w True)
       | Timeout \<Rightarrow> worker_stop w False wk
       | Disconnected \<Rightarrow> Some (wk, [ShutdownComplete], Some (Ok ()))) = Some z"
  show "step_ok z"
  proof (rule worker_next_ok [OF z])
    show "step_ok x" if "worker_frames w cfg rcfg (wt_frames t) wk1 = Some x" for x
      using frames_ok [OF ok1 that] .
    show "step_ok u" if ok2: "worker_ok wk2"
      and u: "(if wt_frames t \<noteq> [] then worker_stop w True wk2
       else case wt_late t of
         Received f \<Rightarrow> worker_next (worker_frames w cfg rcfg [f] wk2) (worker_stop w True)
       | Timeout \<Rightarrow> worker_stop w False wk2
       | Disconnected \<Rightarrow> Some (wk2, [ShutdownComplete], Some (Ok ()))) = Some u" for wk2 u
    proof (cases "wt_frames t \<noteq> [] \<or> wt_late t = Timeout")
      case True
      with u ok2 show ?thesis by (auto intro: stop_ok split: if_splits)
    next
      case False
      show ?thesis
      proof (cases "wt_late t")
        case (Received f)
        with u False have n: "worker_next (worker_frames w cfg rcfg [f] wk2) (worker_stop w True) = Some u" by simp
        show ?thesis by (rule worker_next_ok [OF n]) (use ok2 frames_ok stop_ok in blast)+
      qed (use u False ok2 in \<open>auto simp: step_ok_def\<close>)
    qed
  qed
qed

lemma main_ok: "worker_ok wk \<Longrightarrow> worker_main w cfg rcfg ts wk = Some y \<Longrightarrow> step_ok y"
proof (induction ts arbitrary: wk y)
  case Nil
  then show ?case by (auto simp: step_ok_def)
next
  case (Cons t ts)
  show ?case
    by (rule worker_next_ok [OF Cons.prems(2) [unfolded worker_main.simps]]) (use Cons iter_ok in blast)+
qed

theorem worker_log:
  assumes "worker_main w cfg rcfg ts worker_init = Some (wk, events, exit)"
  shows "log_ok (wk_out wk)"
proof -
  have "worker_ok worker_init" by (simp add: worker_ok_def worker_init_def no_episode)
  from main_ok [OF this assms] show ?thesis
    by (auto simp: step_ok_def split: option.splits sum.splits intro: worker_ok_log)
qed

text \<open>A worker that returns well on a shutdown has no session left.\<close>

definition exit_idle :: "'s worker \<times> worker_event list \<times> (unit, encode_error) result option \<Rightarrow> bool" where
  "exit_idle y \<longleftrightarrow> (case y of (wk, _, exit) \<Rightarrow> exit = Some (Ok ()) \<longrightarrow> wk_session wk = None)"

lemma never_Err: "(\<forall>e. r \<noteq> Err e) \<longleftrightarrow> r = Ok ()" for r :: "(unit, 'e) result"
  by (cases r) auto

lemma worker_next_idle:
  assumes "worker_next m k = Some y" and "\<And>x. m = Some x \<Longrightarrow> exit_idle x" and "\<And>wk z. k wk = Some z \<Longrightarrow> exit_idle z"
  shows "exit_idle y"
  using assms by (fastforce simp: worker_next_def bind_eq_Some_conv exit_idle_def split: if_splits)

lemma control_idle: "worker_control_step w c wk = Some y \<Longrightarrow> exit_idle y"
  by (auto simp: worker_control_step_def exit_idle_def finish_active_def never_Err split: worker_control.splits option.splits if_splits sum.splits)

lemma controls_idle: "worker_controls w cs wk = Some y \<Longrightarrow> exit_idle y"
proof (induction cs arbitrary: wk y)
  case Nil
  then show ?case by (auto simp: exit_idle_def)
next
  case (Cons c cs)
  show ?case
    by (rule worker_next_idle [OF Cons.prems [unfolded worker_controls_next]]) (use Cons control_idle in blast)+
qed

lemma frames_idle: "worker_frames w cfg rcfg fs wk = Some y \<Longrightarrow> exit_idle y"
  by (induction fs arbitrary: wk) (auto simp: exit_idle_def bind_eq_Some_conv never_Err split: sum.splits)

lemma stop_idle: "worker_stop w b wk = Some y \<Longrightarrow> exit_idle y"
  by (auto simp: worker_stop_def exit_idle_def finish_active_def never_Err split: option.splits if_splits sum.splits)

lemma iter_idle:
  assumes "worker_iter w cfg rcfg t wk = Some y" and "wt_late t \<noteq> Disconnected"
  shows "exit_idle y"
proof (rule worker_next_idle [OF assms(1) [unfolded worker_iter_def] controls_idle])
  fix wk1 z
  assume z: "worker_next (worker_frames w cfg rcfg (wt_frames t) wk1) (\<lambda>wk.
       if wt_frames t \<noteq> [] then worker_stop w True wk
       else case wt_late t of
         Received f \<Rightarrow> worker_next (worker_frames w cfg rcfg [f] wk) (worker_stop w True)
       | Timeout \<Rightarrow> worker_stop w False wk
       | Disconnected \<Rightarrow> Some (wk, [ShutdownComplete], Some (Ok ()))) = Some z"
  show "exit_idle z"
    by (rule worker_next_idle [OF z frames_idle])
      (use assms(2) in \<open>auto split: if_splits late_frame.splits intro: stop_idle worker_next_idle [OF _ frames_idle stop_idle]
        simp del: worker_frames.simps\<close>)
qed

lemma main_idle:
  "worker_main w cfg rcfg ts wk = Some y \<Longrightarrow> list_all (\<lambda>t. wt_late t \<noteq> Disconnected) ts \<Longrightarrow> exit_idle y"
proof (induction ts arbitrary: wk y)
  case Nil
  then show ?case by (auto simp: exit_idle_def)
next
  case (Cons t ts)
  show ?case
    by (rule worker_next_idle [OF Cons.prems(1) [unfolded worker_main.simps]]) (use Cons iter_idle in auto)
qed

theorem shutdown_closes:
  assumes "worker_main w cfg rcfg ts worker_init = Some (wk, events, Some (Ok ()))"
    and "list_all (\<lambda>t. wt_late t \<noteq> Disconnected) ts"
  shows "episodes (wk_out wk)"
proof -
  have "worker_ok worker_init" by (simp add: worker_ok_def worker_init_def no_episode)
  from main_ok [OF this assms(1)] main_idle [OF assms] show ?thesis
    by (simp add: step_ok_def worker_ok_def exit_idle_def)
qed

section \<open>The main loop bounds its queue\<close>

lemma forward_frame_bound:
  "length (rn_frames r) \<le> unat (re_queue_size rcfg) \<Longrightarrow> length (rn_frames (forward_frame cfg rcfg f r)) \<le> unat (re_queue_size rcfg)"
  by (auto simp: forward_frame_def send_control_def)

lemma drain_control_frames: "drain_control cs (r, a, b) = (r', a', b') \<Longrightarrow> rn_frames r' = rn_frames r \<and> rn_backpressure r' = rn_backpressure r"
  by (induction cs arbitrary: r a b) (auto simp: send_control_def split: control_event.splits)

lemma drain_events_frames: "drain_worker_events es r = (r', e) \<Longrightarrow> rn_frames r' = rn_frames r \<and> rn_backpressure r' = rn_backpressure r"
  by (induction es r rule: drain_worker_events.induct) (auto simp: send_control_def)

lemma forward_all_bound:
  "length (rn_frames r) \<le> unat (re_queue_size rcfg) \<Longrightarrow>
   length (rn_frames (fold (forward_frame cfg rcfg) fs r)) \<le> unat (re_queue_size rcfg)"
  by (induction fs arbitrary: r) (auto simp: forward_frame_bound)

theorem frame_queue_bounded:
  assumes "length (rn_frames r) \<le> unat (re_queue_size rcfg)" and "main_iter cfg rcfg es cs fs r = (r', e)"
  shows "length (rn_frames r') \<le> unat (re_queue_size rcfg)"
proof -
  obtain r1 e1 where ev: "drain_worker_events es r = (r1, e1)" by fastforce
  obtain r2 stop down where ctl: "drain_control cs (r1, False, False) = (r2, stop, down)" by (metis surj_pair)
  have "length (rn_frames (fold (forward_frame cfg rcfg) fs r2)) \<le> unat (re_queue_size rcfg)"
    using assms(1) drain_events_frames [OF ev] drain_control_frames [OF ctl] by (intro forward_all_bound) simp
  with assms ev ctl drain_events_frames [OF ev] show ?thesis
    by (cases e1) (auto simp: main_iter_def Let_def send_control_def split: if_splits)
qed

text \<open>A frame offered during a recording is queued, or reported: one event and one notice each.\<close>

lemma forward_all_accounts:
  "rn_recording_active r \<Longrightarrow>
   length (rn_frames (fold (forward_frame cfg rcfg) fs r)) + length (rn_backpressure (fold (forward_frame cfg rcfg) fs r))
     = length (rn_frames r) + length (rn_backpressure r) + length fs
   \<and> length (filter (\<lambda>c. c = DroppedFrame) (rn_controls (fold (forward_frame cfg rcfg) fs r))) + length (rn_backpressure r)
     = length (filter (\<lambda>c. c = DroppedFrame) (rn_controls r)) + length (rn_backpressure (fold (forward_frame cfg rcfg) fs r))"
proof (induction fs arbitrary: r)
  case Nil
  then show ?case by simp
next
  case (Cons f fs)
  have "rn_recording_active (forward_frame cfg rcfg f r)"
    using Cons.prems by (simp add: forward_frame_def send_control_def)
  from Cons.IH [OF this] Cons.prems show ?case by (auto simp: forward_frame_def send_control_def split: if_splits)
qed

text \<open>A stop and the next start read in one turn reach the worker in the opposite order, and the
  frames of the new episode are not forwarded.\<close>

lemma stop_start_batch:
  "main_iter cfg rcfg [] [RecordingStop n t, EpisodeKeep n, RecordingStart m u] [] r
     = (r\<lparr>rn_controls := rn_controls r @ [WorkerRecordingStart m u, WorkerRecordingStop], rn_recording_active := False\<rparr>, None)"
  by (simp add: main_iter_def send_control_def)

end
