(* ===== verification/Ordered_Map.thy ===== *)
theory Ordered_Map
  imports Prelude
begin

text \<open>
  \<open>BTreeMap\<close>: an association list whose keys are strictly increasing. Lookup is \<open>map_of\<close>;
  iteration is the list itself, in key order, as the assemblers iterate over their episodes.
  The interface \<open>ordered_map\<close> states the laws the clients use.
\<close>

type_synonym ('k, 'v) btree_map = "('k \<times> 'v) list"

fun bt_insert :: "'k::linorder \<Rightarrow> 'v \<Rightarrow> ('k, 'v) btree_map \<Rightarrow> ('k, 'v) btree_map" where
  "bt_insert k v [] = [(k, v)]"
| "bt_insert k v ((k', v') # m) =
     (if k < k' then (k, v) # (k', v') # m
      else if k = k' then (k, v) # m
      else (k', v') # bt_insert k v m)"

definition bt_remove :: "'k \<Rightarrow> ('k, 'v) btree_map \<Rightarrow> ('k, 'v) btree_map" where
  "bt_remove k m = filter (\<lambda>kv. fst kv \<noteq> k) m"

text \<open>\<open>if let Some(v) = map.get_mut(&k) { *v = f(*v) }\<close>\<close>

definition bt_update :: "'k \<Rightarrow> ('v \<Rightarrow> 'v) \<Rightarrow> ('k, 'v) btree_map \<Rightarrow> ('k, 'v) btree_map" where
  "bt_update k f m = map (\<lambda>kv. if fst kv = k then (fst kv, f (snd kv)) else kv) m"

definition bt_keys :: "('k, 'v) btree_map \<Rightarrow> 'k list" where
  "bt_keys m = map fst m"

definition bt_inv :: "('k::linorder, 'v) btree_map \<Rightarrow> bool" where
  "bt_inv m \<longleftrightarrow> sorted_wrt (<) (bt_keys m)"

text \<open>The laws: each operation is the corresponding update of the lookup function and keeps the
  keys increasing; the keys iterated over are exactly those with a value.\<close>

locale ordered_map =
  fixes lookup :: "'m \<Rightarrow> 'k::linorder \<Rightarrow> 'v option"
    and insert_key :: "'k \<Rightarrow> 'v \<Rightarrow> 'm \<Rightarrow> 'm" and remove_key :: "'k \<Rightarrow> 'm \<Rightarrow> 'm"
    and update_key :: "'k \<Rightarrow> ('v \<Rightarrow> 'v) \<Rightarrow> 'm \<Rightarrow> 'm"
    and keys_of :: "'m \<Rightarrow> 'k list" and inv :: "'m \<Rightarrow> bool"
  assumes lookup_insert: "lookup (insert_key k v m) j = (if j = k then Some v else lookup m j)"
    and lookup_remove: "lookup (remove_key k m) j = (if j = k then None else lookup m j)"
    and lookup_update: "lookup (update_key k f m) j = (if j = k then map_option f (lookup m k) else lookup m j)"
    and set_keys: "set (keys_of m) = dom (lookup m)"
    and inv_insert: "inv m \<Longrightarrow> inv (insert_key k v m)"
    and inv_remove: "inv m \<Longrightarrow> inv (remove_key k m)"
    and inv_update: "inv m \<Longrightarrow> inv (update_key k f m)"
    and inv_sorted: "inv m \<Longrightarrow> sorted_wrt (<) (keys_of m)"
begin

lemma finite_dom: "finite (dom (lookup m))"
  unfolding set_keys [symmetric] by simp

lemma distinct_keys: "inv m \<Longrightarrow> distinct (keys_of m)"
  using inv_sorted strict_sorted_iff by blast

lemma card_dom: "inv m \<Longrightarrow> card (dom (lookup m)) = length (keys_of m)"
  unfolding set_keys [symmetric] by (rule distinct_card [OF distinct_keys])

lemma dom_insert: "dom (lookup (insert_key k v m)) = insert k (dom (lookup m))"
  by (auto simp: lookup_insert dom_def)

lemma dom_remove: "dom (lookup (remove_key k m)) = dom (lookup m) - {k}"
  by (auto simp: lookup_remove dom_def)

lemma dom_update: "dom (lookup (update_key k f m)) = dom (lookup m)"
  by (auto simp: lookup_update dom_def split: if_splits)

lemma length_insert_new: "inv m \<Longrightarrow> lookup m k = None \<Longrightarrow> length (keys_of (insert_key k v m)) = Suc (length (keys_of m))"
  using card_dom [OF inv_insert] card_dom [of m] finite_dom [of m]
  by (simp add: dom_insert domIff)

lemma length_remove_le: "inv m \<Longrightarrow> length (keys_of (remove_key k m)) \<le> length (keys_of m)"
  using card_dom [OF inv_remove] card_dom [of m] finite_dom [of m] card_mono [OF finite_dom [of m], of "dom (lookup m) - {k}"]
  by (simp add: dom_remove)

text \<open>\<open>for k in ks { map.remove(&k) }\<close>\<close>

lemma lookup_remove_all: "lookup (fold remove_key ks m) j = (if j \<in> set ks then None else lookup m j)"
  by (induction ks arbitrary: m) (auto simp: lookup_remove)

lemma inv_remove_all: "inv m \<Longrightarrow> inv (fold remove_key ks m)"
  by (induction ks arbitrary: m) (auto simp: inv_remove)

lemma length_remove_all_le: "inv m \<Longrightarrow> length (keys_of (fold remove_key ks m)) \<le> length (keys_of m)"
  by (induction ks arbitrary: m) (auto intro: le_trans inv_remove length_remove_le)

end

lemma map_of_bt_insert: "map_of (bt_insert k v m) j = (if j = k then Some v else map_of m j)"
  by (induction m) auto

lemma map_of_bt_remove: "map_of (bt_remove k m) j = (if j = k then None else map_of m j)"
  by (induction m) (auto simp: bt_remove_def)

lemma map_of_bt_update: "map_of (bt_update k f m) j = (if j = k then map_option f (map_of m k) else map_of m j)"
  by (induction m) (auto simp: bt_update_def)

lemma set_bt_keys: "set (bt_keys m) = dom (map_of m)"
  by (simp add: bt_keys_def dom_map_of_conv_image_fst)

lemma keys_bt_insert: "set (bt_keys (bt_insert k v m)) = insert k (set (bt_keys m))"
  unfolding set_bt_keys by (auto simp: map_of_bt_insert dom_def)

lemma bt_inv_Cons: "bt_inv (kv # m) \<longleftrightarrow> (\<forall>j \<in> set (bt_keys m). fst kv < j) \<and> bt_inv m"
  by (simp add: bt_inv_def bt_keys_def)

lemma bt_inv_insert: "bt_inv m \<Longrightarrow> bt_inv (bt_insert k v m)"
proof (induction m)
  case Nil
  show ?case by (simp add: bt_inv_def bt_keys_def)
next
  case (Cons kv m)
  obtain k' v' where kv: "kv = (k', v')" by (cases kv)
  from Cons.prems have lt: "\<forall>j \<in> set (bt_keys m). k' < j" and m: "bt_inv m" by (auto simp: kv bt_inv_Cons)
  have "\<forall>j \<in> set (bt_keys ((k', v') # m)). k < j" if "k < k'" using lt that by (auto simp: bt_keys_def)
  with lt m Cons.IH [OF m] show ?case
    by (auto simp: kv bt_inv_Cons keys_bt_insert not_less_iff_gr_or_eq)
qed

lemma bt_inv_remove: "bt_inv m \<Longrightarrow> bt_inv (bt_remove k m)"
  by (induction m) (auto simp: bt_inv_def bt_keys_def bt_remove_def)

lemma bt_keys_update: "bt_keys (bt_update k f m) = bt_keys m"
  by (simp add: bt_keys_def bt_update_def comp_def if_distrib cong: if_cong)

lemma bt_inv_update: "bt_inv m \<Longrightarrow> bt_inv (bt_update k f m)"
  by (simp add: bt_inv_def bt_keys_update)

interpretation bt: ordered_map map_of bt_insert bt_remove bt_update bt_keys bt_inv
  by unfold_locales
    (simp_all add: map_of_bt_insert map_of_bt_remove map_of_bt_update set_bt_keys bt_inv_insert bt_inv_remove
      bt_inv_update, simp add: bt_inv_def)

lemma bt_mem_iff: "bt_inv m \<Longrightarrow> (k, v) \<in> set m \<longleftrightarrow> map_of m k = Some v"
  using bt.distinct_keys [of m] by (auto simp: bt_keys_def map_of_is_SomeI dest: map_of_SomeD)

end
