(* ===== verification/Episode_Assembler.thy ===== *)
theory Episode_Assembler
  imports Ordered_Map Packet_Stream Config_Runtime "HOL-Library.Char_ord" "HOL-Library.List_Lexorder"
begin

text \<open>
  The episode manager and the main loop that \<^verbatim>\<open>episode-lerobot/src/runtime.rs\<close> and
  \<^verbatim>\<open>episode-mcap/src/runtime.rs\<close> share line by line. They differ in the packet buffer, in what is
  handed to the staging worker and in whether a discard removes files; the record \<open>asm_ops\<close>
  holds these and \<open>lerobot_ops\<close>, \<open>mcap_ops\<close> are the two programs. Removed staging directories are
  logged by episode index. The clocks, the ports and the staging function are inputs of a turn;
  the staging worker runs between the turns' drains and talks to the loop through two queues.
\<close>

section \<open>Pending episodes\<close>

record sample =
  smp_timestamp_us :: u64
  smp_values :: "f64 list"

record 'b pending_episode =
  pd_episode_index :: u32
  pd_start_time_us :: u64
  pd_stop_time_us :: "u64 option"
  pd_keep_requested :: bool
  pd_ready_wait_started_us :: "u64 option"
  pd_observation_samples :: "(string, sample list) btree_map"
  pd_action_samples :: "(string, sample list) btree_map"
  pd_camera_streams :: "(string, 'b) btree_map"
  pd_failed_cameras :: "string list"

record ('b, 'p) asm_ops =
  ao_fresh :: 'b
  ao_observe_packet :: "encoded_packet_header \<Rightarrow> bytes \<Rightarrow> 'b \<Rightarrow> 'b"
  ao_observe_eos :: "encoded_packet_header \<Rightarrow> 'b \<Rightarrow> 'b"
  ao_failed :: "'b \<Rightarrow> bool"
  ao_eos_received :: "'b \<Rightarrow> bool"
  ao_discard_removes :: bool
  ao_payload :: "'b pending_episode \<Rightarrow> 'p"

definition PendingEpisode_new :: "('b, 'p) asm_ops \<Rightarrow> u32 \<Rightarrow> u64 \<Rightarrow> string list \<Rightarrow> 'b pending_episode" where
  "PendingEpisode_new A episode_index start_time_us channel_ids =
     \<lparr>pd_episode_index = episode_index, pd_start_time_us = start_time_us, pd_stop_time_us = None,
      pd_keep_requested = False, pd_ready_wait_started_us = None, pd_observation_samples = [],
      pd_action_samples = [],
      pd_camera_streams = fold (\<lambda>channel_id. bt_insert channel_id (ao_fresh A)) channel_ids [],
      pd_failed_cameras = []\<rparr>"

definition all_cameras_eos :: "('b, 'p) asm_ops \<Rightarrow> nat \<Rightarrow> 'b pending_episode \<Rightarrow> bool" where
  "all_cameras_eos A cameras episode \<longleftrightarrow>
     length (filter (\<lambda>(channel_id, s). ao_eos_received A s) (pd_camera_streams episode)) = cameras"

record episode_assembly_input =
  eai_episode_index :: u32
  eai_start_time_us :: u64
  eai_stop_time_us :: u64
  eai_observation_samples :: "(string, sample list) btree_map"
  eai_action_samples :: "(string, sample list) btree_map"
  eai_camera_streams :: "(string, recording_stream_buffer) btree_map"

definition as_assembly_input :: "recording_stream_buffer pending_episode \<Rightarrow> episode_assembly_input" where
  "as_assembly_input episode =
     \<lparr>eai_episode_index = pd_episode_index episode, eai_start_time_us = pd_start_time_us episode,
      eai_stop_time_us = (case pd_stop_time_us episode of Some t \<Rightarrow> t | None \<Rightarrow> pd_start_time_us episode),
      eai_observation_samples = pd_observation_samples episode, eai_action_samples = pd_action_samples episode,
      eai_camera_streams = pd_camera_streams episode\<rparr>"

definition lerobot_ops :: "(recording_stream_buffer, episode_assembly_input) asm_ops" where
  "lerobot_ops = \<lparr>ao_fresh = RecordingStreamBuffer_default, ao_observe_packet = observe_packet,
     ao_observe_eos = observe_eos, ao_failed = (\<lambda>b. rsb_failed b \<noteq> None), ao_eos_received = rsb_eos_received,
     ao_discard_removes = True, ao_payload = as_assembly_input\<rparr>"

definition mcap_ops :: "(camera_stream_buffer, camera_stream_buffer pending_episode) asm_ops" where
  "mcap_ops = \<lparr>ao_fresh = CameraStreamBuffer_default, ao_observe_packet = camera_observe_packet,
     ao_observe_eos = camera_observe_eos, ao_failed = (\<lambda>b. csb_failed b \<noteq> None), ao_eos_received = csb_eos_received,
     ao_discard_removes = False, ao_payload = (\<lambda>episode. episode)\<rparr>"

section \<open>The episode manager\<close>

type_synonym instant_ns = nat

record 'b episode_manager =
  mg_config :: assembler_runtime_config_v2
  mg_active_episode_index :: "u32 option"
  mg_episodes :: "(u32, 'b pending_episode) btree_map"
  mg_camera_channel_ids :: "string list"
  mg_in_flight :: "(u32, instant_ns) btree_map"
  mg_staging_slots :: nat
  mg_stale_after :: nat
  mg_removed :: "u32 list"

definition saturating_mul :: "u64 \<Rightarrow> nat \<Rightarrow> u64" where
  "saturating_mul a k = of_nat (min (unat a * k) (2 ^ 64 - 1))"

definition EpisodeManager_new :: "assembler_runtime_config_v2 \<Rightarrow> 'b episode_manager" where
  "EpisodeManager_new config =
     \<lparr>mg_config = config, mg_active_episode_index = None, mg_episodes = [],
      mg_camera_channel_ids = map acam_channel_id (asm_cameras config), mg_in_flight = [],
      mg_staging_slots = unat (asm_staging_slots config),
      mg_stale_after = unat (saturating_mul (asm_missing_eos_timeout_ms config) 2) * 1000000, mg_removed = []\<rparr>"

definition release_slot :: "u32 \<Rightarrow> 'b episode_manager \<Rightarrow> 'b episode_manager \<times> bool" where
  "release_slot episode_index m =
     (m\<lparr>mg_in_flight := bt_remove episode_index (mg_in_flight m)\<rparr>, map_of (mg_in_flight m) episode_index \<noteq> None)"

text \<open>\<open>duration_since\<close> saturates at zero.\<close>

definition sweep_stale_slots :: "instant_ns \<Rightarrow> 'b episode_manager \<Rightarrow> 'b episode_manager \<times> u32 list" where
  "sweep_stale_slots now m =
     (let stale = map fst (filter (\<lambda>(idx, started). mg_stale_after m < now - started) (mg_in_flight m))
      in (m\<lparr>mg_in_flight := fold bt_remove stale (mg_in_flight m)\<rparr>, stale))"

definition remove_artifacts :: "u32 \<Rightarrow> 'b episode_manager \<Rightarrow> 'b episode_manager" where
  "remove_artifacts episode_index m = m\<lparr>mg_removed := mg_removed m @ [episode_index]\<rparr>"

definition clear_active :: "u32 \<Rightarrow> 'b episode_manager \<Rightarrow> 'b episode_manager" where
  "clear_active episode_index m =
     (if mg_active_episode_index m = Some episode_index then m\<lparr>mg_active_episode_index := None\<rparr> else m)"

text \<open>The wall clock is only read by \<open>RecordingStop\<close> and by an \<open>EpisodeKeep\<close> that comes before it.\<close>

definition on_control_event ::
  "('b, 'p) asm_ops \<Rightarrow> control_event \<Rightarrow> u64 \<Rightarrow> 'b episode_manager \<Rightarrow> 'b episode_manager \<times> bool" where
  "on_control_event A event now_us m =
     (case event of
        RecordingStart episode_index controller_ts_us \<Rightarrow>
          (m\<lparr>mg_episodes := bt_insert episode_index
               (PendingEpisode_new A episode_index controller_ts_us (mg_camera_channel_ids m)) (mg_episodes m),
             mg_active_episode_index := Some episode_index\<rparr>, False)
      | RecordingStop episode_index controller_ts_us \<Rightarrow>
          (clear_active episode_index
             (m\<lparr>mg_episodes := bt_update episode_index
                  (\<lambda>episode. episode\<lparr>pd_stop_time_us := Some controller_ts_us, pd_ready_wait_started_us := Some now_us\<rparr>)
                  (mg_episodes m)\<rparr>), False)
      | EpisodeKeep episode_index \<Rightarrow>
          (m\<lparr>mg_episodes := bt_update episode_index
               (\<lambda>episode. episode\<lparr>pd_keep_requested := True,
                  pd_ready_wait_started_us := (case pd_ready_wait_started_us episode of
                      None \<Rightarrow> Some now_us | Some t \<Rightarrow> Some t)\<rparr>)
               (mg_episodes m)\<rparr>, False)
      | EpisodeDiscard episode_index \<Rightarrow>
          (clear_active episode_index
             (let m' = m\<lparr>mg_episodes := bt_remove episode_index (mg_episodes m)\<rparr>
              in if ao_discard_removes A \<and> map_of (mg_episodes m) episode_index \<noteq> None
                 then remove_artifacts episode_index m' else m'), False)
      | Shutdown \<Rightarrow> (m, True)
      | ModeSwitch _ \<Rightarrow> (m, False))"

definition bt_push :: "'k::linorder \<Rightarrow> 'v \<Rightarrow> ('k, 'v list) btree_map \<Rightarrow> ('k, 'v list) btree_map" where
  "bt_push k v m = bt_insert k (case map_of m k of None \<Rightarrow> [v] | Some vs \<Rightarrow> vs @ [v]) m"

definition observation_key :: "string \<Rightarrow> robot_state_kind \<Rightarrow> string" where
  "observation_key channel_id state_kind = channel_id @ ''/'' @ state_topic_suffix state_kind"

definition action_key :: "string \<Rightarrow> robot_command_kind \<Rightarrow> string" where
  "action_key channel_id command_kind = channel_id @ ''/'' @ command_topic_suffix command_kind"

definition on_active :: "('b pending_episode \<Rightarrow> 'b pending_episode) \<Rightarrow> 'b episode_manager \<Rightarrow> 'b episode_manager" where
  "on_active f m =
     (case mg_active_episode_index m of
        None \<Rightarrow> m
      | Some episode_index \<Rightarrow> m\<lparr>mg_episodes := bt_update episode_index f (mg_episodes m)\<rparr>)"

definition on_observation ::
  "string \<Rightarrow> robot_state_kind \<Rightarrow> u64 \<Rightarrow> f64 list \<Rightarrow> 'b episode_manager \<Rightarrow> 'b episode_manager" where
  "on_observation channel_id state_kind timestamp_us vals =
     on_active (\<lambda>episode. episode\<lparr>pd_observation_samples :=
       bt_push (observation_key channel_id state_kind) \<lparr>smp_timestamp_us = timestamp_us, smp_values = vals\<rparr>
         (pd_observation_samples episode)\<rparr>)"

definition on_action ::
  "string \<Rightarrow> robot_command_kind \<Rightarrow> u64 \<Rightarrow> f64 list \<Rightarrow> 'b episode_manager \<Rightarrow> 'b episode_manager" where
  "on_action channel_id command_kind timestamp_us vals =
     on_active (\<lambda>episode. episode\<lparr>pd_action_samples :=
       bt_push (action_key channel_id command_kind) \<lparr>smp_timestamp_us = timestamp_us, smp_values = vals\<rparr>
         (pd_action_samples episode)\<rparr>)"

definition observe_into :: "('b, 'p) asm_ops \<Rightarrow> packet \<Rightarrow> 'b \<Rightarrow> 'b" where
  "observe_into A q buffer =
     (case eph_kind (fst q) of
        Packet \<Rightarrow> ao_observe_packet A (fst q) (snd q) buffer
      | EndOfStream \<Rightarrow> ao_observe_eos A (fst q) buffer)"

definition episode_packet :: "('b, 'p) asm_ops \<Rightarrow> string \<Rightarrow> packet \<Rightarrow> 'b pending_episode \<Rightarrow> 'b pending_episode" where
  "episode_packet A channel_id q episode =
     (case map_of (pd_camera_streams episode) channel_id of
        None \<Rightarrow> episode
      | Some buffer \<Rightarrow>
          (let buffer' = observe_into A q buffer
           in episode\<lparr>pd_camera_streams := bt_update channel_id (\<lambda>_. buffer') (pd_camera_streams episode),
                pd_failed_cameras := (if ao_failed A buffer' \<and> channel_id \<notin> set (pd_failed_cameras episode)
                   then pd_failed_cameras episode @ [channel_id] else pd_failed_cameras episode)\<rparr>))"

definition on_packet :: "('b, 'p) asm_ops \<Rightarrow> string \<Rightarrow> packet \<Rightarrow> 'b episode_manager \<Rightarrow> 'b episode_manager" where
  "on_packet A channel_id q m =
     m\<lparr>mg_episodes := bt_update (eph_episode_index (fst q)) (episode_packet A channel_id q) (mg_episodes m)\<rparr>"

section \<open>Dispatch\<close>

datatype verdict = EpisodeFailed | EpisodeReadyToStage | EpisodeTimedOut | EpisodeWaits

definition verdict_of :: "('b, 'p) asm_ops \<Rightarrow> u64 \<Rightarrow> 'b episode_manager \<Rightarrow> 'b pending_episode \<Rightarrow> verdict" where
  "verdict_of A now_us m episode =
     (if pd_failed_cameras episode \<noteq> [] then EpisodeFailed
      else if \<not> pd_keep_requested episode \<or> pd_stop_time_us episode = None then EpisodeWaits
      else if all_cameras_eos A (length (asm_cameras (mg_config m))) episode then EpisodeReadyToStage
      else case pd_ready_wait_started_us episode of
        Some wait_started_us \<Rightarrow>
          if saturating_mul (asm_missing_eos_timeout_ms (mg_config m)) 1000
               < (if now_us < wait_started_us then 0 else now_us - wait_started_us)
          then EpisodeTimedOut else EpisodeWaits
      | None \<Rightarrow> EpisodeWaits)"

definition with_verdict :: "('b, 'p) asm_ops \<Rightarrow> u64 \<Rightarrow> 'b episode_manager \<Rightarrow> verdict \<Rightarrow> u32 list" where
  "with_verdict A now_us m v = map fst (filter (\<lambda>(idx, episode). verdict_of A now_us m episode = v) (mg_episodes m))"

definition ready_failed_and_timed_out ::
  "('b, 'p) asm_ops \<Rightarrow> u64 \<Rightarrow> 'b episode_manager \<Rightarrow> u32 list \<times> u32 list \<times> u32 list" where
  "ready_failed_and_timed_out A now_us m =
     (with_verdict A now_us m EpisodeReadyToStage, with_verdict A now_us m EpisodeFailed,
      with_verdict A now_us m EpisodeTimedOut)"

record drop_notice =
  dn_episode_index :: u32
  dn_reason :: string
  dn_backpressure :: bool

datatype 'p stage_command = Stage 'p | StageShutdown

record ('b, 'p) dispatch =
  dp_manager :: "'b episode_manager"
  dp_commands :: "'p stage_command list"
  dp_changed :: bool
  dp_dropped :: "drop_notice list"

definition drop_episode :: "string \<Rightarrow> bool \<Rightarrow> u32 \<Rightarrow> ('b, 'p) dispatch \<Rightarrow> ('b, 'p) dispatch" where
  "drop_episode reason backpressure episode_index d =
     (let m = dp_manager d
      in if map_of (mg_episodes m) episode_index = None then d
         else d\<lparr>dp_manager := remove_artifacts episode_index (m\<lparr>mg_episodes := bt_remove episode_index (mg_episodes m)\<rparr>),
                dp_dropped := dp_dropped d @ [\<lparr>dn_episode_index = episode_index, dn_reason = reason,
                  dn_backpressure = backpressure\<rparr>],
                dp_changed := True\<rparr>)"

datatype asm_error = UnsupportedFormat episode_format | PortFailed string | StagingWorkerGone | SlicePanic

datatype asm_exit = Finished | Failed asm_error

fun stage_ready ::
  "('b, 'p) asm_ops \<Rightarrow> (u32 \<Rightarrow> instant_ns) \<Rightarrow> bool \<Rightarrow> u32 list \<Rightarrow> ('b, 'p) dispatch \<Rightarrow>
   ('b, 'p) dispatch \<times> (unit, asm_exit) result" where
  "stage_ready A clock alive [] d = (d, Ok ())"
| "stage_ready A clock alive (n # ns) d =
     (let m = dp_manager d
      in case map_of (mg_episodes m) n of
        None \<Rightarrow> stage_ready A clock alive ns d
      | Some episode \<Rightarrow>
          if mg_staging_slots m \<le> length (mg_in_flight m)
          then stage_ready A clock alive ns (drop_episode ''staging_slots_full'' True n d)
          else let m' = m\<lparr>mg_episodes := bt_remove n (mg_episodes m)\<rparr>
               in if alive
                  then stage_ready A clock alive ns
                    (d\<lparr>dp_manager := m'\<lparr>mg_in_flight := bt_insert n (clock n) (mg_in_flight m)\<rparr>,
                       dp_commands := dp_commands d @ [Stage (ao_payload A episode)], dp_changed := True\<rparr>)
                  else (d\<lparr>dp_manager := m'\<rparr>, Err (Failed StagingWorkerGone)))"

definition dispatch_ready_episodes ::
  "('b, 'p) asm_ops \<Rightarrow> u64 \<Rightarrow> (u32 \<Rightarrow> instant_ns) \<Rightarrow> bool \<Rightarrow> 'b episode_manager \<Rightarrow>
   ('b, 'p) dispatch \<times> (unit, asm_exit) result" where
  "dispatch_ready_episodes A now_us clock alive m =
     (case ready_failed_and_timed_out A now_us m of (ready, failed, timed_out) \<Rightarrow>
        stage_ready A clock alive ready
          (fold (drop_episode ''missing_end_of_stream'' False) timed_out
            (fold (drop_episode ''packet_stream_failure'' False) failed
              \<lparr>dp_manager = m, dp_commands = [], dp_changed = False, dp_dropped = []\<rparr>)))"

section \<open>The staging worker\<close>

record staged_episode =
  se_episode_index :: u32
  se_staging_dir :: string

datatype stage_event = Staged staged_episode | StageError string | StageShutdownComplete

text \<open>The worker over everything it ever receives; the channel closing ends it too.\<close>

fun stage_worker_main :: "('p \<Rightarrow> (staged_episode, string) result) \<Rightarrow> 'p stage_command list \<Rightarrow> stage_event list" where
  "stage_worker_main stage [] = [StageShutdownComplete]"
| "stage_worker_main stage (Stage input # cmds) =
     (case stage input of Ok staged \<Rightarrow> Staged staged | Err e \<Rightarrow> StageError e) # stage_worker_main stage cmds"
| "stage_worker_main stage (StageShutdown # cmds) = [StageShutdownComplete]"

section \<open>The main loop\<close>

datatype outgoing = OutReady episode_ready | OutBackpressure backpressure_event | OutDropped episode_dropped

text \<open>\<open>as_sent\<close> logs every command sent to the worker, \<open>as_queue\<close> those it has not taken yet;
  \<open>as_events\<close> is the queue back, \<open>as_out\<close> everything published.\<close>

record ('b, 'p) assembler =
  as_manager :: "'b episode_manager"
  as_sent :: "'p stage_command list"
  as_queue :: "'p stage_command list"
  as_alive :: bool
  as_events :: "stage_event list"
  as_out :: "outgoing list"
  as_shutdown_requested :: bool
  as_progress :: bool

definition assembler_init :: "assembler_runtime_config_v2 \<Rightarrow> ('b, 'p) assembler" where
  "assembler_init config =
     \<lparr>as_manager = EpisodeManager_new config, as_sent = [], as_queue = [], as_alive = True, as_events = [],
      as_out = [], as_shutdown_requested = False, as_progress = False\<rparr>"

text \<open>A robot sample as the subscriber of its kind receives it.\<close>

datatype robot_sample = VectorSample value_vector | MitSample mit_command | PoseSample pose7

text \<open>What the loop meets in one turn.\<close>

record 'p asm_turn =
  tn_controls :: "(control_event \<times> u64, string) result list"
  tn_packets :: "(packet, string) result list list"
  tn_observations :: "(robot_sample, string) result list list"
  tn_actions :: "(robot_sample, string) result list list"
  tn_now_us :: u64
  tn_clock :: "u32 \<Rightarrow> instant_ns"
  tn_sends :: "outgoing \<Rightarrow> (unit, string) result"
  tn_stored :: "(episode_stored, string) result list"
  tn_sweep_at :: instant_ns
  tn_stage :: "'p \<Rightarrow> (staged_episode, string) result"
  tn_worker_steps :: nat
  tn_interrupted :: bool

text \<open>Steps of the loop with \<open>?\<close> between them, and the loop over one port.\<close>

type_synonym 's phase = "'s \<Rightarrow> 's \<times> (unit, asm_exit) result"

fun phases :: "'s phase list \<Rightarrow> 's phase" where
  "phases [] s = (s, Ok ())"
| "phases (p # ps) s = (case p s of (s', Ok _) \<Rightarrow> phases ps s' | (s', Err e) \<Rightarrow> (s', Err e))"

fun drain_port :: "('a \<Rightarrow> 's phase) \<Rightarrow> ('a, string) result list \<Rightarrow> 's phase" where
  "drain_port f [] s = (s, Ok ())"
| "drain_port f (r # rs) s =
     (case r of
        Err e \<Rightarrow> (s, Err (Failed (PortFailed e)))
      | Ok x \<Rightarrow> (case f x s of (s', Ok _) \<Rightarrow> drain_port f rs s' | (s', Err e) \<Rightarrow> (s', Err e)))"

definition on_manager :: "('b episode_manager \<Rightarrow> 'b episode_manager) \<Rightarrow> ('b, 'p) assembler phase" where
  "on_manager f s = (s\<lparr>as_manager := f (as_manager s), as_progress := True\<rparr>, Ok ())"

text \<open>The drain of control events stops at the first \<open>Shutdown\<close>; what follows it stays in the port.\<close>

fun asm_drain_control :: "('b, 'p) asm_ops \<Rightarrow> (control_event \<times> u64, string) result list \<Rightarrow> ('b, 'p) assembler phase" where
  "asm_drain_control A [] s = (s, Ok ())"
| "asm_drain_control A (Err e # rs) s = (s, Err (Failed (PortFailed e)))"
| "asm_drain_control A (Ok (event, now_us) # rs) s =
     (case on_control_event A event now_us (as_manager s) of
        (m, shutdown) \<Rightarrow>
          if shutdown then (s\<lparr>as_manager := m, as_shutdown_requested := True\<rparr>, Ok ())
          else asm_drain_control A rs (s\<lparr>as_manager := m\<rparr>))"

definition asm_drain_packets :: "('b, 'p) asm_ops \<Rightarrow> (packet, string) result list list \<Rightarrow> ('b, 'p) assembler phase" where
  "asm_drain_packets A received s =
     phases (map (\<lambda>(cam, rs). drain_port (\<lambda>q. on_manager (on_packet A (acam_channel_id cam) q)) rs)
       (zip (asm_cameras (mg_config (as_manager s))) received)) s"

text \<open>\<open>values[..len]\<close> panics when the length field is larger than the array.\<close>

fun robot_sample_values :: "robot_sample \<Rightarrow> (u64 \<times> f64 list) option" where
  "robot_sample_values (VectorSample v) =
     (if unat (vv_len v) \<le> length (vv_values v)
      then Some (vv_timestamp_us v, take (unat (vv_len v)) (vv_values v)) else None)"
| "robot_sample_values (MitSample c) =
     (if unat (mit_len c) \<le> length (mit_position c)
      then Some (mit_timestamp_us c, take (unat (mit_len c)) (mit_position c)) else None)"
| "robot_sample_values (PoseSample p) = Some (pose_timestamp_us p, pose_values p)"

definition drain_samples ::
  "(u64 \<Rightarrow> f64 list \<Rightarrow> 'b episode_manager \<Rightarrow> 'b episode_manager) \<Rightarrow> (robot_sample, string) result list \<Rightarrow>
   ('b, 'p) assembler phase" where
  "drain_samples put = drain_port (\<lambda>payload s.
     case robot_sample_values payload of
       None \<Rightarrow> (s, Err (Failed SlicePanic))
     | Some (timestamp_us, vals) \<Rightarrow> on_manager (put timestamp_us vals) s)"

definition drain_observations :: "(robot_sample, string) result list list \<Rightarrow> ('b, 'p) assembler phase" where
  "drain_observations received s =
     phases (map (\<lambda>(obs, rs). drain_samples (on_observation (aobs_channel_id obs) (aobs_state_kind obs)) rs)
       (zip (asm_observations (mg_config (as_manager s))) received)) s"

definition drain_actions :: "(robot_sample, string) result list list \<Rightarrow> ('b, 'p) assembler phase" where
  "drain_actions received s =
     phases (map (\<lambda>(action, rs). drain_samples (on_action (aact_channel_id action) (aact_command_kind action)) rs)
       (zip (asm_actions (mg_config (as_manager s))) received)) s"

definition publish :: "(outgoing \<Rightarrow> (unit, string) result) \<Rightarrow> outgoing \<Rightarrow> ('b, 'p) assembler phase" where
  "publish sends msg s =
     (case sends msg of
        Err e \<Rightarrow> (s, Err (Failed (PortFailed e)))
      | Ok _ \<Rightarrow> (s\<lparr>as_out := as_out s @ [msg]\<rparr>, Ok ()))"

definition publish_drop :: "(outgoing \<Rightarrow> (unit, string) result) \<Rightarrow> drop_notice \<Rightarrow> ('b, 'p) assembler phase" where
  "publish_drop sends notice s =
     phases ((if dn_backpressure notice
              then [publish sends (OutBackpressure
                \<lparr>bp_process_id = FixedString64_new (asm_process_id (mg_config (as_manager s))),
                 bp_queue_name = FixedString64_new (dn_reason notice)\<rparr>)] else []) @
       [publish sends (OutDropped
          \<lparr>ed_episode_index = dn_episode_index notice, ed_reason = FixedString64_new (dn_reason notice)\<rparr>)]) s"

definition dispatch_phase :: "('b, 'p) asm_ops \<Rightarrow> 'p asm_turn \<Rightarrow> ('b, 'p) assembler phase" where
  "dispatch_phase A t s =
     (case dispatch_ready_episodes A (tn_now_us t) (tn_clock t) (as_alive s) (as_manager s) of
        (d, r) \<Rightarrow>
          let s' = s\<lparr>as_manager := dp_manager d, as_sent := as_sent s @ dp_commands d,
                as_queue := as_queue s @ dp_commands d, as_progress := (as_progress s \<or> dp_changed d)\<rparr>
          in case r of
            Err e \<Rightarrow> (s', Err e)
          | Ok _ \<Rightarrow> phases (map (publish_drop (tn_sends t)) (dp_dropped d)) s')"

definition stored_phase :: "'p asm_turn \<Rightarrow> ('b, 'p) assembler phase" where
  "stored_phase t = drain_port (\<lambda>stored s.
     case release_slot (est_episode_index stored) (as_manager s) of
       (m, released) \<Rightarrow> (s\<lparr>as_manager := m, as_progress := (as_progress s \<or> released)\<rparr>, Ok ())) (tn_stored t)"

definition sweep_phase :: "'p asm_turn \<Rightarrow> ('b, 'p) assembler phase" where
  "sweep_phase t s =
     (case sweep_stale_slots (tn_sweep_at t) (as_manager s) of
        (m, stale) \<Rightarrow>
          phases (map (\<lambda>leaked s. publish_drop (tn_sends t) \<lparr>dn_episode_index = leaked,
              dn_reason = ''staging_slot_leak'', dn_backpressure = True\<rparr> (s\<lparr>as_progress := True\<rparr>)) stale)
            (s\<lparr>as_manager := m\<rparr>))"

text \<open>The worker takes commands while the loop is elsewhere; it returns on \<open>StageShutdown\<close>.\<close>

fun worker_take :: "('p \<Rightarrow> (staged_episode, string) result) \<Rightarrow> nat \<Rightarrow> ('b, 'p) assembler \<Rightarrow> ('b, 'p) assembler" where
  "worker_take stage 0 s = s"
| "worker_take stage (Suc k) s =
     (if \<not> as_alive s then s
      else case as_queue s of
        [] \<Rightarrow> s
      | Stage input # cmds \<Rightarrow> worker_take stage k (s\<lparr>as_queue := cmds,
          as_events := as_events s @ [case stage input of Ok staged \<Rightarrow> Staged staged | Err e \<Rightarrow> StageError e]\<rparr>)
      | StageShutdown # cmds \<Rightarrow> s\<lparr>as_queue := cmds, as_alive := False,
          as_events := as_events s @ [StageShutdownComplete]\<rparr>)"

fun drain_stage_events :: "(outgoing \<Rightarrow> (unit, string) result) \<Rightarrow> stage_event list \<Rightarrow> ('b, 'p) assembler phase" where
  "drain_stage_events sends [] s = (s\<lparr>as_events := []\<rparr>, Ok ())"
| "drain_stage_events sends (Staged staged # es) s =
     (case publish sends (OutReady \<lparr>er_episode_index = se_episode_index staged,
          er_staging_dir = FixedString256_new (se_staging_dir staged)\<rparr>) s of
        (s', Err e) \<Rightarrow> (s', Err e)
      | (s', Ok _) \<Rightarrow> drain_stage_events sends es (s'\<lparr>as_progress := True\<rparr>))"
| "drain_stage_events sends (StageError e # es) s = drain_stage_events sends es s"
| "drain_stage_events sends (StageShutdownComplete # es) s = (s, Err Finished)"

definition shutdown_phase :: "('b, 'p) assembler phase" where
  "shutdown_phase s =
     (if as_shutdown_requested s \<and> mg_episodes (as_manager s) = [] \<and> mg_in_flight (as_manager s) = []
      then ((if as_alive s then s\<lparr>as_sent := as_sent s @ [StageShutdown], as_queue := as_queue s @ [StageShutdown]\<rparr>
             else s)\<lparr>as_shutdown_requested := False\<rparr>, Ok ())
      else (s, Ok ()))"

definition wait_phase :: "'p asm_turn \<Rightarrow> ('b, 'p) assembler phase" where
  "wait_phase t s = (s, if \<not> as_progress s \<and> tn_interrupted t then Err Finished else Ok ())"

definition asm_turn :: "('b, 'p) asm_ops \<Rightarrow> 'p asm_turn \<Rightarrow> ('b, 'p) assembler phase" where
  "asm_turn A t s =
     phases
       [asm_drain_control A (tn_controls t),
        asm_drain_packets A (tn_packets t),
        drain_observations (tn_observations t),
        drain_actions (tn_actions t),
        dispatch_phase A t,
        stored_phase t,
        sweep_phase t,
        \<lambda>s. let s' = worker_take (tn_stage t) (tn_worker_steps t) s in drain_stage_events (tn_sends t) (as_events s') s',
        shutdown_phase,
        wait_phase t]
       (s\<lparr>as_progress := False\<rparr>)"

text \<open>The loop over a list of turns; \<open>Ok ()\<close> means it is still running.\<close>

definition asm_loop :: "('b, 'p) asm_ops \<Rightarrow> 'p asm_turn list \<Rightarrow> ('b, 'p) assembler phase" where
  "asm_loop A ts = phases (map (asm_turn A) ts)"

definition lerobot_run_with_config ::
  "assembler_runtime_config_v2 \<Rightarrow> episode_assembly_input asm_turn list \<Rightarrow>
   (recording_stream_buffer, episode_assembly_input) assembler \<times> (unit, asm_exit) result" where
  "lerobot_run_with_config config ts =
     (if asm_format config \<noteq> LeRobotV2_1 then (assembler_init config, Err (Failed (UnsupportedFormat (asm_format config))))
      else asm_loop lerobot_ops ts (assembler_init config))"

definition mcap_run_with_config ::
  "assembler_runtime_config_v2 \<Rightarrow> camera_stream_buffer pending_episode asm_turn list \<Rightarrow>
   (camera_stream_buffer, camera_stream_buffer pending_episode) assembler \<times> (unit, asm_exit) result" where
  "mcap_run_with_config config ts =
     (if asm_format config \<noteq> Mcap then (assembler_init config, Err (Failed (UnsupportedFormat (asm_format config))))
      else asm_loop mcap_ops ts (assembler_init config))"

section \<open>The operations of the MCAP assembler\<close>

definition mcap_PendingEpisode_new :: "u32 \<Rightarrow> u64 \<Rightarrow> string list \<Rightarrow> camera_stream_buffer pending_episode" where
  "mcap_PendingEpisode_new = PendingEpisode_new mcap_ops"

definition mcap_on_control_event ::
  "control_event \<Rightarrow> u64 \<Rightarrow> camera_stream_buffer episode_manager \<Rightarrow> camera_stream_buffer episode_manager \<times> bool" where
  "mcap_on_control_event = on_control_event mcap_ops"

definition mcap_on_packet :: "string \<Rightarrow> packet \<Rightarrow> camera_stream_buffer episode_manager \<Rightarrow> camera_stream_buffer episode_manager" where
  "mcap_on_packet = on_packet mcap_ops"

definition mcap_dispatch_ready_episodes ::
  "u64 \<Rightarrow> (u32 \<Rightarrow> instant_ns) \<Rightarrow> bool \<Rightarrow> camera_stream_buffer episode_manager \<Rightarrow>
   (camera_stream_buffer, camera_stream_buffer pending_episode) dispatch \<times> (unit, asm_exit) result" where
  "mcap_dispatch_ready_episodes = dispatch_ready_episodes mcap_ops"

end
