(* ===== verification/Assembler_Invariants.thy ===== *)
theory Assembler_Invariants
  imports Episode_Assembler
begin

text \<open>
  What every run of an assembler keeps. The interface \<open>assembler_invariant\<close> asks, of a relation
  between the episode manager and the commands sent to the staging worker, that each manager
  operation keeps it, for the control events and packets allowed; the main loop then keeps it.
  It is interpreted for the staging slots, for the episodes handed to the worker, for the stream
  configurations of the LeRobot assembler and for an episode nobody decides about.
\<close>

section \<open>Phases\<close>

lemma phases_keep: "(\<And>p s. p \<in> set ps \<Longrightarrow> J s \<Longrightarrow> J (fst (p s))) \<Longrightarrow> J s \<Longrightarrow> J (fst (phases ps s))"
proof (induction ps arbitrary: s)
  case (Cons p ps)
  obtain s' u where p: "p s = (s', u)" by fastforce
  have "J s'" using Cons.prems(1) [of p s] Cons.prems(2) p by simp
  then show ?case using Cons.IH [of s'] Cons.prems(1) p by (cases u) auto
qed simp

lemma drain_port_keep:
  "(\<And>x s. Ok x \<in> set rs \<Longrightarrow> J s \<Longrightarrow> J (fst (f x s))) \<Longrightarrow> J s \<Longrightarrow> J (fst (drain_port f rs s))"
proof (induction rs arbitrary: s)
  case (Cons r rs)
  show ?case
  proof (cases r)
    case (Inr x)
    obtain s' u where f: "f x s = (s', u)" by fastforce
    have "J s'" using Cons.prems(1) [of x s] Cons.prems(2) Inr f by simp
    then show ?thesis using Cons.IH [of s'] Cons.prems(1) Inr f by (cases u) auto
  qed (use Cons.prems in simp)
qed simp

lemma phases_Ok:
  "phases ps s = (s', Ok ()) \<Longrightarrow> ps = p # qs \<Longrightarrow> \<exists>s1. p s = (s1, Ok ()) \<and> phases qs s1 = (s', Ok ())"
  by (auto split: prod.splits sum.splits)

lemma phases_append_Ok:
  "phases (ps @ qs) s = (s', Ok ()) \<Longrightarrow> \<exists>s1. phases ps s = (s1, Ok ()) \<and> phases qs s1 = (s', Ok ())"
  by (induction ps arbitrary: s) (auto split: prod.splits sum.splits)

section \<open>A complete episode\<close>

definition complete_episode :: "('b, 'p) asm_ops \<Rightarrow> nat \<Rightarrow> 'b pending_episode \<Rightarrow> bool" where
  "complete_episode A cameras e \<longleftrightarrow> pd_failed_cameras e = [] \<and> pd_keep_requested e \<and> pd_stop_time_us e \<noteq> None
     \<and> all_cameras_eos A cameras e"

lemma verdict_ready: "verdict_of A now m e = EpisodeReadyToStage \<longleftrightarrow> complete_episode A (length (asm_cameras (mg_config m))) e"
  by (auto simp: verdict_of_def complete_episode_def split: option.splits)

lemma verdict_failed: "verdict_of A now m e = EpisodeFailed \<longleftrightarrow> pd_failed_cameras e \<noteq> []"
  by (auto simp: verdict_of_def split: option.splits)

lemma verdict_kept: "verdict_of A now m e \<in> {EpisodeReadyToStage, EpisodeTimedOut} \<Longrightarrow>
    pd_failed_cameras e = [] \<and> pd_keep_requested e \<and> pd_stop_time_us e \<noteq> None"
  by (auto simp: verdict_of_def split: option.splits if_splits)

lemma with_verdict_iff:
  "bt_inv (mg_episodes m) \<Longrightarrow> n \<in> set (with_verdict A now m v)
     \<longleftrightarrow> (\<exists>e. map_of (mg_episodes m) n = Some e \<and> verdict_of A now m e = v)"
  by (auto simp: with_verdict_def bt_mem_iff image_iff)

section \<open>Invariants of the loop\<close>

locale assembler_invariant =
  fixes A :: "('b, 'p) asm_ops"
    and I :: "'b episode_manager \<Rightarrow> 'p stage_command list \<Rightarrow> bool"
    and allowed :: "control_event \<Rightarrow> bool"
    and allowed_packet :: "packet \<Rightarrow> bool"
  assumes keys: "I m c \<Longrightarrow> bt_inv (mg_episodes m)"
    and control: "I m c \<Longrightarrow> allowed event \<Longrightarrow> I (fst (on_control_event A event now m)) c"
    and packets: "I m c \<Longrightarrow> allowed_packet q \<Longrightarrow> I (on_packet A ch q m) c"
    and observation: "I m c \<Longrightarrow> I (on_observation ch state_kind ts vals m) c"
    and action: "I m c \<Longrightarrow> I (on_action ch command_kind ts vals m) c"
    and dropped: "I m c \<Longrightarrow> map_of (mg_episodes m) n = Some e \<Longrightarrow>
      pd_failed_cameras e \<noteq> [] \<or> pd_keep_requested e \<Longrightarrow>
      I (remove_artifacts n (m\<lparr>mg_episodes := bt_remove n (mg_episodes m)\<rparr>)) c"
    and staged: "I m c \<Longrightarrow> map_of (mg_episodes m) n = Some e \<Longrightarrow>
      complete_episode A (length (asm_cameras (mg_config m))) e \<Longrightarrow> length (mg_in_flight m) < mg_staging_slots m \<Longrightarrow>
      I (m\<lparr>mg_episodes := bt_remove n (mg_episodes m), mg_in_flight := bt_insert n i (mg_in_flight m)\<rparr>)
        (c @ [Stage (ao_payload A e)])"
    and lost: "I m c \<Longrightarrow> map_of (mg_episodes m) n = Some e \<Longrightarrow> pd_keep_requested e \<Longrightarrow>
      I (m\<lparr>mg_episodes := bt_remove n (mg_episodes m)\<rparr>) c"
    and release: "I m c \<Longrightarrow> I (fst (release_slot n m)) c"
    and sweep: "I m c \<Longrightarrow> I (fst (sweep_stale_slots now' m)) c"
    and shutdown: "I m c \<Longrightarrow> mg_episodes m = [] \<Longrightarrow> mg_in_flight m = [] \<Longrightarrow> I m (c @ [StageShutdown])"
begin

definition keeps :: "('b, 'p) assembler phase \<Rightarrow> bool" where
  "keeps p \<longleftrightarrow> (\<forall>s. I (as_manager s) (as_sent s) \<longrightarrow> I (as_manager (fst (p s))) (as_sent (fst (p s))))"

lemma keepsD: "keeps p \<Longrightarrow> I (as_manager s) (as_sent s) \<Longrightarrow> I (as_manager (fst (p s))) (as_sent (fst (p s)))"
  by (simp add: keeps_def)

lemma keeps_phases: "(\<And>p. p \<in> set ps \<Longrightarrow> keeps p) \<Longrightarrow> keeps (phases ps)"
  unfolding keeps_def by (intro allI impI phases_keep [of ps "\<lambda>s. I (as_manager s) (as_sent s)"]) auto

lemma keeps_drain_port: "(\<And>x. Ok x \<in> set rs \<Longrightarrow> keeps (f x)) \<Longrightarrow> keeps (drain_port f rs)"
  unfolding keeps_def by (intro allI impI drain_port_keep [of rs "\<lambda>s. I (as_manager s) (as_sent s)"]) auto

lemma keeps_on_manager: "(\<And>m c. I m c \<Longrightarrow> I (f m) c) \<Longrightarrow> keeps (on_manager f)"
  by (simp add: keeps_def on_manager_def)

lemma keeps_publish: "keeps (publish sends msg)"
  by (simp add: keeps_def publish_def split: sum.split)

lemma keeps_publish_drop: "keeps (publish_drop sends notice)"
  unfolding keeps_def publish_drop_def by (intro allI impI keepsD [OF keeps_phases]) (auto intro: keeps_publish)

lemma keeps_control:
  assumes "\<And>event now. Ok (event, now) \<in> set rs \<Longrightarrow> allowed event"
  shows "keeps (asm_drain_control A rs)"
proof -
  have "I (as_manager (fst (asm_drain_control A rs s))) (as_sent (fst (asm_drain_control A rs s)))"
    if "I (as_manager s) (as_sent s)" for s
    using assms that
  proof (induction rs arbitrary: s)
    case (Cons r rs)
    show ?case
    proof (cases r)
      case (Inr x)
      obtain event now where x: "x = (event, now)" by (cases x)
      have "I (fst (on_control_event A event now (as_manager s))) (as_sent s)"
        using control [OF Cons.prems(2), of event now] Cons.prems(1) [of event now] Inr x by simp
      moreover have "allowed ev" if "Ok (ev, nw) \<in> set rs" for ev nw using Cons.prems(1) that by auto
      ultimately show ?thesis
        using Cons.IH [of "s\<lparr>as_manager := fst (on_control_event A event now (as_manager s))\<rparr>"] Inr x
        by (auto split: prod.split)
    qed (use Cons.prems in simp)
  qed simp
  then show ?thesis by (simp add: keeps_def)
qed

lemma keeps_packets:
  assumes "\<And>rs q. rs \<in> set received \<Longrightarrow> Ok q \<in> set rs \<Longrightarrow> allowed_packet q"
  shows "keeps (asm_drain_packets A received)"
  unfolding keeps_def asm_drain_packets_def
proof (intro allI impI keepsD [OF keeps_phases])
  fix s :: "('b, 'p) assembler" and p :: "('b, 'p) assembler phase"
  assume "p \<in> set (map (\<lambda>(cam, rs). drain_port (\<lambda>q. on_manager (on_packet A (acam_channel_id cam) q)) rs)
       (zip (asm_cameras (mg_config (as_manager s))) received))"
  then obtain cam rs where "(cam, rs) \<in> set (zip (asm_cameras (mg_config (as_manager s))) received)"
    and p: "p = drain_port (\<lambda>q. on_manager (on_packet A (acam_channel_id cam) q)) rs" by auto
  then have "rs \<in> set received" by (auto dest: set_zip_rightD)
  with p assms show "keeps p" by (auto intro!: keeps_drain_port keeps_on_manager packets)
qed

lemma keeps_drain_samples: "(\<And>ts vals m c. I m c \<Longrightarrow> I (put ts vals m) c) \<Longrightarrow> keeps (drain_samples put rs)"
  unfolding drain_samples_def
  by (intro keeps_drain_port) (auto simp: keeps_def on_manager_def split: option.split)

lemma keeps_observations: "keeps (drain_observations received)"
  unfolding keeps_def drain_observations_def
  by (intro allI impI keepsD [OF keeps_phases]) (auto intro!: keeps_drain_samples observation)

lemma keeps_actions: "keeps (drain_actions received)"
  unfolding keeps_def drain_actions_def
  by (intro allI impI keepsD [OF keeps_phases]) (auto intro!: keeps_drain_samples action)

definition keeps_dispatch :: "'p stage_command list \<Rightarrow> ('b, 'p) dispatch \<Rightarrow> bool" where
  "keeps_dispatch c d \<longleftrightarrow> I (dp_manager d) (c @ dp_commands d)"

text \<open>While a pass works through its lists, what is left of the episodes is what was there.\<close>

lemma drop_episode_keeps:
  assumes "keeps_dispatch c d"
    and "\<And>e. map_of (mg_episodes (dp_manager d)) n = Some e \<Longrightarrow> pd_failed_cameras e \<noteq> [] \<or> pd_keep_requested e"
  shows "keeps_dispatch c (drop_episode reason bp n d)"
  using assms by (auto simp: keeps_dispatch_def drop_episode_def Let_def dropped)

lemma drop_episode_map_of:
  "map_of (mg_episodes (dp_manager (drop_episode reason bp n d))) k
     = (if k = n then None else map_of (mg_episodes (dp_manager d)) k)"
  by (auto simp: drop_episode_def Let_def remove_artifacts_def map_of_bt_remove)

lemma drop_all_keeps:
  assumes "keeps_dispatch c d"
    and "\<And>n e. n \<in> set ns \<Longrightarrow> map_of (mg_episodes (dp_manager d)) n = Some e \<Longrightarrow> pd_failed_cameras e \<noteq> [] \<or> pd_keep_requested e"
  shows "keeps_dispatch c (fold (drop_episode reason bp) ns d)"
  using assms
proof (induction ns arbitrary: d)
  case (Cons n ns)
  have "keeps_dispatch c (drop_episode reason bp n d)" by (rule drop_episode_keeps) (use Cons.prems in auto)
  moreover have "pd_failed_cameras e \<noteq> [] \<or> pd_keep_requested e"
    if "k \<in> set ns" "map_of (mg_episodes (dp_manager (drop_episode reason bp n d))) k = Some e" for k e
    using that Cons.prems(2) [of k e] by (simp add: drop_episode_map_of split: if_splits)
  ultimately show ?case using Cons.IH by simp
qed simp

lemma drop_all_map_of:
  "map_of (mg_episodes (dp_manager (fold (drop_episode reason bp) ns d))) k
     = (if k \<in> set ns then None else map_of (mg_episodes (dp_manager d)) k)"
  by (induction ns arbitrary: d) (auto simp: drop_episode_map_of)

lemma drop_all_config:
  "mg_config (dp_manager (fold (drop_episode reason bp) ns d)) = mg_config (dp_manager d)"
  by (induction ns arbitrary: d) (auto simp: drop_episode_def Let_def remove_artifacts_def)

lemma stage_ready_keeps:
  assumes "keeps_dispatch c d"
    and "\<forall>n \<in> set ns. \<forall>e. map_of (mg_episodes (dp_manager d)) n = Some e \<longrightarrow>
      complete_episode A (length (asm_cameras (mg_config (dp_manager d)))) e"
  shows "keeps_dispatch c (fst (stage_ready A clock alive ns d))"
  using assms
proof (induction ns arbitrary: d)
  case (Cons n ns)
  let ?m = "dp_manager d"
  show ?case
  proof (cases "map_of (mg_episodes ?m) n")
    case None
    then show ?thesis using Cons by (simp add: Let_def)
  next
    case (Some e)
    have kept: "complete_episode A (length (asm_cameras (mg_config ?m))) e" "pd_keep_requested e"
      using Cons.prems(2) Some by (auto simp: complete_episode_def)
    show ?thesis
    proof (cases "mg_staging_slots ?m \<le> length (mg_in_flight ?m)")
      case True
      have "keeps_dispatch c (drop_episode ''staging_slots_full'' True n d)"
        by (rule drop_episode_keeps) (use Cons.prems Some kept in auto)
      moreover have "mg_config (dp_manager (drop_episode ''staging_slots_full'' True n d)) = mg_config ?m"
        using drop_all_config [of _ _ "[n]" d] by simp
      ultimately show ?thesis
        using Cons.IH [of "drop_episode ''staging_slots_full'' True n d"] Cons.prems(2) Some True
        by (auto simp: Let_def drop_episode_map_of)
    next
      case False
      let ?d = "d\<lparr>dp_manager := ?m\<lparr>mg_episodes := bt_remove n (mg_episodes ?m), mg_in_flight := bt_insert n (clock n) (mg_in_flight ?m)\<rparr>,
        dp_commands := dp_commands d @ [Stage (ao_payload A e)], dp_changed := True\<rparr>"
      have "keeps_dispatch c ?d"
        using staged [OF _ Some kept(1), of "c @ dp_commands d"] Cons.prems(1) False by (simp add: keeps_dispatch_def)
      moreover have "keeps_dispatch c (d\<lparr>dp_manager := ?m\<lparr>mg_episodes := bt_remove n (mg_episodes ?m)\<rparr>\<rparr>)"
        using lost [OF _ Some kept(2)] Cons.prems(1) by (simp add: keeps_dispatch_def)
      ultimately show ?thesis
        using Cons.IH [of ?d] Cons.prems(2) Some False by (auto simp: Let_def map_of_bt_remove)
    qed
  qed
qed simp

lemma dispatch_keeps:
  assumes "I m c"
  shows "keeps_dispatch c (fst (dispatch_ready_episodes A now clock alive m))"
proof -
  note inv = keys [OF assms]
  let ?d0 = "\<lparr>dp_manager = m, dp_commands = [], dp_changed = False, dp_dropped = []\<rparr> :: ('b, 'p) dispatch"
  let ?d1 = "fold (drop_episode ''packet_stream_failure'' False) (with_verdict A now m EpisodeFailed) ?d0"
  let ?d2 = "fold (drop_episode ''missing_end_of_stream'' False) (with_verdict A now m EpisodeTimedOut) ?d1"
  have "keeps_dispatch c ?d1"
    by (rule drop_all_keeps) (use assms inv in \<open>auto simp: keeps_dispatch_def with_verdict_iff verdict_failed\<close>)
  then have "keeps_dispatch c ?d2"
    by (rule drop_all_keeps)
      (use inv verdict_kept in \<open>fastforce simp: with_verdict_iff drop_all_map_of split: if_splits\<close>)
  then show ?thesis unfolding dispatch_ready_episodes_def ready_failed_and_timed_out_def prod.case
    by (rule stage_ready_keeps)
      (use inv in \<open>auto simp: with_verdict_iff drop_all_map_of drop_all_config verdict_ready split: if_splits\<close>)
qed

lemma keeps_dispatch_phase: "keeps (dispatch_phase A t)"
  unfolding keeps_def
proof (intro allI impI)
  fix s :: "('b, 'p) assembler"
  assume "I (as_manager s) (as_sent s)"
  then have disp: "keeps_dispatch (as_sent s) (fst (dispatch_ready_episodes A (tn_now_us t) (tn_clock t) (as_alive s) (as_manager s)))"
    by (rule dispatch_keeps)
  obtain d r where dr: "dispatch_ready_episodes A (tn_now_us t) (tn_clock t) (as_alive s) (as_manager s) = (d, r)"
    by fastforce
  show "I (as_manager (fst (dispatch_phase A t s))) (as_sent (fst (dispatch_phase A t s)))"
  proof (cases r)
    case (Inl e)
    then show ?thesis using disp by (simp add: dispatch_phase_def dr keeps_dispatch_def)
  next
    case (Inr u)
    have "keeps (phases (map (publish_drop (tn_sends t)) (dp_dropped d)))"
      by (rule keeps_phases) (auto intro: keeps_publish_drop)
    then show ?thesis using Inr disp by (auto simp: dispatch_phase_def dr keeps_dispatch_def Let_def intro!: keepsD)
  qed
qed

lemma keeps_stored: "keeps (stored_phase t)"
  unfolding stored_phase_def using release
  by (intro keeps_drain_port) (auto simp: keeps_def split: prod.split, metis fst_conv)

lemma keeps_sweep: "keeps (sweep_phase t)"
  unfolding keeps_def
proof (intro allI impI)
  fix s :: "('b, 'p) assembler"
  assume inv: "I (as_manager s) (as_sent s)"
  obtain m stale where ms: "sweep_stale_slots (tn_sweep_at t) (as_manager s) = (m, stale)" by fastforce
  have "keeps (phases (map (\<lambda>leaked s. publish_drop (tn_sends t) \<lparr>dn_episode_index = leaked,
      dn_reason = ''staging_slot_leak'', dn_backpressure = True\<rparr> (s\<lparr>as_progress := True\<rparr>)) stale))"
    by (rule keeps_phases) (auto simp: keeps_def intro!: keepsD [OF keeps_publish_drop])
  moreover have "I m (as_sent s)" using sweep [OF inv, of "tn_sweep_at t"] ms by simp
  ultimately show "I (as_manager (fst (sweep_phase t s))) (as_sent (fst (sweep_phase t s)))"
    by (auto simp: sweep_phase_def ms intro!: keepsD)
qed

lemma worker_take_state [simp]:
  "as_manager (worker_take stage k s) = as_manager s" "as_sent (worker_take stage k s) = as_sent s"
  by (induction stage k s rule: worker_take.induct) (auto split: list.splits stage_command.splits)

lemma drain_stage_events_keeps: "keeps (drain_stage_events sends es)"
proof -
  have "as_manager (fst (drain_stage_events sends es s)) = as_manager s
    \<and> as_sent (fst (drain_stage_events sends es s)) = as_sent s" for s :: "('b, 'p) assembler"
    by (induction sends es s rule: drain_stage_events.induct) (auto simp: publish_def split: sum.split)
  then show ?thesis by (simp add: keeps_def)
qed

lemma keeps_worker:
  "keeps (\<lambda>s. let s' = worker_take stage k s in drain_stage_events sends (as_events s') s')"
  unfolding keeps_def Let_def by (auto intro!: keepsD [OF drain_stage_events_keeps])

lemma keeps_shutdown: "keeps shutdown_phase"
  using shutdown by (auto simp: keeps_def shutdown_phase_def)

lemma keeps_wait: "keeps (wait_phase t)"
  by (simp add: keeps_def wait_phase_def)

definition allowed_turn :: "'p asm_turn \<Rightarrow> bool" where
  "allowed_turn t \<longleftrightarrow> (\<forall>event now. Ok (event, now) \<in> set (tn_controls t) \<longrightarrow> allowed event)
     \<and> (\<forall>rs q. rs \<in> set (tn_packets t) \<longrightarrow> Ok q \<in> set rs \<longrightarrow> allowed_packet q)"

lemma keeps_turn: "allowed_turn t \<Longrightarrow> keeps (asm_turn A t)"
  unfolding keeps_def asm_turn_def
  by (intro allI impI keepsD [OF keeps_phases])
    (auto simp: allowed_turn_def intro!: keeps_control keeps_packets keeps_observations keeps_actions keeps_dispatch_phase
      keeps_stored keeps_sweep keeps_worker keeps_shutdown keeps_wait)

theorem loop_keeps:
  assumes "list_all allowed_turn ts" and "I (as_manager s) (as_sent s)"
  shows "I (as_manager (fst (asm_loop A ts s))) (as_sent (fst (asm_loop A ts s)))"
  unfolding asm_loop_def using assms
  by (intro keepsD [OF keeps_phases]) (auto simp: list_all_iff intro: keeps_turn)

end

section \<open>Staging slots\<close>

lemma length_bt_insert_le: "length (bt_insert k v m) \<le> Suc (length m)"
  by (induction m) auto

lemma length_bt_remove_le: "length (bt_remove k m) \<le> length m"
  by (simp add: bt_remove_def)

lemma length_bt_remove_all_le: "length (fold bt_remove ks m) \<le> length m"
  by (induction ks arbitrary: m) (auto intro: le_trans length_bt_remove_le)

lemmas manager_defs = on_control_event_def clear_active_def remove_artifacts_def on_packet_def on_observation_def
  on_action_def on_active_def release_slot_def sweep_stale_slots_def

definition slots_ok :: "nat \<Rightarrow> 'b episode_manager \<Rightarrow> 'p stage_command list \<Rightarrow> bool" where
  "slots_ok k m c \<longleftrightarrow> bt_inv (mg_episodes m) \<and> bt_inv (mg_in_flight m) \<and> mg_staging_slots m = k
     \<and> length (mg_in_flight m) \<le> k"

lemma on_control_event_slots:
  "mg_in_flight (fst (on_control_event A event now m)) = mg_in_flight m"
  "mg_staging_slots (fst (on_control_event A event now m)) = mg_staging_slots m"
  "mg_config (fst (on_control_event A event now m)) = mg_config m"
  "mg_camera_channel_ids (fst (on_control_event A event now m)) = mg_camera_channel_ids m"
  by (cases event; simp add: manager_defs Let_def)+

lemma on_control_event_inv: "bt_inv (mg_episodes m) \<Longrightarrow> bt_inv (mg_episodes (fst (on_control_event A event now m)))"
  by (cases event) (simp_all add: manager_defs Let_def bt_inv_insert bt_inv_update bt_inv_remove)

lemma on_active_slots [simp]:
  "mg_in_flight (on_active f m) = mg_in_flight m" "mg_staging_slots (on_active f m) = mg_staging_slots m"
  "mg_config (on_active f m) = mg_config m" "mg_camera_channel_ids (on_active f m) = mg_camera_channel_ids m"
  by (simp_all add: on_active_def split: option.split)

lemma on_active_inv: "bt_inv (mg_episodes m) \<Longrightarrow> bt_inv (mg_episodes (on_active f m))"
  by (simp add: on_active_def bt_inv_update split: option.split)

interpretation slots: assembler_invariant A "slots_ok k" "\<lambda>_. True" "\<lambda>_. True" for A k
proof unfold_locales
  fix m :: "'a episode_manager" and c :: "'b stage_command list" and n :: u32 and e i and k
  assume "slots_ok k m c" "length (mg_in_flight m) < mg_staging_slots m"
  then show "slots_ok k (m\<lparr>mg_episodes := bt_remove n (mg_episodes m), mg_in_flight := bt_insert n i (mg_in_flight m)\<rparr>)
      (c @ [Stage (ao_payload A e)])"
    using length_bt_insert_le [of n i "mg_in_flight m"] by (simp add: slots_ok_def bt_inv_remove bt_inv_insert)
next
  fix m :: "'a episode_manager" and c :: "'b stage_command list" and n :: u32 and k
  assume "slots_ok k m c"
  then show "slots_ok k (fst (release_slot n m)) c"
    using length_bt_remove_le [of n "mg_in_flight m"] by (simp add: slots_ok_def release_slot_def bt_inv_remove)
next
  fix m :: "'a episode_manager" and c :: "'b stage_command list" and now and k
  assume "slots_ok k m c"
  then show "slots_ok k (fst (sweep_stale_slots now m)) c"
    using le_trans [OF length_bt_remove_all_le, of "mg_in_flight m" k]
    by (simp add: slots_ok_def sweep_stale_slots_def Let_def bt.inv_remove_all)
qed (auto simp: slots_ok_def on_control_event_slots on_control_event_inv on_active_inv on_observation_def on_action_def
    on_packet_def bt_inv_update bt_inv_remove remove_artifacts_def)

section \<open>What the worker is handed\<close>

definition episode_ok :: "('b, 'p) asm_ops \<Rightarrow> string list \<Rightarrow> u32 \<Rightarrow> 'b pending_episode \<Rightarrow> bool" where
  "episode_ok A ids n e \<longleftrightarrow> pd_episode_index e = n \<and> bt_inv (pd_camera_streams e)
     \<and> set (bt_keys (pd_camera_streams e)) = set ids
     \<and> (\<forall>ch b. map_of (pd_camera_streams e) ch = Some b \<longrightarrow> ao_failed A b \<longrightarrow> ch \<in> set (pd_failed_cameras e))"

lemma map_of_fresh_streams:
  "map_of (fold (\<lambda>ch. bt_insert ch b) ids m) ch = (if ch \<in> set ids then Some b else map_of m ch)"
  by (induction ids arbitrary: m) (auto simp: map_of_bt_insert)

lemma fresh_streams_inv: "bt_inv m \<Longrightarrow> bt_inv (fold (\<lambda>ch. bt_insert ch b) ids m)"
  by (induction ids arbitrary: m) (auto simp: bt_inv_insert)

lemma episode_ok_new: "\<not> ao_failed A (ao_fresh A) \<Longrightarrow> episode_ok A ids n (PendingEpisode_new A n ts ids)"
  unfolding episode_ok_def PendingEpisode_new_def set_bt_keys
  by (auto simp: map_of_fresh_streams intro!: fresh_streams_inv split: if_splits) (simp add: bt_inv_def bt_keys_def)

lemma episode_ok_samples [simp]:
  "episode_ok A ids n (e\<lparr>pd_observation_samples := x\<rparr>) = episode_ok A ids n e"
  "episode_ok A ids n (e\<lparr>pd_action_samples := x\<rparr>) = episode_ok A ids n e"
  "episode_ok A ids n (e\<lparr>pd_stop_time_us := t, pd_ready_wait_started_us := t'\<rparr>) = episode_ok A ids n e"
  "episode_ok A ids n (e\<lparr>pd_keep_requested := k, pd_ready_wait_started_us := t'\<rparr>) = episode_ok A ids n e"
  by (simp_all add: episode_ok_def)

lemma episode_ok_packet: "episode_ok A ids n e \<Longrightarrow> episode_ok A ids n (episode_packet A ch q e)"
  by (auto simp: episode_ok_def episode_packet_def Let_def bt_inv_update bt_keys_update map_of_bt_update
      split: option.split)

text \<open>The count of ended streams reaches the number of cameras only when every camera has ended.\<close>

lemma complete_streams:
  assumes "episode_ok A ids n e" and "complete_episode A (length ids) e" and "ch \<in> set ids"
  shows "\<exists>b. map_of (pd_camera_streams e) ch = Some b \<and> ao_eos_received A b \<and> \<not> ao_failed A b"
proof -
  let ?m = "pd_camera_streams e"
  have ok: "bt_inv ?m" "set (bt_keys ?m) = set ids" using assms(1) by (auto simp: episode_ok_def)
  then have "length ?m \<le> length ids"
    using bt.card_dom [OF ok(1)] card_length [of ids] by (simp add: set_bt_keys [symmetric] bt_keys_def)
  moreover have "length (filter (\<lambda>(ch, s). ao_eos_received A s) ?m) = length ids"
    using assms(2) by (simp add: complete_episode_def all_cameras_eos_def)
  ultimately have all: "filter (\<lambda>(ch, s). ao_eos_received A s) ?m = ?m"
    by (metis filter_id_conv le_antisym length_filter_le length_filter_less less_irrefl)
  from assms(3) ok obtain b where b: "map_of ?m ch = Some b" by (auto simp: set_bt_keys)
  then have "(ch, b) \<in> set ?m" by (rule map_of_SomeD)
  with all have "ao_eos_received A b" by (metis (no_types, lifting) case_prodD filter_id_conv)
  moreover have "\<not> ao_failed A b" using assms(1,2) b by (auto simp: episode_ok_def complete_episode_def)
  ultimately show ?thesis using b by blast
qed

definition handed_ok :: "('b, 'p) asm_ops \<Rightarrow> assembler_runtime_config_v2 \<Rightarrow> 'b episode_manager \<Rightarrow> 'p stage_command list \<Rightarrow> bool" where
  "handed_ok A config m c \<longleftrightarrow> bt_inv (mg_episodes m) \<and> mg_config m = config
     \<and> mg_camera_channel_ids m = map acam_channel_id (asm_cameras config)
     \<and> (\<forall>n e. map_of (mg_episodes m) n = Some e \<longrightarrow> episode_ok A (mg_camera_channel_ids m) n e)
     \<and> (\<forall>p. Stage p \<in> set c \<longrightarrow> (\<exists>n e. p = ao_payload A e \<and> episode_ok A (mg_camera_channel_ids m) n e
          \<and> complete_episode A (length (asm_cameras config)) e))"

lemma map_of_bt_update_Some:
  "map_of (bt_update k f m) j = Some e' \<Longrightarrow> \<exists>e. map_of m j = Some e \<and> (e' = e \<or> e' = f e)"
  by (auto simp: map_of_bt_update split: if_splits)

lemma on_active_map_of:
  "map_of (mg_episodes (on_active f m)) n = Some e' \<Longrightarrow> \<exists>e. map_of (mg_episodes m) n = Some e \<and> (e' = e \<or> e' = f e)"
  by (auto simp: on_active_def dest: map_of_bt_update_Some split: option.splits)

lemma control_map_of:
  assumes "map_of (mg_episodes (fst (on_control_event A event now m))) n = Some e'"
  shows "(\<exists>ts. e' = PendingEpisode_new A n ts (mg_camera_channel_ids m))
    \<or> (\<exists>e. map_of (mg_episodes m) n = Some e \<and> (e' = e \<or> (\<exists>t t'. e' = e\<lparr>pd_stop_time_us := t, pd_ready_wait_started_us := t'\<rparr>)
        \<or> (\<exists>t'. event = EpisodeKeep n \<and> e' = e\<lparr>pd_keep_requested := True, pd_ready_wait_started_us := t'\<rparr>)))"
proof (cases event)
  case (RecordingStop k t)
  then show ?thesis using assms by (force simp: manager_defs map_of_bt_update split: if_splits)
next
  case (EpisodeKeep k)
  then show ?thesis using assms by (force simp: manager_defs map_of_bt_update split: if_splits)
qed (use assms in \<open>auto simp: manager_defs Let_def map_of_bt_insert map_of_bt_remove split: if_splits\<close>)

locale assembler_program =
  fixes A :: "('b, 'p) asm_ops"
  assumes fresh: "\<not> ao_failed A (ao_fresh A)" "\<not> ao_eos_received A (ao_fresh A)"

sublocale assembler_program \<subseteq> handed: assembler_invariant A "handed_ok A config" "\<lambda>_. True" "\<lambda>_. True" for config
proof unfold_locales
  fix m c event now
  assume ok: "handed_ok A config m c"
  have "episode_ok A (mg_camera_channel_ids m) n e'"
    if "map_of (mg_episodes (fst (on_control_event A event now m))) n = Some e'" for n e'
    using control_map_of [OF that] ok fresh by (auto simp: handed_ok_def episode_ok_new)
  with ok show "handed_ok A config (fst (on_control_event A event now m)) c"
    unfolding handed_ok_def on_control_event_slots by (auto intro: on_control_event_inv)
next
  fix m c q ch
  assume ok: "handed_ok A config m c"
  then show "handed_ok A config (on_packet A ch q m) c"
    by (auto simp: handed_ok_def on_packet_def bt_inv_update dest!: map_of_bt_update_Some intro: episode_ok_packet)
next
  fix m c ch ts vals
  assume ok: "handed_ok A config m c"
  show "handed_ok A config (on_observation ch state_kind ts vals m) c" for state_kind
    using ok by (auto simp: handed_ok_def on_observation_def on_active_inv dest!: on_active_map_of)
  show "handed_ok A config (on_action ch command_kind ts vals m) c" for command_kind
    using ok by (auto simp: handed_ok_def on_action_def on_active_inv dest!: on_active_map_of)
next
  fix m c n e i
  assume "handed_ok A config m c" "map_of (mg_episodes m) n = Some e"
    "complete_episode A (length (asm_cameras (mg_config m))) e"
  then show "handed_ok A config (m\<lparr>mg_episodes := bt_remove n (mg_episodes m), mg_in_flight := bt_insert n i (mg_in_flight m)\<rparr>)
        (c @ [Stage (ao_payload A e)])"
    by (auto simp: handed_ok_def bt_inv_remove map_of_bt_remove split: if_splits, blast)
qed (auto simp: handed_ok_def bt_inv_remove map_of_bt_remove remove_artifacts_def release_slot_def sweep_stale_slots_def Let_def
    split: if_splits)

interpretation lerobot: assembler_program lerobot_ops
  by unfold_locales (simp_all add: lerobot_ops_def RecordingStreamBuffer_default_def)

interpretation mcap: assembler_program mcap_ops
  by unfold_locales (simp_all add: mcap_ops_def CameraStreamBuffer_default_def)

lemma handed_ok_init: "handed_ok A config (as_manager (assembler_init config)) (as_sent (assembler_init config))"
  by (simp add: handed_ok_def assembler_init_def EpisodeManager_new_def bt_inv_def bt_keys_def)

lemma slots_ok_init: "slots_ok (unat (asm_staging_slots config)) (as_manager (assembler_init config)) (as_sent (assembler_init config))"
  by (simp add: slots_ok_def assembler_init_def EpisodeManager_new_def bt_inv_def bt_keys_def)

lemma all_allowed [simp]: "slots.allowed_turn = (\<lambda>_. True)"
  by (simp add: slots.allowed_turn_def fun_eq_iff)

section \<open>Every decision comes from the controller\<close>

text \<open>An episode starts, stops and is kept by events among \<open>E\<close>, and what is handed to the worker was
  stopped and kept.\<close>

definition asked_for :: "control_event set \<Rightarrow> u32 \<Rightarrow> 'b pending_episode \<Rightarrow> bool" where
  "asked_for E n e \<longleftrightarrow> pd_episode_index e = n \<and> RecordingStart n (pd_start_time_us e) \<in> E
     \<and> (\<forall>t. pd_stop_time_us e = Some t \<longrightarrow> RecordingStop n t \<in> E) \<and> (pd_keep_requested e \<longrightarrow> EpisodeKeep n \<in> E)"

definition asked :: "control_event set \<Rightarrow> ('b, 'p) asm_ops \<Rightarrow> 'b episode_manager \<Rightarrow> 'p stage_command list \<Rightarrow> bool" where
  "asked E A m c \<longleftrightarrow> bt_inv (mg_episodes m) \<and> (\<forall>n e. map_of (mg_episodes m) n = Some e \<longrightarrow> asked_for E n e)
     \<and> (\<forall>p. Stage p \<in> set c \<longrightarrow> (\<exists>n e t. p = ao_payload A e \<and> asked_for E n e
          \<and> pd_stop_time_us e = Some t \<and> pd_keep_requested e))"

lemma asked_for_same:
  "asked_for E n e \<Longrightarrow> pd_episode_index e' = pd_episode_index e \<Longrightarrow> pd_start_time_us e' = pd_start_time_us e \<Longrightarrow>
   pd_stop_time_us e' = pd_stop_time_us e \<Longrightarrow> pd_keep_requested e' = pd_keep_requested e \<Longrightarrow> asked_for E n e'"
  by (simp add: asked_for_def)

lemma asked_for_packet: "asked_for E n e \<Longrightarrow> asked_for E n (episode_packet A ch q e)"
  by (erule asked_for_same) (simp_all add: episode_packet_def Let_def split: option.split)

lemma asked_for_samples:
  "asked_for E n e \<Longrightarrow> asked_for E n (e\<lparr>pd_observation_samples := x\<rparr>)"
  "asked_for E n e \<Longrightarrow> asked_for E n (e\<lparr>pd_action_samples := x\<rparr>)"
  by (simp_all add: asked_for_def)

lemma asked_for_control:
  assumes "\<And>k e. map_of (mg_episodes m) k = Some e \<Longrightarrow> asked_for E k e" and "event \<in> E"
    and "map_of (mg_episodes (fst (on_control_event A event now m))) n = Some e'"
  shows "asked_for E n e'"
proof (cases event)
  case (RecordingStop k t)
  then show ?thesis using assms by (fastforce simp: manager_defs map_of_bt_update asked_for_def split: if_splits)
next
  case (EpisodeKeep k)
  then show ?thesis using assms by (fastforce simp: manager_defs map_of_bt_update asked_for_def split: if_splits)
qed (use assms in \<open>auto simp: manager_defs Let_def map_of_bt_insert map_of_bt_remove PendingEpisode_new_def asked_for_def
    split: if_splits\<close>)

interpretation asking: assembler_invariant A "asked E A" "\<lambda>event. event \<in> E" "\<lambda>_. True" for A E
proof unfold_locales
  fix m c event now and E and A :: "('a, 'b) asm_ops"
  assume "asked E A m c" "event \<in> E"
  then show "asked E A (fst (on_control_event A event now m)) c"
    unfolding asked_def by (auto intro: on_control_event_inv asked_for_control)
next
  fix m c q ch and E and A :: "('a, 'b) asm_ops"
  assume "asked E A m c"
  then show "asked E A (on_packet A ch q m) c"
    by (auto simp: asked_def on_packet_def bt_inv_update dest!: map_of_bt_update_Some intro: asked_for_packet)
next
  fix m c ch ts vals and E and A :: "('a, 'b) asm_ops"
  assume ok: "asked E A m c"
  show "asked E A (on_observation ch state_kind ts vals m) c" for state_kind
    using ok by (auto simp: asked_def on_observation_def on_active_inv dest!: on_active_map_of intro: asked_for_samples)
  show "asked E A (on_action ch command_kind ts vals m) c" for command_kind
    using ok by (auto simp: asked_def on_action_def on_active_inv dest!: on_active_map_of intro: asked_for_samples)
next
  fix m c n e i and E and A :: "('a, 'b) asm_ops"
  assume "asked E A m c" "map_of (mg_episodes m) n = Some e"
    "complete_episode A (length (asm_cameras (mg_config m))) e"
  then show "asked E A (m\<lparr>mg_episodes := bt_remove n (mg_episodes m), mg_in_flight := bt_insert n i (mg_in_flight m)\<rparr>)
        (c @ [Stage (ao_payload A e)])"
    by (auto simp: asked_def bt_inv_remove map_of_bt_remove complete_episode_def split: if_splits)
qed (auto simp: asked_def bt_inv_remove map_of_bt_remove remove_artifacts_def release_slot_def sweep_stale_slots_def Let_def
    split: if_splits)

text \<open>The control events a run receives.\<close>

definition controls_of :: "'p asm_turn list \<Rightarrow> control_event set" where
  "controls_of ts = {event. \<exists>t \<in> set ts. \<exists>now. Ok (event, now) \<in> set (tn_controls t)}"

lemma loop_asked:
  "asked (controls_of ts) A (as_manager (fst (asm_loop A ts (assembler_init config))))
     (as_sent (fst (asm_loop A ts (assembler_init config))))"
proof (rule asking.loop_keeps)
  show "list_all (asking.allowed_turn (controls_of ts)) ts"
    by (auto simp: list_all_iff asking.allowed_turn_def) (auto simp: controls_of_def)
qed (auto simp: asked_def assembler_init_def EpisodeManager_new_def bt_inv_def bt_keys_def)

section \<open>Stream configurations in the LeRobot assembler\<close>

text \<open>\<open>on_packet\<close> never calls \<open>observe_config\<close>.\<close>

definition unconfigured :: "recording_stream_buffer pending_episode \<Rightarrow> bool" where
  "unconfigured e \<longleftrightarrow> (\<forall>ch b. map_of (pd_camera_streams e) ch = Some b \<longrightarrow> rsb_config b = None)"

definition no_config :: "recording_stream_buffer episode_manager \<Rightarrow> episode_assembly_input stage_command list \<Rightarrow> bool" where
  "no_config m c \<longleftrightarrow> bt_inv (mg_episodes m) \<and> (\<forall>n e. map_of (mg_episodes m) n = Some e \<longrightarrow> unconfigured e)
     \<and> (\<forall>input. Stage input \<in> set c \<longrightarrow>
          (\<forall>ch b. map_of (eai_camera_streams input) ch = Some b \<longrightarrow> rsb_config b = None))"

lemma observe_keeps_config:
  "rsb_config (observe_packet h p b) = rsb_config b" "rsb_config (observe_eos h b) = rsb_config b"
  by (auto simp: observe_packet_def observe_eos_def update_sequence_def Let_def split: option.splits sum.splits if_splits)

lemma unconfigured_packet: "unconfigured e \<Longrightarrow> unconfigured (episode_packet lerobot_ops ch q e)"
  by (auto simp: unconfigured_def episode_packet_def observe_into_def Let_def lerobot_ops_def observe_keeps_config
      map_of_bt_update split: option.splits encoded_packet_kind.splits if_splits)

lemma unconfigured_new: "unconfigured (PendingEpisode_new lerobot_ops n ts ids)"
  by (auto simp: unconfigured_def PendingEpisode_new_def map_of_fresh_streams lerobot_ops_def
      RecordingStreamBuffer_default_def split: if_splits)

lemma unconfigured_flags [simp]:
  "unconfigured (e\<lparr>pd_observation_samples := x\<rparr>) = unconfigured e" "unconfigured (e\<lparr>pd_action_samples := x\<rparr>) = unconfigured e"
  "unconfigured (e\<lparr>pd_stop_time_us := t, pd_ready_wait_started_us := t'\<rparr>) = unconfigured e"
  "unconfigured (e\<lparr>pd_keep_requested := k, pd_ready_wait_started_us := t'\<rparr>) = unconfigured e"
  by (simp_all add: unconfigured_def)

interpretation config_less: assembler_invariant lerobot_ops no_config "\<lambda>_. True" "\<lambda>_. True"
proof unfold_locales
  fix m c event now
  assume ok: "no_config m c"
  have "unconfigured e'" if "map_of (mg_episodes (fst (on_control_event lerobot_ops event now m))) n = Some e'" for n e'
    using control_map_of [OF that] ok by (auto simp: no_config_def unconfigured_new)
  with ok show "no_config (fst (on_control_event lerobot_ops event now m)) c"
    unfolding no_config_def by (auto intro: on_control_event_inv)
next
  fix m c q ch
  assume "no_config m c"
  then show "no_config (on_packet lerobot_ops ch q m) c"
    by (auto simp: no_config_def on_packet_def bt_inv_update dest!: map_of_bt_update_Some intro: unconfigured_packet)
next
  fix m c ch ts vals
  assume ok: "no_config m c"
  show "no_config (on_observation ch state_kind ts vals m) c" for state_kind
    using ok by (auto simp: no_config_def on_observation_def on_active_inv dest!: on_active_map_of)
  show "no_config (on_action ch command_kind ts vals m) c" for command_kind
    using ok by (auto simp: no_config_def on_action_def on_active_inv dest!: on_active_map_of)
next
  fix m c n e i
  assume "no_config m c" "map_of (mg_episodes m) n = Some e"
  then show "no_config (m\<lparr>mg_episodes := bt_remove n (mg_episodes m), mg_in_flight := bt_insert n i (mg_in_flight m)\<rparr>)
        (c @ [Stage (ao_payload lerobot_ops e)])"
    by (auto simp: no_config_def bt_inv_remove map_of_bt_remove lerobot_ops_def as_assembly_input_def unconfigured_def
        split: if_splits)
qed (auto simp: no_config_def bt_inv_remove map_of_bt_remove remove_artifacts_def release_slot_def sweep_stale_slots_def Let_def
    split: if_splits)

section \<open>An episode nobody decides about\<close>

definition undecided :: "u32 \<Rightarrow> 'b episode_manager \<Rightarrow> 'p stage_command list \<Rightarrow> bool" where
  "undecided n m c \<longleftrightarrow> bt_inv (mg_episodes m) \<and> StageShutdown \<notin> set c
     \<and> (\<exists>e. map_of (mg_episodes m) n = Some e \<and> \<not> pd_keep_requested e \<and> pd_failed_cameras e = [])"

definition not_about :: "u32 \<Rightarrow> control_event \<Rightarrow> bool" where
  "not_about n event \<longleftrightarrow> event \<notin> {EpisodeKeep n, EpisodeDiscard n}"

definition packet_elsewhere :: "u32 \<Rightarrow> packet \<Rightarrow> bool" where
  "packet_elsewhere n q \<longleftrightarrow> eph_episode_index (fst q) \<noteq> n"

lemma undecided_control:
  assumes "map_of (mg_episodes m) n = Some e" "\<not> pd_keep_requested e" "pd_failed_cameras e = []" "not_about n event"
  shows "\<exists>e'. map_of (mg_episodes (fst (on_control_event A event now m))) n = Some e'
    \<and> \<not> pd_keep_requested e' \<and> pd_failed_cameras e' = []"
  using assms
  by (cases event) (auto simp: manager_defs Let_def map_of_bt_insert map_of_bt_remove map_of_bt_update
      PendingEpisode_new_def not_about_def)

interpretation undecided: assembler_invariant A "undecided n" "not_about n" "packet_elsewhere n" for A n
proof unfold_locales
  fix m :: "'a episode_manager" and c :: "'b stage_command list" and event now
  assume "undecided n m c" "not_about n event"
  then show "undecided n (fst (on_control_event A event now m)) c"
    by (auto simp: undecided_def on_control_event_inv dest: undecided_control)
next
  fix m :: "'a episode_manager" and c :: "'b stage_command list" and ch ts vals
  assume ok: "undecided n m c"
  show "undecided n (on_observation ch state_kind ts vals m) c" for state_kind
    using ok by (auto simp: undecided_def on_observation_def on_active_inv on_active_def bt_inv_update map_of_bt_update split: option.split)
  show "undecided n (on_action ch command_kind ts vals m) c" for command_kind
    using ok by (auto simp: undecided_def on_action_def on_active_inv on_active_def bt_inv_update map_of_bt_update split: option.split)
qed (auto simp: undecided_def packet_elsewhere_def on_packet_def bt_inv_update bt_inv_remove map_of_bt_update map_of_bt_remove
    remove_artifacts_def release_slot_def sweep_stale_slots_def Let_def complete_episode_def)

end
