(* ===== verification/Assembler_Delivery.thy ===== *)
theory Assembler_Delivery
  imports Assembler_Invariants
begin

text \<open>
  What becomes of an episode in the assembler: it is never lost silently, its streams reach the
  staging worker whole, and an episode that is neither kept nor discarded keeps the loop alive.
\<close>

section \<open>How the loop ends\<close>

definition link_ok :: "('b, 'p) assembler \<Rightarrow> bool" where
  "link_ok s \<longleftrightarrow> set (as_queue s) \<subseteq> set (as_sent s) \<and> (StageShutdownComplete \<in> set (as_events s) \<longrightarrow> StageShutdown \<in> set (as_sent s))"

text \<open>A phase only ends the loop after \<open>StageShutdown\<close> was sent.\<close>

definition quiet :: "('b, 'p) assembler phase \<Rightarrow> bool" where
  "quiet p \<longleftrightarrow> (\<forall>s. link_ok s \<longrightarrow> link_ok (fst (p s))
     \<and> (snd (p s) = Err Finished \<longrightarrow> StageShutdown \<in> set (as_sent (fst (p s)))))"

lemma quietD: "quiet p \<Longrightarrow> link_ok s \<Longrightarrow> link_ok (fst (p s))"
  "quiet p \<Longrightarrow> link_ok s \<Longrightarrow> snd (p s) = Err Finished \<Longrightarrow> StageShutdown \<in> set (as_sent (fst (p s)))"
  by (auto simp: quiet_def)

lemma quiet_phases: "(\<And>p. p \<in> set ps \<Longrightarrow> quiet p) \<Longrightarrow> quiet (phases ps)"
proof (induction ps)
  case (Cons p ps)
  have p: "quiet p" and ps: "quiet (phases ps)" using Cons by auto
  show ?case unfolding quiet_def
  proof (intro allI impI)
    fix s :: "('a, 'b) assembler"
    assume ok: "link_ok s"
    obtain s' u where pp: "p s = (s', u)" by fastforce
    then have "link_ok s'" using quietD(1) [OF p ok] by simp
    then show "link_ok (fst (phases (p # ps) s)) \<and> (snd (phases (p # ps) s) = Err Finished \<longrightarrow>
        StageShutdown \<in> set (as_sent (fst (phases (p # ps) s))))"
      using quietD [OF ps] quietD(2) [OF p ok] pp by (cases u) auto
  qed
qed (simp add: quiet_def)

lemma quiet_drain_port: "(\<And>x. quiet (f x)) \<Longrightarrow> quiet (drain_port f rs)"
proof (induction rs)
  case (Cons r rs)
  have rest: "quiet (drain_port f rs)" using Cons by auto
  show ?case
  proof (cases r)
    case (Inr x)
    have "drain_port f (r # rs) = phases [f x, drain_port f rs]"
      using Inr by (auto simp: fun_eq_iff split: prod.split sum.split)
    moreover have "quiet (phases [f x, drain_port f rs])" by (rule quiet_phases) (use Cons.prems rest in auto)
    ultimately show ?thesis by (simp only:)
  qed (simp add: quiet_def)
qed (simp add: quiet_def)

lemma quiet_same:
  "(\<And>s. as_queue (fst (p s)) = as_queue s \<and> as_sent (fst (p s)) = as_sent s \<and> as_events (fst (p s)) = as_events s
     \<and> snd (p s) \<noteq> Err Finished) \<Longrightarrow> quiet p"
  by (simp add: quiet_def link_ok_def)

lemma quiet_publish: "quiet (publish sends msg)"
  by (rule quiet_same) (simp add: publish_def split: sum.split)

lemma quiet_publish_drop: "quiet (publish_drop sends notice)"
  unfolding quiet_def publish_drop_def
  by (intro allI impI conjI quietD [OF quiet_phases]) (auto intro: quiet_publish)

lemma quiet_on_manager: "quiet (on_manager f)"
  by (rule quiet_same) (simp add: on_manager_def)

lemma quiet_control: "quiet (asm_drain_control A rs)"
proof (rule quiet_same)
  fix s :: "('a, 'b) assembler"
  show "as_queue (fst (asm_drain_control A rs s)) = as_queue s \<and> as_sent (fst (asm_drain_control A rs s)) = as_sent s
    \<and> as_events (fst (asm_drain_control A rs s)) = as_events s \<and> snd (asm_drain_control A rs s) \<noteq> Err Finished"
    by (induction A rs s rule: asm_drain_control.induct) (auto split: prod.split)
qed

lemma quiet_state_phases:
  assumes "\<And>s. link_ok s \<Longrightarrow> link_ok (g s)" and "\<And>s p. p \<in> set (f s) \<Longrightarrow> quiet p"
  shows "quiet (\<lambda>s. phases (f s) (g s))"
  unfolding quiet_def
proof (intro allI impI)
  fix s :: "('a, 'b) assembler"
  assume "link_ok s"
  then have ok: "link_ok (g s)" by (rule assms(1))
  have q: "quiet (phases (f s))" by (rule quiet_phases) (rule assms(2))
  from quietD [OF q ok] show "link_ok (fst (phases (f s) (g s))) \<and> (snd (phases (f s) (g s)) = Err Finished \<longrightarrow>
      StageShutdown \<in> set (as_sent (fst (phases (f s) (g s)))))" by blast
qed

lemma quiet_comp: "quiet p \<Longrightarrow> (\<And>s. link_ok s \<Longrightarrow> link_ok (g s)) \<Longrightarrow> quiet (\<lambda>s. p (g s))"
  unfolding quiet_def by blast

lemma quiet_packets: "quiet (asm_drain_packets A received)"
  unfolding asm_drain_packets_def
  by (rule quiet_state_phases) (auto intro!: quiet_drain_port quiet_on_manager)

lemma quiet_samples: "quiet (drain_samples put rs)"
  unfolding drain_samples_def
  by (intro quiet_drain_port quiet_same) (auto simp: on_manager_def split: option.split)

lemma quiet_observations: "quiet (drain_observations received)" "quiet (drain_actions received)"
  unfolding drain_observations_def drain_actions_def
  by (rule quiet_state_phases; auto intro!: quiet_samples)+

lemma stage_ready_exit: "snd (stage_ready A clock alive ns d) \<noteq> Err Finished"
  by (induction A clock alive ns d rule: stage_ready.induct) (auto simp: Let_def split: option.split)

lemma quiet_dispatch: "quiet (dispatch_phase A t)"
  unfolding quiet_def
proof (intro allI impI)
  fix s :: "('a, 'b) assembler"
  assume ok: "link_ok s"
  obtain d r where dr: "dispatch_ready_episodes A (tn_now_us t) (tn_clock t) (as_alive s) (as_manager s) = (d, r)"
    by fastforce
  let ?s = "s\<lparr>as_manager := dp_manager d, as_sent := as_sent s @ dp_commands d,
    as_queue := as_queue s @ dp_commands d, as_progress := (as_progress s \<or> dp_changed d)\<rparr>"
  have eq: "dispatch_phase A t s = (case r of Err e \<Rightarrow> (?s, Err e)
      | Ok _ \<Rightarrow> phases (map (publish_drop (tn_sends t)) (dp_dropped d)) ?s)"
    by (simp add: dispatch_phase_def dr Let_def)
  have ok': "link_ok ?s" using ok by (auto simp: link_ok_def)
  have "snd (dispatch_ready_episodes A (tn_now_us t) (tn_clock t) (as_alive s) (as_manager s)) \<noteq> Err Finished"
    by (simp add: dispatch_ready_episodes_def ready_failed_and_timed_out_def stage_ready_exit)
  then have exit: "r \<noteq> Err Finished" by (simp add: dr)
  have q: "quiet (phases (map (publish_drop (tn_sends t)) (dp_dropped d)))"
    by (rule quiet_phases) (auto intro: quiet_publish_drop)
  show "link_ok (fst (dispatch_phase A t s)) \<and> (snd (dispatch_phase A t s) = Err Finished \<longrightarrow>
      StageShutdown \<in> set (as_sent (fst (dispatch_phase A t s))))"
  proof (cases r)
    case (Inl e)
    then show ?thesis using eq ok' exit by simp
  next
    case (Inr u)
    then have "dispatch_phase A t s = phases (map (publish_drop (tn_sends t)) (dp_dropped d)) ?s" using eq by simp
    then show ?thesis using quietD [OF q ok'] by metis
  qed
qed

lemma quiet_stored: "quiet (stored_phase t)"
  unfolding stored_phase_def by (intro quiet_drain_port quiet_same) (auto split: prod.split)

lemma quiet_sweep: "quiet (sweep_phase t :: ('b, 'p) assembler phase)"
proof -
  have "quiet (\<lambda>s :: ('b, 'p) assembler. publish_drop sends notice (s\<lparr>as_progress := True\<rparr>))" for sends notice
    by (rule quiet_comp [OF quiet_publish_drop]) (simp add: link_ok_def)
  then have "quiet (\<lambda>s :: ('b, 'p) assembler. phases (map (\<lambda>leaked s. publish_drop (tn_sends t) \<lparr>dn_episode_index = leaked,
      dn_reason = ''staging_slot_leak'', dn_backpressure = True\<rparr> (s\<lparr>as_progress := True\<rparr>))
        (snd (sweep_stale_slots (tn_sweep_at t) (as_manager s))))
      (s\<lparr>as_manager := fst (sweep_stale_slots (tn_sweep_at t) (as_manager s))\<rparr>))"
    by (intro quiet_state_phases) (auto simp: link_ok_def)
  moreover have "sweep_phase t = (\<lambda>s :: ('b, 'p) assembler. phases (map (\<lambda>leaked s. publish_drop (tn_sends t) \<lparr>dn_episode_index = leaked,
      dn_reason = ''staging_slot_leak'', dn_backpressure = True\<rparr> (s\<lparr>as_progress := True\<rparr>))
        (snd (sweep_stale_slots (tn_sweep_at t) (as_manager s))))
      (s\<lparr>as_manager := fst (sweep_stale_slots (tn_sweep_at t) (as_manager s))\<rparr>))"
    by (auto simp: fun_eq_iff sweep_phase_def split: prod.split)
  ultimately show ?thesis by (simp only:)
qed

lemma worker_take_link: "link_ok s \<Longrightarrow> link_ok (worker_take stage k s)"
  by (induction stage k s rule: worker_take.induct) (auto simp: link_ok_def split: list.splits stage_command.splits sum.splits)

lemma drain_stage_events_link:
  assumes "link_ok s" and "set es \<subseteq> set (as_events s)"
  shows "link_ok (fst (drain_stage_events sends es s)) \<and> (snd (drain_stage_events sends es s) = Err Finished \<longrightarrow>
      StageShutdown \<in> set (as_sent (fst (drain_stage_events sends es s))))"
  using assms
  by (induction sends es s rule: drain_stage_events.induct) (auto simp: publish_def link_ok_def split: sum.split)

lemma quiet_worker: "quiet (\<lambda>s. let s' = worker_take stage k s in drain_stage_events sends (as_events s') s')"
  unfolding quiet_def Let_def using drain_stage_events_link [OF worker_take_link] by blast

lemma quiet_shutdown: "quiet shutdown_phase"
  by (auto simp: quiet_def shutdown_phase_def link_ok_def)

lemma quiet_turn:
  assumes "\<not> tn_interrupted t"
  shows "quiet (asm_turn A t)"
  unfolding asm_turn_def
proof (rule quiet_state_phases)
  have "quiet (wait_phase t)" by (rule quiet_same) (simp add: wait_phase_def assms)
  then show "quiet p" if "p \<in> set [asm_drain_control A (tn_controls t), asm_drain_packets A (tn_packets t),
      drain_observations (tn_observations t), drain_actions (tn_actions t), dispatch_phase A t, stored_phase t, sweep_phase t,
      \<lambda>s. let s' = worker_take (tn_stage t) (tn_worker_steps t) s in drain_stage_events (tn_sends t) (as_events s') s',
      shutdown_phase, wait_phase t]" for p :: "('b, 'a) assembler phase"
    using that by (auto intro: quiet_control quiet_packets quiet_observations quiet_dispatch quiet_stored quiet_sweep
        quiet_worker quiet_shutdown)
qed (simp add: link_ok_def)

theorem undecided_episode_keeps_loop:
  assumes "list_all (\<lambda>t. \<not> tn_interrupted t \<and> undecided.allowed_turn n t) ts"
    and "undecided n (as_manager s) (as_sent s)" and "link_ok s"
  shows "snd (asm_loop A ts s) \<noteq> Err Finished \<and> StageShutdown \<notin> set (as_sent (fst (asm_loop A ts s)))"
proof -
  have "undecided n (as_manager (fst (asm_loop A ts s))) (as_sent (fst (asm_loop A ts s)))"
    by (rule undecided.loop_keeps) (use assms in \<open>auto simp: list_all_iff\<close>)
  then have "StageShutdown \<notin> set (as_sent (fst (asm_loop A ts s)))" by (simp add: undecided_def)
  moreover have "quiet (asm_loop A ts)"
    unfolding asm_loop_def by (rule quiet_phases) (use assms(1) in \<open>auto simp: list_all_iff intro: quiet_turn\<close>)
  ultimately show ?thesis using quietD(2) assms(3) by blast
qed

section \<open>Every episode is accounted for\<close>

definition accounted :: "('b, 'p) asm_ops \<Rightarrow> u32 \<Rightarrow> ('b, 'p) assembler \<Rightarrow> bool" where
  "accounted A n s \<longleftrightarrow> map_of (mg_episodes (as_manager s)) n \<noteq> None
     \<or> (\<exists>e. Stage (ao_payload A e) \<in> set (as_sent s) \<and> pd_episode_index e = n)
     \<or> (\<exists>r. OutDropped \<lparr>ed_episode_index = n, ed_reason = r\<rparr> \<in> set (as_out s))"

definition indexed :: "('b, 'p) assembler \<Rightarrow> bool" where
  "indexed s \<longleftrightarrow> (\<forall>n e. map_of (mg_episodes (as_manager s)) n = Some e \<longrightarrow> pd_episode_index e = n)"

lemma accounted_mono:
  assumes "accounted A n s" and "map_of (mg_episodes (as_manager s)) n \<noteq> None \<Longrightarrow> map_of (mg_episodes (as_manager s')) n \<noteq> None"
    and "set (as_sent s) \<subseteq> set (as_sent s')" and "set (as_out s) \<subseteq> set (as_out s')"
  shows "accounted A n s'"
  using assms(1) unfolding accounted_def
proof (elim disjE)
  assume "map_of (mg_episodes (as_manager s)) n \<noteq> None"
  with assms(2) show "map_of (mg_episodes (as_manager s')) n \<noteq> None
     \<or> (\<exists>e. Stage (ao_payload A e) \<in> set (as_sent s') \<and> pd_episode_index e = n)
     \<or> (\<exists>r. OutDropped \<lparr>ed_episode_index = n, ed_reason = r\<rparr> \<in> set (as_out s'))" by blast
qed (use assms(3,4) in blast)+

text \<open>A phase that goes on keeps the account.\<close>

definition accounts :: "('b, 'p) asm_ops \<Rightarrow> u32 \<Rightarrow> ('b, 'p) assembler phase \<Rightarrow> bool" where
  "accounts A n p \<longleftrightarrow> (\<forall>s s'. p s = (s', Ok ()) \<longrightarrow> indexed s \<longrightarrow> accounted A n s \<longrightarrow> indexed s' \<and> accounted A n s')"

lemma accounts_phases: "(\<And>p. p \<in> set ps \<Longrightarrow> accounts A n p) \<Longrightarrow> accounts A n (phases ps)"
proof (induction ps)
  case (Cons p ps)
  have p: "accounts A n p" and ps: "accounts A n (phases ps)" using Cons by auto
  show ?case unfolding accounts_def
  proof (intro allI impI)
    fix s s' :: "('a, 'b) assembler"
    assume run: "phases (p # ps) s = (s', Ok ())" and ok: "indexed s" "accounted A n s"
    then obtain s1 where "p s = (s1, Ok ())" "phases ps s1 = (s', Ok ())"
      using phases_Ok [OF run refl] by blast
    then show "indexed s' \<and> accounted A n s'" using p ps ok unfolding accounts_def by blast
  qed
qed (simp add: accounts_def)

lemma accounts_comp:
  assumes "accounts A n p" and "\<And>s. as_manager (g s) = as_manager s" and "\<And>s. as_sent (g s) = as_sent s"
    and "\<And>s. as_out (g s) = as_out s"
  shows "accounts A n (\<lambda>s. p (g s))"
proof -
  have "accounted A n (g s) = accounted A n s" "indexed (g s) = indexed s" for s
    by (simp_all add: accounted_def indexed_def assms(2-4))
  then show ?thesis using assms(1) unfolding accounts_def by blast
qed

lemma accounts_drain_port: "(\<And>x. Ok x \<in> set rs \<Longrightarrow> accounts A n (f x)) \<Longrightarrow> accounts A n (drain_port f rs)"
proof (induction rs)
  case (Cons r rs)
  have rest: "accounts A n (drain_port f rs)" using Cons by auto
  show ?case
  proof (cases r)
    case (Inr x)
    have "drain_port f (r # rs) = phases [f x, drain_port f rs]"
      using Inr by (auto simp: fun_eq_iff split: prod.split sum.split)
    moreover have "accounts A n (phases [f x, drain_port f rs])"
      by (rule accounts_phases) (use Cons.prems rest Inr in auto)
    ultimately show ?thesis by (simp only:)
  qed (simp add: accounts_def)
qed (simp add: accounts_def)

text \<open>A change of the manager that keeps the keys and the indices.\<close>

definition same_keys :: "'b episode_manager \<Rightarrow> 'b episode_manager \<Rightarrow> bool" where
  "same_keys m m' \<longleftrightarrow> (\<forall>n. map_of (mg_episodes m) n \<noteq> None \<longrightarrow> map_of (mg_episodes m') n \<noteq> None)
     \<and> ((\<forall>n e. map_of (mg_episodes m) n = Some e \<longrightarrow> pd_episode_index e = n) \<longrightarrow>
        (\<forall>n e. map_of (mg_episodes m') n = Some e \<longrightarrow> pd_episode_index e = n))"

lemma accounts_same_keys:
  assumes "\<And>s. same_keys (as_manager s) (as_manager (fst (p s))) \<and> set (as_sent s) \<subseteq> set (as_sent (fst (p s)))
     \<and> set (as_out s) \<subseteq> set (as_out (fst (p s)))"
  shows "accounts A n p"
  unfolding accounts_def
proof (intro allI impI)
  fix s s' :: "('a, 'b) assembler"
  assume "p s = (s', Ok ())" and ok: "indexed s" "accounted A n s"
  then have keep: "same_keys (as_manager s) (as_manager s')" "set (as_sent s) \<subseteq> set (as_sent s')"
    "set (as_out s) \<subseteq> set (as_out s')" using assms [of s] by auto
  have "indexed s'" using keep(1) ok(1) unfolding same_keys_def indexed_def by blast
  moreover have "accounted A n s'"
    by (rule accounted_mono [OF ok(2) _ keep(2,3)]) (use keep(1) in \<open>simp add: same_keys_def\<close>)
  ultimately show "indexed s' \<and> accounted A n s'" ..
qed

lemma same_keys_refl [simp]: "same_keys m m"
  by (simp add: same_keys_def)

lemma same_keys_update:
  "(\<And>e. pd_episode_index (f e) = pd_episode_index e) \<Longrightarrow>
   same_keys m (m\<lparr>mg_episodes := bt_update k f (mg_episodes m)\<rparr>)"
  by (auto simp: same_keys_def map_of_bt_update split: if_splits)

lemma same_keys_packet: "same_keys m (on_packet A ch q m)"
  unfolding on_packet_def
  by (rule same_keys_update) (simp add: episode_packet_def Let_def split: option.split)

lemma same_keys_samples: "same_keys m (on_observation ch k ts vals m)" "same_keys m (on_action ch k' ts vals m)"
  unfolding on_observation_def on_action_def on_active_def
  by (auto intro!: same_keys_update split: option.split)

lemma control_same_keys:
  "event \<noteq> EpisodeDiscard n \<Longrightarrow>
   (map_of (mg_episodes m) n \<noteq> None \<longrightarrow> map_of (mg_episodes (fst (on_control_event A event now m))) n \<noteq> None)
   \<and> ((\<forall>n e. map_of (mg_episodes m) n = Some e \<longrightarrow> pd_episode_index e = n) \<longrightarrow>
        (\<forall>n e. map_of (mg_episodes (fst (on_control_event A event now m))) n = Some e \<longrightarrow> pd_episode_index e = n))"
  by (cases event)
    (auto simp: manager_defs Let_def map_of_bt_insert map_of_bt_remove map_of_bt_update PendingEpisode_new_def split: if_splits)

lemma accounts_control:
  assumes "\<And>now. Ok (EpisodeDiscard n, now) \<notin> set rs"
  shows "accounts A n (asm_drain_control A rs)"
  unfolding accounts_def
proof (intro allI impI)
  fix s s' :: "('a, 'b) assembler"
  assume "asm_drain_control A rs s = (s', Ok ())" "indexed s" "accounted A n s"
  then show "indexed s' \<and> accounted A n s'" using assms
  proof (induction rs arbitrary: s)
    case (Cons r rs)
    show ?case
    proof (cases r)
      case (Inr x)
      obtain event now where x: "x = (event, now)" by (cases x)
      let ?s = "s\<lparr>as_manager := fst (on_control_event A event now (as_manager s))\<rparr>"
      have "event \<noteq> EpisodeDiscard n" using Cons.prems(4) Inr x by auto
      note same = control_same_keys [OF this, of "as_manager s" A now]
      have "indexed ?s" using conjunct2 [OF same] Cons.prems(2) unfolding indexed_def by simp
      moreover have "accounted A n ?s"
        by (rule accounted_mono [OF Cons.prems(3)]) (use conjunct1 [OF same] in simp_all)
      ultimately have ok: "indexed ?s" "accounted A n ?s" .
      show ?thesis
      proof (cases "snd (on_control_event A event now (as_manager s))")
        case True
        then have "s' = ?s\<lparr>as_shutdown_requested := True\<rparr>" using Cons.prems(1) Inr x by (auto split: prod.splits)
        then show ?thesis using ok by (simp add: indexed_def accounted_def)
      next
        case False
        then have "asm_drain_control A rs ?s = (s', Ok ())" using Cons.prems(1) Inr x by (auto split: prod.splits)
        from Cons.IH [OF this ok] Cons.prems(4) show ?thesis by simp
      qed
    qed (use Cons.prems in simp)
  qed simp
qed

lemma accounts_on_manager: "(\<And>m. same_keys m (f m)) \<Longrightarrow> accounts A n (on_manager f)"
  by (rule accounts_same_keys) (simp add: on_manager_def)

lemma accounts_state_phases:
  "(\<And>s p. p \<in> set (f s) \<Longrightarrow> accounts A n p) \<Longrightarrow> accounts A n (\<lambda>s. phases (f s) s)"
  using accounts_phases unfolding accounts_def by blast

lemma accounts_packets: "accounts A n (asm_drain_packets A received)"
  unfolding asm_drain_packets_def
  by (rule accounts_state_phases) (auto intro!: accounts_drain_port accounts_on_manager same_keys_packet)

lemma accounts_samples: "(\<And>ts vals m. same_keys m (put ts vals m)) \<Longrightarrow> accounts A n (drain_samples put rs)"
  unfolding drain_samples_def
  by (intro accounts_drain_port accounts_same_keys) (auto simp: on_manager_def split: option.split)

lemma accounts_observations: "accounts A n (drain_observations received)" "accounts A n (drain_actions received)"
  unfolding drain_observations_def drain_actions_def
  by (rule accounts_state_phases; auto intro!: accounts_samples same_keys_samples)+

lemma publish_Ok: "publish sends msg s = (s', Ok ()) \<Longrightarrow> s' = s\<lparr>as_out := as_out s @ [msg]\<rparr>"
  by (simp add: publish_def split: sum.splits)

lemma publish_drop_Ok:
  assumes "publish_drop sends notice s = (s', Ok ())"
  shows "\<exists>new r. s' = s\<lparr>as_out := as_out s @ new\<rparr>
    \<and> OutDropped \<lparr>ed_episode_index = dn_episode_index notice, ed_reason = r\<rparr> \<in> set new"
proof (cases "dn_backpressure notice")
  case True
  then show ?thesis using assms
    by (auto simp: publish_drop_def split: prod.splits sum.splits dest!: publish_Ok)
next
  case False
  then show ?thesis using assms by (fastforce simp: publish_drop_def split: prod.splits sum.splits dest!: publish_Ok)
qed

lemma publish_drops_Ok:
  "phases (map (publish_drop sends) notices) s = (s', Ok ()) \<Longrightarrow>
   \<exists>new. s' = s\<lparr>as_out := as_out s @ new\<rparr>
     \<and> (\<forall>notice \<in> set notices. \<exists>r. OutDropped \<lparr>ed_episode_index = dn_episode_index notice, ed_reason = r\<rparr> \<in> set new)"
proof (induction notices arbitrary: s)
  case Nil
  then show ?case by (intro exI [of _ "[]"]) simp
next
  case (Cons notice notices)
  then obtain s1 where "publish_drop sends notice s = (s1, Ok ())"
    and rest: "phases (map (publish_drop sends) notices) s1 = (s', Ok ())"
    using phases_Ok [OF Cons.prems, of "publish_drop sends notice" "map (publish_drop sends) notices"] by auto
  then obtain new1 r where one: "s1 = s\<lparr>as_out := as_out s @ new1\<rparr>"
    "OutDropped \<lparr>ed_episode_index = dn_episode_index notice, ed_reason = r\<rparr> \<in> set new1"
    using publish_drop_Ok by blast
  from Cons.IH [OF rest] obtain new2 where two: "s' = s1\<lparr>as_out := as_out s1 @ new2\<rparr>"
    "\<forall>notice \<in> set notices. \<exists>r. OutDropped \<lparr>ed_episode_index = dn_episode_index notice, ed_reason = r\<rparr> \<in> set new2" by blast
  have "s' = s\<lparr>as_out := as_out s @ (new1 @ new2)\<rparr>" using one(1) two(1) by simp
  moreover have "\<exists>r. OutDropped \<lparr>ed_episode_index = dn_episode_index x, ed_reason = r\<rparr> \<in> set (new1 @ new2)"
    if "x \<in> set (notice # notices)" for x using that one(2) two(2) by (cases "x = notice") auto
  ultimately show ?case by (intro exI [of _ "new1 @ new2"] conjI ballI)
qed

text \<open>The same account for one dispatch pass.\<close>

definition covered :: "('b, 'p) asm_ops \<Rightarrow> u32 \<Rightarrow> ('b, 'p) dispatch \<Rightarrow> bool" where
  "covered A n d \<longleftrightarrow> map_of (mg_episodes (dp_manager d)) n \<noteq> None
     \<or> (\<exists>e. Stage (ao_payload A e) \<in> set (dp_commands d) \<and> pd_episode_index e = n)
     \<or> n \<in> dn_episode_index ` set (dp_dropped d)"

definition dispatch_indexed :: "('b, 'p) dispatch \<Rightarrow> bool" where
  "dispatch_indexed d \<longleftrightarrow> (\<forall>n e. map_of (mg_episodes (dp_manager d)) n = Some e \<longrightarrow> pd_episode_index e = n)"

lemma covered_drop:
  assumes "covered A n d"
  shows "covered A n (drop_episode reason bp k d)"
proof (cases "k = n \<and> map_of (mg_episodes (dp_manager d)) n \<noteq> None")
  case True
  then show ?thesis by (auto simp: covered_def drop_episode_def Let_def)
next
  case False
  have "dp_commands (drop_episode reason bp k d) = dp_commands d"
    "set (dp_dropped d) \<subseteq> set (dp_dropped (drop_episode reason bp k d))"
    by (auto simp: drop_episode_def Let_def)
  moreover have "map_of (mg_episodes (dp_manager (drop_episode reason bp k d))) n = map_of (mg_episodes (dp_manager d)) n"
    using False by (auto simp: slots.drop_episode_map_of)
  ultimately show ?thesis using assms unfolding covered_def by auto
qed

lemma dispatch_indexed_drop: "dispatch_indexed d \<Longrightarrow> dispatch_indexed (drop_episode reason bp k d)"
  unfolding dispatch_indexed_def slots.drop_episode_map_of by auto

lemma covered_drop_all: "covered A n d \<Longrightarrow> covered A n (fold (drop_episode reason bp) ns d)"
  by (induction ns arbitrary: d) (auto intro: covered_drop)

lemma dispatch_indexed_drop_all: "dispatch_indexed d \<Longrightarrow> dispatch_indexed (fold (drop_episode reason bp) ns d)"
  by (induction ns arbitrary: d) (auto intro: dispatch_indexed_drop)

text \<open>Staging one episode.\<close>

definition stage_one :: "('b, 'p) asm_ops \<Rightarrow> instant_ns \<Rightarrow> u32 \<Rightarrow> 'b pending_episode \<Rightarrow> ('b, 'p) dispatch \<Rightarrow> ('b, 'p) dispatch" where
  "stage_one A i k e d = d\<lparr>dp_manager := (dp_manager d)\<lparr>mg_episodes := bt_remove k (mg_episodes (dp_manager d)),
       mg_in_flight := bt_insert k i (mg_in_flight (dp_manager d))\<rparr>,
     dp_commands := dp_commands d @ [Stage (ao_payload A e)], dp_changed := True\<rparr>"

lemma covered_stage_one:
  assumes "covered A n d" and "pd_episode_index e = k"
  shows "covered A n (stage_one A i k e d)"
proof (cases "k = n")
  case True
  then have "Stage (ao_payload A e) \<in> set (dp_commands (stage_one A i k e d)) \<and> pd_episode_index e = n"
    using assms(2) by (simp add: stage_one_def)
  then show ?thesis unfolding covered_def by (intro disjI2 disjI1 exI)
next
  case False
  then show ?thesis using assms(1) by (auto simp: covered_def map_of_bt_remove stage_one_def)
qed

lemma dispatch_indexed_stage_one: "dispatch_indexed d \<Longrightarrow> dispatch_indexed (stage_one A i k e d)"
  unfolding dispatch_indexed_def by (simp add: map_of_bt_remove stage_one_def)

lemma stage_ready_Cons:
  "stage_ready A clock alive (k # ns) d =
     (case map_of (mg_episodes (dp_manager d)) k of
        None \<Rightarrow> stage_ready A clock alive ns d
      | Some e \<Rightarrow>
          if mg_staging_slots (dp_manager d) \<le> length (mg_in_flight (dp_manager d))
          then stage_ready A clock alive ns (drop_episode ''staging_slots_full'' True k d)
          else if alive then stage_ready A clock alive ns (stage_one A (clock k) k e d)
          else (d\<lparr>dp_manager := (dp_manager d)\<lparr>mg_episodes := bt_remove k (mg_episodes (dp_manager d))\<rparr>\<rparr>,
                Err (Failed StagingWorkerGone)))"
  by (simp add: Let_def stage_one_def split: option.split)

lemma stage_ready_accounts:
  "stage_ready A clock alive ns d = (d', Ok ()) \<Longrightarrow> dispatch_indexed d \<Longrightarrow>
   dispatch_indexed d' \<and> (covered A n d \<longrightarrow> covered A n d')"
proof (induction ns arbitrary: d)
  case (Cons k ns)
  show ?case
  proof (cases "map_of (mg_episodes (dp_manager d)) k")
    case None
    then show ?thesis using Cons by (simp add: stage_ready_Cons del: stage_ready.simps)
  next
    case (Some e)
    then have k: "pd_episode_index e = k" using Cons.prems(2) unfolding dispatch_indexed_def by blast
    show ?thesis
    proof (cases "mg_staging_slots (dp_manager d) \<le> length (mg_in_flight (dp_manager d))")
      case True
      then have "stage_ready A clock alive ns (drop_episode ''staging_slots_full'' True k d) = (d', Ok ())"
        using Cons.prems(1) Some by (simp add: stage_ready_Cons del: stage_ready.simps)
      from Cons.IH [OF this dispatch_indexed_drop [OF Cons.prems(2)]] show ?thesis using covered_drop by blast
    next
      case False
      then have "stage_ready A clock alive ns (stage_one A (clock k) k e d) = (d', Ok ())"
        using Cons.prems(1) Some by (simp add: stage_ready_Cons del: stage_ready.simps split: if_splits)
      from Cons.IH [OF this dispatch_indexed_stage_one [OF Cons.prems(2)]] show ?thesis
        using covered_stage_one [OF _ k] by blast
    qed
  qed
qed simp

lemma dispatch_accounts:
  assumes "dispatch_ready_episodes A now clock alive m = (d, Ok ())"
    and "\<And>k e. map_of (mg_episodes m) k = Some e \<Longrightarrow> pd_episode_index e = k"
  shows "dispatch_indexed d \<and> (map_of (mg_episodes m) n \<noteq> None \<longrightarrow> covered A n d)"
proof -
  let ?d0 = "\<lparr>dp_manager = m, dp_commands = [], dp_changed = False, dp_dropped = []\<rparr> :: ('a, 'b) dispatch"
  let ?d2 = "fold (drop_episode ''missing_end_of_stream'' False) (with_verdict A now m EpisodeTimedOut)
    (fold (drop_episode ''packet_stream_failure'' False) (with_verdict A now m EpisodeFailed) ?d0)"
  have "dispatch_indexed ?d0" using assms(2) by (auto simp: dispatch_indexed_def)
  then have "dispatch_indexed ?d2" by (intro dispatch_indexed_drop_all)
  moreover have "covered A n ?d2" if "map_of (mg_episodes m) n \<noteq> None"
    by (intro covered_drop_all) (use that in \<open>simp add: covered_def\<close>)
  moreover have "stage_ready A clock alive (with_verdict A now m EpisodeReadyToStage) ?d2 = (d, Ok ())"
    using assms(1) by (simp add: dispatch_ready_episodes_def ready_failed_and_timed_out_def)
  ultimately show ?thesis using stage_ready_accounts by blast
qed

lemma accounts_dispatch: "accounts A n (dispatch_phase A t)"
  unfolding accounts_def
proof (intro allI impI)
  fix s s' :: "('a, 'b) assembler"
  assume run: "dispatch_phase A t s = (s', Ok ())" and ok: "indexed s" "accounted A n s"
  obtain d where d: "dispatch_ready_episodes A (tn_now_us t) (tn_clock t) (as_alive s) (as_manager s) = (d, Ok ())"
    and pub: "phases (map (publish_drop (tn_sends t)) (dp_dropped d)) (s\<lparr>as_manager := dp_manager d,
      as_sent := as_sent s @ dp_commands d, as_queue := as_queue s @ dp_commands d,
      as_progress := (as_progress s \<or> dp_changed d)\<rparr>) = (s', Ok ())"
    using run by (auto simp: dispatch_phase_def Let_def split: prod.splits sum.splits)
  from publish_drops_Ok [OF pub] obtain new where s': "as_manager s' = dp_manager d"
    "as_sent s' = as_sent s @ dp_commands d" "as_out s' = as_out s @ new"
    and notices: "\<forall>notice \<in> set (dp_dropped d). \<exists>r. OutDropped \<lparr>ed_episode_index = dn_episode_index notice, ed_reason = r\<rparr> \<in> set new"
    by auto
  have disp: "dispatch_indexed d \<and> (map_of (mg_episodes (as_manager s)) n \<noteq> None \<longrightarrow> covered A n d)"
    by (rule dispatch_accounts [OF d]) (use ok(1) in \<open>simp add: indexed_def\<close>)
  then have "indexed s'" unfolding indexed_def dispatch_indexed_def s' by blast
  moreover have "accounted A n s'"
  proof (cases "map_of (mg_episodes (as_manager s)) n = None")
    case True
    show ?thesis
      by (rule accounted_mono [OF ok(2)]) (use True s' in auto)
  next
    case False
    then have "covered A n d" using disp by blast
    then show ?thesis unfolding covered_def
    proof (elim disjE)
      assume "n \<in> dn_episode_index ` set (dp_dropped d)"
      then show ?thesis using notices unfolding accounted_def s' set_append by blast
    qed (auto simp: accounted_def s')
  qed
  ultimately show "indexed s' \<and> accounted A n s'" ..
qed

lemma accounts_stored: "accounts A n (stored_phase t)"
  unfolding stored_phase_def
  by (intro accounts_drain_port accounts_same_keys) (auto simp: release_slot_def same_keys_def)

lemma accounts_publish_drop: "accounts A n (publish_drop sends notice)"
  unfolding accounts_def
proof (intro allI impI)
  fix s s' :: "('a, 'b) assembler"
  assume "publish_drop sends notice s = (s', Ok ())" "indexed s" "accounted A n s"
  with publish_drop_Ok [of sends notice s s'] show "indexed s' \<and> accounted A n s'"
    by (auto simp: accounted_def indexed_def)
qed

lemma accounts_sweep: "accounts A n (sweep_phase t)"
proof -
  let ?rest = "\<lambda>s. phases (map (\<lambda>leaked s. publish_drop (tn_sends t) \<lparr>dn_episode_index = leaked,
      dn_reason = ''staging_slot_leak'', dn_backpressure = True\<rparr> (s\<lparr>as_progress := True\<rparr>))
        (snd (sweep_stale_slots (tn_sweep_at t) (as_manager s))))"
  have q: "accounts A n (?rest s)" for s
    by (rule accounts_phases) (auto intro: accounts_comp [OF accounts_publish_drop])
  have eq: "sweep_phase t s = ?rest s (s\<lparr>as_manager := fst (sweep_stale_slots (tn_sweep_at t) (as_manager s))\<rparr>)" for s
    by (auto simp: sweep_phase_def split: prod.split)
  have "accounted A n (s\<lparr>as_manager := fst (sweep_stale_slots (tn_sweep_at t) (as_manager s))\<rparr>) = accounted A n s"
    "indexed (s\<lparr>as_manager := fst (sweep_stale_slots (tn_sweep_at t) (as_manager s))\<rparr>) = indexed s" for s
    by (simp_all add: accounted_def indexed_def sweep_stale_slots_def Let_def)
  then show ?thesis using q unfolding accounts_def eq by blast
qed

lemma drain_stage_events_state:
  "as_manager (fst (drain_stage_events sends es s)) = as_manager s
   \<and> as_sent (fst (drain_stage_events sends es s)) = as_sent s
   \<and> set (as_out s) \<subseteq> set (as_out (fst (drain_stage_events sends es s)))"
proof (induction es arbitrary: s)
  case (Cons e es)
  show ?case
  proof (cases e)
    case (Staged staged)
    let ?msg = "OutReady \<lparr>er_episode_index = se_episode_index staged, er_staging_dir = FixedString256_new (se_staging_dir staged)\<rparr>"
    show ?thesis
    proof (cases "sends ?msg")
      case (Inr u)
      then show ?thesis
        using Cons.IH [of "s\<lparr>as_out := as_out s @ [?msg], as_progress := True\<rparr>"] Staged by (simp add: publish_def)
    qed (simp add: Staged publish_def)
  qed (use Cons.IH in simp_all)
qed simp

lemma worker_take_out [simp]: "as_out (worker_take stage k s) = as_out s"
  by (induction stage k s rule: worker_take.induct) (auto split: list.splits stage_command.splits)

lemma accounts_worker: "accounts A n (\<lambda>s. let s' = worker_take stage k s in drain_stage_events sends (as_events s') s')"
proof (rule accounts_same_keys)
  fix s :: "('a, 'b) assembler"
  show "same_keys (as_manager s) (as_manager (fst (let s' = worker_take stage k s in drain_stage_events sends (as_events s') s')))
    \<and> set (as_sent s) \<subseteq> set (as_sent (fst (let s' = worker_take stage k s in drain_stage_events sends (as_events s') s')))
    \<and> set (as_out s) \<subseteq> set (as_out (fst (let s' = worker_take stage k s in drain_stage_events sends (as_events s') s')))"
    using drain_stage_events_state [of sends "as_events (worker_take stage k s)" "worker_take stage k s"]
    by (simp add: Let_def slots.worker_take_state)
qed

lemma accounts_shutdown: "accounts A n shutdown_phase"
  by (rule accounts_same_keys) (auto simp: shutdown_phase_def)

lemma accounts_wait: "accounts A n (wait_phase t)"
  by (rule accounts_same_keys) (simp add: wait_phase_def)

lemma accounts_turn:
  assumes "\<And>now. Ok (EpisodeDiscard n, now) \<notin> set (tn_controls t)"
  shows "accounts A n (asm_turn A t)"
proof -
  have "accounts A n (phases [asm_drain_control A (tn_controls t), asm_drain_packets A (tn_packets t),
      drain_observations (tn_observations t), drain_actions (tn_actions t), dispatch_phase A t, stored_phase t, sweep_phase t,
      \<lambda>s. let s' = worker_take (tn_stage t) (tn_worker_steps t) s in drain_stage_events (tn_sends t) (as_events s') s',
      shutdown_phase, wait_phase t])"
    by (rule accounts_phases)
      (use accounts_control [OF assms] in \<open>auto intro: accounts_packets accounts_observations accounts_dispatch accounts_stored
        accounts_sweep accounts_worker accounts_shutdown accounts_wait\<close>)
  then show ?thesis unfolding asm_turn_def by (rule accounts_comp) simp_all
qed

text \<open>As long as the loop runs and nobody discards it, a started episode is pending, staged or
  reported as dropped.\<close>

theorem loop_accounts:
  assumes "list_all (\<lambda>t. \<forall>now. Ok (EpisodeDiscard n, now) \<notin> set (tn_controls t)) ts"
    and "asm_loop A ts s = (s', Ok ())" and "indexed s" and "accounted A n s"
  shows "accounted A n s'"
proof -
  have "accounts A n (asm_loop A ts)"
    unfolding asm_loop_def by (rule accounts_phases) (use assms(1) in \<open>auto simp: list_all_iff intro: accounts_turn\<close>)
  then show ?thesis using assms(2-4) unfolding accounts_def by blast
qed

context assembler_program
begin

lemma loop_handed:
  "handed_ok A config (as_manager (fst (asm_loop A ts (assembler_init config)))) (as_sent (fst (asm_loop A ts (assembler_init config))))"
  by (rule handed.loop_keeps) (simp_all add: handed_ok_init handed.allowed_turn_def list_all_iff)

lemma pending_stays_accounted:
  assumes index: "\<And>e. index_of (ao_payload A e) = pd_episode_index e"
    and run: "asm_loop A (ts @ ts') (assembler_init config) = (s', Ok ())"
    and pending: "map_of (mg_episodes (as_manager (fst (asm_loop A ts (assembler_init config))))) n \<noteq> None"
    and quiet: "list_all (\<lambda>t. list_all (\<lambda>r. case r of Ok (event, now) \<Rightarrow> event \<noteq> EpisodeDiscard n | Err e \<Rightarrow> True) (tn_controls t)) ts'"
  shows "map_of (mg_episodes (as_manager s')) n \<noteq> None
    \<or> (\<exists>p. Stage p \<in> set (as_sent s') \<and> index_of p = n)
    \<or> (\<exists>r. OutDropped \<lparr>ed_episode_index = n, ed_reason = r\<rparr> \<in> set (as_out s'))"
proof -
  obtain s where split: "asm_loop A ts (assembler_init config) = (s, Ok ())" "asm_loop A ts' s = (s', Ok ())"
    using run by (auto simp: asm_loop_def dest!: phases_append_Ok)
  have "indexed s" using loop_handed [of config ts] split(1) unfolding indexed_def handed_ok_def episode_ok_def by auto
  moreover have "accounted A n s" using pending split(1) by (simp add: accounted_def)
  moreover have "list_all (\<lambda>t. \<forall>now. Ok (EpisodeDiscard n, now) \<notin> set (tn_controls t)) ts'"
    using quiet by (force simp: list_all_iff)
  ultimately have "accounted A n s'" using loop_accounts split(2) by blast
  then show ?thesis unfolding accounted_def by (metis index)
qed

end

section \<open>From complete streams to the staging worker\<close>

definition packets_of :: "string \<Rightarrow> (string \<times> packet) list \<Rightarrow> packet list" where
  "packets_of ch arrivals = map snd (filter (\<lambda>cq. fst cq = ch) arrivals)"

text \<open>The stream of one encoder session: packets numbered from zero, with a keyframe among them,
  and the end of stream.\<close>

definition whole_stream :: "u32 \<Rightarrow> packet list \<Rightarrow> bool" where
  "whole_stream n ps \<longleftrightarrow> (\<exists>pk h. ps = pk @ [(h, [])] \<and> numbered 0 ps \<and> gop pk \<noteq> [] \<and> eph_kind h = EndOfStream
     \<and> list_all (\<lambda>q. eph_kind (fst q) = Packet) pk \<and> list_all (\<lambda>q. eph_episode_index (fst q) = n) ps)"

locale buffered_program =
  stream_buffer "ao_fresh A" "ao_observe_packet A" "ao_observe_eos A" "ao_failed A" "ao_eos_received A" expects entry frames sound
  for A :: "('b, 'p) asm_ops" and expects :: "'b \<Rightarrow> u64 option" and entry :: "packet \<Rightarrow> 'm" and frames sound
begin

definition buffer_after :: "packet list \<Rightarrow> 'b" where
  "buffer_after ps = fold (observe_into A) ps (ao_fresh A)"

lemma buffer_after_packets:
  "list_all (\<lambda>q. eph_kind (fst q) = Packet) ps \<Longrightarrow> buffer_after ps = feed (ao_observe_packet A) ps (ao_fresh A)"
proof -
  have "fold (observe_into A) ps b = feed (ao_observe_packet A) ps b" if "list_all (\<lambda>q. eph_kind (fst q) = Packet) ps" for b
    using that by (induction ps arbitrary: b) (auto simp: observe_into_def)
  then show "list_all (\<lambda>q. eph_kind (fst q) = Packet) ps \<Longrightarrow> ?thesis" by (simp add: buffer_after_def)
qed

lemma whole_stream_buffer:
  assumes "whole_stream n ps"
  shows "ao_eos_received A (buffer_after ps) \<and> \<not> ao_failed A (buffer_after ps)
    \<and> frames (buffer_after ps) = map entry (gop (butlast ps))"
proof -
  from assms obtain pk h where ps: "ps = pk @ [(h, [])]" "numbered 0 ps" "gop pk \<noteq> []" "eph_kind h = EndOfStream"
    "list_all (\<lambda>q. eph_kind (fst q) = Packet) pk" by (auto simp: whole_stream_def)
  have "buffer_after ps = ao_observe_eos A h (feed (ao_observe_packet A) pk (ao_fresh A))"
    using buffer_after_packets [OF ps(5)] ps(1,4) by (simp add: buffer_after_def observe_into_def)
  moreover have "numbered 0 pk" "eph_sequence_number h = 0 + of_nat (length pk)"
    using ps(1,2) by (simp_all add: numbered_append)
  ultimately show ?thesis using numbered_stream_closed [OF _ ps(3)] ps(1) by simp
qed

text \<open>No buffer fails on the way.\<close>

lemma prefix_unfailed:
  assumes "whole_stream n (ps @ qs)"
  shows "\<not> ao_failed A (buffer_after ps)"
proof (cases "qs = []")
  case True
  then show ?thesis using whole_stream_buffer assms by simp
next
  case False
  from assms obtain pk h where st: "ps @ qs = pk @ [(h, [])]" "numbered 0 (ps @ qs)"
    "list_all (\<lambda>q. eph_kind (fst q) = Packet) pk" by (auto simp: whole_stream_def)
  then obtain rs where pk: "pk = ps @ rs" using False by (metis append_assoc butlast_append butlast_snoc)
  have "numbered 0 ps" using st(2) by (simp add: numbered_append)
  then show ?thesis using numbered_stream [of 0 ps] buffer_after_packets [of ps] st(3) pk by simp
qed

lemma episode_packet_fields [simp]:
  "pd_episode_index (episode_packet A ch q e) = pd_episode_index e"
  "pd_start_time_us (episode_packet A ch q e) = pd_start_time_us e"
  "pd_stop_time_us (episode_packet A ch q e) = pd_stop_time_us e"
  "pd_keep_requested (episode_packet A ch q e) = pd_keep_requested e"
  "pd_observation_samples (episode_packet A ch q e) = pd_observation_samples e"
  "pd_action_samples (episode_packet A ch q e) = pd_action_samples e"
  by (simp_all add: episode_packet_def Let_def split: option.split)

definition receive_all :: "(string \<times> packet) list \<Rightarrow> 'b pending_episode \<Rightarrow> 'b pending_episode" where
  "receive_all arrivals e = fold (\<lambda>(ch, q). episode_packet A ch q) arrivals e"

lemma receive_all_fields:
  "pd_episode_index (receive_all arrivals e) = pd_episode_index e"
  "pd_start_time_us (receive_all arrivals e) = pd_start_time_us e"
  "pd_observation_samples (receive_all arrivals e) = pd_observation_samples e"
  "pd_action_samples (receive_all arrivals e) = pd_action_samples e"
  unfolding receive_all_def by (induction arrivals arbitrary: e) auto

lemma receive_all_ok: "episode_ok A ids n e \<Longrightarrow> episode_ok A ids n (receive_all arrivals e)"
  unfolding receive_all_def by (induction arrivals arbitrary: e) (auto simp: episode_ok_packet)

text \<open>Whatever the interleaving of the cameras, each buffer has seen its own stream.\<close>

lemma receive_all_streams:
  assumes "list_all (\<lambda>ch. \<exists>qs. whole_stream n (packets_of ch arrivals @ qs)) ids"
  shows "(\<forall>ch \<in> set ids. map_of (pd_camera_streams (receive_all arrivals (PendingEpisode_new A n ts ids))) ch
            = Some (buffer_after (packets_of ch arrivals)))
    \<and> pd_failed_cameras (receive_all arrivals (PendingEpisode_new A n ts ids)) = []"
  using assms
proof (induction arrivals rule: rev_induct)
  case Nil
  then show ?case
    by (simp add: receive_all_def packets_of_def buffer_after_def PendingEpisode_new_def map_of_fresh_streams)
next
  case (snoc cq arrivals)
  obtain ch0 q where cq: "cq = (ch0, q)" by (cases cq)
  let ?e = "receive_all arrivals (PendingEpisode_new A n ts ids)"
  have step: "receive_all (arrivals @ [cq]) (PendingEpisode_new A n ts ids) = episode_packet A ch0 q ?e"
    by (simp add: receive_all_def cq)
  have own: "packets_of ch (arrivals @ [cq]) = packets_of ch arrivals @ (if ch = ch0 then [q] else [])" for ch
    by (simp add: packets_of_def cq)
  have pre: "list_all (\<lambda>ch. \<exists>qs. whole_stream n (packets_of ch arrivals @ qs)) ids"
    using snoc.prems unfolding list_all_iff own by (metis append_assoc)
  note ih = snoc.IH [OF pre]
  show ?case
  proof (cases "ch0 \<in> set ids")
    case True
    then have now: "map_of (pd_camera_streams ?e) ch0 = Some (buffer_after (packets_of ch0 arrivals))" using ih by blast
    have after: "observe_into A q (buffer_after (packets_of ch0 arrivals)) = buffer_after (packets_of ch0 (arrivals @ [cq]))"
      by (simp add: buffer_after_def own)
    have "\<not> ao_failed A (buffer_after (packets_of ch0 (arrivals @ [cq])))"
      using snoc.prems True prefix_unfailed unfolding list_all_iff by blast
    then show ?thesis using ih unfolding step
      by (auto simp: episode_packet_def now after Let_def map_of_bt_update own)
  next
    case False
    have "episode_ok A ids n ?e" by (rule receive_all_ok [OF episode_ok_new]) (rule fresh(3))
    then have "map_of (pd_camera_streams ?e) ch0 = None" using False by (auto simp: episode_ok_def set_bt_keys)
    then show ?thesis using ih False unfolding step by (auto simp: episode_packet_def own)
  qed
qed

lemma on_packets_episode:
  assumes "list_all (\<lambda>(ch, q). eph_episode_index (fst q) = n) arrivals"
  shows "fold (\<lambda>(ch, q). on_packet A ch q) arrivals m
     = m\<lparr>mg_episodes := bt_update n (receive_all arrivals) (mg_episodes m)\<rparr>"
  using assms
proof (induction arrivals arbitrary: m)
  case Nil
  have "bt_update n (\<lambda>e. e) es = es" for es :: "(u32, 'b pending_episode) btree_map"
    unfolding bt_update_def by (rule map_idI) auto
  then show ?case by (simp add: receive_all_def)
next
  case (Cons cq arrivals)
  obtain ch q where cq: "cq = (ch, q)" by (cases cq)
  have "bt_update n (receive_all arrivals) (bt_update n (episode_packet A ch q) es) = bt_update n (receive_all (cq # arrivals)) es"
    for es by (auto simp: bt_update_def receive_all_def cq)
  then show ?case using Cons by (simp add: cq on_packet_def)
qed

lemma single_episode: "bt_insert k v [] = [(k, v)]" "bt_update k f [(k, v)] = [(k, f v)]" "bt_remove k [(k, v)] = []"
  by (simp_all add: bt_update_def bt_remove_def)

text \<open>Start, the streams of all cameras in any interleaving, stop and keep: the episode goes to the
  worker with exactly the frames from the first keyframe of each camera on.\<close>

definition after_recording :: "u32 \<Rightarrow> u64 \<Rightarrow> u64 \<Rightarrow> u64 \<Rightarrow> u64 \<Rightarrow> (string \<times> packet) list \<Rightarrow> 'b episode_manager \<Rightarrow> 'b episode_manager" where
  "after_recording n start stop now1 now2 arrivals m =
     fst (on_control_event A (EpisodeKeep n) now2 (fst (on_control_event A (RecordingStop n stop) now1
       (fold (\<lambda>(ch, q). on_packet A ch q) arrivals (fst (on_control_event A (RecordingStart n start) now1 m))))))"

theorem recording_staged:
  assumes "mg_episodes m = []" and "length (mg_in_flight m) < mg_staging_slots m"
    and "mg_camera_channel_ids m = ids" and "map acam_channel_id (asm_cameras (mg_config m)) = ids" and "distinct ids"
    and "list_all (\<lambda>ch. whole_stream n (packets_of ch arrivals)) ids"
    and "list_all (\<lambda>(ch, q). eph_episode_index (fst q) = n) arrivals"
  shows "\<exists>e d. dispatch_ready_episodes A now clock True (after_recording n start stop now1 now2 arrivals m) = (d, Ok ())
    \<and> dp_commands d = [Stage (ao_payload A e)] \<and> dp_dropped d = [] \<and> mg_episodes (dp_manager d) = []
    \<and> pd_episode_index e = n \<and> pd_start_time_us e = start \<and> pd_stop_time_us e = Some stop
    \<and> pd_observation_samples e = [] \<and> pd_action_samples e = []
    \<and> (\<forall>ch \<in> set ids. \<exists>b. map_of (pd_camera_streams e) ch = Some b
          \<and> frames b = map entry (gop (butlast (packets_of ch arrivals))))"
proof -
  let ?new = "PendingEpisode_new A n start ids"
  let ?got = "receive_all arrivals ?new"
  let ?e = "?got\<lparr>pd_stop_time_us := Some stop, pd_ready_wait_started_us := Some now1,
      pd_keep_requested := True, pd_ready_wait_started_us := Some now1\<rparr>"
  let ?m = "after_recording n start stop now1 now2 arrivals m"
  have mgr: "mg_episodes ?m = [(n, ?e)]" "mg_config ?m = mg_config m" "mg_in_flight ?m = mg_in_flight m"
    "mg_staging_slots ?m = mg_staging_slots m"
    by (simp_all add: after_recording_def on_packets_episode [OF assms(7)] manager_defs single_episode assms(1,3))
  have ok: "episode_ok A ids n ?got" by (rule receive_all_ok [OF episode_ok_new]) (rule fresh(3))
  have "list_all (\<lambda>ch. \<exists>qs. whole_stream n (packets_of ch arrivals @ qs)) ids"
    using assms(6) unfolding list_all_iff by (metis append_Nil2)
  note got = receive_all_streams [OF this, of start]
  have streams: "map_of (pd_camera_streams ?got) ch = Some (buffer_after (packets_of ch arrivals))" if "ch \<in> set ids" for ch
    using got that by blast
  have failed: "pd_failed_cameras ?got = []" using got by blast
  have ended: "ao_eos_received A b" if "(ch, b) \<in> set (pd_camera_streams ?got)" for ch b
  proof -
    have "bt_inv (pd_camera_streams ?got)" "ch \<in> set ids"
      using ok that by (auto simp: episode_ok_def set_bt_keys dest: weak_map_of_SomeI)
    then show ?thesis using that streams whole_stream_buffer assms(6) by (auto simp: bt_mem_iff list_all_iff)
  qed
  then have "filter (\<lambda>(ch, s). ao_eos_received A s) (pd_camera_streams ?got) = pd_camera_streams ?got"
    by (auto simp: filter_id_conv)
  moreover have "length (pd_camera_streams ?got) = length ids"
    using ok bt.card_dom [of "pd_camera_streams ?got"] distinct_card [OF assms(5)]
    by (simp add: episode_ok_def set_bt_keys [symmetric] bt_keys_def)
  moreover have "length (asm_cameras (mg_config m)) = length ids" using assms(4) by (metis length_map)
  ultimately have fin: "complete_episode A (length (asm_cameras (mg_config m))) ?e"
    by (simp add: complete_episode_def all_cameras_eos_def failed)
  then have v: "verdict_of A now ?m ?e = EpisodeReadyToStage" by (simp add: verdict_ready mgr)
  have disp: "dispatch_ready_episodes A now clock True ?m
     = (stage_one A (clock n) n ?e \<lparr>dp_manager = ?m, dp_commands = [], dp_changed = False, dp_dropped = []\<rparr>, Ok ())"
    using assms(2) v
    by (simp add: dispatch_ready_episodes_def ready_failed_and_timed_out_def with_verdict_def mgr stage_ready_Cons
        del: stage_ready.simps(2))
  show ?thesis
  proof (rule exI [of _ ?e], rule exI, intro conjI ballI)
    show "dispatch_ready_episodes A now clock True ?m
      = (stage_one A (clock n) n ?e \<lparr>dp_manager = ?m, dp_commands = [], dp_changed = False, dp_dropped = []\<rparr>, Ok ())"
      by (rule disp)
    fix ch
    assume "ch \<in> set ids"
    then show "\<exists>b. map_of (pd_camera_streams ?e) ch = Some b \<and> frames b = map entry (gop (butlast (packets_of ch arrivals)))"
      using streams whole_stream_buffer assms(6) by (auto simp: list_all_iff)
  qed (simp_all add: stage_one_def mgr single_episode receive_all_fields PendingEpisode_new_def)
qed

end

interpretation lerobot_streams: buffered_program lerobot_ops rsb_expects "\<lambda>q. q" rsb_packets rsb_sound
  unfolding buffered_program_def lerobot_ops_def asm_ops.select_convs by (rule rsb.stream_buffer_axioms)

interpretation mcap_streams: buffered_program mcap_ops csb_expects camera_packet_of csb_packets csb_sound
  unfolding buffered_program_def mcap_ops_def asm_ops.select_convs by (rule csb.stream_buffer_axioms)

end
