(* ===== verification/Sample_Recording.thy ===== *)
theory Sample_Recording
  imports Recording_Runtime Assembler_Delivery
begin

text \<open>
  A depth camera with one RVL session and an assembler that records it: concrete inputs for the
  witnesses. The codecs are stand-ins: the depth codec stores the pixel count, the video encoder
  is the list of packets it still has to give out.
\<close>

definition sample_av :: "(av_packet list, unit, unit) av_ops" where
  "sample_av = \<lparr>av_open = (\<lambda>plan params. Ok ([], False)), av_decode_mjpeg = (\<lambda>p d. (d, Err (EncodePanic ''mjpeg''))),
     av_new_frame = (\<lambda>px w h. (0, [])), av_scaler = (\<lambda>a b c d e f. Ok ()), av_scaler_range = (\<lambda>s a b. Ok s),
     av_scale = (\<lambda>s f. Ok (s, f)), av_upload = (\<lambda>f px. Ok f), av_send = (\<lambda>e f. Ok e), av_send_eof = (\<lambda>e. Ok e),
     av_receive = (\<lambda>e. case e of [] \<Rightarrow> None | p # e' \<Rightarrow> Some (p, e'))\<rparr>"

definition sample_hw :: "(unit, unit, unit, av_packet list) hw_ops" where
  "sample_hw = \<lparr>hw_device = (\<lambda>b. Ok ()), hw_decoder = Ok (), hw_cuvid = (\<lambda>n w h. Ok ()), hw_decode_send = (\<lambda>x p. Ok x),
     hw_decode_receive = (\<lambda>x. None), hw_bsf_new = Ok (), hw_bsf_filter = (\<lambda>b p. Ok (b, p)), hw_has_frames = (\<lambda>f. False),
     hw_graph = (\<lambda>a b c r. Ok ()), hw_graph_send = (\<lambda>g f. Ok g), hw_graph_receive = (\<lambda>g. Ok None),
     hw_open = (\<lambda>c g. Ok [])\<rparr>"

definition sample_host :: av_host where
  "sample_host = \<lparr>h_nvidiactl = False, h_nvidia_version = False, h_dri = None, h_card0 = False,
     h_encoder = (\<lambda>n. n = ''libx264''), h_decoder = (\<lambda>n. False), h_formats = (\<lambda>n. None),
     h_ffmpeg_5_0 = False, h_ffmpeg_5_1 = False\<rparr>"

definition sample_world :: "(unit, av_packet list, unit, unit, unit, unit, unit) encoder_world" where
  "sample_world = \<lparr>w_init = Ok (), w_host = sample_host,
     w_depth = \<lparr>depth_rvl = (\<lambda>n. ()), depth_encode = (\<lambda>d px. (d, Ok (True, [of_nat (length px)])))\<rparr>,
     w_av = sample_av, w_hw = sample_hw, w_bus = (\<lambda>out q. None)\<rparr>"

definition sample_recording :: recording_encoder_config where
  "sample_recording = \<lparr>re_codec = Rvl, re_backend = BackendCpu, re_queue_size = 4, re_fps = 30,
     re_packet_topic = ''camera0/depth/recording-packets'', re_chroma_subsampling = ChromaSubsampling_default,
     re_crf = None, re_preset = None, re_tune = None, re_bit_depth = 8, re_color_space = EncoderColorSpace_default\<rparr>"

definition sample_params :: codec_session_params where
  "sample_params = CodecSessionParams_from_recording sample_recording ''encoder.cam.depth'' 3 1000 1 1"

definition sample_frame :: owned_frame where
  "sample_frame = \<lparr>of_header = \<lparr>cfh_timestamp_us = 2000, cfh_width = 1, cfh_height = 1,
     cfh_pixel_format = Px_Depth16, cfh_frame_index = 0\<rparr>, of_payload = [1, 2]\<rparr>"

definition sample_session :: "(unit, av_packet list, unit, unit, unit, unit, unit) codec_session" where
  "sample_session = RvlSession \<lparr>rs_width = 1, rs_height = 1, rs_fps = 30, rs_episode_index = 3,
     rs_recording_start_us = 1000, rs_encoder = (), rs_next_sequence = 0, rs_metrics = EncodeMetrics_default\<rparr>"

definition sample_packets :: "packet list" where
  "sample_packets =
     (case whole_session (session_encode sample_world) (session_finish sample_world) [sample_frame] sample_session [] of
        Some (out, _) \<Rightarrow> out | None \<Rightarrow> [])"

lemma sample_session_opened: "open_session sample_world sample_params sample_frame = Ok sample_session"
  by (simp add: open_session_def sample_params_def sample_recording_def CodecSessionParams_from_recording_def
      sample_frame_def bind_ok_def depth_registry_open_def RvlBackend_def require_def RvlCodecSession_new_def
      sample_session_def sample_world_def Let_def)

lemmas sample_defs = sample_session_def sample_world_def sample_frame_def rvl_encode_def rvl_finish_def Let_def
  ensure_frame_compatibility_def reject_def depth16_payload_to_vec_def le_chunks.simps from_le_def write_packet_def
  write_eos_def publish_packet_def published_def rewrap_def whole_session_def eos_header_def

lemma sample_session_result:
  "\<exists>h h' p. whole_session (session_encode sample_world) (session_finish sample_world) [sample_frame] sample_session []
     = Some ([(h, p), (h', [])], Ok ()) \<and> is_keyframe h"
  by (simp add: sample_defs is_keyframe_def set_keyframe_def ENCODED_PACKET_FLAG_KEYFRAME_def)

lemma sample_session_runs:
  "whole_session (session_encode sample_world) (session_finish sample_world) [sample_frame] sample_session []
     = Some (sample_packets, Ok ())"
  using sample_session_result by (auto simp: sample_packets_def)

lemma sample_packets_keyframe: "gop (butlast sample_packets) \<noteq> []"
  using sample_session_result by (auto simp: sample_packets_def gop_def)

definition sample_asm_config :: assembler_runtime_config_v2 where
  "sample_asm_config = \<lparr>asm_process_id = ''assembler'', asm_format = LeRobotV2_1, asm_fps = 30, asm_chunk_size = 1000,
     asm_missing_eos_timeout_ms = 5000, asm_staging_dir = ''/staging'', asm_staging_slots = 1,
     asm_cameras = [\<lparr>acam_channel_id = ''cam/depth'', acam_width = 1, acam_height = 1, acam_fps = 30,
       acam_pixel_format = Px_Depth16, acam_codec = Rvl, acam_recording_packet_topic = ''camera0/depth/recording-packets''\<rparr>],
     asm_observations = [], asm_actions = [], asm_embedded_config_toml = ''[episode]''\<rparr>"

definition sample_turn :: "'p asm_turn" where
  "sample_turn = \<lparr>tn_controls = [Ok (RecordingStart 3 1000, 0), Ok (RecordingStop 3 2000, 1)], tn_packets = [],
     tn_observations = [], tn_actions = [], tn_now_us = 10, tn_clock = (\<lambda>n. 0), tn_sends = (\<lambda>msg. Ok ()),
     tn_stored = [], tn_sweep_at = 0, tn_stage = (\<lambda>p. Err ''disk full''), tn_worker_steps = 1, tn_interrupted = False\<rparr>"

end
