(* ===== verification/File_System.thy ===== *)
theory File_System
  imports Annexb "HOL-Library.AList" "HOL-Library.Sublist"
begin

text \<open>
  The part of \<open>std::fs\<close> and \<open>std::path\<close> the staging, storage and resume code is written with. A
  file system is a finite table of absolute paths, in the order in which directories list them.
  An operation is a function of the file system that returns the new one beside its result, so
  that what an operation did before it failed is visible. The operating system is an argument:
  the working directory, the device each path lives on, and the operations it refuses.
\<close>

section \<open>Paths\<close>

text \<open>A path as the code writes it is a string; resolved, it is the list of its components.\<close>

type_synonym path = "string list"

fun split_slash :: "string \<Rightarrow> string list" where
  "split_slash [] = [[]]"
| "split_slash (c # s) =
     (if c = CHR ''/'' then [] # split_slash s
      else case split_slash s of w # ws \<Rightarrow> (c # w) # ws | [] \<Rightarrow> [[c]])"

text \<open>\<open>Path::components\<close>: repeated separators and \<open>.\<close> are dropped.\<close>

definition components :: "string \<Rightarrow> path" where
  "components s = filter (\<lambda>w. w \<noteq> [] \<and> w \<noteq> ''.'') (split_slash s)"

definition is_absolute :: "string \<Rightarrow> bool" where
  "is_absolute s = (case s of c # _ \<Rightarrow> c = CHR ''/'' | [] \<Rightarrow> False)"

text \<open>\<open>Path::join\<close> on strings: an absolute argument replaces the base.\<close>

definition join_path :: "string \<Rightarrow> string \<Rightarrow> string" where
  "join_path a b =
     (if is_absolute b then b else if a = [] \<or> last a = CHR ''/'' then a @ b else a @ ''/'' @ b)"

text \<open>A relative path below an already resolved one.\<close>

definition below :: "path \<Rightarrow> string \<Rightarrow> path" where
  "below p s = p @ components s"

lemma split_slash_not_Nil [simp]: "split_slash s \<noteq> []"
  by (induction s) (auto split: list.splits)

lemma split_slash_append:
  "split_slash (a @ CHR ''/'' # b) = split_slash a @ split_slash b"
  by (induction a) (auto split: list.splits)

lemma components_slash: "components (a @ CHR ''/'' # b) = components a @ components b"
  by (simp add: components_def split_slash_append)

lemma components_join_path:
  assumes "\<not> is_absolute b"
  shows "components (join_path a b) = components a @ components b"
proof (cases "a = [] \<or> last a \<noteq> CHR ''/''")
  case True
  then show ?thesis
    using assms components_slash [of a b] by (auto simp: join_path_def components_def)
next
  case False
  then obtain a' where a: "a = a' @ [CHR ''/'']" by (metis append_butlast_last_id)
  have "components (a' @ [CHR ''/'']) = components a'"
    using components_slash [of a' "[]"] by (simp add: components_def)
  then show ?thesis
    using assms components_slash [of a' b] by (simp add: join_path_def a)
qed

lemma split_slash_single: "CHR ''/'' \<notin> set s \<Longrightarrow> split_slash s = [s]"
  by (induction s) auto

lemma components_single: "CHR ''/'' \<notin> set s \<Longrightarrow> s \<noteq> [] \<Longrightarrow> s \<noteq> ''.'' \<Longrightarrow> components s = [s]"
  by (simp add: components_def split_slash_single)

section \<open>The file system\<close>

datatype entry = Directory | RegularFile (contents: bytes)

type_synonym fs = "(path \<times> entry) list"

datatype io_error =
    NotFound | AlreadyExists | NotADirectory | IsADirectory | DirectoryNotEmpty | CrossesDevices
  | InvalidInput | UnexpectedEof | OutOfFuel | Panicked | Refused string | Message string

datatype io_op = OpCreateDir | OpReadDir | OpRename | OpCopy | OpRemoveFile | OpRemoveTree | OpRead | OpWrite

record io_host =
  io_cwd :: path
  io_device :: "path \<Rightarrow> nat"
  io_refuses :: "io_op \<Rightarrow> path \<Rightarrow> io_error option"

type_synonym 'a io = "fs \<Rightarrow> fs \<times> ('a, io_error) result"

definition resolve :: "io_host \<Rightarrow> string \<Rightarrow> path" where
  "resolve h s = (if is_absolute s then components s else io_cwd h @ components s)"

definition look :: "fs \<Rightarrow> path \<Rightarrow> entry option" where
  "look fs p = (if p = [] then Some Directory else map_of fs p)"

text \<open>The contents of a regular file.\<close>

definition file_at :: "fs \<Rightarrow> path \<Rightarrow> bytes option" where
  "file_at fs p = (case look fs p of Some (RegularFile c) \<Rightarrow> Some c | _ \<Rightarrow> None)"

lemma file_at_iff: "file_at fs p = Some c \<longleftrightarrow> look fs p = Some (RegularFile c)"
  by (auto simp: file_at_def split: option.splits entry.splits)

definition path_exists :: "fs \<Rightarrow> path \<Rightarrow> bool" where
  "path_exists fs p \<longleftrightarrow> look fs p \<noteq> None"

definition is_dir :: "fs \<Rightarrow> path \<Rightarrow> bool" where
  "is_dir fs p \<longleftrightarrow> look fs p = Some Directory"

definition is_file :: "fs \<Rightarrow> path \<Rightarrow> bool" where
  "is_file fs p \<longleftrightarrow> file_at fs p \<noteq> None"

text \<open>The directory an entry sits in exists.\<close>

definition wf_fs :: "fs \<Rightarrow> bool" where
  "wf_fs fs \<longleftrightarrow> (\<forall>q. look fs q \<noteq> None \<longrightarrow> look fs (butlast q) = Some Directory)"

section \<open>Sequencing\<close>

definition io_return :: "'a \<Rightarrow> 'a io" where
  "io_return a = (\<lambda>fs. (fs, Ok a))"

definition io_fail :: "io_error \<Rightarrow> 'a io" where
  "io_fail e = (\<lambda>fs. (fs, Err e))"

text \<open>A call followed by \<open>?\<close>.\<close>

definition io_bind :: "'a io \<Rightarrow> ('a \<Rightarrow> 'b io) \<Rightarrow> 'b io" where
  "io_bind m f = (\<lambda>fs. case m fs of (fs', r) \<Rightarrow> (case r of Err e \<Rightarrow> (fs', Err e) | Ok a \<Rightarrow> f a fs'))"

definition io_then :: "'a io \<Rightarrow> 'b io \<Rightarrow> 'b io" where
  "io_then m n = io_bind m (\<lambda>_. n)"

text \<open>A call followed by \<open>.ok()\<close>: its error is dropped, its effect is not.\<close>

definition io_ignore :: "'a io \<Rightarrow> unit io" where
  "io_ignore m = (\<lambda>fs. (fst (m fs), Ok ()))"

definition io_when :: "(fs \<Rightarrow> bool) \<Rightarrow> unit io \<Rightarrow> unit io" where
  "io_when b m = (\<lambda>fs. if b fs then m fs else (fs, Ok ()))"

definition io_lift :: "('a, io_error) result \<Rightarrow> 'a io" where
  "io_lift r = (\<lambda>fs. (fs, r))"

fun io_each :: "('a \<Rightarrow> unit io) \<Rightarrow> 'a list \<Rightarrow> unit io" where
  "io_each f [] = io_return ()"
| "io_each f (x # xs) = io_then (f x) (io_each f xs)"

section \<open>Operations\<close>

definition permitted :: "io_host \<Rightarrow> io_op \<Rightarrow> path \<Rightarrow> 'a io \<Rightarrow> 'a io" where
  "permitted h op p m = (case io_refuses h op p of Some e \<Rightarrow> io_fail e | None \<Rightarrow> m)"

definition mkdir :: "io_host \<Rightarrow> path \<Rightarrow> unit io" where
  "mkdir h p = permitted h OpCreateDir p (\<lambda>fs. (AList.update p Directory fs, Ok ()))"

function create_dir_all :: "io_host \<Rightarrow> path \<Rightarrow> unit io" where
  "create_dir_all h p fs =
     (case look fs p of
        Some Directory \<Rightarrow> (fs, Ok ())
      | Some (RegularFile _) \<Rightarrow> (fs, Err AlreadyExists)
      | None \<Rightarrow>
          if p = [] then (fs, Ok ())
          else (case create_dir_all h (butlast p) fs of
              (fs', Err e) \<Rightarrow> (fs', Err e)
            | (fs', Ok _) \<Rightarrow> mkdir h p fs'))"
  by pat_completeness auto
termination
  by (relation "measure (\<lambda>(h, p, fs). length p)") auto

declare create_dir_all.simps [simp del]

definition children :: "fs \<Rightarrow> path \<Rightarrow> (string \<times> entry) list" where
  "children fs p = map (\<lambda>(q, e). (last q, e)) (filter (\<lambda>(q, e). q \<noteq> [] \<and> butlast q = p) fs)"

definition read_dir :: "io_host \<Rightarrow> path \<Rightarrow> (string \<times> entry) list io" where
  "read_dir h p = permitted h OpReadDir p (\<lambda>fs. (fs, case look fs p of
       None \<Rightarrow> Err NotFound | Some (RegularFile _) \<Rightarrow> Err NotADirectory | Some Directory \<Rightarrow> Ok (children fs p)))"

text \<open>The tree at \<open>s\<close> takes the place of whatever is at \<open>d\<close>.\<close>

definition relocate :: "path \<Rightarrow> path \<Rightarrow> fs \<Rightarrow> fs" where
  "relocate s d fs =
     map (\<lambda>(q, e). (if prefix s q then d @ drop (length s) q else q, e)) (filter (\<lambda>(q, e). \<not> prefix d q) fs)"

definition rename :: "io_host \<Rightarrow> path \<Rightarrow> path \<Rightarrow> unit io" where
  "rename h s d = permitted h OpRename s (\<lambda>fs.
     case look fs s of
       None \<Rightarrow> (fs, Err NotFound)
     | Some e \<Rightarrow>
         if s = d then (fs, Ok ())
         else if io_device h s \<noteq> io_device h d then (fs, Err CrossesDevices)
         else if d = [] \<or> look fs (butlast d) \<noteq> Some Directory then (fs, Err NotFound)
         else if prefix s d then (fs, Err InvalidInput)
         else (case look fs d of
             None \<Rightarrow> (relocate s d fs, Ok ())
           | Some (RegularFile _) \<Rightarrow> if e = Directory then (fs, Err NotADirectory) else (relocate s d fs, Ok ())
           | Some Directory \<Rightarrow>
               if e \<noteq> Directory then (fs, Err IsADirectory)
               else if children fs d \<noteq> [] then (fs, Err DirectoryNotEmpty)
               else (relocate s d fs, Ok ())))"

definition write_contents :: "path \<Rightarrow> bytes \<Rightarrow> unit io" where
  "write_contents p c = (\<lambda>fs.
     if p = [] \<or> look fs p = Some Directory then (fs, Err IsADirectory)
     else if look fs (butlast p) \<noteq> Some Directory then (fs, Err NotFound)
     else (AList.update p (RegularFile c) fs, Ok ()))"

definition read_file :: "io_host \<Rightarrow> path \<Rightarrow> bytes io" where
  "read_file h p = permitted h OpRead p (\<lambda>fs. (fs, case look fs p of
       None \<Rightarrow> Err NotFound | Some Directory \<Rightarrow> Err IsADirectory | Some (RegularFile c) \<Rightarrow> Ok c))"

text \<open>\<open>fs::write\<close>, and \<open>File::create\<close> with everything then written to it.\<close>

definition write_file :: "io_host \<Rightarrow> path \<Rightarrow> bytes \<Rightarrow> unit io" where
  "write_file h p c = permitted h OpWrite p (write_contents p c)"

text \<open>\<open>File::options().create(true).append(true).open(p)\<close> and one \<open>write_all\<close>.\<close>

definition append_file :: "io_host \<Rightarrow> path \<Rightarrow> bytes \<Rightarrow> unit io" where
  "append_file h p c = permitted h OpWrite p (\<lambda>fs.
     write_contents p ((case file_at fs p of Some old \<Rightarrow> old | None \<Rightarrow> []) @ c) fs)"

definition copy_file :: "io_host \<Rightarrow> path \<Rightarrow> path \<Rightarrow> unit io" where
  "copy_file h s d = permitted h OpCopy d (\<lambda>fs.
     case look fs s of
       None \<Rightarrow> (fs, Err NotFound)
     | Some Directory \<Rightarrow> (fs, Err InvalidInput)
     | Some (RegularFile c) \<Rightarrow> write_contents d c fs)"

definition remove_file :: "io_host \<Rightarrow> path \<Rightarrow> unit io" where
  "remove_file h p = permitted h OpRemoveFile p (\<lambda>fs.
     case look fs p of
       None \<Rightarrow> (fs, Err NotFound)
     | Some Directory \<Rightarrow> (fs, Err IsADirectory)
     | Some (RegularFile _) \<Rightarrow> (AList.delete p fs, Ok ()))"

definition remove_dir_all :: "io_host \<Rightarrow> path \<Rightarrow> unit io" where
  "remove_dir_all h p = permitted h OpRemoveTree p (\<lambda>fs.
     case look fs p of
       None \<Rightarrow> (fs, Err NotFound)
     | Some (RegularFile _) \<Rightarrow> (fs, Err NotADirectory)
     | Some Directory \<Rightarrow> (filter (\<lambda>(q, e). \<not> prefix p q) fs, Ok ()))"


section \<open>What the operations do\<close>

lemma look_Nil [simp]: "look fs [] = Some Directory"
  by (simp add: look_def)

lemma file_at_Nil [simp]: "file_at fs [] = None"
  by (simp add: file_at_def)

lemma look_update: "p \<noteq> [] \<Longrightarrow> look (AList.update p e fs) q = (if q = p then Some e else look fs q)"
  by (simp add: look_def update_conv')

lemma look_delete: "p \<noteq> [] \<Longrightarrow> look (AList.delete p fs) q = (if q = p then None else look fs q)"
  by (simp add: look_def delete_conv')

lemma map_of_filter_key: "map_of (filter (\<lambda>(q, e). P q) fs) q = (if P q then map_of fs q else None)"
  by (induction fs) auto

lemma look_remove_tree:
  "look (filter (\<lambda>(q, e). \<not> prefix p q) fs) q = (if prefix p q \<and> q \<noteq> [] then None else look fs q)"
  by (simp add: look_def map_of_filter_key)

lemma drop_prefix: "prefix s q \<Longrightarrow> s @ drop (length s) q = q"
  by (auto simp: prefix_def)

lemma map_of_relocate_list:
  assumes "\<not> prefix s d" and "\<not> prefix d s" and "\<forall>(q, e) \<in> set fs. \<not> prefix d q"
  shows "map_of (map (\<lambda>(q, e). (if prefix s q then d @ drop (length s) q else q, e)) fs) q =
    (if prefix d q then (case map_of fs (s @ drop (length d) q) of Some e \<Rightarrow> Some e | None \<Rightarrow> map_of fs q)
     else if prefix s q then None else map_of fs q)"
  using assms(3)
proof (induction fs)
  case Nil
  show ?case by simp
next
  case (Cons x fs)
  obtain p e where x: "x = (p, e)" by (cases x)
  have pd: "\<not> prefix d p" and rest: "\<forall>(q, e) \<in> set fs. \<not> prefix d q" using Cons.prems by (auto simp: x)
  have none: "map_of fs r = None" if "prefix d r" for r
    using rest that by (induction fs) auto
  have moved: "d @ drop (length s) p = q \<longleftrightarrow> prefix d q \<and> p = s @ drop (length d) q" if "prefix s p"
    using that by (auto simp: prefix_def)
  have "prefix s p" if "p = s @ drop (length d) q" using that by simp
  then show ?case
    using Cons.IH [OF rest] pd none moved assms(1,2) by (auto simp: x split: option.splits)
qed

lemma look_relocate:
  assumes "\<not> prefix s d" and "\<not> prefix d s"
  shows "look (relocate s d fs) q =
    (if prefix d q then look fs (s @ drop (length d) q) else if prefix s q then None else look fs q)"
proof -
  have "\<forall>(q, e) \<in> set (filter (\<lambda>(q, e). \<not> prefix d q) fs). \<not> prefix d q" by auto
  note m = map_of_relocate_list [OF assms this, of q]
  have "s \<noteq> []" "d \<noteq> []" using assms by auto
  moreover have "\<not> prefix d (s @ drop (length d) q)" if "prefix d q"
    using assms by (metis prefix_append prefix_same_cases prefixI)
  ultimately show ?thesis
    unfolding look_def relocate_def m by (auto simp: map_of_filter_key split: option.splits)
qed

text \<open>What is above a path is not below it.\<close>

lemma prefix_butlast: "prefix p (butlast q) \<Longrightarrow> prefix p q"
  by (metis prefix_order.order_trans prefixeq_butlast)

lemma prefix_butlast_iff: "q \<noteq> p \<Longrightarrow> prefix p (butlast q) \<longleftrightarrow> prefix p q"
  by (metis prefix_butlast prefix_snoc append_butlast_last_id butlast.simps(1))

text \<open>Every operation either leaves the file system alone or does one of five things.\<close>

lemma mkdir_cases: "mkdir h p fs = (fs', r) \<Longrightarrow> fs' = fs \<and> \<not> is_ok r \<or> fs' = AList.update p Directory fs \<and> r = Ok ()"
  by (auto simp: mkdir_def permitted_def io_fail_def split: option.splits)

lemma write_contents_cases:
  "write_contents p c fs = (fs', r) \<Longrightarrow> fs' = fs \<and> \<not> is_ok r
     \<or> p \<noteq> [] \<and> look fs p \<noteq> Some Directory \<and> look fs (butlast p) = Some Directory
       \<and> fs' = AList.update p (RegularFile c) fs \<and> r = Ok ()"
  by (auto simp: write_contents_def split: if_splits)

lemma write_file_cases:
  "write_file h p c fs = (fs', r) \<Longrightarrow> fs' = fs \<and> \<not> is_ok r
     \<or> p \<noteq> [] \<and> look fs p \<noteq> Some Directory \<and> look fs (butlast p) = Some Directory
       \<and> fs' = AList.update p (RegularFile c) fs \<and> r = Ok ()"
  using write_contents_cases by (auto simp: write_file_def permitted_def io_fail_def split: option.splits)

lemma append_file_cases:
  "append_file h p c fs = (fs', r) \<Longrightarrow> fs' = fs \<and> \<not> is_ok r
     \<or> p \<noteq> [] \<and> look fs p \<noteq> Some Directory \<and> look fs (butlast p) = Some Directory
       \<and> fs' = AList.update p (RegularFile ((case file_at fs p of Some old \<Rightarrow> old | None \<Rightarrow> []) @ c)) fs \<and> r = Ok ()"
  by (auto simp: append_file_def permitted_def io_fail_def dest: write_contents_cases split: option.splits)

lemma copy_file_cases:
  "copy_file h s d fs = (fs', r) \<Longrightarrow> fs' = fs \<and> \<not> is_ok r
     \<or> (\<exists>c. look fs s = Some (RegularFile c) \<and> d \<noteq> [] \<and> look fs d \<noteq> Some Directory
         \<and> look fs (butlast d) = Some Directory \<and> fs' = AList.update d (RegularFile c) fs \<and> r = Ok ())"
  by (auto simp: copy_file_def permitted_def io_fail_def dest: write_contents_cases split: option.splits entry.splits)

lemma remove_file_cases:
  "remove_file h p fs = (fs', r) \<Longrightarrow> fs' = fs \<and> \<not> is_ok r
     \<or> (\<exists>c. look fs p = Some (RegularFile c)) \<and> p \<noteq> [] \<and> fs' = AList.delete p fs \<and> r = Ok ()"
  by (auto simp: remove_file_def permitted_def io_fail_def split: option.splits entry.splits)

lemma remove_dir_all_cases:
  "remove_dir_all h p fs = (fs', r) \<Longrightarrow> fs' = fs \<and> \<not> is_ok r
     \<or> look fs p = Some Directory \<and> fs' = filter (\<lambda>(q, e). \<not> prefix p q) fs \<and> r = Ok ()"
  by (auto simp: remove_dir_all_def permitted_def io_fail_def split: option.splits entry.splits)

lemma children_iff: "(n, e) \<in> set (children fs p) \<longleftrightarrow> (p @ [n], e) \<in> set fs"
proof
  assume "(p @ [n], e) \<in> set fs"
  then have "(p @ [n], e) \<in> set (filter (\<lambda>(q, e). q \<noteq> [] \<and> butlast q = p) fs)" by simp
  then have "(\<lambda>(q, e). (last q, e)) (p @ [n], e) \<in> set (children fs p)" unfolding children_def set_map by (rule imageI)
  then show "(n, e) \<in> set (children fs p)" by simp
qed (auto simp: children_def)

lemma look_child: "look fs (p @ [n]) \<noteq> None \<Longrightarrow> \<exists>e. (n, e) \<in> set (children fs p)"
  unfolding children_iff by (auto simp: look_def dest: map_of_SomeD)

lemma rename_cases:
  assumes "rename h s d fs = (fs', r)" and "s \<noteq> d"
  shows "fs' = fs \<and> \<not> is_ok r
    \<or> fs' = relocate s d fs \<and> r = Ok () \<and> look fs s \<noteq> None \<and> look fs (butlast d) = Some Directory
      \<and> \<not> prefix s d \<and> d \<noteq> [] \<and> (look fs d = Some Directory \<longrightarrow> children fs d = [])
      \<and> (look fs s = Some Directory \<longrightarrow> file_at fs d = None)"
  using assms
  by (auto simp: rename_def permitted_def io_fail_def file_at_def split: option.splits entry.splits if_splits)

lemma create_dir_all_effect:
  assumes "create_dir_all h p fs = (fs', r)"
  shows "(\<forall>q. look fs' q = look fs q \<or> look fs q = None \<and> look fs' q = Some Directory \<and> prefix q p)
    \<and> (is_ok r \<longrightarrow> look fs' p = Some Directory)
    \<and> (wf_fs fs \<longrightarrow> wf_fs fs')"
  using assms
proof (induction h p fs arbitrary: fs' r rule: create_dir_all.induct)
  case (1 h p fs)
  show ?case
  proof (cases "look fs p")
    case (Some e)
    with 1 show ?thesis by (cases e) (auto simp: create_dir_all.simps [of h p fs])
  next
    case None
    then have p: "p \<noteq> []" by auto
    obtain fs1 r1 where rec: "create_dir_all h (butlast p) fs = (fs1, r1)" by fastforce
    from "1.IH" [OF None p rec]
    have ih: "\<forall>q. look fs1 q = look fs q \<or> look fs q = None \<and> look fs1 q = Some Directory \<and> prefix q (butlast p)"
      "is_ok r1 \<longrightarrow> look fs1 (butlast p) = Some Directory" "wf_fs fs \<longrightarrow> wf_fs fs1" by auto
    have up: "prefix q p" if "prefix q (butlast p)" for q using that by (rule prefix_butlast)
    show ?thesis
    proof (cases r1)
      case (Inl e)
      then show ?thesis using "1.prems" None p rec ih up by (auto simp: create_dir_all.simps [of h p fs])
    next
      case (Inr a)
      then have mk: "mkdir h p fs1 = (fs', r)" using "1.prems" None p rec by (auto simp: create_dir_all.simps [of h p fs])
      have p1: "look fs1 p = None" using ih(1) None p
        by (metis append_butlast_last_id not_Cons_self2 prefix_order.antisym prefixeq_butlast self_append_conv)
      from mkdir_cases [OF mk] show ?thesis
      proof
        assume "fs' = fs1 \<and> \<not> is_ok r"
        then show ?thesis using ih up by auto
      next
        assume ok: "fs' = AList.update p Directory fs1 \<and> r = Ok ()"
        have "wf_fs fs'" if "wf_fs fs1"
          using that ok ih(2) Inr p by (auto simp: wf_fs_def look_update)
        then show ?thesis using ok ih up p p1 None by (auto simp: look_update)
      qed
    qed
  qed
qed

lemma create_dir_all_files: "create_dir_all h p fs = (fs', r) \<Longrightarrow> file_at fs' q = file_at fs q"
  using conjunct1 [OF create_dir_all_effect, THEN spec, of h p fs fs' r q] by (auto simp: file_at_def)

lemma create_dir_all_present: "look fs p = Some Directory \<Longrightarrow> create_dir_all h p fs = (fs, Ok ())"
  by (subst create_dir_all.simps) simp

lemma look_kept: "create_dir_all h p fs = (fs', r) \<Longrightarrow> look fs q = Some e \<Longrightarrow> look fs' q = Some e"
  using create_dir_all_effect [of h p fs fs' r] by (metis option.distinct(1))


section \<open>Reasoning about sequences\<close>

text \<open>Started where \<open>P\<close> holds, the operation ends where \<open>Q\<close> holds of its result, or fails where
  \<open>E\<close> holds.\<close>

definition triple :: "(fs \<Rightarrow> bool) \<Rightarrow> 'a io \<Rightarrow> ('a \<Rightarrow> fs \<Rightarrow> bool) \<Rightarrow> (fs \<Rightarrow> bool) \<Rightarrow> bool" where
  "triple P m Q E \<longleftrightarrow> (\<forall>fs fs' r. P fs \<longrightarrow> m fs = (fs', r) \<longrightarrow>
     (case r of Ok a \<Rightarrow> Q a fs' | Err e \<Rightarrow> E fs'))"

text \<open>An invariant of the operation, however it ends.\<close>

abbreviation io_keeps :: "(fs \<Rightarrow> bool) \<Rightarrow> 'a io \<Rightarrow> bool" where
  "io_keeps I m \<equiv> triple I m (\<lambda>_. I) I"

lemma tripleI:
  "(\<And>fs fs' a. P fs \<Longrightarrow> m fs = (fs', Ok a) \<Longrightarrow> Q a fs') \<Longrightarrow>
   (\<And>fs fs' e. P fs \<Longrightarrow> m fs = (fs', Err e) \<Longrightarrow> E fs') \<Longrightarrow> triple P m Q E"
  by (auto simp: triple_def split: sum.splits)

lemma triple_Ok: "triple P m Q E \<Longrightarrow> P fs \<Longrightarrow> m fs = (fs', Ok a) \<Longrightarrow> Q a fs'"
  by (fastforce simp: triple_def)

lemma triple_Err: "triple P m Q E \<Longrightarrow> P fs \<Longrightarrow> m fs = (fs', Err e) \<Longrightarrow> E fs'"
  by (fastforce simp: triple_def)

lemma io_keepsD: "io_keeps I m \<Longrightarrow> I fs \<Longrightarrow> m fs = (fs', r) \<Longrightarrow> I fs'"
  by (cases r) (auto dest: triple_Ok triple_Err)

lemma io_keepsI: "(\<And>fs fs' r. I fs \<Longrightarrow> m fs = (fs', r) \<Longrightarrow> I fs') \<Longrightarrow> io_keeps I m"
  by (auto simp: triple_def split: sum.splits)

lemma triple_weaken:
  "triple P m Q E \<Longrightarrow> (\<And>fs. P' fs \<Longrightarrow> P fs) \<Longrightarrow> (\<And>a fs. Q a fs \<Longrightarrow> Q' a fs) \<Longrightarrow> (\<And>fs. E fs \<Longrightarrow> E' fs) \<Longrightarrow>
   triple P' m Q' E'"
  unfolding triple_def by (auto split: sum.splits) blast+

lemma triple_bind:
  assumes "triple P m R E" and "\<And>a. triple (R a) (f a) Q E"
  shows "triple P (io_bind m f) Q E"
proof -
  have "case r of Ok b \<Rightarrow> Q b fs' | Err e \<Rightarrow> E fs'" if "P fs" and run: "io_bind m f fs = (fs', r)" for fs fs' r
  proof -
    obtain fs1 r1 where m: "m fs = (fs1, r1)" by fastforce
    show ?thesis
    proof (cases r1)
      case (Inl e)
      with run m triple_Err [OF assms(1) \<open>P fs\<close>] show ?thesis by (auto simp: io_bind_def)
    next
      case (Inr a)
      with run m have "f a fs1 = (fs', r)" by (simp add: io_bind_def)
      moreover have "R a fs1" using triple_Ok [OF assms(1) \<open>P fs\<close>] m Inr by simp
      ultimately show ?thesis using assms(2) [of a] by (auto simp: triple_def)
    qed
  qed
  then show ?thesis by (simp add: triple_def)
qed

lemma triple_then: "triple P m (\<lambda>_. R) E \<Longrightarrow> triple R n Q E \<Longrightarrow> triple P (io_then m n) Q E"
  unfolding io_then_def by (rule triple_bind)

lemma triple_return: "(\<And>fs. P fs \<Longrightarrow> Q a fs) \<Longrightarrow> triple P (io_return a) Q E"
  by (auto simp: triple_def io_return_def)

lemma triple_fail: "(\<And>fs. P fs \<Longrightarrow> E fs) \<Longrightarrow> triple P (io_fail e) Q E"
  by (auto simp: triple_def io_fail_def)

lemma keeps_lift: "io_keeps I (io_lift r)"
  by (auto simp: io_lift_def intro: io_keepsI)

lemma keeps_when: "io_keeps I m \<Longrightarrow> io_keeps I (io_when b m)"
  by (rule io_keepsI) (auto simp: io_when_def split: if_splits dest: io_keepsD)

lemma keeps_ignore: "io_keeps I m \<Longrightarrow> io_keeps I (io_ignore m)"
  by (rule io_keepsI) (metis io_ignore_def io_keepsD prod.collapse prod.inject)

lemma keeps_if: "io_keeps I m \<Longrightarrow> io_keeps I n \<Longrightarrow> io_keeps I (\<lambda>fs. if b fs then m fs else n fs)"
  by (rule io_keepsI) (auto dest: io_keepsD split: if_splits)

lemma keeps_each: "(\<And>x. x \<in> set xs \<Longrightarrow> io_keeps I (f x)) \<Longrightarrow> io_keeps I (io_each f xs)"
  by (induction xs) (auto intro: triple_then triple_return)

lemma keeps_read_dir: "io_keeps I (read_dir h p)"
  by (rule io_keepsI) (auto simp: read_dir_def permitted_def io_fail_def split: option.splits)

lemma keeps_read_file: "io_keeps I (read_file h p)"
  by (rule io_keepsI) (auto simp: read_file_def permitted_def io_fail_def split: option.splits)

lemma keeps_conj: "io_keeps I m \<Longrightarrow> io_keeps J m \<Longrightarrow> io_keeps (\<lambda>fs. I fs \<and> J fs) m"
  by (rule io_keepsI) (blast dest: io_keepsD)

lemma keeps_all: "(\<And>x. io_keeps (I x) m) \<Longrightarrow> io_keeps (\<lambda>fs. \<forall>x. I x fs) m"
  by (rule io_keepsI) (blast dest: io_keepsD)

section \<open>Well-formed trees\<close>

lemma wf_relocate:
  assumes "wf_fs fs" and "\<not> prefix s d" and "\<not> prefix d s" and "look fs (butlast d) = Some Directory"
  shows "wf_fs (relocate s d fs)"
  unfolding wf_fs_def
proof (intro allI impI)
  fix q
  assume q: "look (relocate s d fs) q \<noteq> None"
  note l = look_relocate [OF assms(2,3), of fs]
  have dn: "d \<noteq> []" using assms(3) by auto
  show "look (relocate s d fs) (butlast q) = Some Directory"
  proof (cases "q = d")
    case True
    have "\<not> prefix d (butlast d)" using dn by (metis append_butlast_last_id not_Cons_self2 prefix_order.antisym prefixeq_butlast self_append_conv)
    moreover have "\<not> prefix s (butlast d)" using assms(2) prefix_butlast by blast
    ultimately show ?thesis using True assms(4) by (simp add: l)
  next
    case False
    then have b: "prefix d (butlast q) \<longleftrightarrow> prefix d q" by (rule prefix_butlast_iff)
    show ?thesis
    proof (cases "prefix d q")
      case True
      with False obtain t where t: "q = d @ t" "t \<noteq> []" by (auto simp: prefix_def)
      with q assms(1) have "look fs (butlast (s @ t)) = Some Directory" by (auto simp: l wf_fs_def)
      with t show ?thesis by (simp add: l butlast_append)
    next
      case n: False
      with q have ns: "\<not> prefix s q" and "look fs q \<noteq> None" by (auto simp: l split: if_splits)
      with assms(1) have "look fs (butlast q) = Some Directory" by (auto simp: wf_fs_def)
      moreover have "\<not> prefix s (butlast q)" using ns prefix_butlast by blast
      ultimately show ?thesis using n b by (simp add: l)
    qed
  qed
qed

lemma wf_write: "wf_fs fs \<Longrightarrow> p \<noteq> [] \<Longrightarrow> look fs p \<noteq> Some Directory \<Longrightarrow> look fs (butlast p) = Some Directory
    \<Longrightarrow> wf_fs (AList.update p (RegularFile c) fs)"
  unfolding wf_fs_def by (auto simp: look_update)

lemma wf_delete: "wf_fs fs \<Longrightarrow> look fs p = Some (RegularFile c) \<Longrightarrow> p \<noteq> [] \<Longrightarrow> wf_fs (AList.delete p fs)"
  unfolding wf_fs_def by (auto simp: look_delete)

lemma wf_remove_tree: "wf_fs fs \<Longrightarrow> wf_fs (filter (\<lambda>(q, e). \<not> prefix p q) fs)"
  unfolding wf_fs_def by (auto simp: look_remove_tree dest: prefix_butlast)

lemma wf_below: "wf_fs fs \<Longrightarrow> look fs (p @ t) \<noteq> None \<Longrightarrow> t \<noteq> [] \<Longrightarrow> look fs p = Some Directory"
proof (induction t rule: rev_induct)
  case Nil
  then show ?case by simp
next
  case (snoc x t)
  then have "look fs (p @ t) = Some Directory"
    unfolding wf_fs_def by (metis append_assoc butlast_snoc)
  with snoc show ?case by (cases "t = []") auto
qed

lemma wf_child: "wf_fs fs \<Longrightarrow> look fs (p @ n # t) \<noteq> None \<Longrightarrow> children fs p \<noteq> []"
proof -
  assume wf: "wf_fs fs" and l: "look fs (p @ n # t) \<noteq> None"
  then have "look fs (p @ [n]) \<noteq> None" using wf_below [of fs "p @ [n]" t] by (cases "t = []") auto
  then obtain e where "(p @ [n], e) \<in> set fs" by (auto simp: look_def dest: map_of_SomeD)
  then show "children fs p \<noteq> []" by (force simp: children_def filter_empty_conv)
qed

lemma io_bind_Ok: "io_bind m f fs = (fs', Ok b) \<longleftrightarrow> (\<exists>fs1 a. m fs = (fs1, Ok a) \<and> f a fs1 = (fs', Ok b))"
  by (auto simp: io_bind_def split: prod.splits sum.splits)

lemma io_then_Ok: "io_then m n fs = (fs', Ok b) \<longleftrightarrow> (\<exists>fs1 a. m fs = (fs1, Ok a) \<and> n fs1 = (fs', Ok b))"
  by (simp add: io_then_def io_bind_Ok)

lemma io_bind_cases:
  assumes "io_bind m f fs = (fs', r)"
  obtains (first) e where "m fs = (fs', Err e)" "r = Err e" | (second) fs1 a where "m fs = (fs1, Ok a)" "f a fs1 = (fs', r)"
proof (cases "m fs")
  case (Pair fs1 r1)
  with assms show thesis by (cases r1) (auto simp: io_bind_def intro: first second)
qed

lemma io_then_cases:
  assumes "io_then m n fs = (fs', r)"
  obtains (first) e where "m fs = (fs', Err e)" "r = Err e" | (second) fs1 a where "m fs = (fs1, Ok a)" "n fs1 = (fs', r)"
  using assms unfolding io_then_def by (rule io_bind_cases)

lemma read_dir_Ok: "read_dir h p fs = (fs', Ok es) \<longleftrightarrow>
    fs' = fs \<and> io_refuses h OpReadDir p = None \<and> look fs p = Some Directory \<and> es = children fs p"
  by (auto simp: read_dir_def permitted_def io_fail_def split: option.splits entry.splits)

lemma keeps_wf:
  "io_keeps wf_fs (create_dir_all h p)"
  "io_keeps wf_fs (write_file h p c)"
  "io_keeps wf_fs (append_file h p c)"
  "io_keeps wf_fs (copy_file h s d)"
  "io_keeps wf_fs (remove_file h p)"
  "io_keeps wf_fs (remove_dir_all h p)"
  by (rule io_keepsI; blast dest: create_dir_all_effect write_file_cases append_file_cases copy_file_cases remove_file_cases
      remove_dir_all_cases intro: wf_write wf_delete wf_remove_tree)+

lemma keeps_wf_rename:
  assumes "s \<noteq> d" and "\<not> prefix d s"
  shows "io_keeps wf_fs (rename h s d)"
  using assms by (intro io_keepsI) (auto dest!: rename_cases intro: wf_relocate)


section \<open>One tree laid over another\<close>

text \<open>What a reader finds at \<open>r\<close> when it looks below \<open>s\<close> first and below \<open>d\<close> otherwise. Moving
  files from \<open>s\<close> to the same place below \<open>d\<close> never changes it, finished or not.\<close>

definition overlay :: "path \<Rightarrow> path \<Rightarrow> fs \<Rightarrow> path \<Rightarrow> bytes option" where
  "overlay s d fs r = (case file_at fs (s @ r) of Some c \<Rightarrow> Some c | None \<Rightarrow> file_at fs (d @ r))"

definition no_files :: "path \<Rightarrow> fs \<Rightarrow> bool" where
  "no_files p fs \<longleftrightarrow> (\<forall>t. file_at fs (p @ t) = None)"

lemma overlay_no_files: "no_files s fs \<Longrightarrow> overlay s d fs r = file_at fs (d @ r)"
  by (simp add: overlay_def no_files_def)

lemma overlay_shift: "overlay (s @ a) (d @ a) fs r = overlay s d fs (a @ r)"
  by (simp add: overlay_def split: option.split)

lemma file_at_update: "p \<noteq> [] \<Longrightarrow> file_at (AList.update p (RegularFile c) fs) q = (if q = p then Some c else file_at fs q)"
  by (simp add: file_at_def look_update)

lemma file_at_delete: "p \<noteq> [] \<Longrightarrow> file_at (AList.delete p fs) q = (if q = p then None else file_at fs q)"
  by (simp add: file_at_def look_delete)

lemma file_at_remove_tree:
  "file_at (filter (\<lambda>(q, e). \<not> prefix p q) fs) q = (if prefix p q then None else file_at fs q)"
  by (cases "q = []") (auto simp: file_at_def look_remove_tree)

lemma file_at_relocate:
  assumes "\<not> prefix s d" and "\<not> prefix d s"
  shows "file_at (relocate s d fs) q =
    (if prefix d q then file_at fs (s @ drop (length d) q) else if prefix s q then None else file_at fs q)"
  by (simp add: file_at_def look_relocate [OF assms])

lemma parallel_sides:
  assumes "parallel s d"
  shows "\<not> prefix (s @ a) (d @ b)" "\<not> prefix (d @ a) (s @ b)"
  using parallel_append [OF assms, of a b] parallel_append [OF assms, of b a] by (auto simp: parallel_def)

lemma parallel_not_same: "parallel s d \<Longrightarrow> s @ a \<noteq> d @ b" "parallel s d \<Longrightarrow> s @ a \<noteq> []" "parallel s d \<Longrightarrow> d @ b \<noteq> []"
  using parallel_sides(1) [of s d a b] by auto

lemma overlay_relocate:
  assumes apart: "parallel s d" and wf: "wf_fs fs"
    and over: "look fs (d @ r) = Some Directory \<longrightarrow> children fs (d @ r) = []"
      "look fs (s @ r) = Some Directory \<longrightarrow> file_at fs (d @ r) = None" "look fs (s @ r) \<noteq> None"
  shows "overlay s d (relocate (s @ r) (d @ r) fs) = overlay s d fs"
proof
  fix t
  note f = file_at_relocate [OF parallel_sides [OF apart]]
  note n = parallel_sides [OF apart, of _ t]
  show "overlay s d (relocate (s @ r) (d @ r) fs) t = overlay s d fs t"
  proof (cases "prefix r t")
    case False
    then show ?thesis using n by (simp add: overlay_def f split: option.split)
  next
    case True
    then obtain u where t: "t = r @ u" by (auto simp: prefix_def)
    have none: "file_at fs (d @ t) = None" if none: "file_at fs (s @ t) = None"
    proof (cases u)
      case Nil
      with t none over(3) have "look fs (s @ r) = Some Directory"
        by (auto simp: file_at_def split: option.splits entry.splits)
      with over(2) t Nil show ?thesis by simp
    next
      case (Cons x u')
      show ?thesis
      proof (rule ccontr)
        assume "file_at fs (d @ t) \<noteq> None"
        then have l: "look fs ((d @ r) @ x # u') \<noteq> None" by (auto simp: t Cons file_at_def split: option.splits)
        with wf_below [OF wf] wf_child [OF wf l] over(1) show False by blast
      qed
    qed
    then show ?thesis using n t by (simp add: overlay_def f split: option.splits)
  qed
qed

lemma overlay_rename:
  assumes "parallel s d" and "wf_fs fs" and "rename h (s @ r) (d @ r) fs = (fs', x)"
  shows "overlay s d fs' = overlay s d fs"
  using rename_cases [OF assms(3)] parallel_not_same(1) [OF assms(1), of r r] overlay_relocate [OF assms(1,2)] by blast

lemma overlay_copy:
  assumes "parallel s d" and "copy_file h (s @ r) (d @ r) fs = (fs', x)"
  shows "overlay s d fs' = overlay s d fs"
  using copy_file_cases [OF assms(2), folded file_at_iff] parallel_not_same(1) [OF assms(1), of _ r]
  by (auto simp: overlay_def file_at_update fun_eq_iff split: option.split)

lemma overlay_remove:
  assumes "parallel s d" and "remove_file h (s @ r) fs = (fs', x)" and "file_at fs (d @ r) = file_at fs (s @ r)"
  shows "overlay s d fs' = overlay s d fs"
  using remove_file_cases [OF assms(2)] assms(3) parallel_not_same(1) [OF assms(1), of r, symmetric]
  by (auto simp: overlay_def file_at_delete fun_eq_iff split: option.splits if_splits)

lemma overlay_same_files: "(\<And>q. file_at fs' q = file_at fs q) \<Longrightarrow> overlay s d fs' = overlay s d fs"
  by (simp add: overlay_def fun_eq_iff split: option.split)

lemma overlay_remove_tree:
  assumes "parallel s d" and "\<And>t. file_at fs (s @ r @ t) \<noteq> None \<Longrightarrow> file_at fs (d @ r @ t) = file_at fs (s @ r @ t)"
  shows "overlay s d (filter (\<lambda>(q, e). \<not> prefix (s @ r) q) fs) = overlay s d fs"
proof
  fix t
  have "prefix r t \<Longrightarrow> \<exists>u. t = r @ u" by (auto simp: prefix_def)
  then show "overlay s d (filter (\<lambda>(q, e). \<not> prefix (s @ r) q) fs) t = overlay s d fs t"
    using assms(2) parallel_sides(1) [OF assms(1), of r t]
    unfolding overlay_def file_at_remove_tree same_prefix_prefix by (auto split: option.splits)
qed

lemma io_each_Err:
  assumes "\<And>x. x \<in> set xs \<Longrightarrow> io_keeps I (f x)" and "I fs" and "io_each f xs fs = (fs', Err e)"
  shows "\<exists>x \<in> set xs. \<exists>g. I g \<and> snd (f x g) = Err e"
  using assms
proof (induction xs arbitrary: fs)
  case Nil
  then show ?case by (simp add: io_return_def)
next
  case (Cons x xs)
  obtain fs1 r where x: "f x fs = (fs1, r)" by fastforce
  show ?case
  proof (cases r)
    case (Inl e')
    with Cons.prems x show ?thesis by (auto simp: io_then_def io_bind_def intro!: exI [of _ fs])
  next
    case (Inr u)
    with Cons.prems(3) x have "io_each f xs fs1 = (fs', Err e)" by (simp add: io_then_def io_bind_def)
    with Cons.IH [of fs1] Cons.prems(1,2) io_keepsD [OF Cons.prems(1) Cons.prems(2) x] show ?thesis by auto
  qed
qed

text \<open>The operating system never reports the model's own error.\<close>

definition honest_host :: "io_host \<Rightarrow> bool" where
  "honest_host h \<longleftrightarrow> (\<forall>op p. io_refuses h op p \<noteq> Some OutOfFuel)"

lemma create_dir_all_honest: "honest_host h \<Longrightarrow> create_dir_all h p fs = (fs', r) \<Longrightarrow> r \<noteq> Err OutOfFuel"
proof (induction h p fs arbitrary: fs' r rule: create_dir_all.induct)
  case (1 h p fs)
  obtain fs1 r1 where rec: "create_dir_all h (butlast p) fs = (fs1, r1)" by fastforce
  have mk: "snd (mkdir h p fs1) \<noteq> Err OutOfFuel"
    using "1.prems"(1) by (auto simp: mkdir_def permitted_def io_fail_def honest_host_def split: option.splits)
  show ?case
  proof (cases "look fs p = None \<and> p \<noteq> []")
    case True
    then have "r1 \<noteq> Err OutOfFuel" using "1.IH" "1.prems"(1) rec by blast
    with "1.prems"(2) True rec mk show ?thesis
      by (cases r1) (auto simp: create_dir_all.simps [of h p fs] eq_snd_iff)
  next
    case False
    with "1.prems"(2) show ?thesis
      by (auto simp: create_dir_all.simps [of h p fs] split: option.splits entry.splits if_splits)
  qed
qed

lemma honest_simps:
  assumes "honest_host h"
  shows "read_dir h p fs = (fs', r1) \<Longrightarrow> r1 \<noteq> Err OutOfFuel"
    and "copy_file h s d fs = (fs', r) \<Longrightarrow> r \<noteq> Err OutOfFuel"
    and "rename h s d fs = (fs', r) \<Longrightarrow> r \<noteq> Err OutOfFuel"
    and "remove_file h p fs = (fs', r) \<Longrightarrow> r \<noteq> Err OutOfFuel"
    and "remove_dir_all h p fs = (fs', r) \<Longrightarrow> r \<noteq> Err OutOfFuel"
    and "write_file h p c fs = (fs', r) \<Longrightarrow> r \<noteq> Err OutOfFuel"
    and "append_file h p c fs = (fs', r) \<Longrightarrow> r \<noteq> Err OutOfFuel"
    and "read_file h p fs = (fs', r2) \<Longrightarrow> r2 \<noteq> Err OutOfFuel"
proof -
  have h: "io_refuses h op p \<noteq> Some OutOfFuel" for op p using assms by (simp add: honest_host_def)
  show "read_dir h p fs = (fs', r1) \<Longrightarrow> r1 \<noteq> Err OutOfFuel"
    using h by (auto simp: read_dir_def permitted_def io_fail_def split: option.splits entry.splits)
  show "copy_file h s d fs = (fs', r) \<Longrightarrow> r \<noteq> Err OutOfFuel"
    using h by (auto simp: copy_file_def write_contents_def permitted_def io_fail_def
      split: option.splits entry.splits if_splits)
  show "rename h s d fs = (fs', r) \<Longrightarrow> r \<noteq> Err OutOfFuel"
    using h by (auto simp: rename_def permitted_def io_fail_def split: option.splits entry.splits if_splits)
  show "remove_file h p fs = (fs', r) \<Longrightarrow> r \<noteq> Err OutOfFuel"
    using h by (auto simp: remove_file_def permitted_def io_fail_def split: option.splits entry.splits)
  show "remove_dir_all h p fs = (fs', r) \<Longrightarrow> r \<noteq> Err OutOfFuel"
    using h by (auto simp: remove_dir_all_def permitted_def io_fail_def split: option.splits entry.splits)
  show "write_file h p c fs = (fs', r) \<Longrightarrow> r \<noteq> Err OutOfFuel"
    using h by (auto simp: write_file_def write_contents_def permitted_def io_fail_def split: option.splits if_splits)
  show "append_file h p c fs = (fs', r) \<Longrightarrow> r \<noteq> Err OutOfFuel"
    using h by (auto simp: append_file_def write_contents_def permitted_def io_fail_def split: option.splits if_splits)
  show "read_file h p fs = (fs', r2) \<Longrightarrow> r2 \<noteq> Err OutOfFuel"
    using h by (auto simp: read_file_def permitted_def io_fail_def split: option.splits entry.splits)
qed

text \<open>The depth of the deepest path.\<close>

definition tree_height :: "fs \<Rightarrow> nat" where
  "tree_height fs = foldr max (map (length \<circ> fst) fs) 0"

lemma tree_height: "look fs p \<noteq> None \<Longrightarrow> length p \<le> tree_height fs"
proof (cases "p = []")
  case False
  have le: "n \<in> set ns \<Longrightarrow> n \<le> foldr max ns 0" for n :: nat and ns by (induction ns) auto
  assume "look fs p \<noteq> None"
  with False obtain e where "(p, e) \<in> set fs" by (auto simp: look_def dest: map_of_SomeD)
  then have "length p \<in> set (map (length \<circ> fst) fs)" by force
  then show ?thesis unfolding tree_height_def by (rule le)
qed simp

text \<open>Whatever comes of it, the operation leaves every file readable through the overlay, puts no
  file back below \<open>s\<close> and changes no file outside the two trees.\<close>

definition mover :: "path \<Rightarrow> path \<Rightarrow> 'a io \<Rightarrow> bool" where
  "mover s d m \<longleftrightarrow> (\<forall>fs fs' x. wf_fs fs \<longrightarrow> m fs = (fs', x) \<longrightarrow>
     wf_fs fs' \<and> overlay s d fs' = overlay s d fs
     \<and> (\<forall>t. file_at fs (s @ t) = None \<longrightarrow> file_at fs' (s @ t) = None)
     \<and> (\<forall>q. \<not> prefix s q \<and> \<not> prefix d q \<longrightarrow> file_at fs' q = file_at fs q))"

lemma moverD:
  assumes "mover s d m" and "wf_fs fs" and "m fs = (fs', x)"
  shows "wf_fs fs'" and "overlay s d fs' = overlay s d fs"
    and "file_at fs (s @ t) = None \<Longrightarrow> file_at fs' (s @ t) = None"
    and "\<not> prefix s q \<Longrightarrow> \<not> prefix d q \<Longrightarrow> file_at fs' q = file_at fs q"
  using assms unfolding mover_def by blast+

lemma mover_no_files: "mover s d m \<Longrightarrow> wf_fs fs \<Longrightarrow> m fs = (fs', x) \<Longrightarrow> no_files (s @ a) fs \<Longrightarrow> no_files (s @ a) fs'"
  unfolding no_files_def append_assoc by (blast intro: moverD(3))

lemma mover_files:
  assumes "io_keeps wf_fs m" and "\<And>fs fs' x q. m fs = (fs', x) \<Longrightarrow> file_at fs' q = file_at fs q"
  shows "mover s d m"
  unfolding mover_def using io_keepsD [OF assms(1)] assms(2) overlay_same_files by metis

lemma mover_create_dir_all: "mover s d (create_dir_all h p)"
  by (rule mover_files [OF keeps_wf(1)]) (rule create_dir_all_files)

lemma mover_read_dir: "mover s d (read_dir h p)"
  by (rule mover_files [OF keeps_read_dir]) (auto simp: read_dir_def permitted_def io_fail_def split: option.splits)

lemma mover_return: "mover s d (io_return a)"
  by (auto simp: mover_def io_return_def)

lemma mover_fail: "mover s d (io_fail e)"
  by (auto simp: mover_def io_fail_def)

lemma mover_bind:
  assumes "mover s d m" and "\<And>a. mover s d (f a)"
  shows "mover s d (io_bind m f)"
  unfolding mover_def
proof (intro allI impI)
  fix fs fs' x
  assume wf: "wf_fs fs" and run: "io_bind m f fs = (fs', x)"
  obtain fs1 r where m: "m fs = (fs1, r)" by fastforce
  note 1 = moverD [OF assms(1) wf m]
  show "wf_fs fs' \<and> overlay s d fs' = overlay s d fs
     \<and> (\<forall>t. file_at fs (s @ t) = None \<longrightarrow> file_at fs' (s @ t) = None)
     \<and> (\<forall>q. \<not> prefix s q \<and> \<not> prefix d q \<longrightarrow> file_at fs' q = file_at fs q)"
  proof (cases r)
    case (Inl e)
    with run m have "fs' = fs1" by (simp add: io_bind_def)
    with 1 show ?thesis by simp
  next
    case (Inr a)
    with run m have f: "f a fs1 = (fs', x)" by (simp add: io_bind_def)
    from 1 moverD [OF assms(2) 1(1) f] show ?thesis by simp
  qed
qed

lemma mover_then: "mover s d m \<Longrightarrow> mover s d n \<Longrightarrow> mover s d (io_then m n)"
  unfolding io_then_def by (rule mover_bind)

lemma mover_if: "mover s d m \<Longrightarrow> mover s d n \<Longrightarrow> mover s d (\<lambda>fs. if b fs then m fs else n fs)"
  by (subst mover_def) (metis moverD)

lemma mover_each: "(\<And>x. x \<in> set xs \<Longrightarrow> mover s d (f x)) \<Longrightarrow> mover s d (io_each f xs)"
  by (induction xs) (auto intro: mover_then mover_return)

lemma mover_shift:
  assumes "parallel s d" and "mover (s @ a) (d @ a) m"
  shows "mover s d m"
  unfolding mover_def
proof (intro allI impI)
  fix fs fs' x
  assume wf: "wf_fs fs" and run: "m fs = (fs', x)"
  note m = moverD [OF assms(2) wf run]
  have same: "file_at fs' q = file_at fs q" if "\<not> prefix (s @ a) q" "\<not> prefix (d @ a) q" for q
    using m(4) that by blast
  have "overlay s d fs' r = overlay s d fs r" for r
  proof (cases "prefix a r")
    case True
    then obtain u where "r = a @ u" by (auto simp: prefix_def)
    then show ?thesis using fun_cong [OF m(2), of u] by (simp add: overlay_shift)
  next
    case False
    have "\<not> prefix (s @ a) (s @ r)" "\<not> prefix (d @ a) (d @ r)" using False by auto
    with parallel_sides [OF assms(1)] show ?thesis unfolding overlay_def by (simp add: same split: option.split)
  qed
  moreover have "file_at fs' (s @ t) = None" if "file_at fs (s @ t) = None" for t
  proof (cases "prefix a t")
    case True
    then obtain u where "t = a @ u" by (auto simp: prefix_def)
    then show ?thesis using m(3) [of u] that by simp
  next
    case False
    then show ?thesis using parallel_sides(2) [OF assms(1), of a t] that by (subst same) auto
  qed
  moreover have "\<not> prefix (s @ a) q \<and> \<not> prefix (d @ a) q" if "\<not> prefix s q \<and> \<not> prefix d q" for q
    using that by (meson append_prefixD)
  ultimately show "wf_fs fs' \<and> overlay s d fs' = overlay s d fs
     \<and> (\<forall>t. file_at fs (s @ t) = None \<longrightarrow> file_at fs' (s @ t) = None)
     \<and> (\<forall>q. \<not> prefix s q \<and> \<not> prefix d q \<longrightarrow> file_at fs' q = file_at fs q)"
    using m(1) same by blast
qed

lemma mover_rename:
  assumes "parallel s d"
  shows "mover s d (rename h s d)"
  unfolding mover_def
proof (intro allI impI)
  fix fs fs' x
  assume wf: "wf_fs fs" and run: "rename h s d fs = (fs', x)"
  have ne: "s \<noteq> d" and sd: "\<not> prefix s d" "\<not> prefix d s" using assms by (auto simp: parallel_def)
  have "wf_fs fs'" using io_keepsD [OF keeps_wf_rename [OF ne sd(2)] wf run] .
  moreover have "overlay s d fs' = overlay s d fs" using overlay_rename [of s d fs h "[]"] assms wf run by simp
  ultimately show "wf_fs fs' \<and> overlay s d fs' = overlay s d fs
     \<and> (\<forall>t. file_at fs (s @ t) = None \<longrightarrow> file_at fs' (s @ t) = None)
     \<and> (\<forall>q. \<not> prefix s q \<and> \<not> prefix d q \<longrightarrow> file_at fs' q = file_at fs q)"
    using rename_cases [OF run ne] parallel_sides(2) [OF assms, of "[]"] by (auto simp: file_at_relocate [OF sd])
qed

lemma mover_copy:
  assumes "parallel s d"
  shows "mover s d (copy_file h s d)"
  unfolding mover_def
proof (intro allI impI)
  fix fs fs' x
  assume wf: "wf_fs fs" and run: "copy_file h s d fs = (fs', x)"
  have "overlay s d fs' = overlay s d fs" using overlay_copy [of s d h "[]"] assms run by simp
  moreover have "s @ t \<noteq> d" for t using assms by (auto simp: parallel_def)
  ultimately show "wf_fs fs' \<and> overlay s d fs' = overlay s d fs
     \<and> (\<forall>t. file_at fs (s @ t) = None \<longrightarrow> file_at fs' (s @ t) = None)
     \<and> (\<forall>q. \<not> prefix s q \<and> \<not> prefix d q \<longrightarrow> file_at fs' q = file_at fs q)"
    using io_keepsD [OF keeps_wf(4) wf run] copy_file_cases [OF run] by (auto simp: file_at_update)
qed

text \<open>A way to move one directory entry. Clients move the entries of a directory one by one; the
  law for one entry gives that for the directory.\<close>

locale tree_mover =
  fixes move :: "entry \<Rightarrow> path \<Rightarrow> path \<Rightarrow> unit io"
  assumes move_mover: "parallel s d \<Longrightarrow> mover s d (move e s d)"
    and move_empties: "parallel s d \<Longrightarrow> wf_fs fs \<Longrightarrow> move e s d fs = (fs', Ok ()) \<Longrightarrow> no_files s fs'"
begin

definition move_children :: "path \<Rightarrow> path \<Rightarrow> (string \<times> entry) list \<Rightarrow> unit io" where
  "move_children s d = io_each (\<lambda>(n, e). move e (s @ [n]) (d @ [n]))"

lemma move_child: "parallel s d \<Longrightarrow> mover s d (move e (s @ [n]) (d @ [n]))"
  by (rule mover_shift [of s d "[n]"]) (auto intro: move_mover parallel_append)

lemma move_children_mover: "parallel s d \<Longrightarrow> mover s d (move_children s d es)"
  unfolding move_children_def by (rule mover_each) (auto intro: move_child)

lemma move_children_empties:
  assumes "parallel s d" and "wf_fs fs" and "move_children s d es fs = (fs', Ok ())"
  shows "\<forall>(n, e) \<in> set es. no_files (s @ [n]) fs'"
  using assms(2,3)
proof (induction es arbitrary: fs)
  case Nil
  show ?case by simp
next
  case (Cons x es)
  obtain n e where x: "x = (n, e)" by (cases x)
  obtain fs1 r where m: "move e (s @ [n]) (d @ [n]) fs = (fs1, r)" by fastforce
  with Cons.prems(2) have rest: "move_children s d es fs1 = (fs', Ok ())" and r: "r = Ok ()"
    by (auto simp: move_children_def x io_then_def io_bind_def split: sum.splits)
  note m = m [unfolded r]
  have wf: "wf_fs fs1" by (rule moverD(1) [OF move_child [OF assms(1)] Cons.prems(1) m])
  have "no_files (s @ [n]) fs1"
    by (rule move_empties [OF _ Cons.prems(1) m]) (rule parallel_append [OF assms(1)])
  then have "no_files (s @ [n]) fs'"
    by (rule mover_no_files [OF move_children_mover [OF assms(1)] wf rest])
  with Cons.IH [OF wf rest] show ?case by (simp add: x)
qed

text \<open>Reading the directory and moving what it lists empties it.\<close>

lemma move_listed_empties:
  assumes "parallel s d" and "wf_fs fs" and "look fs s = Some Directory"
    and "move_children s d (children fs s) fs = (fs', Ok ())"
  shows "no_files s fs'"
  unfolding no_files_def
proof
  fix t
  show "file_at fs' (s @ t) = None"
  proof (cases "file_at fs (s @ t)")
    case None
    then show ?thesis by (rule moverD(3) [OF move_children_mover [OF assms(1)] assms(2,4)])
  next
    case (Some c)
    with assms(3) obtain n u where t: "t = n # u" by (cases t) (auto simp: file_at_def)
    have "look fs (s @ n # u) \<noteq> None" using Some t by (auto simp: file_at_iff)
    then have "look fs (s @ [n]) \<noteq> None" using wf_below [OF assms(2), of "s @ [n]" u] by (cases "u = []") auto
    then obtain e where "(n, e) \<in> set (children fs s)" using look_child by blast
    with move_children_empties [OF assms(1,2,4)] have "no_files (s @ [n]) fs'" by auto
    then show ?thesis by (auto simp: no_files_def t)
  qed
qed

end


text \<open>A host that refuses nothing, with one device.\<close>

definition willing_host :: "io_host \<Rightarrow> bool" where
  "willing_host h \<longleftrightarrow> (\<forall>op p. io_refuses h op p = None) \<and> (\<forall>p q. io_device h p = io_device h q)"

text \<open>Nothing on the way to the directory is a file.\<close>

definition creatable :: "fs \<Rightarrow> path \<Rightarrow> bool" where
  "creatable fs p \<longleftrightarrow> (\<forall>q. prefix q p \<longrightarrow> file_at fs q = None)"

lemma willing_create_dir_all:
  "willing_host h \<Longrightarrow> creatable fs p \<Longrightarrow> \<exists>fs'. create_dir_all h p fs = (fs', Ok ())"
proof (induction h p fs rule: create_dir_all.induct)
  case (1 h p fs)
  have nf: "look fs p \<noteq> Some (RegularFile c)" "look fs (butlast p) \<noteq> Some (RegularFile c)" for c
    using "1.prems"(2) prefixeq_butlast [of p] by (force simp: creatable_def file_at_def)+
  show ?case
  proof (cases "look fs p = None \<and> p \<noteq> []")
    case True
    have "creatable fs (butlast p)" using "1.prems"(2) prefix_butlast by (auto simp: creatable_def)
    then obtain fs1 where "create_dir_all h (butlast p) fs = (fs1, Ok ())" using "1.IH" "1.prems"(1) True by auto
    moreover have "\<exists>fs'. mkdir h p fs1 = (fs', Ok ())"
      using "1.prems"(1) by (simp add: mkdir_def permitted_def willing_host_def)
    ultimately show ?thesis using True by (auto simp: create_dir_all.simps [of h p fs])
  next
    case False
    then show ?thesis using nf(1) by (auto simp: create_dir_all.simps [of h p fs] split: option.splits entry.splits)
  qed
qed

lemma willing_rename:
  assumes "willing_host h" and "parallel s d" and "look fs s \<noteq> None" and "look fs (butlast d) = Some Directory"
    and "look fs d = None"
  shows "rename h s d fs = (relocate s d fs, Ok ())"
  using assms by (auto simp: rename_def permitted_def willing_host_def parallel_def split: option.split) (metis+)?


lemma distinct_create_dir_all:
  "create_dir_all h p fs = (fs', r) \<Longrightarrow> distinct (map fst fs) \<Longrightarrow> distinct (map fst fs')"
proof (induction h p fs arbitrary: fs' r rule: create_dir_all.induct)
  case (1 h p fs)
  obtain fs1 r1 where rec: "create_dir_all h (butlast p) fs = (fs1, r1)" by fastforce
  show ?case
  proof (cases "look fs p = None \<and> p \<noteq> []")
    case True
    then have "distinct (map fst fs1)" using "1.IH" rec "1.prems"(2) by blast
    then have "mkdir h p fs1 = (fs', r) \<Longrightarrow> distinct (map fst fs')"
      by (auto dest!: mkdir_cases intro: distinct_update)
    with \<open>distinct (map fst fs1)\<close> "1.prems"(1) True rec show ?thesis
      by (cases r1) (auto simp: create_dir_all.simps [of h p fs])
  next
    case False
    with "1.prems" show ?thesis by (auto simp: create_dir_all.simps [of h p fs] split: option.splits entry.splits)
  qed
qed

lemma distinct_children:
  assumes "distinct (map fst fs)"
  shows "distinct (map fst (children fs p))"
proof -
  have "map fst (children fs p) = map last (filter (\<lambda>q. q \<noteq> [] \<and> butlast q = p) (map fst fs))"
    by (simp add: children_def filter_map comp_def case_prod_unfold)
  moreover have "inj_on last {q. q \<noteq> [] \<and> butlast q = p}"
    by (rule inj_onI) (metis (mono_tags, lifting) append_butlast_last_id mem_Collect_eq)
  ultimately show ?thesis using assms by (auto simp: distinct_map intro: inj_on_subset)
qed

end
