(* ===== verification/Storage_Runtime.thy ===== *)
theory Storage_Runtime
  imports File_System Episode_Assembler
begin

text \<open>
  The process around a storage backend: \<open>run_with_config\<close> and \<open>worker_main\<close>, which
  \<^verbatim>\<open>storage/local/src/runtime.rs\<close>, \<^verbatim>\<open>storage/local-lerobot/src/runtime.rs\<close> and
  \<^verbatim>\<open>storage/dataloop/src/runtime.rs\<close> share line by line. The loop and the worker thread talk
  through two queues; how far the worker gets before each of the loop's calls is part of a turn.
  What a backend does to the world when it stores an episode is the argument \<open>store\<close>. The
  reference is \<open>store_all\<close>: the episodes stored one after the other, in the order they were
  announced, up to the first failure.
\<close>

record episode_ready_request =
  rq_episode_index :: u32
  rq_staging_dir :: string

datatype worker_command = StoreEpisode episode_ready_request | WorkerShutdown

datatype store_event = Stored u32 string | StoreError io_error | ShutdownComplete

datatype storage_failure = StoreFailed io_error | StoragePort string | StorageWorkerGone | BackendNotSupported storage_backend
  | SliceOutOfRange

datatype storage_exit = StorageFinished | StorageFailed storage_failure

text \<open>\<open>ss_done\<close> logs the requests the worker has taken, \<open>ss_received\<close> those the loop has queued and
  \<open>ss_out\<close> what was published.\<close>

record 'w storage_state =
  ss_world :: 'w
  ss_received :: "episode_ready_request list"
  ss_queue :: "worker_command list"
  ss_alive :: bool
  ss_events :: "store_event list"
  ss_out :: "episode_stored list"
  ss_shutdown_sent :: bool
  ss_shutdown_complete :: bool
  ss_done :: "episode_ready_request list"

definition storage_init :: "'w \<Rightarrow> 'w storage_state" where
  "storage_init w = \<lparr>ss_world = w, ss_received = [], ss_queue = [], ss_alive = True, ss_events = [], ss_out = [],
     ss_shutdown_sent = False, ss_shutdown_complete = False, ss_done = []\<rparr>"

type_synonym 'w store_episode = "episode_ready_request \<Rightarrow> 'w \<Rightarrow> 'w \<times> (string, io_error) result"

section \<open>The worker thread\<close>

definition store_worker_step :: "'w store_episode \<Rightarrow> 'w storage_state \<Rightarrow> 'w storage_state" where
  "store_worker_step store s =
     (if \<not> ss_alive s then s
      else case ss_queue s of
        [] \<Rightarrow> s
      | StoreEpisode request # cmds \<Rightarrow>
          (case store request (ss_world s) of
             (w, Ok output_path) \<Rightarrow> s\<lparr>ss_world := w, ss_queue := cmds, ss_done := ss_done s @ [request],
                ss_events := ss_events s @ [Stored (rq_episode_index request) output_path]\<rparr>
           | (w, Err error) \<Rightarrow> s\<lparr>ss_world := w, ss_queue := cmds, ss_done := ss_done s @ [request],
                ss_events := ss_events s @ [StoreError error], ss_alive := False\<rparr>)
      | WorkerShutdown # cmds \<Rightarrow> s\<lparr>ss_queue := cmds, ss_events := ss_events s @ [ShutdownComplete], ss_alive := False\<rparr>)"

fun store_worker_steps :: "'w store_episode \<Rightarrow> nat \<Rightarrow> 'w storage_state \<Rightarrow> 'w storage_state" where
  "store_worker_steps store 0 s = s"
| "store_worker_steps store (Suc k) s = store_worker_steps store k (store_worker_step store s)"

section \<open>The main loop\<close>

text \<open>One call of the loop, with the progress the worker makes before it. A call on a port may fail.\<close>

record storage_turn =
  tu_before_events :: nat
  tu_publish :: "episode_stored \<Rightarrow> (unit, string) result"
  tu_controls :: "(nat \<times> (control_event, string) result) list"
  tu_readies :: "(nat \<times> (episode_ready, string) result) list"

type_synonym 'w storage_phase = "'w storage_state \<Rightarrow> 'w storage_state \<times> (unit, storage_exit) result"

fun drain_store_events :: "(episode_stored \<Rightarrow> (unit, string) result) \<Rightarrow> store_event list \<Rightarrow> 'w storage_phase" where
  "drain_store_events send [] s = (s, Ok ())"
| "drain_store_events send (Stored episode_index output_path # es) s =
     (let msg = \<lparr>est_episode_index = episode_index, est_output_path = FixedString256_new output_path\<rparr>
      in case send msg of
        Err e \<Rightarrow> (s, Err (StorageFailed (StoragePort e)))
      | Ok _ \<Rightarrow> drain_store_events send es (s\<lparr>ss_events := es, ss_out := ss_out s @ [msg]\<rparr>))"
| "drain_store_events send (StoreError e # es) s = (s, Err (StorageFailed (StoreFailed e)))"
| "drain_store_events send (ShutdownComplete # es) s =
     drain_store_events send es (s\<lparr>ss_events := es, ss_shutdown_complete := True\<rparr>)"

text \<open>\<open>command_tx.send(..)?\<close>: a worker that has returned has dropped its receiver.\<close>

definition send_command :: "worker_command \<Rightarrow> 'w storage_phase" where
  "send_command cmd s =
     (if ss_alive s then (s\<lparr>ss_queue := ss_queue s @ [cmd]\<rparr>, Ok ())
      else (s, Err (StorageFailed StorageWorkerGone)))"

fun drain_storage_controls :: "'w store_episode \<Rightarrow> (nat \<times> (control_event, string) result) list \<Rightarrow> 'w storage_phase" where
  "drain_storage_controls store [] s = (s, Ok ())"
| "drain_storage_controls store ((k, received) # rs) s =
     (let s1 = store_worker_steps store k s
      in case received of
        Err e \<Rightarrow> (s1, Err (StorageFailed (StoragePort e)))
      | Ok event \<Rightarrow>
          if event = Shutdown \<and> \<not> ss_shutdown_sent s1 then
            (case send_command WorkerShutdown s1 of
               (s2, Err e) \<Rightarrow> (s2, Err e)
             | (s2, Ok _) \<Rightarrow> drain_storage_controls store rs (s2\<lparr>ss_shutdown_sent := True\<rparr>))
          else drain_storage_controls store rs s1)"

text \<open>\<open>as_str\<close> slices the message's buffer and panics when the length field is too large.\<close>

definition request_of :: "episode_ready \<Rightarrow> episode_ready_request option" where
  "request_of ready = map_option (\<lambda>dir. \<lparr>rq_episode_index = er_episode_index ready, rq_staging_dir = dir\<rparr>)
     (fixed_string_as_str (er_staging_dir ready))"

fun drain_readies :: "'w store_episode \<Rightarrow> (nat \<times> (episode_ready, string) result) list \<Rightarrow> 'w storage_phase" where
  "drain_readies store [] s = (s, Ok ())"
| "drain_readies store ((k, received) # rs) s =
     (let s1 = store_worker_steps store k s
      in case received of
        Err e \<Rightarrow> (s1, Err (StorageFailed (StoragePort e)))
      | Ok ready \<Rightarrow>
          (case request_of ready of
             None \<Rightarrow> (s1, Err (StorageFailed SliceOutOfRange))
           | Some request \<Rightarrow>
               (case send_command (StoreEpisode request) s1 of
                  (s2, Err e) \<Rightarrow> (s2, Err e)
                | (s2, Ok _) \<Rightarrow> drain_readies store rs (s2\<lparr>ss_received := ss_received s2 @ [request]\<rparr>))))"

definition storage_turn_step :: "'w store_episode \<Rightarrow> storage_turn \<Rightarrow> 'w storage_phase" where
  "storage_turn_step store t s0 =
     (let s = store_worker_steps store (tu_before_events t) s0
      in case drain_store_events (tu_publish t) (ss_events s) s of
        (s1, Err e) \<Rightarrow> (s1, Err e)
      | (s1, Ok _) \<Rightarrow>
          (case drain_storage_controls store (tu_controls t) s1 of
             (s2, Err e) \<Rightarrow> (s2, Err e)
           | (s2, Ok _) \<Rightarrow> drain_readies store (tu_readies t) s2))"

text \<open>\<open>while !shutdown_complete\<close> over the turns the process lives through.\<close>

fun storage_loop :: "'w store_episode \<Rightarrow> storage_turn list \<Rightarrow> 'w storage_phase" where
  "storage_loop store [] s = (s, if ss_shutdown_complete s then Err StorageFinished else Ok ())"
| "storage_loop store (t # ts) s =
     (if ss_shutdown_complete s then (s, Err StorageFinished)
      else case storage_turn_step store t s of
        (s', Err e) \<Rightarrow> (s', Err e)
      | (s', Ok _) \<Rightarrow> storage_loop store ts s')"

text \<open>\<open>run_with_config\<close>: each backend refuses a configuration that is not its own.\<close>

definition storage_run ::
  "storage_backend \<Rightarrow> (storage_runtime_config \<Rightarrow> 'w store_episode) \<Rightarrow> storage_runtime_config \<Rightarrow> storage_turn list \<Rightarrow> 'w \<Rightarrow>
   'w storage_state \<times> (unit, storage_exit) result" where
  "storage_run backend store config turns w =
     (if srt_backend config \<noteq> backend then (storage_init w, Err (StorageFailed (BackendNotSupported (srt_backend config))))
      else storage_loop (store config) turns (storage_init w))"


section \<open>Invariants of the loop\<close>

text \<open>What the process does to its state is one of five updates; a predicate the five keep is
  kept by the loop, however it ends.\<close>

locale storage_invariant =
  fixes store :: "'w store_episode" and inv :: "'w storage_state \<Rightarrow> bool"
  assumes inv_worker: "inv s \<Longrightarrow> inv (store_worker_step store s)"
    and inv_ack: "inv s \<Longrightarrow> ss_events s = Stored n p # es \<Longrightarrow> inv (s\<lparr>ss_events := es,
          ss_out := ss_out s @ [\<lparr>est_episode_index = n, est_output_path = FixedString256_new p\<rparr>]\<rparr>)"
    and inv_complete: "inv s \<Longrightarrow> ss_events s = ShutdownComplete # es
          \<Longrightarrow> inv (s\<lparr>ss_events := es, ss_shutdown_complete := True\<rparr>)"
    and inv_shutdown: "inv s \<Longrightarrow> ss_alive s \<Longrightarrow> \<not> ss_shutdown_sent s
          \<Longrightarrow> inv (s\<lparr>ss_queue := ss_queue s @ [WorkerShutdown], ss_shutdown_sent := True\<rparr>)"
    and inv_request: "inv s \<Longrightarrow> ss_alive s
          \<Longrightarrow> inv (s\<lparr>ss_queue := ss_queue s @ [StoreEpisode rq], ss_received := ss_received s @ [rq]\<rparr>)"
begin

lemma inv_steps: "inv s \<Longrightarrow> inv (store_worker_steps store k s)"
  by (induction k arbitrary: s) (simp_all add: inv_worker)

lemma inv_drain_events: "inv s \<Longrightarrow> ss_events s = es \<Longrightarrow> drain_store_events send es s = (s', r) \<Longrightarrow> inv s'"
proof (induction send es s rule: drain_store_events.induct)
  case (1 send s)
  then show ?case by simp
next
  case (2 send n p es s)
  then show ?case by (auto simp: Let_def inv_ack split: sum.splits)
next
  case (3 send e es s)
  then show ?case by simp
next
  case (4 send es s)
  then show ?case by (simp add: inv_complete)
qed

lemma inv_controls: "inv s \<Longrightarrow> drain_storage_controls store rs s = (s', r) \<Longrightarrow> inv s'"
proof (induction rs arbitrary: s)
  case Nil
  then show ?case by simp
next
  case (Cons x rs)
  obtain k received where x: "x = (k, received)" by (cases x)
  have i: "inv (store_worker_steps store k s)" by (rule inv_steps [OF Cons.prems(1)])
  show ?case
  proof (cases "\<exists>event. received = Ok event \<and> event = Shutdown \<and> \<not> ss_shutdown_sent (store_worker_steps store k s)")
    case True
    with Cons.prems(2) i show ?thesis
      by (auto simp: x Let_def send_command_def split: if_splits intro: Cons.IH inv_shutdown)
  next
    case False
    with Cons.prems(2) Cons.IH [OF i] i show ?thesis
      by (auto simp: x Let_def split: sum.splits if_splits)
  qed
qed

lemma inv_readies: "inv s \<Longrightarrow> drain_readies store rs s = (s', r) \<Longrightarrow> inv s'"
proof (induction rs arbitrary: s)
  case Nil
  then show ?case by simp
next
  case (Cons x rs)
  obtain k received where x: "x = (k, received)" by (cases x)
  have i: "inv (store_worker_steps store k s)" by (rule inv_steps [OF Cons.prems(1)])
  show ?case
  proof (cases "\<exists>ready rq. received = Ok ready \<and> request_of ready = Some rq \<and> ss_alive (store_worker_steps store k s)")
    case True
    then obtain ready rq where h: "received = Ok ready" "request_of ready = Some rq" "ss_alive (store_worker_steps store k s)"
      by blast
    from Cons.IH [OF inv_request [OF i h(3)]] Cons.prems(2) h show ?thesis
      by (simp add: x Let_def send_command_def)
  next
    case False
    with Cons.prems(2) i show ?thesis
      by (auto simp: x Let_def send_command_def split: sum.splits option.splits if_splits)
  qed
qed

lemma inv_turn:
  assumes "inv s" and "storage_turn_step store t s = (s', r)"
  shows "inv s'"
proof -
  let ?s = "store_worker_steps store (tu_before_events t) s"
  obtain s1 r1 where d: "drain_store_events (tu_publish t) (ss_events ?s) ?s = (s1, r1)" by fastforce
  note i1 = inv_drain_events [OF inv_steps [OF assms(1)] refl d]
  obtain s2 r2 where c: "drain_storage_controls store (tu_controls t) s1 = (s2, r2)" by fastforce
  note i2 = inv_controls [OF i1 c]
  show ?thesis
    using assms(2) d c i1 i2 inv_readies [OF i2] by (cases r1; cases r2) (simp_all add: storage_turn_step_def Let_def)
qed

theorem inv_loop: "inv s \<Longrightarrow> storage_loop store ts s = (s', r) \<Longrightarrow> inv s'"
proof (induction ts arbitrary: s)
  case Nil
  then show ?case by simp
next
  case (Cons t ts)
  obtain s1 r1 where step: "storage_turn_step store t s = (s1, r1)" by fastforce
  show ?case
    using Cons.prems step Cons.IH [OF inv_turn [OF Cons.prems(1) step]] inv_turn [OF Cons.prems(1) step]
    by (cases r1) (auto split: if_splits)
qed

end


section \<open>The loop stores the announced episodes in order\<close>

fun store_all :: "'w store_episode \<Rightarrow> episode_ready_request list \<Rightarrow> 'w \<Rightarrow> 'w \<times> store_event list" where
  "store_all store [] w = (w, [])"
| "store_all store (rq # rqs) w =
     (case store rq w of
        (w', Err e) \<Rightarrow> (w', [StoreError e])
      | (w', Ok out) \<Rightarrow> (case store_all store rqs w' of (w'', es) \<Rightarrow> (w'', Stored (rq_episode_index rq) out # es)))"

fun acks :: "store_event list \<Rightarrow> episode_stored list" where
  "acks [] = []"
| "acks (Stored n p # es) = \<lparr>est_episode_index = n, est_output_path = FixedString256_new p\<rparr> # acks es"
| "acks (StoreError e # es) = acks es"
| "acks (ShutdownComplete # es) = acks es"

definition all_stored :: "store_event list \<Rightarrow> bool" where
  "all_stored es \<longleftrightarrow> list_all (\<lambda>e. case e of Stored _ _ \<Rightarrow> True | _ \<Rightarrow> False) es"

lemma acks_append [simp]: "acks (es @ fs) = acks es @ acks fs"
  by (induction es rule: acks.induct) auto

lemma store_all_snoc:
  "store_all store rqs w = (w1, es) \<Longrightarrow> all_stored es \<Longrightarrow>
   store_all store (rqs @ [rq]) w =
     (case store rq w1 of (w', Err e) \<Rightarrow> (w', es @ [StoreError e])
      | (w', Ok out) \<Rightarrow> (w', es @ [Stored (rq_episode_index rq) out]))"
proof (induction rqs arbitrary: w es)
  case Nil
  then show ?case by (auto split: prod.splits sum.splits)
next
  case (Cons r rqs)
  then show ?case by (auto simp: all_stored_def split: prod.splits sum.splits)
qed

lemma all_stored_acks: "store_all store rqs w = (w1, es) \<Longrightarrow> all_stored es \<Longrightarrow>
   map est_episode_index (acks es) = map rq_episode_index rqs"
proof (induction rqs arbitrary: w es)
  case Nil
  then show ?case by simp
next
  case (Cons r rqs)
  then show ?case by (auto simp: all_stored_def split: prod.splits sum.splits)
qed

fun stores :: "worker_command list \<Rightarrow> episode_ready_request list" where
  "stores [] = []"
| "stores (StoreEpisode rq # cs) = rq # stores cs"
| "stores (WorkerShutdown # cs) = stores cs"

fun before_shutdown :: "worker_command list \<Rightarrow> episode_ready_request list" where
  "before_shutdown (StoreEpisode rq # cs) = rq # before_shutdown cs"
| "before_shutdown _ = []"

lemma stores_append [simp]: "stores (cs @ ds) = stores cs @ stores ds"
  by (induction cs rule: stores.induct) auto

lemma before_shutdown_append:
  "before_shutdown (cs @ ds) = (if WorkerShutdown \<in> set cs then before_shutdown cs else stores cs @ before_shutdown ds)"
  by (induction cs rule: stores.induct) auto

lemma prefix_before_shutdown: "prefix (before_shutdown cs) (stores cs)"
  by (induction cs rule: stores.induct) auto

text \<open>Everything the worker has done is the reference run over the requests it has taken; the
  published messages and the unread events are its acknowledgements.\<close>

definition in_order :: "'w store_episode \<Rightarrow> 'w \<Rightarrow> 'w storage_state \<Rightarrow> bool" where
  "in_order store w0 s \<longleftrightarrow>
     (\<exists>es. store_all store (ss_done s) w0 = (ss_world s, es) \<and> ss_out s @ acks (ss_events s) = acks es
       \<and> (ss_alive s \<or> ss_shutdown_complete s \<or> ShutdownComplete \<in> set (ss_events s) \<longrightarrow> all_stored es))
     \<and> ss_done s @ stores (ss_queue s) = ss_received s
     \<and> (ss_shutdown_complete s \<longrightarrow> ss_events s = [] \<and> \<not> ss_alive s)
     \<and> (\<forall>xs ys. ss_events s = xs @ ShutdownComplete # ys \<longrightarrow> ys = [] \<and> \<not> ss_alive s)
     \<and> (ss_alive s \<longrightarrow> ss_shutdown_sent s = (WorkerShutdown \<in> set (ss_queue s)))"

lemma in_order_init: "in_order store w0 (storage_init w0)"
  by (simp add: in_order_def storage_init_def all_stored_def)

lemma store_worker_step_cases:
  obtains (idle) "store_worker_step store s = s"
  | (stored) rq cmds w out where "ss_alive s" "ss_queue s = StoreEpisode rq # cmds" "store rq (ss_world s) = (w, Ok out)"
      "store_worker_step store s = s\<lparr>ss_world := w, ss_queue := cmds, ss_done := ss_done s @ [rq],
         ss_events := ss_events s @ [Stored (rq_episode_index rq) out]\<rparr>"
  | (failed) rq cmds w e where "ss_alive s" "ss_queue s = StoreEpisode rq # cmds" "store rq (ss_world s) = (w, Err e)"
      "store_worker_step store s = s\<lparr>ss_world := w, ss_queue := cmds, ss_done := ss_done s @ [rq],
         ss_events := ss_events s @ [StoreError e], ss_alive := False\<rparr>"
  | (closed) cmds where "ss_alive s" "ss_queue s = WorkerShutdown # cmds"
      "store_worker_step store s = s\<lparr>ss_queue := cmds, ss_events := ss_events s @ [ShutdownComplete], ss_alive := False\<rparr>"
proof -
  consider "\<not> ss_alive s" | "ss_queue s = []" | rq cmds where "ss_alive s" "ss_queue s = StoreEpisode rq # cmds"
    | cmds where "ss_alive s" "ss_queue s = WorkerShutdown # cmds"
    by (metis list.exhaust worker_command.exhaust)
  then show thesis
  proof cases
    case 3
    obtain w r where "store rq (ss_world s) = (w, r)" by fastforce
    with 3 show ?thesis by (cases r) (auto simp: store_worker_step_def intro: stored failed)
  qed (auto simp: store_worker_step_def intro: idle closed)
qed

lemma in_order_worker: "in_order store w0 s \<Longrightarrow> in_order store w0 (store_worker_step store s)"
proof (cases store s rule: store_worker_step_cases)
  case idle
  then show "in_order store w0 s \<Longrightarrow> ?thesis" by simp
next
  case (stored rq cmds w out)
  assume i: "in_order store w0 s"
  then have no: "ss_events s \<noteq> xs @ ShutdownComplete # ys" for xs ys using stored by (auto simp: in_order_def)
  then have "ShutdownComplete \<notin> set (ss_events s)" by (meson split_list)
  moreover have "ys = []" if "ss_events s @ [Stored (rq_episode_index rq) out] = xs @ ShutdownComplete # ys" for xs ys
    using that no by (cases ys rule: rev_cases) auto
  ultimately show ?thesis
    using i stored by (fastforce simp: in_order_def all_stored_def dest!: store_all_snoc [of _ _ _ _ _ rq])
next
  case (failed rq cmds w e)
  assume i: "in_order store w0 s"
  then have no: "ss_events s \<noteq> xs @ ShutdownComplete # ys" for xs ys using failed by (auto simp: in_order_def)
  then have "ShutdownComplete \<notin> set (ss_events s)" by (meson split_list)
  moreover have "ys = []" if "ss_events s @ [StoreError e] = xs @ ShutdownComplete # ys" for xs ys
    using that no by (cases ys rule: rev_cases) auto
  ultimately show ?thesis
    using i failed by (fastforce simp: in_order_def all_stored_def dest!: store_all_snoc [of _ _ _ _ _ rq])
next
  case (closed cmds)
  assume i: "in_order store w0 s"
  then have no: "ss_events s \<noteq> xs @ ShutdownComplete # ys" for xs ys using closed by (auto simp: in_order_def)
  moreover have "ys = []" if "ss_events s @ [ShutdownComplete] = xs @ ShutdownComplete # ys" for xs ys
    using that no by (cases ys rule: rev_cases) auto
  ultimately show ?thesis using i closed by (fastforce simp: in_order_def)
qed


lemma in_order_ack:
  assumes "in_order store w0 s" and "ss_events s = Stored n p # es"
  shows "in_order store w0 (s\<lparr>ss_events := es,
    ss_out := ss_out s @ [\<lparr>est_episode_index = n, est_output_path = FixedString256_new p\<rparr>]\<rparr>)"
proof -
  have "ys = [] \<and> \<not> ss_alive s" if "es = xs @ ShutdownComplete # ys" for xs ys
    using assms that unfolding in_order_def by (metis append_Cons)
  then show ?thesis using assms by (auto simp: in_order_def)
qed

lemma in_order_complete:
  assumes "in_order store w0 s" and "ss_events s = ShutdownComplete # es"
  shows "in_order store w0 (s\<lparr>ss_events := es, ss_shutdown_complete := True\<rparr>)"
proof -
  have "es = [] \<and> \<not> ss_alive s" using assms unfolding in_order_def by (metis append_Nil)
  then show ?thesis using assms by (auto simp: in_order_def)
qed

interpretation ordered: storage_invariant store "in_order store w0" for store :: "'w store_episode" and w0
proof
  show "in_order store w0 s \<Longrightarrow> in_order store w0 (store_worker_step store s)" for s by (rule in_order_worker)
qed (rule in_order_ack in_order_complete; assumption | fastforce simp: in_order_def)+

text \<open>Once the shutdown is queued, what the worker will ever take is fixed.\<close>

definition worker_takes :: "'w storage_state \<Rightarrow> episode_ready_request list" where
  "worker_takes s = ss_done s @ (if ss_alive s then before_shutdown (ss_queue s) else [])"

definition cut_at :: "episode_ready_request list \<Rightarrow> 'w storage_state \<Rightarrow> bool" where
  "cut_at rqs s \<longleftrightarrow> ss_shutdown_sent s \<and> prefix (worker_takes s) rqs
     \<and> (ss_alive s \<longrightarrow> WorkerShutdown \<in> set (ss_queue s))"

definition covers :: "episode_ready_request list \<Rightarrow> 'w storage_state \<Rightarrow> bool" where
  "covers rqs s \<longleftrightarrow>
     (prefix rqs (worker_takes s) \<or> \<not> ss_alive s \<and> \<not> ss_shutdown_complete s \<and> ShutdownComplete \<notin> set (ss_events s))
     \<and> (ss_alive s \<longrightarrow> \<not> ss_shutdown_complete s \<and> ShutdownComplete \<notin> set (ss_events s)
          \<and> ss_shutdown_sent s = (WorkerShutdown \<in> set (ss_queue s)))"

lemma before_shutdown_stores: "WorkerShutdown \<notin> set cs \<Longrightarrow> before_shutdown cs = stores cs"
  by (induction cs rule: stores.induct) auto

interpretation shut: storage_invariant store "cut_at rqs" for store :: "'w store_episode" and rqs
proof
  fix s :: "'w storage_state" assume c: "cut_at rqs s"
  then show "cut_at rqs (store_worker_step store s)"
    by (cases store s rule: store_worker_step_cases)
      (auto simp: cut_at_def worker_takes_def dest: append_prefixD,
        metis append_Cons append_Nil append_assoc append_prefixD)
qed (auto simp: cut_at_def worker_takes_def before_shutdown_append)

interpretation covered: storage_invariant store "covers rqs" for store :: "'w store_episode" and rqs
proof
  fix s :: "'w storage_state" assume c: "covers rqs s"
  show "covers rqs (store_worker_step store s)"
  proof (cases store s rule: store_worker_step_cases)
    case (failed rq cmds w e)
    then show ?thesis using c by (auto simp: covers_def worker_takes_def)
  qed (use c in \<open>auto simp: covers_def worker_takes_def\<close>)
qed (auto simp: covers_def worker_takes_def before_shutdown_append before_shutdown_stores prefix_prefix
    simp flip: append_assoc)

theorem storage_in_order:
  assumes "storage_loop store turns (storage_init w0) = (s, r)"
  shows "ss_world s = fst (store_all store (ss_done s) w0)"
    and "prefix (ss_out s) (acks (snd (store_all store (ss_done s) w0)))"
    and "prefix (ss_done s) (ss_received s)"
proof -
  note i = ordered.inv_loop [OF in_order_init assms]
  then obtain es where es: "store_all store (ss_done s) w0 = (ss_world s, es)" "ss_out s @ acks (ss_events s) = acks es"
    and rec: "ss_done s @ stores (ss_queue s) = ss_received s" unfolding in_order_def by blast
  then show "ss_world s = fst (store_all store (ss_done s) w0)" by simp
  show "prefix (ss_out s) (acks (snd (store_all store (ss_done s) w0)))" using es by (metis prefixI snd_conv)
  show "prefix (ss_done s) (ss_received s)" using rec by (metis prefixI)
qed

lemma turn_not_finished: "storage_turn_step store t s \<noteq> (s', Err StorageFinished)"
proof
  let ?s = "store_worker_steps store (tu_before_events t) s"
  assume step: "storage_turn_step store t s = (s', Err StorageFinished)"
  have 1: "drain_store_events send es x \<noteq> (y, Err StorageFinished)" for send es x y
    by (induction send es x rule: drain_store_events.induct) (auto simp: Let_def split: sum.splits)
  have 2: "drain_storage_controls store rs x \<noteq> (y, Err StorageFinished)" for rs x y
    by (induction rs arbitrary: x) (auto simp: Let_def send_command_def split: sum.splits if_splits prod.splits)
  have 3: "drain_readies store rs x \<noteq> (y, Err StorageFinished)" for rs x y
    by (induction rs arbitrary: x)
      (auto simp: Let_def send_command_def split: sum.splits if_splits prod.splits option.splits)
  obtain s1 r1 where d: "drain_store_events (tu_publish t) (ss_events ?s) ?s = (s1, r1)" by fastforce
  obtain s2 r2 where c: "drain_storage_controls store (tu_controls t) s1 = (s2, r2)" by fastforce
  show False
    using step d c 1 [of _ _ _ s1] 2 [of _ s1 s2] 3 [of _ s2 s']
    by (cases r1; cases r2) (auto simp: storage_turn_step_def Let_def)
qed

lemma finished_complete: "storage_loop store turns s = (s', Err StorageFinished) \<Longrightarrow> ss_shutdown_complete s'"
proof (induction turns arbitrary: s)
  case Nil
  then show ?case by (auto split: if_splits)
next
  case (Cons t turns)
  obtain s1 r1 where step: "storage_turn_step store t s = (s1, r1)" by fastforce
  then have "r1 \<noteq> Err StorageFinished" using turn_not_finished by blast
  then show ?case using Cons.prems step Cons.IH [of s1] by (auto split: if_splits sum.splits)
qed

theorem storage_finished:
  assumes "storage_loop store turns (storage_init w0) = (s, Err StorageFinished)"
  shows "ss_out s = acks (snd (store_all store (ss_done s) w0))"
    and "map est_episode_index (ss_out s) = map rq_episode_index (ss_done s)"
proof -
  note i = ordered.inv_loop [OF in_order_init assms]
  have c: "ss_shutdown_complete s" by (rule finished_complete [OF assms])
  from i c obtain es where es: "store_all store (ss_done s) w0 = (ss_world s, es)" "ss_out s @ acks (ss_events s) = acks es"
    "all_stored es" "ss_events s = []" by (auto simp: in_order_def)
  then show "ss_out s = acks (snd (store_all store (ss_done s) w0))" by simp
  with es all_stored_acks [OF es(1,3)] show "map est_episode_index (ss_out s) = map rq_episode_index (ss_done s)" by simp
qed

text \<open>What a list of turns announces before the shutdown command. Within a turn the commands come first.\<close>

fun requests_of :: "(nat \<times> (episode_ready, string) result) list \<Rightarrow> episode_ready_request list" where
  "requests_of [] = []"
| "requests_of ((k, Ok ready) # rs) =
     (case request_of ready of Some rq \<Rightarrow> rq # requests_of rs | None \<Rightarrow> requests_of rs)"
| "requests_of ((k, Err e) # rs) = requests_of rs"

definition shuts_down :: "storage_turn \<Rightarrow> bool" where
  "shuts_down t \<longleftrightarrow> list_ex (\<lambda>(k, r). r = Ok Shutdown) (tu_controls t)"

fun announced_in_time :: "storage_turn list \<Rightarrow> episode_ready_request list" where
  "announced_in_time [] = []"
| "announced_in_time (t # ts) = (if shuts_down t then [] else requests_of (tu_readies t) @ announced_in_time ts)"

text \<open>The phases of a turn that do not touch the log of requests or the flag.\<close>

lemma step_log:
  "ss_received (store_worker_step store s) = ss_received s" "ss_shutdown_sent (store_worker_step store s) = ss_shutdown_sent s"
  by (cases store s rule: store_worker_step_cases; simp)+

lemma steps_log [simp]:
  "ss_received (store_worker_steps store k s) = ss_received s" "ss_shutdown_sent (store_worker_steps store k s) = ss_shutdown_sent s"
  by (induction k arbitrary: s) (simp_all add: step_log)

lemma events_log:
  "drain_store_events send es s = (s', r) \<Longrightarrow> ss_received s' = ss_received s \<and> ss_shutdown_sent s' = ss_shutdown_sent s"
  by (induction send es s rule: drain_store_events.induct) (auto simp: Let_def split: sum.splits)

lemma controls_log:
  "drain_storage_controls store rs s = (s', r) \<Longrightarrow> ss_received s' = ss_received s
     \<and> (r = Ok () \<longrightarrow> ss_shutdown_sent s' = (ss_shutdown_sent s \<or> list_ex (\<lambda>(k, r). r = Ok Shutdown) rs))
     \<and> (ss_shutdown_sent s \<longrightarrow> ss_shutdown_sent s')"
proof (induction rs arbitrary: s)
  case (Cons x rs)
  obtain k received where x: "x = (k, received)" by (cases x)
  show ?case
    using Cons.prems Cons.IH
    by (cases received) (fastforce simp: x Let_def send_command_def split: if_splits)+
qed simp

lemma readies_log:
  "drain_readies store rs s = (s', r) \<Longrightarrow> ss_shutdown_sent s' = ss_shutdown_sent s
     \<and> prefix (ss_received s') (ss_received s @ requests_of rs)
     \<and> (r = Ok () \<longrightarrow> ss_received s' = ss_received s @ requests_of rs)"
proof (induction rs arbitrary: s)
  case (Cons x rs)
  obtain k received where x: "x = (k, received)" by (cases x)
  show ?case
    using Cons.prems Cons.IH
    by (cases received) (fastforce simp: x Let_def send_command_def split: option.splits if_splits)+
qed simp

text \<open>Only the shutdown command makes the worker announce its end.\<close>

definition closing_sent :: "'w storage_state \<Rightarrow> bool" where
  "closing_sent s \<longleftrightarrow> (ss_shutdown_complete s \<or> ShutdownComplete \<in> set (ss_events s) \<or> WorkerShutdown \<in> set (ss_queue s)
     \<longrightarrow> ss_shutdown_sent s)"

interpretation closing: storage_invariant store closing_sent for store :: "'w store_episode"
proof
  fix s :: "'w storage_state" assume c: "closing_sent s"
  then show "closing_sent (store_worker_step store s)"
    by (cases store s rule: store_worker_step_cases) (auto simp: closing_sent_def)
qed (auto simp: closing_sent_def)

lemma in_order_done: "in_order store w0 s \<Longrightarrow> prefix (ss_done s) (ss_received s)"
  unfolding in_order_def by (metis prefixI)

lemma sent_cuts:
  assumes "in_order store w0 s" and "ss_shutdown_sent s"
  shows "cut_at (ss_received s) s"
proof -
  have rec: "ss_done s @ stores (ss_queue s) = ss_received s" using assms(1) unfolding in_order_def by blast
  have "prefix (worker_takes s) (ss_received s)"
    using prefix_before_shutdown [of "ss_queue s"] unfolding worker_takes_def rec [symmetric] by simp
  with assms show ?thesis by (auto simp: cut_at_def in_order_def)
qed

lemma unsent_covers:
  assumes "in_order store w0 s" and "closing_sent s" and "\<not> ss_shutdown_sent s"
  shows "covers (ss_received s) s"
proof -
  have rec: "ss_done s @ stores (ss_queue s) = ss_received s" using assms(1) unfolding in_order_def by blast
  from assms(2,3) have none: "\<not> ss_shutdown_complete s" "ShutdownComplete \<notin> set (ss_events s)" "WorkerShutdown \<notin> set (ss_queue s)"
    by (auto simp: closing_sent_def)
  show ?thesis
    using none assms(3) by (simp add: covers_def worker_takes_def before_shutdown_stores rec)
qed

text \<open>One turn that starts before the shutdown command.\<close>

lemma turn_before_shutdown:
  assumes "in_order store w0 s" and "\<not> ss_shutdown_sent s" and "storage_turn_step store t s = (s', r)"
  shows "if shuts_down t then cut_at (ss_received s) s' \<or> r \<noteq> Ok () \<and> prefix (ss_done s') (ss_received s)
    else prefix (ss_received s') (ss_received s @ requests_of (tu_readies t))
      \<and> (r = Ok () \<longrightarrow> \<not> ss_shutdown_sent s' \<and> ss_received s' = ss_received s @ requests_of (tu_readies t))"
proof -
  let ?s = "store_worker_steps store (tu_before_events t) s"
  obtain s1 r1 where d: "drain_store_events (tu_publish t) (ss_events ?s) ?s = (s1, r1)" by fastforce
  obtain s2 r2 where c: "drain_storage_controls store (tu_controls t) s1 = (s2, r2)" by fastforce
  obtain s3 r3 where q: "drain_readies store (tu_readies t) s2 = (s3, r3)" by fastforce
  note i1 = ordered.inv_drain_events [OF ordered.inv_steps [OF assms(1)] refl d]
  note i2 = ordered.inv_controls [OF i1 c]
  from events_log [OF d] have l1: "ss_received s1 = ss_received s" "\<not> ss_shutdown_sent s1" using assms(2) by simp_all
  from controls_log [OF c] l1 have l2: "ss_received s2 = ss_received s" "r2 = Ok () \<Longrightarrow> ss_shutdown_sent s2 = shuts_down t"
    by (simp_all add: shuts_down_def)
  note l3 = readies_log [OF q]
  have cases: "(is_ok r1 \<and> is_ok r2 \<and> s' = s3 \<and> r = r3) \<or> (\<not> is_ok r1 \<and> s' = s1 \<and> r = r1) \<or> (is_ok r1 \<and> \<not> is_ok r2 \<and> s' = s2 \<and> r = r2)"
    using assms(3) d c q by (cases r1; cases r2) (auto simp: storage_turn_step_def Let_def)
  show ?thesis
  proof (cases "shuts_down t")
    case True
    have "cut_at (ss_received s) s3" if "is_ok r2"
      using shut.inv_readies [OF sent_cuts [OF i2] q] l2 that True by (simp add: unit_result_ok)
    with True cases l1 l2 in_order_done [OF i1] in_order_done [OF i2] show ?thesis
      by (auto simp: unit_result_ok)
  next
    case False
    with cases l1 l2 l3 show ?thesis by (auto simp: unit_result_ok prefixI)
  qed
qed

theorem storage_cut:
  assumes "in_order store w0 s" and "closing_sent s" and "\<not> ss_shutdown_sent s" and "storage_loop store ts s = (s', r)"
  shows "prefix (ss_done s') (ss_received s @ announced_in_time ts)
    \<and> (r = Err StorageFinished \<longrightarrow> ss_done s' = ss_received s @ announced_in_time ts)"
  using assms
proof (induction ts arbitrary: s)
  case Nil
  then have "\<not> ss_shutdown_complete s" by (auto simp: closing_sent_def)
  with Nil in_order_done show ?case by (auto split: if_splits)
next
  case (Cons t ts)
  have going: "\<not> ss_shutdown_complete s" using Cons.prems by (auto simp: closing_sent_def)
  obtain s1 r1 where step: "storage_turn_step store t s = (s1, r1)" by fastforce
  note turn = turn_before_shutdown [OF Cons.prems(1,3) step]
  note i1 = ordered.inv_turn [OF Cons.prems(1) step]
  have rest: "if is_ok r1 then storage_loop store ts s1 = (s', r) else s' = s1 \<and> r = r1 \<and> r \<noteq> Err StorageFinished"
    using Cons.prems(4) going step turn_not_finished [of store t s s1] by (cases r1) auto
  show ?case
  proof (cases "shuts_down t")
    case True
    have "prefix (ss_done s') (ss_received s)"
    proof (cases "is_ok r1")
      case ok: True
      then have "cut_at (ss_received s) s1" using turn True by (auto simp: unit_result_ok)
      from shut.inv_loop [OF this, of store ts s' r] rest ok show ?thesis
        by (auto simp: cut_at_def worker_takes_def dest: append_prefixD)
    next
      case False
      with turn True rest show ?thesis by (auto simp: cut_at_def worker_takes_def dest: append_prefixD)
    qed
    moreover have "prefix (ss_received s) (ss_done s')" if "r = Err StorageFinished"
      using covered.inv_loop [OF unsent_covers [OF Cons.prems(1-3)] Cons.prems(4)] finished_complete [of store "t # ts" s s']
        Cons.prems(4) that by (auto simp: covers_def worker_takes_def)
    ultimately show ?thesis using True by (auto dest: prefix_order.antisym)
  next
    case False
    show ?thesis
    proof (cases "is_ok r1")
      case True
      with turn False have l: "\<not> ss_shutdown_sent s1" "ss_received s1 = ss_received s @ requests_of (tu_readies t)"
        by (auto simp: unit_result_ok)
      from Cons.IH [OF i1 closing.inv_turn [OF Cons.prems(2) step] l(1)] rest True False l(2) show ?thesis by simp
    next
      case err: False
      with turn False have "prefix (ss_received s1) (ss_received s @ requests_of (tu_readies t))" by simp
      with in_order_done [OF i1] have "prefix (ss_done s1) (ss_received s @ requests_of (tu_readies t))"
        by (rule prefix_order.trans)
      then have "prefix (ss_done s1) (ss_received s @ requests_of (tu_readies t) @ announced_in_time ts)"
        by (metis append_assoc prefix_prefix)
      with rest err False show ?thesis by auto
    qed
  qed
qed

section \<open>Properties\<close>

text \<open>C14: wherever a storage process stops, what it has stored is a prefix of the episodes
  announced to it, in their order, the world is as if just these had been stored one after the
  other, and every notice it published is that of such an episode, again in order.\<close>

theorem storage_acknowledges_in_order:
  assumes "storage_loop store turns (storage_init w0) = (s, r)"
  shows "prefix (ss_done s) (ss_received s) \<and> ss_world s = fst (store_all store (ss_done s) w0)
    \<and> prefix (ss_out s) (acks (snd (store_all store (ss_done s) w0)))"
  using storage_in_order [OF assms] by blast

definition sample_ready :: "u32 \<Rightarrow> episode_ready" where
  "sample_ready n = \<lparr>er_episode_index = n, er_staging_dir = FixedString256_new ''/staging''\<rparr>"

definition sample_storage_turns :: "storage_turn list" where
  "sample_storage_turns =
     [\<lparr>tu_before_events = 0, tu_publish = (\<lambda>m. Ok ()), tu_controls = [], tu_readies = [(0, Ok (sample_ready 4)), (1, Ok (sample_ready 5))]\<rparr>,
      \<lparr>tu_before_events = 0, tu_publish = (\<lambda>m. Ok ()), tu_controls = [(0, Ok Shutdown)], tu_readies = []\<rparr>]"

definition list_store :: "u32 list store_episode" where
  "list_store rq w = (w @ [rq_episode_index rq], Ok ''out'')"

definition sample_storage_end :: "storage_turn" where
  "sample_storage_end = \<lparr>tu_before_events = 2, tu_publish = (\<lambda>m. Ok ()), tu_controls = [], tu_readies = []\<rparr>"

definition staging_request :: "u32 \<Rightarrow> episode_ready_request" where
  "staging_request n = \<lparr>rq_episode_index = n, rq_staging_dir = ''/staging''\<rparr>"

lemma sample_ready_read: "request_of (sample_ready n) = Some (staging_request n)"
proof -
  have "fixed_string_as_str (FixedString256_new ''/staging'') = Some ''/staging''" by code_simp
  then show ?thesis by (simp add: request_of_def sample_ready_def staging_request_def)
qed

lemma sample_storage_first: "storage_loop list_store (take 1 sample_storage_turns) (storage_init []) =
  ((storage_init [4])\<lparr>ss_received := [staging_request 4, staging_request 5], ss_queue := [StoreEpisode (staging_request 5)],
    ss_events := [Stored 4 ''out''], ss_done := [staging_request 4]\<rparr>, Ok ())"
  by (simp add: sample_storage_turns_def storage_turn_step_def Let_def storage_init_def sample_ready_read send_command_def
      eval_nat_numeral store_worker_step_def list_store_def) (simp add: staging_request_def)

lemma sample_storage_run: "\<exists>s. storage_loop list_store (sample_storage_turns @ [sample_storage_end]) (storage_init []) = (s, Err StorageFinished)
    \<and> ss_world s = [4, 5]"
  by (simp add: sample_storage_turns_def sample_storage_end_def storage_turn_step_def Let_def storage_init_def sample_ready_read send_command_def
      eval_nat_numeral store_worker_step_def list_store_def) (simp add: staging_request_def)

theorem storage_acknowledges_in_order_witness:
  "prefix [staging_request 4] [staging_request 4, staging_request 5]
    \<and> [4] = fst (store_all list_store [staging_request 4] [])"
  using storage_acknowledges_in_order [OF sample_storage_first] by (simp add: storage_init_def)

text \<open>C13: the shutdown command splits the announced episodes. However a storage process ends, it has
  stored no episode it reads in the turn in which it reads the shutdown or later, and one that
  finishes has stored exactly those announced before that turn.\<close>

theorem shutdown_cuts_storage:
  assumes "storage_loop store turns (storage_init w0) = (s, r)"
  shows "prefix (ss_done s) (announced_in_time turns) \<and> (r = Err StorageFinished \<longrightarrow> ss_done s = announced_in_time turns)"
  using storage_cut [OF in_order_init _ _ assms] by (simp add: closing_sent_def storage_init_def)

definition late_turns :: "storage_turn list" where
  "late_turns =
     [\<lparr>tu_before_events = 0, tu_publish = (\<lambda>m. Ok ()), tu_controls = [], tu_readies = [(0, Ok (sample_ready 4)), (1, Ok (sample_ready 5))]\<rparr>,
      \<lparr>tu_before_events = 0, tu_publish = (\<lambda>m. Ok ()), tu_controls = [(0, Ok Shutdown)], tu_readies = [(0, Ok (sample_ready 6))]\<rparr>,
      sample_storage_end]"

lemma late_turns_run: "\<exists>s. storage_loop list_store late_turns (storage_init []) = (s, Err StorageFinished)"
  by (simp add: late_turns_def sample_storage_end_def storage_turn_step_def Let_def storage_init_def sample_ready_read send_command_def
      eval_nat_numeral store_worker_step_def list_store_def)

theorem shutdown_cuts_storage_witness:
  "\<exists>s. storage_loop list_store late_turns (storage_init []) = (s, Err StorageFinished)
     \<and> ss_done s = [staging_request 4, staging_request 5]"
proof -
  obtain s where run: "storage_loop list_store late_turns (storage_init []) = (s, Err StorageFinished)"
    using late_turns_run by blast
  have "announced_in_time late_turns = [staging_request 4, staging_request 5]"
    by (simp add: late_turns_def shuts_down_def sample_ready_read)
  with shutdown_cuts_storage [OF run] run show ?thesis by simp
qed

end
