(* ===== verification/Json_Value.thy ===== *)
theory Json_Value
  imports File_System Ordered_Map "HOL-Library.Char_ord" "HOL-Library.List_Lexorder"
begin

text \<open>
  JSON documents as the sources handle them: \<open>serde_json::Value\<close> and the code \<open>derive(Serialize)\<close>
  and \<open>derive(Deserialize)\<close> generate for a struct with named fields. The text form is the work of
  the \<open>serde_json\<close> crate and stays an argument. An object keeps its members in the order of the text.
\<close>

datatype json =
    JNull | JBool bool | JInt int | JFloat string | JString string | JArray "json list"
  | JObject "(string \<times> json) list"

section \<open>The text form\<close>

record json_lib =
  jl_pretty :: "json \<Rightarrow> bytes"
  jl_compact :: "json \<Rightarrow> bytes"
  jl_parse :: "bytes \<Rightarrow> (json, string) result"

definition newline :: u8 where "newline = 10"

text \<open>\<open>str\<close> bytes and file bytes.\<close>

definition bytes_of :: "string \<Rightarrow> bytes" where
  "bytes_of s = map (\<lambda>c. of_nat (byte c)) s"

definition string_of :: "bytes \<Rightarrow> string" where
  "string_of bs = map (\<lambda>b. char_of (unat b)) bs"

lemma string_of_bytes_of [simp]: "string_of (bytes_of s) = s"
proof -
  have "char_of (unat (of_nat (byte c) :: u8)) = c" for c
  proof -
    have "byte c < 256" by (simp add: byte_def)
    then have "unat (of_nat (byte c) :: u8) = byte c" by (simp add: unat_of_nat)
    then show ?thesis by (simp add: byte_def)
  qed
  then show ?thesis by (simp add: string_of_def bytes_of_def map_idI)
qed

section \<open>Reading a struct\<close>

datatype json_error = MissingField string | DuplicateField string | WrongType string | ParseError string

text \<open>The members a field is read from: its name and its aliases. A second one is an error.\<close>

definition struct_field :: "string list \<Rightarrow> json \<Rightarrow> (json option, json_error) result" where
  "struct_field names j =
     (case j of
        JObject ms \<Rightarrow>
          (case filter (\<lambda>(k, v). k \<in> set names) ms of
             [] \<Rightarrow> Ok None
           | [(k, v)] \<Rightarrow> Ok (Some v)
           | _ \<Rightarrow> Err (DuplicateField (hd names)))
      | _ \<Rightarrow> Err (WrongType (hd names)))"

definition required :: "(json \<Rightarrow> ('a, json_error) result) \<Rightarrow> string list \<Rightarrow> json \<Rightarrow> ('a, json_error) result" where
  "required de names j = bind_ok (struct_field names j)
     (\<lambda>v. case v of None \<Rightarrow> Err (MissingField (hd names)) | Some v \<Rightarrow> de v)"

text \<open>An \<open>Option\<close> field may be absent or null.\<close>

definition optional :: "(json \<Rightarrow> ('a, json_error) result) \<Rightarrow> string list \<Rightarrow> json \<Rightarrow> ('a option, json_error) result" where
  "optional de names j = bind_ok (struct_field names j)
     (\<lambda>v. case v of None \<Rightarrow> Ok None | Some JNull \<Rightarrow> Ok None
        | Some v \<Rightarrow> bind_ok (de v) (\<lambda>a. Ok (Some a)))"

fun de_string :: "json \<Rightarrow> (string, json_error) result" where
  "de_string (JString s) = Ok s"
| "de_string _ = Err (WrongType ''string'')"

fun de_u32 :: "json \<Rightarrow> (u32, json_error) result" where
  "de_u32 (JInt n) = (if 0 \<le> n \<and> n < 2 ^ 32 then Ok (of_int n) else Err (WrongType ''u32''))"
| "de_u32 _ = Err (WrongType ''u32'')"

fun de_u64 :: "json \<Rightarrow> (u64, json_error) result" where
  "de_u64 (JInt n) = (if 0 \<le> n \<and> n < 2 ^ 64 then Ok (of_int n) else Err (WrongType ''u64''))"
| "de_u64 _ = Err (WrongType ''u64'')"

fun map_ok :: "('a \<Rightarrow> ('b, 'e) result) \<Rightarrow> 'a list \<Rightarrow> ('b list, 'e) result" where
  "map_ok f [] = Ok []"
| "map_ok f (x # xs) = bind_ok (f x) (\<lambda>y. bind_ok (map_ok f xs) (\<lambda>ys. Ok (y # ys)))"

definition de_list :: "(json \<Rightarrow> ('a, json_error) result) \<Rightarrow> json \<Rightarrow> ('a list, json_error) result" where
  "de_list de j = (case j of JArray js \<Rightarrow> map_ok de js | _ \<Rightarrow> Err (WrongType ''array''))"

text \<open>A \<open>BTreeMap<String, T>\<close>: the last of equal keys wins.\<close>

definition de_map :: "(json \<Rightarrow> ('a, json_error) result) \<Rightarrow> json \<Rightarrow> ((string, 'a) btree_map, json_error) result" where
  "de_map de j =
     (case j of
        JObject ms \<Rightarrow> bind_ok (map_ok (\<lambda>(k, v). bind_ok (de v) (\<lambda>a. Ok (k, a))) ms)
          (\<lambda>kvs. Ok (fold (\<lambda>(k, a). bt_insert k a) kvs []))
      | _ \<Rightarrow> Err (WrongType ''object''))"

section \<open>Writing a struct\<close>

definition ser_u32 :: "u32 \<Rightarrow> json" where "ser_u32 n = JInt (int (unat n))"
definition ser_u64 :: "u64 \<Rightarrow> json" where "ser_u64 n = JInt (int (unat n))"

definition ser_option :: "('a \<Rightarrow> json) \<Rightarrow> 'a option \<Rightarrow> json" where
  "ser_option ser m = (case m of None \<Rightarrow> JNull | Some a \<Rightarrow> ser a)"

text \<open>\<open>skip_serializing_if = "Option::is_none"\<close>\<close>

definition skip_none :: "string \<Rightarrow> ('a \<Rightarrow> json) \<Rightarrow> 'a option \<Rightarrow> (string \<times> json) list" where
  "skip_none name ser m = (case m of None \<Rightarrow> [] | Some a \<Rightarrow> [(name, ser a)])"

definition ser_map :: "('a \<Rightarrow> json) \<Rightarrow> (string, 'a) btree_map \<Rightarrow> json" where
  "ser_map ser m = JObject (map (\<lambda>(k, a). (k, ser a)) m)"

section \<open>\<open>Value\<close> accessors\<close>

text \<open>\<open>Value::get\<close> on a parsed object: the last of equal keys wins.\<close>

definition value_get :: "string \<Rightarrow> json \<Rightarrow> json option" where
  "value_get k j = (case j of JObject ms \<Rightarrow> map_of (rev ms) k | _ \<Rightarrow> None)"

definition as_str :: "json \<Rightarrow> string option" where
  "as_str j = (case j of JString s \<Rightarrow> Some s | _ \<Rightarrow> None)"

definition as_u64 :: "json \<Rightarrow> u64 option" where
  "as_u64 j = (case j of JInt n \<Rightarrow> if 0 \<le> n \<and> n < 2 ^ 64 then Some (of_int n) else None | _ \<Rightarrow> None)"

definition as_i64 :: "json \<Rightarrow> i64 option" where
  "as_i64 j = (case j of JInt n \<Rightarrow> if - (2 ^ 63) \<le> n \<and> n < 2 ^ 63 then Some (of_int n) else None | _ \<Rightarrow> None)"

section \<open>Reading back what was written\<close>

named_theorems json_simps \<open>a written value read back\<close>

lemma de_ser_u32 [json_simps]: "de_u32 (ser_u32 n) = Ok n"
  using unsigned_less [of n, where ?'a = int] by (simp add: ser_u32_def)

lemma de_ser_u64 [json_simps]: "de_u64 (ser_u64 n) = Ok n"
  using unsigned_less [of n, where ?'a = int] by (simp add: ser_u64_def)

lemma bind_Ok [json_simps]: "bind_ok (Ok a) f = f a"
  by (simp add: bind_ok_def)

lemma map_ok_map: "(\<And>x. x \<in> set xs \<Longrightarrow> f (g x) = Ok (h x)) \<Longrightarrow> map_ok f (map g xs) = Ok (map h xs)"
  by (induction xs) (auto simp: bind_ok_def)

lemma de_list_array: "(\<And>x. x \<in> set xs \<Longrightarrow> de (ser x) = Ok x) \<Longrightarrow> de_list de (JArray (map ser xs)) = Ok xs"
  using map_ok_map [of xs de ser "\<lambda>x. x"] by (simp add: de_list_def)

lemma bt_insert_snoc: "\<forall>k' \<in> set (bt_keys m). k' < k \<Longrightarrow> bt_insert k v m = m @ [(k, v)]"
  by (induction m) (auto simp: bt_keys_def)

lemma fold_bt_insert: "bt_inv (m @ kvs) \<Longrightarrow> fold (\<lambda>(k, a). bt_insert k a) kvs m = m @ kvs"
proof (induction kvs arbitrary: m)
  case Nil
  show ?case by simp
next
  case (Cons kv kvs)
  have "\<forall>k' \<in> set (bt_keys m). k' < fst kv"
    using Cons.prems by (auto simp: bt_inv_def bt_keys_def sorted_wrt_append)
  with Cons.IH [of "m @ [kv]"] Cons.prems show ?case by (cases kv) (simp add: bt_insert_snoc)
qed

lemma de_ser_map:
  assumes "bt_inv m" and "\<And>k a. (k, a) \<in> set m \<Longrightarrow> de (ser a) = Ok a"
  shows "de_map de (ser_map ser m) = Ok m"
proof -
  have "map_ok (\<lambda>(k, v). bind_ok (de v) (\<lambda>a. Ok (k, a))) (map (\<lambda>(k, a). (k, ser a)) m) = Ok (map (\<lambda>x. x) m)"
    by (rule map_ok_map) (use assms(2) in \<open>auto simp: bind_ok_def\<close>)
  then show ?thesis using fold_bt_insert [of "[]" m] assms(1) by (simp add: de_map_def ser_map_def bind_ok_def)
qed

end
