(* ===== verification/Episode_Paths.thy ===== *)
theory Episode_Paths
  imports File_System Encoder_Media
begin

text \<open>
  The names the assemblers, the storage backends and the controller's resume probe agree on: the
  \<open>format!\<close> placeholders \<open>\{:03\}\<close> and \<open>\{:06\}\<close>, the directory and file names built with them, and
  \<open>str::parse::<u32>\<close>, which reads an episode index back.
\<close>

definition zero_pad :: "nat \<Rightarrow> string \<Rightarrow> string" where
  "zero_pad w s = replicate (w - length s) (CHR ''0'') @ s"

definition show_u32 :: "u32 \<Rightarrow> string" where
  "show_u32 n = show_nat (unat n)"

definition episode_name :: "u32 \<Rightarrow> string" where
  "episode_name n = ''episode_'' @ zero_pad 6 (show_u32 n)"

text \<open>\<open>format!("\{:03\}", episode_index / chunk_size)\<close>: dividing by zero panics.\<close>

definition chunk_index :: "u32 \<Rightarrow> u32 \<Rightarrow> string option" where
  "chunk_index n chunk_size = (if chunk_size = 0 then None else Some (zero_pad 3 (show_u32 (n div chunk_size))))"

lemma digits_value_zeros: "digits_value (replicate k (CHR ''0'') @ s) = digits_value s"
  by (induction k) (simp_all add: digits_value_def byte_def)

lemma zero_pad_digits:
  "list_all is_digit (zero_pad w (show_nat n))" "zero_pad w (show_nat n) \<noteq> []"
  "digits_value (zero_pad w (show_nat n)) = n"
  using show_nat_digits [of n] by (auto simp: zero_pad_def digits_value_zeros list_all_iff is_digit_def byte_def)

lemma parse_u32_zero_pad: "parse_u32 (zero_pad w (show_u32 n)) = Some n"
proof -
  note z = zero_pad_digits [of w "unat n"]
  have "hd (zero_pad w (show_nat (unat n))) \<noteq> CHR ''+''"
    using z digit_not_special by (cases "zero_pad w (show_nat (unat n))") auto
  moreover have "unat n < 2 ^ 32" using unsigned_less [of n, where ?'a = nat] by simp
  ultimately show ?thesis using z by (simp add: parse_u32_iff show_u32_def)
qed

lemma episode_name_inj: "episode_name n = episode_name m \<longleftrightarrow> n = m"
  using parse_u32_zero_pad [of 6] by (metis episode_name_def option.inject same_append_eq)

lemma no_slash_number: "CHR ''/'' \<notin> set (zero_pad w (show_u32 n))"
  using zero_pad_digits(1) [of w "unat n"] digit_not_special by (auto simp: list_all_iff show_u32_def)

lemma components_episode_name: "components (episode_name n) = [episode_name n]"
  by (rule components_single) (use no_slash_number in \<open>auto simp: episode_name_def\<close>)

end
