(* ===== verification/Lerobot_Rows.thy ===== *)
theory Lerobot_Rows
  imports Episode_Assembler Json_Value Episode_Paths Codec_Session
begin

text \<open>
  \<^verbatim>\<open>episode-lerobot/src/lerobot.rs\<close> and the tables of \<^verbatim>\<open>episode-lerobot/src/raw.rs\<close>: the row table of an
  episode on the canonical timeline, the per-channel raw tables, and the dataset description
  that goes into \<open>meta/info.json\<close>. A Parquet file is written by the \<open>parquet\<close> crate from a table,
  here a list of named columns. The arithmetic on \<open>f64\<close> is that of the reals.
\<close>

section \<open>Tables\<close>

datatype column = FloatColumn "f64 list" | Int64Column "i64 list" | BoolColumn "bool list" | ListColumn "f64 list list"

type_synonym table = "(string \<times> column) list"

fun column_length :: "column \<Rightarrow> nat" where
  "column_length (FloatColumn xs) = length xs"
| "column_length (Int64Column xs) = length xs"
| "column_length (BoolColumn xs) = length xs"
| "column_length (ListColumn xs) = length xs"

text \<open>\<open>value.replace('/', "__")\<close>\<close>

definition sanitize_component :: "string \<Rightarrow> string" where
  "sanitize_component s = concat (map (\<lambda>c. if c = CHR ''/'' then ''__'' else [c]) s)"

section \<open>The timeline\<close>

text \<open>\<open>f64::round\<close> of a value that is not negative, and the saturating cast to \<open>u64\<close>.\<close>

definition round_half_up :: "real \<Rightarrow> nat" where
  "round_half_up x = nat \<lfloor>x + 1 / 2\<rfloor>"

definition to_u64 :: "nat \<Rightarrow> u64" where
  "to_u64 n = of_nat (min n (2 ^ 64 - 1))"

definition row_count :: "u64 \<Rightarrow> u64 \<Rightarrow> u32 \<Rightarrow> nat" where
  "row_count start stop fps =
     (let n = round_half_up (real (unat (saturating_sub stop start)) / 1000000 * real (unat (max fps 1)))
      in if n = 0 then 1 else n)"

definition canonical_frame_timestamps :: "u64 \<Rightarrow> u64 \<Rightarrow> u32 \<Rightarrow> u64 list" where
  "canonical_frame_timestamps controller_start_us controller_stop_us fps =
     (let step_us = 1000000 / real (unat (max fps 1))
      in map (\<lambda>i. controller_start_us + to_u64 (round_half_up (real i * step_us)))
           [0 ..< row_count controller_start_us controller_stop_us fps])"

text \<open>\<open>i as f64 / fps as f64\<close>, with a divisor that may be zero.\<close>

definition seconds_at :: "nat \<Rightarrow> u32 \<Rightarrow> f64" where
  "seconds_at i fps = (if fps = 0 then (if i = 0 then NaN else PInf) else Fin (real i / real (unat fps)))"

section \<open>Sampling\<close>

text \<open>The loop of \<open>observation_values_at\<close> with its \<open>break\<close>.\<close>

fun select_sample :: "u64 \<Rightarrow> sample \<Rightarrow> sample list \<Rightarrow> sample" where
  "select_sample t selected [] = selected"
| "select_sample t selected (s # ss) = (if smp_timestamp_us s \<le> t then select_sample t s ss else selected)"

definition resize_values :: "f64 list \<Rightarrow> nat \<Rightarrow> f64 list" where
  "resize_values vals width = take width vals @ replicate (width - length vals) (Fin 0)"

definition values_at :: "sample list \<Rightarrow> u64 \<Rightarrow> nat \<Rightarrow> f64 list" where
  "values_at samples t width =
     (case samples of
        [] \<Rightarrow> replicate width (Fin 0)
      | s # _ \<Rightarrow> resize_values (smp_values (select_sample t s samples)) width)"

definition action_values_at :: "sample list \<Rightarrow> u64 \<Rightarrow> nat \<Rightarrow> f64 list" where
  "action_values_at = values_at"

section \<open>Rows\<close>

record lerobot_rows =
  lr_timestamps_s :: "f64 list"
  lr_frame_indices :: "i64 list"
  lr_episode_indices :: "i64 list"
  lr_global_indices :: "i64 list"
  lr_task_indices :: "i64 list"
  lr_done_flags :: "bool list"
  lr_observation_columns :: "(string, f64 list list) btree_map"
  lr_action_rows :: "f64 list list"

definition samples_of :: "(string, sample list) btree_map \<Rightarrow> string \<Rightarrow> sample list" where
  "samples_of m key = (case map_of m key of Some ss \<Rightarrow> ss | None \<Rightarrow> [])"

definition build_episode_rows :: "assembler_runtime_config_v2 \<Rightarrow> episode_assembly_input \<Rightarrow> lerobot_rows" where
  "build_episode_rows config episode =
     (let stamps = canonical_frame_timestamps (eai_start_time_us episode) (eai_stop_time_us episode) (asm_fps config);
          n = length stamps
      in \<lparr>lr_timestamps_s = map (\<lambda>i. seconds_at i (asm_fps config)) [0 ..< n],
          lr_frame_indices = map of_nat [0 ..< n],
          lr_episode_indices = replicate n (ucast (eai_episode_index episode)),
          lr_global_indices = map (\<lambda>i. ucast (eai_episode_index episode) * 1000000 + of_nat i) [0 ..< n],
          lr_task_indices = replicate n 0,
          lr_done_flags = map (\<lambda>i. i + 1 = n) [0 ..< n],
          lr_observation_columns = fold (\<lambda>obs.
            let key = observation_key (aobs_channel_id obs) (aobs_state_kind obs)
            in bt_insert key (map (\<lambda>t. values_at (samples_of (eai_observation_samples episode) key) t
                 (unat (aobs_value_len obs))) stamps)) (asm_observations config) [],
          lr_action_rows = map (\<lambda>t. concat (map (\<lambda>action. action_values_at
               (samples_of (eai_action_samples episode) (action_key (aact_channel_id action) (aact_command_kind action)))
               t (unat (aact_value_len action))) (asm_actions config))) stamps\<rparr>)"

definition observation_feature_key :: "assembler_observation_runtime_config_v2 \<Rightarrow> string" where
  "observation_feature_key obs =
     ''observation.state.'' @ sanitize_component (aobs_channel_id obs) @ ''.'' @ state_topic_suffix (aobs_state_kind obs)"

text \<open>The schema and the arrays of the row table; a missing observation column panics.\<close>

definition row_table :: "assembler_runtime_config_v2 \<Rightarrow> lerobot_rows \<Rightarrow> table option" where
  "row_table config rows =
     (if list_all (\<lambda>obs. map_of (lr_observation_columns rows) (observation_key (aobs_channel_id obs) (aobs_state_kind obs)) \<noteq> None)
           (asm_observations config)
      then Some
        ([(''timestamp'', FloatColumn (lr_timestamps_s rows)), (''frame_index'', Int64Column (lr_frame_indices rows)),
          (''episode_index'', Int64Column (lr_episode_indices rows)), (''global_index'', Int64Column (lr_global_indices rows)),
          (''task_index'', Int64Column (lr_task_indices rows)), (''done'', BoolColumn (lr_done_flags rows)),
          (''action'', ListColumn (lr_action_rows rows))]
         @ map (\<lambda>obs. (observation_feature_key obs, ListColumn (the (map_of (lr_observation_columns rows)
               (observation_key (aobs_channel_id obs) (aobs_state_kind obs)))))) (asm_observations config))
      else None)"

section \<open>Raw tables\<close>

text \<open>\<open>sample_us as i64 - start_time_us as i64\<close>\<close>

definition relative_timestamp_us :: "u64 \<Rightarrow> u64 \<Rightarrow> i64" where
  "relative_timestamp_us sample_us start_time_us = sample_us - start_time_us"

definition raw_table :: "sample list \<Rightarrow> u64 \<Rightarrow> table" where
  "raw_table samples start_time_us =
     [(''timestamp_us_rel'', Int64Column (map (\<lambda>s. relative_timestamp_us (smp_timestamp_us s) start_time_us) samples)),
      (''values'', ListColumn (map smp_values samples))]"

definition observation_file_name :: "assembler_observation_runtime_config_v2 \<Rightarrow> string" where
  "observation_file_name obs =
     sanitize_component (aobs_channel_id obs) @ ''__'' @ state_topic_suffix (aobs_state_kind obs) @ ''.parquet''"

definition action_file_name :: "assembler_action_runtime_config_v2 \<Rightarrow> string" where
  "action_file_name action =
     sanitize_component (aact_channel_id action) @ ''__'' @ command_topic_suffix (aact_command_kind action) @ ''.parquet''"

section \<open>The dataset description\<close>

record video_info =
  vi_codec :: string
  vi_container :: string
  vi_width :: u32
  vi_height :: u32
  vi_fps :: u32

record feature_spec =
  fe_dtype :: string
  fe_shape :: "u64 list"
  fe_names :: "string list option"
  fe_video_info :: "video_info option"

record dataset_info =
  di_codebase_version :: string
  di_robot_type :: "string option"
  di_total_episodes :: u32
  di_total_frames :: u64
  di_total_tasks :: u32
  di_chunks_size :: u32
  di_fps :: u32
  di_splits :: "(string, string) btree_map"
  di_data_path :: string
  di_video_path :: "string option"
  di_raw_path :: "string option"
  di_features :: "(string, feature_spec) btree_map"
  di_embedded_config_toml :: string

definition action_feature_names :: "assembler_action_runtime_config_v2 list \<Rightarrow> string list" where
  "action_feature_names actions = concat (map (\<lambda>action.
     map (\<lambda>i. sanitize_component (aact_channel_id action) @ ''.'' @ command_topic_suffix (aact_command_kind action)
            @ ''.'' @ show_nat i) [0 ..< unat (aact_value_len action)]) actions)"

definition observation_value_prefix :: "robot_state_kind \<Rightarrow> string" where
  "observation_value_prefix kind =
     (case kind of
        SK_EndEffectorPose \<Rightarrow> ''pose'' | SK_EndEffectorTwist \<Rightarrow> ''twist'' | SK_EndEffectorWrench \<Rightarrow> ''wrench''
      | SK_ParallelPosition \<Rightarrow> ''parallel'' | SK_ParallelVelocity \<Rightarrow> ''parallel'' | SK_ParallelEffort \<Rightarrow> ''parallel''
      | _ \<Rightarrow> ''joint'')"

definition observation_value_names :: "assembler_observation_runtime_config_v2 \<Rightarrow> string list" where
  "observation_value_names obs =
     map (\<lambda>i. observation_value_prefix (aobs_state_kind obs) @ ''_'' @ show_nat i) [0 ..< unat (aobs_value_len obs)]"

fun channels_for_pixel_format :: "pixel_format \<Rightarrow> u64" where
  "channels_for_pixel_format Px_Rgb24 = 3"
| "channels_for_pixel_format Px_Bgr24 = 3"
| "channels_for_pixel_format Px_Depth16 = 1"
| "channels_for_pixel_format Px_Gray8 = 1"
| "channels_for_pixel_format Px_Yuyv = 2"
| "channels_for_pixel_format Px_Mjpeg = 3"
| "channels_for_pixel_format Px_H264AnnexB = 3"
| "channels_for_pixel_format Px_Nv12 = 3"

definition scalar_feature :: "string \<Rightarrow> feature_spec" where
  "scalar_feature dtype = \<lparr>fe_dtype = dtype, fe_shape = [], fe_names = None, fe_video_info = None\<rparr>"

definition camera_feature :: "assembler_camera_runtime_config_v2 \<Rightarrow> feature_spec" where
  "camera_feature camera =
     \<lparr>fe_dtype = ''video'',
      fe_shape = [ucast (acam_height camera), ucast (acam_width camera), channels_for_pixel_format (acam_pixel_format camera)],
      fe_names = None,
      fe_video_info = Some \<lparr>vi_codec = encoder_codec_as_str (acam_codec camera),
        vi_container = container_extension (assembler_camera_container camera), vi_width = acam_width camera,
        vi_height = acam_height camera, vi_fps = acam_fps camera\<rparr>\<rparr>"

definition build_feature_map :: "assembler_runtime_config_v2 \<Rightarrow> (string, feature_spec) btree_map" where
  "build_feature_map config =
     (let scalars = fold (\<lambda>name. bt_insert name (scalar_feature (if name = ''timestamp'' then ''float64'' else ''int64'')))
            [''timestamp'', ''frame_index'', ''episode_index'', ''global_index'', ''task_index''] [];
          action_names = action_feature_names (asm_actions config);
          base = bt_insert ''action'' \<lparr>fe_dtype = ''float64'', fe_shape = [of_nat (length action_names)],
              fe_names = Some action_names, fe_video_info = None\<rparr>
            (bt_insert ''done'' (scalar_feature ''bool'') scalars);
          observed = fold (\<lambda>obs. bt_insert (observation_feature_key obs)
            \<lparr>fe_dtype = ''float64'', fe_shape = [ucast (aobs_value_len obs)], fe_names = Some (observation_value_names obs),
             fe_video_info = None\<rparr>) (asm_observations config) base
      in fold (\<lambda>camera. bt_insert (''observation.images.'' @ sanitize_component (acam_channel_id camera)) (camera_feature camera))
           (asm_cameras config) observed)"

text \<open>The names below an episode's staging directory; \<open>chunk\<close> is the formatted chunk index.\<close>

definition data_path :: "string \<Rightarrow> u32 \<Rightarrow> string" where
  "data_path chunk n = ''data/chunk-'' @ chunk @ ''/'' @ episode_name n @ ''.parquet''"

definition staged_video_relative_path :: "string \<Rightarrow> u32 \<Rightarrow> string \<Rightarrow> string \<Rightarrow> string" where
  "staged_video_relative_path chunk n channel_id extension =
     ''videos/chunk-'' @ chunk @ ''/'' @ sanitize_component channel_id @ ''/'' @ episode_name n @ ''.'' @ extension"

definition raw_path_template :: "string \<Rightarrow> u32 \<Rightarrow> string" where
  "raw_path_template chunk n = ''raw/chunk-'' @ chunk @ ''/'' @ episode_name n"

definition crate_version :: string where "crate_version = ''1.0.0''"

definition build_dataset_info ::
  "string \<Rightarrow> assembler_runtime_config_v2 \<Rightarrow> episode_assembly_input \<Rightarrow> nat \<Rightarrow> dataset_info" where
  "build_dataset_info chunk config episode frame_count =
     (let n = eai_episode_index episode
      in \<lparr>di_codebase_version = crate_version, di_robot_type = None, di_total_episodes = 1,
          di_total_frames = of_nat frame_count, di_total_tasks = 1, di_chunks_size = asm_chunk_size config,
          di_fps = asm_fps config, di_splits = [(''train'', ''0:1'')],
          di_data_path = data_path chunk n,
          di_video_path = (case asm_cameras config of
              camera # _ \<Rightarrow> Some (staged_video_relative_path chunk n (acam_channel_id camera)
                (container_extension (assembler_camera_container camera)))
            | [] \<Rightarrow> None),
          di_raw_path = (if asm_observations config = [] \<and> asm_actions config = [] then None
            else Some (raw_path_template chunk n)),
          di_features = build_feature_map config,
          di_embedded_config_toml = asm_embedded_config_toml config\<rparr>)"

section \<open>The timeline is regular\<close>

lemma length_timestamps [simp]: "length (canonical_frame_timestamps start stop fps) = row_count start stop fps"
  by (simp add: canonical_frame_timestamps_def Let_def)

lemma row_count_pos: "0 < row_count start stop fps"
  by (simp add: row_count_def Let_def)

lemma round_half_up_near: "0 \<le> x \<Longrightarrow> \<bar>real (round_half_up x) - x\<bar> \<le> 1 / 2"
proof -
  assume "0 \<le> x"
  then have "real (round_half_up x) = of_int \<lfloor>x + 1 / 2\<rfloor>" by (simp add: round_half_up_def)
  then show ?thesis by linarith
qed

lemma round_half_up_strict: "0 \<le> x \<Longrightarrow> x + 1 < y \<Longrightarrow> round_half_up x < round_half_up y"
  using round_half_up_near [of x] round_half_up_near [of y] by linarith

definition offset_us :: "u32 \<Rightarrow> nat \<Rightarrow> nat" where
  "offset_us fps i = round_half_up (real i * (1000000 / real (unat (max fps 1))))"

lemma nth_timestamp: "i < row_count start stop fps \<Longrightarrow>
   canonical_frame_timestamps start stop fps ! i = start + to_u64 (offset_us fps i)"
  by (simp add: canonical_frame_timestamps_def offset_us_def Let_def)

lemma offset_zero [simp]: "offset_us fps 0 = 0"
  by (simp add: offset_us_def round_half_up_def)

lemma step_us_bound: "0 < (fps :: u32) \<Longrightarrow> fps \<le> 1000 \<Longrightarrow> 1000 \<le> 1000000 / real (unat fps) \<and> max fps 1 = fps"
proof -
  assume "0 < fps" "fps \<le> (1000 :: u32)"
  then have "0 < unat fps" "unat fps \<le> 1000" by (simp_all add: word_less_nat_alt word_le_nat_alt unat_gt_0)
  moreover have "1 \<le> fps" using \<open>0 < fps\<close> by (simp add: word_le_nat_alt word_less_nat_alt)
  moreover have "1000 \<le> 1000000 / x" if "0 < x" "x \<le> 1000" for x :: real using that by (simp add: field_simps)
  ultimately have "1000 \<le> 1000000 / real (unat fps)" by (metis of_nat_0_less_iff of_nat_le_iff of_nat_numeral)
  then show ?thesis using \<open>1 \<le> fps\<close> by (simp add: max_def del: of_nat_unat)
qed

lemma offset_strict: "0 < fps \<Longrightarrow> fps \<le> 1000 \<Longrightarrow> i < j \<Longrightarrow> offset_us fps i < offset_us fps j"
proof -
  assume f: "0 < fps" "fps \<le> 1000" and ij: "i < j"
  define s where "s = 1000000 / real (unat fps)"
  note b = step_us_bound [OF f, folded s_def]
  have "real i * s + 1 < real i * s + s" using b by simp
  also have "\<dots> = real (i + 1) * s" by (simp add: algebra_simps)
  also have "\<dots> \<le> real j * s" using ij b by (intro mult_right_mono) auto
  finally show ?thesis
    unfolding offset_us_def conjunct2 [OF b] s_def [symmetric] using b by (intro round_half_up_strict) auto
qed

text \<open>Every row lies inside the recording.\<close>

lemma offset_inside:
  assumes "0 < fps" and "fps \<le> 1000" and "start \<le> stop" and "i < row_count start stop fps"
  shows "offset_us fps i \<le> unat (stop - start)"
proof (cases "i = 0")
  case False
  define d where "d = real (unat (stop - start))"
  define f where "f = real (unat fps)"
  define s where "s = 1000000 / f"
  note sb = step_us_bound [OF assms(1,2), folded f_def, folded s_def]
  have f: "0 < f" using assms(1) by (simp add: f_def word_less_nat_alt del: of_nat_unat)
  have "saturating_sub stop start = stop - start" using assms(3) by (simp add: saturating_sub_def leD)
  then have n: "i < round_half_up (d / 1000000 * f)"
    using assms(4) False sb unfolding row_count_def Let_def d_def f_def by (simp split: if_splits del: of_nat_unat)
  have "0 \<le> d" unfolding d_def by (rule of_nat_0_le_iff)
  then have "\<bar>real (round_half_up (d / 1000000 * f)) - d / 1000000 * f\<bar> \<le> 1 / 2"
    using f by (intro round_half_up_near) auto
  moreover have "real i + 1 \<le> real (round_half_up (d / 1000000 * f))" using n by linarith
  ultimately have "real i + 1 \<le> d / 1000000 * f + 1 / 2" by linarith
  then have "real i \<le> d / 1000000 * f - 1 / 2" by linarith
  then have "real i * s \<le> (d / 1000000 * f - 1 / 2) * s" using sb by (intro mult_right_mono) auto
  also have "\<dots> = d - s / 2" using f by (simp add: s_def field_simps)
  finally have "real i * s + 500 \<le> d" using sb by linarith
  moreover have "offset_us fps i = round_half_up (real i * s)"
    unfolding offset_us_def conjunct2 [OF sb] s_def f_def ..
  moreover have "\<bar>real (round_half_up (real i * s)) - real i * s\<bar> \<le> 1 / 2"
    using sb by (intro round_half_up_near) auto
  ultimately have "real (offset_us fps i) \<le> d" by linarith
  then have "real (offset_us fps i) \<le> real (unat (stop - start))" unfolding d_def .
  then show ?thesis by (simp del: of_nat_unat)
qed simp

lemma unat_timestamp:
  assumes "0 < fps" and "fps \<le> 1000" and "start \<le> stop" and "i < row_count start stop fps"
  shows "unat (canonical_frame_timestamps start stop fps ! i) = unat start + offset_us fps i"
    and "canonical_frame_timestamps start stop fps ! i \<le> stop"
proof -
  note o = offset_inside [OF assms]
  have d: "unat (stop - start) = unat stop - unat start" using assms(3) by (simp add: unat_sub)
  have le: "unat start \<le> unat stop" using assms(3) by (simp add: word_le_nat_alt)
  have st: "unat stop < 2 ^ 64" using unsigned_less [of stop, where ?'a = nat] by simp
  have "offset_us fps i \<le> 2 ^ 64 - 1" using o d st by linarith
  then have t: "to_u64 (offset_us fps i) = of_nat (offset_us fps i)" by (simp add: to_u64_def)
  have "unat start + offset_us fps i < 2 ^ 64" using o d le st by linarith
  then have u: "unat (start + of_nat (offset_us fps i)) = unat start + offset_us fps i"
    by (simp add: unat_word_ariths unat_of_nat)
  then show "unat (canonical_frame_timestamps start stop fps ! i) = unat start + offset_us fps i"
    by (simp add: nth_timestamp [OF assms(4)] t)
  with o d le show "canonical_frame_timestamps start stop fps ! i \<le> stop" by (simp add: word_le_nat_alt)
qed

theorem timeline_regular:
  assumes "0 < fps" and "fps \<le> 1000" and "start \<le> stop"
  shows "canonical_frame_timestamps start stop fps ! 0 = start"
    and "sorted_wrt (<) (canonical_frame_timestamps start stop fps)"
    and "\<forall>t \<in> set (canonical_frame_timestamps start stop fps). start \<le> t \<and> t \<le> stop"
proof -
  let ?ts = "canonical_frame_timestamps start stop fps"
  show "?ts ! 0 = start" by (simp add: nth_timestamp [OF row_count_pos] to_u64_def)
  show "sorted_wrt (<) ?ts"
    unfolding sorted_wrt_iff_nth_less
    by (auto simp: word_less_nat_alt unat_timestamp(1) [OF assms] offset_strict [OF assms(1,2)])
  show "\<forall>t \<in> set ?ts. start \<le> t \<and> t \<le> stop"
    using unat_timestamp [OF assms] by (force simp: in_set_conv_nth word_le_nat_alt)
qed

section \<open>Sampling takes the latest earlier sample\<close>

lemma select_sample_eq: "select_sample t s ss = last (s # takeWhile (\<lambda>x. smp_timestamp_us x \<le> t) ss)"
  by (induction ss arbitrary: s) auto

lemma takeWhile_sorted:
  "sorted (map smp_timestamp_us ss) \<Longrightarrow> takeWhile (\<lambda>x. smp_timestamp_us x \<le> t) ss = filter (\<lambda>x. smp_timestamp_us x \<le> t) ss"
proof (induction ss)
  case (Cons s ss)
  then have "\<not> smp_timestamp_us s \<le> t \<Longrightarrow> filter (\<lambda>x. smp_timestamp_us x \<le> t) ss = []"
    by (auto simp: filter_empty_conv) (meson order_trans)
  with Cons show ?case by auto
qed simp

definition latest_before :: "u64 \<Rightarrow> sample list \<Rightarrow> sample option" where
  "latest_before t ss =
     (let earlier = filter (\<lambda>s. smp_timestamp_us s \<le> t) ss in if earlier = [] then None else Some (last earlier))"

theorem values_at_latest:
  assumes "sorted (map smp_timestamp_us samples)"
  shows "values_at samples t width =
    (case latest_before t samples of
       Some s \<Rightarrow> resize_values (smp_values s) width
     | None \<Rightarrow> (case samples of [] \<Rightarrow> replicate width (Fin 0) | s # _ \<Rightarrow> resize_values (smp_values s) width))"
  using takeWhile_sorted [OF assms, of t]
  by (cases samples) (auto simp: values_at_def latest_before_def select_sample_eq Let_def)

lemma length_resize [simp]: "length (resize_values vals width) = width"
  by (simp add: resize_values_def)

lemma length_values_at [simp]: "length (values_at samples t width) = width"
  by (simp add: values_at_def split: list.split)

section \<open>Tables are rectangular\<close>

lemma map_of_fold_insert:
  "map_of (fold (\<lambda>x. bt_insert (k x) (v x)) xs m) j =
     (if \<exists>x \<in> set xs. k x = j then Some (v (last (filter (\<lambda>x. k x = j) xs))) else map_of m j)"
  by (induction xs arbitrary: m) (auto simp: map_of_bt_insert filter_empty_conv)

theorem row_table_rectangular:
  "\<exists>table. row_table config (build_episode_rows config episode) = Some table
    \<and> map fst table = [''timestamp'', ''frame_index'', ''episode_index'', ''global_index'', ''task_index'', ''done'', ''action'']
        @ map observation_feature_key (asm_observations config)
    \<and> (\<forall>(name, c) \<in> set table.
         column_length c = row_count (eai_start_time_us episode) (eai_stop_time_us episode) (asm_fps config))"
proof -
  let ?rows = "build_episode_rows config episode"
  let ?n = "row_count (eai_start_time_us episode) (eai_stop_time_us episode) (asm_fps config)"
  let ?key = "\<lambda>obs. observation_key (aobs_channel_id obs) (aobs_state_kind obs)"
  have "\<exists>rs. map_of (lr_observation_columns ?rows) (?key obs) = Some rs \<and> length rs = ?n"
    if "obs \<in> set (asm_observations config)" for obs
    using that by (auto simp: build_episode_rows_def Let_def map_of_fold_insert)
  then show ?thesis
    by (fastforce simp: row_table_def list_all_iff build_episode_rows_def Let_def comp_def)
qed

theorem raw_table_lossless:
  "raw_table samples start =
     [(''timestamp_us_rel'', Int64Column rels), (''values'', ListColumn vals)] \<Longrightarrow>
   map2 (\<lambda>r v. \<lparr>smp_timestamp_us = r + start, smp_values = v\<rparr>) rels vals = samples"
  by (auto simp: raw_table_def relative_timestamp_us_def zip_map_map zip_same_conv_map comp_def intro!: map_idI)

section \<open>Properties\<close>

text \<open>The vector a frame of the LeRobot table gets from a channel is its last sample at or
  before the time of the frame, or the first sample when there is none so early, cut or padded to
  the width of the column.\<close>

theorem frames_hold_latest_sample:
  assumes "sorted (map smp_timestamp_us samples)"
  shows "values_at samples t width =
    (case latest_before t samples of
       Some s \<Rightarrow> resize_values (smp_values s) width
     | None \<Rightarrow> (case samples of [] \<Rightarrow> replicate width (Fin 0) | s # _ \<Rightarrow> resize_values (smp_values s) width))"
  using assms by (rule values_at_latest)

theorem frames_hold_latest_sample_witness:
  "values_at [\<lparr>smp_timestamp_us = 10, smp_values = [Fin 1]\<rparr>, \<lparr>smp_timestamp_us = 20, smp_values = [Fin 2, Fin 3]\<rparr>,
     \<lparr>smp_timestamp_us = 30, smp_values = []\<rparr>] 25 1 = [Fin 2]"
  using frames_hold_latest_sample [of "[\<lparr>smp_timestamp_us = 10, smp_values = [Fin 1]\<rparr>,
    \<lparr>smp_timestamp_us = 20, smp_values = [Fin 2, Fin 3]\<rparr>, \<lparr>smp_timestamp_us = 30, smp_values = []\<rparr>]" 25 1]
  by (simp add: latest_before_def resize_values_def)

end
