(* ===== verification/Lerobot_Staging.thy ===== *)
theory Lerobot_Staging
  imports Lerobot_Rows
begin

text \<open>
  Staging an episode for LeRobot: \<open>stage_episode\<close> of \<^verbatim>\<open>episode-lerobot/src/dataset.rs\<close> with the muxers
  of \<^verbatim>\<open>episode-lerobot/src/muxer\<close>, the raw dump of \<^verbatim>\<open>episode-lerobot/src/raw.rs\<close> and the metadata of
  \<^verbatim>\<open>episode-lerobot/src/lerobot.rs\<close>, as operations on the file system. What the \<open>parquet\<close> crate and
  libavformat produce are arguments. A name \<open>..\<close> is an ordinary component here.
\<close>

section \<open>Libraries\<close>

datatype av_codec_id = AvH264 | AvHEVC | AvAV1 | AvMJPEG

record mux_params =
  mp_codec :: av_codec_id
  mp_time_base :: "i32 \<times> i32"
  mp_width :: i32
  mp_height :: i32
  mp_extradata :: bytes

record mux_packet =
  mk_payload :: bytes
  mk_pts :: i64
  mk_dts :: i64
  mk_duration :: "i64 option"
  mk_key :: bool

text \<open>\<open>lib_mux\<close> returns what is in the file when the muxer stops, beside its verdict.\<close>

record staging_libs =
  lib_parquet :: "table \<Rightarrow> (bytes, string) result"
  lib_mux :: "string \<Rightarrow> mux_params \<Rightarrow> mux_packet list \<Rightarrow> bytes \<times> (unit, string) result"
  lib_json :: json_lib

section \<open>Muxers\<close>

fun av_codec_of :: "encoder_codec \<Rightarrow> av_codec_id option" where
  "av_codec_of H264 = Some AvH264"
| "av_codec_of H265 = Some AvHEVC"
| "av_codec_of Av1 = Some AvAV1"
| "av_codec_of Mjpg = Some AvMJPEG"
| "av_codec_of Rvl = None"

definition mux_packet_of :: "packet \<Rightarrow> mux_packet" where
  "mux_packet_of p =
     \<lparr>mk_payload = snd p, mk_pts = eph_pts_us (fst p), mk_dts = eph_dts_us (fst p),
      mk_duration = (if 0 <s eph_duration_us (fst p) then Some (eph_duration_us (fst p)) else None),
      mk_key = is_keyframe (fst p)\<rparr>"

definition ffmpeg_write_stream :: "io_host \<Rightarrow> staging_libs \<Rightarrow> path \<Rightarrow> recording_stream_buffer \<Rightarrow> unit io" where
  "ffmpeg_write_stream h libs target stream =
     (case rsb_config stream of
        None \<Rightarrow> io_fail (Message ''video stream missing Config packet'')
      | Some config \<Rightarrow>
          (case av_codec_of (esc_codec config) of
             None \<Rightarrow> io_fail (Message ''ffmpeg_video::write_stream cannot mux RVL streams'')
           | Some codec_id \<Rightarrow>
               (case lib_mux libs (last target)
                   \<lparr>mp_codec = codec_id, mp_time_base = (max (esc_time_base_num config) 1, max (esc_time_base_den config) 1),
                    mp_width = esc_width config, mp_height = esc_height config, mp_extradata = esc_extradata config\<rparr>
                   (map mux_packet_of (rsb_packets stream)) of
                  (written, verdict) \<Rightarrow>
                    io_then (write_file h target written) (io_lift (map_err Message verdict)))))"

definition rvl_write_stream :: "io_host \<Rightarrow> path \<Rightarrow> recording_stream_buffer \<Rightarrow> unit io" where
  "rvl_write_stream h target stream =
     (case rsb_config stream of
        None \<Rightarrow> io_fail (Message ''RVL stream missing Config packet'')
      | Some config \<Rightarrow> write_file h target (esc_extradata config @ concat (map snd (rsb_packets stream))))"

definition mux_camera_stream ::
  "io_host \<Rightarrow> staging_libs \<Rightarrow> path \<Rightarrow> string \<Rightarrow> recording_stream_buffer \<Rightarrow> unit io" where
  "mux_camera_stream h libs target_dir relative_path stream =
     (case rsb_config stream of
        None \<Rightarrow> io_fail (Message ''stream is missing Config packet; cannot pick container'')
      | Some config \<Rightarrow>
          (let target = below target_dir relative_path
           in io_then (create_dir_all h (butlast target))
               (case container_for (esc_codec config) of
                  Mp4 \<Rightarrow> ffmpeg_write_stream h libs target stream
                | Mkv \<Rightarrow> ffmpeg_write_stream h libs target stream
                | RvlNative \<Rightarrow> rvl_write_stream h target stream)))"

section \<open>Tables on disk\<close>

definition write_parquet :: "io_host \<Rightarrow> staging_libs \<Rightarrow> path \<Rightarrow> table \<Rightarrow> unit io" where
  "write_parquet h libs path table =
     io_then (create_dir_all h (butlast path))
       (case lib_parquet libs table of
          Err e \<Rightarrow> io_fail (Message e)
        | Ok written \<Rightarrow> write_file h path written)"

text \<open>The missing observation column is a panic.\<close>

definition write_episode_parquet ::
  "io_host \<Rightarrow> staging_libs \<Rightarrow> path \<Rightarrow> assembler_runtime_config_v2 \<Rightarrow> episode_assembly_input \<Rightarrow> nat io" where
  "write_episode_parquet h libs parquet_path config episode =
     (let rows = build_episode_rows config episode
      in case row_table config rows of
        None \<Rightarrow> io_fail Panicked
      | Some table \<Rightarrow> io_then (write_parquet h libs parquet_path table)
          (io_return (length (lr_timestamps_s rows))))"

definition write_episode_raw_dump ::
  "io_host \<Rightarrow> staging_libs \<Rightarrow> path \<Rightarrow> string \<Rightarrow> assembler_runtime_config_v2 \<Rightarrow> episode_assembly_input \<Rightarrow> unit io" where
  "write_episode_raw_dump h libs staging_dir chunk config episode =
     (let raw_dir = below staging_dir (raw_path_template chunk (eai_episode_index episode))
      in io_then (create_dir_all h raw_dir)
          (io_then
            (io_each (\<lambda>obs. write_parquet h libs (raw_dir @ [observation_file_name obs])
               (raw_table (samples_of (eai_observation_samples episode)
                  (observation_key (aobs_channel_id obs) (aobs_state_kind obs))) (eai_start_time_us episode)))
              (asm_observations config))
            (io_each (\<lambda>action. write_parquet h libs (raw_dir @ [action_file_name action])
               (raw_table (samples_of (eai_action_samples episode)
                  (action_key (aact_channel_id action) (aact_command_kind action))) (eai_start_time_us episode)))
              (asm_actions config))))"

section \<open>Metadata\<close>

definition video_info_json :: "video_info \<Rightarrow> json" where
  "video_info_json v = JObject
     [(''codec'', JString (vi_codec v)), (''container'', JString (vi_container v)), (''width'', ser_u32 (vi_width v)),
      (''height'', ser_u32 (vi_height v)), (''fps'', ser_u32 (vi_fps v))]"

definition feature_spec_json :: "feature_spec \<Rightarrow> json" where
  "feature_spec_json f = JObject
     ([(''dtype'', JString (fe_dtype f)), (''shape'', JArray (map ser_u64 (fe_shape f))),
       (''names'', ser_option (\<lambda>ns. JArray (map JString ns)) (fe_names f))]
      @ skip_none ''video_info'' video_info_json (fe_video_info f))"

definition dataset_info_json :: "dataset_info \<Rightarrow> json" where
  "dataset_info_json i = JObject
     ([(''codebase_version'', JString (di_codebase_version i)), (''robot_type'', ser_option JString (di_robot_type i)),
       (''total_episodes'', ser_u32 (di_total_episodes i)), (''total_frames'', ser_u64 (di_total_frames i)),
       (''total_tasks'', ser_u32 (di_total_tasks i)), (''chunks_size'', ser_u32 (di_chunks_size i)),
       (''fps'', ser_u32 (di_fps i)), (''splits'', ser_map JString (di_splits i)), (''data_path'', JString (di_data_path i))]
      @ skip_none ''video_path'' JString (di_video_path i) @ skip_none ''raw_path'' JString (di_raw_path i)
      @ [(''features'', ser_map feature_spec_json (di_features i)),
         (''embedded_config_toml'', JString (di_embedded_config_toml i))])"

record episode_record =
  rec_episode_index :: u32
  rec_controller_start_us :: u64
  rec_controller_stop_us :: u64
  rec_length :: u64
  rec_tasks :: "string list"

definition episode_record_json :: "episode_record \<Rightarrow> json" where
  "episode_record_json r = JObject
     [(''episode_index'', ser_u32 (rec_episode_index r)), (''controller_start_us'', ser_u64 (rec_controller_start_us r)),
      (''controller_stop_us'', ser_u64 (rec_controller_stop_us r)), (''length'', ser_u64 (rec_length r)),
      (''tasks'', JArray (map JString (rec_tasks r)))]"

definition episode_record_of :: "episode_assembly_input \<Rightarrow> nat \<Rightarrow> episode_record" where
  "episode_record_of episode frame_count =
     \<lparr>rec_episode_index = eai_episode_index episode, rec_controller_start_us = eai_start_time_us episode,
      rec_controller_stop_us = eai_stop_time_us episode, rec_length = of_nat frame_count, rec_tasks = [''collect'']\<rparr>"

definition write_stage_metadata ::
  "io_host \<Rightarrow> json_lib \<Rightarrow> path \<Rightarrow> string \<Rightarrow> assembler_runtime_config_v2 \<Rightarrow> episode_assembly_input \<Rightarrow> nat \<Rightarrow> unit io" where
  "write_stage_metadata h J staging_dir chunk config episode frame_count =
     (let meta_dir = staging_dir @ [''meta'']
      in io_then (create_dir_all h meta_dir)
          (io_then (write_file h (meta_dir @ [''info.json''])
               (jl_pretty J (dataset_info_json (build_dataset_info chunk config episode frame_count)) @ [newline]))
            (write_file h (meta_dir @ [''episodes.jsonl''])
               (jl_compact J (episode_record_json (episode_record_of episode frame_count)) @ [newline]))))"

section \<open>The episode\<close>

definition mux_camera ::
  "io_host \<Rightarrow> staging_libs \<Rightarrow> path \<Rightarrow> string \<Rightarrow> episode_assembly_input \<Rightarrow> assembler_camera_runtime_config_v2 \<Rightarrow> unit io" where
  "mux_camera h libs staging_dir chunk episode camera =
     (case map_of (eai_camera_streams episode) (acam_channel_id camera) of
        None \<Rightarrow> io_fail (Message ''stage_episode: missing recording stream'')
      | Some stream \<Rightarrow>
          if \<not> is_complete stream then io_fail (Message ''stage_episode: camera stream incomplete'')
          else mux_camera_stream h libs staging_dir
            (staged_video_relative_path chunk (eai_episode_index episode) (acam_channel_id camera)
              (container_extension (container_for (acam_codec camera)))) stream)"

definition stage_episode ::
  "io_host \<Rightarrow> staging_libs \<Rightarrow> assembler_runtime_config_v2 \<Rightarrow> episode_assembly_input \<Rightarrow> staged_episode io" where
  "stage_episode h libs config episode =
     (let n = eai_episode_index episode;
          staging_dir = join_path (asm_staging_dir config) (episode_name n);
          dir = resolve h staging_dir
      in io_then (io_when (\<lambda>fs. path_exists fs dir) (remove_dir_all h dir))
          (io_then (create_dir_all h dir)
            (case chunk_index n (asm_chunk_size config) of
               None \<Rightarrow> io_fail Panicked
             | Some chunk \<Rightarrow>
                 io_bind (write_episode_parquet h libs (below dir (data_path chunk n)) config episode) (\<lambda>frame_count.
                   io_then (io_each (mux_camera h libs dir chunk episode) (asm_cameras config))
                     (io_then (write_episode_raw_dump h libs dir chunk config episode)
                       (io_then (write_stage_metadata h (lib_json libs) dir chunk config episode frame_count)
                         (io_return \<lparr>se_episode_index = n, se_staging_dir = staging_dir\<rparr>)))))))"

definition remove_episode_artifacts :: "io_host \<Rightarrow> string \<Rightarrow> u32 \<Rightarrow> unit io" where
  "remove_episode_artifacts h staging_root n =
     (let dir = resolve h (join_path staging_root (episode_name n))
      in io_when (\<lambda>fs. path_exists fs dir) (io_ignore (remove_dir_all h dir)))"


section \<open>Which files an operation changes\<close>

definition changes_only :: "path \<Rightarrow> 'a io \<Rightarrow> bool" where
  "changes_only p m \<longleftrightarrow> (\<forall>fs fs' r q. m fs = (fs', r) \<longrightarrow> \<not> prefix p q \<longrightarrow> file_at fs' q = file_at fs q)"

named_theorems changes_intros \<open>where an operation writes\<close>

lemma changes_onlyD: "changes_only p m \<Longrightarrow> m fs = (fs', r) \<Longrightarrow> \<not> prefix p q \<Longrightarrow> file_at fs' q = file_at fs q"
  by (auto simp: changes_only_def)

lemma changes_return [changes_intros]: "changes_only p (io_return a)"
  by (auto simp: changes_only_def io_return_def)

lemma changes_fail [changes_intros]: "changes_only p (io_fail e)"
  by (auto simp: changes_only_def io_fail_def)

lemma changes_lift [changes_intros]: "changes_only p (io_lift r)"
  by (auto simp: changes_only_def io_lift_def)

lemma changes_bind [changes_intros]:
  assumes "changes_only p m" and "\<And>a. changes_only p (f a)"
  shows "changes_only p (io_bind m f)"
  unfolding changes_only_def
proof (intro allI impI)
  fix fs fs' r q
  assume run: "io_bind m f fs = (fs', r)" and q: "\<not> prefix p q"
  from run show "file_at fs' q = file_at fs q"
    by (cases rule: io_bind_cases) (simp_all add: changes_onlyD [OF assms(1) _ q] changes_onlyD [OF assms(2) _ q])
qed

lemma changes_then [changes_intros]: "changes_only p m \<Longrightarrow> changes_only p n \<Longrightarrow> changes_only p (io_then m n)"
  unfolding io_then_def by (rule changes_bind)

lemma changes_each: "(\<And>x. x \<in> set xs \<Longrightarrow> changes_only p (f x)) \<Longrightarrow> changes_only p (io_each f xs)"
  by (induction xs) (auto intro: changes_intros)

lemma changes_create_dir_all [changes_intros]: "changes_only p (create_dir_all h d)"
  by (auto simp: changes_only_def create_dir_all_files)

lemma changes_write_file: "prefix p q \<Longrightarrow> changes_only p (write_file h q c)"
  by (auto simp: changes_only_def file_at_update dest!: write_file_cases)

lemma changes_write_parquet: "prefix p q \<Longrightarrow> changes_only p (write_parquet h libs q table)"
  unfolding write_parquet_def by (auto intro!: changes_intros changes_write_file split: sum.split)

lemma changes_mux: "prefix p (below d r) \<Longrightarrow> changes_only p (mux_camera_stream h libs d r stream)"
  by (auto simp: mux_camera_stream_def ffmpeg_write_stream_def rvl_write_stream_def Let_def
      intro!: changes_intros changes_write_file split: option.split container_kind.split prod.split)

lemma write_file_Ok: "write_file h p c fs = (fs', Ok u) \<Longrightarrow> file_at fs' p = Some c"
  by (auto simp: file_at_update dest!: write_file_cases)

lemma write_parquet_Ok:
  "write_parquet h libs p table fs = (fs', Ok u) \<Longrightarrow> \<exists>written. lib_parquet libs table = Ok written \<and> file_at fs' p = Some written"
  by (auto simp: write_parquet_def io_then_Ok io_fail_def split: sum.splits dest: write_file_Ok)

text \<open>Each step's file is still there when the steps after it write elsewhere.\<close>

lemma each_file:
  assumes "x \<in> set xs" and "\<And>fs fs' u. f x fs = (fs', Ok u) \<Longrightarrow> P (file_at fs' (p x))"
    and "\<And>y. y \<in> set xs \<Longrightarrow> changes_only (p y) (f y)"
    and "\<And>y. y \<in> set xs \<Longrightarrow> y \<noteq> x \<Longrightarrow> \<not> prefix (p y) (p x)"
    and "io_each f xs fs = (fs', Ok ())"
  shows "P (file_at fs' (p x))"
  using assms(1,3-)
proof (induction xs arbitrary: fs fs' rule: rev_induct)
  case Nil
  then show ?case by simp
next
  case (snoc y xs)
  have app: "io_each f (xs @ [y]) fs = (fs', Ok ()) \<longleftrightarrow> (\<exists>fs1. io_each f xs fs = (fs1, Ok ()) \<and> f y fs1 = (fs', Ok ()))" for fs
    by (induction xs arbitrary: fs) (auto simp: io_then_Ok io_return_def)
  then obtain fs1 where run: "io_each f xs fs = (fs1, Ok ())" "f y fs1 = (fs', Ok ())" using snoc.prems(4) by blast
  show ?case
  proof (cases "y = x")
    case True
    with run(2) assms(2) show ?thesis by blast
  next
    case False
    with snoc.prems(1) have "x \<in> set xs" by auto
    then have "P (file_at fs1 (p x))" by (rule snoc.IH) (use snoc.prems(2,3) run(1) in auto)
    moreover have "file_at fs' (p x) = file_at fs1 (p x)"
      by (rule changes_onlyD [OF snoc.prems(2) run(2)]) (use False snoc.prems(3) in auto)
    ultimately show ?thesis by simp
  qed
qed

section \<open>A stream without its configuration is never staged\<close>

lemma io_each_first_fails: "(\<And>fs. \<not> is_ok (snd (f x fs))) \<Longrightarrow> \<not> is_ok (snd (io_each f (x # xs) fs))"
  by (auto simp: io_then_def io_bind_def split: prod.splits sum.splits) (metis is_ok_simps(1) snd_conv)

theorem unconfigured_camera_fails:
  assumes "asm_cameras config = camera # rest"
    and "\<And>stream. map_of (eai_camera_streams episode) (acam_channel_id camera) = Some stream \<Longrightarrow> rsb_config stream = None"
  shows "\<not> is_ok (snd (stage_episode h libs config episode fs))"
proof
  assume ok: "is_ok (snd (stage_episode h libs config episode fs))"
  have cam: "\<not> is_ok (snd (mux_camera h libs d chunk episode camera fs))" for d chunk fs
    using assms(2) by (auto simp: mux_camera_def mux_camera_stream_def io_fail_def split: option.split)
  have no: "io_each (mux_camera h libs d chunk episode) (asm_cameras config) fs \<noteq> (fs', Ok u)" for d chunk fs fs' u
    using io_each_first_fails [where f = "mux_camera h libs d chunk episode" and x = camera and xs = rest and fs = fs, OF cam]
    by (metis assms(1) is_ok_simps(1) snd_conv)
  obtain fs' u where "stage_episode h libs config episode fs = (fs', Ok u)"
    using ok by (cases "stage_episode h libs config episode fs") (auto simp: is_ok_def split: sum.splits)
  then show False
    using no by (auto simp: stage_episode_def Let_def io_then_Ok io_bind_Ok io_fail_def split: option.splits)
qed

section \<open>What a staged episode consists of\<close>

lemma chunk_index_no_slash: "chunk_index n chunk_size = Some chunk \<Longrightarrow> CHR ''/'' \<notin> set chunk"
  by (auto simp: chunk_index_def no_slash_number split: if_splits)

lemma components_data_path:
  assumes "CHR ''/'' \<notin> set chunk"
  shows "components (data_path chunk n) = [''data'', ''chunk-'' @ chunk, episode_name n @ ''.parquet'']"
proof -
  have e: "CHR ''/'' \<notin> set (episode_name n @ ''.parquet'')"
    using no_slash_number by (auto simp: episode_name_def)
  have "data_path chunk n = ''data'' @ CHR ''/'' # (''chunk-'' @ chunk) @ CHR ''/'' # (episode_name n @ ''.parquet'')"
    by (simp add: data_path_def)
  then have "components (data_path chunk n)
      = components ''data'' @ components (''chunk-'' @ chunk) @ components (episode_name n @ ''.parquet'')"
    using components_slash [of "''data''"] components_slash [of "''chunk-'' @ chunk"] by simp
  then show ?thesis using components_single [of "''chunk-'' @ chunk"] components_single [OF e] components_single [of "''data''"] assms
    by (simp add: episode_name_def)
qed

lemma components_raw_path:
  assumes "CHR ''/'' \<notin> set chunk"
  shows "components (raw_path_template chunk n) = [''raw'', ''chunk-'' @ chunk, episode_name n]"
proof -
  have "raw_path_template chunk n = ''raw'' @ CHR ''/'' # (''chunk-'' @ chunk) @ CHR ''/'' # episode_name n"
    by (simp add: raw_path_template_def)
  then have "components (raw_path_template chunk n)
      = components ''raw'' @ components (''chunk-'' @ chunk) @ components (episode_name n)"
    using components_slash [of "''raw''"] components_slash [of "''chunk-'' @ chunk"] by simp
  then show ?thesis using components_single [of "''chunk-'' @ chunk"] components_single [of "''raw''"] assms
    by (simp add: components_episode_name)
qed

lemma components_video_path: "\<exists>rest. components (staged_video_relative_path chunk n ch ext) = ''videos'' # rest"
  using components_slash [of "''videos''"] components_single [of "''videos''"] by (simp add: staged_video_relative_path_def)

text \<open>The files the later stages rely on.\<close>

definition staged_files ::
  "staging_libs \<Rightarrow> assembler_runtime_config_v2 \<Rightarrow> episode_assembly_input \<Rightarrow> string \<Rightarrow> path \<Rightarrow> fs \<Rightarrow> bool" where
  "staged_files libs config episode chunk dir fs \<longleftrightarrow>
     (\<exists>table written. row_table config (build_episode_rows config episode) = Some table
        \<and> lib_parquet libs table = Ok written
        \<and> file_at fs (dir @ [''data'', ''chunk-'' @ chunk, episode_name (eai_episode_index episode) @ ''.parquet'']) = Some written)
     \<and> (let frames = row_count (eai_start_time_us episode) (eai_stop_time_us episode) (asm_fps config)
        in file_at fs (dir @ [''meta'', ''info.json''])
             = Some (jl_pretty (lib_json libs) (dataset_info_json (build_dataset_info chunk config episode frames)) @ [newline])
         \<and> file_at fs (dir @ [''meta'', ''episodes.jsonl''])
             = Some (jl_compact (lib_json libs) (episode_record_json (episode_record_of episode frames)) @ [newline]))"

theorem staged_episode_files:
  assumes "stage_episode h libs config episode fs = (fs', Ok staged)"
  shows "\<exists>chunk. chunk_index (eai_episode_index episode) (asm_chunk_size config) = Some chunk
    \<and> se_episode_index staged = eai_episode_index episode
    \<and> se_staging_dir staged = join_path (asm_staging_dir config) (episode_name (eai_episode_index episode))
    \<and> staged_files libs config episode chunk (resolve h (se_staging_dir staged)) fs'"
proof -
  let ?n = "eai_episode_index episode" and ?J = "lib_json libs"
  define sdir where "sdir = join_path (asm_staging_dir config) (episode_name ?n)"
  define dir where "dir = resolve h sdir"
  let ?frames = "row_count (eai_start_time_us episode) (eai_stop_time_us episode) (asm_fps config)"
  from assms obtain chunk fs2 fs3 fs4 fs5 fc where ch: "chunk_index ?n (asm_chunk_size config) = Some chunk"
    and w: "write_episode_parquet h libs (below dir (data_path chunk ?n)) config episode fs2 = (fs3, Ok fc)"
    and m: "io_each (mux_camera h libs dir chunk episode) (asm_cameras config) fs3 = (fs4, Ok ())"
    and raw: "write_episode_raw_dump h libs dir chunk config episode fs4 = (fs5, Ok ())"
    and meta: "write_stage_metadata h ?J dir chunk config episode fc fs5 = (fs', Ok ())"
    and staged: "staged = \<lparr>se_episode_index = ?n, se_staging_dir = sdir\<rparr>"
    by (auto simp: stage_episode_def Let_def io_then_Ok io_bind_Ok io_fail_def io_return_def sdir_def [symmetric]
        dir_def [symmetric] split: option.splits)
  note ns = chunk_index_no_slash [OF ch]
  let ?data = "dir @ [''data'', ''chunk-'' @ chunk, episode_name ?n @ ''.parquet'']"
  have fc: "fc = ?frames"
    and "\<exists>table written. row_table config (build_episode_rows config episode) = Some table
      \<and> lib_parquet libs table = Ok written \<and> file_at fs3 ?data = Some written"
    using w write_parquet_Ok [of h libs ?data] components_data_path [OF ns]
    by (fastforce simp: write_episode_parquet_def Let_def below_def io_then_Ok io_fail_def io_return_def
        build_episode_rows_def split: option.splits)+
  moreover have "file_at fs4 ?data = file_at fs3 ?data"
  proof (rule changes_onlyD [OF changes_each m])
    have "prefix (dir @ [''videos'']) (below dir (staged_video_relative_path chunk ?n id ext))" for id ext
      using components_video_path [of chunk ?n id ext] by (auto simp: below_def)
    then show "changes_only (dir @ [''videos'']) (mux_camera h libs dir chunk episode camera)" for camera
      by (auto simp: mux_camera_def intro!: changes_intros changes_mux split: option.split)
  qed simp
  moreover have "file_at fs5 ?data = file_at fs4 ?data"
  proof -
    have "changes_only (dir @ [''raw'']) (write_episode_raw_dump h libs dir chunk config episode)"
      unfolding write_episode_raw_dump_def Let_def below_def components_raw_path [OF ns]
      by (intro changes_intros changes_each changes_write_parquet) auto
    from changes_onlyD [OF this raw] show ?thesis by simp
  qed
  moreover obtain fs6 fs7 where "file_at fs6 ?data = file_at fs5 ?data"
    and info: "write_file h (dir @ [''meta'', ''info.json''])
        (jl_pretty ?J (dataset_info_json (build_dataset_info chunk config episode fc)) @ [newline]) fs6 = (fs7, Ok ())"
    and line: "write_file h (dir @ [''meta'', ''episodes.jsonl''])
        (jl_compact ?J (episode_record_json (episode_record_of episode fc)) @ [newline]) fs7 = (fs', Ok ())"
    using meta create_dir_all_files [of h "dir @ [''meta'']"] by (fastforce simp: write_stage_metadata_def Let_def io_then_Ok)
  moreover have "file_at fs7 ?data = file_at fs6 ?data" "file_at fs' ?data = file_at fs7 ?data"
    "file_at fs' (dir @ [''meta'', ''info.json'']) = file_at fs7 (dir @ [''meta'', ''info.json''])"
    using changes_onlyD [OF changes_write_file [OF prefix_order.refl] info]
      changes_onlyD [OF changes_write_file [OF prefix_order.refl] line] by auto
  ultimately show ?thesis
    using ch write_file_Ok [OF info] write_file_Ok [OF line] fc
    unfolding staged_files_def Let_def staged dir_def [symmetric] by (auto simp: sdir_def dir_def)
qed


section \<open>The raw dump\<close>

text \<open>Observations and actions are written to one directory, actions last.\<close>

theorem raw_action_file:
  assumes "write_episode_raw_dump h libs dir chunk config episode fs = (fs', Ok u)"
    and "action \<in> set (asm_actions config)"
    and "\<And>a. a \<in> set (asm_actions config) \<Longrightarrow> a \<noteq> action \<Longrightarrow> action_file_name a \<noteq> action_file_name action"
  shows "\<exists>written. lib_parquet libs (raw_table (samples_of (eai_action_samples episode)
        (action_key (aact_channel_id action) (aact_command_kind action))) (eai_start_time_us episode)) = Ok written
      \<and> file_at fs' (below dir (raw_path_template chunk (eai_episode_index episode)) @ [action_file_name action]) = Some written"
proof -
  let ?raw = "below dir (raw_path_template chunk (eai_episode_index episode))"
  let ?table = "\<lambda>action. raw_table (samples_of (eai_action_samples episode)
        (action_key (aact_channel_id action) (aact_command_kind action))) (eai_start_time_us episode)"
  define f where "f = (\<lambda>action. write_parquet h libs (?raw @ [action_file_name action]) (?table action))"
  from assms(1) obtain fs1 where run: "io_each f (asm_actions config) fs1 = (fs', Ok ())"
    unfolding f_def by (auto simp: write_episode_raw_dump_def Let_def io_then_Ok)
  have "\<exists>written. lib_parquet libs (?table action) = Ok written \<and> file_at fs' (?raw @ [action_file_name action]) = Some written"
  proof (rule each_file [where P = "\<lambda>x. \<exists>written. lib_parquet libs (?table action) = Ok written \<and> x = Some written"
        and p = "\<lambda>a. ?raw @ [action_file_name a]", OF assms(2) _ _ _ run])
    show "\<exists>written. lib_parquet libs (?table action) = Ok written \<and> file_at fs' (?raw @ [action_file_name action]) = Some written"
      if "f action fs = (fs', Ok u)" for fs fs' u
      using that unfolding f_def by (rule write_parquet_Ok)
  qed (use assms(3) in \<open>auto simp: f_def intro: changes_write_parquet\<close>)
  then show ?thesis .
qed

lemma same_raw_file:
  "aobs_channel_id obs = aact_channel_id action \<Longrightarrow>
   aobs_state_kind obs = SK_JointPosition \<and> aact_command_kind action = CK_JointPosition
     \<or> aobs_state_kind obs = SK_ParallelPosition \<and> aact_command_kind action = CK_ParallelPosition \<Longrightarrow>
   observation_file_name obs = action_file_name action"
  by (auto simp: observation_file_name_def action_file_name_def)

end
