(* ===== verification/Storage_Lerobot.thy ===== *)
theory Storage_Lerobot
  imports Storage_Runtime Lerobot_Staging
begin

text \<open>
  \<^verbatim>\<open>storage/local-lerobot/src/runtime.rs\<close>: a staged episode is merged into one LeRobot dataset. The
  \<open>data\<close>, \<open>videos\<close> and \<open>raw\<close> trees are moved file by file, the \<open>.jsonl\<close> files appended, and
  \<open>meta/info.json\<close> updated with the totals and the union of the features.
\<close>

section \<open>Reading the dataset description\<close>

definition video_info_of_json :: "json \<Rightarrow> (video_info, json_error) result" where
  "video_info_of_json j =
     bind_ok (required de_string [''codec''] j) (\<lambda>codec.
     bind_ok (required de_string [''container'', ''artifact_format''] j) (\<lambda>container.
     bind_ok (required de_u32 [''width''] j) (\<lambda>width.
     bind_ok (required de_u32 [''height''] j) (\<lambda>height.
     bind_ok (required de_u32 [''fps''] j) (\<lambda>fps.
       Ok \<lparr>vi_codec = codec, vi_container = container, vi_width = width, vi_height = height, vi_fps = fps\<rparr>)))))"

definition feature_spec_of_json :: "json \<Rightarrow> (feature_spec, json_error) result" where
  "feature_spec_of_json j =
     bind_ok (required de_string [''dtype''] j) (\<lambda>dtype.
     bind_ok (required (de_list de_u64) [''shape''] j) (\<lambda>shape.
     bind_ok (optional (de_list de_string) [''names''] j) (\<lambda>names.
     bind_ok (optional video_info_of_json [''video_info''] j) (\<lambda>video_info.
       Ok \<lparr>fe_dtype = dtype, fe_shape = shape, fe_names = names, fe_video_info = video_info\<rparr>))))"

definition dataset_info_of_json :: "json \<Rightarrow> (dataset_info, json_error) result" where
  "dataset_info_of_json j =
     bind_ok (required de_string [''codebase_version''] j) (\<lambda>version.
     bind_ok (optional de_string [''robot_type''] j) (\<lambda>robot_type.
     bind_ok (required de_u32 [''total_episodes''] j) (\<lambda>episodes.
     bind_ok (required de_u64 [''total_frames''] j) (\<lambda>frames.
     bind_ok (required de_u32 [''total_tasks''] j) (\<lambda>tasks.
     bind_ok (required de_u32 [''chunks_size''] j) (\<lambda>chunks.
     bind_ok (required de_u32 [''fps''] j) (\<lambda>fps.
     bind_ok (required (de_map de_string) [''splits''] j) (\<lambda>splits.
     bind_ok (required de_string [''data_path''] j) (\<lambda>data.
     bind_ok (optional de_string [''video_path''] j) (\<lambda>video.
     bind_ok (optional de_string [''raw_path''] j) (\<lambda>raw.
     bind_ok (required (de_map feature_spec_of_json) [''features''] j) (\<lambda>features.
     bind_ok (required de_string [''embedded_config_toml''] j) (\<lambda>toml.
       Ok \<lparr>di_codebase_version = version, di_robot_type = robot_type, di_total_episodes = episodes,
           di_total_frames = frames, di_total_tasks = tasks, di_chunks_size = chunks, di_fps = fps, di_splits = splits,
           di_data_path = data, di_video_path = video, di_raw_path = raw, di_features = features,
           di_embedded_config_toml = toml\<rparr>)))))))))))))"

definition read_dataset_info :: "io_host \<Rightarrow> json_lib \<Rightarrow> path \<Rightarrow> dataset_info io" where
  "read_dataset_info h J p =
     io_bind (read_file h p) (\<lambda>text.
       case jl_parse J text of
         Err e \<Rightarrow> io_fail (Message e)
       | Ok j \<Rightarrow> (case dataset_info_of_json j of Err e \<Rightarrow> io_fail (Message ''invalid dataset info'') | Ok info \<Rightarrow> io_return info))"

section \<open>Updating the dataset description\<close>

definition saturating_add32 :: "u32 \<Rightarrow> u32 \<Rightarrow> u32" where
  "saturating_add32 a b = of_nat (min (unat a + unat b) (2 ^ 32 - 1))"

definition saturating_add64 :: "u64 \<Rightarrow> u64 \<Rightarrow> u64" where
  "saturating_add64 a b = of_nat (min (unat a + unat b) (2 ^ 64 - 1))"

definition fresh_info :: "dataset_info \<Rightarrow> dataset_info" where
  "fresh_info staged = staged\<lparr>di_total_episodes := 0, di_total_frames := 0\<rparr>"

text \<open>\<open>features.entry(key).or_insert(spec)\<close>\<close>

definition bt_or_insert :: "'k::linorder \<Rightarrow> 'v \<Rightarrow> ('k, 'v) btree_map \<Rightarrow> ('k, 'v) btree_map" where
  "bt_or_insert k v m = (if map_of m k = None then bt_insert k v m else m)"

definition merge_info :: "dataset_info \<Rightarrow> dataset_info \<Rightarrow> dataset_info" where
  "merge_info info staged =
     info\<lparr>di_total_episodes := saturating_add32 (di_total_episodes info) (di_total_episodes staged),
         di_total_frames := saturating_add64 (di_total_frames info) (di_total_frames staged),
         di_total_tasks := max (di_total_tasks info) (di_total_tasks staged),
         di_robot_type := (case di_robot_type info of None \<Rightarrow> di_robot_type staged | Some t \<Rightarrow> Some t),
         di_features := fold (\<lambda>(k, spec). bt_or_insert k spec) (di_features staged) (di_features info),
         di_video_path := (case di_video_path info of None \<Rightarrow> di_video_path staged | Some p \<Rightarrow> Some p),
         di_raw_path := (case di_raw_path info of None \<Rightarrow> di_raw_path staged | Some p \<Rightarrow> Some p),
         di_embedded_config_toml := (if blank (di_embedded_config_toml info) then di_embedded_config_toml staged
           else di_embedded_config_toml info)\<rparr>"

definition update_root_info :: "io_host \<Rightarrow> json_lib \<Rightarrow> path \<Rightarrow> dataset_info \<Rightarrow> unit io" where
  "update_root_info h J p staged =
     io_then (create_dir_all h (butlast p))
       (io_bind (\<lambda>fs. if path_exists fs p then read_dataset_info h J p fs else (fs, Ok (fresh_info staged)))
         (\<lambda>info. write_file h p (jl_pretty J (dataset_info_json (merge_info info staged)))))"

section \<open>Merging trees\<close>

definition move_or_copy_file :: "io_host \<Rightarrow> path \<Rightarrow> path \<Rightarrow> unit io" where
  "move_or_copy_file h s d = (\<lambda>fs.
     case rename h s d fs of
       (fs', Ok _) \<Rightarrow> (fs', Ok ())
     | (fs', Err _) \<Rightarrow> io_then (copy_file h s d) (remove_file h s) fs')"

text \<open>One entry of \<open>merge_directory_contents\<close>; the recursion is on fuel.\<close>

primrec merge_entry :: "nat \<Rightarrow> io_host \<Rightarrow> entry \<Rightarrow> path \<Rightarrow> path \<Rightarrow> unit io" where
  "merge_entry 0 h e s d = io_fail OutOfFuel"
| "merge_entry (Suc k) h e s d =
     (case e of
        Directory \<Rightarrow> io_then (create_dir_all h d)
          (io_bind (read_dir h s) (io_each (\<lambda>(n, e'). merge_entry k h e' (s @ [n]) (d @ [n]))))
      | RegularFile _ \<Rightarrow> io_then (create_dir_all h (butlast d)) (move_or_copy_file h s d))"

definition merge_directory_contents :: "nat \<Rightarrow> io_host \<Rightarrow> path \<Rightarrow> path \<Rightarrow> unit io" where
  "merge_directory_contents k h s d =
     io_bind (read_dir h s) (io_each (\<lambda>(n, e). merge_entry k h e (s @ [n]) (d @ [n])))"

definition merge_tree_if_present :: "io_host \<Rightarrow> path \<Rightarrow> path \<Rightarrow> unit io" where
  "merge_tree_if_present h s d = (\<lambda>fs.
     if path_exists fs s then
       io_then (create_dir_all h d) (merge_directory_contents (Suc (tree_height fs)) h s d) fs
     else (fs, Ok ()))"

definition merge_meta_jsonl_if_present :: "io_host \<Rightarrow> path \<Rightarrow> path \<Rightarrow> bool \<Rightarrow> unit io" where
  "merge_meta_jsonl_if_present h s d keep_existing_only = (\<lambda>fs.
     if \<not> path_exists fs s then (fs, Ok ())
     else io_then (create_dir_all h (butlast d))
       (\<lambda>fs. if keep_existing_only \<and> path_exists fs d then (fs, Ok ())
         else io_bind (read_file h s) (\<lambda>c.
           if keep_existing_only then write_file h d c else append_file h d c) fs) fs)"

section \<open>Storing an episode\<close>

definition lerobot_store_episode_local ::
  "io_host \<Rightarrow> json_lib \<Rightarrow> storage_runtime_config \<Rightarrow> episode_ready_request \<Rightarrow> string io" where
  "lerobot_store_episode_local h J config request =
     (case srt_output_path config of
        None \<Rightarrow> io_fail (Message ''local storage requires output_path'')
      | Some output_path \<Rightarrow>
          (let root = resolve h output_path; staging = resolve h (rq_staging_dir request)
           in io_then (create_dir_all h root)
               (io_bind (read_dataset_info h J (staging @ [''meta'', ''info.json''])) (\<lambda>staged_info.
                 io_then (merge_tree_if_present h (staging @ [''data'']) (root @ [''data'']))
                 (io_then (merge_tree_if_present h (staging @ [''videos'']) (root @ [''videos'']))
                 (io_then (merge_tree_if_present h (staging @ [''raw'']) (root @ [''raw'']))
                 (io_then (merge_meta_jsonl_if_present h (staging @ [''meta'', ''tasks.jsonl'']) (root @ [''meta'', ''tasks.jsonl'']) True)
                 (io_then (merge_meta_jsonl_if_present h (staging @ [''meta'', ''episodes.jsonl'']) (root @ [''meta'', ''episodes.jsonl'']) False)
                 (io_then (merge_meta_jsonl_if_present h (staging @ [''meta'', ''episodes_stats.jsonl''])
                    (root @ [''meta'', ''episodes_stats.jsonl'']) False)
                 (io_then (update_root_info h J (root @ [''meta'', ''info.json'']) staged_info)
                 (io_then (remove_dir_all h staging) (io_return output_path))))))))))))"

definition lerobot_store_episode ::
  "io_host \<Rightarrow> json_lib \<Rightarrow> storage_runtime_config \<Rightarrow> episode_ready_request \<Rightarrow> string io" where
  "lerobot_store_episode h J config request =
     (case srt_backend config of
        LocalBackend \<Rightarrow> lerobot_store_episode_local h J config request
      | HttpBackend \<Rightarrow> io_fail (Message ''rollio-storage-local-lerobot: only backend=local is supported'')
      | DataloopBackend \<Rightarrow> io_fail (Message ''rollio-storage-local-lerobot: only backend=local is supported''))"

definition lerobot_storage_run ::
  "io_host \<Rightarrow> json_lib \<Rightarrow> storage_runtime_config \<Rightarrow> storage_turn list \<Rightarrow> fs \<Rightarrow>
   fs storage_state \<times> (unit, storage_exit) result" where
  "lerobot_storage_run h J = storage_run LocalBackend (lerobot_store_episode h J)"

section \<open>The description survives the text form\<close>

lemma de_ser_string [json_simps]: "de_string (JString s) = Ok s" by simp

lemma video_info_read [json_simps]: "video_info_of_json (video_info_json v) = Ok v"
  by (simp add: video_info_of_json_def video_info_json_def required_def struct_field_def json_simps)

lemma strings_read [json_simps]: "de_list de_string (JArray (map JString ss)) = Ok ss"
  by (rule de_list_array) simp

lemma u64s_read [json_simps]: "de_list de_u64 (JArray (map ser_u64 ns)) = Ok ns"
  by (rule de_list_array) (simp add: json_simps)

lemma not_null [simp]: "video_info_json v \<noteq> JNull" "ser_u32 n \<noteq> JNull" "ser_u64 m \<noteq> JNull"
  by (simp_all add: video_info_json_def ser_u32_def ser_u64_def)

lemma optional_some:
  "struct_field names j = Ok (Some v) \<Longrightarrow> v \<noteq> JNull \<Longrightarrow> de v = Ok a \<Longrightarrow> optional de names j = Ok (Some a)"
  by (cases v) (auto simp: optional_def json_simps)

lemma optional_null:
  assumes "struct_field names j = Ok (Some (ser_option ser m))" and "\<And>a. ser a \<noteq> JNull" and "\<And>a. de (ser a) = Ok a"
  shows "optional de names j = Ok m"
proof (cases m)
  case None
  with assms(1) show ?thesis by (simp add: optional_def json_simps ser_option_def)
next
  case (Some a)
  with assms(1) have "struct_field names j = Ok (Some (ser a))" by (simp add: ser_option_def)
  then show ?thesis unfolding Some by (rule optional_some) (rule assms(2,3))+
qed

lemma optional_skipped:
  assumes "struct_field names j = Ok (map_option ser m)" and "\<And>a. ser a \<noteq> JNull" and "\<And>a. de (ser a) = Ok a"
  shows "optional de names j = Ok m"
proof (cases m)
  case None
  with assms(1) show ?thesis by (simp add: optional_def json_simps)
next
  case (Some a)
  with assms(1) have "struct_field names j = Ok (Some (ser a))" by (simp)
  then show ?thesis unfolding Some by (rule optional_some) (rule assms(2,3))+
qed

lemma feature_spec_read [json_simps]: "feature_spec_of_json (feature_spec_json f) = Ok f"
proof -
  have "optional (de_list de_string) [''names''] (feature_spec_json f) = Ok (fe_names f)"
    by (rule optional_null [where ser = "\<lambda>ns. JArray (map JString ns)"])
      (auto simp: struct_field_def feature_spec_json_def skip_none_def json_simps split: option.split)
  moreover have "optional video_info_of_json [''video_info''] (feature_spec_json f) = Ok (fe_video_info f)"
    by (rule optional_skipped [where ser = video_info_json])
      (auto simp: struct_field_def feature_spec_json_def skip_none_def json_simps split: option.split)
  ultimately show ?thesis
    by (simp add: feature_spec_of_json_def json_simps)
      (simp add: required_def struct_field_def feature_spec_json_def skip_none_def json_simps split: option.split)
qed

theorem dataset_info_read:
  assumes "bt_inv (di_splits i)" and "bt_inv (di_features i)"
  shows "dataset_info_of_json (dataset_info_json i) = Ok i"
proof -
  let ?j = "dataset_info_json i"
  have r: "optional de_string [''robot_type''] ?j = Ok (di_robot_type i)"
    by (rule optional_null [where ser = JString])
      (auto simp: struct_field_def dataset_info_json_def skip_none_def split: option.split)
  have v: "optional de_string [''video_path''] ?j = Ok (di_video_path i)"
    by (rule optional_skipped [where ser = JString])
      (auto simp: struct_field_def dataset_info_json_def skip_none_def split: option.split)
  have w: "optional de_string [''raw_path''] ?j = Ok (di_raw_path i)"
    by (rule optional_skipped [where ser = JString])
      (auto simp: struct_field_def dataset_info_json_def skip_none_def split: option.split)
  have f: "struct_field [''codebase_version''] ?j = Ok (Some (JString (di_codebase_version i)))"
    "struct_field [''total_episodes''] ?j = Ok (Some (ser_u32 (di_total_episodes i)))"
    "struct_field [''total_frames''] ?j = Ok (Some (ser_u64 (di_total_frames i)))"
    "struct_field [''total_tasks''] ?j = Ok (Some (ser_u32 (di_total_tasks i)))"
    "struct_field [''chunks_size''] ?j = Ok (Some (ser_u32 (di_chunks_size i)))"
    "struct_field [''fps''] ?j = Ok (Some (ser_u32 (di_fps i)))"
    "struct_field [''splits''] ?j = Ok (Some (ser_map JString (di_splits i)))"
    "struct_field [''data_path''] ?j = Ok (Some (JString (di_data_path i)))"
    "struct_field [''features''] ?j = Ok (Some (ser_map feature_spec_json (di_features i)))"
    "struct_field [''embedded_config_toml''] ?j = Ok (Some (JString (di_embedded_config_toml i)))"
    by (simp_all add: struct_field_def dataset_info_json_def skip_none_def split: option.split)
  have m: "de_map de_string (ser_map JString (di_splits i)) = Ok (di_splits i)"
    "de_map feature_spec_of_json (ser_map feature_spec_json (di_features i)) = Ok (di_features i)"
    by (rule de_ser_map; simp add: assms json_simps)+
  have q: "required de names ?j = de v" if "struct_field names ?j = Ok (Some v)"
    for de :: "json \<Rightarrow> ('x, json_error) result" and names v
    using that by (simp add: required_def json_simps)
  show ?thesis
    unfolding dataset_info_of_json_def r v w f [THEN q] m by (simp add: json_simps)
qed


section \<open>Merging moves the tree\<close>

lemma rename_failed: "rename h s d fs = (fs', Err e) \<Longrightarrow> fs' = fs"
  by (auto simp: rename_def permitted_def io_fail_def split: option.splits entry.splits if_splits)

lemma move_or_copy_cases:
  assumes "move_or_copy_file h s d fs = (fs', x)"
  obtains (renamed) "rename h s d fs = (fs', x)" "x = Ok ()"
    | (copied) "io_then (copy_file h s d) (remove_file h s) fs = (fs', x)"
proof -
  obtain fs1 r where rn: "rename h s d fs = (fs1, r)" by fastforce
  with assms rename_failed [of h s d fs fs1] show thesis
    by (cases r) (auto simp: move_or_copy_file_def intro: renamed copied)
qed

lemma mover_copy_remove:
  assumes "parallel s d"
  shows "mover s d (io_then (copy_file h s d) (remove_file h s))"
  unfolding mover_def
proof (intro allI impI)
  fix fs fs' x
  assume wf: "wf_fs fs" and run: "io_then (copy_file h s d) (remove_file h s) fs = (fs', x)"
  have ne: "s \<noteq> d" "s \<noteq> []" "d \<noteq> []" using assms by auto
  note mc = mover_copy [OF assms, of h]
  from run show "wf_fs fs' \<and> overlay s d fs' = overlay s d fs
     \<and> (\<forall>t. file_at fs (s @ t) = None \<longrightarrow> file_at fs' (s @ t) = None)
     \<and> (\<forall>q. \<not> prefix s q \<and> \<not> prefix d q \<longrightarrow> file_at fs' q = file_at fs q)"
  proof (cases rule: io_then_cases)
    case (first e)
    from moverD [OF mc wf first(1)] show ?thesis by blast
  next
    case (second fs1 a)
    note 1 = moverD [OF mc wf second(1)]
    from copy_file_cases [OF second(1)] ne obtain c where "look fs s = Some (RegularFile c)"
      "fs1 = AList.update d (RegularFile c) fs" by auto
    then have same: "file_at fs1 (d @ []) = file_at fs1 (s @ [])"
      using ne by (simp add: file_at_update) (simp add: file_at_def)
    have "overlay s d fs' = overlay s d fs1" by (rule overlay_remove [OF assms _ same, of h _ x]) (use second(2) in simp)
    moreover have "file_at fs' q = file_at fs1 q \<or> q = s \<and> file_at fs' q = None" for q
      using remove_file_cases [OF second(2)] by (auto simp: file_at_delete split: if_splits)
    moreover have "wf_fs fs'" by (rule io_keepsD [OF keeps_wf(5) 1(1) second(2)])
    ultimately show ?thesis using 1 by (metis prefix_order.refl)
  qed
qed

lemma mover_move_or_copy: "parallel s d \<Longrightarrow> mover s d (move_or_copy_file h s d)"
  unfolding mover_def
proof (intro allI impI)
  fix fs fs' x
  assume apart: "parallel s d" and wf: "wf_fs fs" and run: "move_or_copy_file h s d fs = (fs', x)"
  from run show "wf_fs fs' \<and> overlay s d fs' = overlay s d fs
     \<and> (\<forall>t. file_at fs (s @ t) = None \<longrightarrow> file_at fs' (s @ t) = None)
     \<and> (\<forall>q. \<not> prefix s q \<and> \<not> prefix d q \<longrightarrow> file_at fs' q = file_at fs q)"
  proof (cases rule: move_or_copy_cases)
    case renamed
    from moverD [OF mover_rename [OF apart] wf renamed(1)] show ?thesis by blast
  next
    case copied
    from moverD [OF mover_copy_remove [OF apart] wf copied] show ?thesis by blast
  qed
qed

lemma move_or_copy_empties:
  assumes "parallel s d" and "wf_fs fs" and "move_or_copy_file h s d fs = (fs', Ok ())"
  shows "no_files s fs'"
proof -
  have ne: "s \<noteq> d" and sd: "\<not> prefix s d" "\<not> prefix d s" "s \<noteq> []" using assms(1) by auto
  from assms(3) show ?thesis
  proof (cases rule: move_or_copy_cases)
    case renamed
    from rename_cases [OF renamed(1) ne] show ?thesis
      using parallel_sides(2) [OF assms(1), of "[]"] by (auto simp: no_files_def file_at_relocate [OF sd(1,2)])
  next
    case copied
    then obtain fs1 u where cp: "copy_file h s d fs = (fs1, Ok u)" and rm: "remove_file h s fs1 = (fs', Ok ())"
      unfolding io_then_Ok by blast
    have wf1: "wf_fs fs1" by (rule io_keepsD [OF keeps_wf(4) assms(2) cp])
    from remove_file_cases [OF rm] obtain c where c: "look fs1 s = Some (RegularFile c)" "fs' = AList.delete s fs1" by auto
    have "file_at fs1 (s @ t) = None" if "t \<noteq> []" for t
      using wf_below [OF wf1, of s t] that c(1) by (auto simp: file_at_def split: option.splits)
    then show ?thesis using c sd(3) by (auto simp: no_files_def file_at_delete)
  qed
qed

lemma tree_mover_merge: "tree_mover (merge_entry k h)"
proof (induction k)
  case 0
  show ?case by unfold_locales (simp_all add: mover_fail, simp add: io_fail_def)
next
  case (Suc k)
  note child = tree_mover.move_children_mover [OF Suc] and listed = tree_mover.move_listed_empties [OF Suc]
  note ch = tree_mover.move_children_def [OF Suc]
  show ?case
  proof
    fix s d :: path and e
    assume "parallel s d"
    then show "mover s d (merge_entry (Suc k) h e s d)"
      unfolding merge_entry.simps ch [symmetric]
      by (auto intro!: mover_then mover_bind mover_create_dir_all mover_read_dir child mover_move_or_copy split: entry.split)
  next
    fix s d :: path and e and fs fs'
    assume apart: "parallel s d" and wf: "wf_fs fs" and run: "merge_entry (Suc k) h e s d fs = (fs', Ok ())"
    show "no_files s fs'"
    proof (cases e)
      case Directory
      with run obtain fs1 where mk: "create_dir_all h d fs = (fs1, Ok ())" and l: "look fs1 s = Some Directory"
        and mv: "tree_mover.move_children (merge_entry k h) s d (children fs1 s) fs1 = (fs', Ok ())"
        by (auto simp: io_then_Ok io_bind_Ok read_dir_Ok ch)
      have "wf_fs fs1" by (rule io_keepsD [OF keeps_wf(1) wf mk])
      from listed [OF apart this l mv] show ?thesis .
    next
      case (RegularFile c)
      with run obtain fs1 where mk: "create_dir_all h (butlast d) fs = (fs1, Ok ())"
        and mv: "move_or_copy_file h s d fs1 = (fs', Ok ())" by (auto simp: io_then_Ok)
      from move_or_copy_empties [OF apart io_keepsD [OF keeps_wf(1) wf mk] mv] show ?thesis .
    qed
  qed
qed

interpretation merge: tree_mover "merge_entry k h" for k h
  by (rule tree_mover_merge)

lemma merge_contents_mover: "parallel s d \<Longrightarrow> mover s d (merge_directory_contents k h s d)"
  unfolding merge_directory_contents_def merge.move_children_def [symmetric]
  by (intro mover_bind mover_read_dir merge.move_children_mover)

lemma merge_tree_mover: "parallel s d \<Longrightarrow> mover s d (merge_tree_if_present h s d)"
proof -
  assume apart: "parallel s d"
  have "mover s d (io_then (create_dir_all h d) (merge_directory_contents k h s d))" for k
    by (intro mover_then mover_create_dir_all merge_contents_mover [OF apart])
  then show ?thesis unfolding mover_def merge_tree_if_present_def by (auto split: if_splits)
qed

lemma merge_tree_empties:
  assumes "parallel s d" and "wf_fs fs" and "merge_tree_if_present h s d fs = (fs', Ok ())"
  shows "no_files s fs'"
proof (cases "path_exists fs s")
  case False
  have "look fs (s @ t) = None" for t
  proof (rule ccontr)
    assume "look fs (s @ t) \<noteq> None"
    with False wf_below [OF assms(2), of s t] show False by (cases "t = []") (auto simp: path_exists_def)
  qed
  with False assms(3) show ?thesis by (auto simp: merge_tree_if_present_def no_files_def file_at_def)
next
  case True
  with assms(3) obtain fs1 where mk: "create_dir_all h d fs = (fs1, Ok ())" and l: "look fs1 s = Some Directory"
    and mv: "merge.move_children (Suc (tree_height fs)) h s d (children fs1 s) fs1 = (fs', Ok ())"
    by (auto simp: merge_tree_if_present_def merge_directory_contents_def io_then_Ok io_bind_Ok read_dir_Ok
        merge.move_children_def)
  from merge.move_listed_empties [OF assms(1) io_keepsD [OF keeps_wf(1) assms(2) mk] l mv] show ?thesis .
qed


section \<open>The outcome of a store\<close>

text \<open>The trees that are merged.\<close>

definition merged_trees :: "string list" where
  "merged_trees = [''data'', ''videos'', ''raw'']"

definition trees_are :: "path \<Rightarrow> path \<Rightarrow> (string \<Rightarrow> path \<Rightarrow> bytes option) \<Rightarrow> fs \<Rightarrow> bool" where
  "trees_are s d ov fs \<longleftrightarrow> wf_fs fs \<and> (\<forall>X \<in> set merged_trees. overlay (s @ [X]) (d @ [X]) fs = ov X)"

definition drained :: "path \<Rightarrow> string list \<Rightarrow> fs \<Rightarrow> bool" where
  "drained s Xs fs \<longleftrightarrow> (\<forall>X \<in> set Xs. no_files (s @ [X]) fs)"

lemma parallel_tree: "parallel s d \<Longrightarrow> parallel (s @ [X]) (d @ [Y])"
  by (rule parallel_append)

lemma mover_other_files:
  assumes "parallel s d" and "mover (s @ [Y]) (d @ [Y]) m" and "wf_fs fs" and "m fs = (fs', x)" and "X \<noteq> Y"
  shows "file_at fs' (s @ X # t) = file_at fs (s @ X # t)" "file_at fs' (d @ X # t) = file_at fs (d @ X # t)"
  using moverD(4) [OF assms(2-4), of "s @ X # t"] moverD(4) [OF assms(2-4), of "d @ X # t"]
    parallel_sides [OF assms(1)] assms(5) by auto

lemma merge_keeps_trees:
  assumes "parallel s d"
  shows "io_keeps (\<lambda>fs. trees_are s d ov fs \<and> drained s Xs fs) (merge_tree_if_present h (s @ [Y]) (d @ [Y]))"
proof (rule io_keepsI)
  fix fs fs' r
  assume i: "trees_are s d ov fs \<and> drained s Xs fs" and run: "merge_tree_if_present h (s @ [Y]) (d @ [Y]) fs = (fs', r)"
  have mv: "mover (s @ [Y]) (d @ [Y]) (merge_tree_if_present h (s @ [Y]) (d @ [Y]))"
    by (rule merge_tree_mover [OF parallel_tree [OF assms]])
  have wf: "wf_fs fs" using i by (simp add: trees_are_def)
  note m = moverD [OF mv wf run]
  have "overlay (s @ [X]) (d @ [X]) fs' = overlay (s @ [X]) (d @ [X]) fs" for X
  proof (cases "X = Y")
    case False
    show ?thesis
      unfolding overlay_def using mover_other_files [OF assms mv wf run False] by (simp add: fun_eq_iff split: option.split)
  qed (use m(2) in simp)
  moreover have "no_files (s @ [X]) fs'" if "no_files (s @ [X]) fs" for X
  proof (cases "X = Y")
    case True
    then show ?thesis using m(3) that by (simp add: no_files_def)
  next
    case False
    then show ?thesis using mover_other_files(1) [OF assms mv wf run False] that by (simp add: no_files_def)
  qed
  ultimately show "trees_are s d ov fs' \<and> drained s Xs fs'" using i m(1) by (simp add: trees_are_def drained_def)
qed

text \<open>A step that only writes below \<open>meta\<close> touches none of the trees.\<close>

lemma meta_keeps_trees:
  assumes "parallel s d" and "changes_only (d @ [''meta'']) m" and "io_keeps wf_fs m"
  shows "io_keeps (\<lambda>fs. trees_are s d ov fs \<and> drained s Xs fs) m"
proof (rule io_keepsI)
  fix fs fs' r
  assume i: "trees_are s d ov fs \<and> drained s Xs fs" and run: "m fs = (fs', r)"
  have s: "file_at fs' (s @ t) = file_at fs (s @ t)" for t
    using changes_onlyD [OF assms(2) run] parallel_sides(2) [OF assms(1)] by blast
  have d: "file_at fs' (d @ X # t) = file_at fs (d @ X # t)" if "X \<noteq> ''meta''" for X t
    using changes_onlyD [OF assms(2) run] that by auto
  have "overlay (s @ [X]) (d @ [X]) fs' = overlay (s @ [X]) (d @ [X]) fs" if "X \<in> set merged_trees" for X
    using that s [of "X # t" for t] d [of X] by (auto simp: overlay_def merged_trees_def fun_eq_iff split: option.split)
  then show "trees_are s d ov fs' \<and> drained s Xs fs'"
    using i s io_keepsD [OF assms(3) _ run] by (simp add: trees_are_def drained_def no_files_def)
qed

lemma keeps_wf_jsonl: "io_keeps wf_fs (merge_meta_jsonl_if_present h s d keep)"
proof -
  have "io_keeps wf_fs (\<lambda>fs. if keep \<and> path_exists fs d then (fs, Ok ())
      else io_bind (read_file h s) (\<lambda>c. if keep then write_file h d c else append_file h d c) fs)"
    by (rule keeps_if) (auto intro!: io_keepsI [of _ "\<lambda>fs. (fs, Ok ())"] triple_bind [OF keeps_read_file] keeps_wf)
  then have "io_keeps wf_fs (io_then (create_dir_all h (butlast d)) (\<lambda>fs. if keep \<and> path_exists fs d then (fs, Ok ())
      else io_bind (read_file h s) (\<lambda>c. if keep then write_file h d c else append_file h d c) fs))"
    by (rule triple_then [OF keeps_wf(1)])
  moreover have "io_keeps wf_fs (\<lambda>fs. (fs, Ok ()))" by (rule io_keepsI) simp
  ultimately show ?thesis unfolding merge_meta_jsonl_if_present_def by (intro keeps_if)
qed

lemma changes_read_file [changes_intros]: "changes_only p (read_file h q)"
  by (auto simp: changes_only_def read_file_def permitted_def io_fail_def split: option.splits)

lemma changes_append_file: "prefix p q \<Longrightarrow> changes_only p (append_file h q c)"
  by (auto simp: changes_only_def file_at_update dest!: append_file_cases)

lemma changes_if [changes_intros]: "changes_only p m \<Longrightarrow> changes_only p n \<Longrightarrow> changes_only p (\<lambda>fs. if b fs then m fs else n fs)"
  by (auto simp: changes_only_def)

lemma changes_unit [changes_intros]: "changes_only p (\<lambda>fs. (fs, r))"
  by (auto simp: changes_only_def)

lemma changes_jsonl: "prefix p d \<Longrightarrow> changes_only p (merge_meta_jsonl_if_present h s d keep)"
  unfolding merge_meta_jsonl_if_present_def
  by (intro changes_intros) (auto intro: changes_write_file changes_append_file)

lemma changes_read_info [changes_intros]: "changes_only p (read_dataset_info h J q)"
  unfolding read_dataset_info_def by (intro changes_intros) (auto intro!: changes_intros split: sum.split)

lemma changes_update_info: "prefix p q \<Longrightarrow> changes_only p (update_root_info h J q staged)"
  unfolding update_root_info_def by (intro changes_intros changes_write_file)

lemma keeps_wf_read_info: "io_keeps wf_fs (read_dataset_info h J q)"
  unfolding read_dataset_info_def
  by (intro triple_bind [OF keeps_read_file]) (auto intro!: triple_fail triple_return split: sum.split)

lemma keeps_wf_update_info: "io_keeps wf_fs (update_root_info h J q staged)"
  unfolding update_root_info_def
  by (intro triple_then [OF keeps_wf(1)] triple_bind [OF keeps_if [OF keeps_wf_read_info]] keeps_wf io_keepsI) simp_all

lemma merge_step:
  assumes "parallel s d"
  shows "triple (\<lambda>fs. trees_are s d ov fs \<and> drained s Xs fs) (merge_tree_if_present h (s @ [Y]) (d @ [Y]))
    (\<lambda>_ fs. trees_are s d ov fs \<and> drained s (Y # Xs) fs) (trees_are s d ov)"
proof (rule tripleI)
  fix fs fs' and u :: unit
  assume i: "trees_are s d ov fs \<and> drained s Xs fs" and run: "merge_tree_if_present h (s @ [Y]) (d @ [Y]) fs = (fs', Ok u)"
  then show "trees_are s d ov fs' \<and> drained s (Y # Xs) fs'"
    using io_keepsD [OF merge_keeps_trees [OF assms] i run] merge_tree_empties [OF parallel_tree [OF assms]]
    by (auto simp: drained_def trees_are_def)
next
  fix fs fs' e
  assume "trees_are s d ov fs \<and> drained s Xs fs" and "merge_tree_if_present h (s @ [Y]) (d @ [Y]) fs = (fs', Err e)"
  then show "trees_are s d ov fs'" using io_keepsD [OF merge_keeps_trees [OF assms]] by blast
qed

lemma meta_step:
  assumes "parallel s d" and "changes_only (d @ [''meta'']) m" and "io_keeps wf_fs m"
  shows "triple (\<lambda>fs. trees_are s d ov fs \<and> drained s Xs fs) m (\<lambda>_ fs. trees_are s d ov fs \<and> drained s Xs fs) (trees_are s d ov)"
  by (rule triple_weaken [OF meta_keeps_trees [OF assms]]) auto

lemma drained_all: "drained s [''raw'', ''videos'', ''data''] fs \<Longrightarrow> X \<in> set merged_trees \<Longrightarrow> no_files (s @ [X]) fs"
  by (auto simp: drained_def merged_trees_def)

lemma remove_step:
  assumes "parallel s d"
  shows "triple (\<lambda>fs. trees_are s d ov fs \<and> drained s [''raw'', ''videos'', ''data''] fs) (remove_dir_all h s)
    (\<lambda>_ fs. trees_are s d ov fs \<and> no_files s fs) (trees_are s d ov)"
proof (rule tripleI)
  fix fs fs' and u :: unit
  assume i: "trees_are s d ov fs \<and> drained s [''raw'', ''videos'', ''data''] fs" and run: "remove_dir_all h s fs = (fs', Ok u)"
  have fs': "fs' = filter (\<lambda>(q, e). \<not> prefix s q) fs" using remove_dir_all_cases [OF run] by simp
  have "overlay (s @ [X]) (d @ [X]) fs' = overlay (s @ [X]) (d @ [X]) fs" if "X \<in> set merged_trees" for X
    using drained_all [OF conjunct2 [OF i] that] parallel_sides(1) [OF assms, of "[]"]
    by (simp add: fs' overlay_def no_files_def file_at_remove_tree fun_eq_iff)
  then show "trees_are s d ov fs' \<and> no_files s fs'"
    using i io_keepsD [OF keeps_wf(6) _ run] by (auto simp: trees_are_def fs' no_files_def file_at_remove_tree)
next
  fix fs fs' e
  assume "trees_are s d ov fs \<and> drained s [''raw'', ''videos'', ''data''] fs" and "remove_dir_all h s fs = (fs', Err e)"
  then show "trees_are s d ov fs'" by (auto dest!: remove_dir_all_cases)
qed

definition lerobot_root :: "io_host \<Rightarrow> string \<Rightarrow> path" where
  "lerobot_root h output_path = resolve h output_path"

definition lerobot_source :: "io_host \<Rightarrow> episode_ready_request \<Rightarrow> path" where
  "lerobot_source h request = resolve h (rq_staging_dir request)"

theorem lerobot_store_outcome:
  assumes wf: "wf_fs fs" and out: "srt_output_path config = Some out"
    and apart: "parallel (lerobot_source h rq) (lerobot_root h out)"
    and run: "lerobot_store_episode_local h J config rq fs = (fs', r)"
  shows "X \<in> set merged_trees \<Longrightarrow>
      overlay (lerobot_source h rq @ [X]) (lerobot_root h out @ [X]) fs' = overlay (lerobot_source h rq @ [X]) (lerobot_root h out @ [X]) fs"
    and "wf_fs fs'"
    and "r = Ok p \<Longrightarrow> p = out \<and> no_files (lerobot_source h rq) fs'
      \<and> (\<forall>X \<in> set merged_trees. \<forall>t. file_at fs' (lerobot_root h out @ X # t)
            = overlay (lerobot_source h rq @ [X]) (lerobot_root h out @ [X]) fs t)"
proof -
  let ?s = "lerobot_source h rq" and ?d = "lerobot_root h out"
  define ov where "ov = (\<lambda>X. overlay (?s @ [X]) (?d @ [X]) fs)"
  let ?I = "trees_are ?s ?d ov"
  have i: "?I fs" using wf by (simp add: trees_are_def ov_def)
  have I: "?I = (\<lambda>fs. ?I fs \<and> drained ?s [] fs)" by (simp add: drained_def fun_eq_iff)
  have step0: "triple ?I m (\<lambda>_ fs. ?I fs \<and> drained ?s [] fs) ?I"
    if "changes_only (?d @ [''meta'']) m" "io_keeps wf_fs m" for m :: "'x io"
    using meta_step [OF apart that, of ov "[]"] by (simp add: drained_def)
  note merges = merge_step [OF apart] and metas = meta_step [OF apart]
  have j: "changes_only (?d @ [''meta'']) (merge_meta_jsonl_if_present h q (?d @ [''meta'', n]) keep)" for q n keep
    by (rule changes_jsonl) simp
  have u: "changes_only (?d @ [''meta'']) (update_root_info h J (?d @ [''meta'', ''info.json'']) staged)" for staged
    by (rule changes_update_info) simp
  have "triple ?I (lerobot_store_episode_local h J config rq) (\<lambda>p fs. ?I fs \<and> no_files ?s fs \<and> p = out) ?I"
    unfolding lerobot_store_episode_local_def out option.case Let_def lerobot_root_def [of h out, symmetric] lerobot_source_def [of h rq, symmetric]
    by (rule triple_then [OF step0 [OF changes_create_dir_all keeps_wf(1)]],
        rule triple_bind [OF metas [OF changes_read_info keeps_wf_read_info]],
        rule triple_then [OF merges], rule triple_then [OF merges], rule triple_then [OF merges],
        rule triple_then [OF metas [OF j keeps_wf_jsonl]], rule triple_then [OF metas [OF j keeps_wf_jsonl]],
        rule triple_then [OF metas [OF j keeps_wf_jsonl]], rule triple_then [OF metas [OF u keeps_wf_update_info]],
        rule triple_then [OF remove_step [OF apart]], rule triple_return, simp)
  then have post: "?I fs' \<and> (\<forall>p. r = Ok p \<longrightarrow> no_files ?s fs' \<and> p = out)"
    using i run by (cases r) (auto dest: triple_Ok triple_Err)
  then show "X \<in> set merged_trees \<Longrightarrow> overlay (?s @ [X]) (?d @ [X]) fs' = overlay (?s @ [X]) (?d @ [X]) fs" "wf_fs fs'"
    by (auto simp: trees_are_def ov_def)
  assume "r = Ok p"
  with post have n: "no_files ?s fs'" "p = out" by auto
  have "file_at fs' (?d @ X # t) = ov X t" if "X \<in> set merged_trees" for X t
  proof -
    have "no_files (?s @ [X]) fs'" using n(1) by (simp add: no_files_def)
    from overlay_no_files [OF this, of "?d @ [X]" t] post that show ?thesis by (simp add: trees_are_def)
  qed
  with n show "p = out \<and> no_files ?s fs' \<and> (\<forall>X \<in> set merged_trees. \<forall>t. file_at fs' (?d @ X # t)
      = overlay (?s @ [X]) (?d @ [X]) fs t)" by (simp add: ov_def)
qed

end
