(* ===== verification/Dataset_Resume.thy ===== *)
theory Dataset_Resume
  imports Storage_Lerobot Config_Project
begin

text \<open>
  \<^verbatim>\<open>controller/src/dataset_resume.rs\<close>: before \<open>rollio collect\<close> numbers its episodes it looks at the
  dataset it is going to append to. The next index is above everything the dataset holds, and the
  dataset has to have been recorded with the same project. \<open>toml::to_string\<close> is an argument.
\<close>

record dataset_resume_hint =
  rh_next_episode_index :: u32
  rh_prior_stored_episode_count :: u32

section \<open>The project the dataset was recorded with\<close>

fun replace_crlf :: "string \<Rightarrow> string" where
  "replace_crlf [] = []"
| "replace_crlf [c] = [c]"
| "replace_crlf (c # d # s) =
     (if byte c = 13 \<and> byte d = 10 then d # replace_crlf s else c # replace_crlf (d # s))"

definition normalize_embedded_toml :: "string \<Rightarrow> string" where
  "normalize_embedded_toml s = replace_crlf (trim s)"

definition embedded_configs_match :: "string \<Rightarrow> string \<Rightarrow> bool" where
  "embedded_configs_match stored current \<longleftrightarrow> normalize_embedded_toml stored = normalize_embedded_toml current"

definition read_info_embedded_config_toml :: "io_host \<Rightarrow> json_lib \<Rightarrow> path \<Rightarrow> string option io" where
  "read_info_embedded_config_toml h J dataset = (\<lambda>fs.
     let p = dataset @ [''meta'', ''info.json'']
     in if \<not> is_file fs p then (fs, Ok None)
        else io_bind (read_file h p) (\<lambda>text. case jl_parse J text of
            Err e \<Rightarrow> io_fail (Message e)
          | Ok j \<Rightarrow> io_return (Option.bind (value_get ''embedded_config_toml'' j) as_str)) fs)"

section \<open>The episodes of the dataset\<close>

text \<open>\<open>str::lines\<close>: a line feed ends a line, and nothing follows the last one.\<close>

fun lines_of :: "string \<Rightarrow> string list" where
  "lines_of [] = []"
| "lines_of (c # s) =
     (if byte c = 10 then [] # lines_of s
      else case s of
          [] \<Rightarrow> [[c]]
        | d # _ \<Rightarrow> if byte c = 13 \<and> byte d = 10 then lines_of s
                   else (case lines_of s of l # ls \<Rightarrow> (c # l) # ls | [] \<Rightarrow> [[c]]))"

definition u32_or_max :: "u64 \<Rightarrow> u32" where
  "u32_or_max n = (if unat n < 2 ^ 32 then of_nat (unat n) else - 1)"

text \<open>\<open>v.as_u64().or_else(|| v.as_i64().map(|i| i as u64))\<close>\<close>

definition index_number :: "json \<Rightarrow> u64 option" where
  "index_number v = (case as_u64 v of Some n \<Rightarrow> Some n | None \<Rightarrow> as_i64 v)"

definition line_episode_index :: "json_lib \<Rightarrow> string \<Rightarrow> u32 option" where
  "line_episode_index J raw =
     (let line = trim raw
      in if line = [] then None
         else case jl_parse J (bytes_of line) of
             Err _ \<Rightarrow> None
           | Ok v \<Rightarrow> map_option u32_or_max (Option.bind (value_get ''episode_index'' v) index_number))"

definition max_option :: "u32 option \<Rightarrow> u32 \<Rightarrow> u32" where
  "max_option m n = (case m of None \<Rightarrow> n | Some k \<Rightarrow> max k n)"

definition count_line :: "json_lib \<Rightarrow> string \<Rightarrow> u32 option \<times> u32 \<Rightarrow> u32 option \<times> u32" where
  "count_line J raw = (\<lambda>(max_index, valid_lines).
     case line_episode_index J raw of
       None \<Rightarrow> (max_index, valid_lines)
     | Some idx \<Rightarrow> (Some (max_option max_index idx), saturating_add32 valid_lines 1))"

definition max_episode_and_line_count_from_jsonl ::
  "io_host \<Rightarrow> json_lib \<Rightarrow> path \<Rightarrow> (u32 option \<times> u32 option) io" where
  "max_episode_and_line_count_from_jsonl h J p = (\<lambda>fs.
     if \<not> is_file fs p then (fs, Ok (None, None))
     else io_bind (read_file h p) (\<lambda>text.
       if \<not> utf8_valid (string_of text) then io_fail (Message ''stream did not contain valid UTF-8'')
       else case fold (count_line J) (lines_of (string_of text)) (None, 0) of
           (max_index, valid_lines) \<Rightarrow> io_return (max_index, Some valid_lines)) fs)"

definition parse_episode_parquet_name :: "string \<Rightarrow> u32 option" where
  "parse_episode_parquet_name name =
     Option.bind (strip_prefix ''episode_'' name) (\<lambda>rest.
     Option.bind (strip_suffix ''.parquet'' rest) parse_u32)"

text \<open>The two loops of \<open>scan_data_parquet_episodes\<close>; \<open>seen\<close> is the \<open>HashSet\<close>.\<close>

fun see_entries :: "(string \<times> entry) list \<Rightarrow> u32 list \<Rightarrow> u32 list" where
  "see_entries [] seen = seen"
| "see_entries ((name, Directory) # es) seen = see_entries es seen"
| "see_entries ((name, RegularFile _) # es) seen =
     see_entries es (case parse_episode_parquet_name name of None \<Rightarrow> seen | Some n \<Rightarrow> List.insert n seen)"

fun scan_chunks :: "io_host \<Rightarrow> path \<Rightarrow> (string \<times> entry) list \<Rightarrow> u32 list \<Rightarrow> u32 list io" where
  "scan_chunks h data_root [] seen = io_return seen"
| "scan_chunks h data_root ((chunk, RegularFile _) # cs) seen = scan_chunks h data_root cs seen"
| "scan_chunks h data_root ((chunk, Directory) # cs) seen =
     io_bind (read_dir h (data_root @ [chunk])) (\<lambda>es. scan_chunks h data_root cs (see_entries es seen))"

definition scan_data_parquet_episodes :: "io_host \<Rightarrow> path \<Rightarrow> (u32 option \<times> u32) io" where
  "scan_data_parquet_episodes h dataset = (\<lambda>fs.
     let data_root = dataset @ [''data'']
     in if \<not> is_dir fs data_root then (fs, Ok (None, 0))
        else io_bind (read_dir h data_root) (\<lambda>chunks.
             io_bind (scan_chunks h data_root chunks []) (\<lambda>seen.
               io_return (if seen = [] then None else Some (Max (set seen)), of_nat (min (length seen) (2 ^ 32 - 1))))) fs)"

definition lerobot_resume_hint_if_episodes_exist ::
  "io_host \<Rightarrow> json_lib \<Rightarrow> path \<Rightarrow> dataset_resume_hint option io" where
  "lerobot_resume_hint_if_episodes_exist h J dataset =
     io_bind (max_episode_and_line_count_from_jsonl h J (dataset @ [''meta'', ''episodes.jsonl''])) (\<lambda>(max_index, jsonl_count).
     io_bind (scan_data_parquet_episodes h dataset) (\<lambda>(parquet_max, parquet_distinct).
       let max_index = (case parquet_max of None \<Rightarrow> max_index | Some pm \<Rightarrow> Some (max_option max_index pm))
       in case max_index of
            None \<Rightarrow> io_return None
          | Some max_idx \<Rightarrow> io_return (Some
              \<lparr>rh_next_episode_index = saturating_add32 max_idx 1,
               rh_prior_stored_episode_count = unwrap_or jsonl_count parquet_distinct\<rparr>)))"

section \<open>The probe\<close>

definition resolve_storage_root :: "project_config \<Rightarrow> string \<Rightarrow> string option" where
  "resolve_storage_root config invocation_cwd =
     Option.bind (st_output_path (pj_storage config)) (\<lambda>path.
       if blank path then None
       else Some (if is_absolute path then path else join_path invocation_cwd path))"

definition info_missing :: io_error where
  "info_missing = Message ''dataset contains episodes but meta/info.json is missing; cannot verify embedded_config_toml''"

definition config_missing :: io_error where
  "config_missing = Message ''dataset contains episodes but meta/info.json has no embedded_config_toml''"

definition config_differs :: io_error where
  "config_differs = Message ''dataset was recorded with a different project config''"

definition probe_lerobot ::
  "io_host \<Rightarrow> json_lib \<Rightarrow> (project_config \<Rightarrow> (string, string) result) \<Rightarrow> project_config \<Rightarrow> path
   \<Rightarrow> dataset_resume_hint option io" where
  "probe_lerobot h J to_toml config dataset =
     io_bind (lerobot_resume_hint_if_episodes_exist h J dataset) (\<lambda>found.
       case found of
         None \<Rightarrow> io_return None
       | Some hint \<Rightarrow>
           (case to_toml config of
              Err e \<Rightarrow> io_fail (Message e)
            | Ok current_toml \<Rightarrow>
                io_bind (read_info_embedded_config_toml h J dataset) (\<lambda>stored.
                  case stored of
                    None \<Rightarrow> io_fail info_missing
                  | Some stored_toml \<Rightarrow>
                      if blank stored_toml then io_fail config_missing
                      else if \<not> embedded_configs_match stored_toml current_toml then io_fail config_differs
                      else io_return (Some hint))))"

definition probe_resume ::
  "io_host \<Rightarrow> json_lib \<Rightarrow> (project_config \<Rightarrow> (string, string) result) \<Rightarrow> project_config \<Rightarrow> string
   \<Rightarrow> dataset_resume_hint option io" where
  "probe_resume h J to_toml config invocation_cwd = (\<lambda>fs.
     case resolve_storage_root config invocation_cwd of
       None \<Rightarrow> (fs, Ok None)
     | Some r \<Rightarrow>
         (let dataset = resolve h r
          in if \<not> is_dir fs dataset then (fs, Ok None)
             else case ep_format (pj_episode config) of
                 LeRobotV2_1 \<Rightarrow> probe_lerobot h J to_toml config dataset fs
               | LeRobotV3_0 \<Rightarrow> probe_lerobot h J to_toml config dataset fs
               | Mcap \<Rightarrow> (fs, Ok None)))"


section \<open>What the probe finds\<close>

text \<open>The indices named by the lines of \<open>meta/episodes.jsonl\<close> and by the files of \<open>data/chunk-*\<close>.\<close>

definition jsonl_indices :: "json_lib \<Rightarrow> path \<Rightarrow> fs \<Rightarrow> u32 list" where
  "jsonl_indices J dataset fs =
     (case file_at fs (dataset @ [''meta'', ''episodes.jsonl'']) of
        None \<Rightarrow> []
      | Some text \<Rightarrow> List.map_filter (line_episode_index J) (lines_of (string_of text)))"

definition parquet_index :: "path \<Rightarrow> fs \<Rightarrow> u32 \<Rightarrow> bool" where
  "parquet_index dataset fs n \<longleftrightarrow>
     (\<exists>chunk name c. look fs (dataset @ [''data'', chunk, name]) = Some (RegularFile c)
        \<and> parse_episode_parquet_name name = Some n)"

definition dataset_indices :: "json_lib \<Rightarrow> path \<Rightarrow> fs \<Rightarrow> u32 set" where
  "dataset_indices J dataset fs = set (jsonl_indices J dataset fs) \<union> Collect (parquet_index dataset fs)"

lemma finite_u32 [simp]: "finite (A :: u32 set)"
  by (rule finite)

lemma max_option_Max: "Some (max_option m n) = Some (Max (insert n (set_option m)))"
  by (cases m) (simp_all add: max_option_def max.commute)

definition greatest :: "u32 set \<Rightarrow> u32 option" where
  "greatest A = (if A = {} then None else Some (Max A))"

lemma greatest_insert: "greatest (insert n A) = Some (max_option (greatest A) n)"
  by (simp add: greatest_def max_option_def max.commute)

lemma greatest_Un: "greatest (A \<union> B) = (case greatest B of None \<Rightarrow> greatest A | Some n \<Rightarrow> Some (max_option (greatest A) n))"
  by (auto simp: greatest_def max_option_def Max_Un)

lemma fold_count_line:
  "fst (fold (count_line J) ls (greatest A, k)) = greatest (A \<union> set (List.map_filter (line_episode_index J) ls))"
proof (induction ls arbitrary: A k)
  case Nil
  show ?case by (simp add: List.map_filter_def)
next
  case (Cons l ls)
  show ?case
  proof (cases "line_episode_index J l")
    case None
    then show ?thesis using Cons [of A k] by (simp add: count_line_def map_filter_simps)
  next
    case (Some n)
    then show ?thesis
      using Cons [of "insert n A"] by (simp add: count_line_def map_filter_simps greatest_insert [symmetric])
  qed
qed

lemma jsonl_max:
  assumes "max_episode_and_line_count_from_jsonl h J (dataset @ [''meta'', ''episodes.jsonl'']) fs = (fs', Ok (m, k))"
  shows "fs' = fs \<and> m = greatest (set (jsonl_indices J dataset fs))"
proof (cases "file_at fs (dataset @ [''meta'', ''episodes.jsonl''])")
  case None
  then show ?thesis using assms
    by (simp add: max_episode_and_line_count_from_jsonl_def is_file_def jsonl_indices_def greatest_def)
next
  case (Some body)
  let ?ls = "lines_of (string_of body)"
  have "fs' = fs \<and> fst (fold (count_line J) ?ls (None, 0)) = m"
    using assms Some
    by (auto simp: max_episode_and_line_count_from_jsonl_def is_file_def io_bind_Ok io_fail_def io_return_def
        read_file_def permitted_def file_at_iff split: option.splits entry.splits if_splits prod.splits)
  with fold_count_line [of J ?ls "{}" 0] Some show ?thesis by (simp add: jsonl_indices_def greatest_def)
qed

lemma see_entries_set:
  "set (see_entries es seen) = set seen \<union> {n. \<exists>name c. (name, RegularFile c) \<in> set es \<and> parse_episode_parquet_name name = Some n}"
  by (induction es seen rule: see_entries.induct) (auto split: option.splits)

lemma see_entries_distinct: "distinct seen \<Longrightarrow> distinct (see_entries es seen)"
  by (induction es seen rule: see_entries.induct) (auto split: option.splits)

lemma scan_chunks_set:
  assumes "scan_chunks h p cs seen fs = (fs', Ok seen')"
  shows "fs' = fs \<and> set seen' = set seen \<union> {n. \<exists>chunk name c. (chunk, Directory) \<in> set cs
    \<and> (name, RegularFile c) \<in> set (children fs (p @ [chunk])) \<and> parse_episode_parquet_name name = Some n}"
  using assms
proof (induction h p cs seen rule: scan_chunks.induct)
  case (1 h p seen)
  then show ?case by (simp add: io_return_def)
next
  case (2 h p chunk c cs seen)
  then show ?case by simp
next
  case (3 h p chunk cs seen)
  from "3.prems" have "scan_chunks h p cs (see_entries (children fs (p @ [chunk])) seen) fs = (fs', Ok seen')"
    by (auto simp: io_bind_Ok read_dir_Ok)
  note ih = "3.IH" [OF this]
  show ?case using ih by (simp add: see_entries_set, blast)
qed

lemma present_entry:
  assumes "distinct (map fst fs)" and "q \<noteq> []"
  shows "(q, e) \<in> set fs \<longleftrightarrow> look fs q = Some e"
  using assms map_of_eq_Some_iff [of fs q e] by (simp add: look_def)

definition seen_index :: "path \<Rightarrow> fs \<Rightarrow> u32 \<Rightarrow> bool" where
  "seen_index p fs n \<longleftrightarrow> (\<exists>chunk name c. (chunk, Directory) \<in> set (children fs p)
    \<and> (name, RegularFile c) \<in> set (children fs (p @ [chunk])) \<and> parse_episode_parquet_name name = Some n)"

lemma parquet_index_seen:
  assumes wf: "wf_fs fs" and "parquet_index dataset fs n"
  shows "seen_index (dataset @ [''data'']) fs n"
proof -
  from assms(2) obtain chunk name c where l: "look fs ((dataset @ [''data'', chunk]) @ [name]) = Some (RegularFile c)"
    and n: "parse_episode_parquet_name name = Some n" by (auto simp: parquet_index_def)
  with wf_below [OF wf, of "dataset @ [''data'', chunk]" "[name]"]
  have "look fs ((dataset @ [''data'']) @ [chunk]) = Some Directory" by simp
  with l n show ?thesis unfolding seen_index_def children_iff
    by (auto simp: look_def dest!: map_of_SomeD)
qed

lemma parquet_index_children:
  assumes "wf_fs fs" and d: "distinct (map fst fs)"
  shows "seen_index (dataset @ [''data'']) fs n \<longleftrightarrow> parquet_index dataset fs n"
proof
  assume "seen_index (dataset @ [''data'']) fs n"
  then show "parquet_index dataset fs n"
    by (auto simp: seen_index_def children_iff present_entry [OF d] parquet_index_def)
qed (rule parquet_index_seen [OF assms(1)])

lemma parquet_max:
  assumes wf: "wf_fs fs" and "scan_data_parquet_episodes h dataset fs = (fs', Ok (m, k))"
  shows "fs' = fs \<and> m = greatest (Collect (seen_index (dataset @ [''data'']) fs))"
proof (cases "is_dir fs (dataset @ [''data''])")
  case True
  then obtain seen where seen: "scan_chunks h (dataset @ [''data'']) (children fs (dataset @ [''data''])) [] fs = (fs', Ok seen)"
    and m: "m = (if seen = [] then None else Some (Max (set seen)))"
    using assms(2)
    by (auto simp: scan_data_parquet_episodes_def Let_def io_bind_Ok read_dir_Ok io_return_def split: prod.splits)
  from scan_chunks_set [OF seen] have "fs' = fs" "set seen = Collect (seen_index (dataset @ [''data'']) fs)"
    unfolding seen_index_def by simp_all
  then show ?thesis using m by (simp add: greatest_def flip: set_empty)
next
  case False
  have "(chunk, Directory) \<notin> set (children fs (dataset @ [''data'']))" for chunk
  proof
    assume "(chunk, Directory) \<in> set (children fs (dataset @ [''data'']))"
    then have "look fs ((dataset @ [''data'']) @ [chunk]) \<noteq> None"
      by (auto simp: children_iff look_def map_of_eq_None_iff) force
    with False wf_below [OF wf, of "dataset @ [''data'']" "[chunk]"] show False by (simp add: is_dir_def)
  qed
  then show ?thesis using False assms(2) by (auto simp: scan_data_parquet_episodes_def Let_def greatest_def seen_index_def)
qed

definition known_indices :: "json_lib \<Rightarrow> path \<Rightarrow> fs \<Rightarrow> u32 set" where
  "known_indices J dataset fs = set (jsonl_indices J dataset fs) \<union> Collect (seen_index (dataset @ [''data'']) fs)"

lemma known_indices_eq:
  "wf_fs fs \<Longrightarrow> distinct (map fst fs) \<Longrightarrow> known_indices J dataset fs = dataset_indices J dataset fs"
  by (auto simp: known_indices_def dataset_indices_def parquet_index_children)

lemma known_indices_above: "wf_fs fs \<Longrightarrow> dataset_indices J dataset fs \<subseteq> known_indices J dataset fs"
  by (auto simp: known_indices_def dataset_indices_def parquet_index_seen)

lemma resume_hint_known:
  assumes "wf_fs fs" and run: "lerobot_resume_hint_if_episodes_exist h J dataset fs = (fs', Ok found)"
  shows "fs' = fs \<and> map_option rh_next_episode_index found
    = map_option (\<lambda>n. saturating_add32 n 1) (greatest (known_indices J dataset fs))"
proof -
  from run obtain fs1 m k m' k' where
    j: "max_episode_and_line_count_from_jsonl h J (dataset @ [''meta'', ''episodes.jsonl'']) fs = (fs1, Ok (m, k))"
    and p: "scan_data_parquet_episodes h dataset fs1 = (fs', Ok (m', k'))"
    and f: "map_option rh_next_episode_index found = map_option (\<lambda>n. saturating_add32 n 1)
      (case m' of None \<Rightarrow> m | Some pm \<Rightarrow> Some (max_option m pm))"
    by (auto simp: lerobot_resume_hint_if_episodes_exist_def io_bind_Ok io_return_def Let_def split: option.splits prod.splits)
  from jsonl_max [OF j] have fs1: "fs1 = fs" and m: "m = greatest (set (jsonl_indices J dataset fs))" by auto
  from parquet_max [OF assms(1)] p fs1 have "fs' = fs" and m': "m' = greatest (Collect (seen_index (dataset @ [''data'']) fs))"
    by auto
  then show ?thesis unfolding f m m' known_indices_def greatest_Un by simp
qed

lemma saturating_next: "n < - 1 \<Longrightarrow> m \<le> n \<Longrightarrow> m < saturating_add32 n 1"
proof -
  assume "n < - 1" "m \<le> n"
  then have "unat n < 2 ^ 32 - 1" "unat m \<le> unat n"
    by (simp_all add: word_less_nat_alt word_le_nat_alt unsigned_minus_1_eq_mask mask_eq_exp_minus_1)
  then show "m < saturating_add32 n 1"
    by (simp add: saturating_add32_def word_less_nat_alt unat_word_ariths)
qed

end
