(* ===== verification/Storage_Local.thy ===== *)
theory Storage_Local
  imports Storage_Runtime Episode_Paths
begin

text \<open>
  \<^verbatim>\<open>storage/local/src/runtime.rs\<close>: each episode gets a directory of its own below the output path,
  into which every entry of the staging directory is moved; a move across devices is a copy
  followed by a removal. The recursion of the copy is on fuel, taken from the depth of the file
  system; \<open>copy_fuel_suffices\<close> shows that it never runs out.
\<close>

section \<open>Moving\<close>

primrec copy_recursive_fuel :: "nat \<Rightarrow> io_host \<Rightarrow> path \<Rightarrow> path \<Rightarrow> unit io" where
  "copy_recursive_fuel 0 h s d = io_fail OutOfFuel"
| "copy_recursive_fuel (Suc k) h s d = (\<lambda>fs.
     if is_dir fs s then
       io_then (create_dir_all h d)
         (io_bind (read_dir h s) (io_each (\<lambda>(n, e). copy_recursive_fuel k h (s @ [n]) (d @ [n])))) fs
     else copy_file h s d fs)"

definition copy_recursive :: "io_host \<Rightarrow> path \<Rightarrow> path \<Rightarrow> unit io" where
  "copy_recursive h s d = (\<lambda>fs. copy_recursive_fuel (Suc (tree_height fs)) h s d fs)"

definition move_path :: "io_host \<Rightarrow> path \<Rightarrow> path \<Rightarrow> unit io" where
  "move_path h s d = (\<lambda>fs.
     case rename h s d fs of
       (fs', Ok _) \<Rightarrow> (fs', Ok ())
     | (fs', Err CrossesDevices) \<Rightarrow>
         io_then (copy_recursive h s d) (\<lambda>fs. if is_dir fs s then remove_dir_all h s fs else remove_file h s fs) fs'
     | (fs', Err error) \<Rightarrow> (fs', Err error))"

definition local_store_episode :: "io_host \<Rightarrow> storage_runtime_config \<Rightarrow> episode_ready_request \<Rightarrow> string io" where
  "local_store_episode h config request =
     (case srt_output_path config of
        None \<Rightarrow> io_fail (Message ''local storage requires output_path'')
      | Some output_path \<Rightarrow>
          (let episode_dir = join_path output_path (episode_name (rq_episode_index request));
               dir = resolve h episode_dir; staging = resolve h (rq_staging_dir request)
           in io_then (io_when (\<lambda>fs. path_exists fs dir) (remove_dir_all h dir))
               (io_then (create_dir_all h dir)
                 (io_bind (read_dir h staging) (\<lambda>es.
                   io_then (io_each (\<lambda>(n, e). move_path h (staging @ [n]) (dir @ [n])) es)
                     (io_then (io_ignore (remove_dir_all h staging)) (io_return episode_dir)))))))"

definition local_storage_run ::
  "io_host \<Rightarrow> storage_runtime_config \<Rightarrow> storage_turn list \<Rightarrow> fs \<Rightarrow> fs storage_state \<times> (unit, storage_exit) result" where
  "local_storage_run h = storage_run LocalBackend (local_store_episode h)"

section \<open>The copy\<close>

text \<open>A copy changes nothing below its source, and what it has copied stays copied.\<close>

definition below_is :: "path \<Rightarrow> (path \<Rightarrow> entry option) \<Rightarrow> fs \<Rightarrow> bool" where
  "below_is s L fs \<longleftrightarrow> (\<forall>t. look fs (s @ t) = L t)"

definition copied :: "path \<Rightarrow> (path \<Rightarrow> entry option) \<Rightarrow> path \<Rightarrow> fs \<Rightarrow> bool" where
  "copied d L t fs \<longleftrightarrow> (\<forall>c. L t = Some (RegularFile c) \<longrightarrow> file_at fs (d @ t) = Some c)"

lemma triple_each:
  assumes "\<And>x. x \<in> set xs \<Longrightarrow> triple I (f x) (\<lambda>_ fs. I fs \<and> Q x fs) E"
    and "\<And>x y. x \<in> set xs \<Longrightarrow> y \<in> set xs \<Longrightarrow> io_keeps (\<lambda>fs. I fs \<and> Q x fs) (f y)"
  shows "triple I (io_each f xs) (\<lambda>_ fs. I fs \<and> (\<forall>x \<in> set xs. Q x fs)) (\<lambda>_. True)"
  using assms
proof (induction xs)
  case Nil
  show ?case by (auto intro: triple_return)
next
  case (Cons x xs)
  have rest: "triple I (io_each f xs) (\<lambda>_ fs. I fs \<and> (\<forall>x \<in> set xs. Q x fs)) (\<lambda>_. True)"
    by (rule Cons.IH) (use Cons.prems in auto)
  have kept: "io_keeps (\<lambda>fs. I fs \<and> Q x fs) (io_each f xs)"
    by (rule keeps_each) (use Cons.prems(2) in auto)
  have "triple (\<lambda>fs. I fs \<and> Q x fs) (io_each f xs) (\<lambda>_ fs. I fs \<and> (\<forall>y \<in> set (x # xs). Q y fs)) (\<lambda>_. True)"
    using rest kept by (auto intro!: tripleI dest: triple_Ok io_keepsD)
  with Cons.prems(1) [of x] show ?case
    by (auto intro!: triple_then [of I _ "\<lambda>fs. I fs \<and> Q x fs"] elim: triple_weaken)
qed

lemma copy_keeps_below:
  assumes "parallel s d"
  shows "io_keeps (below_is s L) (copy_recursive_fuel k h (s @ a) (d @ b))"
proof (induction k arbitrary: a b)
  case 0
  show ?case by (simp add: triple_fail)
next
  case (Suc k)
  have mk: "io_keeps (below_is s L) (create_dir_all h (d @ b))"
  proof (rule io_keepsI)
    fix fs fs' :: fs and r
    assume "below_is s L fs" and run: "create_dir_all h (d @ b) fs = (fs', r)"
    moreover have "look fs' (s @ t) = look fs (s @ t)" for t
      using conjunct1 [OF create_dir_all_effect [OF run], THEN spec, of "s @ t"] parallel_sides(1) [OF assms, of t b] by auto
    ultimately show "below_is s L fs'" by (simp add: below_is_def)
  qed
  have ne: "d \<noteq> []" using assms by auto
  have cp: "io_keeps (below_is s L) (copy_file h (s @ a) (d @ b))"
    by (rule io_keepsI) (use parallel_not_same(1) [OF assms, of _ b] in
      \<open>auto simp: below_is_def look_update ne dest!: copy_file_cases\<close>)
  have "io_keeps (below_is s L) (io_then (create_dir_all h (d @ b)) (io_bind (read_dir h (s @ a))
      (io_each (\<lambda>(n, e). copy_recursive_fuel k h ((s @ a) @ [n]) ((d @ b) @ [n])))))"
    by (intro triple_then [OF mk] triple_bind [OF keeps_read_dir] keeps_each) (auto intro: Suc)
  then show ?case unfolding copy_recursive_fuel.simps by (rule keeps_if [OF _ cp])
qed


lemma copy_keeps_copied:
  assumes "parallel s d"
  shows "io_keeps (\<lambda>fs. below_is s L fs \<and> copied d L t fs) (copy_recursive_fuel k h (s @ a) (d @ a))"
proof (induction k arbitrary: a)
  case 0
  show ?case by (simp add: triple_fail)
next
  case (Suc k)
  have ne: "d \<noteq> []" using assms by auto
  have below: "io_keeps (below_is s L) (copy_recursive_fuel (Suc k) h (s @ a) (d @ a))" by (rule copy_keeps_below [OF assms])
  have mk: "io_keeps (copied d L t) (create_dir_all h (d @ a))"
    by (rule io_keepsI) (simp add: copied_def create_dir_all_files)
  have cp: "copied d L t fs'" if "below_is s L fs" "copied d L t fs" "copy_file h (s @ a) (d @ a) fs = (fs', r)" for fs fs' r
    using that copy_file_cases [OF that(3)]
    by (auto simp: below_is_def copied_def file_at_update ne)
  have rd: "io_keeps I (io_bind (read_dir h (s @ a)) (io_each (\<lambda>(n, e). copy_recursive_fuel k h ((s @ a) @ [n]) ((d @ a) @ [n]))))"
    if "I = (\<lambda>fs. below_is s L fs \<and> copied d L t fs)" for I
    unfolding that by (intro triple_bind [OF keeps_read_dir] keeps_each) (auto intro: Suc)
  show ?case
  proof (rule io_keepsI, rule conjI)
    fix fs fs' :: fs and r
    assume i: "below_is s L fs \<and> copied d L t fs" and run: "copy_recursive_fuel (Suc k) h (s @ a) (d @ a) fs = (fs', r)"
    then show "below_is s L fs'" by (blast intro: io_keepsD [OF below])
    show "copied d L t fs'"
    proof (cases "is_dir fs (s @ a)")
      case False
      then show ?thesis using i run cp by auto
    next
      case True
      obtain fs1 r1 where m: "create_dir_all h (d @ a) fs = (fs1, r1)" by fastforce
      have b1: "below_is s L fs1 \<and> copied d L t fs1"
      proof
        show "copied d L t fs1" using io_keepsD [OF mk] i m by blast
        have "look fs1 (s @ u) = look fs (s @ u)" for u
          using conjunct1 [OF create_dir_all_effect [OF m], THEN spec, of "s @ u"] parallel_sides(1) [OF assms, of u a] by auto
        then show "below_is s L fs1" using i by (simp add: below_is_def)
      qed
      show ?thesis
      proof (cases r1)
        case (Inl e)
        then show ?thesis using run True m b1 by (simp add: io_then_def io_bind_def)
      next
        case (Inr x)
        with run True m have "io_bind (read_dir h (s @ a))
            (io_each (\<lambda>(n, e). copy_recursive_fuel k h ((s @ a) @ [n]) ((d @ a) @ [n]))) fs1 = (fs', r)"
          by (simp add: io_then_def io_bind_def)
        from io_keepsD [OF rd [OF refl] b1 this] show ?thesis by simp
      qed
    qed
  qed
qed

lemma keeps_wf_copy: "io_keeps wf_fs (copy_recursive_fuel k h s d)"
proof (induction k arbitrary: s d)
  case 0
  show ?case by (simp add: triple_fail)
next
  case (Suc k)
  have "io_keeps wf_fs (io_then (create_dir_all h d)
      (io_bind (read_dir h s) (io_each (\<lambda>(n, e). copy_recursive_fuel k h (s @ [n]) (d @ [n])))))"
    by (intro triple_then [OF keeps_wf(1)] triple_bind [OF keeps_read_dir] keeps_each) (auto intro: Suc)
  then show ?case unfolding copy_recursive_fuel.simps by (rule keeps_if [OF _ keeps_wf(4)])
qed

lemma mover_copy_recursive: "parallel s d \<Longrightarrow> mover s d (copy_recursive_fuel k h s d)"
proof (induction k arbitrary: s d)
  case 0
  show ?case by (simp add: mover_fail)
next
  case (Suc k)
  have "mover s d (io_then (create_dir_all h d)
      (io_bind (read_dir h s) (io_each (\<lambda>(n, e). copy_recursive_fuel k h (s @ [n]) (d @ [n])))))"
    by (intro mover_then mover_bind mover_create_dir_all mover_read_dir mover_each)
      (auto intro!: mover_shift [OF Suc.prems] Suc.IH parallel_append [OF Suc.prems])
  then show ?case unfolding copy_recursive_fuel.simps by (rule mover_if [OF _ mover_copy [OF Suc.prems]])
qed

lemma copy_copies:
  assumes "parallel s d"
  shows "triple (\<lambda>fs. wf_fs fs \<and> below_is s L fs) (copy_recursive_fuel k h (s @ a) (d @ a))
    (\<lambda>_ fs. (wf_fs fs \<and> below_is s L fs) \<and> (\<forall>t. copied d L (a @ t) fs)) (\<lambda>_. True)"
proof (induction k arbitrary: a)
  case 0
  show ?case by (simp add: triple_fail)
next
  case (Suc k)
  let ?I = "\<lambda>fs. wf_fs fs \<and> below_is s L fs"
  have I: "io_keeps ?I (copy_recursive_fuel j h (s @ b) (d @ b))" for j b
    by (rule keeps_conj [OF keeps_wf_copy copy_keeps_below [OF assms]])
  show ?case
  proof (rule tripleI)
    fix fs fs' :: fs and x
    assume i: "?I fs" and run: "copy_recursive_fuel (Suc k) h (s @ a) (d @ a) fs = (fs', Ok x)"
    have i': "?I fs'" by (rule io_keepsD [OF I i run])
    show "?I fs' \<and> (\<forall>t. copied d L (a @ t) fs')"
    proof (cases "is_dir fs (s @ a)")
      case False
      with run have cp: "copy_file h (s @ a) (d @ a) fs = (fs', Ok x)" by simp
      have ne: "d \<noteq> []" using assms by auto
      from copy_file_cases [OF cp] obtain c where c: "look fs (s @ a) = Some (RegularFile c)"
        "fs' = AList.update (d @ a) (RegularFile c) fs" by auto
      have "L (a @ t) = None" if t: "t \<noteq> []" for t
      proof (rule ccontr)
        assume "L (a @ t) \<noteq> None"
        then have "look fs ((s @ a) @ t) \<noteq> None" using i by (simp add: below_is_def)
        with wf_below [of fs "s @ a" t] i c(1) t show False by auto
      qed
      then have "copied d L (a @ t) fs'" for t
        using i c by (cases "t = []") (auto simp: copied_def below_is_def file_at_update ne)
      with i' show ?thesis by blast
    next
      case True
      obtain fs1 r1 where m: "create_dir_all h (d @ a) fs = (fs1, r1)" by fastforce
      with run True obtain y where r1: "r1 = Ok y" by (cases r1) (auto simp: io_then_def io_bind_def)
      have i1: "?I fs1"
      proof
        show "wf_fs fs1" using create_dir_all_effect [OF m] i by blast
        have "look fs1 (s @ u) = look fs (s @ u)" for u
          using conjunct1 [OF create_dir_all_effect [OF m], THEN spec, of "s @ u"] parallel_sides(1) [OF assms, of u a] by auto
        then show "below_is s L fs1" using i by (simp add: below_is_def)
      qed
      define f where "f = (\<lambda>(n, e :: entry). copy_recursive_fuel k h ((s @ a) @ [n]) ((d @ a) @ [n]))"
      define es where "es = children fs1 (s @ a)"
      have La: "L a = Some Directory" using True i by (auto simp: is_dir_def below_is_def)
      have "io_then (create_dir_all h (d @ a)) (io_bind (read_dir h (s @ a)) (io_each f)) fs = (fs', Ok x)"
        using run True by (simp add: f_def)
      then have "io_bind (read_dir h (s @ a)) (io_each f) fs1 = (fs', Ok x)"
        unfolding io_then_Ok m by auto
      then have each: "io_each f es fs1 = (fs', Ok x)"
        unfolding io_bind_Ok read_dir_Ok es_def by auto
      have step: "triple ?I (f p) (\<lambda>_ fs. ?I fs \<and> (\<forall>u. copied d L (a @ fst p # u) fs)) (\<lambda>_. True)" for p
        using Suc [of "a @ [fst p]"] by (cases p) (simp add: f_def)
      have kept: "io_keeps (\<lambda>fs. ?I fs \<and> (\<forall>u. copied d L (a @ fst p # u) fs)) (f q)" for p q
      proof (rule io_keepsI)
        fix g g' :: fs and r
        assume g: "?I g \<and> (\<forall>u. copied d L (a @ fst p # u) g)" and fq: "f q g = (g', r)"
        obtain n e where q: "q = (n, e)" by (cases q)
        have fq': "copy_recursive_fuel k h (s @ (a @ [n])) (d @ (a @ [n])) g = (g', r)" using fq by (simp add: f_def q)
        have "?I g'" by (rule io_keepsD [OF I [of k "a @ [n]"] conjunct1 [OF g]]) (rule fq')
        moreover have "copied d L (a @ fst p # u) g'" for u
          using io_keepsD [OF copy_keeps_copied [OF assms, of L "a @ fst p # u" k h "a @ [n]"] _ fq'] g
          by blast
        ultimately show "?I g' \<and> (\<forall>u. copied d L (a @ fst p # u) g')" by blast
      qed
      from triple_Ok [OF triple_each [of es ?I f "\<lambda>p fs. \<forall>u. copied d L (a @ fst p # u) fs", OF step kept] i1 each]
      have all: "\<forall>p \<in> set es. \<forall>u. copied d L (a @ fst p # u) fs'" by blast
      have "copied d L (a @ t) fs'" for t
      proof (cases t)
        case Nil
        then show ?thesis using La by (simp add: copied_def)
      next
        case (Cons n u)
        show ?thesis
        proof (cases "L (a @ t)")
          case None
          then show ?thesis by (simp add: copied_def)
        next
          case (Some e)
          then have "look fs1 (s @ a @ [n] @ u) \<noteq> None" using i1 Cons by (simp add: below_is_def)
          then have "look fs1 (s @ a @ [n]) \<noteq> None" using wf_below [of fs1 "s @ a @ [n]" u] i1 by (cases "u = []") auto
          then obtain e' where "(n, e') \<in> set es" using look_child [of fs1 "s @ a"] by (auto simp: es_def)
          with all Cons show ?thesis by fastforce
        qed
      qed
      with i' show ?thesis by blast
    qed
  qed simp
qed


lemma copy_fuel_suffices:
  assumes "parallel s d" and "honest_host h" and "below_is s L fs" and "L a \<noteq> None"
    and "\<And>t. L (a @ t) \<noteq> None \<Longrightarrow> length t < k"
    and "copy_recursive_fuel k h (s @ a) (d @ a) fs = (fs', r)"
  shows "r \<noteq> Err OutOfFuel"
  using assms(3-6)
proof (induction k arbitrary: a fs fs' r)
  case 0
  from "0.prems"(3) [of "[]"] "0.prems"(2) show ?case by simp
next
  case (Suc k)
  define f where "f = (\<lambda>(n, e :: entry). copy_recursive_fuel k h (s @ (a @ [n])) (d @ (a @ [n])))"
  show ?case
  proof (cases "is_dir fs (s @ a)")
    case False
    with Suc.prems(4) honest_simps(2) [OF assms(2)] show ?thesis by auto
  next
    case True
    obtain fs1 r1 where m: "create_dir_all h (d @ a) fs = (fs1, r1)" by fastforce
    note r1 = create_dir_all_honest [OF assms(2) m]
    have below: "io_keeps (below_is s L) (f x)" for x
      by (cases x) (simp only: f_def prod.case copy_keeps_below [OF assms(1)])
    have i1: "below_is s L fs1"
    proof -
      have "look fs1 (s @ u) = look fs (s @ u)" for u
        using conjunct1 [OF create_dir_all_effect [OF m], THEN spec, of "s @ u"] parallel_sides(1) [OF assms(1), of u a] by auto
      then show ?thesis using Suc.prems(1) by (simp add: below_is_def)
    qed
    have run: "io_then (create_dir_all h (d @ a)) (io_bind (read_dir h (s @ a)) (io_each f)) fs = (fs', r)"
      using Suc.prems(4) True by (simp add: f_def)
    show ?thesis
    proof
      assume oof: "r = Err OutOfFuel"
      obtain u where "r1 = Ok u" using r1 run oof m by (cases r1) (auto simp: io_then_def io_bind_def)
      then have b: "io_bind (read_dir h (s @ a)) (io_each f) fs1 = (fs', Err OutOfFuel)"
        using run oof m by (simp add: io_then_def io_bind_def)
      obtain fs2 r2 where rd: "read_dir h (s @ a) fs1 = (fs2, r2)" by fastforce
      note r2 = honest_simps(1) [OF assms(2) rd]
      obtain es where es: "r2 = Ok es" using r2 rd b by (cases r2) (auto simp: io_bind_def)
      with rd have "fs2 = fs1" and ch: "es = children fs1 (s @ a)" by (auto simp: read_dir_Ok)
      with b rd es have "io_each f es fs1 = (fs', Err OutOfFuel)" by (simp add: io_bind_def)
      from io_each_Err [of es "below_is s L" f, OF below i1 this]
      obtain n e g where ne: "(n, e) \<in> set es" and g: "below_is s L g" and err: "snd (f (n, e) g) = Err OutOfFuel"
        by force
      from ne ch have "look fs1 (s @ a @ [n]) \<noteq> None"
        by (auto simp: children_iff look_def dest: weak_map_of_SomeI)
      then have "L (a @ [n]) \<noteq> None" using i1 by (simp add: below_is_def)
      moreover have "length t < k" if "L ((a @ [n]) @ t) \<noteq> None" for t
        using Suc.prems(3) [of "n # t"] that by simp
      ultimately show False
        using Suc.IH [OF g, of "a @ [n]" "fst (f (n, e) g)" "snd (f (n, e) g)"] err by (auto simp: f_def)
    qed
  qed
qed

lemma copy_recursive_total:
  assumes "parallel s d" and "honest_host h" and "look fs s \<noteq> None" and "copy_recursive h s d fs = (fs', r)"
  shows "r \<noteq> Err OutOfFuel"
proof -
  have "length t < Suc (tree_height fs)" if "look fs (s @ t) \<noteq> None" for t
    using tree_height [OF that] by simp
  then show ?thesis
    using copy_fuel_suffices [OF assms(1,2), of "\<lambda>t. look fs (s @ t)" fs "[]" "Suc (tree_height fs)" fs' r] assms(3,4)
    by (simp add: below_is_def copy_recursive_def)
qed

section \<open>Moving one entry\<close>

lemma mover_cross_device:
  assumes "parallel s d"
  shows "mover s d (io_then (copy_recursive h s d) (\<lambda>fs. if is_dir fs s then remove_dir_all h s fs else remove_file h s fs))"
    (is "mover s d (io_then ?c ?rm)")
  unfolding mover_def
proof (intro allI impI)
  fix fs fs' :: fs and x
  assume wf: "wf_fs fs" and run: "io_then ?c ?rm fs = (fs', x)"
  have mc: "mover s d ?c" using mover_copy_recursive [OF assms] unfolding mover_def copy_recursive_def by blast
  obtain fs1 r where c: "?c fs = (fs1, r)" by fastforce
  note 1 = moverD [OF mc wf c]
  show "wf_fs fs' \<and> overlay s d fs' = overlay s d fs
     \<and> (\<forall>t. file_at fs (s @ t) = None \<longrightarrow> file_at fs' (s @ t) = None)
     \<and> (\<forall>q. \<not> prefix s q \<and> \<not> prefix d q \<longrightarrow> file_at fs' q = file_at fs q)"
  proof (cases r)
    case (Inl e)
    with run c have "fs' = fs1" by (simp add: io_then_def io_bind_def)
    with 1 show ?thesis by simp
  next
    case (Inr u)
    define L where "L = (\<lambda>t. look fs (s @ t))"
    have l: "below_is s L fs" by (simp add: below_is_def L_def)
    note cc = triple_Ok [OF copy_copies [OF assms, of L "Suc (tree_height fs)" h "[]"], of fs fs1 u]
    have all: "below_is s L fs1 \<and> (\<forall>t. copied d L t fs1)"
      using cc c Inr wf l by (simp add: copy_recursive_def)
    have same: "file_at fs1 (d @ t) = file_at fs1 (s @ t)" if "file_at fs1 (s @ t) \<noteq> None" for t
      using that all by (auto simp: below_is_def copied_def file_at_iff) (simp add: file_at_def)
    from run c Inr have rm: "?rm fs1 = (fs', x)" by (simp add: io_then_def io_bind_def)
    have sn: "s \<noteq> []" "\<not> prefix s (d @ t)" for t using assms parallel_sides(1) [OF assms, of "[]"] by auto
    have "wf_fs fs'"
      using rm io_keepsD [OF keeps_wf(6) 1(1)] io_keepsD [OF keeps_wf(5) 1(1)] by (auto split: if_splits)
    moreover have "overlay s d fs' = overlay s d fs1 \<and> (\<forall>q. file_at fs' q = file_at fs1 q \<or> prefix s q \<and> file_at fs' q = None)"
    proof (cases "is_dir fs1 s")
      case True
      with rm have "remove_dir_all h s fs1 = (fs', x)" by simp
      from remove_dir_all_cases [OF this] show ?thesis
        using overlay_remove_tree [OF assms, of fs1 "[]"] same by (auto simp: file_at_remove_tree split: if_splits)
    next
      case False
      with rm have rf: "remove_file h s fs1 = (fs', x)" by simp
      from remove_file_cases [OF rf] show ?thesis
      proof
        assume "((\<exists>c. look fs1 s = Some (RegularFile c)) \<and> s \<noteq> [] \<and> fs' = AList.delete s fs1 \<and> x = Ok ())"
        moreover from this have "file_at fs1 (d @ []) = file_at fs1 (s @ [])" by (intro same) (auto simp: file_at_def)
        ultimately show ?thesis
          using overlay_remove [OF assms, of h "[]" fs1 fs' x] rf by (auto simp: file_at_delete)
      qed auto
    qed
    ultimately show ?thesis using 1 by metis
  qed
qed

lemma move_path_cases:
  assumes "move_path h s d fs = (fs', x)"
  shows "rename h s d fs = (fs', x)
    \<or> fst (rename h s d fs) = fs \<and> io_then (copy_recursive h s d)
        (\<lambda>fs. if is_dir fs s then remove_dir_all h s fs else remove_file h s fs) fs = (fs', x)"
proof -
  obtain fs1 r where rn: "rename h s d fs = (fs1, r)" by fastforce
  have same: "fs1 = fs" if "r = Err e" for e
    using rn that by (auto simp: rename_def permitted_def io_fail_def split: option.splits entry.splits if_splits)
  show ?thesis
    using assms rn same by (cases r) (auto simp: move_path_def split: io_error.splits)
qed

interpretation local_move: tree_mover "\<lambda>e. move_path h" for h
proof
  fix s d :: path and e :: entry
  assume apart: "parallel s d"
  show "mover s d (move_path h s d)"
    unfolding mover_def
  proof (intro allI impI)
    fix fs fs' :: fs and x
    assume wf: "wf_fs fs" and run: "move_path h s d fs = (fs', x)"
    show "wf_fs fs' \<and> overlay s d fs' = overlay s d fs
     \<and> (\<forall>t. file_at fs (s @ t) = None \<longrightarrow> file_at fs' (s @ t) = None)
     \<and> (\<forall>q. \<not> prefix s q \<and> \<not> prefix d q \<longrightarrow> file_at fs' q = file_at fs q)"
      using move_path_cases [OF run]
    proof
      assume "rename h s d fs = (fs', x)"
      from moverD [OF mover_rename [OF apart] wf this] show ?thesis by blast
    next
      assume "fst (rename h s d fs) = fs \<and> io_then (copy_recursive h s d)
        (\<lambda>fs. if is_dir fs s then remove_dir_all h s fs else remove_file h s fs) fs = (fs', x)"
      from moverD [OF mover_cross_device [OF apart] wf conjunct2 [OF this]] show ?thesis by blast
    qed
  qed
next
  fix s d :: path and fs fs' :: fs and e :: entry
  assume apart: "parallel s d" and wf: "wf_fs fs" and run: "move_path h s d fs = (fs', Ok ())"
  have ne: "s \<noteq> d" and sd: "\<not> prefix s d" "\<not> prefix d s" "s \<noteq> []" using apart by auto
  from move_path_cases [OF run] show "no_files s fs'"
  proof
    assume "rename h s d fs = (fs', Ok ())"
    from rename_cases [OF this ne] show ?thesis
      using parallel_sides(2) [OF apart, of "[]"] by (auto simp: no_files_def file_at_relocate [OF sd(1,2)])
  next
    assume "fst (rename h s d fs) = fs \<and> io_then (copy_recursive h s d)
        (\<lambda>fs. if is_dir fs s then remove_dir_all h s fs else remove_file h s fs) fs = (fs', Ok ())"
    then obtain fs1 u where c: "copy_recursive h s d fs = (fs1, Ok u)"
      and rm: "(if is_dir fs1 s then remove_dir_all h s fs1 else remove_file h s fs1) = (fs', Ok ())"
      unfolding io_then_Ok by blast
    have wf1: "wf_fs fs1" using io_keepsD [OF keeps_wf_copy wf] c unfolding copy_recursive_def by blast
    show ?thesis
    proof (cases "is_dir fs1 s")
      case True
      with rm remove_dir_all_cases [of h s fs1 fs'] show ?thesis by (auto simp: no_files_def file_at_remove_tree)
    next
      case False
      with rm remove_file_cases [of h s fs1 fs'] obtain c where c: "look fs1 s = Some (RegularFile c)"
        "fs' = AList.delete s fs1" by auto
      have "file_at fs1 (s @ t) = None" if "t \<noteq> []" for t
        using wf_below [OF wf1, of s t] that c(1) by (auto simp: file_at_def split: option.splits)
      then show ?thesis using c sd(3) by (auto simp: no_files_def file_at_delete)
    qed
  qed
qed


section \<open>Storing an episode\<close>

text \<open>The two directories of a request.\<close>

definition episode_target :: "io_host \<Rightarrow> string \<Rightarrow> episode_ready_request \<Rightarrow> path" where
  "episode_target h output_path request = resolve h (join_path output_path (episode_name (rq_episode_index request)))"

definition staging_of :: "io_host \<Rightarrow> episode_ready_request \<Rightarrow> path" where
  "staging_of h request = resolve h (rq_staging_dir request)"

lemma local_store_unfold:
  "srt_output_path config = Some out \<Longrightarrow> local_store_episode h config rq =
     io_then (io_when (\<lambda>fs. path_exists fs (episode_target h out rq)) (remove_dir_all h (episode_target h out rq)))
       (io_then (create_dir_all h (episode_target h out rq))
         (io_bind (read_dir h (staging_of h rq)) (\<lambda>es.
           io_then (local_move.move_children h (staging_of h rq) (episode_target h out rq) es)
             (io_then (io_ignore (remove_dir_all h (staging_of h rq)))
               (io_return (join_path out (episode_name (rq_episode_index rq))))))))"
  by (simp add: local_store_episode_def episode_target_def staging_of_def Let_def local_move.move_children_def)

lemma cleared_target:
  assumes "wf_fs fs" and "parallel s d"
    and "io_when (\<lambda>fs. path_exists fs d) (remove_dir_all h d) fs = (fs', r)"
  shows "wf_fs fs'" and "file_at fs' (s @ t) = file_at fs (s @ t)" and "\<not> prefix d q \<Longrightarrow> file_at fs' q = file_at fs q"
    and "is_ok r \<Longrightarrow> no_files d fs'"
proof -
  have run: "\<not> path_exists fs d \<and> fs' = fs \<or> remove_dir_all h d fs = (fs', r)"
    using assms(3) by (auto simp: io_when_def split: if_splits)
  have none: "no_files d fs" if "\<not> path_exists fs d"
  proof -
    have "look fs (d @ t) = None" for t
    proof (rule ccontr)
      assume "look fs (d @ t) \<noteq> None"
      with that wf_below [OF assms(1), of d t] show False by (cases "t = []") (auto simp: path_exists_def)
    qed
    then show ?thesis by (simp add: no_files_def file_at_def)
  qed
  have q: "\<not> prefix d q \<Longrightarrow> file_at fs' q = file_at fs q" for q
    using run by (auto dest!: remove_dir_all_cases simp: file_at_remove_tree)
  then show "\<not> prefix d q \<Longrightarrow> file_at fs' q = file_at fs q" .
  show "file_at fs' (s @ t) = file_at fs (s @ t)"
    using parallel_sides(2) [OF assms(2), of "[]"] by (intro q) simp
  show "wf_fs fs'" using run assms(1) io_keepsD [OF keeps_wf(6) assms(1)] by blast
  show "is_ok r \<Longrightarrow> no_files d fs'"
    using run none by (auto dest!: remove_dir_all_cases simp: no_files_def file_at_remove_tree)
qed

text \<open>The outcome of a store, whatever the operating system refused on the way.\<close>

definition nothing_lost :: "path \<Rightarrow> path \<Rightarrow> fs \<Rightarrow> fs \<Rightarrow> bool" where
  "nothing_lost s d fs fs' \<longleftrightarrow>
     (\<forall>t c. file_at fs (s @ t) = Some c \<longrightarrow> file_at fs' (s @ t) = Some c \<or> file_at fs' (d @ t) = Some c)
     \<and> (\<forall>q. \<not> prefix s q \<and> \<not> prefix d q \<longrightarrow> file_at fs' q = file_at fs q)"

lemma nothing_lost_overlay:
  assumes "\<And>t. file_at fs1 (s @ t) = file_at fs (s @ t)" and "overlay s d fs' = overlay s d fs1"
    and "\<And>q. \<not> prefix s q \<and> \<not> prefix d q \<Longrightarrow> file_at fs' q = file_at fs q"
  shows "nothing_lost s d fs fs'"
proof -
  have "file_at fs' (s @ t) = Some c \<or> file_at fs' (d @ t) = Some c" if "file_at fs (s @ t) = Some c" for t c
    using fun_cong [OF assms(2), of t] that assms(1) [of t] by (auto simp: overlay_def split: option.splits)
  with assms(3) show ?thesis by (auto simp: nothing_lost_def)
qed

theorem local_store_outcome:
  assumes wf: "wf_fs fs" and out: "srt_output_path config = Some out"
    and apart: "parallel (staging_of h rq) (episode_target h out rq)"
    and run: "local_store_episode h config rq fs = (fs', r)"
  shows "nothing_lost (staging_of h rq) (episode_target h out rq) fs fs'" and "wf_fs fs'"
    and "r = Ok p \<Longrightarrow> no_files (staging_of h rq) fs'
      \<and> (\<forall>t. file_at fs' (episode_target h out rq @ t) = file_at fs (staging_of h rq @ t))"
proof -
  let ?s = "staging_of h rq" and ?d = "episode_target h out rq"
  let ?Ok = "no_files ?s fs' \<and> (\<forall>t. file_at fs' (?d @ t) = file_at fs (?s @ t))"
  have "nothing_lost ?s ?d fs fs' \<and> wf_fs fs' \<and> (is_ok r \<longrightarrow> ?Ok)"
    using run unfolding local_store_unfold [OF out]
  proof (cases rule: io_then_cases)
    case (first e)
    note c = cleared_target [OF wf apart first(1)]
    from c(1) show ?thesis using nothing_lost_overlay [OF _ refl, of fs' ?s fs ?d] c(2,3) first(2) by simp
  next
    case (second fs1 a)
    note c = cleared_target [OF wf apart second(1)]
    from second(2) show ?thesis
    proof (cases rule: io_then_cases)
      case (first e)
      note f = create_dir_all_files [OF first(1)] and w = create_dir_all_effect [OF first(1)]
      show ?thesis using nothing_lost_overlay [OF _ refl, of fs' ?s fs ?d] c f w first(2) by simp
    next
      case (second fs2 b)
      note f = create_dir_all_files [OF second(1)] and w = create_dir_all_effect [OF second(1)]
      have wf2: "wf_fs fs2" and none: "no_files ?d fs2" using w c(1,4) f by (auto simp: no_files_def)
      from second(2) show ?thesis
      proof (cases rule: io_bind_cases)
        case (first e)
        then have "fs' = fs2" by (auto simp: read_dir_def permitted_def io_fail_def split: option.splits)
        then show ?thesis using nothing_lost_overlay [OF _ refl, of fs' ?s fs ?d] c f wf2 first(2) by simp
      next
        case (second fs3 es)
        then have rd: "fs3 = fs2" "look fs2 ?s = Some Directory" "es = children fs2 ?s" by (auto simp: read_dir_Ok)
        note mv = moverD [OF local_move.move_children_mover [OF apart] wf2]
        from second(2) show ?thesis unfolding rd
        proof (cases rule: io_then_cases)
          case (first e)
          note m = mv [OF first(1)]
          from m(1) show ?thesis using nothing_lost_overlay [OF _ m(2), of fs] c f m(4) first(2) by simp
        next
          case (second fs4 u)
          then have run4: "local_move.move_children h ?s ?d (children fs2 ?s) fs2 = (fs4, Ok ())" by simp
          note m = mv [OF run4]
          have empty: "no_files ?s fs4" by (rule local_move.move_listed_empties [OF apart wf2 rd(2) run4])
          from second(2) obtain fs5 r5 where rm: "remove_dir_all h ?s fs4 = (fs5, r5)" and fin: "fs' = fs5" "is_ok r"
            by (cases "remove_dir_all h ?s fs4") (auto simp: io_then_def io_bind_def io_ignore_def io_return_def)
          have "file_at fs4 q = None" if "prefix ?s q" for q
            using empty drop_prefix [OF that] by (metis no_files_def)
          then have same: "file_at fs' q = file_at fs4 q" for q
            using remove_dir_all_cases [OF rm] by (auto simp: fin(1) file_at_remove_tree)
          have ov: "overlay ?s ?d fs' = overlay ?s ?d fs2" using overlay_same_files [OF same] m(2) by simp
          have "file_at fs' (?d @ t) = file_at fs (?s @ t)" for t
          proof -
            have "file_at fs' (?d @ t) = overlay ?s ?d fs2 t"
              using fun_cong [OF ov, of t] empty by (simp add: overlay_no_files no_files_def same overlay_def)
            also have "\<dots> = file_at fs (?s @ t)" using none c(2) f by (auto simp: overlay_def no_files_def split: option.split)
            finally show ?thesis .
          qed
          moreover have "no_files ?s fs'" using empty same by (simp add: no_files_def)
          moreover have "wf_fs fs'" using io_keepsD [OF keeps_wf(6) m(1) rm] fin by simp
          moreover have "nothing_lost ?s ?d fs fs'"
            using nothing_lost_overlay [OF _ ov, of fs] c f m(4) same by simp
          ultimately show ?thesis by blast
        qed
      qed
    qed
  qed
  then show "nothing_lost ?s ?d fs fs'" "wf_fs fs'" "r = Ok p \<Longrightarrow> ?Ok" by auto
qed


section \<open>A store succeeds\<close>

lemma willing_moves:
  assumes "willing_host h" and "parallel s d" and "distinct (map fst es)" and "look fs d = Some Directory"
    and "\<forall>(n, e) \<in> set es. look fs (s @ [n]) \<noteq> None \<and> look fs (d @ [n]) = None"
  shows "\<exists>fs'. local_move.move_children h s d es fs = (fs', Ok ())"
  using assms(3-5)
proof (induction es arbitrary: fs)
  case Nil
  show ?case by (simp add: local_move.move_children_def io_return_def)
next
  case (Cons x es)
  obtain n e where x: "x = (n, e)" by (cases x)
  have apart: "parallel (s @ [n]) (d @ [n])" by (rule parallel_append [OF assms(2)])
  then have np: "\<not> prefix (s @ [n]) (d @ [n])" "\<not> prefix (d @ [n]) (s @ [n])" by (auto simp: parallel_def)
  have rn: "rename h (s @ [n]) (d @ [n]) fs = (relocate (s @ [n]) (d @ [n]) fs, Ok ())"
    by (rule willing_rename [OF assms(1) apart]) (use Cons.prems in \<open>auto simp: x\<close>)
  let ?fs = "relocate (s @ [n]) (d @ [n]) fs"
  note l = look_relocate [OF np, of fs]
  have sides: "\<not> prefix (d @ [n]) (s @ t)" "\<not> prefix (s @ [n]) (d @ t)" for t
    using parallel_sides [OF assms(2), of "[n]" t] by auto
  have "look ?fs d = Some Directory" using Cons.prems(2) sides(2) [of "[]"] by (simp add: l)
  moreover have "look ?fs (s @ [m]) \<noteq> None \<and> look ?fs (d @ [m]) = None" if "(m, f) \<in> set es" for m f
  proof -
    have "m \<noteq> n" using Cons.prems(1) that by (force simp: x)
    then have "\<not> prefix (s @ [n]) (s @ [m])" "\<not> prefix (d @ [n]) (d @ [m])" by auto
    then show ?thesis using Cons.prems(3) that sides unfolding l by fastforce
  qed
  ultimately obtain fs' where "local_move.move_children h s d es ?fs = (fs', Ok ())"
    using Cons.IH [of ?fs] Cons.prems(1) by fastforce
  moreover have "move_path h (s @ [n]) (d @ [n]) fs = (?fs, Ok ())" by (simp add: move_path_def rn)
  ultimately show ?case by (simp add: local_move.move_children_def x io_then_def io_bind_def)
qed

theorem local_store_succeeds:
  assumes "willing_host h" and "wf_fs fs" and "distinct (map fst fs)" and "srt_output_path config = Some out"
    and apart: "parallel (staging_of h rq) (episode_target h out rq)"
    and "is_dir fs (staging_of h rq)" and "file_at fs (episode_target h out rq) = None"
    and "creatable fs (butlast (episode_target h out rq))"
  shows "\<exists>fs'. local_store_episode h config rq fs = (fs', Ok (join_path out (episode_name (rq_episode_index rq))))"
proof -
  let ?s = "staging_of h rq" and ?d = "episode_target h out rq"
  obtain fs1 where c: "io_when (\<lambda>fs. path_exists fs ?d) (remove_dir_all h ?d) fs = (fs1, Ok ())"
    using assms(1,7) by (auto simp: io_when_def remove_dir_all_def permitted_def willing_host_def path_exists_def file_at_def
        split: option.splits entry.splits)
  note cl = cleared_target [OF assms(2) apart c]
  have dn: "?d \<noteq> []" using apart by auto
  have cr: "creatable fs1 ?d"
    unfolding creatable_def
  proof (intro allI impI)
    fix q
    assume "prefix q ?d"
    then consider "q = ?d" | "prefix q (butlast ?d)" "q \<noteq> ?d"
      using prefix_snoc [of q "butlast ?d" "last ?d"] dn by fastforce
    then show "file_at fs1 q = None"
    proof cases
      case 1
      then show ?thesis using cl(4) by (simp add: no_files_def) (metis append_Nil2)
    next
      case 2
      then have "\<not> prefix ?d q" using prefix_butlast prefix_order.antisym by blast
      then show ?thesis using 2 assms(8) cl(3) by (simp add: creatable_def)
    qed
  qed
  then obtain fs2 where mk: "create_dir_all h ?d fs1 = (fs2, Ok ())" using willing_create_dir_all [OF assms(1)] by blast
  have c1: "fs1 = fs \<or> fs1 = filter (\<lambda>(q, e). \<not> prefix ?d q) fs"
    using c by (auto simp: io_when_def dest!: remove_dir_all_cases split: if_splits)
  have clear: "look fs1 (?d @ [n]) = None" for n
  proof (cases "path_exists fs ?d")
    case True
    with c have "remove_dir_all h ?d fs = (fs1, Ok ())" by (simp add: io_when_def)
    from remove_dir_all_cases [OF this] show ?thesis by (auto simp: look_remove_tree)
  next
    case False
    with c have "fs1 = fs" by (simp add: io_when_def)
    with False wf_below [OF assms(2), of ?d "[n]"] show ?thesis
      by (cases "look fs (?d @ [n])") (auto simp: path_exists_def)
  qed
  have "distinct (map fst fs1)" using c1 assms(3) by (auto simp: distinct_map_filter)
  have src: "look fs1 (?s @ t) = look fs (?s @ t)" for t
    using c1 parallel_sides(2) [OF apart, of "[]" t] by (auto simp: look_remove_tree)
  have src2: "look fs2 (?s @ t) = look fs (?s @ t)" for t
    using conjunct1 [OF create_dir_all_effect [OF mk], THEN spec, of "?s @ t"] parallel_sides(1) [OF apart, of t "[]"] src by auto
  have clear2: "look fs2 (?d @ [n]) = None" for n
    using conjunct1 [OF create_dir_all_effect [OF mk], THEN spec, of "?d @ [n]"] clear [of n] by auto
  have d2: "distinct (map fst (children fs2 ?s))"
    by (rule distinct_children [OF distinct_create_dir_all [OF mk \<open>distinct (map fst fs1)\<close>]])
  have l2: "look fs2 ?s = Some Directory" "look fs2 ?d = Some Directory"
    using src2 [of "[]"] assms(6) create_dir_all_effect [OF mk] by (auto simp: is_dir_def)
  have "\<forall>(n, e) \<in> set (children fs2 ?s). look fs2 (?s @ [n]) \<noteq> None \<and> look fs2 (?d @ [n]) = None"
    using clear2 by (auto simp: children_iff look_def dest: weak_map_of_SomeI)
  from willing_moves [OF assms(1) apart d2 l2(2) this]
  obtain fs3 where mv: "local_move.move_children h ?s ?d (children fs2 ?s) fs2 = (fs3, Ok ())" by blast
  have rd: "read_dir h ?s fs2 = (fs2, Ok (children fs2 ?s))" using assms(1) l2(1) by (simp add: read_dir_Ok willing_host_def)
  show ?thesis
    unfolding local_store_unfold [OF assms(4)]
    by (simp add: io_then_def io_bind_def c mk rd mv io_ignore_def io_return_def)
qed

end
