(* ===== verification/Dataset_Pipeline.thy ===== *)
theory Dataset_Pipeline
  imports Dataset_Resume Storage_Local
begin

text \<open>
  The way of an episode through three processes: the LeRobot assembler stages it
  (\<^verbatim>\<open>Lerobot_Staging\<close>), the storage backend merges it into the dataset (\<^verbatim>\<open>Storage_Lerobot\<close>) and
  the next \<open>rollio collect\<close> reads the dataset to number its episodes (\<^verbatim>\<open>Dataset_Resume\<close>).
\<close>

section \<open>Staging keeps the file system well formed\<close>

lemma keeps_wf_write_parquet: "io_keeps wf_fs (write_parquet h libs p t)"
  unfolding write_parquet_def
  by (intro triple_then [OF keeps_wf(1)]) (auto intro: triple_fail keeps_wf split: sum.split)

lemma keeps_wf_episode_parquet: "io_keeps wf_fs (write_episode_parquet h libs p config episode)"
  unfolding write_episode_parquet_def Let_def
  by (auto intro!: triple_fail triple_then [OF keeps_wf_write_parquet] triple_return split: option.split)

lemma keeps_wf_raw_dump: "io_keeps wf_fs (write_episode_raw_dump h libs dir chunk config episode)"
  unfolding write_episode_raw_dump_def Let_def
  by (intro triple_then [OF keeps_wf(1)] triple_then [OF keeps_each] keeps_each keeps_wf_write_parquet)

lemma keeps_wf_metadata: "io_keeps wf_fs (write_stage_metadata h J dir chunk config episode n)"
  unfolding write_stage_metadata_def Let_def by (intro triple_then [OF keeps_wf(1)] triple_then [OF keeps_wf(2)] keeps_wf(2))

lemma keeps_wf_ffmpeg: "io_keeps wf_fs (ffmpeg_write_stream h libs target stream)"
  unfolding ffmpeg_write_stream_def
  by (auto intro!: triple_fail triple_then [OF keeps_wf(2)] keeps_lift split: option.split prod.split)

lemma keeps_wf_mux_camera: "io_keeps wf_fs (mux_camera h libs dir chunk episode camera)"
  unfolding mux_camera_def mux_camera_stream_def rvl_write_stream_def Let_def
  by (auto intro!: triple_fail triple_then [OF keeps_wf(1)] keeps_wf(2) keeps_wf_ffmpeg
      split: option.split container_kind.split)

lemma keeps_wf_stage_episode: "io_keeps wf_fs (stage_episode h libs config episode)"
  unfolding stage_episode_def Let_def
  by (auto intro!: triple_then [OF keeps_when [OF keeps_wf(6)]] triple_then [OF keeps_wf(1)] triple_fail
      triple_bind [OF keeps_wf_episode_parquet] triple_then [OF keeps_each [OF keeps_wf_mux_camera]]
      triple_then [OF keeps_wf_raw_dump] triple_then [OF keeps_wf_metadata] triple_return split: option.split)

section \<open>From the staging directory to the next index\<close>

lemma parse_staged_parquet: "parse_episode_parquet_name (episode_name n @ ''.parquet'') = Some n"
proof -
  have "strip_prefix ''episode_'' (episode_name n @ ''.parquet'') = Some (zero_pad 6 (show_u32 n) @ ''.parquet'')"
    by (simp add: strip_prefix_def episode_name_def)
  moreover have "strip_suffix ''.parquet'' (d @ ''.parquet'') = Some d" for d
    by (simp add: strip_suffix_def strip_prefix_def)
  ultimately show ?thesis by (simp add: parse_episode_parquet_name_def parse_u32_zero_pad)
qed

lemma resume_above_known:
  assumes "wf_fs fs" and "n \<in> dataset_indices J dataset fs" and "n < - 1"
    and run: "lerobot_resume_hint_if_episodes_exist h J dataset fs = (fs', Ok found)"
  shows "\<exists>hint. found = Some hint \<and> n < rh_next_episode_index hint"
proof -
  let ?A = "known_indices J dataset fs"
  have n: "n \<in> ?A" using known_indices_above [OF assms(1)] assms(2) by blast
  then have "greatest ?A = Some (Max ?A)" by (auto simp: greatest_def)
  with resume_hint_known [OF assms(1) run]
  obtain hint where hint: "found = Some hint" "rh_next_episode_index hint = saturating_add32 (Max ?A) 1"
    by (auto simp: map_option_case split: option.splits)
  have "n < saturating_add32 (Max ?A) 1"
  proof (cases "Max ?A < - 1")
    case True
    then show ?thesis by (rule saturating_next) (use n in simp)
  next
    case False
    then have "Max ?A = - 1" by (metis word_order.extremum_strict not_less_iff_gr_or_eq word_order.not_eq_extremum)
    then show ?thesis using assms(3) by (simp add: saturating_add32_def word_less_nat_alt unsigned_minus_1_eq_mask mask_eq_exp_minus_1)
  qed
  with hint show ?thesis by simp
qed

lemma probe_lerobot_Ok:
  assumes "probe_lerobot h J to_toml project dataset fs = (fs', Ok found)"
  obtains fs1 where "lerobot_resume_hint_if_episodes_exist h J dataset fs = (fs1, Ok found)"
    and "\<And>hint. found = Some hint \<Longrightarrow> \<exists>toml stored. to_toml project = Ok toml
      \<and> read_info_embedded_config_toml h J dataset fs1 = (fs', Ok (Some stored))
      \<and> \<not> blank stored \<and> embedded_configs_match stored toml"
proof -
  from assms obtain fs1 hint where first: "lerobot_resume_hint_if_episodes_exist h J dataset fs = (fs1, Ok hint)"
    and rest: "(case hint of None \<Rightarrow> io_return None | Some hint \<Rightarrow>
      (case to_toml project of Err e \<Rightarrow> io_fail (Message e)
       | Ok current_toml \<Rightarrow> io_bind (read_info_embedded_config_toml h J dataset) (\<lambda>stored. case stored of
           None \<Rightarrow> io_fail info_missing
         | Some stored_toml \<Rightarrow> if blank stored_toml then io_fail config_missing
             else if \<not> embedded_configs_match stored_toml current_toml then io_fail config_differs
             else io_return (Some hint)))) fs1 = (fs', Ok found)"
    unfolding probe_lerobot_def io_bind_Ok by blast
  have "found = hint \<and> (hint \<noteq> None \<longrightarrow> (\<exists>toml stored. to_toml project = Ok toml
      \<and> read_info_embedded_config_toml h J dataset fs1 = (fs', Ok (Some stored))
      \<and> \<not> blank stored \<and> embedded_configs_match stored toml))"
    using rest by (cases hint; cases "to_toml project")
      (auto simp: io_bind_Ok io_fail_def io_return_def split: option.splits if_splits)
  with first that show ?thesis by auto
qed

lemma probe_resume_lerobot:
  assumes "resolve_storage_root project cwd = Some r" and "is_dir fs (resolve h r)" and "ep_format (pj_episode project) \<noteq> Mcap"
  shows "probe_resume h J to_toml project cwd fs = probe_lerobot h J to_toml project (resolve h r) fs"
  using assms by (cases "ep_format (pj_episode project)") (auto simp: probe_resume_def)

lemma staged_parquet_stored:
  assumes staged: "stage_episode h libs acfg episode fs0 = (fs, Ok staged)" and wf: "wf_fs fs0"
    and dir: "rq_staging_dir rq = se_staging_dir staged" and out: "srt_output_path scfg = Some out"
    and apart: "parallel (lerobot_source h rq) (lerobot_root h out)"
    and stored: "lerobot_store_episode_local h J scfg rq fs = (fs', Ok p)"
  shows "wf_fs fs' \<and> eai_episode_index episode \<in> dataset_indices J' (lerobot_root h out) fs'"
proof -
  let ?n = "eai_episode_index episode" and ?s = "lerobot_source h rq" and ?d = "lerobot_root h out"
  from staged_episode_files [OF staged] obtain chunk c where
    c: "file_at fs (?s @ [''data'', ''chunk-'' @ chunk, episode_name ?n @ ''.parquet'']) = Some c"
    by (auto simp: staged_files_def lerobot_source_def dir)
  have wf1: "wf_fs fs" by (rule io_keepsD [OF keeps_wf_stage_episode wf staged])
  note o = lerobot_store_outcome [OF wf1 out apart stored]
  have "file_at fs' (?d @ ''data'' # [''chunk-'' @ chunk, episode_name ?n @ ''.parquet''])
      = overlay (?s @ [''data'']) (?d @ [''data'']) fs [''chunk-'' @ chunk, episode_name ?n @ ''.parquet'']"
    using o(3) [OF refl] by (simp add: merged_trees_def)
  also have "\<dots> = Some c" using c by (simp add: overlay_def)
  finally have "look fs' (?d @ [''data'', ''chunk-'' @ chunk, episode_name ?n @ ''.parquet'']) = Some (RegularFile c)"
    by (simp add: file_at_iff)
  then have "parquet_index ?d fs' ?n" unfolding parquet_index_def using parse_staged_parquet by blast
  then show ?thesis using o(2) by (simp add: dataset_indices_def)
qed

lemma as_str_Some: "as_str j = Some s \<longleftrightarrow> j = JString s"
  by (cases j) (auto simp: as_str_def)

end
