(* ===== verification/Sample_Dataset.thy ===== *)
theory Sample_Dataset
  imports Dataset_Pipeline Sample_Recording Sample_Project
begin

text \<open>
  A small dataset: an episode without cameras is staged under \<open>/staging\<close> and stored under
  \<open>/home/output\<close>. It shows that the hypotheses of the properties about stored episodes can hold.
\<close>

definition plain_host :: io_host where
  "plain_host = \<lparr>io_cwd = [''home''], io_device = (\<lambda>p. 0), io_refuses = (\<lambda>op p. None)\<rparr>"

definition dataset_config :: assembler_runtime_config_v2 where
  "dataset_config = sample_asm_config\<lparr>asm_cameras := []\<rparr>"

definition dataset_episode :: episode_assembly_input where
  "dataset_episode = \<lparr>eai_episode_index = 4, eai_start_time_us = 0, eai_stop_time_us = 1000,
     eai_observation_samples = [], eai_action_samples = [], eai_camera_streams = []\<rparr>"

definition dataset_description :: json where
  "dataset_description = dataset_info_json (build_dataset_info ''000'' dataset_config dataset_episode 1)"

text \<open>A stand-in for the crates that is enough here: every file holds this one document.\<close>

definition dataset_libs :: staging_libs where
  "dataset_libs = \<lparr>lib_parquet = (\<lambda>t. Ok [80]), lib_mux = (\<lambda>n p ps. ([], Ok ())),
     lib_json = \<lparr>jl_pretty = (\<lambda>j. [49]), jl_compact = (\<lambda>j. [50]), jl_parse = (\<lambda>bs. Ok dataset_description)\<rparr>\<rparr>"

definition staged_world :: "fs \<times> (staged_episode, io_error) result" where
  "staged_world = stage_episode plain_host dataset_libs dataset_config dataset_episode [([''home''], Directory)]"

definition dataset_storage :: storage_runtime_config where
  "dataset_storage = storage_runtime_config_of sample_project"

definition dataset_request :: episode_ready_request where
  "dataset_request = \<lparr>rq_episode_index = 4, rq_staging_dir = ''/staging/episode_000004''\<rparr>"

definition stored_world :: "fs \<times> (string, io_error) result" where
  "stored_world = lerobot_store_episode_local plain_host (lib_json dataset_libs) dataset_storage dataset_request (fst staged_world)"

definition resumed_world :: "fs \<times> (dataset_resume_hint option, io_error) result" where
  "resumed_world = probe_resume plain_host (lib_json dataset_libs) (\<lambda>c. Ok ''[episode]'') sample_project ''/home'' (fst stored_world)"



section \<open>Running it\<close>

lemma run_bind: "m fs = (fs1, Ok a) \<Longrightarrow> io_bind m f fs = f a fs1"
  by (simp add: io_bind_def)

lemma run_then: "m fs = (fs1, Ok a) \<Longrightarrow> io_then m n fs = n fs1"
  by (simp add: io_then_def run_bind)

lemma bind_cong: "fs = fs' \<Longrightarrow> io_bind m f fs = io_bind m f fs'" by simp
lemma then_cong: "fs = fs' \<Longrightarrow> io_then m n fs = io_then m n fs'" by simp
lemma when_cong: "fs = fs' \<Longrightarrow> io_when b m fs = io_when b m fs'" by simp

lemmas run_simps = run_bind run_then io_return_def io_when_def io_each.simps

lemma plain_permitted: "permitted plain_host op p m = m" "io_device plain_host p = 0"
  by (simp_all add: permitted_def plain_host_def)

lemmas call_simps = create_dir_all.simps mkdir_def write_file_def write_contents_def read_file_def read_dir_def
  remove_dir_all_def remove_file_def rename_def children_def relocate_def plain_permitted look_def file_at_def path_exists_def
  is_dir_def is_file_def

text \<open>The closed terms that are evaluated, all at once.\<close>

lemma dataset_evaluations:
  "join_path (asm_staging_dir dataset_config) (episode_name 4) = ''/staging/episode_000004''
   \<and> resolve plain_host ''/staging/episode_000004'' = [''staging'', ''episode_000004'']
   \<and> chunk_index 4 (asm_chunk_size dataset_config) = Some ''000''
   \<and> components (data_path ''000'' 4) = [''data'', ''chunk-000'', ''episode_000004.parquet'']
   \<and> components (raw_path_template ''000'' 4) = [''raw'', ''chunk-000'', ''episode_000004'']
   \<and> srt_output_path dataset_storage = Some ''./output'' \<and> resolve plain_host ''./output'' = [''home'', ''output'']
   \<and> resolve_storage_root sample_project ''/home'' = Some ''/home/./output''
   \<and> resolve plain_host ''/home/./output'' = [''home'', ''output'']
   \<and> lines_of (string_of [50, newline]) = [''2''] \<and> value_get ''episode_index'' dataset_description = None
   \<and> utf8_valid (string_of [50, newline])
   \<and> value_get ''embedded_config_toml'' dataset_description = Some (JString ''[episode]'') \<and> \<not> blank ''[episode]''
   \<and> episode_name 4 @ ''.parquet'' = ''episode_000004.parquet''
   \<and> ep_format (pj_episode sample_project) = LeRobotV2_1
   \<and> resolve plain_host (join_path ''./output'' (episode_name 4)) = [''home'', ''output'', ''episode_000004'']
   \<and> bt_inv (di_splits (build_dataset_info ''000'' dataset_config dataset_episode 1))
   \<and> bt_inv (di_features (build_dataset_info ''000'' dataset_config dataset_episode 1))"
  by code_simp

lemma staging_path:
  "join_path (asm_staging_dir dataset_config) (episode_name 4) = ''/staging/episode_000004''"
  "resolve plain_host ''/staging/episode_000004'' = [''staging'', ''episode_000004'']"
  "resolve plain_host (join_path ''./output'' (episode_name 4)) = [''home'', ''output'', ''episode_000004'']"
  using dataset_evaluations by blast+

lemma staging_chunk: "chunk_index 4 (asm_chunk_size dataset_config) = Some ''000''"
  using dataset_evaluations by simp

lemma staging_data: "below d (data_path ''000'' 4) = d @ [''data'', ''chunk-000'', ''episode_000004.parquet'']"
  using dataset_evaluations by (simp add: below_def)

lemma staging_raw: "below d (raw_path_template ''000'' 4) = d @ [''raw'', ''chunk-000'', ''episode_000004'']"
  using dataset_evaluations by (simp add: below_def)

lemma staging_rows: "\<exists>table. row_table dataset_config (build_episode_rows dataset_config dataset_episode) = Some table"
  using row_table_rectangular [of dataset_config dataset_episode] by blast

lemma dataset_episode_simps: "eai_episode_index dataset_episode = 4" "asm_cameras dataset_config = []"
  "asm_observations dataset_config = []" "asm_actions dataset_config = []"
  by (simp_all add: dataset_episode_def dataset_config_def sample_asm_config_def)

lemma dataset_libs_simps: "lib_parquet dataset_libs t = Ok [80]" "jl_pretty (lib_json dataset_libs) j = [49]"
  "jl_compact (lib_json dataset_libs) j = [50]" "jl_parse (lib_json dataset_libs) b = Ok dataset_description"
  by (simp_all add: dataset_libs_def)

lemma write_parquet_run:
  "write_parquet plain_host dataset_libs p t = io_then (create_dir_all plain_host (butlast p)) (write_file plain_host p [80])"
  by (simp add: write_parquet_def dataset_libs_simps)

lemma episode_parquet_run: "write_episode_parquet plain_host dataset_libs p dataset_config dataset_episode =
  io_then (io_then (create_dir_all plain_host (butlast p)) (write_file plain_host p [80]))
    (io_return (length (lr_timestamps_s (build_episode_rows dataset_config dataset_episode))))"
  using staging_rows by (auto simp: write_episode_parquet_def Let_def write_parquet_run)

definition staged_fs :: fs where
  "staged_fs =
     [([''home''], Directory), ([''staging''], Directory), ([''staging'', ''episode_000004''], Directory),
      ([''staging'', ''episode_000004'', ''data''], Directory),
      ([''staging'', ''episode_000004'', ''data'', ''chunk-000''], Directory),
      ([''staging'', ''episode_000004'', ''data'', ''chunk-000'', ''episode_000004.parquet''], RegularFile [80]),
      ([''staging'', ''episode_000004'', ''raw''], Directory),
      ([''staging'', ''episode_000004'', ''raw'', ''chunk-000''], Directory),
      ([''staging'', ''episode_000004'', ''raw'', ''chunk-000'', ''episode_000004''], Directory),
      ([''staging'', ''episode_000004'', ''meta''], Directory),
      ([''staging'', ''episode_000004'', ''meta'', ''info.json''], RegularFile [49, newline]),
      ([''staging'', ''episode_000004'', ''meta'', ''episodes.jsonl''], RegularFile [50, newline])]"

lemma staged_run: "staged_world = (staged_fs, Ok \<lparr>se_episode_index = 4, se_staging_dir = ''/staging/episode_000004''\<rparr>)"
  unfolding staged_world_def stage_episode_def Let_def dataset_episode_simps staging_path staging_chunk option.case episode_parquet_run
    staging_data write_episode_raw_dump_def staging_raw write_stage_metadata_def dataset_libs_simps staged_fs_def
  by (simp add: run_simps call_simps cong: bind_cong then_cong when_cong)

definition dataset_dir :: path where "dataset_dir = [''home'', ''output'']"

lemma dataset_paths:
  "srt_output_path dataset_storage = Some ''./output''" "resolve plain_host ''./output'' = dataset_dir"
  "rq_staging_dir dataset_request = ''/staging/episode_000004''"
  "resolve_storage_root sample_project ''/home'' = Some ''/home/./output''"
  "resolve plain_host ''/home/./output'' = dataset_dir"
  using dataset_evaluations by (simp_all add: dataset_dir_def dataset_request_def)

lemma description_read: "read_dataset_info plain_host (lib_json dataset_libs) p fs =
  (case look fs p of
     Some (RegularFile _) \<Rightarrow> (fs, Ok (build_dataset_info ''000'' dataset_config dataset_episode 1))
   | Some Directory \<Rightarrow> (fs, Err IsADirectory) | None \<Rightarrow> (fs, Err NotFound))"
proof -
  have "dataset_info_of_json dataset_description = Ok (build_dataset_info ''000'' dataset_config dataset_episode 1)"
    unfolding dataset_description_def by (rule dataset_info_read) (use dataset_evaluations in simp_all)
  then show ?thesis
    by (auto simp: read_dataset_info_def read_file_def plain_permitted io_bind_def dataset_libs_simps io_return_def
        split: option.split entry.split)
qed



definition stored_fs :: fs where
  "stored_fs =
     [([''home''], Directory), ([''staging''], Directory),
      ([''home'', ''output'', ''data'', ''chunk-000'', ''episode_000004.parquet''], RegularFile [80]),
      ([''home'', ''output''], Directory), ([''home'', ''output'', ''data''], Directory),
      ([''home'', ''output'', ''data'', ''chunk-000''], Directory), ([''home'', ''output'', ''raw''], Directory),
      ([''home'', ''output'', ''raw'', ''chunk-000''], Directory),
      ([''home'', ''output'', ''raw'', ''chunk-000'', ''episode_000004''], Directory),
      ([''home'', ''output'', ''meta''], Directory),
      ([''home'', ''output'', ''meta'', ''episodes.jsonl''], RegularFile [50, newline]),
      ([''home'', ''output'', ''meta'', ''info.json''], RegularFile [49])]"

lemmas store_simps = run_simps call_simps append_file_def move_or_copy_file_def merge_entry.simps tree_height_def eval_nat_numeral description_read

lemma stored_run: "stored_world = (stored_fs, Ok ''./output'')"
  unfolding stored_world_def staged_run fst_conv lerobot_store_episode_local_def dataset_paths option.case Let_def staging_path staged_fs_def
    dataset_dir_def merge_tree_if_present_def merge_directory_contents_def merge_meta_jsonl_if_present_def update_root_info_def dataset_libs_simps
  by (simp add: store_simps stored_fs_def cong: bind_cong then_cong when_cong)

lemma resumed_lines: "fold (count_line (lib_json dataset_libs)) (lines_of (string_of [50, newline])) (None, 0) = (None, 0)"
  "utf8_valid (string_of [50, newline])"
proof -
  have l: "lines_of (string_of [50, newline]) = [''2'']" using dataset_evaluations by simp
  have v: "value_get ''episode_index'' dataset_description = None" using dataset_evaluations by simp
  have "line_episode_index (lib_json dataset_libs) ''2'' = None"
    by (simp add: line_episode_index_def Let_def dataset_libs_simps v)
  then show "fold (count_line (lib_json dataset_libs)) (lines_of (string_of [50, newline])) (None, 0) = (None, 0)"
    by (simp add: l count_line_def)
qed (use dataset_evaluations in simp)

lemma resumed_toml: "value_get ''embedded_config_toml'' dataset_description = Some (JString ''[episode]'')"
  "\<not> blank ''[episode]''" "embedded_configs_match t t"
  "parse_episode_parquet_name ''episode_000004.parquet'' = Some 4"
proof -
  have "episode_name 4 @ ''.parquet'' = ''episode_000004.parquet''" using dataset_evaluations by simp
  with parse_staged_parquet [of 4] show "parse_episode_parquet_name ''episode_000004.parquet'' = Some 4" by simp
qed (use dataset_evaluations in \<open>simp_all add: embedded_configs_match_def\<close>)

lemma resumed_jsonl: "max_episode_and_line_count_from_jsonl plain_host (lib_json dataset_libs) (dataset_dir @ [''meta'', ''episodes.jsonl'']) stored_fs
  = (stored_fs, Ok (None, Some 0))"
proof -
  have f: "look stored_fs (dataset_dir @ [''meta'', ''episodes.jsonl'']) = Some (RegularFile [50, newline])"
    by (simp add: look_def stored_fs_def dataset_dir_def)
  then have "read_file plain_host (dataset_dir @ [''meta'', ''episodes.jsonl'']) stored_fs = (stored_fs, Ok [50, newline])"
    by (simp add: read_file_def plain_permitted)
  then show ?thesis unfolding max_episode_and_line_count_from_jsonl_def
    by (simp add: is_file_def file_at_def f run_bind resumed_lines io_return_def)
qed

lemma resumed_scan: "scan_data_parquet_episodes plain_host dataset_dir stored_fs = (stored_fs, Ok (Some 4, 1))"
proof -
  have d: "look stored_fs (dataset_dir @ [''data'']) = Some Directory"
    "look stored_fs (dataset_dir @ [''data'', ''chunk-000'']) = Some Directory"
    "children stored_fs (dataset_dir @ [''data'']) = [(''chunk-000'', Directory)]"
    "children stored_fs (dataset_dir @ [''data'', ''chunk-000'']) = [(''episode_000004.parquet'', RegularFile [80])]"
    by (simp_all add: look_def children_def stored_fs_def dataset_dir_def)
  then have r: "read_dir plain_host (dataset_dir @ [''data'']) stored_fs = (stored_fs, Ok [(''chunk-000'', Directory)])"
    "read_dir plain_host (dataset_dir @ [''data'', ''chunk-000'']) stored_fs
      = (stored_fs, Ok [(''episode_000004.parquet'', RegularFile [80])])"
    by (simp_all add: read_dir_def plain_permitted)
  show ?thesis unfolding scan_data_parquet_episodes_def Let_def
    by (simp add: is_dir_def d run_bind r resumed_toml io_return_def)
qed

lemma resumed_info: "read_info_embedded_config_toml plain_host (lib_json dataset_libs) dataset_dir stored_fs
  = (stored_fs, Ok (Some ''[episode]''))"
proof -
  have f: "look stored_fs (dataset_dir @ [''meta'', ''info.json'']) = Some (RegularFile [49])"
    by (simp add: look_def stored_fs_def dataset_dir_def)
  then have "read_file plain_host (dataset_dir @ [''meta'', ''info.json'']) stored_fs = (stored_fs, Ok [49])"
    by (simp add: read_file_def plain_permitted)
  then show ?thesis unfolding read_info_embedded_config_toml_def Let_def
    by (simp add: is_file_def file_at_def f run_bind dataset_libs_simps resumed_toml as_str_def io_return_def)
qed

lemma resumed_run:
  "resumed_world = (stored_fs, Ok (Some \<lparr>rh_next_episode_index = 5, rh_prior_stored_episode_count = 0\<rparr>))"
proof -
  have fmt: "ep_format (pj_episode sample_project) = LeRobotV2_1" using dataset_evaluations by simp
  have five: "saturating_add32 4 1 = 5" by (simp add: saturating_add32_def)
  have "is_dir stored_fs dataset_dir" by (simp add: is_dir_def look_def stored_fs_def dataset_dir_def)
  then have "resumed_world = probe_lerobot plain_host (lib_json dataset_libs) (\<lambda>c. Ok ''[episode]'') sample_project dataset_dir stored_fs"
    by (simp add: resumed_world_def stored_run probe_resume_def dataset_paths fmt)
  also have "\<dots> = (stored_fs, Ok (Some \<lparr>rh_next_episode_index = 5, rh_prior_stored_episode_count = 0\<rparr>))"
    unfolding probe_lerobot_def lerobot_resume_hint_if_episodes_exist_def
    by (simp add: run_bind resumed_jsonl resumed_scan resumed_info resumed_toml five max_option_def io_return_def)
  finally show ?thesis .
qed

end
