(* ===== verification/Setup_Session.thy ===== *)
theory Setup_Session
  imports Config_Project Text_Numbers
begin

text \<open>
  The state of the setup wizard, \<^verbatim>\<open>controller/src/setup/state.rs\<close>: the project being edited, the
  discovered devices with the snapshot of the channel each row shows, the step the operator is
  in, and how the session ended. An operation takes the session and returns it beside its result,
  so that what an operation changed before it failed is visible: most of them end with
  \<open>self.config.validate()?\<close>, which leaves the edited project in place.
\<close>

section \<open>Discovered devices\<close>

record camera_profile =
  cp_width :: u32
  cp_height :: u32
  cp_fps :: u32
  cp_pixel_format :: pixel_format
  cp_native_pixel_format :: "string option"
  cp_stream :: "string option"
  cp_channel :: "u32 option"

record discovered_channel_meta =
  meta_kind :: device_type
  meta_channel_label :: "string option"
  meta_default_name :: "string option"
  meta_modes :: "robot_mode list"
  meta_dof :: "u32 option"
  meta_profiles :: "camera_profile list"
  meta_default_control_frequency_hz :: "f64 option"
  meta_defaults :: channel_command_defaults
  meta_value_limits :: "state_value_limits_entry list"
  meta_supported_states :: "robot_state_kind list"
  meta_supported_commands :: "robot_command_kind list"
  meta_direct_joint_compatibility :: direct_joint_compatibility

record available_device =
  avd_name :: string
  avd_display_name :: string
  avd_device_type :: device_type
  avd_driver :: string
  avd_id :: string
  avd_camera_profiles :: "camera_profile list"
  avd_supported_modes :: "robot_mode list"
  avd_supported_states :: "robot_state_kind list"
  avd_supported_commands :: "robot_command_kind list"
  avd_direct_joint_compatibility :: direct_joint_compatibility
  avd_current :: binary_device

record device_identity =
  id_device_type :: device_type
  id_driver :: string
  id_id :: string
  id_channel_type :: string

section \<open>The session\<close>

datatype setup_step = StepDevices | StepStates | StepPairing | StepStorage | StepPreview

fun setup_step_label :: "setup_step \<Rightarrow> string" where
  "setup_step_label StepDevices = ''Devices''"
| "setup_step_label StepStates = ''States''"
| "setup_step_label StepPairing = ''Pairing''"
| "setup_step_label StepStorage = ''Settings''"
| "setup_step_label StepPreview = ''Overview''"

datatype setup_ui_status = StatusEditing | StatusSaved | StatusCancelled

datatype setup_exit_kind = ExitSaved | ExitCancelled

datatype pairing_endpoint = EndpointLeader | EndpointFollower

text \<open>What the wizard's footer says, with the values the message prints.\<close>

datatype setup_message =
    SavedTo string | SetupCancelled | IdentifyActive string string | EmptyValue string
  | BadValue string string | OutOfRange string u32 | Rejected string config_error
  | CannotSwitch mapping_strategy config_error
  | NotEligible pairing_endpoint string string mapping_strategy | EndpointsMustDiffer
  | NoEligiblePair | CouldNotCreate config_error | NoRatio channel_pairing | BadRatio f64 | CannotApplyRatio config_error
  | UnparsableRatio string | NameInUse string | StateNeeded robot_state_kind string string
  | StateUnsupported robot_state_kind | StateUnpublished robot_state_kind
  | UnknownField string string | AddedDevice string | PreviewRunning string | IdentifyFailed string

record setup_session =
  wz_config :: project_config
  wz_available :: "available_device list"
  wz_pairing_cache :: "channel_pairing list"
  wz_identify :: "string option"
  wz_subpanel :: "string option"
  wz_step :: setup_step
  wz_output_path :: string
  wz_resume_mode :: bool
  wz_warnings :: "string list"
  wz_message :: "setup_message option"
  wz_status :: setup_ui_status
  wz_completed_at :: "nat option"
  wz_exit_kind :: "setup_exit_kind option"

text \<open>\<open>Box<dyn Error>\<close> of the operations, and a panic.\<close>

datatype setup_error = ConfigInvalid config_error | SetupPanic

type_synonym 'a edit = "setup_session \<times> ('a, setup_error) result"

text \<open>\<open>self.config.validate()?; Ok(true)\<close>\<close>

definition revalidated :: "setup_session \<Rightarrow> bool edit" where
  "revalidated s = (s, map_err ConfigInvalid (bind_ok (project_validate (wz_config s)) (\<lambda>_. Ok True)))"

text \<open>\<open>if let Err(error) = self.config.validate()\<close> with its block, which ends in \<open>return Ok(false)\<close>,
  and what follows it.\<close>

definition validated_or :: "setup_session \<Rightarrow> (config_error \<Rightarrow> setup_session) \<Rightarrow> (setup_session \<Rightarrow> 'a edit) \<Rightarrow> 'a \<Rightarrow> 'a edit" where
  "validated_or s rollback continue no =
     (case project_validate (wz_config s) of
        Err e \<Rightarrow> (rollback e, Ok no)
      | Ok _ \<Rightarrow> continue s)"

definition refuse :: "setup_session \<Rightarrow> setup_message \<Rightarrow> bool edit" where
  "refuse s m = (s\<lparr>wz_message := Some m\<rparr>, Ok False)"

text \<open>\<open>iter_mut().find(..)\<close> followed by an assignment, and \<open>iter().position(..)\<close>.\<close>

fun update_first :: "('a \<Rightarrow> bool) \<Rightarrow> ('a \<Rightarrow> 'a) \<Rightarrow> 'a list \<Rightarrow> 'a list" where
  "update_first P f [] = []"
| "update_first P f (x # xs) = (if P x then f x # xs else x # update_first P f xs)"

fun position :: "('a \<Rightarrow> bool) \<Rightarrow> 'a list \<Rightarrow> nat option" where
  "position P [] = None"
| "position P (x # xs) = (if P x then Some 0 else map_option Suc (position P xs))"

definition update_config :: "(project_config \<Rightarrow> project_config) \<Rightarrow> setup_session \<Rightarrow> setup_session" where
  "update_config f s = s\<lparr>wz_config := f (wz_config s)\<rparr>"

text \<open>\<open>self.teleop_pairing_cache = self.config.pairings.clone()\<close>, and \<open>Vec::remove\<close>.\<close>

definition cached :: "setup_session \<Rightarrow> setup_session" where
  "cached s = s\<lparr>wz_pairing_cache := pj_pairings (wz_config s)\<rparr>"

definition remove_nth :: "nat \<Rightarrow> 'a list \<Rightarrow> 'a list" where
  "remove_nth i xs = take i xs @ drop (Suc i) xs"

text \<open>\<open>self.config.devices[i].channels[j]\<close>, read and written.\<close>

definition channel_at :: "setup_session \<Rightarrow> nat \<Rightarrow> nat \<Rightarrow> device_channel" where
  "channel_at s i j = dev_channels (pj_devices (wz_config s) ! i) ! j"

definition update_channel :: "nat \<Rightarrow> nat \<Rightarrow> (device_channel \<Rightarrow> device_channel) \<Rightarrow> setup_session \<Rightarrow> setup_session" where
  "update_channel i j f s =
     (let devices = pj_devices (wz_config s); d = devices ! i; channels = dev_channels d
      in s\<lparr>wz_config := (wz_config s)\<lparr>pj_devices :=
           devices[i := d\<lparr>dev_channels := channels[j := f (channels ! j)]\<rparr>]\<rparr>\<rparr>)"

definition device_identity_from_binary :: "binary_device \<Rightarrow> (device_identity, setup_error) result" where
  "device_identity_from_binary d =
     (case dev_channels d of
        [] \<Rightarrow> Err SetupPanic
      | ch # _ \<Rightarrow> Ok \<lparr>id_device_type = ch_kind ch, id_driver = dev_driver d, id_id = dev_id d,
                    id_channel_type = ch_channel_type ch\<rparr>)"

definition available_named :: "setup_session \<Rightarrow> string \<Rightarrow> available_device option" where
  "available_named s name = find_by avd_name name (wz_available s)"

text \<open>\<open>available_device_mut(name)\<close> followed by an assignment; \<open>on_first_channel\<close> is the assignment
  to \<open>available.current.channels.first_mut()\<close>.\<close>

definition update_available :: "string \<Rightarrow> (available_device \<Rightarrow> available_device) \<Rightarrow> setup_session \<Rightarrow> setup_session" where
  "update_available name f s =
     s\<lparr>wz_available := update_first (\<lambda>a. avd_name a = name) f (wz_available s)\<rparr>"

definition on_first_channel :: "(device_channel \<Rightarrow> device_channel) \<Rightarrow> available_device \<Rightarrow> available_device" where
  "on_first_channel f a =
     (case dev_channels (avd_current a) of
        [] \<Rightarrow> a
      | ch # rest \<Rightarrow> a\<lparr>avd_current := (avd_current a)\<lparr>dev_channels := f ch # rest\<rparr>\<rparr>)"

text \<open>The pair of indices of the channel a row stands for.\<close>

fun find_channel_of :: "device_identity \<Rightarrow> nat \<Rightarrow> binary_device list \<Rightarrow> (nat \<times> nat) option" where
  "find_channel_of ident n [] = None"
| "find_channel_of ident n (d # ds) =
     (case (if dev_driver d \<noteq> id_driver ident \<or> dev_id d \<noteq> id_id ident then None
            else position (\<lambda>c. ch_kind c = id_device_type ident \<and> ch_channel_type c = id_channel_type ident)
              (dev_channels d)) of
        Some j \<Rightarrow> Some (n, j)
      | None \<Rightarrow> find_channel_of ident (Suc n) ds)"

definition configured_device_channel_index :: "setup_session \<Rightarrow> string \<Rightarrow> ((nat \<times> nat) option, setup_error) result" where
  "configured_device_channel_index s name =
     (case available_named s name of
        None \<Rightarrow> Ok None
      | Some a \<Rightarrow> bind_ok (device_identity_from_binary (avd_current a))
          (\<lambda>ident. Ok (find_channel_of ident 0 (pj_devices (wz_config s)))))"

definition selected_device_index :: "setup_session \<Rightarrow> string \<Rightarrow> ((nat \<times> nat) option, setup_error) result" where
  "selected_device_index s name = bind_ok (configured_device_channel_index s name)
     (\<lambda>found. Ok (case found of None \<Rightarrow> None | Some (i, j) \<Rightarrow> if ch_enabled (channel_at s i j) then Some (i, j) else None))"

definition is_device_selected :: "setup_session \<Rightarrow> string \<Rightarrow> (bool, setup_error) result" where
  "is_device_selected s name = bind_ok (selected_device_index s name) (\<lambda>found. Ok (found \<noteq> None))"

text \<open>\<open>let Some((i, j)) = self.selected_device_index(name) else \{ return Ok(false) \}\<close>, and the same
  with \<open>configured_device_channel_index\<close>.\<close>

definition with_index :: "setup_session \<Rightarrow> ((nat \<times> nat) option, setup_error) result \<Rightarrow> (nat \<Rightarrow> nat \<Rightarrow> bool edit) \<Rightarrow> bool edit" where
  "with_index s r f = (case r of Err e \<Rightarrow> (s, Err e) | Ok None \<Rightarrow> (s, Ok False) | Ok (Some (i, j)) \<Rightarrow> f i j)"

section \<open>Ending the session\<close>

definition SETUP_UI_SUCCESS_DELAY :: nat where "SETUP_UI_SUCCESS_DELAY = 300"

definition should_exit :: "nat \<Rightarrow> setup_session \<Rightarrow> bool" where
  "should_exit now s =
     (case wz_completed_at s of None \<Rightarrow> False | Some t \<Rightarrow> now - t \<ge> SETUP_UI_SUCCESS_DELAY)"

definition mark_saved :: "nat \<Rightarrow> setup_session \<Rightarrow> setup_session" where
  "mark_saved now s = s\<lparr>wz_status := StatusSaved, wz_message := Some (SavedTo (wz_output_path s)),
     wz_completed_at := Some now, wz_exit_kind := Some ExitSaved\<rparr>"

definition mark_cancelled :: "nat \<Rightarrow> setup_session \<Rightarrow> setup_session" where
  "mark_cancelled now s = s\<lparr>wz_status := StatusCancelled, wz_message := Some SetupCancelled,
     wz_completed_at := Some now, wz_exit_kind := Some ExitCancelled\<rparr>"

section \<open>Identify\<close>

text \<open>The message starts with \<open>IDENTIFY_ACTIVE_MESSAGE_PREFIX\<close>; no other message does.\<close>

definition clear_identify_message :: "setup_session \<Rightarrow> setup_session \<times> bool" where
  "clear_identify_message s =
     (case wz_message s of
        Some (IdentifyActive _ _) \<Rightarrow> (s\<lparr>wz_message := None\<rparr>, True)
      | _ \<Rightarrow> (s, False))"

definition clear_identify_state :: "setup_session \<Rightarrow> setup_session \<times> bool" where
  "clear_identify_state s =
     (let had_identify_target = wz_identify s \<noteq> None
      in case clear_identify_message (s\<lparr>wz_identify := None\<rparr>) of
           (s', cleared) \<Rightarrow> (s', cleared \<or> had_identify_target))"

definition set_identify_device :: "setup_session \<Rightarrow> string option \<Rightarrow> setup_session \<times> bool" where
  "set_identify_device s target =
     (case target of
        None \<Rightarrow> clear_identify_state s
      | Some name \<Rightarrow>
          if wz_identify s = Some name then (s, False)
          else (case available_named s name of
              None \<Rightarrow> (s\<lparr>wz_identify := Some name\<rparr>, True)
            | Some a \<Rightarrow> (s\<lparr>wz_identify := Some name,
                wz_message := Some (IdentifyActive (avd_display_name a) (avd_id a))\<rparr>, True)))"

section \<open>Steps\<close>

definition visible_steps :: "setup_session \<Rightarrow> setup_step list" where
  "visible_steps s =
     (if pj_mode (wz_config s) = Teleop
      then [StepDevices, StepPairing, StepStates, StepStorage, StepPreview]
      else [StepDevices, StepStates, StepStorage, StepPreview])"

definition current_step_index :: "setup_session \<Rightarrow> nat" where
  "current_step_index s = (case position (\<lambda>t. t = wz_step s) (visible_steps s) of Some i \<Rightarrow> i + 1 | None \<Rightarrow> 1)"

definition total_steps :: "setup_session \<Rightarrow> nat" where
  "total_steps s = length (visible_steps s)"

text \<open>What moving to another step does: outside the devices step no row is identified or open.\<close>

definition enter_step :: "setup_step \<Rightarrow> setup_session \<Rightarrow> setup_session" where
  "enter_step t s =
     (let s' = s\<lparr>wz_step := t\<rparr>
      in if t \<noteq> StepDevices then (fst (clear_identify_state s'))\<lparr>wz_subpanel := None\<rparr> else s')"

definition advance_step :: "setup_session \<Rightarrow> setup_session \<times> bool" where
  "advance_step s =
     (let steps = visible_steps s;
          index = (case position (\<lambda>t. t = wz_step s) steps of Some i \<Rightarrow> i | None \<Rightarrow> 0);
          next = steps ! min (index + 1) (length steps - 1)
      in (enter_step next s, wz_step s \<noteq> next))"

definition retreat_step :: "setup_session \<Rightarrow> setup_session \<times> bool" where
  "retreat_step s =
     (let steps = visible_steps s;
          index = (case position (\<lambda>t. t = wz_step s) steps of Some i \<Rightarrow> i | None \<Rightarrow> 0);
          previous = (if index = 0 then steps ! 0 else steps ! (index - 1))
      in (enter_step previous s, wz_step s \<noteq> previous))"

definition jump_to_step :: "setup_session \<Rightarrow> string \<Rightarrow> setup_session \<times> bool" where
  "jump_to_step s value =
     (let go = (\<lambda>target. if target \<notin> set (visible_steps s) then (s, False)
                  else (enter_step target s, wz_step s \<noteq> target))
      in if value \<in> {''devices'', ''discovery'', ''selection'', ''parameters''} then go StepDevices
         else if value = ''states'' then go StepStates
         else if value = ''storage'' then go StepStorage
         else if value = ''pairing'' then go StepPairing
         else if value = ''preview'' then go StepPreview
         else (s, False))"

definition ensure_visible_current_step :: "setup_session \<Rightarrow> setup_session" where
  "ensure_visible_current_step s =
     enter_step (if wz_step s = StepPairing \<and> pj_mode (wz_config s) \<noteq> Teleop then StepStorage else wz_step s) s"

text \<open>The numbers of \<open>rotate_index\<close> are those of short lists, below any overflow of \<open>i32\<close>; the
  first remainder takes the sign of the dividend.\<close>

definition rust_rem :: "int \<Rightarrow> int \<Rightarrow> int" where
  "rust_rem a b = sgn a * (\<bar>a\<bar> mod \<bar>b\<bar>)"

definition rotate_index :: "nat \<Rightarrow> nat \<Rightarrow> int \<Rightarrow> nat" where
  "rotate_index current_index len delta =
     (if len = 0 then 0 else nat (rust_rem (int current_index + delta) (int len) + int len) mod len)"

section \<open>Pruning pairings\<close>

definition device_has_enabled_channel :: "project_config \<Rightarrow> string \<Rightarrow> string \<Rightarrow> bool" where
  "device_has_enabled_channel config device_name channel_type =
     list_ex (\<lambda>d. dev_name d = device_name
       \<and> list_ex (\<lambda>c. ch_channel_type c = channel_type \<and> ch_enabled c) (dev_channels d)) (pj_devices config)"

definition prune_invalid_pairings :: "setup_session \<Rightarrow> setup_session" where
  "prune_invalid_pairings s =
     (let config = wz_config s;
          kept = filter (\<lambda>p. device_has_enabled_channel config (pr_leader_device p) (pr_leader_channel_type p)
            \<and> device_has_enabled_channel config (pr_follower_device p) (pr_follower_channel_type p))
            (pj_pairings config)
      in s\<lparr>wz_config := config\<lparr>pj_pairings := kept\<rparr>, wz_pairing_cache := kept\<rparr>)"

section \<open>The state the terminal shows\<close>

record session_mutation =
  sm_state_changed :: bool
  sm_config_changed :: bool
  sm_step_changed :: bool

definition SessionMutation_default :: session_mutation where
  "SessionMutation_default = \<lparr>sm_state_changed = False, sm_config_changed = False, sm_step_changed = False\<rparr>"

definition mutation_state_only :: "bool \<Rightarrow> session_mutation" where
  "mutation_state_only changed = SessionMutation_default\<lparr>sm_state_changed := changed\<rparr>"

definition mutation_config_changed :: "bool \<Rightarrow> session_mutation" where
  "mutation_config_changed changed = SessionMutation_default\<lparr>sm_state_changed := changed, sm_config_changed := changed\<rparr>"

definition mutation_step_changed :: "bool \<Rightarrow> session_mutation" where
  "mutation_step_changed changed = SessionMutation_default\<lparr>sm_state_changed := changed, sm_step_changed := changed\<rparr>"

definition mutation_merge :: "session_mutation \<Rightarrow> session_mutation \<Rightarrow> session_mutation" where
  "mutation_merge m n = \<lparr>sm_state_changed = (sm_state_changed m \<or> sm_state_changed n),
     sm_config_changed = (sm_config_changed m \<or> sm_config_changed n),
     sm_step_changed = (sm_step_changed m \<or> sm_step_changed n)\<rparr>"

record setup_state_envelope =
  sse_step :: setup_step
  sse_step_index :: nat
  sse_step_name :: string
  sse_total_steps :: nat
  sse_output_path :: string
  sse_resume_mode :: bool
  sse_status :: setup_ui_status
  sse_message :: "setup_message option"
  sse_identify_device :: "string option"
  sse_subpanel_target :: "string option"
  sse_warnings :: "string list"
  sse_config :: project_config
  sse_available_devices :: "available_device list"

definition build_state :: "setup_session \<Rightarrow> setup_state_envelope" where
  "build_state s = \<lparr>sse_step = wz_step s, sse_step_index = current_step_index s,
     sse_step_name = setup_step_label (wz_step s), sse_total_steps = total_steps s,
     sse_output_path = wz_output_path s, sse_resume_mode = wz_resume_mode s, sse_status = wz_status s,
     sse_message = wz_message s, sse_identify_device = wz_identify s, sse_subpanel_target = wz_subpanel s,
     sse_warnings = wz_warnings s, sse_config = wz_config s, sse_available_devices = wz_available s\<rparr>"

section \<open>Properties of the helpers\<close>

lemma position_SomeD: "position P xs = Some i \<Longrightarrow> i < length xs \<and> P (xs ! i)"
  by (induction xs arbitrary: i) (auto split: if_splits)

lemma position_None: "position P xs = None \<longleftrightarrow> (\<forall>x \<in> set xs. \<not> P x)"
  by (induction xs) auto

lemma rotate_index_mod:
  "0 < len \<Longrightarrow> rotate_index i len d = nat ((int i + d) mod int len)"
proof -
  assume len: "0 < len"
  let ?a = "int i + d" and ?n = "int len"
  have "0 \<le> \<bar>?a\<bar> mod ?n" "\<bar>?a\<bar> mod ?n < ?n" using len by simp_all
  then have bound: "- ?n < rust_rem ?a ?n" "rust_rem ?a ?n < ?n"
    unfolding rust_rem_def by (cases "?a" "0 :: int" rule: linorder_cases; simp)+
  have "rust_rem ?a ?n mod ?n = ?a mod ?n"
    using len by (auto simp: rust_rem_def sgn_if mod_minus_eq add.commute)
  then have m: "(rust_rem ?a ?n + ?n) mod ?n = ?a mod ?n" by simp
  have "nat (rust_rem ?a ?n + ?n) mod len = nat ((rust_rem ?a ?n + ?n) mod ?n)"
    using bound len nat_mod_distrib [of "rust_rem ?a ?n + ?n" ?n] by simp
  with m len show ?thesis by (simp add: rotate_index_def)
qed

lemma rotate_index_less: "0 < len \<Longrightarrow> rotate_index i len d < len"
  by (simp add: rotate_index_def)

lemma rotate_index_inverse:
  assumes "i < len"
  shows "rotate_index (rotate_index i len d) len (- d) = i"
proof -
  have len: "0 < len" using assms by simp
  then have "int (rotate_index i len d) = (int i + d) mod int len"
    by (simp add: rotate_index_mod)
  then have "(int (rotate_index i len d) - d) mod int len = int i mod int len"
    by (simp add: mod_diff_left_eq)
  with assms len show ?thesis by (simp add: rotate_index_mod)
qed

lemma revalidated_Ok: "revalidated s = (s', Ok b) \<longleftrightarrow> s' = s \<and> b \<and> project_ok (wz_config s)"
  by (cases "project_validate (wz_config s)")
    (auto simp: revalidated_def map_err_def bind_ok_def project_ok_def)

lemma with_index_Ok:
  "with_index s r f = (s', Ok b) \<longleftrightarrow>
     (r = Ok None \<and> s' = s \<and> \<not> b) \<or> (\<exists>i j. r = Ok (Some (i, j)) \<and> f i j = (s', Ok b))"
  by (auto simp: with_index_def split: sum.splits option.splits)

lemma map_update_first:
  assumes "\<And>x. P x \<Longrightarrow> g (f x) = g x"
  shows "map g (update_first P f xs) = map g xs"
  using assms by (induction xs) auto

lemma clear_identify_keeps [simp]:
  "wz_config (fst (clear_identify_state s)) = wz_config s"
  "wz_available (fst (clear_identify_state s)) = wz_available s"
  "wz_step (fst (clear_identify_state s)) = wz_step s"
  "wz_identify (fst (clear_identify_state s)) = None"
  by (auto simp: clear_identify_state_def clear_identify_message_def Let_def
      split: option.splits setup_message.splits)

lemma enter_step_keeps [simp]:
  "wz_config (enter_step t s) = wz_config s" "wz_available (enter_step t s) = wz_available s"
  "wz_step (enter_step t s) = t"
  by (simp_all add: enter_step_def Let_def)

lemma visible_steps_nonempty [simp]: "visible_steps s \<noteq> []"
  by (simp add: visible_steps_def)

end
