(* ===== verification/Project_Edits.thy ===== *)
theory Project_Edits
  imports Setup_Session
begin

text \<open>
  When an edit keeps a project valid. The validators of pairings and of camera settings read only
  part of a channel, its view; an edit that changes nothing in the views leaves their verdict as
  it was, and only the edited devices have to be looked at again.
\<close>

definition chan_view where
  "chan_view c = (ch_channel_type c, ch_kind c, ch_enabled c, ch_dof c, ch_publish_states c,
     ch_direct_joint_compatibility c, ch_supported_commands c, ch_preview_enabled c, ch_profile c,
     ch_record c, ch_preview_settings c)"

definition dev_view where
  "dev_view d = (dev_name d, dev_driver d, dev_bus_root d, map chan_view (dev_channels d))"

lemma map_congI:
  assumes "map v xs = map v ys" and "\<And>x y. v x = v y \<Longrightarrow> g x = g y"
  shows "map g xs = map g ys"
proof -
  have n: "length xs = length ys" using assms(1) map_eq_imp_length_eq by blast
  have "g (xs ! i) = g (ys ! i)" if "i < length xs" for i
    by (rule assms(2)) (metis assms(1) n nth_map that)
  with n show ?thesis by (simp add: list_eq_iff_nth_eq)
qed

lemma find_by_view:
  assumes "map v xs = map v ys" and "\<And>x y. v x = v y \<Longrightarrow> key x = key y"
  shows "map_option v (find_by key k xs) = map_option v (find_by key k ys)"
  using assms(1)
proof (induction xs arbitrary: ys)
  case (Cons x xs)
  then obtain y ys' where "ys = y # ys'" "v x = v y" "map v xs = map v ys'" by (cases ys) auto
  with Cons.IH [of ys'] assms(2) [of x y] show ?case by auto
qed simp

lemma map_option_eqE:
  assumes "map_option v m = map_option v m'"
  obtains "m = None" "m' = None" | x y where "m = Some x" "m' = Some y" "v x = v y"
  using assms by (cases m; cases m') auto

lemma channel_named_view:
  "dev_view d = dev_view d' \<Longrightarrow> map_option chan_view (channel_named d t) = map_option chan_view (channel_named d' t)"
  unfolding channel_named_def by (rule find_by_view) (auto simp: dev_view_def chan_view_def)

lemma device_named_view:
  "map dev_view (pj_devices c) = map dev_view (pj_devices c') \<Longrightarrow>
    map_option dev_view (device_named c n) = map_option dev_view (device_named c' n)"
  unfolding device_named_def by (rule find_by_view) (auto simp: dev_view_def)

lemma validate_index_map_view:
  "chan_view l = chan_view l' \<Longrightarrow> chan_view f = chan_view f' \<Longrightarrow>
    validate_direct_joint_dof_and_index_map p l f = validate_direct_joint_dof_and_index_map p l' f'"
  by (simp add: validate_direct_joint_dof_and_index_map_def chan_view_def)

lemma pairing_validate_view:
  assumes "map dev_view (pj_devices c) = map dev_view (pj_devices c')"
  shows "pairing_validate p c = pairing_validate p c'"
proof -
  note d = device_named_view [OF assms]
  show ?thesis
  proof (cases rule: map_option_eqE [OF d [of "pr_leader_device p"]])
    case 1
    then show ?thesis by (simp add: pairing_validate_def require_def)
  next
    case (2 ld ld')
    note l = this
    show ?thesis
    proof (cases rule: map_option_eqE [OF d [of "pr_follower_device p"]])
      case 1
      with l show ?thesis by (simp add: pairing_validate_def require_def)
    next
      case (2 fd fd')
      note f = this
      note lc = channel_named_view [OF l(3), of "pr_leader_channel_type p"]
      note fc = channel_named_view [OF f(3), of "pr_follower_channel_type p"]
      show ?thesis
      proof (cases rule: map_option_eqE [OF lc])
        case 1
        with l f show ?thesis by (simp add: pairing_validate_def require_def)
      next
        case (2 lch lch')
        note lch = this
        show ?thesis
        proof (cases rule: map_option_eqE [OF fc])
          case 1
          with l f lch show ?thesis by (simp add: pairing_validate_def require_def)
        next
          case (2 fch fch')
          have drivers: "dev_driver ld = dev_driver ld'" "dev_driver fd = dev_driver fd'"
            using l(3) f(3) by (simp_all add: dev_view_def)
          from 2 l f lch drivers validate_index_map_view [OF lch(3) 2(3)] show ?thesis
            by (simp add: pairing_validate_def require_def direct_joint_validate_def cartesian_validate_def
                parallel_validate_def lacks_commands_def require_direct_joint_compatibility_def chan_view_def
                cong: mapping_strategy.case_cong list.case_cong)
        qed
      qed
    qed
  qed
qed

lemma camera_checks_view:
  assumes "map dev_view (pj_devices c) = map dev_view (pj_devices c')"
  shows "validate_per_channel_encoder_configs c = validate_per_channel_encoder_configs c'"
    and "validate_preview_compatibility c = validate_preview_compatibility c'"
proof -
  have ch: "map g (dev_channels d) = map g (dev_channels d')"
    if "dev_view d = dev_view d'" "\<And>x y. chan_view x = chan_view y \<Longrightarrow> g x = g y"
    for g :: "device_channel \<Rightarrow> check" and d d'
  proof (rule map_congI [where v = chan_view])
    show "map chan_view (dev_channels d) = map chan_view (dev_channels d')" using that(1) by (simp add: dev_view_def)
  qed (rule that(2))
  show "validate_per_channel_encoder_configs c = validate_per_channel_encoder_configs c'"
    unfolding validate_per_channel_encoder_configs_def
  proof (rule arg_cong [where f = checks], rule map_congI [OF assms], rule arg_cong [where f = checks])
    fix d d' assume v: "dev_view d = dev_view d'"
    then have n: "dev_name d = dev_name d'" by (simp add: dev_view_def)
    show "map (\<lambda>channel. if ch_kind channel \<noteq> Camera \<or> \<not> ch_enabled channel then Ok ()
        else map_err (\<lambda>e. Validation (V_RecordConfig (dev_name d) (ch_channel_type channel) e))
          (encoder_validate (record_settings channel))) (dev_channels d)
      = map (\<lambda>channel. if ch_kind channel \<noteq> Camera \<or> \<not> ch_enabled channel then Ok ()
        else map_err (\<lambda>e. Validation (V_RecordConfig (dev_name d') (ch_channel_type channel) e))
          (encoder_validate (record_settings channel))) (dev_channels d')"
      unfolding n by (rule ch [OF v]) (simp add: chan_view_def record_settings_def)
  qed
  show "validate_preview_compatibility c = validate_preview_compatibility c'"
    unfolding validate_preview_compatibility_def
  proof (rule arg_cong [where f = checks], rule map_congI [OF assms], rule arg_cong [where f = checks])
    fix d d' assume v: "dev_view d = dev_view d'"
    then have n: "dev_name d = dev_name d'" by (simp add: dev_view_def)
    show "map (\<lambda>channel. if ch_kind channel \<noteq> Camera \<or> \<not> ch_enabled channel \<or> \<not> ch_preview_enabled channel then Ok ()
        else if pv_output_mode (preview_settings channel) = Encoded then Ok ()
        else reject (case ch_profile channel of None \<Rightarrow> False
            | Some profile \<Rightarrow> prof_pixel_format profile = Px_H264AnnexB)
          (Validation (V_Channel (dev_name d) (ch_channel_type channel) H264PreviewNeedsEncoded))) (dev_channels d)
      = map (\<lambda>channel. if ch_kind channel \<noteq> Camera \<or> \<not> ch_enabled channel \<or> \<not> ch_preview_enabled channel then Ok ()
        else if pv_output_mode (preview_settings channel) = Encoded then Ok ()
        else reject (case ch_profile channel of None \<Rightarrow> False
            | Some profile \<Rightarrow> prof_pixel_format profile = Px_H264AnnexB)
          (Validation (V_Channel (dev_name d') (ch_channel_type channel) H264PreviewNeedsEncoded))) (dev_channels d')"
      unfolding n by (rule ch [OF v]) (simp add: chan_view_def preview_settings_def)
  qed
qed

text \<open>Replacing devices by others of the same views, and the pairings by ones the project accepts.\<close>

lemma project_ok_edit:
  assumes ok: "project_ok c" and view: "map dev_view ds = map dev_view (pj_devices c)"
    and devices: "\<forall>d \<in> set ds. is_ok (device_validate d)"
    and pairings: "\<forall>p \<in> set ps. is_ok (pairing_validate p c)"
  shows "project_ok (c\<lparr>pj_devices := ds, pj_pairings := ps\<rparr>)"
proof -
  let ?c = "c\<lparr>pj_devices := ds, pj_pairings := ps\<rparr>"
  have v: "map dev_view (pj_devices ?c) = map dev_view (pj_devices c)" using view by simp
  have keys: "map dev_name ds = map dev_name (pj_devices c)" "map dev_bus_root ds = map dev_bus_root (pj_devices c)"
    by (rule map_congI [OF view]; simp add: dev_view_def)+
  have "pj_devices c \<noteq> []" by (rule project_ok_devices [OF ok])
  with view have ne: "ds \<noteq> []" by auto
  show ?thesis
    using ok ne devices pairings pairing_validate_view [OF v] camera_checks_view [OF v] keys
    by (simp add: project_ok_def project_validate_def is_ok_checks_Cons is_ok_checks_map is_ok_reject
        is_ok_devices_validate)
qed

section \<open>Updating one channel\<close>

lemma update_first_id: "find P xs = Some x \<Longrightarrow> f x = x \<Longrightarrow> update_first P f xs = xs"
  by (induction xs) (auto split: if_splits)

lemma set_update_first: "y \<in> set (update_first P f xs) \<Longrightarrow> y \<in> set xs \<or> (\<exists>x \<in> set xs. P x \<and> y = f x)"
  by (induction xs) (auto split: if_splits)

lemma device_validate_channels:
  assumes "is_ok (device_validate d)" and "map ch_channel_type cs = map ch_channel_type (dev_channels d)"
    and "\<forall>c \<in> set cs. is_ok (channel_validate c d)"
  shows "is_ok (device_validate (d\<lparr>dev_channels := cs\<rparr>))"
proof -
  have "cs \<noteq> []" using assms(1,2) by (auto simp: is_ok_device_validate)
  moreover have "channel_validate c (d\<lparr>dev_channels := cs\<rparr>) = channel_validate c d" for c
    by (simp add: channel_validate_def split: device_type.split)
  ultimately show ?thesis using assms by (simp add: is_ok_device_validate)
qed

end
