(* ===== verification/Setup_Pairings.thy ===== *)
theory Setup_Pairings
  imports Project_Edits
begin

text \<open>
  The pairing step of the setup wizard, \<^verbatim>\<open>controller/src/setup/pairings.rs\<close>: which channels a
  policy admits as leader and follower, the pair that is built from two channels, and the
  operations that create, cycle, edit, scale and remove pairs.
\<close>

section \<open>What a policy asks of a channel\<close>

fun mapping_strategy_label :: "mapping_strategy \<Rightarrow> string" where
  "mapping_strategy_label DirectJoint = ''direct-joint''"
| "mapping_strategy_label Cartesian = ''cartesian''"
| "mapping_strategy_label Parallel = ''parallel''"

definition some_positive :: "u32 option \<Rightarrow> bool" where
  "some_positive m = (case m of None \<Rightarrow> False | Some d \<Rightarrow> d > 0)"

definition channel_supports_direct_joint_leader :: "device_channel \<Rightarrow> bool" where
  "channel_supports_direct_joint_leader ch \<longleftrightarrow>
     SK_JointPosition \<in> set (ch_publish_states ch) \<and> some_positive (ch_dof ch)"

definition channel_supports_direct_joint_follower :: "device_channel \<Rightarrow> bool" where
  "channel_supports_direct_joint_follower ch \<longleftrightarrow>
     CK_JointPosition \<in> set (ch_supported_commands ch) \<and> some_positive (ch_dof ch)"

definition channel_supports_parallel_leader :: "device_channel \<Rightarrow> bool" where
  "channel_supports_parallel_leader ch \<longleftrightarrow> ch_dof ch = Some 1 \<and> SK_ParallelPosition \<in> set (ch_publish_states ch)"

definition channel_supports_parallel_follower :: "device_channel \<Rightarrow> bool" where
  "channel_supports_parallel_follower ch \<longleftrightarrow> ch_dof ch = Some 1
     \<and> (CK_ParallelPosition \<in> set (ch_supported_commands ch) \<or> CK_ParallelMit \<in> set (ch_supported_commands ch))"

definition channel_supports_cartesian_leader :: "device_channel \<Rightarrow> bool" where
  "channel_supports_cartesian_leader ch \<longleftrightarrow> SK_EndEffectorPose \<in> set (ch_publish_states ch)"

definition channel_supports_cartesian_follower :: "device_channel \<Rightarrow> bool" where
  "channel_supports_cartesian_follower ch \<longleftrightarrow> CK_EndPose \<in> set (ch_supported_commands ch)"

fun policy_admits_leader :: "mapping_strategy \<Rightarrow> device_channel \<Rightarrow> bool" where
  "policy_admits_leader DirectJoint ch = channel_supports_direct_joint_leader ch"
| "policy_admits_leader Cartesian ch = channel_supports_cartesian_leader ch"
| "policy_admits_leader Parallel ch = channel_supports_parallel_leader ch"

fun policy_admits_follower :: "mapping_strategy \<Rightarrow> device_channel \<Rightarrow> bool" where
  "policy_admits_follower DirectJoint ch = channel_supports_direct_joint_follower ch"
| "policy_admits_follower Cartesian ch = channel_supports_cartesian_follower ch"
| "policy_admits_follower Parallel ch = channel_supports_parallel_follower ch"

definition policy_pair_compatible :: "mapping_strategy \<Rightarrow> binary_device \<Rightarrow> device_channel
    \<Rightarrow> binary_device \<Rightarrow> device_channel \<Rightarrow> bool" where
  "policy_pair_compatible policy leader_device leader follower_device follower =
     (case policy of
        DirectJoint \<Rightarrow>
          if ch_dof leader = None \<or> ch_dof leader \<noteq> ch_dof follower then False
          else peer_listed (compat_can_lead (ch_direct_joint_compatibility leader))
                 (dev_driver follower_device) (ch_channel_type follower)
             \<and> peer_listed (compat_can_follow (ch_direct_joint_compatibility follower))
                 (dev_driver leader_device) (ch_channel_type leader)
      | Cartesian \<Rightarrow> True
      | Parallel \<Rightarrow> True)"

section \<open>Eligible channels\<close>

definition supported_modes_for :: "setup_session \<Rightarrow> binary_device \<Rightarrow> device_channel \<Rightarrow> robot_mode list" where
  "supported_modes_for s device channel =
     (case find (\<lambda>a. avd_driver a = dev_driver device \<and> avd_id a = dev_id device
          \<and> (case dev_channels (avd_current a) of [] \<Rightarrow> False
             | ch # _ \<Rightarrow> ch_channel_type ch = ch_channel_type channel)) (wz_available s) of
        None \<Rightarrow> [] | Some a \<Rightarrow> avd_supported_modes a)"

definition pair_at :: "setup_session \<Rightarrow> nat option \<Rightarrow> channel_pairing option" where
  "pair_at s index = (case index of None \<Rightarrow> None
     | Some i \<Rightarrow> if i < length (pj_pairings (wz_config s)) then Some (pj_pairings (wz_config s) ! i) else None)"

definition leader_of :: "channel_pairing \<Rightarrow> string \<times> string" where
  "leader_of p = (pr_leader_device p, pr_leader_channel_type p)"

definition follower_of :: "channel_pairing \<Rightarrow> string \<times> string" where
  "follower_of p = (pr_follower_device p, pr_follower_channel_type p)"

text \<open>The nested loop over devices and their channels: the names of those that pass.\<close>

definition channels_passing :: "(binary_device \<Rightarrow> device_channel \<Rightarrow> bool) \<Rightarrow> binary_device list \<Rightarrow> (string \<times> string) list" where
  "channels_passing ok devices = concat (map (\<lambda>d. map (\<lambda>c. (dev_name d, ch_channel_type c))
     (filter (ok d) (dev_channels d))) devices)"

definition eligible_leader_channels_for :: "setup_session \<Rightarrow> mapping_strategy \<Rightarrow> nat option \<Rightarrow> (string \<times> string) list" where
  "eligible_leader_channels_for s policy except_pair_index =
     (let blocked_self = map_option follower_of (pair_at s except_pair_index)
      in channels_passing (\<lambda>d c.
           ch_enabled c \<and> ch_kind c = Robot
           \<and> (FreeDrive \<in> set (supported_modes_for s d c) \<or> CommandFollowing \<in> set (supported_modes_for s d c))
           \<and> policy_admits_leader policy c
           \<and> Some (dev_name d, ch_channel_type c) \<noteq> blocked_self) (pj_devices (wz_config s)))"

text \<open>The leader's device and channel: the first device of the name that has the channel.\<close>

fun resolve_channel :: "binary_device list \<Rightarrow> string \<times> string \<Rightarrow> (binary_device \<times> device_channel) option" where
  "resolve_channel [] n = None"
| "resolve_channel (d # ds) n =
     (case (if dev_name d = fst n then channel_named d (snd n) else None) of
        Some c \<Rightarrow> Some (d, c)
      | None \<Rightarrow> resolve_channel ds n)"

definition claimed_followers :: "channel_pairing list \<Rightarrow> nat option \<Rightarrow> (string \<times> string) set" where
  "claimed_followers pairings except_pair_index =
     set (map (\<lambda>(i, p). follower_of p) (filter (\<lambda>(i, p). Some i \<noteq> except_pair_index) (enumerate 0 pairings)))"

definition eligible_follower_channels_for :: "setup_session \<Rightarrow> mapping_strategy \<Rightarrow> (string \<times> string) option
    \<Rightarrow> nat option \<Rightarrow> (string \<times> string) list" where
  "eligible_follower_channels_for s policy leader except_pair_index =
     (let devices = pj_devices (wz_config s);
          blocked_self = map_option leader_of (pair_at s except_pair_index);
          claimed = claimed_followers (pj_pairings (wz_config s)) except_pair_index;
          leader_resolved = Option.bind leader (resolve_channel devices)
      in channels_passing (\<lambda>d c.
           ch_enabled c \<and> ch_kind c = Robot
           \<and> CommandFollowing \<in> set (supported_modes_for s d c)
           \<and> policy_admits_follower policy c
           \<and> (case leader_resolved of None \<Rightarrow> True | Some (ld, lc) \<Rightarrow> policy_pair_compatible policy ld lc d c)
           \<and> Some (dev_name d, ch_channel_type c) \<noteq> blocked_self
           \<and> (dev_name d, ch_channel_type c) \<notin> claimed) devices)"

section \<open>Building a pair\<close>

text \<open>\<open>ratio.filter(|r| r.is_finite() && *r != 0.0).unwrap_or(1.0)\<close>\<close>

definition usable_ratio :: "f64 \<Rightarrow> bool" where
  "usable_ratio r \<longleftrightarrow> is_finite r \<and> r \<noteq> Fin 0"

definition pairing_from_channels :: "binary_device list \<Rightarrow> mapping_strategy \<Rightarrow> string \<times> string \<Rightarrow> string \<times> string
    \<Rightarrow> f64 option \<Rightarrow> channel_pairing" where
  "pairing_from_channels devices policy leader follower ratio =
     (let follower_ch = Option.bind (find_by dev_name (fst follower) devices) (\<lambda>d. channel_named d (snd follower));
          follower_dof = unwrap_or (Option.bind follower_ch ch_dof) 0;
          pair = (\<lambda>state command map scales.
            \<lparr>pr_leader_device = fst leader, pr_leader_channel_type = snd leader,
             pr_follower_device = fst follower, pr_follower_channel_type = snd follower,
             pr_mapping = policy, pr_leader_state = state, pr_follower_command = command,
             pr_joint_index_map = map, pr_joint_scales = scales\<rparr>)
      in case policy of
           DirectJoint \<Rightarrow> pair SK_JointPosition CK_JointPosition (map of_nat [0..<unat follower_dof])
             (replicate (unat follower_dof) (Fin 1))
         | Cartesian \<Rightarrow> pair SK_EndEffectorPose CK_EndPose [] []
         | Parallel \<Rightarrow> pair SK_ParallelPosition
             (if (case follower_ch of None \<Rightarrow> False | Some ch \<Rightarrow> CK_ParallelMit \<in> set (ch_supported_commands ch))
              then CK_ParallelMit else CK_ParallelPosition) []
             [case ratio of None \<Rightarrow> Fin 1 | Some r \<Rightarrow> if usable_ratio r then r else Fin 1])"

definition update_named_channel :: "string \<times> string \<Rightarrow> (device_channel \<Rightarrow> device_channel)
    \<Rightarrow> binary_device list \<Rightarrow> binary_device list" where
  "update_named_channel n f = update_first (\<lambda>d. dev_name d = fst n)
     (\<lambda>d. d\<lparr>dev_channels := update_first (\<lambda>c. ch_channel_type c = snd n) f (dev_channels d)\<rparr>)"

definition ensure_channel_publishes_state :: "binary_device list \<Rightarrow> string \<times> string \<Rightarrow> robot_state_kind \<Rightarrow> binary_device list" where
  "ensure_channel_publishes_state devices n state = update_named_channel n
     (\<lambda>c. if state \<in> set (ch_publish_states c) then c
          else c\<lparr>ch_publish_states := ch_publish_states c @ [state]\<rparr>) devices"

definition default_mapping_strategy_for :: "device_channel \<Rightarrow> device_channel \<Rightarrow> mapping_strategy option" where
  "default_mapping_strategy_for leader follower =
     (if channel_supports_parallel_leader leader \<and> channel_supports_parallel_follower follower then Some Parallel
      else if channel_supports_direct_joint_leader leader \<and> channel_supports_direct_joint_follower follower
         \<and> ch_dof leader = ch_dof follower then Some DirectJoint
      else if channel_supports_cartesian_leader leader \<and> channel_supports_cartesian_follower follower
      then Some Cartesian else None)"

fun dedup_in_order :: "robot_state_kind list \<Rightarrow> robot_state_kind list \<Rightarrow> robot_state_kind list" where
  "dedup_in_order acc [] = acc"
| "dedup_in_order acc (k # ks) = dedup_in_order (if k \<in> set acc then acc else acc @ [k]) ks"

definition default_publish_states_for_meta :: "discovered_channel_meta \<Rightarrow> robot_state_kind list \<Rightarrow> robot_state_kind list" where
  "default_publish_states_for_meta meta fallback =
     (if meta_supported_states meta \<noteq> [] then dedup_in_order [] (meta_supported_states meta)
      else if meta_value_limits meta \<noteq> [] then dedup_in_order [] (map lim_state_kind (meta_value_limits meta))
      else fallback)"

section \<open>Pairs for a fresh project\<close>

definition primary_robot_channels :: "binary_device list \<Rightarrow> bool \<Rightarrow> (binary_device \<times> device_channel) list" where
  "primary_robot_channels devices end_effector_only =
     List.map_filter (\<lambda>d. map_option (\<lambda>c. (d, c)) (find (\<lambda>c. ch_kind c = Robot \<and> ch_enabled c
       \<and> (ch_dof c = Some 1) = end_effector_only) (dev_channels d))) devices"

definition pair_robot_channels_by_order :: "(binary_device \<times> device_channel) list
    \<Rightarrow> ((binary_device \<times> device_channel) \<times> (binary_device \<times> device_channel)) option" where
  "pair_robot_channels_by_order channels = (case channels of a # b # _ \<Rightarrow> Some (a, b) | _ \<Rightarrow> None)"

definition build_default_channel_pairings :: "binary_device list \<Rightarrow> channel_pairing list" where
  "build_default_channel_pairings devices = List.map_filter (\<lambda>pairs.
     case pairs of None \<Rightarrow> None
     | Some ((ld, lc), (fd, fc)) \<Rightarrow>
         (case default_mapping_strategy_for lc fc of None \<Rightarrow> None
          | Some policy \<Rightarrow>
              if policy = DirectJoint \<and> \<not> policy_pair_compatible policy ld lc fd fc then None
              else Some (pairing_from_channels devices policy (dev_name ld, ch_channel_type lc)
                (dev_name fd, ch_channel_type fc) None)))
     [pair_robot_channels_by_order (primary_robot_channels devices False),
      pair_robot_channels_by_order (primary_robot_channels devices True)]"

definition SetupSession_new :: "project_config \<Rightarrow> available_device list \<Rightarrow> string \<Rightarrow> bool \<Rightarrow> string list \<Rightarrow> setup_session" where
  "SetupSession_new config available_devices output_path resume_mode warnings =
     \<lparr>wz_config = config, wz_available = available_devices,
      wz_pairing_cache = (if pj_pairings config = [] then build_default_channel_pairings (pj_devices config)
        else pj_pairings config),
      wz_identify = None, wz_subpanel = None,
      wz_step = (if resume_mode then StepPreview else StepDevices),
      wz_output_path = output_path, wz_resume_mode = resume_mode, wz_warnings = warnings,
      wz_message = None, wz_status = StatusEditing, wz_completed_at = None, wz_exit_kind = None\<rparr>"

section \<open>Operations on pairs\<close>

record teleop_pair_create =
  tpc_policy :: mapping_strategy
  tpc_leader :: "string \<times> string"
  tpc_follower :: "string \<times> string"
  tpc_ratio :: "f64 option"

text \<open>The follower's channel is put into command following, in the project and in the row of the
  available devices whose name is the name of the project's device.\<close>

definition promote :: "device_channel \<Rightarrow> device_channel" where
  "promote c = (if ch_kind c = Robot then c\<lparr>ch_mode := Some CommandFollowing\<rparr> else c)"

definition promote_follower_channel_to_command_following :: "setup_session \<Rightarrow> string \<times> string \<Rightarrow> setup_session" where
  "promote_follower_channel_to_command_following s n =
     update_available (fst n) (\<lambda>a. on_first_channel
       (\<lambda>c. if ch_channel_type c = snd n \<and> CommandFollowing \<in> set (avd_supported_modes a) then promote c else c) a)
       (update_config (\<lambda>c. c\<lparr>pj_devices := update_named_channel n promote (pj_devices c)\<rparr>) s)"

definition published_states_of :: "project_config \<Rightarrow> string \<times> string \<Rightarrow> robot_state_kind list option" where
  "published_states_of config n = map_option ch_publish_states
     (Option.bind (device_named config (fst n)) (\<lambda>d. channel_named d (snd n)))"

definition switch_mapping :: "setup_session \<Rightarrow> nat \<Rightarrow> channel_pairing \<Rightarrow> mapping_strategy \<Rightarrow> setup_session" where
  "switch_mapping s index snapshot policy =
     (let leader = leader_of snapshot;
          new_pair = pairing_from_channels (pj_devices (wz_config s)) policy leader (follower_of snapshot) None
      in update_config (\<lambda>c. c\<lparr>pj_pairings := (pj_pairings c)[index := new_pair],
           pj_devices := ensure_channel_publishes_state (pj_devices c) leader (pr_leader_state new_pair)\<rparr>) s)"

definition restore_mapping :: "nat \<Rightarrow> channel_pairing \<Rightarrow> robot_state_kind list option \<Rightarrow> setup_session \<Rightarrow> setup_session" where
  "restore_mapping index snapshot states = update_config (\<lambda>c. c\<lparr>pj_pairings := (pj_pairings c)[index := snapshot],
     pj_devices := (case states of None \<Rightarrow> pj_devices c
       | Some ks \<Rightarrow> update_named_channel (leader_of snapshot) (\<lambda>ch. ch\<lparr>ch_publish_states := ks\<rparr>) (pj_devices c))\<rparr>)"

definition next_mapping :: "mapping_strategy \<Rightarrow> int \<Rightarrow> mapping_strategy" where
  "next_mapping current delta =
     (let options = [DirectJoint, Cartesian, Parallel];
          current_index = (case position (\<lambda>m. m = current) options of Some i \<Rightarrow> i | None \<Rightarrow> 0)
      in options ! rotate_index current_index (length options) delta)"

definition cycle_pair_mapping :: "setup_session \<Rightarrow> nat \<Rightarrow> int \<Rightarrow> bool edit" where
  "cycle_pair_mapping s index delta =
     (case pair_at s (Some index) of
        None \<Rightarrow> (s, Ok False)
      | Some snapshot \<Rightarrow>
          let policy = next_mapping (pr_mapping snapshot) delta;
              states = published_states_of (wz_config s) (leader_of snapshot);
              s1 = switch_mapping s index snapshot policy
          in if policy = pr_mapping snapshot then (s, Ok False)
             else validated_or s1
               (\<lambda>e. (cached (restore_mapping index snapshot states s1))\<lparr>wz_message := Some (CannotSwitch policy e)\<rparr>)
               (\<lambda>s. (cached s, Ok True)) False)"

text \<open>The three nested loops of \<open>pick_default_pair_endpoints\<close>: the first pair with two ends.\<close>

definition default_candidates :: "setup_session \<Rightarrow> teleop_pair_create list" where
  "default_candidates s = concat (map (\<lambda>policy. concat (map (\<lambda>leader.
       map (\<lambda>follower. \<lparr>tpc_policy = policy, tpc_leader = leader, tpc_follower = follower,
              tpc_ratio = (if policy = Parallel then Some (Fin 1) else None)\<rparr>)
         (filter (\<lambda>follower. leader \<noteq> follower) (eligible_follower_channels_for s policy (Some leader) None)))
       (eligible_leader_channels_for s policy None))) [Parallel, DirectJoint, Cartesian])"

definition pick_default_pair_endpoints :: "setup_session \<Rightarrow> setup_session \<times> teleop_pair_create option" where
  "pick_default_pair_endpoints s =
     (case default_candidates s of
        c # _ \<Rightarrow> (s, Some c)
      | [] \<Rightarrow> (s\<lparr>wz_message := Some NoEligiblePair\<rparr>, None))"

definition push_pairing :: "setup_session \<Rightarrow> teleop_pair_create \<Rightarrow> setup_session" where
  "push_pairing s t =
     (let pair = pairing_from_channels (pj_devices (wz_config s)) (tpc_policy t) (tpc_leader t) (tpc_follower t) (tpc_ratio t)
      in cached (promote_follower_channel_to_command_following
           (update_config (\<lambda>c. c\<lparr>pj_pairings := pj_pairings c @ [pair],
              pj_devices := ensure_channel_publishes_state (pj_devices c) (tpc_leader t) (pr_leader_state pair)\<rparr>) s)
           (tpc_follower t)))"

definition create_pairing_from :: "setup_session \<Rightarrow> teleop_pair_create \<Rightarrow> nat option edit" where
  "create_pairing_from s t =
     (if tpc_leader t \<notin> set (eligible_leader_channels_for s (tpc_policy t) None)
      then (s\<lparr>wz_message := Some (NotEligible EndpointLeader (fst (tpc_leader t)) (snd (tpc_leader t)) (tpc_policy t))\<rparr>, Ok None)
      else if tpc_follower t \<notin> set (eligible_follower_channels_for s (tpc_policy t) (Some (tpc_leader t)) None)
      then (s\<lparr>wz_message := Some (NotEligible EndpointFollower (fst (tpc_follower t)) (snd (tpc_follower t)) (tpc_policy t))\<rparr>, Ok None)
      else if tpc_leader t = tpc_follower t
      then (s\<lparr>wz_message := Some EndpointsMustDiffer\<rparr>, Ok None)
      else validated_or (push_pairing s t)
        (\<lambda>e. let s1 = push_pairing s t in
           (cached (update_config (\<lambda>c. c\<lparr>pj_pairings := butlast (pj_pairings c)\<rparr>) s1))
             \<lparr>wz_message := Some (CouldNotCreate e)\<rparr>)
        (\<lambda>s. (s, Ok (Some (length (pj_pairings (wz_config s)) - 1)))) None)"

definition create_pairing :: "setup_session \<Rightarrow> teleop_pair_create option \<Rightarrow> nat option edit" where
  "create_pairing s explicit =
     (case explicit of
        Some t \<Rightarrow> create_pairing_from s t
      | None \<Rightarrow> (case pick_default_pair_endpoints s of
            (s', None) \<Rightarrow> (s', Ok None)
          | (s', Some t) \<Rightarrow> create_pairing_from s' t))"

definition remove_pairing :: "setup_session \<Rightarrow> nat \<Rightarrow> bool edit" where
  "remove_pairing s index =
     (if index \<ge> length (pj_pairings (wz_config s)) then (s, Ok False)
      else revalidated (cached (update_config (\<lambda>c. c\<lparr>pj_pairings := remove_nth index (pj_pairings c)\<rparr>) s)))"

definition set_pairing_endpoint :: "setup_session \<Rightarrow> nat \<Rightarrow> pairing_endpoint \<Rightarrow> string \<times> string \<Rightarrow> bool edit" where
  "set_pairing_endpoint s index endpoint target =
     (case pair_at s (Some index) of
        None \<Rightarrow> (s, Ok False)
      | Some pair \<Rightarrow>
          let policy = pr_mapping pair;
              snapshot_ratio = (if policy = Parallel
                then (case pr_joint_scales pair of [] \<Rightarrow> None | r # _ \<Rightarrow> Some r) else None);
              eligible = (case endpoint of
                  EndpointLeader \<Rightarrow> eligible_leader_channels_for s policy (Some index)
                | EndpointFollower \<Rightarrow> eligible_follower_channels_for s policy (Some (leader_of pair)) (Some index))
          in if target \<notin> set eligible
             then refuse s (NotEligible endpoint (fst target) (snd target) policy)
             else let leader = (if endpoint = EndpointLeader then target else leader_of pair);
                      follower = (if endpoint = EndpointFollower then target else follower_of pair);
                      rebuilt = pairing_from_channels (pj_devices (wz_config s)) policy leader follower snapshot_ratio
                  in revalidated (cached (promote_follower_channel_to_command_following
                       (update_config (\<lambda>c. c\<lparr>pj_pairings := (pj_pairings c)[index := rebuilt],
                          pj_devices := ensure_channel_publishes_state (pj_devices c) leader (pr_leader_state rebuilt)\<rparr>) s)
                       follower)))"

definition set_pairing_ratio :: "setup_session \<Rightarrow> nat \<Rightarrow> f64 \<Rightarrow> bool edit" where
  "set_pairing_ratio s index ratio =
     (case pair_at s (Some index) of
        None \<Rightarrow> (s, Ok False)
      | Some pair \<Rightarrow>
          if pr_mapping pair \<noteq> Parallel then refuse s (NoRatio pair)
          else if \<not> usable_ratio ratio then refuse s (BadRatio ratio)
          else let put = (\<lambda>scales. update_config (\<lambda>c. c\<lparr>pj_pairings :=
                     (pj_pairings c)[index := (pj_pairings c ! index)\<lparr>pr_joint_scales := scales\<rparr>]\<rparr>)) in
            validated_or (put [ratio] s)
              (\<lambda>e. (put (pr_joint_scales pair) (put [ratio] s))\<lparr>wz_message := Some (CannotApplyRatio e)\<rparr>)
              (\<lambda>s. (cached s, Ok True)) False)"

section \<open>Eligible pairs are valid\<close>

lemma channels_passing_iff:
  "n \<in> set (channels_passing ok ds) \<longleftrightarrow>
     (\<exists>d \<in> set ds. \<exists>c \<in> set (dev_channels d). ok d c \<and> n = (dev_name d, ch_channel_type c))"
  by (auto simp: channels_passing_def)

text \<open>In a valid project a name is that of one channel.\<close>

lemma project_channel:
  assumes "project_ok config" "d \<in> set (pj_devices config)" "c \<in> set (dev_channels d)"
  shows "device_named config (dev_name d) = Some d" "channel_named d (ch_channel_type c) = Some c"
    "is_ok (device_validate d)"
proof -
  show "device_named config (dev_name d) = Some d" using assms(1,2) by (rule devices.lookup_complete)
  show ok: "is_ok (device_validate d)" by (rule project_ok_devices(4) [OF assms(1,2)])
  show "channel_named d (ch_channel_type c) = Some c" using ok assms(3) by (rule channels.lookup_complete)
qed

lemma eligible_leaderD:
  assumes "project_ok (wz_config s)" and "n \<in> set (eligible_leader_channels_for s policy except)"
  obtains d c where "d \<in> set (pj_devices (wz_config s))" "c \<in> set (dev_channels d)"
    "n = (dev_name d, ch_channel_type c)" "device_named (wz_config s) (fst n) = Some d"
    "channel_named d (snd n) = Some c" "ch_enabled c" "ch_kind c = Robot" "policy_admits_leader policy c"
proof -
  from assms(2) obtain d c where d: "d \<in> set (pj_devices (wz_config s))" "c \<in> set (dev_channels d)"
    and n: "n = (dev_name d, ch_channel_type c)" and ok: "ch_enabled c" "ch_kind c = Robot" "policy_admits_leader policy c"
    unfolding eligible_leader_channels_for_def Let_def channels_passing_iff by blast
  from that [OF d n] project_channel [OF assms(1) d] n ok show ?thesis by simp
qed

lemma resolve_channel_named:
  assumes "find_by dev_name (fst n) ds = Some d" "channel_named d (snd n) = Some c"
  shows "resolve_channel ds n = Some (d, c)"
  using assms(1)
proof (induction ds)
  case (Cons x xs)
  then show ?case using assms(2) by (cases "dev_name x = fst n") auto
qed simp

lemma eligible_followerD:
  assumes "project_ok (wz_config s)" and "n \<in> set (eligible_follower_channels_for s policy leader except)"
  obtains d c where "d \<in> set (pj_devices (wz_config s))" "c \<in> set (dev_channels d)"
    "n = (dev_name d, ch_channel_type c)" "device_named (wz_config s) (fst n) = Some d"
    "channel_named d (snd n) = Some c" "ch_enabled c" "ch_kind c = Robot" "policy_admits_follower policy c"
    "\<And>l ld lc. leader = Some l \<Longrightarrow> device_named (wz_config s) (fst l) = Some ld \<Longrightarrow> channel_named ld (snd l) = Some lc
       \<Longrightarrow> policy_pair_compatible policy ld lc d c"
proof -
  from assms(2) obtain d c where d: "d \<in> set (pj_devices (wz_config s))" "c \<in> set (dev_channels d)"
    and n: "n = (dev_name d, ch_channel_type c)" and ok: "ch_enabled c" "ch_kind c = Robot" "policy_admits_follower policy c"
    and pair: "case Option.bind leader (resolve_channel (pj_devices (wz_config s))) of None \<Rightarrow> True
       | Some (ld, lc) \<Rightarrow> policy_pair_compatible policy ld lc d c"
    unfolding eligible_follower_channels_for_def Let_def channels_passing_iff by blast
  have "policy_pair_compatible policy ld lc d c"
    if "leader = Some l" "device_named (wz_config s) (fst l) = Some ld" "channel_named ld (snd l) = Some lc" for l ld lc
    using pair resolve_channel_named [of l "pj_devices (wz_config s)" ld lc] that by (simp add: device_named_def)
  with that [OF d n] project_channel [OF assms(1) d] n ok show ?thesis by simp
qed

lemma identity_index_map:
  "length (map (of_nat :: nat \<Rightarrow> u32) [0..<unat dof]) = unat dof"
  "\<forall>j \<in> set (map (of_nat :: nat \<Rightarrow> u32) [0..<unat (dof :: u32)]). j < dof"
proof -
  have "unat (of_nat k :: u32) = k" if "k < unat dof" for k
    using that unsigned_less [of dof, where ?'a = nat] by (simp add: unat_of_nat take_bit_nat_eq_self)
  then show "\<forall>j \<in> set (map (of_nat :: nat \<Rightarrow> u32) [0..<unat dof]). j < dof"
    by (auto simp: word_less_nat_alt)
qed simp

text \<open>The pair built from two channels the policy admits is one the project validator accepts.\<close>

lemma admitted_pair_valid:
  assumes "device_named config (fst l) = Some ld" "channel_named ld (snd l) = Some lc"
    and "device_named config (fst f) = Some fd" "channel_named fd (snd f) = Some fc"
    and "ch_kind lc = Robot" "ch_kind fc = Robot" "l \<noteq> f"
    and "policy_admits_leader policy lc" "policy_admits_follower policy fc"
    and "policy_pair_compatible policy ld lc fd fc"
    and "ch_channel_type fc = snd f" "ch_channel_type lc = snd l"
  shows "is_ok (pairing_validate (pairing_from_channels (pj_devices config) policy l f ratio) config)"
proof -
  have f: "Option.bind (find_by dev_name (fst f) (pj_devices config)) (\<lambda>d. channel_named d (snd f)) = Some fc"
    using assms(3,4) by (simp add: device_named_def)
  have differ: "\<not> (fst l = fst f \<and> snd l = snd f)" using assms(7) by (simp add: prod_eq_iff)
  show ?thesis
  proof (cases policy)
    case DirectJoint
    from assms(8-10) obtain dof where dof: "ch_dof lc = Some dof" "ch_dof fc = Some dof" "dof > 0"
      and peers: "peer_listed (compat_can_lead (ch_direct_joint_compatibility lc)) (dev_driver fd) (ch_channel_type fc)"
        "peer_listed (compat_can_follow (ch_direct_joint_compatibility fc)) (dev_driver ld) (ch_channel_type lc)"
      and pub: "SK_JointPosition \<in> set (ch_publish_states lc)" "CK_JointPosition \<in> set (ch_supported_commands fc)"
      by (auto simp: DirectJoint policy_pair_compatible_def channel_supports_direct_joint_leader_def
          channel_supports_direct_joint_follower_def some_positive_def split: if_splits option.splits)
    show ?thesis
      using assms(1-6) differ f dof peers pub identity_index_map [of dof]
      by (simp add: pairing_validate_def pairing_from_channels_def DirectJoint ok_iff direct_joint_validate_def
          is_ok_dof_and_index_map lacks_commands_def require_direct_joint_compatibility_def list_ex_iff word_gt_0)
  next
    case Cartesian
    with assms differ f show ?thesis
      by (auto simp: pairing_validate_def pairing_from_channels_def ok_iff cartesian_validate_def lacks_commands_def
          channel_supports_cartesian_leader_def channel_supports_cartesian_follower_def)
  next
    case Parallel
    with assms differ f show ?thesis
      by (auto simp: pairing_validate_def pairing_from_channels_def ok_iff parallel_validate_def lacks_commands_def
          channel_supports_parallel_leader_def channel_supports_parallel_follower_def usable_ratio_def
          split: option.split)
  qed
qed

lemma published_leader_unchanged:
  assumes "project_ok config" "device_named config (fst n) = Some d" "channel_named d (snd n) = Some c"
    and "k \<in> set (ch_publish_states c)"
  shows "ensure_channel_publishes_state (pj_devices config) n k = pj_devices config"
proof -
  have "update_first (\<lambda>c. ch_channel_type c = snd n)
      (\<lambda>c. if k \<in> set (ch_publish_states c) then c else c\<lparr>ch_publish_states := ch_publish_states c @ [k]\<rparr>) (dev_channels d)
    = dev_channels d"
    by (rule update_first_id [of _ _ c]) (use assms(3,4) in \<open>simp_all add: channel_named_def find_by_def\<close>)
  then show ?thesis
    unfolding ensure_channel_publishes_state_def update_named_channel_def
    by (intro update_first_id [of _ _ d]) (use assms(2) in \<open>simp_all add: device_named_def find_by_def\<close>)
qed

lemma admitted_leader_publishes:
  "policy_admits_leader policy c \<Longrightarrow> pr_leader_state (pairing_from_channels ds policy l f r) \<in> set (ch_publish_states c)"
  by (cases policy) (simp_all add: pairing_from_channels_def Let_def channel_supports_direct_joint_leader_def
      channel_supports_cartesian_leader_def channel_supports_parallel_leader_def)

section \<open>Promoting the follower keeps the project valid\<close>

lemma map_update_named_channel:
  assumes "\<And>c. chan_view (g c) = chan_view c"
  shows "map dev_view (update_named_channel n g ds) = map dev_view ds"
  unfolding update_named_channel_def
  by (rule map_update_first) (simp add: dev_view_def map_update_first [where g = chan_view, OF assms])

lemma promote_view: "chan_view (promote c) = chan_view c"
  by (simp add: promote_def chan_view_def)

lemma promote_valid: "is_ok (channel_validate c d) \<Longrightarrow> is_ok (channel_validate (promote c) d)"
  by (auto simp: promote_def is_ok_channel_validate is_ok_robot_channel_validate)

lemma promoted_devices_valid:
  assumes "\<forall>d \<in> set ds. is_ok (device_validate d)" and "d \<in> set (update_named_channel n promote ds)"
  shows "is_ok (device_validate d)"
proof -
  from set_update_first [OF assms(2) [unfolded update_named_channel_def]] consider "d \<in> set ds"
    | x where "x \<in> set ds" "d = x\<lparr>dev_channels := update_first (\<lambda>c. ch_channel_type c = snd n) promote (dev_channels x)\<rparr>"
    by blast
  then show ?thesis
  proof cases
    case 1
    with assms(1) show ?thesis by simp
  next
    case (2 x)
    with assms(1) have ok: "is_ok (device_validate x)" by simp
    have types: "map ch_channel_type (update_first P promote cs) = map ch_channel_type cs" for P cs
      by (rule map_update_first) (simp add: promote_def)
    show ?thesis unfolding 2(2)
    proof (rule device_validate_channels [OF ok types], intro ballI)
      fix c assume "c \<in> set (update_first (\<lambda>c. ch_channel_type c = snd n) promote (dev_channels x))"
      from set_update_first [OF this] ok promote_valid show "is_ok (channel_validate c x)"
        by (auto simp: is_ok_device_validate)
    qed
  qed
qed

lemma promote_follower_config [simp]:
  "wz_config (promote_follower_channel_to_command_following s n)
    = (wz_config s)\<lparr>pj_devices := update_named_channel n promote (pj_devices (wz_config s))\<rparr>"
  by (simp add: promote_follower_channel_to_command_following_def update_available_def update_config_def)

lemma cached_config [simp]: "wz_config (cached s) = wz_config s"
  by (simp add: cached_def)

lemma update_config_config [simp]: "wz_config (update_config f s) = f (wz_config s)"
  by (simp add: update_config_def)

text \<open>What pushing an eligible pair makes of a valid project.\<close>

lemma push_eligible:
  assumes ok: "project_ok (wz_config s)"
    and l: "tpc_leader t \<in> set (eligible_leader_channels_for s (tpc_policy t) None)"
    and f: "tpc_follower t \<in> set (eligible_follower_channels_for s (tpc_policy t) (Some (tpc_leader t)) None)"
    and differ: "tpc_leader t \<noteq> tpc_follower t"
  shows "project_ok (wz_config (push_pairing s t))"
    and "pj_pairings (wz_config (push_pairing s t)) = pj_pairings (wz_config s)
      @ [pairing_from_channels (pj_devices (wz_config s)) (tpc_policy t) (tpc_leader t) (tpc_follower t) (tpc_ratio t)]"
    and "map dev_view (pj_devices (wz_config (push_pairing s t))) = map dev_view (pj_devices (wz_config s))"
proof -
  let ?c = "wz_config s"
  let ?pair = "pairing_from_channels (pj_devices ?c) (tpc_policy t) (tpc_leader t) (tpc_follower t) (tpc_ratio t)"
  let ?ds = "update_named_channel (tpc_follower t) promote (pj_devices ?c)"
  from eligible_leaderD [OF ok l] obtain ld lc where leader: "tpc_leader t = (dev_name ld, ch_channel_type lc)"
    "device_named ?c (fst (tpc_leader t)) = Some ld" "channel_named ld (snd (tpc_leader t)) = Some lc"
    "ch_kind lc = Robot" "policy_admits_leader (tpc_policy t) lc" by blast
  from eligible_followerD [OF ok f] obtain fd fc where follower: "tpc_follower t = (dev_name fd, ch_channel_type fc)"
    "device_named ?c (fst (tpc_follower t)) = Some fd" "channel_named fd (snd (tpc_follower t)) = Some fc"
    "ch_kind fc = Robot" "policy_admits_follower (tpc_policy t) fc"
    "policy_pair_compatible (tpc_policy t) ld lc fd fc" using leader by metis
  have valid: "is_ok (pairing_validate ?pair ?c)"
    by (rule admitted_pair_valid [OF leader(2,3) follower(2,3) leader(4) follower(4) differ leader(5) follower(5,6)])
      (simp_all add: leader(1) follower(1))
  have published: "ensure_channel_publishes_state (pj_devices ?c) (tpc_leader t) (pr_leader_state ?pair) = pj_devices ?c"
    by (rule published_leader_unchanged [OF ok leader(2,3)]) (rule admitted_leader_publishes [OF leader(5)])
  have config: "wz_config (push_pairing s t) = ?c\<lparr>pj_devices := ?ds, pj_pairings := pj_pairings ?c @ [?pair]\<rparr>"
    by (simp add: push_pairing_def Let_def published)
  show "project_ok (wz_config (push_pairing s t))"
    unfolding config
  proof (rule project_ok_edit [OF ok map_update_named_channel [OF promote_view]])
    show "\<forall>d \<in> set ?ds. is_ok (device_validate d)"
      using promoted_devices_valid project_ok_devices [OF ok] by blast
    show "\<forall>p \<in> set (pj_pairings ?c @ [?pair]). is_ok (pairing_validate p ?c)"
      using valid project_ok_pairing [OF ok] by auto
  qed
  show "pj_pairings (wz_config (push_pairing s t)) = pj_pairings ?c @ [?pair]"
    "map dev_view (pj_devices (wz_config (push_pairing s t))) = map dev_view (pj_devices ?c)"
    by (simp_all add: config map_update_named_channel [OF promote_view])
qed

end
