(* ===== verification/Setup_Devices.thy ===== *)
theory Setup_Devices
  imports Setup_Session "HOL-Library.Char_ord" "HOL-Library.List_Lexorder"
begin

text \<open>
  The devices step of the setup wizard, \<^verbatim>\<open>controller/src/setup/devices.rs\<close>: naming, selecting and
  deselecting a row, cycling its camera profile or robot mode, and the published and recorded
  states. A change is written to the project and to the snapshot of the row the terminal shows.
\<close>

definition edit_then :: "bool edit \<Rightarrow> (setup_session \<Rightarrow> setup_session) \<Rightarrow> bool edit" where
  "edit_then r f = (case r of (s, Ok b) \<Rightarrow> (f s, Ok b) | (s, Err e) \<Rightarrow> (s, Err e))"

definition set_device_name :: "setup_session \<Rightarrow> string \<Rightarrow> string \<Rightarrow> bool edit" where
  "set_device_name s name value = with_index s (selected_device_index s name) (\<lambda>i j.
     let trimmed = trim value;
         duplicate_name = list_ex (\<lambda>a. avd_name a \<noteq> name
           \<and> (case dev_channels (avd_current a) of [] \<Rightarrow> False | ch # _ \<Rightarrow> ch_name ch = Some trimmed)) (wz_available s)
     in if trimmed = [] then refuse s (EmptyValue ''Channel name'')
        else if duplicate_name then refuse s (NameInUse trimmed)
        else if ch_name (channel_at s i j) = Some trimmed then (s, Ok False)
        else revalidated (update_available name (on_first_channel (\<lambda>c. c\<lparr>ch_name := Some trimmed\<rparr>))
               (update_channel i j (\<lambda>c. c\<lparr>ch_name := Some trimmed\<rparr>) s)))"

definition camera_channel_type_for_profile :: "camera_profile \<Rightarrow> string" where
  "camera_channel_type_for_profile p =
     (let base = unwrap_or (cp_stream p) ''color''
      in case cp_channel p of Some ch \<Rightarrow> if ch > 0 then base @ ''_'' @ show_nat (unat ch) else base | None \<Rightarrow> base)"

definition same_profile :: "camera_channel_profile \<Rightarrow> camera_profile \<Rightarrow> bool" where
  "same_profile p q \<longleftrightarrow> prof_width p = cp_width q \<and> prof_height p = cp_height q \<and> prof_fps p = cp_fps q
     \<and> prof_pixel_format p = cp_pixel_format q \<and> prof_native_pixel_format p = cp_native_pixel_format q"

definition channel_profile_of :: "camera_profile \<Rightarrow> camera_channel_profile" where
  "channel_profile_of p = \<lparr>prof_width = cp_width p, prof_height = cp_height p, prof_fps = cp_fps p,
     prof_pixel_format = cp_pixel_format p, prof_native_pixel_format = cp_native_pixel_format p,
     prof_mjpeg_quality = None, prof_h264_bitrate_bps = None, prof_h264_gop = None,
     prof_h264_preset = None, prof_h264_tune = None, prof_h264_profile = None\<rparr>"

text \<open>Both cycling operations replace the project's channel by the row's snapshot and do not
  validate.\<close>

definition put_snapshot :: "setup_session \<Rightarrow> string \<Rightarrow> nat \<Rightarrow> nat \<Rightarrow> device_channel \<Rightarrow> bool edit" where
  "put_snapshot s name i j ch =
     (update_channel i j (\<lambda>_. ch) (update_available name (on_first_channel (\<lambda>_. ch)) s), Ok True)"

definition cycle_device_profile :: "setup_session \<Rightarrow> string \<Rightarrow> int \<Rightarrow> bool edit" where
  "cycle_device_profile s name delta = with_index s (selected_device_index s name) (\<lambda>i j.
     case available_named s name of
       None \<Rightarrow> (s, Ok False)
     | Some a \<Rightarrow>
         if avd_camera_profiles a = [] then (s, Ok False)
         else case dev_channels (avd_current a) of
             [] \<Rightarrow> (s, Ok False)
           | ch # _ \<Rightarrow>
               if ch_kind ch \<noteq> Camera then (s, Ok False)
               else let profiles = avd_camera_profiles a;
                        current = (case position (\<lambda>p. (case ch_profile ch of None \<Rightarrow> False | Some q \<Rightarrow> same_profile q p)
                            \<and> camera_channel_type_for_profile p = ch_channel_type ch) profiles of Some k \<Rightarrow> k | None \<Rightarrow> 0);
                        profile = profiles ! rotate_index current (length profiles) delta
                    in put_snapshot s name i j (ch\<lparr>ch_channel_type := camera_channel_type_for_profile profile,
                         ch_profile := Some (channel_profile_of profile)\<rparr>))"

definition wizard_selectable_modes :: "robot_mode list \<Rightarrow> robot_mode list" where
  "wizard_selectable_modes supported_modes = filter (\<lambda>m. m \<in> set supported_modes) [FreeDrive, CommandFollowing]"

definition select_supported_mode :: "robot_mode list \<Rightarrow> robot_mode \<Rightarrow> robot_mode" where
  "select_supported_mode supported_modes preferred =
     (let selectable = wizard_selectable_modes supported_modes
      in if preferred \<in> set selectable then preferred
         else case selectable of
             m # _ \<Rightarrow> m
           | [] \<Rightarrow> if preferred \<in> set supported_modes then preferred
                  else (case supported_modes of [] \<Rightarrow> FreeDrive | m # _ \<Rightarrow> m))"

definition cycle_robot_mode :: "setup_session \<Rightarrow> string \<Rightarrow> int \<Rightarrow> bool edit" where
  "cycle_robot_mode s name delta = with_index s (selected_device_index s name) (\<lambda>i j.
     case available_named s name of
       None \<Rightarrow> (s, Ok False)
     | Some a \<Rightarrow>
         let selectable = wizard_selectable_modes (avd_supported_modes a)
         in if selectable = [] then (s, Ok False)
            else case dev_channels (avd_current a) of
                [] \<Rightarrow> (s, Ok False)
              | ch # _ \<Rightarrow>
                  if ch_kind ch \<noteq> Robot then (s, Ok False)
                  else let current = (case Option.bind (ch_mode ch) (\<lambda>m. position (\<lambda>c. c = m) selectable) of
                               Some k \<Rightarrow> k | None \<Rightarrow> 0)
                       in put_snapshot s name i j
                            (ch\<lparr>ch_mode := Some (selectable ! rotate_index current (length selectable) delta)\<rparr>))"

definition build_selected_device_from_available :: "setup_session \<Rightarrow> string \<Rightarrow> binary_device option" where
  "build_selected_device_from_available s name =
     Option.bind (available_named s name) (\<lambda>target.
     case dev_channels (avd_current target) of
       [] \<Rightarrow> None
     | first # _ \<Rightarrow>
         let rows = filter (\<lambda>a. avd_driver a = avd_driver target \<and> avd_id a = avd_id target) (wz_available s);
             channels = sort_key ch_channel_type (List.map_filter (\<lambda>a. case dev_channels (avd_current a) of
               [] \<Rightarrow> None | c # _ \<Rightarrow> Some c) rows)
         in Some ((avd_current target)\<lparr>dev_channels :=
              map (\<lambda>c. c\<lparr>ch_enabled := (ch_channel_type c = ch_channel_type first)\<rparr>) channels\<rparr>))"

definition deselect :: "setup_session \<Rightarrow> string \<Rightarrow> nat \<Rightarrow> nat \<Rightarrow> bool edit" where
  "deselect s name i j =
     (let enabled_channels = length (filter ch_enabled (dev_channels (pj_devices (wz_config s) ! i)));
          s1 = (if enabled_channels \<le> 1
                then update_config (\<lambda>c. c\<lparr>pj_devices := remove_nth i (pj_devices c)\<rparr>) s
                else update_channel i j (\<lambda>c. c\<lparr>ch_enabled := False\<rparr>) s);
          s2 = (if wz_identify s1 = Some name then fst (clear_identify_state s1) else s1)
      in revalidated (prune_invalid_pairings s2))"

definition toggle_device_selection :: "setup_session \<Rightarrow> string \<Rightarrow> bool edit" where
  "toggle_device_selection s name =
     (case selected_device_index s name of
        Err e \<Rightarrow> (s, Err e)
      | Ok (Some (i, j)) \<Rightarrow> deselect s name i j
      | Ok None \<Rightarrow>
          (case available_named s name of
             None \<Rightarrow> (s, Ok False)
           | Some a \<Rightarrow>
               (case configured_device_channel_index s name of
                  Err e \<Rightarrow> (s, Err e)
                | Ok (Some (i, j)) \<Rightarrow> revalidated (prune_invalid_pairings
                    (update_channel i j (\<lambda>_. (hd (dev_channels (avd_current a)))\<lparr>ch_enabled := True\<rparr>) s))
                | Ok None \<Rightarrow>
                    (case build_selected_device_from_available s name of
                       Some device \<Rightarrow> revalidated (prune_invalid_pairings
                         (update_config (\<lambda>c. c\<lparr>pj_devices := pj_devices c @ [device]\<rparr>) s))
                     | None \<Rightarrow> (s, Ok False)))))"

definition sync_available_channel_state_lists :: "string \<Rightarrow> nat \<Rightarrow> nat \<Rightarrow> setup_session \<Rightarrow> setup_session" where
  "sync_available_channel_state_lists name i j s =
     (let ch = channel_at s i j
      in update_available name (on_first_channel (\<lambda>c. c\<lparr>ch_publish_states := ch_publish_states ch,
           ch_recorded_states := ch_recorded_states ch\<rparr>)) s)"

definition toggle_publish_state :: "setup_session \<Rightarrow> string \<Rightarrow> robot_state_kind \<Rightarrow> bool edit" where
  "toggle_publish_state s name state_kind = with_index s (selected_device_index s name) (\<lambda>i j.
     let channel = channel_at s i j;
         device_name = dev_name (pj_devices (wz_config s) ! i);
         supported_states = (case available_named s name of None \<Rightarrow> [] | Some a \<Rightarrow> avd_supported_states a);
         finish = (\<lambda>s. cached (sync_available_channel_state_lists name i j s))
     in if ch_kind channel \<noteq> Robot then (s, Ok False)
        else if state_kind \<in> set (ch_publish_states channel)
        then (case find (\<lambda>p. pr_leader_device p = device_name \<and> pr_leader_channel_type p = ch_channel_type channel
                \<and> pr_leader_state p = state_kind) (pj_pairings (wz_config s)) of
            Some p \<Rightarrow> refuse s (StateNeeded state_kind (pr_leader_device p) (pr_leader_channel_type p))
          | None \<Rightarrow> edit_then (revalidated (update_channel i j (\<lambda>c. c\<lparr>ch_publish_states := filter (\<lambda>k. k \<noteq> state_kind) (ch_publish_states c),
              ch_recorded_states := filter (\<lambda>k. k \<noteq> state_kind) (ch_recorded_states c)\<rparr>) s)) finish)
        else if supported_states \<noteq> [] \<and> state_kind \<notin> set supported_states
        then refuse s (StateUnsupported state_kind)
        else edit_then (revalidated (update_channel i j
               (\<lambda>c. c\<lparr>ch_publish_states := ch_publish_states c @ [state_kind]\<rparr>) s)) finish)"

definition toggle_recorded_state :: "setup_session \<Rightarrow> string \<Rightarrow> robot_state_kind \<Rightarrow> bool edit" where
  "toggle_recorded_state s name state_kind = with_index s (selected_device_index s name) (\<lambda>i j.
     let channel = channel_at s i j;
         finish = sync_available_channel_state_lists name i j
     in if ch_kind channel \<noteq> Robot then (s, Ok False)
        else if state_kind \<in> set (ch_recorded_states channel)
        then edit_then (revalidated (update_channel i j
               (\<lambda>c. c\<lparr>ch_recorded_states := filter (\<lambda>k. k \<noteq> state_kind) (ch_recorded_states c)\<rparr>) s)) finish
        else if state_kind \<notin> set (ch_publish_states channel) then refuse s (StateUnpublished state_kind)
        else edit_then (revalidated (update_channel i j
               (\<lambda>c. c\<lparr>ch_recorded_states := ch_recorded_states c @ [state_kind]\<rparr>) s)) finish)"

end
