(* ===== verification/Setup_Settings.thy ===== *)
theory Setup_Settings
  imports Setup_Session
begin

text \<open>
  The settings step of the setup wizard, \<^verbatim>\<open>controller/src/setup/settings.rs\<close>: three fields that
  cycle through their options and the text fields. A setter trims and parses what was typed,
  refuses it with a message, leaves the project alone when the value is already there, or assigns
  it and validates the whole project. Most setters return the validator's error to the caller;
  some put the previous value back.
\<close>

section \<open>The shapes of the setters\<close>

definition set_nonempty :: "string \<Rightarrow> (project_config \<Rightarrow> string option) \<Rightarrow> (string \<Rightarrow> project_config \<Rightarrow> project_config)
    \<Rightarrow> setup_session \<Rightarrow> string \<Rightarrow> bool edit" where
  "set_nonempty label current put s value =
     (let trimmed = trim value
      in if trimmed = [] then refuse s (EmptyValue label)
         else if current (wz_config s) = Some trimmed then (s, Ok False)
         else revalidated (update_config (put trimmed) s))"

definition set_parsed :: "string \<Rightarrow> (string \<Rightarrow> 'a option) \<Rightarrow> (project_config \<Rightarrow> 'a) \<Rightarrow> ('a \<Rightarrow> project_config \<Rightarrow> project_config)
    \<Rightarrow> setup_session \<Rightarrow> string \<Rightarrow> bool edit" where
  "set_parsed label parse current put s value =
     (case parse (trim value) of
        None \<Rightarrow> refuse s (BadValue label (trim value))
      | Some v \<Rightarrow>
          if current (wz_config s) = v then (s, Ok False)
          else revalidated (update_config (put v) s))"

text \<open>The same with the previous value put back when the project is not valid.\<close>

definition put_checked :: "string \<Rightarrow> (project_config \<Rightarrow> 'a) \<Rightarrow> ('a \<Rightarrow> project_config \<Rightarrow> project_config)
    \<Rightarrow> setup_session \<Rightarrow> 'a \<Rightarrow> bool edit" where
  "put_checked label current put s v =
     (if current (wz_config s) = v then (s, Ok False)
      else let previous = current (wz_config s); s1 = update_config (put v) s
           in validated_or s1
                (\<lambda>e. (update_config (put previous) s1)\<lparr>wz_message := Some (Rejected label e)\<rparr>)
                (\<lambda>s. (s, Ok True)) False)"

definition accept :: "('a \<Rightarrow> bool) \<Rightarrow> 'a option \<Rightarrow> 'a option" where
  "accept P m = (case m of None \<Rightarrow> None | Some v \<Rightarrow> if P v then Some v else None)"

section \<open>Updates of one field\<close>

definition upd_episode :: "(episode_config \<Rightarrow> episode_config) \<Rightarrow> project_config \<Rightarrow> project_config" where
  "upd_episode f c = c\<lparr>pj_episode := f (pj_episode c)\<rparr>"

definition upd_storage :: "(storage_config \<Rightarrow> storage_config) \<Rightarrow> project_config \<Rightarrow> project_config" where
  "upd_storage f c = c\<lparr>pj_storage := f (pj_storage c)\<rparr>"

definition upd_controller :: "(controller_config \<Rightarrow> controller_config) \<Rightarrow> project_config \<Rightarrow> project_config" where
  "upd_controller f c = c\<lparr>pj_controller := f (pj_controller c)\<rparr>"

definition upd_assembler :: "(assembler_config \<Rightarrow> assembler_config) \<Rightarrow> project_config \<Rightarrow> project_config" where
  "upd_assembler f c = c\<lparr>pj_assembler := f (pj_assembler c)\<rparr>"

definition upd_ui :: "(ui_runtime_config \<Rightarrow> ui_runtime_config) \<Rightarrow> project_config \<Rightarrow> project_config" where
  "upd_ui f c = c\<lparr>pj_ui := f (pj_ui c)\<rparr>"

section \<open>Cycled fields\<close>

definition cycle_episode_format :: "setup_session \<Rightarrow> int \<Rightarrow> bool edit" where
  "cycle_episode_format s delta =
     (let options = [LeRobotV2_1, LeRobotV3_0, Mcap];
          current = (case position (\<lambda>f. f = ep_format (pj_episode (wz_config s))) options of Some i \<Rightarrow> i | None \<Rightarrow> 0);
          format = options ! rotate_index current (length options) delta
      in revalidated (update_config (upd_episode (\<lambda>e. e\<lparr>ep_format := format\<rparr>)) s))"

text \<open>What switching to a backend fills in.\<close>

fun storage_defaults_for :: "storage_backend \<Rightarrow> storage_config \<Rightarrow> storage_config" where
  "storage_defaults_for LocalBackend st =
     (let st1 = st\<lparr>st_endpoint := None\<rparr>
      in if none_or_blank (st_output_path st1) then st1\<lparr>st_output_path := Some ''./output''\<rparr> else st1)"
| "storage_defaults_for HttpBackend st =
     (if st_endpoint st = None then st\<lparr>st_endpoint := Some ''http://127.0.0.1:8080/upload''\<rparr> else st)"
| "storage_defaults_for DataloopBackend st =
     (let st1 = (if (case st_endpoint st of None \<Rightarrow> True | Some v \<Rightarrow> blank v \<or> contains_str ''/upload'' v)
            then st\<lparr>st_endpoint := Some ''http://127.0.0.1/''\<rparr> else st)
      in if none_or_blank (st_dataloop_project_id st1) then st1\<lparr>st_dataloop_project_id := Some ''1''\<rparr> else st1)"

definition cycle_storage_backend :: "setup_session \<Rightarrow> int \<Rightarrow> bool edit" where
  "cycle_storage_backend s delta =
     (let options = [LocalBackend, HttpBackend, DataloopBackend];
          current = (case position (\<lambda>b. b = st_backend (pj_storage (wz_config s))) options of Some i \<Rightarrow> i | None \<Rightarrow> 0);
          backend = options ! rotate_index current (length options) delta
      in revalidated (update_config (upd_storage (\<lambda>st. storage_defaults_for backend (st\<lparr>st_backend := backend\<rparr>))) s))"

definition cycle_collection_mode :: "setup_session \<Rightarrow> bool edit" where
  "cycle_collection_mode s =
     (if pj_mode (wz_config s) = Teleop then (s, Ok False)
      else revalidated (ensure_visible_current_step (update_config (\<lambda>c. c\<lparr>pj_mode := Teleop\<rparr>) s)))"

section \<open>Text fields\<close>

definition set_project_name :: "setup_session \<Rightarrow> string \<Rightarrow> bool edit" where
  "set_project_name = set_nonempty ''Project name'' (\<lambda>c. Some (pj_project_name c))
     (\<lambda>v c. c\<lparr>pj_project_name := v\<rparr>)"

definition set_storage_output_path :: "setup_session \<Rightarrow> string \<Rightarrow> bool edit" where
  "set_storage_output_path = set_nonempty ''Local storage output path'' (\<lambda>c. st_output_path (pj_storage c))
     (\<lambda>v. upd_storage (\<lambda>st. st\<lparr>st_output_path := Some v\<rparr>))"

definition set_storage_endpoint :: "setup_session \<Rightarrow> string \<Rightarrow> bool edit" where
  "set_storage_endpoint = set_nonempty ''Storage endpoint'' (\<lambda>c. st_endpoint (pj_storage c))
     (\<lambda>v. upd_storage (\<lambda>st. st\<lparr>st_endpoint := Some v\<rparr>))"

definition set_dataloop_project_id :: "setup_session \<Rightarrow> string \<Rightarrow> bool edit" where
  "set_dataloop_project_id = set_nonempty ''Dataloop project ID'' (\<lambda>c. st_dataloop_project_id (pj_storage c))
     (\<lambda>v. upd_storage (\<lambda>st. st\<lparr>st_dataloop_project_id := Some v\<rparr>))"

definition set_dataloop_token :: "setup_session \<Rightarrow> string \<Rightarrow> bool edit" where
  "set_dataloop_token = set_nonempty ''Dataloop token'' (\<lambda>c. st_dataloop_token (pj_storage c))
     (\<lambda>v. upd_storage (\<lambda>st. st\<lparr>st_dataloop_token := Some v\<rparr>))"

definition set_ui_http_host :: "setup_session \<Rightarrow> string \<Rightarrow> bool edit" where
  "set_ui_http_host s value =
     (if trim value = [] then refuse s (EmptyValue ''UI host'')
      else put_checked ''UI host'' (\<lambda>c. ui_http_host (pj_ui c)) (\<lambda>v. upd_ui (\<lambda>u. u\<lparr>ui_http_host := v\<rparr>)) s (trim value))"

definition set_episode_fps :: "setup_session \<Rightarrow> string \<Rightarrow> bool edit" where
  "set_episode_fps s value =
     (let trimmed = trim value
      in if trimmed = [] then refuse s (EmptyValue ''Episode fps'')
         else case parse_u32 trimmed of
             None \<Rightarrow> refuse s (BadValue ''Episode fps'' trimmed)
           | Some fps \<Rightarrow>
               if fps = 0 \<or> fps > 1000 then refuse s (OutOfRange ''Episode fps'' fps)
               else if ep_fps (pj_episode (wz_config s)) = fps then (s, Ok False)
               else revalidated (update_config (upd_episode (\<lambda>e. e\<lparr>ep_fps := fps\<rparr>)) s))"

definition set_episode_chunk_size :: "setup_session \<Rightarrow> string \<Rightarrow> bool edit" where
  "set_episode_chunk_size = set_parsed ''Episode chunk_size'' (\<lambda>t. accept (\<lambda>v. v > 0) (parse_u32 t))
     (\<lambda>c. ep_chunk_size (pj_episode c)) (\<lambda>v. upd_episode (\<lambda>e. e\<lparr>ep_chunk_size := v\<rparr>))"

definition set_controller_shutdown_timeout_ms :: "setup_session \<Rightarrow> string \<Rightarrow> bool edit" where
  "set_controller_shutdown_timeout_ms = set_parsed ''Controller shutdown_timeout_ms'' parse_u64
     (\<lambda>c. ctl_shutdown_timeout_ms (pj_controller c)) (\<lambda>v. upd_controller (\<lambda>x. x\<lparr>ctl_shutdown_timeout_ms := v\<rparr>))"

definition set_controller_child_poll_interval_ms :: "setup_session \<Rightarrow> string \<Rightarrow> bool edit" where
  "set_controller_child_poll_interval_ms = set_parsed ''Controller child_poll_interval_ms''
     (\<lambda>t. accept (\<lambda>v. v > 0) (parse_u64 t))
     (\<lambda>c. ctl_child_poll_interval_ms (pj_controller c)) (\<lambda>v. upd_controller (\<lambda>x. x\<lparr>ctl_child_poll_interval_ms := v\<rparr>))"

definition set_visualizer_port :: "setup_session \<Rightarrow> string \<Rightarrow> bool edit" where
  "set_visualizer_port = set_parsed ''Visualizer port'' (\<lambda>t. accept (\<lambda>v. v > 0) (parse_u16 t))
     (\<lambda>c. vis_port (pj_visualizer c)) (\<lambda>v c. c\<lparr>pj_visualizer := (pj_visualizer c)\<lparr>vis_port := v\<rparr>\<rparr>)"

definition set_ui_http_port :: "setup_session \<Rightarrow> string \<Rightarrow> bool edit" where
  "set_ui_http_port s value =
     (case accept (\<lambda>v. v > 0) (parse_u16 (trim value)) of
        None \<Rightarrow> refuse s (BadValue ''UI http_port'' (trim value))
      | Some v \<Rightarrow> put_checked ''UI http_port'' (\<lambda>c. ui_http_port (pj_ui c)) (\<lambda>v. upd_ui (\<lambda>u. u\<lparr>ui_http_port := v\<rparr>)) s v)"

datatype ui_key_field = KeyStart | KeyStop | KeyKeep | KeyDiscard

fun ui_key_label :: "ui_key_field \<Rightarrow> string" where
  "ui_key_label KeyStart = ''Start''"
| "ui_key_label KeyStop = ''Stop''"
| "ui_key_label KeyKeep = ''Keep''"
| "ui_key_label KeyDiscard = ''Discard''"

text \<open>\<open>slot_mut\<close> as a reader and a writer.\<close>

fun ui_key_of :: "ui_key_field \<Rightarrow> ui_runtime_config \<Rightarrow> string" where
  "ui_key_of KeyStart u = ui_start_key u"
| "ui_key_of KeyStop u = ui_stop_key u"
| "ui_key_of KeyKeep u = ui_keep_key u"
| "ui_key_of KeyDiscard u = ui_discard_key u"

fun put_ui_key :: "ui_key_field \<Rightarrow> string \<Rightarrow> ui_runtime_config \<Rightarrow> ui_runtime_config" where
  "put_ui_key KeyStart k u = u\<lparr>ui_start_key := k\<rparr>"
| "put_ui_key KeyStop k u = u\<lparr>ui_stop_key := k\<rparr>"
| "put_ui_key KeyKeep k u = u\<lparr>ui_keep_key := k\<rparr>"
| "put_ui_key KeyDiscard k u = u\<lparr>ui_discard_key := k\<rparr>"

definition set_ui_single_char_key :: "ui_key_field \<Rightarrow> setup_session \<Rightarrow> string \<Rightarrow> bool edit" where
  "set_ui_single_char_key which s value =
     (let trimmed = trim value
      in if length (utf8_chars trimmed) \<noteq> 1 then refuse s (BadValue (ui_key_label which) trimmed)
         else put_checked (ui_key_label which) (\<lambda>c. ui_key_of which (pj_ui c)) (\<lambda>k. upd_ui (put_ui_key which k)) s trimmed)"

definition set_assembler_missing_eos_timeout_ms :: "setup_session \<Rightarrow> string \<Rightarrow> bool edit" where
  "set_assembler_missing_eos_timeout_ms = set_parsed ''Assembler missing_eos_timeout_ms'' parse_u64
     (\<lambda>c. as_missing_eos_timeout_ms (pj_assembler c)) (\<lambda>v. upd_assembler (\<lambda>a. a\<lparr>as_missing_eos_timeout_ms := v\<rparr>))"

definition set_assembler_staging_dir :: "setup_session \<Rightarrow> string \<Rightarrow> bool edit" where
  "set_assembler_staging_dir = set_nonempty ''Assembler staging_dir'' (\<lambda>c. Some (as_staging_dir (pj_assembler c)))
     (\<lambda>v. upd_assembler (\<lambda>a. a\<lparr>as_staging_dir := v\<rparr>))"

definition set_assembler_staging_slots :: "setup_session \<Rightarrow> string \<Rightarrow> bool edit" where
  "set_assembler_staging_slots s value =
     (case accept (\<lambda>v. 1 \<le> v \<and> v \<le> 64) (parse_u32 (trim value)) of
        None \<Rightarrow> refuse s (BadValue ''Assembler staging_slots'' (trim value))
      | Some v \<Rightarrow> put_checked ''staging_slots'' (\<lambda>c. as_staging_slots (pj_assembler c))
          (\<lambda>v. upd_assembler (\<lambda>a. a\<lparr>as_staging_slots := v\<rparr>)) s v)"

definition set_storage_queue_size :: "setup_session \<Rightarrow> string \<Rightarrow> bool edit" where
  "set_storage_queue_size = set_parsed ''Storage queue_size'' (\<lambda>t. accept (\<lambda>v. v > 0) (parse_u32 t))
     (\<lambda>c. st_queue_size (pj_storage c)) (\<lambda>v. upd_storage (\<lambda>st. st\<lparr>st_queue_size := v\<rparr>))"

definition f64_EPSILON :: f64 where "f64_EPSILON = Fin (1 / 2 ^ 52)"

definition positive_finite :: "f64 \<Rightarrow> bool" where
  "positive_finite v \<longleftrightarrow> is_finite v \<and> f_lt (Fin 0) v"

definition set_monitor_metrics_frequency_hz :: "setup_session \<Rightarrow> string \<Rightarrow> bool edit" where
  "set_monitor_metrics_frequency_hz s value =
     (case accept positive_finite (parse_f64 (trim value)) of
        None \<Rightarrow> refuse s (BadValue ''Monitor metrics_frequency_hz'' (trim value))
      | Some v \<Rightarrow>
          if f_lt (f_abs (f_sub (mon_metrics_frequency_hz (pj_monitor (wz_config s))) v)) f64_EPSILON then (s, Ok False)
          else revalidated (update_config (\<lambda>c. c\<lparr>pj_monitor := (pj_monitor c)\<lparr>mon_metrics_frequency_hz := v\<rparr>\<rparr>) s))"

end
