(* ===== verification/Setup_Subpanel.thy ===== *)
theory Setup_Subpanel
  imports Setup_Devices Setup_Settings
begin

text \<open>
  The per-channel panel of the setup wizard, \<^verbatim>\<open>controller/src/setup/subpanel.rs\<close>: opening and
  closing it, the stub devices the operator can add, the preview and record switches, and the
  fields of the recording and preview encoders. Every edit keeps a snapshot of the channel and
  puts it back when the value does not parse or the project is no longer valid.
\<close>

section \<open>The options that are cycled through\<close>

definition RECORD_VIDEO_CODECS :: "encoder_codec list" where "RECORD_VIDEO_CODECS = [H264, H265, Av1, Mjpg]"
definition RECORD_DEPTH_CODECS :: "encoder_codec list" where "RECORD_DEPTH_CODECS = [Rvl]"
definition RECORD_BACKENDS :: "encoder_backend list" where
  "RECORD_BACKENDS = [BackendAuto, BackendCpu, BackendNvidia, BackendVaapi, BackendPassthrough, BackendHorizonX5]"
definition RECORD_CHROMA_SUBSAMPLINGS :: "chroma_subsampling list" where "RECORD_CHROMA_SUBSAMPLINGS = [S422, S420]"
definition RECORD_BIT_DEPTHS :: "u8 list" where "RECORD_BIT_DEPTHS = [8, 10]"
definition RECORD_PRESETS :: "string option list" where
  "RECORD_PRESETS = [None, Some ''ultrafast'', Some ''veryfast'', Some ''fast'', Some ''medium'', Some ''slow'',
     Some ''slower'', Some ''veryslow'']"
definition RECORD_COLOR_SPACES :: "encoder_color_space list" where
  "RECORD_COLOR_SPACES = [ColorAuto, Bt709Limited, Bt601Limited]"
definition PREVIEW_OUTPUT_MODES :: "preview_output_mode list" where "PREVIEW_OUTPUT_MODES = [Jpeg, Encoded]"

text \<open>The value a cycled field is set to; with no options it keeps the one it has.\<close>

definition cycle_enum_field :: "'a option \<Rightarrow> 'a list \<Rightarrow> int \<Rightarrow> 'a option" where
  "cycle_enum_field current options delta =
     (if options = [] then current
      else let current_index = (case Option.bind current (\<lambda>v. position (\<lambda>c. c = v) options) of Some i \<Rightarrow> i | None \<Rightarrow> 0)
           in Some (options ! rotate_index current_index (length options) delta))"

definition cycle_preset :: "string option \<Rightarrow> int \<Rightarrow> string option" where
  "cycle_preset current delta =
     (let current_index = (case position (\<lambda>c. case (c, current) of (None, None) \<Rightarrow> True
            | (Some a, Some b) \<Rightarrow> eq_ignore_ascii_case a b | _ \<Rightarrow> False) RECORD_PRESETS of Some i \<Rightarrow> i | None \<Rightarrow> 0)
      in RECORD_PRESETS ! rotate_index current_index (length RECORD_PRESETS) delta)"

section \<open>The panel\<close>

definition open_subpanel :: "setup_session \<Rightarrow> string \<Rightarrow> setup_session \<times> bool" where
  "open_subpanel s name =
     (if available_named s name = None then (s, False)
      else if wz_subpanel s = Some name then (s, False)
      else (s\<lparr>wz_subpanel := Some name\<rparr>, True))"

definition close_subpanel :: "setup_session \<Rightarrow> setup_session \<times> bool" where
  "close_subpanel s = (s\<lparr>wz_subpanel := None\<rparr>, wz_subpanel s \<noteq> None)"

section \<open>Adding devices\<close>

definition default_device_executable_name :: "string \<Rightarrow> string" where
  "default_device_executable_name driver = ''rollio-device-'' @ replace_char CHR ''_'' CHR ''-'' driver"

text \<open>The suffix of a generated id. The sum wraps, as it does in a release build; a debug build
  panics on it.\<close>

definition next_pseudo_id_index :: "setup_session \<Rightarrow> string \<Rightarrow> u32" where
  "next_pseudo_id_index s p = foldl (\<lambda>next d.
     case strip_prefix (p @ ''_'') (dev_id d) of
       None \<Rightarrow> next
     | Some rest \<Rightarrow> (case parse_u32 (takeWhile is_digit rest) of None \<Rightarrow> next | Some n \<Rightarrow> max next (n + 1)))
     0 (pj_devices (wz_config s))"

definition add_device :: "setup_session \<Rightarrow> string \<Rightarrow> binary_device \<Rightarrow> available_device \<Rightarrow> bool edit" where
  "add_device s label device available =
     (let s1 = s\<lparr>wz_config := (wz_config s)\<lparr>pj_devices := pj_devices (wz_config s) @ [device]\<rparr>,
                wz_available := wz_available s @ [available]\<rparr>
      in validated_or s1
           (\<lambda>e. s1\<lparr>wz_config := (wz_config s1)\<lparr>pj_devices := pj_devices (wz_config s)\<rparr>,
                   wz_available := wz_available s, wz_message := Some (Rejected label e)\<rparr>)
           (\<lambda>s. (s\<lparr>wz_message := Some (AddedDevice (dev_id device))\<rparr>, Ok True)) False)"

definition pseudo_camera_channel :: "string \<Rightarrow> string \<Rightarrow> device_channel" where
  "pseudo_camera_channel ident display =
     \<lparr>ch_channel_type = ''color'', ch_kind = Camera, ch_enabled = True, ch_name = Some ident,
      ch_channel_label = Some display, ch_mode = None, ch_dof = None, ch_publish_states = [],
      ch_recorded_states = [], ch_control_frequency_hz = None,
      ch_profile = Some \<lparr>prof_width = 640, prof_height = 480, prof_fps = 30, prof_pixel_format = Px_Rgb24,
        prof_native_pixel_format = None, prof_mjpeg_quality = None, prof_h264_bitrate_bps = None,
        prof_h264_gop = None, prof_h264_preset = None, prof_h264_tune = None, prof_h264_profile = None\<rparr>,
      ch_preview_enabled = True, ch_record_enabled = True, ch_record = None, ch_preview_settings = None,
      ch_command_defaults = ChannelCommandDefaults_default, ch_value_limits = [],
      ch_direct_joint_compatibility = DirectJointCompatibility_default, ch_supported_commands = [], ch_extra = []\<rparr>"

definition added_device :: "string \<Rightarrow> string \<Rightarrow> toml_table \<Rightarrow> device_channel \<Rightarrow> binary_device" where
  "added_device driver ident extra channel =
     \<lparr>dev_name = ident, dev_executable = Some (default_device_executable_name driver), dev_driver = driver,
      dev_id = ident, dev_bus_root = ident, dev_channels = [channel], dev_extra = extra\<rparr>"

definition simulated_transport :: toml_table where
  "simulated_transport = [(''transport'', TString ''simulated'')]"

definition add_pseudo_camera :: "setup_session \<Rightarrow> bool edit" where
  "add_pseudo_camera s =
     (let n = show_nat (unat (next_pseudo_id_index s ''pseudo_camera''));
          ident = ''pseudo_camera_'' @ n; display = ''Pseudo Camera '' @ n;
          device = added_device ''pseudo'' ident simulated_transport (pseudo_camera_channel ident display)
      in add_device s ''Pseudo camera'' device
           \<lparr>avd_name = ''camera|pseudo|'' @ ident @ ''|color|-'', avd_display_name = display, avd_device_type = Camera,
            avd_driver = ''pseudo'', avd_id = ident, avd_camera_profiles = [], avd_supported_modes = [],
            avd_supported_states = [], avd_supported_commands = [],
            avd_direct_joint_compatibility = DirectJointCompatibility_default, avd_current = device\<rparr>)"

definition stub_robot_channel :: "string \<Rightarrow> string \<Rightarrow> robot_mode \<Rightarrow> robot_state_kind list \<Rightarrow> robot_state_kind list \<Rightarrow> bool \<Rightarrow> device_channel" where
  "stub_robot_channel ident display mode publish recorded record_enabled =
     \<lparr>ch_channel_type = ''arm'', ch_kind = Robot, ch_enabled = True, ch_name = Some ident,
      ch_channel_label = Some display, ch_mode = Some mode, ch_dof = Some 6, ch_publish_states = publish,
      ch_recorded_states = recorded, ch_control_frequency_hz = Some (Fin 60), ch_profile = None,
      ch_preview_enabled = True, ch_record_enabled = record_enabled, ch_record = None, ch_preview_settings = None,
      ch_command_defaults = ChannelCommandDefaults_default, ch_value_limits = [],
      ch_direct_joint_compatibility = DirectJointCompatibility_default, ch_supported_commands = [], ch_extra = []\<rparr>"

definition add_pseudo_robot :: "setup_session \<Rightarrow> bool edit" where
  "add_pseudo_robot s =
     (let n = show_nat (unat (next_pseudo_id_index s ''pseudo_robot''));
          ident = ''pseudo_robot_'' @ n @ ''_dof_6''; display = ''Pseudo Robot '' @ n;
          states = [SK_JointPosition, SK_JointVelocity, SK_JointEffort];
          device = added_device ''pseudo'' ident simulated_transport
            (stub_robot_channel ident display FreeDrive states states True)
      in add_device s ''Pseudo robot'' device
           \<lparr>avd_name = ''robot|pseudo|'' @ ident @ ''|arm|-'', avd_display_name = display, avd_device_type = Robot,
            avd_driver = ''pseudo'', avd_id = ident, avd_camera_profiles = [],
            avd_supported_modes = [FreeDrive, CommandFollowing],
            avd_supported_states = states, avd_supported_commands = [],
            avd_direct_joint_compatibility = DirectJointCompatibility_default, avd_current = device\<rparr>)"

definition add_command_device :: "setup_session \<Rightarrow> bool edit" where
  "add_command_device s =
     (let n = show_nat (unat (next_pseudo_id_index s ''command''));
          ident = ''command_'' @ n; display = ''Command Device '' @ n @ '' (stub)'';
          device = added_device ''command'' ident []
            (stub_robot_channel ident display CommandFollowing [SK_JointPosition] [] False)
      in add_device s ''Command device'' device
           \<lparr>avd_name = ''robot|command|'' @ ident @ ''|arm|-'', avd_display_name = display, avd_device_type = Robot,
            avd_driver = ''command'', avd_id = ident, avd_camera_profiles = [],
            avd_supported_modes = [CommandFollowing], avd_supported_states = [], avd_supported_commands = [],
            avd_direct_joint_compatibility = DirectJointCompatibility_default, avd_current = device\<rparr>)"

definition open_add_picker :: "setup_session \<Rightarrow> setup_session \<times> bool" where
  "open_add_picker s =
     (case add_pseudo_camera s of
        (s', Ok b) \<Rightarrow> (s', b)
      | (s', Err (ConfigInvalid e)) \<Rightarrow> (s'\<lparr>wz_message := Some (Rejected ''Could not add pseudo camera'' e)\<rparr>, True)
      | (s', Err e) \<Rightarrow> (s', True))"

section \<open>Editing a channel\<close>

definition sync_channel_into_available :: "string \<Rightarrow> device_channel \<Rightarrow> setup_session \<Rightarrow> setup_session" where
  "sync_channel_into_available name ch = update_available name (on_first_channel (\<lambda>_. ch))"

text \<open>The channel is replaced, the project validated, and the channel put back if it is rejected;
  \<open>mirror\<close> is what is written to the row otherwise.\<close>

definition replace_channel :: "string \<Rightarrow> nat \<Rightarrow> nat \<Rightarrow> device_channel \<Rightarrow> (setup_session \<Rightarrow> setup_session)
    \<Rightarrow> setup_session \<Rightarrow> bool edit" where
  "replace_channel label i j ch mirror s =
     (let snapshot = channel_at s i j; s1 = update_channel i j (\<lambda>_. ch) s
      in validated_or s1
           (\<lambda>e. (update_channel i j (\<lambda>_. snapshot) s1)\<lparr>wz_message := Some (Rejected label e)\<rparr>)
           (\<lambda>s. (mirror s, Ok True)) False)"

definition subpanel_toggle_preview_enabled :: "setup_session \<Rightarrow> string \<Rightarrow> bool edit" where
  "subpanel_toggle_preview_enabled s name = with_index s (configured_device_channel_index s name) (\<lambda>i j.
     let ch = channel_at s i j; b = (\<not> ch_preview_enabled ch)
     in replace_channel ''preview_enabled toggle'' i j (ch\<lparr>ch_preview_enabled := b\<rparr>)
          (update_available name (on_first_channel (\<lambda>c. c\<lparr>ch_preview_enabled := b\<rparr>))) s)"

definition subpanel_toggle_record_enabled :: "setup_session \<Rightarrow> string \<Rightarrow> bool edit" where
  "subpanel_toggle_record_enabled s name = with_index s (configured_device_channel_index s name) (\<lambda>i j.
     let ch = channel_at s i j; b = (\<not> ch_record_enabled ch)
     in replace_channel ''record_enabled toggle'' i j (ch\<lparr>ch_record_enabled := b\<rparr>)
          (update_available name (on_first_channel (\<lambda>c. c\<lparr>ch_record_enabled := b\<rparr>))) s)"

definition subpanel_cycle_primary :: "setup_session \<Rightarrow> string \<Rightarrow> int \<Rightarrow> bool edit" where
  "subpanel_cycle_primary s name delta =
     (case available_named s name of
        None \<Rightarrow> (s, Ok False)
      | Some a \<Rightarrow> (case avd_device_type a of
            Camera \<Rightarrow> cycle_device_profile s name delta
          | Robot \<Rightarrow> cycle_robot_mode s name delta))"

text \<open>An edit of a camera channel: \<open>change\<close> gives the new channel or the message of a value that
  is refused.\<close>

definition edit_camera_channel :: "setup_session \<Rightarrow> string \<Rightarrow> string
    \<Rightarrow> (device_channel \<Rightarrow> (device_channel, setup_message) result) \<Rightarrow> bool edit" where
  "edit_camera_channel s name label change = with_index s (configured_device_channel_index s name) (\<lambda>i j.
     if ch_kind (channel_at s i j) \<noteq> Camera then (s, Ok False)
     else case change (channel_at s i j) of
         Err m \<Rightarrow> refuse s m
       | Ok ch \<Rightarrow> replace_channel label i j ch (sync_channel_into_available name ch) s)"

definition on_record :: "(channel_record_config \<Rightarrow> (channel_record_config, setup_message) result)
    \<Rightarrow> device_channel \<Rightarrow> (device_channel, setup_message) result" where
  "on_record f ch = bind_ok (f (unwrap_or (ch_record ch) ChannelRecordConfig_default)) (\<lambda>r. Ok (ch\<lparr>ch_record := Some r\<rparr>))"

definition on_preview :: "(channel_preview_config \<Rightarrow> (channel_preview_config, setup_message) result)
    \<Rightarrow> device_channel \<Rightarrow> (device_channel, setup_message) result" where
  "on_preview f ch = bind_ok (f (unwrap_or (ch_preview_settings ch) ChannelPreviewConfig_default))
     (\<lambda>p. Ok (ch\<lparr>ch_preview_settings := Some p\<rparr>))"

definition cycle_record :: "string \<Rightarrow> int \<Rightarrow> channel_record_config \<Rightarrow> (channel_record_config, setup_message) result" where
  "cycle_record field delta r =
     (if field = ''video_codec'' then Ok (r\<lparr>rec_video_codec := cycle_enum_field (rec_video_codec r) RECORD_VIDEO_CODECS delta\<rparr>)
      else if field = ''depth_codec'' then Ok (r\<lparr>rec_depth_codec := cycle_enum_field (rec_depth_codec r) RECORD_DEPTH_CODECS delta\<rparr>)
      else if field = ''backend'' then Ok (r\<lparr>rec_backend := cycle_enum_field (rec_backend r) RECORD_BACKENDS delta\<rparr>)
      else if field = ''video_backend'' then Ok (r\<lparr>rec_video_backend := cycle_enum_field (rec_video_backend r) RECORD_BACKENDS delta\<rparr>)
      else if field = ''depth_backend'' then Ok (r\<lparr>rec_depth_backend := cycle_enum_field (rec_depth_backend r) RECORD_BACKENDS delta\<rparr>)
      else if field = ''chroma_subsampling'' then Ok (r\<lparr>rec_chroma_subsampling := cycle_enum_field (rec_chroma_subsampling r) RECORD_CHROMA_SUBSAMPLINGS delta\<rparr>)
      else if field = ''bit_depth'' then Ok (r\<lparr>rec_bit_depth := cycle_enum_field (rec_bit_depth r) RECORD_BIT_DEPTHS delta\<rparr>)
      else if field = ''color_space'' then Ok (r\<lparr>rec_color_space := cycle_enum_field (rec_color_space r) RECORD_COLOR_SPACES delta\<rparr>)
      else if field = ''preset'' then Ok (r\<lparr>rec_preset := cycle_preset (rec_preset r) delta\<rparr>)
      else Err (UnknownField ''record'' field))"

definition subpanel_cycle_record_field :: "setup_session \<Rightarrow> string \<Rightarrow> string \<Rightarrow> int \<Rightarrow> bool edit" where
  "subpanel_cycle_record_field s name field delta =
     edit_camera_channel s name (''record.'' @ field) (on_record (cycle_record field delta))"

text \<open>An empty text clears the field, one that does not parse is refused.\<close>

definition cleared_or :: "string \<Rightarrow> (string \<Rightarrow> 'a option) \<Rightarrow> string \<Rightarrow> ('a option, setup_message) result" where
  "cleared_or label parse value =
     (if trim value = [] then Ok None
      else case parse (trim value) of None \<Rightarrow> Err (BadValue label value) | Some v \<Rightarrow> Ok (Some v))"

definition parse_crf :: "string \<Rightarrow> u8 option" where
  "parse_crf t = accept (\<lambda>v. v \<le> 51) (parse_u8 t)"

definition parse_positive_u32 :: "string \<Rightarrow> u32 option" where
  "parse_positive_u32 t = accept (\<lambda>v. v > 0) (parse_u32 t)"

definition set_record :: "string \<Rightarrow> string \<Rightarrow> channel_record_config \<Rightarrow> (channel_record_config, setup_message) result" where
  "set_record field value r =
     (if field = ''crf'' then bind_ok (cleared_or ''crf'' parse_crf value) (\<lambda>v. Ok (r\<lparr>rec_crf := v\<rparr>))
      else if field = ''preset'' then bind_ok (cleared_or ''preset'' Some value) (\<lambda>v. Ok (r\<lparr>rec_preset := v\<rparr>))
      else if field = ''tune'' then bind_ok (cleared_or ''tune'' Some value) (\<lambda>v. Ok (r\<lparr>rec_tune := v\<rparr>))
      else if field = ''queue_size'' then bind_ok (cleared_or ''queue_size'' parse_positive_u32 value) (\<lambda>v. Ok (r\<lparr>rec_queue_size := v\<rparr>))
      else Err (UnknownField ''record'' field))"

definition subpanel_set_record_field :: "setup_session \<Rightarrow> string \<Rightarrow> string \<Rightarrow> string \<Rightarrow> bool edit" where
  "subpanel_set_record_field s name field value =
     edit_camera_channel s name (''record.'' @ field) (on_record (set_record field value))"

definition cycle_preview :: "string \<Rightarrow> int \<Rightarrow> channel_preview_config \<Rightarrow> (channel_preview_config, setup_message) result" where
  "cycle_preview field delta p =
     (if field = ''output_mode'' then Ok (p\<lparr>cpv_output_mode := cycle_enum_field (cpv_output_mode p) PREVIEW_OUTPUT_MODES delta\<rparr>)
      else if field = ''color_codec'' then Ok (p\<lparr>cpv_color_codec := cycle_enum_field (cpv_color_codec p) RECORD_VIDEO_CODECS delta\<rparr>)
      else if field = ''depth_codec'' then Ok (p\<lparr>cpv_depth_codec := cycle_enum_field (cpv_depth_codec p) RECORD_DEPTH_CODECS delta\<rparr>)
      else if field = ''backend'' then Ok (p\<lparr>cpv_backend := cycle_enum_field (cpv_backend p) RECORD_BACKENDS delta\<rparr>)
      else Err (UnknownField ''preview'' field))"

definition subpanel_cycle_preview_field :: "setup_session \<Rightarrow> string \<Rightarrow> string \<Rightarrow> int \<Rightarrow> bool edit" where
  "subpanel_cycle_preview_field s name field delta =
     edit_camera_channel s name (''preview.'' @ field) (on_preview (cycle_preview field delta))"

definition set_preview :: "string \<Rightarrow> string \<Rightarrow> channel_preview_config \<Rightarrow> (channel_preview_config, setup_message) result" where
  "set_preview field value p =
     (if field = ''width'' then bind_ok (cleared_or ''width'' parse_positive_u32 value) (\<lambda>v. Ok (p\<lparr>cpv_width := v\<rparr>))
      else if field = ''height'' then bind_ok (cleared_or ''height'' parse_positive_u32 value) (\<lambda>v. Ok (p\<lparr>cpv_height := v\<rparr>))
      else if field = ''fps'' then bind_ok (cleared_or ''fps'' (\<lambda>t. accept (\<lambda>v. 1 \<le> v \<and> v \<le> 1000) (parse_u32 t)) value)
        (\<lambda>v. Ok (p\<lparr>cpv_fps := v\<rparr>))
      else if field = ''gop_seconds'' then bind_ok (cleared_or ''gop_seconds'' parse_positive_u32 value) (\<lambda>v. Ok (p\<lparr>cpv_gop_seconds := v\<rparr>))
      else if field = ''crf'' then bind_ok (cleared_or ''crf'' parse_crf value) (\<lambda>v. Ok (p\<lparr>cpv_crf := v\<rparr>))
      else if field = ''jpeg_quality'' then bind_ok (cleared_or ''jpeg_quality'' (\<lambda>t. accept jpeg_quality_in_range (parse_i32 t)) value)
        (\<lambda>v. Ok (p\<lparr>cpv_jpeg_quality := v\<rparr>))
      else Err (UnknownField ''preview'' field))"

definition subpanel_set_preview_field :: "setup_session \<Rightarrow> string \<Rightarrow> string \<Rightarrow> string \<Rightarrow> bool edit" where
  "subpanel_set_preview_field s name field value =
     edit_camera_channel s name (''preview.'' @ field) (on_preview (set_preview field value))"

definition subpanel_set_control_frequency_hz :: "setup_session \<Rightarrow> string \<Rightarrow> string \<Rightarrow> bool edit" where
  "subpanel_set_control_frequency_hz s name value = with_index s (configured_device_channel_index s name) (\<lambda>i j.
     let ch = channel_at s i j
     in if ch_kind ch \<noteq> Robot then (s, Ok False)
        else case accept positive_finite (parse_f64 (trim value)) of
            None \<Rightarrow> refuse s (BadValue ''control_frequency_hz'' value)
          | Some v \<Rightarrow>
              if ch_control_frequency_hz ch = Some v then (s, Ok False)
              else let ch' = ch\<lparr>ch_control_frequency_hz := Some v\<rparr>
                   in replace_channel ''control_frequency_hz'' i j ch' (sync_channel_into_available name ch') s)"

end
