(* ===== verification/Setup_Dispatch.thy ===== *)
theory Setup_Dispatch
  imports Setup_Pairings Setup_Subpanel Json_Value
begin

text \<open>
  The commands of the setup wizard, \<^verbatim>\<open>controller/src/setup/dispatch.rs\<close> and
  \<^verbatim>\<open>controller/src/setup/save.rs\<close>: a JSON command is decoded, its action chooses an operation of
  the session, and the result says what changed. \<open>interpret_action\<close> is the match over the actions: it
  gives the operation, or \<open>Skip\<close> where the match arm returns the default because an argument is
  missing or the action is unknown.
\<close>

section \<open>Decoding\<close>

record setup_command =
  sc_msg_type :: string
  sc_action :: string
  sc_name :: "string option"
  sc_index :: "nat option"
  sc_delta :: "int option"
  sc_value :: "string option"
  sc_field :: "string option"

fun de_usize :: "json \<Rightarrow> (nat, json_error) result" where
  "de_usize (JInt n) = (if 0 \<le> n \<and> n < 2 ^ 64 then Ok (nat n) else Err (WrongType ''usize''))"
| "de_usize _ = Err (WrongType ''usize'')"

fun de_i32 :: "json \<Rightarrow> (int, json_error) result" where
  "de_i32 (JInt n) = (if - (2 ^ 31) \<le> n \<and> n < 2 ^ 31 then Ok n else Err (WrongType ''i32''))"
| "de_i32 _ = Err (WrongType ''i32'')"

definition setup_command_of_json :: "json \<Rightarrow> (setup_command, json_error) result" where
  "setup_command_of_json j =
     bind_ok (required de_string [''type''] j) (\<lambda>msg_type.
     bind_ok (required de_string [''action''] j) (\<lambda>action.
     bind_ok (optional de_string [''name''] j) (\<lambda>name.
     bind_ok (optional de_usize [''index''] j) (\<lambda>index.
     bind_ok (optional de_i32 [''delta''] j) (\<lambda>delta.
     bind_ok (optional de_string [''value''] j) (\<lambda>value.
     bind_ok (optional de_string [''field''] j) (\<lambda>field.
       Ok \<lparr>sc_msg_type = msg_type, sc_action = action, sc_name = name, sc_index = index, sc_delta = delta,
           sc_value = value, sc_field = field\<rparr>)))))))"

definition normalized_delta :: "int option \<Rightarrow> int" where
  "normalized_delta delta = (if unwrap_or delta 1 < 0 then - 1 else 1)"

definition all_state_kinds :: "robot_state_kind list" where
  "all_state_kinds = [SK_JointPosition, SK_JointVelocity, SK_JointEffort, SK_EndEffectorPose, SK_EndEffectorTwist,
     SK_EndEffectorWrench, SK_ParallelPosition, SK_ParallelVelocity, SK_ParallelEffort]"

text \<open>The serde name of a kind is its topic suffix.\<close>

definition parse_robot_state_kind :: "string \<Rightarrow> robot_state_kind option" where
  "parse_robot_state_kind value = find_by state_topic_suffix value all_state_kinds"

definition parse_mapping :: "string \<Rightarrow> mapping_strategy option" where
  "parse_mapping s = find_by mapping_strategy_label s [DirectJoint, Cartesian, Parallel]"

text \<open>The loop over the segments after the follower: the last \<open>ratio=\<close> decides.\<close>

fun ratio_of_tails :: "f64 option \<Rightarrow> string list \<Rightarrow> f64 option" where
  "ratio_of_tails ratio [] = ratio"
| "ratio_of_tails ratio (tail # rest) =
     (case strip_prefix ''ratio='' tail of
        Some r \<Rightarrow> ratio_of_tails (accept usable_ratio (parse_f64 r)) rest
      | None \<Rightarrow> ratio_of_tails ratio rest)"

definition parse_create_pairing_value :: "string \<Rightarrow> teleop_pair_create option" where
  "parse_create_pairing_value value =
     (case split_on CHR '';'' value of
        policy_str # leader_part # follower_part # tails \<Rightarrow>
          Option.bind (parse_mapping policy_str) (\<lambda>policy.
          Option.bind (split_once CHR ''|'' leader_part) (\<lambda>leader.
          Option.bind (split_once CHR ''|'' follower_part) (\<lambda>follower.
            if fst leader = [] \<or> snd leader = [] \<or> fst follower = [] \<or> snd follower = [] then None
            else Some \<lparr>tpc_policy = policy, tpc_leader = leader, tpc_follower = follower,
                   tpc_ratio = ratio_of_tails None tails\<rparr>)))
      | _ \<Rightarrow> None)"

section \<open>The match over the actions\<close>

datatype wizard_step =
    Skip
  | StateEdit "setup_session \<Rightarrow> bool edit"
  | StepEdit "setup_session \<Rightarrow> setup_session \<times> bool"
  | ConfigEdit "setup_session \<Rightarrow> bool edit"

definition fine :: "setup_session \<times> bool \<Rightarrow> bool edit" where
  "fine r = (fst r, Ok (snd r))"

text \<open>\<open>let Some(x) = .. else \{ return Ok(SessionMutation::default()) \}\<close>\<close>

definition given :: "'a option \<Rightarrow> ('a \<Rightarrow> wizard_step) \<Rightarrow> wizard_step" where
  "given m f = (case m of None \<Rightarrow> Skip | Some a \<Rightarrow> f a)"

definition set_text_field :: "string option \<Rightarrow> (setup_session \<Rightarrow> string \<Rightarrow> bool edit) \<Rightarrow> wizard_step" where
  "set_text_field value setter = given value (\<lambda>v. ConfigEdit (\<lambda>s. setter s v))"

definition toggle_identify :: "string \<Rightarrow> setup_session \<Rightarrow> bool edit" where
  "toggle_identify name s =
     (if wz_identify s = Some name then fine (set_identify_device s None)
      else case is_device_selected s name of
          Err e \<Rightarrow> (s, Err e)
        | Ok selected \<Rightarrow> if selected then fine (set_identify_device s (Some name)) else (s, Ok False))"

definition create_from_value :: "string option \<Rightarrow> setup_session \<Rightarrow> bool edit" where
  "create_from_value value s =
     (case create_pairing s (Option.bind value parse_create_pairing_value) of
        (s', Ok m) \<Rightarrow> (s', Ok (m \<noteq> None))
      | (s', Err e) \<Rightarrow> (s', Err e))"

text \<open>The text fields of the settings step, in the order of the match.\<close>

definition text_setters :: "(string \<times> (setup_session \<Rightarrow> string \<Rightarrow> bool edit)) list" where
  "text_setters =
     [(''setup_set_project_name'', set_project_name),
      (''setup_set_storage_output_path'', set_storage_output_path),
      (''setup_set_storage_endpoint'', set_storage_endpoint),
      (''setup_set_dataloop_project_id'', set_dataloop_project_id),
      (''setup_set_dataloop_token'', set_dataloop_token),
      (''setup_set_ui_http_host'', set_ui_http_host),
      (''setup_set_episode_fps'', set_episode_fps),
      (''setup_set_episode_chunk_size'', set_episode_chunk_size),
      (''setup_set_controller_shutdown_timeout_ms'', set_controller_shutdown_timeout_ms),
      (''setup_set_controller_child_poll_interval_ms'', set_controller_child_poll_interval_ms),
      (''setup_set_visualizer_port'', set_visualizer_port),
      (''setup_set_ui_http_port'', set_ui_http_port),
      (''setup_set_ui_start_key'', set_ui_single_char_key KeyStart),
      (''setup_set_ui_stop_key'', set_ui_single_char_key KeyStop),
      (''setup_set_ui_keep_key'', set_ui_single_char_key KeyKeep),
      (''setup_set_ui_discard_key'', set_ui_single_char_key KeyDiscard),
      (''setup_set_assembler_missing_eos_timeout_ms'', set_assembler_missing_eos_timeout_ms),
      (''setup_set_assembler_staging_dir'', set_assembler_staging_dir),
      (''setup_set_assembler_staging_slots'', set_assembler_staging_slots),
      (''setup_set_storage_queue_size'', set_storage_queue_size),
      (''setup_set_monitor_metrics_frequency_hz'', set_monitor_metrics_frequency_hz)]"

text \<open>The arms that edit the project.\<close>

definition config_step :: "setup_command \<Rightarrow> wizard_step" where
  "config_step c =
     (let action = sc_action c; name = sc_name c; value = sc_value c; index = sc_index c; field = sc_field c;
          delta = normalized_delta (sc_delta c)
      in if action = ''setup_toggle_device'' then given name (\<lambda>n. ConfigEdit (\<lambda>s. toggle_device_selection s n))
      else if action = ''setup_set_device_name'' then
        given name (\<lambda>n. given value (\<lambda>v. ConfigEdit (\<lambda>s. set_device_name s n v)))
      else if action = ''setup_subpanel_toggle_preview_enabled'' then
        given name (\<lambda>n. ConfigEdit (\<lambda>s. subpanel_toggle_preview_enabled s n))
      else if action = ''setup_subpanel_toggle_record_enabled'' then
        given name (\<lambda>n. ConfigEdit (\<lambda>s. subpanel_toggle_record_enabled s n))
      else if action = ''setup_subpanel_cycle_primary'' then
        given name (\<lambda>n. ConfigEdit (\<lambda>s. subpanel_cycle_primary s n delta))
      else if action = ''setup_subpanel_cycle_record_field'' then
        given name (\<lambda>n. given field (\<lambda>f. ConfigEdit (\<lambda>s. subpanel_cycle_record_field s n f delta)))
      else if action = ''setup_subpanel_set_record_field'' then
        given name (\<lambda>n. given field (\<lambda>f. given value (\<lambda>v. ConfigEdit (\<lambda>s. subpanel_set_record_field s n f v))))
      else if action = ''setup_subpanel_cycle_preview_field'' then
        given name (\<lambda>n. given field (\<lambda>f. ConfigEdit (\<lambda>s. subpanel_cycle_preview_field s n f delta)))
      else if action = ''setup_subpanel_set_preview_field'' then
        given name (\<lambda>n. given field (\<lambda>f. given value (\<lambda>v. ConfigEdit (\<lambda>s. subpanel_set_preview_field s n f v))))
      else if action = ''setup_subpanel_set_control_frequency_hz'' then
        given name (\<lambda>n. given value (\<lambda>v. ConfigEdit (\<lambda>s. subpanel_set_control_frequency_hz s n v)))
      else if action = ''setup_add_pseudo_camera'' then ConfigEdit add_pseudo_camera
      else if action = ''setup_add_pseudo_robot'' then ConfigEdit add_pseudo_robot
      else if action = ''setup_add_command_device'' then ConfigEdit add_command_device
      else if action = ''setup_cycle_camera_profile'' then
        given name (\<lambda>n. ConfigEdit (\<lambda>s. cycle_device_profile s n delta))
      else if action = ''setup_cycle_robot_mode'' then given name (\<lambda>n. ConfigEdit (\<lambda>s. cycle_robot_mode s n delta))
      else if action = ''setup_cycle_pair_mapping'' then
        given index (\<lambda>i. ConfigEdit (\<lambda>s. cycle_pair_mapping s i delta))
      else if action = ''setup_create_pairing'' then ConfigEdit (create_from_value value)
      else if action = ''setup_remove_pairing'' then given index (\<lambda>i. ConfigEdit (\<lambda>s. remove_pairing s i))
      else if action = ''setup_set_pairing_leader'' \<or> action = ''setup_set_pairing_follower'' then
        given index (\<lambda>i. given value (\<lambda>v. given (split_once CHR ''|'' v) (\<lambda>target. ConfigEdit (\<lambda>s.
          set_pairing_endpoint s i (if action = ''setup_set_pairing_leader'' then EndpointLeader else EndpointFollower) target))))
      else if action = ''setup_set_pairing_ratio'' then
        given index (\<lambda>i. given value (\<lambda>v. case parse_f64 v of
            None \<Rightarrow> StateEdit (\<lambda>s. (s\<lparr>wz_message := Some (UnparsableRatio v)\<rparr>, Ok True))
          | Some ratio \<Rightarrow> ConfigEdit (\<lambda>s. set_pairing_ratio s i ratio)))
      else if action = ''setup_toggle_publish_state'' then
        given name (\<lambda>n. given (Option.bind value parse_robot_state_kind) (\<lambda>k. ConfigEdit (\<lambda>s. toggle_publish_state s n k)))
      else if action = ''setup_toggle_recorded_state'' then
        given name (\<lambda>n. given (Option.bind value parse_robot_state_kind) (\<lambda>k. ConfigEdit (\<lambda>s. toggle_recorded_state s n k)))
      else if action = ''setup_cycle_episode_format'' then ConfigEdit (\<lambda>s. cycle_episode_format s delta)
      else if action = ''setup_cycle_storage_backend'' then ConfigEdit (\<lambda>s. cycle_storage_backend s delta)
      else if action = ''setup_cycle_collection_mode'' then ConfigEdit cycle_collection_mode
      else given (map_of text_setters action) (set_text_field value))"

text \<open>The arms that only touch what the terminal shows.\<close>

definition interpret_action :: "setup_command \<Rightarrow> wizard_step" where
  "interpret_action c =
     (let action = sc_action c; name = sc_name c
      in if action = ''setup_get_state'' then StateEdit (\<lambda>s. (s, Ok True))
      else if action = ''setup_prev_step'' then StepEdit retreat_step
      else if action = ''setup_next_step'' then StepEdit advance_step
      else if action = ''setup_jump_step'' then given (sc_value c) (\<lambda>v. StepEdit (\<lambda>s. jump_to_step s v))
      else if action = ''setup_open_subpanel'' then given name (\<lambda>n. StateEdit (\<lambda>s. fine (open_subpanel s n)))
      else if action = ''setup_close_subpanel'' then StateEdit (\<lambda>s. fine (close_subpanel s))
      else if action = ''setup_open_add_picker'' then StateEdit (\<lambda>s. fine (open_add_picker s))
      else if action = ''setup_toggle_identify'' then given name (\<lambda>n. StateEdit (toggle_identify n))
      else config_step c)"

section \<open>Saving and applying a command\<close>

text \<open>\<open>Path::parent\<close> of a relative path of one component is empty, that of the root and of the empty path
  is absent.\<close>

definition has_parent_dir :: "string \<Rightarrow> bool" where
  "has_parent_dir p \<longleftrightarrow> components p \<noteq> [] \<and> (is_absolute p \<or> 1 < length (components p) \<or> hd (split_slash p) = ''.'')"

definition save_project_config :: "(project_config \<Rightarrow> (string, string) result) \<Rightarrow> io_host \<Rightarrow> project_config \<Rightarrow> string \<Rightarrow> unit io" where
  "save_project_config to_string_pretty h project output_path =
     io_then (if has_parent_dir output_path then create_dir_all h (butlast (resolve h output_path)) else io_return ())
       (case to_string_pretty project of
          Err e \<Rightarrow> io_fail (Message e)
        | Ok doc \<Rightarrow> write_file h (resolve h output_path) (bytes_of doc))"

datatype command_error = EditFailed setup_error | BadCommand json_error | SaveFailed io_error

record wizard =
  wiz_session :: setup_session
  wiz_fs :: fs

text \<open>The surroundings of the wizard: the host, the two crates and the clock.\<close>

record wizard_host =
  wh_io :: io_host
  wh_json :: json_lib
  wh_toml :: "project_config \<Rightarrow> (string, string) result"
  wh_now :: nat

definition step_result :: "('a \<Rightarrow> session_mutation) \<Rightarrow> wizard \<Rightarrow> 'a edit \<Rightarrow> wizard \<times> (session_mutation, command_error) result" where
  "step_result mutation w r =
     (w\<lparr>wiz_session := fst r\<rparr>, map_err EditFailed (bind_ok (snd r) (\<lambda>b. Ok (mutation b))))"

definition apply_command :: "wizard_host \<Rightarrow> wizard \<Rightarrow> setup_command \<Rightarrow> wizard \<times> (session_mutation, command_error) result" where
  "apply_command H w c =
     (if sc_msg_type c \<noteq> ''command'' then (w, Ok SessionMutation_default)
      else if sc_action c = ''setup_save'' then
        (case save_project_config (wh_toml H) (wh_io H) (wz_config (wiz_session w)) (wz_output_path (wiz_session w)) (wiz_fs w) of
           (fs', Err e) \<Rightarrow> (w\<lparr>wiz_fs := fs'\<rparr>, Err (SaveFailed e))
         | (fs', Ok _) \<Rightarrow> (w\<lparr>wiz_fs := fs', wiz_session := mark_saved (wh_now H) (wiz_session w)\<rparr>, Ok (mutation_state_only True)))
      else if sc_action c = ''setup_cancel'' then
        (w\<lparr>wiz_session := mark_cancelled (wh_now H) (wiz_session w)\<rparr>, Ok (mutation_state_only True))
      else case interpret_action c of
          Skip \<Rightarrow> (w, Ok SessionMutation_default)
        | StateEdit f \<Rightarrow> step_result mutation_state_only w (f (wiz_session w))
        | StepEdit f \<Rightarrow> step_result mutation_step_changed w (fine (f (wiz_session w)))
        | ConfigEdit f \<Rightarrow> step_result mutation_config_changed w (f (wiz_session w)))"

definition apply_raw_command :: "wizard_host \<Rightarrow> wizard \<Rightarrow> string \<Rightarrow> wizard \<times> (session_mutation, command_error) result" where
  "apply_raw_command H w raw_json =
     (case bind_ok (map_err ParseError (jl_parse (wh_json H) (bytes_of raw_json))) setup_command_of_json of
        Err e \<Rightarrow> (w, Err (BadCommand e))
      | Ok c \<Rightarrow> apply_command H w c)"

text \<open>\<open>for raw_json in ipc.drain_setup_commands()? \{ mutations.merge(session.apply_raw_command(&raw_json)?) \}\<close>\<close>

fun apply_commands :: "wizard_host \<Rightarrow> wizard \<Rightarrow> session_mutation \<Rightarrow> string list \<Rightarrow> wizard \<times> (session_mutation, command_error) result" where
  "apply_commands H w m [] = (w, Ok m)"
| "apply_commands H w m (raw # raws) =
     (case apply_raw_command H w raw of
        (w', Err e) \<Rightarrow> (w', Err e)
      | (w', Ok n) \<Rightarrow> apply_commands H w' (mutation_merge m n) raws)"

end
