(* ===== verification/Setup_Edits.thy ===== *)
theory Setup_Edits
  imports Setup_Dispatch
begin

text \<open>
  What the edits of the wizard keep. \<open>valid_result s r\<close> says of a session \<open>s\<close> whose project is
  valid: if the edit returned, the project is valid again, and if it returned \<open>false\<close> the project
  is the one before. The rules follow the shapes the edits are written with; the two operations
  that cycle a camera profile or a robot mode are not among them.
\<close>

named_theorems valid_edit \<open>edits that keep a valid project valid\<close>

definition valid_result :: "setup_session \<Rightarrow> bool edit \<Rightarrow> bool" where
  "valid_result s r \<longleftrightarrow> (\<forall>s' b. project_ok (wz_config s) \<longrightarrow> r = (s', Ok b) \<longrightarrow>
     project_ok (wz_config s') \<and> (\<not> b \<longrightarrow> wz_config s' = wz_config s))"

lemma valid_resultD:
  "valid_result s r \<Longrightarrow> project_ok (wz_config s) \<Longrightarrow> r = (s', Ok b) \<Longrightarrow>
    project_ok (wz_config s') \<and> (\<not> b \<longrightarrow> wz_config s' = wz_config s)"
  by (simp add: valid_result_def)

section \<open>The shapes\<close>

lemma valid_same [valid_edit]: "valid_result s (s, Ok b)"
  by (simp add: valid_result_def)

lemma valid_Err [valid_edit]: "valid_result s (s', Err e)"
  by (simp add: valid_result_def)

lemma valid_refuse [valid_edit]: "valid_result s (refuse s m)"
  by (simp add: valid_result_def refuse_def)

lemma valid_revalidated [valid_edit]: "valid_result s (revalidated s')"
  by (auto simp: valid_result_def revalidated_Ok)

lemma valid_edit_then [valid_edit]:
  "valid_result s r \<Longrightarrow> (\<And>s. wz_config (f s) = wz_config s) \<Longrightarrow> valid_result s (edit_then r f)"
  unfolding valid_result_def edit_then_def
  by (cases r; cases "snd r") (simp_all split: sum.splits)

lemma valid_with_index [valid_edit]:
  "(\<And>i j. r = Ok (Some (i, j)) \<Longrightarrow> valid_result s (f i j)) \<Longrightarrow> valid_result s (with_index s r f)"
  by (auto simp: valid_result_def with_index_Ok)

lemma valid_validated_or [valid_edit]:
  assumes "\<And>e. wz_config (rollback e) = wz_config s"
    and "\<And>s'. project_ok (wz_config s') \<Longrightarrow> s' = s1 \<Longrightarrow> valid_result s (continue s')"
  shows "valid_result s (validated_or s1 rollback continue False)"
proof (cases "project_validate (wz_config s1)")
  case (Inl e)
  with assms(1) show ?thesis by (simp add: valid_result_def validated_or_def)
next
  case (Inr u)
  then have "project_ok (wz_config s1)" by (simp add: project_ok_def)
  with assms(2) Inr show ?thesis by (simp add: validated_or_def)
qed

lemma valid_done: "project_ok (wz_config s') \<Longrightarrow> valid_result s (s', Ok True)"
  by (simp add: valid_result_def)

lemma valid_if [valid_edit]:
  "(b \<Longrightarrow> valid_result s r) \<Longrightarrow> (\<not> b \<Longrightarrow> valid_result s r') \<Longrightarrow> valid_result s (if b then r else r')"
  by simp

lemma valid_case_option [valid_edit]:
  "(m = None \<Longrightarrow> valid_result s r) \<Longrightarrow> (\<And>a. m = Some a \<Longrightarrow> valid_result s (f a))
    \<Longrightarrow> valid_result s (case m of None \<Rightarrow> r | Some a \<Rightarrow> f a)"
  by (cases m) auto

lemma valid_case_sum [valid_edit]:
  "(\<And>e. m = Err e \<Longrightarrow> valid_result s (f e)) \<Longrightarrow> (\<And>a. m = Ok a \<Longrightarrow> valid_result s (g a))
    \<Longrightarrow> valid_result s (case m of Err e \<Rightarrow> f e | Ok a \<Rightarrow> g a)"
  by (cases m) auto

section \<open>Settings\<close>

lemma valid_set_nonempty [valid_edit]: "valid_result s (set_nonempty label current put s value)"
  unfolding set_nonempty_def Let_def by (intro valid_edit)

lemma valid_set_parsed [valid_edit]: "valid_result s (set_parsed label parse current put s value)"
  unfolding set_parsed_def by (intro valid_edit)

lemma valid_put_checked [valid_edit]:
  assumes "\<And>c v. put (current c) (put v c) = c"
  shows "valid_result s (put_checked label current put s v)"
  unfolding put_checked_def Let_def
  by (intro valid_edit valid_done) (simp_all add: assms)

lemma put_ui_key_back: "put_ui_key which (ui_key_of which u) (put_ui_key which k u) = u"
  by (cases which) simp_all

lemma valid_settings [valid_edit]:
  "valid_result s (cycle_episode_format s delta)" "valid_result s (cycle_storage_backend s delta)"
  "valid_result s (cycle_collection_mode s)" "valid_result s (set_episode_fps s value)"
  "valid_result s (set_monitor_metrics_frequency_hz s value)" "valid_result s (set_ui_http_host s value)"
  "valid_result s (set_ui_http_port s value)" "valid_result s (set_ui_single_char_key which s value)"
  "valid_result s (set_assembler_staging_slots s value)"
  unfolding cycle_episode_format_def cycle_storage_backend_def cycle_collection_mode_def set_episode_fps_def
    set_monitor_metrics_frequency_hz_def set_ui_http_host_def set_ui_http_port_def set_ui_single_char_key_def
    set_assembler_staging_slots_def Let_def
  by (intro valid_edit; simp add: upd_ui_def upd_assembler_def put_ui_key_back)+

lemma valid_text_setters:
  assumes "(action, setter) \<in> set text_setters"
  shows "valid_result s (setter s value)"
proof -
  have "\<forall>(action, setter) \<in> set text_setters. valid_result s (setter s value)"
    by (simp add: text_setters_def valid_edit set_project_name_def set_storage_output_path_def set_storage_endpoint_def
        set_dataloop_project_id_def set_dataloop_token_def set_episode_chunk_size_def set_controller_shutdown_timeout_ms_def
        set_controller_child_poll_interval_ms_def set_visualizer_port_def set_assembler_missing_eos_timeout_ms_def
        set_assembler_staging_dir_def set_storage_queue_size_def)
  with assms show ?thesis by blast
qed

section \<open>Devices and the panel\<close>

lemma update_available_config [simp]: "wz_config (update_available name f s) = wz_config s"
  by (simp add: update_available_def)

lemma update_channel_back: "wz_config (update_channel i j (\<lambda>_. channel_at s i j) (update_channel i j f s)) = wz_config s"
  by (cases "i < length (pj_devices (wz_config s))") (simp_all add: update_channel_def channel_at_def Let_def list_update_beyond)

lemma sync_states_config [simp]: "wz_config (sync_available_channel_state_lists name i j s) = wz_config s"
  by (simp add: sync_available_channel_state_lists_def Let_def)

lemma valid_devices [valid_edit]:
  "valid_result s (set_device_name s name value)" "valid_result s (toggle_device_selection s name)"
  "valid_result s (toggle_publish_state s name kind)" "valid_result s (toggle_recorded_state s name kind)"
proof -
  show "valid_result s (toggle_device_selection s name)"
    unfolding toggle_device_selection_def deselect_def Let_def
    by (intro valid_edit) (auto intro: valid_edit split: prod.split)
qed (unfold set_device_name_def toggle_publish_state_def toggle_recorded_state_def Let_def;
    intro valid_edit; simp)+

lemma valid_replace_channel [valid_edit]:
  assumes "\<And>s. wz_config (mirror s) = wz_config s"
  shows "valid_result s (replace_channel label i j ch mirror s)"
  unfolding replace_channel_def Let_def
  by (intro valid_edit valid_done) (simp_all add: update_channel_back assms)

lemma valid_edit_camera_channel [valid_edit]: "valid_result s (edit_camera_channel s name label change)"
  unfolding edit_camera_channel_def
  by (intro valid_edit) (simp add: sync_channel_into_available_def)

lemma valid_add_device [valid_edit]: "valid_result s (add_device s label device available)"
  unfolding add_device_def Let_def by (intro valid_edit valid_done) simp_all

lemma valid_panel [valid_edit]:
  "valid_result s (add_pseudo_camera s)" "valid_result s (add_pseudo_robot s)" "valid_result s (add_command_device s)"
  "valid_result s (subpanel_toggle_preview_enabled s name)" "valid_result s (subpanel_toggle_record_enabled s name)"
  "valid_result s (subpanel_cycle_record_field s name field delta)"
  "valid_result s (subpanel_set_record_field s name field value)"
  "valid_result s (subpanel_cycle_preview_field s name field delta)"
  "valid_result s (subpanel_set_preview_field s name field value)"
  "valid_result s (subpanel_set_control_frequency_hz s name value)"
  unfolding add_pseudo_camera_def add_pseudo_robot_def add_command_device_def subpanel_toggle_preview_enabled_def
    subpanel_toggle_record_enabled_def subpanel_cycle_record_field_def subpanel_set_record_field_def
    subpanel_cycle_preview_field_def subpanel_set_preview_field_def subpanel_set_control_frequency_hz_def Let_def
  by (intro valid_edit; simp add: sync_channel_into_available_def)+

section \<open>Pairings\<close>

lemma update_first_back:
  assumes "\<And>x. find P xs = Some x \<Longrightarrow> P (f x) \<and> g (f x) = x"
  shows "update_first P g (update_first P f xs) = xs"
  using assms by (induction xs) auto

lemma update_first_none: "find P xs = None \<Longrightarrow> update_first P f xs = xs"
  by (induction xs) (auto split: if_splits)

lemma find_update_first:
  "(\<And>x. P (f x) = P x) \<Longrightarrow> find P (update_first P f xs) = map_option f (find P xs)"
  by (induction xs) auto

text \<open>Putting the published states back undoes an update that only touched them.\<close>

lemma restore_published_states:
  "(case published_states_of config n of
      None \<Rightarrow> ensure_channel_publishes_state (pj_devices config) n k
    | Some ks \<Rightarrow> update_named_channel n (\<lambda>ch. ch\<lparr>ch_publish_states := ks\<rparr>)
        (ensure_channel_publishes_state (pj_devices config) n k)) = pj_devices config"
proof -
  let ?P = "\<lambda>d. dev_name d = fst n" and ?Q = "\<lambda>c. ch_channel_type c = snd n"
  let ?f = "\<lambda>c. if k \<in> set (ch_publish_states c) then c else c\<lparr>ch_publish_states := ch_publish_states c @ [k]\<rparr>"
  show ?thesis
  proof (cases "find ?P (pj_devices config)")
    case None
    then show ?thesis
      by (simp add: published_states_of_def device_named_def find_by_def ensure_channel_publishes_state_def
          update_named_channel_def update_first_none)
  next
    case (Some d)
    note device = this
    show ?thesis
    proof (cases "find ?Q (dev_channels d)")
      case None
      then have "update_first ?Q ?f (dev_channels d) = dev_channels d" by (rule update_first_none)
      with Some None show ?thesis
        by (simp add: published_states_of_def device_named_def channel_named_def find_by_def
            ensure_channel_publishes_state_def update_named_channel_def)
          (rule update_first_id [of _ _ d]; simp)
    next
      case (Some c)
      let ?g = "\<lambda>ch. ch\<lparr>ch_publish_states := ch_publish_states c\<rparr>"
      have undone: "update_first ?Q ?g (update_first ?Q ?f (dev_channels d)) = dev_channels d"
        by (rule update_first_back) (use Some in \<open>auto simp: find_Some_iff\<close>)
      show ?thesis
        using Some device
        by (simp add: published_states_of_def device_named_def channel_named_def find_by_def
            ensure_channel_publishes_state_def update_named_channel_def)
          (rule update_first_back; auto simp: undone find_Some_iff)
    qed
  qed
qed

lemma restore_switched:
  assumes "index < length (pj_pairings (wz_config s))" and "snapshot = pj_pairings (wz_config s) ! index"
  shows "wz_config (restore_mapping index snapshot (published_states_of (wz_config s) (leader_of snapshot))
    (switch_mapping s index snapshot policy)) = wz_config s"
proof -
  let ?k = "pr_leader_state (pairing_from_channels (pj_devices (wz_config s)) policy (leader_of snapshot) (follower_of snapshot) None)"
  have "(case published_states_of (wz_config s) (leader_of snapshot) of
      None \<Rightarrow> ensure_channel_publishes_state (pj_devices (wz_config s)) (leader_of snapshot) ?k
    | Some ks \<Rightarrow> update_named_channel (leader_of snapshot) (\<lambda>ch. ch\<lparr>ch_publish_states := ks\<rparr>)
        (ensure_channel_publishes_state (pj_devices (wz_config s)) (leader_of snapshot) ?k)) = pj_devices (wz_config s)"
    by (rule restore_published_states)
  with assms show ?thesis
    by (simp add: restore_mapping_def switch_mapping_def Let_def del: surjective_pairing split: option.splits)
qed

lemma valid_pairings [valid_edit]:
  "valid_result s (cycle_pair_mapping s index delta)" "valid_result s (remove_pairing s index)"
  "valid_result s (set_pairing_endpoint s index endpoint target)" "valid_result s (set_pairing_ratio s index ratio)"
proof -
  show "valid_result s (cycle_pair_mapping s index delta)"
  proof (cases "pair_at s (Some index)")
    case None
    then show ?thesis by (simp add: cycle_pair_mapping_def valid_same)
  next
    case (Some snapshot)
    then have i: "index < length (pj_pairings (wz_config s))" "snapshot = pj_pairings (wz_config s) ! index"
      by (auto simp: pair_at_def split: if_splits)
    show ?thesis
      unfolding cycle_pair_mapping_def Some Let_def option.case
      by (intro valid_edit valid_done) (simp_all add: restore_switched i)
  qed
  show "valid_result s (remove_pairing s index)" unfolding remove_pairing_def by (intro valid_edit)
  show "valid_result s (set_pairing_endpoint s index endpoint target)"
    unfolding set_pairing_endpoint_def Let_def by (intro valid_edit)
  show "valid_result s (set_pairing_ratio s index ratio)"
  proof (cases "pair_at s (Some index)")
    case None
    then show ?thesis by (simp add: set_pairing_ratio_def valid_same)
  next
    case (Some pair)
    then have "pair = pj_pairings (wz_config s) ! index" "index < length (pj_pairings (wz_config s))"
      by (auto simp: pair_at_def split: if_splits)
    then show ?thesis
      unfolding set_pairing_ratio_def Some Let_def option.case
      by (intro valid_edit valid_done) simp_all
  qed
qed

text \<open>Creating a pair never has to be taken back: an eligible pair is valid.\<close>

lemma create_pairing_from_result:
  assumes "project_ok (wz_config s)" and "create_pairing_from s t = (s', r)"
  shows "(r = Ok None \<and> wz_config s' = wz_config s)
    \<or> (r = Ok (Some (length (pj_pairings (wz_config s)))) \<and> s' = push_pairing s t \<and> project_ok (wz_config s'))"
proof -
  consider "tpc_leader t \<notin> set (eligible_leader_channels_for s (tpc_policy t) None)
      \<or> tpc_follower t \<notin> set (eligible_follower_channels_for s (tpc_policy t) (Some (tpc_leader t)) None)
      \<or> tpc_leader t = tpc_follower t"
    | "tpc_leader t \<in> set (eligible_leader_channels_for s (tpc_policy t) None)"
      "tpc_follower t \<in> set (eligible_follower_channels_for s (tpc_policy t) (Some (tpc_leader t)) None)"
      "tpc_leader t \<noteq> tpc_follower t" by blast
  then show ?thesis
  proof cases
    case 1
    with assms(2) show ?thesis by (auto simp: create_pairing_from_def split: if_splits)
  next
    case 2
    note pushed = push_eligible [OF assms(1) 2]
    from pushed(1) obtain u where "project_validate (wz_config (push_pairing s t)) = Ok u"
      by (cases "project_validate (wz_config (push_pairing s t))") (auto simp: project_ok_def)
    with assms(2) 2 pushed show ?thesis
      by (auto simp: create_pairing_from_def validated_or_def)
  qed
qed

lemma valid_create_from_value [valid_edit]: "valid_result s (create_from_value value s)"
proof -
  have *: "valid_result s (case create_pairing_from s2 t of (s', Ok m) \<Rightarrow> (s', Ok (m \<noteq> None)) | (s', Err e) \<Rightarrow> (s', Err e))"
    if "wz_config s2 = wz_config s" for s2 t
    using create_pairing_from_result [of s2 t] that
    by (cases "create_pairing_from s2 t") (auto simp: valid_result_def)
  show ?thesis
  proof (cases "Option.bind value parse_create_pairing_value")
    case (Some t)
    with * [of s t] show ?thesis by (simp add: create_from_value_def create_pairing_def del: not_None_eq)
  next
    case None
    then show ?thesis
    proof (cases "default_candidates s")
      case Nil
      with None show ?thesis
        by (simp add: create_from_value_def create_pairing_def pick_default_pair_endpoints_def valid_result_def)
    next
      case (Cons t ts)
      with None * [of s t] show ?thesis
        by (simp add: create_from_value_def create_pairing_def pick_default_pair_endpoints_def del: not_None_eq)
    qed
  qed
qed

section \<open>Commands\<close>

text \<open>The actions that replace a channel by the snapshot of its row and do not validate.\<close>

definition unchecked_actions :: "string set" where
  "unchecked_actions = {''setup_cycle_camera_profile'', ''setup_cycle_robot_mode'', ''setup_subpanel_cycle_primary''}"

lemma open_add_picker_valid:
  assumes "project_ok (wz_config s)"
  shows "project_ok (wz_config (fst (open_add_picker s)))"
proof (cases "add_pseudo_camera s")
  case (Pair s' r)
  show ?thesis
  proof (cases r)
    case (Inr b)
    have "valid_result s (s', Ok b)" using valid_panel(1) [of s] Pair Inr by simp
    with Pair Inr assms show ?thesis by (simp add: open_add_picker_def valid_result_def)
  next
    case (Inl e)
    with Pair show ?thesis
      by (auto simp: add_pseudo_camera_def add_device_def validated_or_def Let_def split: sum.splits)
  qed
qed

lemma toggle_identify_config: "wz_config (fst (toggle_identify n s)) = wz_config s"
  by (auto simp: toggle_identify_def fine_def set_identify_device_def split: sum.split option.split)

text \<open>What every session gets from a step: \<open>P\<close> of what the terminal shows, \<open>Q\<close> of an edit of the
  project; moving between the steps never touches the project.\<close>

definition step_all :: "(setup_session \<Rightarrow> bool edit \<Rightarrow> bool) \<Rightarrow> (setup_session \<Rightarrow> bool edit \<Rightarrow> bool) \<Rightarrow> wizard_step \<Rightarrow> bool" where
  "step_all P Q w \<longleftrightarrow> (case w of
       Skip \<Rightarrow> True
     | StateEdit f \<Rightarrow> (\<forall>s. P s (f s))
     | StepEdit f \<Rightarrow> (\<forall>s. wz_config (fst (f s)) = wz_config s)
     | ConfigEdit f \<Rightarrow> (\<forall>s. Q s (f s)))"

lemma step_all_simps [simp]:
  "step_all P Q Skip"
  "step_all P Q (StateEdit f) = (\<forall>s. P s (f s))"
  "step_all P Q (StepEdit g) = (\<forall>s. wz_config (fst (g s)) = wz_config s)"
  "step_all P Q (ConfigEdit h) = (\<forall>s. Q s (h s))"
  by (simp_all add: step_all_def)

lemma step_all_given: "(\<And>a. m = Some a \<Longrightarrow> step_all P Q (f a)) \<Longrightarrow> step_all P Q (given m f)"
  by (cases m) (simp_all add: given_def)

lemma step_all_either: "step_all P Q r \<Longrightarrow> step_all P Q r' \<Longrightarrow> step_all P Q (if b then r else r')"
  by simp

lemma step_all_option:
  "step_all P Q r \<Longrightarrow> (\<And>a. step_all P Q (f a)) \<Longrightarrow> step_all P Q (case m of None \<Rightarrow> r | Some a \<Rightarrow> f a)"
  by (cases m) auto

lemma step_all_edit: "(\<And>s. Q s (f s)) \<Longrightarrow> step_all P Q (ConfigEdit f)"
  by simp

lemmas step_shapes = step_all_either step_all_given step_all_option step_all_edit

lemma jump_keeps_config: "wz_config (fst (jump_to_step s v)) = wz_config s"
  unfolding jump_to_step_def Let_def if_distrib [of fst] if_distrib [of wz_config] fst_conv enter_step_keeps if_cancel
  by (rule refl)

lemma panel_keeps_config:
  "wz_config (fst (close_subpanel s)) = wz_config s" "wz_config (fst (open_subpanel s n)) = wz_config s"
  by (simp_all add: close_subpanel_def open_subpanel_def)

lemma steps_keep_config:
  "wz_config (fst (retreat_step s)) = wz_config s" "wz_config (fst (advance_step s)) = wz_config s" "fst (fine r) = fst r"
  by (simp_all add: retreat_step_def advance_step_def Let_def fine_def enter_step_keeps)

lemmas state_edits_keep_config = steps_keep_config jump_keeps_config panel_keeps_config toggle_identify_config

section \<open>Every command keeps a valid project valid\<close>

definition state_valid :: "setup_session \<Rightarrow> bool edit \<Rightarrow> bool" where
  "state_valid s r \<longleftrightarrow> (project_ok (wz_config s) \<longrightarrow> project_ok (wz_config (fst r)))"

abbreviation step_valid :: "wizard_step \<Rightarrow> bool" where
  "step_valid \<equiv> step_all state_valid valid_result"

lemma step_valid_text: "map_of text_setters action = Some setter \<Longrightarrow> step_valid (set_text_field value setter)"
  unfolding set_text_field_def by (rule step_all_given, simp) (blast intro: valid_text_setters map_of_SomeD)

lemmas edits_valid = valid_devices valid_panel valid_pairings valid_settings valid_create_from_value

lemma config_step_valid:
  assumes "sc_action c \<notin> unchecked_actions"
  shows "step_valid (config_step c)"
proof -
  have checked: "sc_action c \<noteq> ''setup_cycle_camera_profile''" "sc_action c \<noteq> ''setup_cycle_robot_mode''"
    "sc_action c \<noteq> ''setup_subpanel_cycle_primary''"
    using assms by (auto simp: unchecked_actions_def)
  show ?thesis
    unfolding config_step_def Let_def if_not_P [OF checked(1)] if_not_P [OF checked(2)] if_not_P [OF checked(3)]
    by (intro step_shapes step_valid_text edits_valid; simp add: state_valid_def)
qed

lemma state_valid_edits:
  "state_valid s (s, Ok True)" "state_valid s (fine (open_subpanel s n))" "state_valid s (fine (close_subpanel s))"
  "state_valid s (toggle_identify n s)" "state_valid s (fine (open_add_picker s))"
proof -
  show "state_valid s (fine (open_add_picker s))"
    unfolding state_valid_def steps_keep_config(3) by (blast intro: open_add_picker_valid)
qed (simp_all add: state_valid_def state_edits_keep_config)

lemma interpret_action_valid:
  assumes "sc_action c \<notin> unchecked_actions"
  shows "step_valid (interpret_action c)"
  unfolding interpret_action_def Let_def
  by (intro step_all_either step_all_given)
    (simp_all add: config_step_valid [OF assms] state_edits_keep_config state_valid_edits)

section \<open>Every change of the project is reported\<close>

definition flagged_result :: "setup_session \<Rightarrow> bool edit \<Rightarrow> bool" where
  "flagged_result s r \<longleftrightarrow> (\<forall>s'. project_ok (wz_config s) \<longrightarrow> r = (s', Ok False) \<longrightarrow> wz_config s' = wz_config s)"

lemma flagged_if_valid: "valid_result s r \<Longrightarrow> flagged_result s r"
  unfolding valid_result_def flagged_result_def by blast

lemma flagged_same: "flagged_result s (s, Ok False)"
  by (simp add: flagged_result_def)

lemma flagged_put: "flagged_result s (put_snapshot s name i j ch)"
  by (simp add: flagged_result_def put_snapshot_def)

lemma flagged_with_index: "(\<And>i j. flagged_result s (f i j)) \<Longrightarrow> flagged_result s (with_index s r f)"
  by (auto simp: flagged_result_def with_index_Ok)

lemma flagged_if: "flagged_result s r \<Longrightarrow> flagged_result s r' \<Longrightarrow> flagged_result s (if b then r else r')"
  by simp

lemma flagged_option:
  "flagged_result s r \<Longrightarrow> (\<And>a. flagged_result s (f a)) \<Longrightarrow> flagged_result s (case m of None \<Rightarrow> r | Some a \<Rightarrow> f a)"
  by (cases m) simp_all

lemma flagged_list:
  "flagged_result s r \<Longrightarrow> (\<And>a as. flagged_result s (f a as)) \<Longrightarrow> flagged_result s (case xs of [] \<Rightarrow> r | a # as \<Rightarrow> f a as)"
  by (cases xs) simp_all

lemmas flagged_shapes = flagged_same flagged_put flagged_with_index flagged_if flagged_option flagged_list

lemma flagged_cycles:
  "flagged_result s (cycle_device_profile s name delta)" "flagged_result s (cycle_robot_mode s name delta)"
  "flagged_result s (subpanel_cycle_primary s name delta)"
proof -
  show profile: "flagged_result s (cycle_device_profile s name delta)"
    unfolding cycle_device_profile_def Let_def by (intro flagged_shapes)
  show mode: "flagged_result s (cycle_robot_mode s name delta)"
    unfolding cycle_robot_mode_def Let_def by (intro flagged_shapes)
  show "flagged_result s (subpanel_cycle_primary s name delta)"
    using profile mode unfolding subpanel_cycle_primary_def by (auto intro: flagged_shapes split: device_type.split option.split)
qed

abbreviation step_flagged :: "wizard_step \<Rightarrow> bool" where
  "step_flagged \<equiv> step_all (\<lambda>s r. wz_config (fst r) = wz_config s) flagged_result"

lemma step_flagged_text: "map_of text_setters action = Some setter \<Longrightarrow> step_flagged (set_text_field value setter)"
  unfolding set_text_field_def
  by (rule step_all_given, simp) (blast intro: flagged_if_valid valid_text_setters map_of_SomeD)

lemma config_step_flagged: "step_flagged (config_step c)"
  unfolding config_step_def Let_def
  by (intro step_shapes step_flagged_text edits_valid [THEN flagged_if_valid] flagged_cycles; simp)

lemma interpret_action_flagged:
  assumes "sc_action c \<noteq> ''setup_open_add_picker''"
  shows "step_flagged (interpret_action c)"
  unfolding interpret_action_def Let_def if_not_P [OF assms]
  by (intro step_all_either step_all_given) (simp_all add: config_step_flagged state_edits_keep_config)

lemma apply_command_edit:
  "sc_msg_type c = ''command'' \<Longrightarrow> sc_action c \<noteq> ''setup_save'' \<Longrightarrow> sc_action c \<noteq> ''setup_cancel'' \<Longrightarrow>
    apply_command H w c = (case interpret_action c of
        Skip \<Rightarrow> (w, Ok SessionMutation_default)
      | StateEdit f \<Rightarrow> step_result mutation_state_only w (f (wiz_session w))
      | StepEdit f \<Rightarrow> step_result mutation_step_changed w (fine (f (wiz_session w)))
      | ConfigEdit f \<Rightarrow> step_result mutation_config_changed w (f (wiz_session w)))"
  by (simp add: apply_command_def)

lemma step_result_Ok:
  "step_result mutation w r = (w', Ok m) \<longleftrightarrow> (\<exists>b. snd r = Ok b \<and> m = mutation b \<and> w' = w\<lparr>wiz_session := fst r\<rparr>)"
  by (cases "snd r") (auto simp: step_result_def map_err_def bind_ok_def)

lemma apply_command_other:
  assumes "apply_command H w c = (w', Ok m)" and "sc_msg_type c \<noteq> ''command'' \<or> sc_action c = ''setup_save'' \<or> sc_action c = ''setup_cancel''"
  shows "wz_config (wiz_session w') = wz_config (wiz_session w)"
  using assms by (auto simp: apply_command_def mark_saved_def mark_cancelled_def split: prod.splits sum.splits if_splits)

lemma unflagged_command_keeps_config:
  assumes ok: "project_ok (wz_config (wiz_session w))" and c: "sc_action c \<noteq> ''setup_open_add_picker''"
    and run: "apply_command H w c = (w', Ok m)" and m: "\<not> sm_config_changed m"
  shows "wz_config (wiz_session w') = wz_config (wiz_session w)"
proof (cases "sc_msg_type c \<noteq> ''command'' \<or> sc_action c = ''setup_save'' \<or> sc_action c = ''setup_cancel''")
  case True
  with apply_command_other [OF run] show ?thesis by simp
next
  case False
  then have step: "apply_command H w c = (case interpret_action c of
        Skip \<Rightarrow> (w, Ok SessionMutation_default)
      | StateEdit f \<Rightarrow> step_result mutation_state_only w (f (wiz_session w))
      | StepEdit f \<Rightarrow> step_result mutation_step_changed w (fine (f (wiz_session w)))
      | ConfigEdit f \<Rightarrow> step_result mutation_config_changed w (f (wiz_session w)))"
    by (intro apply_command_edit) simp_all
  note flagged = interpret_action_flagged [OF c]
  show ?thesis
  proof (cases "interpret_action c")
    case (ConfigEdit f)
    with step run have "step_result mutation_config_changed w (f (wiz_session w)) = (w', Ok m)" by simp
    with m have "snd (f (wiz_session w)) = Ok False" "wiz_session w' = fst (f (wiz_session w))"
      by (auto simp: step_result_Ok mutation_config_changed_def)
    moreover have "flagged_result (wiz_session w) (f (wiz_session w))" using flagged ConfigEdit by simp
    ultimately show ?thesis using ok unfolding flagged_result_def by (metis prod.collapse)
  next
    case (StateEdit f)
    with step run have "step_result mutation_state_only w (f (wiz_session w)) = (w', Ok m)" by simp
    then have "wiz_session w' = fst (f (wiz_session w))" by (auto simp: step_result_Ok)
    with flagged StateEdit show ?thesis by simp
  next
    case (StepEdit f)
    with step run have "step_result mutation_step_changed w (fine (f (wiz_session w))) = (w', Ok m)" by simp
    then have "wiz_session w' = fst (f (wiz_session w))" by (auto simp: step_result_Ok fine_def)
    with flagged StepEdit show ?thesis by simp
  qed (use step run in simp)
qed

text \<open>What the unchecked commands do instead: the project's channel becomes the one of the row with
  another mode, so an edit of the channel that was not copied to the row is lost.\<close>

lemma mode_cycle_restores_row:
  assumes "cycle_robot_mode s name delta = (s', Ok True)"
  obtains i j a ch rest mode where "selected_device_index s name = Ok (Some (i, j))" "available_named s name = Some a"
    "dev_channels (avd_current a) = ch # rest"
    "wz_config s' = wz_config (update_channel i j (\<lambda>_. ch\<lparr>ch_mode := Some mode\<rparr>) s)"
proof -
  from assms obtain i j where ij: "selected_device_index s name = Ok (Some (i, j))"
    unfolding cycle_robot_mode_def with_index_Ok by blast
  with assms obtain a where a: "available_named s name = Some a"
    by (cases "available_named s name") (auto simp: cycle_robot_mode_def with_index_def)
  with assms ij obtain ch rest where ch: "dev_channels (avd_current a) = ch # rest"
    by (cases "dev_channels (avd_current a)") (auto simp: cycle_robot_mode_def with_index_def Let_def split: if_splits)
  with assms ij a obtain mode where put: "put_snapshot s name i j (ch\<lparr>ch_mode := Some mode\<rparr>) = (s', Ok True)"
    by (auto simp: cycle_robot_mode_def with_index_def Let_def split: if_splits)
  note ij a ch
  moreover from put have "wz_config s' = wz_config (update_channel i j (\<lambda>_. ch\<lparr>ch_mode := Some mode\<rparr>) s)"
    by (auto simp: put_snapshot_def update_channel_def update_config_def Let_def)
  ultimately show thesis by (rule that)
qed

section \<open>Saving\<close>

lemma save_project_config_writes:
  assumes "save_project_config to_string_pretty h project out fs = (fs', Ok u)"
  obtains doc where "to_string_pretty project = Ok doc" "file_at fs' (resolve h out) = Some (bytes_of doc)"
    "\<And>q. q \<noteq> resolve h out \<Longrightarrow> file_at fs' q = file_at fs q"
proof -
  from assms obtain fs1 v doc where dirs: "(if has_parent_dir out then create_dir_all h (butlast (resolve h out)) else io_return ()) fs = (fs1, Ok v)"
    and doc: "to_string_pretty project = Ok doc" and wr: "write_file h (resolve h out) (bytes_of doc) fs1 = (fs', Ok u)"
    by (auto simp: save_project_config_def io_then_Ok io_fail_def split: sum.splits)
  from write_file_cases [OF wr] have p: "resolve h out \<noteq> []" and fs': "fs' = AList.update (resolve h out) (RegularFile (bytes_of doc)) fs1"
    by auto
  have same: "file_at fs1 q = file_at fs q" for q
  proof (cases "has_parent_dir out")
    case True
    with dirs have "create_dir_all h (butlast (resolve h out)) fs = (fs1, Ok v)" by simp
    from create_dir_all_effect [OF this] show ?thesis
      by (metis entry.distinct(1) file_at_def file_at_iff option.case(1) option.inject not_Some_eq)
  qed (use dirs in \<open>simp add: io_return_def\<close>)
  have "file_at fs' (resolve h out) = Some (bytes_of doc)"
    and "\<And>q. q \<noteq> resolve h out \<Longrightarrow> file_at fs' q = file_at fs1 q"
    using p by (simp_all add: fs' file_at_def look_def update_conv')
  with same show thesis by (intro that [OF doc]) simp_all
qed

lemma save_into_existing:
  assumes "to_string_pretty project = Ok doc" and "willing_host h" and "resolve h out \<noteq> []"
    and "look fs (butlast (resolve h out)) = Some Directory" and "look fs (resolve h out) \<noteq> Some Directory"
  shows "\<exists>fs'. save_project_config to_string_pretty h project out fs = (fs', Ok ())"
proof -
  have "(if has_parent_dir out then create_dir_all h (butlast (resolve h out)) else io_return ()) fs = (fs, Ok ())"
    by (simp add: create_dir_all.simps [of h _ fs] assms(4) io_return_def)
  with assms show ?thesis
    by (simp add: save_project_config_def io_then_Ok write_file_def permitted_def willing_host_def write_contents_def)
qed

section \<open>Sequences of commands\<close>

lemma apply_command_valid:
  assumes ok: "project_ok (wz_config (wiz_session w))" and c: "sc_action c \<notin> unchecked_actions"
    and run: "apply_command H w c = (w', Ok m)"
  shows "project_ok (wz_config (wiz_session w'))"
proof -
  consider "sc_msg_type c \<noteq> ''command''" | "sc_msg_type c = ''command''" "sc_action c = ''setup_save'' \<or> sc_action c = ''setup_cancel''"
    | "sc_msg_type c = ''command''" "sc_action c \<noteq> ''setup_save''" "sc_action c \<noteq> ''setup_cancel''" by blast
  then show ?thesis
  proof cases
    case 1
    with ok run show ?thesis by (simp add: apply_command_def)
  next
    case 2
    with ok run show ?thesis
      by (auto simp: apply_command_def mark_saved_def mark_cancelled_def split: prod.splits sum.splits if_splits)
  next
    case 3
    show ?thesis
    proof (cases "interpret_action c")
      case Skip
      with 3 ok run show ?thesis by (simp add: apply_command_def)
    next
      case (StateEdit f)
      with 3 run ok interpret_action_valid [OF c] show ?thesis
        by (auto simp: apply_command_def step_result_def state_valid_def)
    next
      case (StepEdit f)
      with 3 run ok interpret_action_valid [OF c] show ?thesis
        by (auto simp: apply_command_def step_result_def fine_def)
    next
      case (ConfigEdit f)
      then have v: "valid_result (wiz_session w) (f (wiz_session w))" using interpret_action_valid [OF c] by simp
      obtain s' r where f: "f (wiz_session w) = (s', r)" by (cases "f (wiz_session w)")
      with 3 run ConfigEdit obtain b where "r = Ok b" "wiz_session w' = s'"
        by (cases r) (auto simp: apply_command_def step_result_def map_err_def bind_ok_def)
      with v ok f show ?thesis by (simp add: valid_result_def)
    qed
  qed
qed

definition checked_json :: "wizard_host \<Rightarrow> string \<Rightarrow> bool" where
  "checked_json H raw \<longleftrightarrow>
     (case bind_ok (map_err ParseError (jl_parse (wh_json H) (bytes_of raw))) setup_command_of_json of
        Err e \<Rightarrow> True
      | Ok c \<Rightarrow> sc_action c \<notin> unchecked_actions)"

lemma apply_commands_valid:
  "project_ok (wz_config (wiz_session w)) \<Longrightarrow> list_all (checked_json H) raws \<Longrightarrow>
    apply_commands H w m raws = (w', Ok m') \<Longrightarrow> project_ok (wz_config (wiz_session w'))"
proof (induction raws arbitrary: w m)
  case Nil
  then show ?case by simp
next
  case (Cons raw raws)
  from Cons.prems(3) obtain w1 n where step: "apply_raw_command H w raw = (w1, Ok n)"
    and rest: "apply_commands H w1 (mutation_merge m n) raws = (w', Ok m')"
    by (auto split: prod.splits sum.splits)
  from step Cons.prems(2) obtain c where "sc_action c \<notin> unchecked_actions" "apply_command H w c = (w1, Ok n)"
    by (auto simp: apply_raw_command_def checked_json_def split: sum.splits)
  from apply_command_valid [OF Cons.prems(1) this] Cons.IH [OF _ _ rest] Cons.prems(2) show ?case by simp
qed

end
