(* ===== verification/Sample_Setup.thy ===== *)
theory Sample_Setup
  imports Setup_Edits Sample_Dataset
begin

text \<open>
  A session of the setup wizard over the sample project without its pairing: each arm has a row
  whose driver supports both modes. The JSON crate is a stub that reads every command as the one
  that names the project.
\<close>

definition unpaired_project :: project_config where
  "unpaired_project = sample_project\<lparr>pj_pairings := []\<rparr>"

lemma unpaired_project_ok: "project_ok unpaired_project"
proof -
  have "project_ok (sample_project\<lparr>pj_devices := pj_devices sample_project, pj_pairings := []\<rparr>)"
    by (rule project_ok_edit [OF sample_project_ok refl]) (simp_all add: project_ok_devices(4) [OF sample_project_ok])
  then show ?thesis by (simp add: unpaired_project_def)
qed

definition arm_row :: "string \<Rightarrow> available_device" where
  "arm_row name = \<lparr>avd_name = name, avd_display_name = name, avd_device_type = Robot, avd_driver = ''driver'', avd_id = name,
     avd_camera_profiles = [], avd_supported_modes = [FreeDrive, CommandFollowing],
     avd_supported_states = [SK_JointPosition, SK_EndEffectorPose], avd_supported_commands = [CK_JointPosition, CK_EndPose],
     avd_direct_joint_compatibility = DirectJointCompatibility_default,
     avd_current = make_device name name [arm_channel FreeDrive]\<rparr>"

definition sample_setup :: setup_session where
  "sample_setup = SetupSession_new unpaired_project [arm_row ''leader'', arm_row ''follower''] ''project.toml'' False []"

definition naming_command :: setup_command where
  "naming_command = \<lparr>sc_msg_type = ''command'', sc_action = ''setup_set_project_name'', sc_name = None, sc_index = None,
     sc_delta = None, sc_value = Some ''demo'', sc_field = None\<rparr>"

definition setup_host :: wizard_host where
  "setup_host = \<lparr>wh_io = plain_host,
     wh_json = \<lparr>jl_pretty = (\<lambda>j. [49]), jl_compact = (\<lambda>j. [50]), jl_parse = (\<lambda>b. Ok (JObject
       [(''type'', JString ''command''), (''action'', JString ''setup_set_project_name''), (''value'', JString ''demo'')]))\<rparr>,
     wh_toml = (\<lambda>p. Ok (pj_project_name p)), wh_now = 0\<rparr>"

definition sample_wizard :: wizard where
  "sample_wizard = \<lparr>wiz_session = sample_setup, wiz_fs = [([''home''], Directory)]\<rparr>"

definition cartesian_pair :: teleop_pair_create where
  "cartesian_pair = \<lparr>tpc_policy = Cartesian, tpc_leader = (''leader'', ''arm''), tpc_follower = (''follower'', ''arm''),
     tpc_ratio = None\<rparr>"

lemma setup_evaluations:
  "tpc_leader cartesian_pair \<in> set (eligible_leader_channels_for sample_setup (tpc_policy cartesian_pair) None)
   \<and> tpc_follower cartesian_pair
      \<in> set (eligible_follower_channels_for sample_setup (tpc_policy cartesian_pair) (Some (tpc_leader cartesian_pair)) None)
   \<and> resolve plain_host ''project.toml'' = [''home'', ''project.toml'']
   \<and> pj_project_name unpaired_project \<noteq> ''demo'' \<and> trim ''demo'' = ''demo'' \<and> \<not> blank ''demo''
   \<and> setup_command_of_json (JObject
       [(''type'', JString ''command''), (''action'', JString ''setup_set_project_name''), (''value'', JString ''demo'')])
     = Ok naming_command"
  by code_simp

lemma naming_step: "interpret_action naming_command = ConfigEdit (\<lambda>s. set_project_name s ''demo'')"
  by (simp add: interpret_action_def config_step_def naming_command_def text_setters_def set_text_field_def given_def Let_def)

lemma sample_setup_config: "wz_config sample_setup = unpaired_project" "wz_output_path sample_setup = ''project.toml''"
  by (simp_all add: sample_setup_def SetupSession_new_def)

end
