(* ===== verification/Mcap_Writer.thy ===== *)
theory Mcap_Writer
  imports Episode_Assembler Episode_Paths
begin

text \<open>
  The payloads and the file of the MCAP assembler: \<^verbatim>\<open>episode-mcap/src/encode.rs\<close> and
  \<^verbatim>\<open>episode-mcap/src/mcap_writer.rs\<close>. The generated FlatBuffers code and the \<open>mcap\<close> crate are
  arguments: the first turns the fields of a table into bytes, the second is a writer with its own
  state, whose operations may fail. What the crate documents of them is \<open>mcap_documented\<close>: the
  records that were accepted, and the reader that returns them from a finished file.
\<close>

section \<open>Payloads\<close>

record fb_time =
  tm_sec :: u32
  tm_nsec :: u32

record fb_joint_state =
  js_name :: string
  js_position :: "f64 option"
  js_velocity :: "f64 option"
  js_acceleration :: "f64 option"
  js_effort :: "f64 option"

type_synonym vec3d = "f64 \<times> f64 \<times> f64"

text \<open>The tables of the schemas: each takes its fields and gives the finished buffer.\<close>

record fb_tables =
  fb_compressed_video :: "fb_time \<Rightarrow> string \<Rightarrow> string \<Rightarrow> bytes \<Rightarrow> bytes"
  fb_joint_states :: "fb_time \<Rightarrow> fb_joint_state list \<Rightarrow> bytes"
  fb_imu :: "fb_time \<Rightarrow> string \<Rightarrow> f64 \<times> vec3d \<Rightarrow> vec3d \<Rightarrow> vec3d \<Rightarrow> bytes"

definition time_from_us :: "u64 \<Rightarrow> fb_time" where
  "time_from_us timestamp_us =
     \<lparr>tm_sec = ucast (timestamp_us div 1000000), tm_nsec = ucast (timestamp_us mod 1000000 * 1000)\<rparr>"

definition encode_compressed_video :: "fb_tables \<Rightarrow> u64 \<Rightarrow> string \<Rightarrow> string \<Rightarrow> bytes \<Rightarrow> bytes" where
  "encode_compressed_video F timestamp_us frame_id format data =
     fb_compressed_video F (time_from_us timestamp_us) frame_id format data"

text \<open>A name that is empty is generated; a list of names that is too short gives \<open>?\<close>.\<close>

definition joint_name :: "string \<Rightarrow> string list option \<Rightarrow> nat \<Rightarrow> string" where
  "joint_name missing joint_names i =
     (let name = (case joint_names of None \<Rightarrow> [] | Some names \<Rightarrow> if i < length names then names ! i else missing)
      in if name = [] then CHR ''j'' # show_nat i else name)"

definition encode_joint_states :: "fb_tables \<Rightarrow> u64 \<Rightarrow> f64 list \<Rightarrow> string list option \<Rightarrow> bytes" where
  "encode_joint_states F timestamp_us values joint_names =
     fb_joint_states F (time_from_us timestamp_us)
       (map (\<lambda>(i, val). \<lparr>js_name = joint_name ''?'' joint_names i, js_position = Some val, js_velocity = None,
          js_acceleration = None, js_effort = None\<rparr>) (enumerate 0 values))"

definition encode_joint_mit_states :: "fb_tables \<Rightarrow> u64 \<Rightarrow> nat \<Rightarrow> f64 list \<Rightarrow> f64 list \<Rightarrow> f64 list \<Rightarrow> string list option \<Rightarrow> bytes" where
  "encode_joint_mit_states F timestamp_us len position velocity effort joint_names =
     (let get = (\<lambda>xs i. if i < length xs then Some (xs ! i) else None)
      in fb_joint_states F (time_from_us timestamp_us)
           (map (\<lambda>i. \<lparr>js_name = joint_name [] joint_names i, js_position = get position i, js_velocity = get velocity i,
              js_acceleration = None, js_effort = get effort i\<rparr>) [0..<len]))"

text \<open>The orientation is the identity: the scalar part and the vector part.\<close>

definition encode_imu :: "fb_tables \<Rightarrow> u64 \<Rightarrow> string \<Rightarrow> vec3d \<Rightarrow> vec3d \<Rightarrow> bytes" where
  "encode_imu F timestamp_us frame_id angular_velocity linear_acceleration =
     fb_imu F (time_from_us timestamp_us) frame_id (Fin 1, Fin 0, Fin 0, Fin 0) angular_velocity linear_acceleration"

section \<open>Schemas\<close>

datatype schema_type =
  CompressedVideo | RawImage | JointStates | Imu | TactileData | CameraCalibration | FrameTransform

fun schema_name :: "schema_type \<Rightarrow> string" where
  "schema_name CompressedVideo = ''foxglove.CompressedVideo''"
| "schema_name RawImage = ''foxglove.RawImage''"
| "schema_name JointStates = ''foxglove.JointStates''"
| "schema_name Imu = ''discover.Imu''"
| "schema_name TactileData = ''discover.TactileData''"
| "schema_name CameraCalibration = ''foxglove.CameraCalibration''"
| "schema_name FrameTransform = ''foxglove.FrameTransform''"

fun bfbs_filename :: "schema_type \<Rightarrow> string" where
  "bfbs_filename CompressedVideo = ''CompressedVideo.bfbs''"
| "bfbs_filename RawImage = ''RawImage.bfbs''"
| "bfbs_filename JointStates = ''JointStates.bfbs''"
| "bfbs_filename Imu = ''Imu.bfbs''"
| "bfbs_filename TactileData = ''TactileData.bfbs''"
| "bfbs_filename CameraCalibration = ''CameraCalibration.bfbs''"
| "bfbs_filename FrameTransform = ''FrameTransform.bfbs''"

definition SCHEMA_ENCODING :: string where "SCHEMA_ENCODING = ''flatbuffer''"
definition MESSAGE_ENCODING :: string where "MESSAGE_ENCODING = ''flatbuffer''"

section \<open>The crate\<close>

record message_header =
  mh_channel_id :: u16
  mh_sequence :: u32
  mh_log_time :: u64
  mh_publish_time :: u64

record 'w mcap_crate =
  mc_new :: "('w, string) result"
  mc_add_schema :: "'w \<Rightarrow> string \<Rightarrow> string \<Rightarrow> bytes \<Rightarrow> 'w \<times> (u16, string) result"
  mc_add_channel :: "'w \<Rightarrow> u16 \<Rightarrow> string \<Rightarrow> string \<Rightarrow> 'w \<times> (u16, string) result"
  mc_write :: "'w \<Rightarrow> message_header \<Rightarrow> bytes \<Rightarrow> 'w \<times> (unit, string) result"
  mc_write_metadata :: "'w \<Rightarrow> string \<Rightarrow> (string, string) btree_map \<Rightarrow> 'w \<times> (unit, string) result"
  mc_finish :: "'w \<Rightarrow> 'w \<times> (unit, string) result"
  mc_written :: "'w \<Rightarrow> bytes"

text \<open>What a reader finds in a file.\<close>

record mcap_contents =
  mcf_schemas :: "u16 \<rightharpoonup> string \<times> string \<times> bytes"
  mcf_channels :: "u16 \<rightharpoonup> u16 \<times> string \<times> string"
  mcf_messages :: "(message_header \<times> bytes) list"
  mcf_metadata :: "(string \<times> (string, string) btree_map) list"

definition mcap_empty :: mcap_contents where
  "mcap_empty = \<lparr>mcf_schemas = Map.empty, mcf_channels = Map.empty, mcf_messages = [], mcf_metadata = []\<rparr>"

text \<open>The documented behaviour: accepted records are kept, in order for messages and metadata; an id
  that is returned a second time stands for the same schema or channel; a finished file is read back
  as what was accepted.\<close>

definition mcap_documented :: "'w mcap_crate \<Rightarrow> ('w \<Rightarrow> mcap_contents) \<Rightarrow> (bytes \<Rightarrow> mcap_contents option) \<Rightarrow> bool" where
  "mcap_documented L accepted read \<longleftrightarrow>
     (\<forall>w. mc_new L = Ok w \<longrightarrow> accepted w = mcap_empty)
     \<and> (\<forall>w n e d w' k. mc_add_schema L w n e d = (w', Ok k) \<longrightarrow>
          mcf_schemas (accepted w) k \<in> {None, Some (n, e, d)}
          \<and> accepted w' = (accepted w)\<lparr>mcf_schemas := (mcf_schemas (accepted w))(k \<mapsto> (n, e, d))\<rparr>)
     \<and> (\<forall>w s t e w' k. mc_add_channel L w s t e = (w', Ok k) \<longrightarrow>
          mcf_channels (accepted w) k \<in> {None, Some (s, t, e)}
          \<and> accepted w' = (accepted w)\<lparr>mcf_channels := (mcf_channels (accepted w))(k \<mapsto> (s, t, e))\<rparr>)
     \<and> (\<forall>w m d w'. mc_write L w m d = (w', Ok ()) \<longrightarrow>
          accepted w' = (accepted w)\<lparr>mcf_messages := mcf_messages (accepted w) @ [(m, d)]\<rparr>)
     \<and> (\<forall>w n m w'. mc_write_metadata L w n m = (w', Ok ()) \<longrightarrow>
          accepted w' = (accepted w)\<lparr>mcf_metadata := mcf_metadata (accepted w) @ [(n, m)]\<rparr>)
     \<and> (\<forall>w w'. mc_finish L w = (w', Ok ()) \<longrightarrow> read (mc_written L w') = Some (accepted w))"

section \<open>The episode writer\<close>

record mcap_channel =
  mch_channel_id :: u16
  mch_topic :: string
  mch_schema_type :: schema_type
  mch_sequence :: u32

record 'w mcap_writer =
  mw_writer :: 'w
  mw_channels :: "mcap_channel list"
  mw_schema_ids :: "schema_type \<rightharpoonup> u16"

text \<open>Operations of the writer read the file system and change the writer only.\<close>

type_synonym ('w, 'a) writing = "fs \<Rightarrow> 'w mcap_writer \<Rightarrow> 'w mcap_writer \<times> ('a, io_error) result"

definition writing_bind :: "('w, 'a) writing \<Rightarrow> ('a \<Rightarrow> ('w, 'b) writing) \<Rightarrow> ('w, 'b) writing" where
  "writing_bind m f = (\<lambda>fs w. case m fs w of (w', Err e) \<Rightarrow> (w', Err e) | (w', Ok a) \<Rightarrow> f a fs w')"

definition writing_return :: "'a \<Rightarrow> ('w, 'a) writing" where
  "writing_return a = (\<lambda>fs w. (w, Ok a))"

text \<open>\<open>for x in xs \{ f(x)?; \}\<close>\<close>

fun writing_each :: "('a \<Rightarrow> ('w, unit) writing) \<Rightarrow> 'a list \<Rightarrow> ('w, unit) writing" where
  "writing_each f [] = writing_return ()"
| "writing_each f (x # xs) = writing_bind (f x) (\<lambda>_. writing_each f xs)"

text \<open>A call of the crate followed by \<open>?\<close>.\<close>

definition crate_call :: "('w \<Rightarrow> 'w \<times> ('a, string) result) \<Rightarrow> ('w, 'a) writing" where
  "crate_call call = (\<lambda>fs w. case call (mw_writer w) of (x, r) \<Rightarrow> (w\<lparr>mw_writer := x\<rparr>, map_err Message r))"

definition writer_new :: "'w \<Rightarrow> 'w mcap_writer" where
  "writer_new x = \<lparr>mw_writer = x, mw_channels = [], mw_schema_ids = Map.empty\<rparr>"

definition ensure_schema :: "io_host \<Rightarrow> 'w mcap_crate \<Rightarrow> path \<Rightarrow> schema_type \<Rightarrow> ('w, u16) writing" where
  "ensure_schema h L bfbs_dir schema_type = (\<lambda>fs w.
     case mw_schema_ids w schema_type of
       Some k \<Rightarrow> (w, Ok k)
     | None \<Rightarrow>
         (case snd (read_file h (bfbs_dir @ [bfbs_filename schema_type]) fs) of
            Err e \<Rightarrow> (w, Err e)
          | Ok schema_data \<Rightarrow>
              writing_bind (crate_call (\<lambda>x. mc_add_schema L x (schema_name schema_type) SCHEMA_ENCODING schema_data))
                (\<lambda>k fs w. (w\<lparr>mw_schema_ids := (mw_schema_ids w)(schema_type \<mapsto> k)\<rparr>, Ok k)) fs w))"

definition add_channel :: "io_host \<Rightarrow> 'w mcap_crate \<Rightarrow> path \<Rightarrow> string \<Rightarrow> schema_type \<Rightarrow> ('w, nat) writing" where
  "add_channel h L bfbs_dir topic schema_type =
     writing_bind (ensure_schema h L bfbs_dir schema_type) (\<lambda>schema_id.
     writing_bind (crate_call (\<lambda>x. mc_add_channel L x schema_id topic MESSAGE_ENCODING)) (\<lambda>channel_id fs w.
       (w\<lparr>mw_channels := mw_channels w @ [\<lparr>mch_channel_id = channel_id, mch_topic = topic,
            mch_schema_type = schema_type, mch_sequence = 0\<rparr>]\<rparr>, Ok (length (mw_channels w)))))"

text \<open>The sequence wraps, as in a release build.\<close>

definition write_message :: "'w mcap_crate \<Rightarrow> nat \<Rightarrow> u64 \<Rightarrow> bytes \<Rightarrow> ('w, unit) writing" where
  "write_message L channel_idx timestamp_ns data = (\<lambda>fs w.
     if length (mw_channels w) \<le> channel_idx then (w, Err Panicked)
     else let c = mw_channels w ! channel_idx; s = mch_sequence c + 1
          in crate_call (\<lambda>x. mc_write L x \<lparr>mh_channel_id = mch_channel_id c, mh_sequence = s,
                 mh_log_time = timestamp_ns, mh_publish_time = timestamp_ns\<rparr> data) fs
               (w\<lparr>mw_channels := (mw_channels w)[channel_idx := c\<lparr>mch_sequence := s\<rparr>]\<rparr>))"

definition us_to_ns :: "u64 \<Rightarrow> u64" where
  "us_to_ns timestamp_us = (if unat timestamp_us * 1000 < 2 ^ 64 then timestamp_us * 1000 else - 1)"

end
