(* ===== verification/Mcap_Staging.thy ===== *)
theory Mcap_Staging
  imports Mcap_Writer
begin

text \<open>
  Staging an episode as an MCAP file: \<open>stage_episode_mcap\<close> of \<^verbatim>\<open>episode-mcap/src/runtime.rs\<close>. The
  file is created empty, and what it holds in the end is what the writer has written when it is
  dropped, on success and on failure alike. \<open>stage_holds_episode\<close> states what a reader finds in a
  file that was staged successfully.
\<close>

section \<open>The schemas\<close>

definition resolve_bfbs_dir :: "io_host \<Rightarrow> string option \<Rightarrow> assembler_runtime_config_v2 \<Rightarrow> fs \<Rightarrow> (path, string) result" where
  "resolve_bfbs_dir h bfbs_var config fs =
     (let from_env = Option.bind bfbs_var (\<lambda>d. if is_dir fs (resolve h d) then Some (resolve h d) else None);
          installed = resolve h ''/usr/share/rollio/bfbs'';
          staging = asm_staging_dir config;
          parent = (if components staging = [] then io_cwd h else butlast (resolve h staging))
      in case from_env of
           Some p \<Rightarrow> Ok p
         | None \<Rightarrow>
             if is_dir fs installed then Ok installed
             else if is_dir fs (parent @ [''bfbs'']) then Ok (parent @ [''bfbs''])
             else Err ''Cannot find .bfbs schema directory'')"

section \<open>The streams of an episode\<close>

fun video_format :: "encoder_codec \<Rightarrow> string" where
  "video_format H264 = ''h264''"
| "video_format H265 = ''h265''"
| "video_format Av1 = ''av1''"
| "video_format Mjpg = ''mjpeg''"
| "video_format Rvl = ''rvl''"

definition camera_messages ::
  "fb_tables \<Rightarrow> camera_stream_buffer pending_episode \<Rightarrow> assembler_camera_runtime_config_v2 \<Rightarrow> (u64 \<times> bytes) list" where
  "camera_messages F episode camera =
     (case map_of (pd_camera_streams episode) (acam_channel_id camera) of
        None \<Rightarrow> []
      | Some stream \<Rightarrow> map (\<lambda>p. (cp_timestamp_us p, encode_compressed_video F (cp_timestamp_us p) (acam_channel_id camera)
          (video_format (acam_codec camera)) (cp_data p))) (csb_packets stream))"

definition sample_messages :: "fb_tables \<Rightarrow> sample list \<Rightarrow> (u64 \<times> bytes) list" where
  "sample_messages F samples =
     map (\<lambda>s. (smp_timestamp_us s, encode_joint_states F (smp_timestamp_us s) (smp_values s) None)) samples"

definition episode_metadata :: "assembler_runtime_config_v2 \<Rightarrow> camera_stream_buffer pending_episode \<Rightarrow> (string, string) btree_map" where
  "episode_metadata config episode =
     (let m = bt_insert ''start_time_us'' (show_nat (unat (pd_start_time_us episode)))
                (bt_insert ''episode_index'' (show_u32 (pd_episode_index episode)) []);
          m = (case pd_stop_time_us episode of None \<Rightarrow> m | Some stop \<Rightarrow> bt_insert ''stop_time_us'' (show_nat (unat stop)) m)
      in if asm_embedded_config_toml config = [] then m
         else bt_insert ''config_toml'' (asm_embedded_config_toml config) m)"

section \<open>Writing them\<close>

text \<open>A channel and its messages.\<close>

definition write_stream :: "io_host \<Rightarrow> 'w mcap_crate \<Rightarrow> path \<Rightarrow> string \<Rightarrow> schema_type \<Rightarrow> (u64 \<times> bytes) list \<Rightarrow> ('w, unit) writing" where
  "write_stream h L bfbs_dir topic schema_type messages =
     writing_bind (add_channel h L bfbs_dir topic schema_type) (\<lambda>channel_idx.
       writing_each (\<lambda>(timestamp_us, fb_data). write_message L channel_idx (us_to_ns timestamp_us) fb_data) messages)"

definition write_cameras :: "io_host \<Rightarrow> 'w mcap_crate \<Rightarrow> fb_tables \<Rightarrow> path \<Rightarrow> assembler_runtime_config_v2
    \<Rightarrow> camera_stream_buffer pending_episode \<Rightarrow> ('w, unit) writing" where
  "write_cameras h L F bfbs_dir config episode =
     writing_each (\<lambda>camera. write_stream h L bfbs_dir (''/camera/'' @ acam_channel_id camera @ ''/video'') CompressedVideo
       (camera_messages F episode camera)) (asm_cameras config)"

definition write_samples :: "io_host \<Rightarrow> 'w mcap_crate \<Rightarrow> fb_tables \<Rightarrow> path \<Rightarrow> string \<Rightarrow> (string, sample list) btree_map
    \<Rightarrow> ('w, unit) writing" where
  "write_samples h L F bfbs_dir topic_root samples_by_key =
     writing_each (\<lambda>(key, samples). write_stream h L bfbs_dir (topic_root @ key) JointStates (sample_messages F samples)) samples_by_key"

definition write_episode :: "io_host \<Rightarrow> 'w mcap_crate \<Rightarrow> fb_tables \<Rightarrow> path \<Rightarrow> assembler_runtime_config_v2
    \<Rightarrow> camera_stream_buffer pending_episode \<Rightarrow> ('w, unit) writing" where
  "write_episode h L F bfbs_dir config episode =
     writing_bind (write_cameras h L F bfbs_dir config episode) (\<lambda>_.
     writing_bind (write_samples h L F bfbs_dir ''/observation/'' (pd_observation_samples episode)) (\<lambda>_.
     writing_bind (write_samples h L F bfbs_dir ''/action/'' (pd_action_samples episode)) (\<lambda>_.
     writing_bind (crate_call (\<lambda>x. mc_write_metadata L x ''episode'' (episode_metadata config episode))) (\<lambda>_.
       crate_call (mc_finish L)))))"

text \<open>Dropping the writer flushes it; the result of that is not looked at.\<close>

definition stage_episode_mcap :: "io_host \<Rightarrow> 'w mcap_crate \<Rightarrow> fb_tables \<Rightarrow> path \<Rightarrow> assembler_runtime_config_v2
    \<Rightarrow> camera_stream_buffer pending_episode \<Rightarrow> staged_episode io" where
  "stage_episode_mcap h L F bfbs_dir config episode =
     (let episode_dir = join_path (asm_staging_dir config) (episode_name (pd_episode_index episode));
          mcap_path = resolve h episode_dir @ [''episode.mcap'']
      in io_then (create_dir_all h (resolve h episode_dir))
           (io_then (write_file h mcap_path [])
             (case mc_new L of
                Err e \<Rightarrow> io_fail (Message e)
              | Ok x \<Rightarrow> (\<lambda>fs. case write_episode h L F bfbs_dir config episode fs (writer_new x) of (w, r) \<Rightarrow>
                  (fst (write_contents mcap_path (mc_written L (mw_writer w)) fs),
                   bind_ok r (\<lambda>_. Ok \<lparr>se_episode_index = pd_episode_index episode, se_staging_dir = episode_dir\<rparr>))))))"

section \<open>What the file holds\<close>

text \<open>The reader's view of a file: every message with the topic of its channel.\<close>

definition mcap_topic :: "mcap_contents \<Rightarrow> message_header \<Rightarrow> string option" where
  "mcap_topic c m = map_option (\<lambda>(s, t, e). t) (mcf_channels c (mh_channel_id m))"

definition mcap_log :: "mcap_contents \<Rightarrow> (string option \<times> u32 \<times> u64 \<times> bytes) list" where
  "mcap_log c = map (\<lambda>(m, d). (mcap_topic c m, mh_sequence m, mh_log_time m, d)) (mcf_messages c)"

text \<open>The specification: the streams one after the other, each numbered from one.\<close>

definition numbered_stream :: "string \<Rightarrow> (u64 \<times> bytes) list \<Rightarrow> (string option \<times> u32 \<times> u64 \<times> bytes) list" where
  "numbered_stream topic messages =
     map (\<lambda>(i, timestamp_us, d). (Some topic, of_nat (Suc i), us_to_ns timestamp_us, d)) (enumerate 0 messages)"

definition episode_log :: "fb_tables \<Rightarrow> assembler_runtime_config_v2 \<Rightarrow> camera_stream_buffer pending_episode
    \<Rightarrow> (string option \<times> u32 \<times> u64 \<times> bytes) list" where
  "episode_log F config episode =
     concat (map (\<lambda>camera. numbered_stream (''/camera/'' @ acam_channel_id camera @ ''/video'') (camera_messages F episode camera))
       (asm_cameras config))
     @ concat (map (\<lambda>(key, samples). numbered_stream (''/observation/'' @ key) (sample_messages F samples)) (pd_observation_samples episode))
     @ concat (map (\<lambda>(key, samples). numbered_stream (''/action/'' @ key) (sample_messages F samples)) (pd_action_samples episode))"

text \<open>\<open>appends\<close>: a writing step that succeeds leaves the channels of every earlier message known by
  their topics and adds exactly \<open>xs\<close> to the log.\<close>

definition all_known :: "mcap_contents \<Rightarrow> bool" where
  "all_known c \<longleftrightarrow> (\<forall>(m, d) \<in> set (mcf_messages c). mcap_topic c m \<noteq> None)"

definition appends :: "('w \<Rightarrow> mcap_contents) \<Rightarrow> (string option \<times> u32 \<times> u64 \<times> bytes) list \<Rightarrow> ('w, 'a) writing \<Rightarrow> bool" where
  "appends accepted xs m \<longleftrightarrow> (\<forall>fs w w' a. m fs w = (w', Ok a) \<longrightarrow> all_known (accepted (mw_writer w)) \<longrightarrow>
     all_known (accepted (mw_writer w')) \<and> mcap_log (accepted (mw_writer w')) = mcap_log (accepted (mw_writer w)) @ xs
     \<and> mcf_metadata (accepted (mw_writer w')) = mcf_metadata (accepted (mw_writer w)))"

lemma writing_bind_Ok:
  "writing_bind m f fs w = (w', Ok b) \<longleftrightarrow> (\<exists>w1 a. m fs w = (w1, Ok a) \<and> f a fs w1 = (w', Ok b))"
  by (auto simp: writing_bind_def split: prod.splits sum.splits)

lemma crate_call_Ok:
  "crate_call call fs w = (w', Ok a) \<longleftrightarrow> (\<exists>x. call (mw_writer w) = (x, Ok a) \<and> w' = w\<lparr>mw_writer := x\<rparr>)"
  by (auto simp: crate_call_def map_err_def split: prod.splits sum.splits)

lemma appendsD:
  "appends accepted xs m \<Longrightarrow> m fs w = (w', Ok a) \<Longrightarrow> all_known (accepted (mw_writer w)) \<Longrightarrow>
     all_known (accepted (mw_writer w')) \<and> mcap_log (accepted (mw_writer w')) = mcap_log (accepted (mw_writer w)) @ xs
     \<and> mcf_metadata (accepted (mw_writer w')) = mcf_metadata (accepted (mw_writer w))"
  unfolding appends_def by blast

lemma appends_bind:
  "appends accepted xs m \<Longrightarrow> (\<And>a. appends accepted ys (f a)) \<Longrightarrow> appends accepted (xs @ ys) (writing_bind m f)"
  by (fastforce simp: appends_def writing_bind_Ok)

lemma appends_each:
  "(\<And>x. x \<in> set ks \<Longrightarrow> appends accepted (g x) (f x)) \<Longrightarrow> appends accepted (concat (map g ks)) (writing_each f ks)"
proof (induction ks)
  case Nil
  then show ?case by (simp add: appends_def writing_return_def)
next
  case (Cons k ks)
  then show ?case by (auto intro: appends_bind)
qed

section \<open>The writer keeps the log\<close>

lemma documented:
  assumes "mcap_documented L accepted read"
  shows "mc_new L = Ok w \<Longrightarrow> accepted w = mcap_empty"
    and "mc_add_schema L w n e d = (w', Ok k) \<Longrightarrow>
      accepted w' = (accepted w)\<lparr>mcf_schemas := (mcf_schemas (accepted w))(k \<mapsto> (n, e, d))\<rparr>"
    and "mc_add_channel L w s t e = (w', Ok k) \<Longrightarrow> mcf_channels (accepted w) k \<in> {None, Some (s, t, e)}
      \<and> accepted w' = (accepted w)\<lparr>mcf_channels := (mcf_channels (accepted w))(k \<mapsto> (s, t, e))\<rparr>"
    and "mc_write L w m d = (w', Ok u) \<Longrightarrow> accepted w' = (accepted w)\<lparr>mcf_messages := mcf_messages (accepted w) @ [(m, d)]\<rparr>"
    and "mc_write_metadata L w n md = (w', Ok u) \<Longrightarrow>
      accepted w' = (accepted w)\<lparr>mcf_metadata := mcf_metadata (accepted w) @ [(n, md)]\<rparr>"
    and "mc_finish L w = (w', Ok u) \<Longrightarrow> read (mc_written L w') = Some (accepted w)"
  using assms by (simp_all add: mcap_documented_def)

lemma appends_schema:
  assumes "mcap_documented L accepted read"
  shows "appends accepted [] (ensure_schema h L bfbs_dir schema_type)"
  unfolding appends_def
proof (intro allI impI)
  fix fs w w' k assume run: "ensure_schema h L bfbs_dir schema_type fs w = (w', Ok k)" and known: "all_known (accepted (mw_writer w))"
  have "w' = w \<or> (\<exists>d x. mc_add_schema L (mw_writer w) (schema_name schema_type) SCHEMA_ENCODING d = (x, Ok k) \<and> mw_writer w' = x)"
    using run by (auto simp: ensure_schema_def writing_bind_Ok crate_call_Ok split: option.splits sum.splits)
  then show "all_known (accepted (mw_writer w')) \<and> mcap_log (accepted (mw_writer w')) = mcap_log (accepted (mw_writer w)) @ []
      \<and> mcf_metadata (accepted (mw_writer w')) = mcf_metadata (accepted (mw_writer w))"
    using known documented(2) [OF assms] by (auto simp: all_known_def mcap_log_def mcap_topic_def)
qed

text \<open>A new channel does not change the topic of an earlier message.\<close>

lemma channel_keeps_log:
  assumes "all_known c" and "mcf_channels c k \<in> {None, Some x}" and "c' = c\<lparr>mcf_channels := (mcf_channels c)(k \<mapsto> x)\<rparr>"
  shows "all_known c'" "mcap_log c' = mcap_log c"
proof -
  have "mcap_topic c' m = mcap_topic c m" if "(m, d) \<in> set (mcf_messages c)" for m d
    using assms that by (auto simp: all_known_def mcap_topic_def)
  with assms(1,3) show "all_known c'" "mcap_log c' = mcap_log c" by (auto simp: all_known_def mcap_log_def)
qed

lemma write_message_Ok:
  "write_message L i t d fs w = (w', Ok u) \<longleftrightarrow> i < length (mw_channels w)
     \<and> (\<exists>x. mc_write L (mw_writer w) \<lparr>mh_channel_id = mch_channel_id (mw_channels w ! i),
            mh_sequence = mch_sequence (mw_channels w ! i) + 1, mh_log_time = t, mh_publish_time = t\<rparr> d = (x, Ok u)
         \<and> w' = w\<lparr>mw_channels := (mw_channels w)[i := (mw_channels w ! i)\<lparr>mch_sequence := mch_sequence (mw_channels w ! i) + 1\<rparr>],
              mw_writer := x\<rparr>)"
  by (auto simp: write_message_def Let_def crate_call_Ok)

lemma messages_append:
  assumes doc: "mcap_documented L accepted read"
    and "writing_each (\<lambda>(timestamp_us, d). write_message L i (us_to_ns timestamp_us) d) ms fs w = (w', Ok u)"
    and "i < length (mw_channels w)" and "mch_sequence (mw_channels w ! i) = of_nat n"
    and "mcap_topic (accepted (mw_writer w)) \<lparr>mh_channel_id = mch_channel_id (mw_channels w ! i), mh_sequence = 0,
      mh_log_time = 0, mh_publish_time = 0\<rparr> = Some topic"
    and "all_known (accepted (mw_writer w))"
  shows "all_known (accepted (mw_writer w')) \<and> mcf_metadata (accepted (mw_writer w')) = mcf_metadata (accepted (mw_writer w))
    \<and> mcap_log (accepted (mw_writer w')) = mcap_log (accepted (mw_writer w))
       @ map (\<lambda>(j, timestamp_us, d). (Some topic, of_nat (Suc j), us_to_ns timestamp_us, d)) (enumerate n ms)"
  using assms(2-)
proof (induction ms arbitrary: w n)
  case Nil
  then show ?case by (simp add: writing_return_def)
next
  case (Cons m ms)
  obtain t d where m: "m = (t, d)" by (cases m)
  let ?c = "mw_channels w ! i"
  let ?head = "\<lparr>mh_channel_id = mch_channel_id ?c, mh_sequence = of_nat n + 1, mh_log_time = us_to_ns t, mh_publish_time = us_to_ns t\<rparr>"
  from Cons.prems(1,2,3) obtain x where wr: "mc_write L (mw_writer w) ?head d = (x, Ok ())"
    and rest: "writing_each (\<lambda>(timestamp_us, d). write_message L i (us_to_ns timestamp_us) d) ms fs
      (w\<lparr>mw_channels := (mw_channels w)[i := ?c\<lparr>mch_sequence := of_nat n + 1\<rparr>], mw_writer := x\<rparr>) = (w', Ok u)"
    by (auto simp: m writing_bind_Ok write_message_Ok)
  note accepted' = documented(4) [OF doc wr]
  have "all_known (accepted x)"
    using Cons.prems(4,5) by (fastforce simp: accepted' all_known_def mcap_topic_def)
  moreover have "mcap_log (accepted x) = mcap_log (accepted (mw_writer w)) @ [(Some topic, of_nat n + 1, us_to_ns t, d)]"
    using Cons.prems(4) by (simp add: accepted' mcap_log_def mcap_topic_def)
  ultimately show ?case
    using Cons.IH [OF rest, of "Suc n"] Cons.prems by (simp add: m accepted' mcap_topic_def add.commute)
qed

lemma appends_stream:
  assumes doc: "mcap_documented L accepted read"
  shows "appends accepted (numbered_stream topic ms) (write_stream h L bfbs_dir topic schema_type ms)"
  unfolding appends_def
proof (intro allI impI)
  fix fs w w' u assume run: "write_stream h L bfbs_dir topic schema_type ms fs w = (w', Ok u)" and known: "all_known (accepted (mw_writer w))"
  from run obtain w1 sid x cid where schema: "ensure_schema h L bfbs_dir schema_type fs w = (w1, Ok sid)"
    and channel: "mc_add_channel L (mw_writer w1) sid topic MESSAGE_ENCODING = (x, Ok cid)"
    and messages: "writing_each (\<lambda>(timestamp_us, d). write_message L (length (mw_channels w1)) (us_to_ns timestamp_us) d) ms fs
      (w1\<lparr>mw_writer := x, mw_channels := mw_channels w1 @ [\<lparr>mch_channel_id = cid, mch_topic = topic,
        mch_schema_type = schema_type, mch_sequence = 0\<rparr>]\<rparr>) = (w', Ok u)"
    by (auto simp: write_stream_def add_channel_def writing_bind_Ok crate_call_Ok)
  have w1: "all_known (accepted (mw_writer w1))"
    "mcap_log (accepted (mw_writer w1)) = mcap_log (accepted (mw_writer w))"
    "mcf_metadata (accepted (mw_writer w1)) = mcf_metadata (accepted (mw_writer w))"
    using appendsD [OF appends_schema [OF doc] schema known] by simp_all
  note added = documented(3) [OF doc channel]
  note x = channel_keeps_log [OF w1(1) conjunct1 [OF added] conjunct2 [OF added]]
  have "mcap_topic (accepted x) \<lparr>mh_channel_id = cid, mh_sequence = 0, mh_log_time = 0, mh_publish_time = 0\<rparr> = Some topic"
    using added by (simp add: mcap_topic_def)
  with messages_append [OF doc messages, of 0 topic] x w1 added
  show "all_known (accepted (mw_writer w')) \<and> mcap_log (accepted (mw_writer w')) = mcap_log (accepted (mw_writer w)) @ numbered_stream topic ms
      \<and> mcf_metadata (accepted (mw_writer w')) = mcf_metadata (accepted (mw_writer w))"
    by (simp add: numbered_stream_def)
qed

lemma appends_samples:
  "mcap_documented L accepted read \<Longrightarrow>
    appends accepted (concat (map (\<lambda>(key, samples). numbered_stream (topic_root @ key) (sample_messages F samples)) kvs))
      (write_samples h L F bfbs_dir topic_root kvs)"
  unfolding write_samples_def by (rule appends_each) (auto intro: appends_stream)

lemma appends_cameras:
  "mcap_documented L accepted read \<Longrightarrow>
    appends accepted (concat (map (\<lambda>camera. numbered_stream (''/camera/'' @ acam_channel_id camera @ ''/video'')
      (camera_messages F episode camera)) (asm_cameras config))) (write_cameras h L F bfbs_dir config episode)"
  unfolding write_cameras_def by (rule appends_each) (rule appends_stream)

lemma write_episode_log:
  assumes doc: "mcap_documented L accepted read" and new: "mc_new L = Ok x"
    and run: "write_episode h L F bfbs_dir config episode fs (writer_new x) = (w', Ok u)"
  shows "\<exists>c. read (mc_written L (mw_writer w')) = Some c \<and> mcap_log c = episode_log F config episode
    \<and> mcf_metadata c = [(''episode'', episode_metadata config episode)]"
proof -
  from run obtain w1 w2 w3 y z where cameras: "write_cameras h L F bfbs_dir config episode fs (writer_new x) = (w1, Ok ())"
    and observations: "write_samples h L F bfbs_dir ''/observation/'' (pd_observation_samples episode) fs w1 = (w2, Ok ())"
    and actions: "write_samples h L F bfbs_dir ''/action/'' (pd_action_samples episode) fs w2 = (w3, Ok ())"
    and meta: "mc_write_metadata L (mw_writer w3) ''episode'' (episode_metadata config episode) = (y, Ok ())"
    and finished: "mc_finish L y = (z, Ok ())" "mw_writer w' = z"
    by (auto simp: write_episode_def writing_bind_Ok crate_call_Ok)
  have new_log: "all_known (accepted (mw_writer (writer_new x)))" "mcap_log (accepted (mw_writer (writer_new x))) = []"
    "mcf_metadata (accepted (mw_writer (writer_new x))) = []"
    using documented(1) [OF doc new] by (simp_all add: writer_new_def mcap_empty_def all_known_def mcap_log_def)
  note c = appendsD [OF appends_cameras [OF doc] cameras new_log(1)]
  note o1 = appendsD [OF appends_samples [OF doc] observations conjunct1 [OF c]]
  note a1 = appendsD [OF appends_samples [OF doc] actions conjunct1 [OF o1]]
  have "mcap_log (accepted (mw_writer w3)) = episode_log F config episode" "mcf_metadata (accepted (mw_writer w3)) = []"
    using c o1 a1 new_log by (simp_all add: episode_log_def)
  moreover note documented(5) [OF doc meta] documented(6) [OF doc finished(1)]
  ultimately show ?thesis
    by (simp add: finished(2) mcap_log_def mcap_topic_def)
qed

lemma stage_holds_episode:
  assumes doc: "mcap_documented L accepted read"
    and run: "stage_episode_mcap h L F bfbs_dir config episode fs = (fs', Ok staged)"
  shows "\<exists>b c. file_at fs' (resolve h (se_staging_dir staged) @ [''episode.mcap'']) = Some b \<and> read b = Some c
    \<and> mcap_log c = episode_log F config episode \<and> mcf_metadata c = [(''episode'', episode_metadata config episode)]"
proof -
  let ?d = "join_path (asm_staging_dir config) (episode_name (pd_episode_index episode))"
  let ?p = "resolve h ?d @ [''episode.mcap'']"
  from run obtain x where new: "mc_new L = Ok x"
    by (cases "mc_new L") (auto simp: stage_episode_mcap_def Let_def io_then_Ok io_fail_def)
  with run obtain fs1 fs2 where created: "write_file h ?p [] fs1 = (fs2, Ok ())"
    and rest: "(case write_episode h L F bfbs_dir config episode fs2 (writer_new x) of (w, r) \<Rightarrow>
        (fst (write_contents ?p (mc_written L (mw_writer w)) fs2),
         bind_ok r (\<lambda>_. Ok \<lparr>se_episode_index = pd_episode_index episode, se_staging_dir = ?d\<rparr>))) = (fs', Ok staged)"
    by (auto simp: stage_episode_mcap_def Let_def io_then_Ok)
  obtain w r where written: "write_episode h L F bfbs_dir config episode fs2 (writer_new x) = (w, r)" by fastforce
  with rest have final: "(fst (write_contents ?p (mc_written L (mw_writer w)) fs2),
      bind_ok r (\<lambda>_. Ok \<lparr>se_episode_index = pd_episode_index episode, se_staging_dir = ?d\<rparr>)) = (fs', Ok staged)"
    by simp
  from final have r: "r = Ok ()" and staged: "se_staging_dir staged = ?d"
    by (cases r; auto simp: bind_ok_def)+
  from write_file_cases [OF created] have "look fs2 ?p \<noteq> Some Directory" "look fs2 (butlast ?p) = Some Directory"
    by (auto simp: look_def update_conv' butlast_append)
  then have "fs' = AList.update ?p (RegularFile (mc_written L (mw_writer w))) fs2"
    using final by (simp add: write_contents_def)
  then have "file_at fs' ?p = Some (mc_written L (mw_writer w))" by (simp add: file_at_def look_def update_conv')
  with write_episode_log [OF doc new written [unfolded r]] staged show ?thesis by auto
qed

end
