(* ===== verification/Sample_Mcap.thy ===== *)
theory Sample_Mcap
  imports Mcap_Staging Sample_Dataset Sample_Recording "HOL-Library.Countable"
begin

text \<open>
  A crate that behaves as documented: its state lists the accepted records, an id is the place of its
  record, the bytes of a file count up to a code of the state, and the reader decodes them. The
  tables are stubs of one byte.
\<close>

type_synonym stub_file = "(string \<times> string \<times> bytes) list \<times> (u16 \<times> string \<times> string) list
  \<times> ((u16 \<times> u32 \<times> u64 \<times> u64) \<times> bytes) list \<times> (string \<times> (string \<times> string) list) list"

definition at_id :: "'a list \<Rightarrow> u16 \<Rightarrow> 'a option" where
  "at_id xs k = (if unat k < length xs then Some (xs ! unat k) else None)"

definition stub_contents :: "stub_file \<Rightarrow> mcap_contents" where
  "stub_contents = (\<lambda>(ss, cs, ms, md). \<lparr>mcf_schemas = at_id ss, mcf_channels = at_id cs,
     mcf_messages = map (\<lambda>((k, s, l, p), d). (\<lparr>mh_channel_id = k, mh_sequence = s, mh_log_time = l, mh_publish_time = p\<rparr>, d)) ms,
     mcf_metadata = md\<rparr>)"

definition stub_register :: "'a list \<Rightarrow> 'a \<Rightarrow> 'a list \<times> (u16, string) result" where
  "stub_register xs x = (if length xs < 65536 then (xs @ [x], Ok (of_nat (length xs))) else (xs, Err ''full''))"

definition stub_crate :: "stub_file mcap_crate" where
  "stub_crate = \<lparr>mc_new = Ok ([], [], [], []),
     mc_add_schema = (\<lambda>(ss, r) n e d. case stub_register ss (n, e, d) of (ss', k) \<Rightarrow> ((ss', r), k)),
     mc_add_channel = (\<lambda>(ss, cs, r) s t e. case stub_register cs (s, t, e) of (cs', k) \<Rightarrow> ((ss, cs', r), k)),
     mc_write = (\<lambda>(ss, cs, ms, md) m d. ((ss, cs,
       ms @ [((mh_channel_id m, mh_sequence m, mh_log_time m, mh_publish_time m), d)], md), Ok ())),
     mc_write_metadata = (\<lambda>(ss, cs, ms, md) n m. ((ss, cs, ms, md @ [(n, m)]), Ok ())),
     mc_finish = (\<lambda>w. (w, Ok ())),
     mc_written = (\<lambda>w. replicate (to_nat w) 0)\<rparr>"

definition stub_read :: "bytes \<Rightarrow> mcap_contents option" where
  "stub_read b = Some (stub_contents (from_nat (length b)))"

lemma stub_register_Ok:
  assumes "stub_register xs x = (ys, Ok k)"
  shows "at_id xs k = None" "at_id ys = (at_id xs)(k \<mapsto> x)"
proof -
  from assms have n: "length xs < 65536" and k: "k = of_nat (length xs)" and ys: "ys = xs @ [x]"
    by (auto simp: stub_register_def split: if_splits)
  have u: "unat k = length xs" using n by (simp add: k unsigned_of_nat take_bit_nat_eq_self_iff)
  then have other: "unat j \<noteq> length xs" if "j \<noteq> k" for j :: u16
    using that word_unat_eq_iff by metis
  show "at_id xs k = None" "at_id ys = (at_id xs)(k \<mapsto> x)"
    using other by (auto simp: at_id_def ys u fun_eq_iff nth_append less_Suc_eq)
qed

lemma stub_documented: "mcap_documented stub_crate stub_contents stub_read"
  unfolding mcap_documented_def
  by (auto simp: stub_crate_def stub_contents_def mcap_empty_def at_id_def [where xs = "[]"] stub_read_def fun_eq_iff
      split: prod.splits dest: stub_register_Ok)

definition stub_tables :: fb_tables where
  "stub_tables = \<lparr>fb_compressed_video = (\<lambda>t i f d. 7 # d), fb_joint_states = (\<lambda>t js. [8]), fb_imu = (\<lambda>t i q a l. [9])\<rparr>"

definition mcap_fs :: fs where
  "mcap_fs = [([''home''], Directory), ([''bfbs''], Directory), ([''bfbs'', ''CompressedVideo.bfbs''], RegularFile [1]),
     ([''bfbs'', ''JointStates.bfbs''], RegularFile [2])]"

section \<open>Running it\<close>

definition mcap_episode :: "camera_stream_buffer pending_episode" where
  "mcap_episode = (PendingEpisode_new mcap_ops 3 1000 [])\<lparr>pd_stop_time_us := Some 4000,
     pd_observation_samples := [(''arm/joint_position'', [\<lparr>smp_timestamp_us = 2000, smp_values = [Fin 1]\<rparr>])]\<rparr>"

abbreviation stage_stub :: "assembler_runtime_config_v2 \<Rightarrow> camera_stream_buffer pending_episode \<Rightarrow> fs \<times> (staged_episode, io_error) result" where
  "stage_stub config episode \<equiv> stage_episode_mcap plain_host stub_crate stub_tables [''bfbs''] config episode mcap_fs"

text \<open>A call of the stub never fails.\<close>

lemma stub_new: "mc_new stub_crate = Ok ([], [], [], [])"
  by (simp add: stub_crate_def)

lemma stub_writes: "\<exists>x'. mc_write stub_crate x m d = (x', Ok ())" "\<exists>x'. mc_write_metadata stub_crate x n md = (x', Ok ())"
  "mc_finish stub_crate x = (x, Ok ())"
  by (cases x; simp add: stub_crate_def)+

lemma stub_message:
  assumes "i < length (mw_channels w)"
  shows "\<exists>w'. write_message stub_crate i t d fs w = (w', Ok ()) \<and> length (mw_channels w') = length (mw_channels w)"
proof -
  obtain x where "mc_write stub_crate (mw_writer w) \<lparr>mh_channel_id = mch_channel_id (mw_channels w ! i),
      mh_sequence = mch_sequence (mw_channels w ! i) + 1, mh_log_time = t, mh_publish_time = t\<rparr> d = (x, Ok ())"
    using stub_writes(1) by blast
  with assms show ?thesis by (simp add: write_message_def crate_call_def Let_def map_err_def)
qed

lemma stub_messages:
  "i < length (mw_channels w) \<Longrightarrow>
     \<exists>w'. writing_each (\<lambda>(timestamp_us, d). write_message stub_crate i (us_to_ns timestamp_us) d) ms fs w = (w', Ok ())"
proof (induction ms arbitrary: w)
  case (Cons m ms)
  obtain t d where m: "m = (t, d)" by (cases m)
  from stub_message [OF Cons.prems] obtain w1 where "write_message stub_crate i (us_to_ns t) d fs w = (w1, Ok ())"
    "length (mw_channels w1) = length (mw_channels w)" by blast
  with Cons show ?case by (simp add: m writing_bind_def)
qed (simp add: writing_return_def)

lemma stub_closing:
  "\<exists>w'. writing_bind (crate_call (\<lambda>x. mc_write_metadata stub_crate x n md)) (\<lambda>_. crate_call (mc_finish stub_crate)) fs w = (w', Ok ())"
  using stub_writes by (auto simp: writing_bind_Ok crate_call_Ok)

text \<open>The first channel of a fresh writer.\<close>

lemma stub_stream:
  assumes "file_at fs [''bfbs'', bfbs_filename schema_type] = Some schema"
  shows "\<exists>w'. write_stream plain_host stub_crate [''bfbs''] topic schema_type ms fs (writer_new ([], [], [], [])) = (w', Ok ())"
proof -
  have "snd (read_file plain_host [''bfbs'', bfbs_filename schema_type] fs) = Ok schema"
    using assms by (simp add: read_file_def plain_permitted file_at_def split: option.splits entry.splits)
  then have "add_channel plain_host stub_crate [''bfbs''] topic schema_type fs (writer_new ([], [], [], []))
    = (\<lparr>mw_writer = ([(schema_name schema_type, SCHEMA_ENCODING, schema)], [(0, topic, MESSAGE_ENCODING)], [], []),
        mw_channels = [\<lparr>mch_channel_id = 0, mch_topic = topic, mch_schema_type = schema_type, mch_sequence = 0\<rparr>],
        mw_schema_ids = [schema_type \<mapsto> 0]\<rparr>, Ok 0)"
    by (simp add: add_channel_def ensure_schema_def writing_bind_def crate_call_def writer_new_def stub_crate_def stub_register_def
        map_err_def)
  then obtain w1 where "add_channel plain_host stub_crate [''bfbs''] topic schema_type fs (writer_new ([], [], [], [])) = (w1, Ok 0)"
    "0 < length (mw_channels w1)" by simp
  with stub_messages [of 0 w1] show ?thesis by (simp add: write_stream_def writing_bind_def)
qed

text \<open>The file is created beside the schemas.\<close>

lemma mcap_evaluations:
  "join_path ''/staging'' (episode_name 3) = ''/staging/episode_000003''
   \<and> resolve plain_host ''/staging/episode_000003'' = [''staging'', ''episode_000003'']"
  by code_simp

lemma stub_stage:
  assumes "pd_episode_index episode = 3" "asm_staging_dir config = ''/staging''"
    and "\<And>fs. file_at fs [''bfbs'', ''CompressedVideo.bfbs''] = Some [1] \<Longrightarrow> file_at fs [''bfbs'', ''JointStates.bfbs''] = Some [2] \<Longrightarrow>
      \<exists>w'. write_episode plain_host stub_crate stub_tables [''bfbs''] config episode fs (writer_new ([], [], [], [])) = (w', Ok ())"
  shows "\<exists>fs' staged. stage_stub config episode = (fs', Ok staged)"
proof -
  let ?fs = "mcap_fs @ [([''staging''], Directory), ([''staging'', ''episode_000003''], Directory),
    ([''staging'', ''episode_000003'', ''episode.mcap''], RegularFile [])]"
  have eval: "join_path ''/staging'' (episode_name 3) = ''/staging/episode_000003''"
    "resolve plain_host ''/staging/episode_000003'' = [''staging'', ''episode_000003'']"
    using mcap_evaluations by blast+
  have created: "io_then (create_dir_all plain_host [''staging'', ''episode_000003''])
      (io_then (write_file plain_host [''staging'', ''episode_000003'', ''episode.mcap''] []) rest) mcap_fs = rest ?fs" for rest :: "staged_episode io"
    by (simp add: run_simps call_simps mcap_fs_def)
  have "file_at ?fs [''bfbs'', ''CompressedVideo.bfbs''] = Some [1]" "file_at ?fs [''bfbs'', ''JointStates.bfbs''] = Some [2]"
    by (simp_all add: call_simps mcap_fs_def)
  from assms(3) [OF this] show ?thesis
    by (auto simp: stage_episode_mcap_def Let_def assms(1,2) eval created stub_new bind_ok_def)
qed

lemma write_return: "writing_bind m writing_return = m" for m :: "('w, unit) writing"
  by (simp add: writing_bind_def writing_return_def fun_eq_iff split: prod.split sum.split)

lemma write_cameras_one: "write_cameras h L F d sample_asm_config episode =
  write_stream h L d ''/camera/cam/depth/video'' CompressedVideo (camera_messages F episode (hd (asm_cameras sample_asm_config)))"
  by (simp add: write_cameras_def sample_asm_config_def write_return)

lemma write_samples_one: "write_samples h L F d ''/observation/'' (pd_observation_samples mcap_episode) =
  write_stream h L d ''/observation/arm/joint_position'' JointStates
    (sample_messages F [\<lparr>smp_timestamp_us = 2000, smp_values = [Fin 1]\<rparr>])"
  by (simp add: write_samples_def mcap_episode_def write_return)

lemma stub_stages:
  assumes "pd_episode_index episode = 3" "pd_observation_samples episode = []" "pd_action_samples episode = []"
  shows "\<exists>fs' staged. stage_stub sample_asm_config episode = (fs', Ok staged)"
proof (rule stub_stage [OF assms(1)])
  fix fs
  assume "file_at fs [''bfbs'', ''CompressedVideo.bfbs''] = Some [1]"
  then have "\<exists>w'. write_stream plain_host stub_crate [''bfbs''] topic CompressedVideo ms fs (writer_new ([], [], [], [])) = (w', Ok ())" for topic ms
    by (intro stub_stream) simp
  then obtain w1 where "write_cameras plain_host stub_crate stub_tables [''bfbs''] sample_asm_config episode fs (writer_new ([], [], [], []))
      = (w1, Ok ())"
    by (force simp: write_cameras_one)
  then show "\<exists>w'. write_episode plain_host stub_crate stub_tables [''bfbs''] sample_asm_config episode fs (writer_new ([], [], [], []))
      = (w', Ok ())"
    using stub_closing by (simp add: write_episode_def write_samples_def assms(2,3) writing_bind_def writing_return_def)
qed (simp add: sample_asm_config_def)

lemma stub_stages_sample: "\<exists>fs' staged. stage_stub (sample_asm_config\<lparr>asm_cameras := []\<rparr>) mcap_episode = (fs', Ok staged)"
proof (rule stub_stage)
  fix fs
  assume "file_at fs [''bfbs'', ''JointStates.bfbs''] = Some [2]"
  then have "\<exists>w'. write_stream plain_host stub_crate [''bfbs''] topic JointStates ms fs (writer_new ([], [], [], [])) = (w', Ok ())" for topic ms
    by (intro stub_stream) simp
  then obtain w1 where "write_samples plain_host stub_crate stub_tables [''bfbs''] ''/observation/'' (pd_observation_samples mcap_episode) fs
      (writer_new ([], [], [], [])) = (w1, Ok ())"
    by (force simp: write_samples_one)
  then show "\<exists>w'. write_episode plain_host stub_crate stub_tables [''bfbs''] (sample_asm_config\<lparr>asm_cameras := []\<rparr>) mcap_episode fs
      (writer_new ([], [], [], [])) = (w', Ok ())"
    using stub_closing by (simp add: write_episode_def write_cameras_def write_samples_def mcap_episode_def PendingEpisode_new_def
        writing_bind_def writing_return_def)
qed (simp_all add: sample_asm_config_def mcap_episode_def PendingEpisode_new_def)

lemma numbered_stream_topics: "map fst (numbered_stream topic ms) = map (\<lambda>m. Some topic) ms"
  by (rule nth_equalityI) (simp_all add: numbered_stream_def case_prod_unfold)

end
