(* ===== verification/Runtime_Plan.thy ===== *)
theory Runtime_Plan
  imports Dataset_Resume Setup_Subpanel Config_Runtime
begin

text \<open>
  The processes of a session: \<open>build_preview_specs\<close> and \<open>build_collect_specs\<close> of
  \<^verbatim>\<open>controller/src/runtime_plan.rs\<close> with the program lookup of
  \<^verbatim>\<open>controller/src/runtime_paths.rs\<close>. The surroundings are an argument: the file system the
  lookup reads, the port the operating system reserves, what a probed encoder binary reports and
  the \<open>toml\<close> crate, one function per type it serializes.
\<close>

section \<open>Surroundings\<close>

record plan_host =
  ph_io :: io_host
  ph_fs :: fs
  ph_port :: "(u16, string) result"
  ph_probe :: "string \<Rightarrow> encoder_capability_report option"
  ph_toml_project :: "project_config \<Rightarrow> (string, string) result"
  ph_toml_visualizer :: "visualizer_runtime_config_v2 \<Rightarrow> (string, string) result"
  ph_toml_device :: "binary_device \<Rightarrow> (string, string) result"
  ph_toml_encoder :: "encoder_runtime_config_v2 \<Rightarrow> (string, string) result"
  ph_toml_teleop :: "teleop_runtime_config_v2 \<Rightarrow> (string, string) result"
  ph_toml_assembler :: "assembler_runtime_config_v2 \<Rightarrow> (string, string) result"
  ph_toml_storage :: "storage_runtime_config \<Rightarrow> (string, string) result"
  ph_toml_ui :: "ui_runtime_config \<Rightarrow> (string, string) result"

record child_spec =
  chs_id :: string
  chs_program :: string
  chs_args :: "string list"
  chs_working_directory :: string
  chs_inherit_stdio :: bool

text \<open>The directories a plan is made for.\<close>

record plan_dirs =
  pl_workspace_root :: string
  pl_share_root :: string
  pl_child_working_dir :: string
  pl_current_exe_dir :: string
  pl_invocation_cwd :: string

section \<open>Paths\<close>

text \<open>\<open>normalize_lexical\<close>: a \<open>..\<close> removes the component before it; where there is none it is kept.\<close>

definition push_component :: "path \<Rightarrow> string \<Rightarrow> path" where
  "push_component out component =
     (if component = ''..'' then if out = [] then [''..''] else butlast out else out @ [component])"

fun join_components :: "path \<Rightarrow> string" where
  "join_components [] = []"
| "join_components [c] = c"
| "join_components (c # cs) = c @ ''/'' @ join_components cs"

definition normalize_lexical :: "string \<Rightarrow> string" where
  "normalize_lexical p =
     (let out = foldl push_component [] (components p)
      in if is_absolute p then ''/'' @ join_components out
         else if out = [] then ''.'' else join_components out)"

definition resolve_invocation_relative_path :: "string \<Rightarrow> string \<Rightarrow> string" where
  "resolve_invocation_relative_path p invocation_cwd =
     normalize_lexical (if is_absolute p then p else join_path invocation_cwd p)"

section \<open>Programs\<close>

definition present :: "plan_host \<Rightarrow> string \<Rightarrow> bool" where
  "present P p \<longleftrightarrow> path_exists (ph_fs P) (resolve (ph_io P) p)"

definition resolve_program :: "plan_host \<Rightarrow> string \<Rightarrow> string \<Rightarrow> string" where
  "resolve_program P local_candidate fallback_name = (if present P local_candidate then local_candidate else fallback_name)"

definition resolve_existing_path :: "plan_host \<Rightarrow> string list \<Rightarrow> string option" where
  "resolve_existing_path P candidates = find (present P) candidates"

definition resolve_registered_program :: "plan_host \<Rightarrow> string \<Rightarrow> string \<Rightarrow> string \<Rightarrow> string" where
  "resolve_registered_program P executable_name workspace_root current_exe_dir =
     (let camera_build_root = join_path workspace_root ''cameras/build'';
          camera_candidates = (case snd (read_dir (ph_io P) (resolve (ph_io P) camera_build_root) (ph_fs P)) of
            Ok entries \<Rightarrow> map (\<lambda>(name, _). join_path (join_path camera_build_root name) executable_name) entries
          | Err _ \<Rightarrow> [])
      in case resolve_existing_path P
           ([join_path current_exe_dir executable_name,
             join_path (join_path workspace_root ''target/release'') executable_name,
             join_path (join_path workspace_root ''target/debug'') executable_name] @ camera_candidates) of
           Some p \<Rightarrow> p
         | None \<Rightarrow> executable_name)"

definition probe_encoder_has_backend :: "plan_host \<Rightarrow> string \<Rightarrow> encoder_backend \<Rightarrow> bool" where
  "probe_encoder_has_backend P binary target =
     (case ph_probe P binary of None \<Rightarrow> False
      | Some report \<Rightarrow> list_ex (\<lambda>cap. cap_backend cap = target \<and> cap_available cap) (report_codecs report))"

definition encoder_binary_for :: "plan_host \<Rightarrow> encoder_runtime_config_v2 \<Rightarrow> string \<Rightarrow> string" where
  "encoder_binary_for P config exe_dir =
     (let backend = (case er_recording config of Some r \<Rightarrow> re_backend r
            | None \<Rightarrow> (case er_preview config of Some p \<Rightarrow> pe_backend p | None \<Rightarrow> BackendAuto))
      in case backend of
           BackendHorizonX5 \<Rightarrow> ''rollio-encoder-x5''
         | BackendAuto \<Rightarrow>
             (let x5_path = join_path exe_dir ''rollio-encoder-x5''
              in if present P x5_path \<and> probe_encoder_has_backend P x5_path BackendHorizonX5
                 then ''rollio-encoder-x5'' else ''rollio-encoder'')
         | _ \<Rightarrow> ''rollio-encoder'')"

fun assembler_binary_for :: "episode_format \<Rightarrow> (string, string) result" where
  "assembler_binary_for LeRobotV2_1 = Ok ''rollio-episode-lerobot''"
| "assembler_binary_for Mcap = Ok ''rollio-episode-mcap''"
| "assembler_binary_for LeRobotV3_0 = Err ''episode.format = lerobot-v3.0 is not implemented yet''"

fun storage_binary_for :: "episode_format \<Rightarrow> storage_backend \<Rightarrow> (string, string) result" where
  "storage_binary_for LeRobotV2_1 LocalBackend = Ok ''rollio-storage-local-lerobot''"
| "storage_binary_for LeRobotV3_0 LocalBackend = Ok ''rollio-storage-local-lerobot''"
| "storage_binary_for Mcap LocalBackend = Ok ''rollio-storage-local''"
| "storage_binary_for _ HttpBackend = Err ''storage.backend = http is not implemented yet''"
| "storage_binary_for _ DataloopBackend = Ok ''rollio-storage-dataloop''"

section \<open>Children\<close>

definition bundled_child :: "plan_host \<Rightarrow> plan_dirs \<Rightarrow> string \<Rightarrow> string \<Rightarrow> string list \<Rightarrow> child_spec" where
  "bundled_child P D child_id binary args =
     \<lparr>chs_id = child_id, chs_program = resolve_program P (join_path (pl_current_exe_dir D) binary) binary, chs_args = args,
      chs_working_directory = pl_child_working_dir D, chs_inherit_stdio = False\<rparr>"

definition build_visualizer_spec :: "plan_host \<Rightarrow> plan_dirs \<Rightarrow> project_config \<Rightarrow> (child_spec, string) result" where
  "build_visualizer_spec P D config =
     bind_ok (ph_toml_visualizer P (visualizer_runtime_config_v2_of config)) (\<lambda>visualizer_config.
       Ok (bundled_child P D ''visualizer'' ''rollio-visualizer'' [''--config-inline'', visualizer_config]))"

datatype control_server_role = SetupServer | CollectServer

fun control_role_toml :: "control_server_role \<Rightarrow> string" where
  "control_role_toml SetupServer = ''setup''"
| "control_role_toml CollectServer = ''collect''"

definition build_control_server_spec :: "plan_host \<Rightarrow> plan_dirs \<Rightarrow> control_server_role \<Rightarrow> u16 \<Rightarrow> child_spec" where
  "build_control_server_spec P D role port =
     (let inline_config = ''port = '' @ show_nat (unat port) @ [CHR 0x0A] @ ''role = '' @ [CHR 0x22] @ control_role_toml role
            @ [CHR 0x22, CHR 0x0A]
      in bundled_child P D ''control-server'' ''rollio-control-server'' [''--config-inline'', inline_config])"

definition build_device_spec :: "plan_host \<Rightarrow> plan_dirs \<Rightarrow> binary_device \<Rightarrow> (child_spec, string) result" where
  "build_device_spec P D device =
     bind_ok (ph_toml_device P device) (\<lambda>inline_config.
       let executable_name = (case dev_executable device of Some e \<Rightarrow> e | None \<Rightarrow> default_device_executable_name (dev_driver device))
       in Ok \<lparr>chs_id = ''device-'' @ dev_name device,
              chs_program = resolve_registered_program P executable_name (pl_workspace_root D) (pl_current_exe_dir D),
              chs_args = [''run'', ''--config-inline'', inline_config],
              chs_working_directory = pl_child_working_dir D, chs_inherit_stdio = False\<rparr>)"

definition build_teleop_spec :: "plan_host \<Rightarrow> plan_dirs \<Rightarrow> teleop_runtime_config_v2 \<Rightarrow> (child_spec, string) result" where
  "build_teleop_spec P D config =
     bind_ok (ph_toml_teleop P config) (\<lambda>inline_config.
       Ok (bundled_child P D (''teleop-'' @ tel_process_id config) ''rollio-teleop-router'' [''run'', ''--config-inline'', inline_config]))"

definition build_encoder_spec :: "plan_host \<Rightarrow> plan_dirs \<Rightarrow> encoder_runtime_config_v2 \<Rightarrow> (child_spec, string) result" where
  "build_encoder_spec P D config =
     bind_ok (ph_toml_encoder P config) (\<lambda>inline_config.
       Ok (bundled_child P D
            (''encoder-'' @ encoder_role_as_str (er_role config) @ ''-''
               @ replace_char CHR ''/'' CHR ''-'' (er_channel_id config))
            (encoder_binary_for P config (pl_current_exe_dir D)) [''run'', ''--config-inline'', inline_config]))"

definition build_assembler_spec :: "plan_host \<Rightarrow> plan_dirs \<Rightarrow> assembler_runtime_config_v2 \<Rightarrow> (child_spec, string) result" where
  "build_assembler_spec P D config =
     bind_ok (ph_toml_assembler P config) (\<lambda>inline_config.
     bind_ok (assembler_binary_for (asm_format config)) (\<lambda>binary.
       Ok (bundled_child P D ''assembler'' binary [''run'', ''--config-inline'', inline_config])))"

definition build_storage_spec :: "plan_host \<Rightarrow> plan_dirs \<Rightarrow> storage_runtime_config \<Rightarrow> episode_format \<Rightarrow> (child_spec, string) result" where
  "build_storage_spec P D config format =
     (let config = config\<lparr>srt_output_path :=
            map_option (\<lambda>p. resolve_invocation_relative_path p (pl_invocation_cwd D)) (srt_output_path config)\<rparr>
      in bind_ok (storage_binary_for format (srt_backend config)) (\<lambda>binary.
         bind_ok (ph_toml_storage P config) (\<lambda>inline_config.
           Ok (bundled_child P D ''storage'' binary [''run'', ''--config-inline'', inline_config]))))"

section \<open>The plan\<close>

text \<open>\<open>for x in xs \{ specs.push(f(x)?); \}\<close>\<close>

fun try_map :: "('a \<Rightarrow> ('b, 'e) result) \<Rightarrow> 'a list \<Rightarrow> ('b list, 'e) result" where
  "try_map f [] = Ok []"
| "try_map f (x # xs) = bind_ok (f x) (\<lambda>y. bind_ok (try_map f xs) (\<lambda>ys. Ok (y # ys)))"

definition planned_routers :: "project_config \<Rightarrow> teleop_runtime_config_v2 list" where
  "planned_routers config = (if pj_mode config = Teleop then teleop_runtime_configs_v2 config else [])"

definition build_preview_specs :: "plan_host \<Rightarrow> plan_dirs \<Rightarrow> project_config \<Rightarrow> (child_spec list, string) result" where
  "build_preview_specs P D config =
     bind_ok (build_visualizer_spec P D config) (\<lambda>visualizer.
     bind_ok (try_map (build_device_spec P D) (pj_devices config)) (\<lambda>devices.
     bind_ok (try_map (build_encoder_spec P D) (encoder_runtime_configs_v2 config)) (\<lambda>encoders.
     bind_ok (try_map (build_teleop_spec P D) (planned_routers config)) (\<lambda>routers.
       Ok (visualizer # devices @ encoders @ routers)))))"

definition build_collect_specs :: "plan_host \<Rightarrow> plan_dirs \<Rightarrow> project_config \<Rightarrow> (child_spec list, string) result" where
  "build_collect_specs P D config =
     bind_ok (build_preview_specs P D config) (\<lambda>specs.
     bind_ok (ph_port P) (\<lambda>control_port.
     bind_ok (ph_toml_project P config) (\<lambda>embedded_config_toml.
     bind_ok (build_assembler_spec P D (assembler_runtime_config_v2_of config embedded_config_toml)) (\<lambda>assembler.
     bind_ok (build_storage_spec P D (storage_runtime_config_of config) (ep_format (pj_episode config))) (\<lambda>storage.
       let ui0 = ui_runtime_config_of config;
           ui = (if ui_control_websocket_url ui0 = None
             then ui0\<lparr>ui_control_websocket_url := Some (''ws://127.0.0.1:'' @ show_nat (unat control_port))\<rparr> else ui0);
           web_bundle_dir = join_path (pl_share_root D) ''ui/web/dist''
       in if \<not> present P (join_path web_bundle_dir ''index.html'') then Err ''Web UI bundle not found''
          else if ui_preview_websocket_url ui = None
          then Err ''ui runtime config did not produce an upstream preview websocket url''
          else if ui_control_websocket_url ui = None
          then Err ''ui runtime config did not produce an upstream control websocket url''
          else bind_ok (ph_toml_ui P ui) (\<lambda>ui_config.
            Ok (specs @ [build_control_server_spec P D CollectServer control_port, assembler, storage,
              bundled_child P D ''ui'' ''rollio-web-gateway''
                [''--config-inline'', ui_config, ''--asset-dir'', web_bundle_dir]])))))))"

section \<open>What a plan consists of\<close>

definition inline_config :: "child_spec \<Rightarrow> string option" where
  "inline_config s =
     (case chs_args s of [verb, flag, doc] \<Rightarrow> if verb = ''run'' \<and> flag = ''--config-inline'' then Some doc else None | _ \<Rightarrow> None)"

lemma bind_ok_Ok: "bind_ok r f = Ok b \<longleftrightarrow> (\<exists>a. r = Ok a \<and> f a = Ok b)"
  by (cases r) (auto simp: bind_ok_def)

lemma try_map_Ok: "try_map f xs = Ok ys \<Longrightarrow> list_all2 (\<lambda>x y. f x = Ok y) xs ys"
  by (induction xs arbitrary: ys) (auto simp: bind_ok_Ok)

lemma list_all2_set2: "list_all2 R xs ys \<Longrightarrow> y \<in> set ys \<Longrightarrow> \<exists>x \<in> set xs. R x y"
  by (metis in_set_conv_nth list_all2_conv_all_nth)

lemma bundled_child_fields [simp]:
  "chs_id (bundled_child P D n b args) = n" "chs_args (bundled_child P D n b args) = args"
  by (simp_all add: bundled_child_def)

text \<open>The children of a kind are the ones whose id says so.\<close>

definition children_named :: "string \<Rightarrow> child_spec list \<Rightarrow> child_spec list" where
  "children_named kind specs = filter (\<lambda>s. prefix kind (chs_id s)) specs"

lemma collect_plan:
  assumes "build_collect_specs P D config = Ok specs"
  obtains doc assembler storage where "ph_toml_project P config = Ok doc"
    "build_assembler_spec P D (assembler_runtime_config_v2_of config doc) = Ok assembler"
    "build_storage_spec P D (storage_runtime_config_of config) (ep_format (pj_episode config)) = Ok storage"
    "children_named ''assembler'' specs = [assembler]" "children_named ''storage'' specs = [storage]"
    "list_all2 (\<lambda>t s. build_teleop_spec P D t = Ok s) (planned_routers config) (children_named ''teleop-'' specs)"
proof -
  from assms obtain visualizer devices encoders routers port doc assembler storage ui_text where parts:
    "build_visualizer_spec P D config = Ok visualizer" "try_map (build_device_spec P D) (pj_devices config) = Ok devices"
    "try_map (build_encoder_spec P D) (encoder_runtime_configs_v2 config) = Ok encoders"
    "try_map (build_teleop_spec P D) (planned_routers config) = Ok routers" "ph_toml_project P config = Ok doc"
    "build_assembler_spec P D (assembler_runtime_config_v2_of config doc) = Ok assembler"
    "build_storage_spec P D (storage_runtime_config_of config) (ep_format (pj_episode config)) = Ok storage"
    and specs: "specs = visualizer # devices @ encoders @ routers @ [build_control_server_spec P D CollectServer port, assembler, storage,
      bundled_child P D ''ui'' ''rollio-web-gateway'' [''--config-inline'', ui_text, ''--asset-dir'', join_path (pl_share_root D) ''ui/web/dist'']]"
    by (auto simp: build_collect_specs_def build_preview_specs_def bind_ok_Ok Let_def split: if_splits)
  have ids: "chs_id visualizer = ''visualizer''" "chs_id assembler = ''assembler''" "chs_id storage = ''storage''"
    using parts(1,6,7) by (auto simp: build_visualizer_spec_def build_assembler_spec_def build_storage_spec_def bind_ok_Ok Let_def)
  have kinds: "\<exists>x. chs_id s = ''device-'' @ x" if "s \<in> set devices" for s
    using list_all2_set2 [OF try_map_Ok [OF parts(2)] that] by (auto simp: build_device_spec_def bind_ok_Ok Let_def)
  have kinde: "\<exists>x. chs_id s = ''encoder-'' @ x" if "s \<in> set encoders" for s
    using list_all2_set2 [OF try_map_Ok [OF parts(3)] that] by (auto simp: build_encoder_spec_def bind_ok_Ok)
  have kindr: "\<exists>x. chs_id s = ''teleop-'' @ x" if "s \<in> set routers" for s
    using list_all2_set2 [OF try_map_Ok [OF parts(4)] that] by (auto simp: build_teleop_spec_def bind_ok_Ok)
  have none: "filter (\<lambda>s. prefix kind (chs_id s)) devices = []" "filter (\<lambda>s. prefix kind (chs_id s)) encoders = []"
    if "kind \<in> {''assembler'', ''storage'', ''teleop-''}" for kind
    using kinds kinde that by (fastforce simp: filter_empty_conv)+
  have nor: "filter (\<lambda>s. prefix kind (chs_id s)) routers = []" if "kind \<in> {''assembler'', ''storage''}" for kind
    using kindr that by (fastforce simp: filter_empty_conv)
  have allr: "filter (\<lambda>s. prefix ''teleop-'' (chs_id s)) routers = routers"
    using kindr by (fastforce simp: filter_id_conv)
  show thesis
    by (rule that [OF parts(5-7)])
      (use try_map_Ok [OF parts(4)] in \<open>simp_all add: children_named_def specs ids none nor allr build_control_server_spec_def Let_def\<close>)
qed

section \<open>The directory of the storage process\<close>

text \<open>Without \<open>..\<close> the lexical normal form has the components of the path.\<close>

lemma normal_components: "''..'' \<notin> set cs \<Longrightarrow> foldl push_component out cs = out @ cs"
  by (induction cs arbitrary: out) (auto simp: push_component_def)

lemma components_no_slash: "c \<in> set (components p) \<Longrightarrow> CHR ''/'' \<notin> set c \<and> c \<noteq> [] \<and> c \<noteq> ''.''"
proof -
  have "c \<in> set (split_slash p) \<Longrightarrow> CHR ''/'' \<notin> set c" for c
    by (induction p arbitrary: c) (auto split: if_splits list.splits)
  then show "c \<in> set (components p) \<Longrightarrow> CHR ''/'' \<notin> set c \<and> c \<noteq> [] \<and> c \<noteq> ''.''" by (auto simp: components_def)
qed

lemma components_joined:
  "\<forall>c \<in> set cs. CHR ''/'' \<notin> set c \<and> c \<noteq> [] \<and> c \<noteq> ''.'' \<Longrightarrow> components (join_components cs) = cs"
proof (induction cs rule: join_components.induct)
  case (3 c c' cs)
  then show ?case using components_slash [of c "join_components (c' # cs)"] by (simp add: components_single)
next
  case (2 c)
  then show ?case by (simp add: components_single)
qed (simp add: components_def)

lemma normalize_absolute:
  assumes "is_absolute p" and "''..'' \<notin> set (components p)"
  shows "is_absolute (normalize_lexical p)" "components (normalize_lexical p) = components p"
proof -
  have "components (join_components (components p)) = components p"
    by (rule components_joined) (use components_no_slash in blast)
  then have "components (''/'' @ join_components (components p)) = components p"
    using components_slash [of "[]" "join_components (components p)"] by (simp add: components_def)
  then show "components (normalize_lexical p) = components p" "is_absolute (normalize_lexical p)"
    using assms by (simp_all add: normalize_lexical_def normal_components is_absolute_def)
qed

end
