(* ===== verification/Sample_Plan.thy ===== *)
theory Sample_Plan
  imports Runtime_Plan Sample_Dataset
begin

text \<open>
  Surroundings in which the plan of the sample project is made: the web bundle is installed and
  nothing else, every document is empty but that of the storage process, which is its output path.
\<close>

definition sample_plan_host :: plan_host where
  "sample_plan_host = \<lparr>ph_io = plain_host,
     ph_fs = [([''share''], Directory), ([''share'', ''ui''], Directory), ([''share'', ''ui'', ''web''], Directory),
       ([''share'', ''ui'', ''web'', ''dist''], Directory), ([''share'', ''ui'', ''web'', ''dist'', ''index.html''], RegularFile [])],
     ph_port = Ok 4000, ph_probe = (\<lambda>binary. None), ph_toml_project = (\<lambda>c. Ok []), ph_toml_visualizer = (\<lambda>c. Ok []),
     ph_toml_device = (\<lambda>c. Ok []), ph_toml_encoder = (\<lambda>c. Ok []), ph_toml_teleop = (\<lambda>c. Ok []), ph_toml_assembler = (\<lambda>c. Ok []),
     ph_toml_storage = (\<lambda>c. Ok (case srt_output_path c of Some p \<Rightarrow> p | None \<Rightarrow> [])), ph_toml_ui = (\<lambda>c. Ok [])\<rparr>"

definition sample_plan_dirs :: plan_dirs where
  "sample_plan_dirs = \<lparr>pl_workspace_root = ''/work'', pl_share_root = ''/share'', pl_child_working_dir = ''/state'',
     pl_current_exe_dir = ''/bin'', pl_invocation_cwd = ''/home''\<rparr>"

definition teleop_project :: project_config where
  "teleop_project = sample_project\<lparr>pj_mode := Teleop\<rparr>"

lemma try_map_total: "(\<And>x. \<exists>y. f x = Ok y) \<Longrightarrow> \<exists>ys. try_map f xs = Ok ys"
  by (induction xs) (auto simp: bind_ok_Ok)

lemma sample_plan_evaluations:
  "present sample_plan_host ''/share/ui/web/dist/index.html''
   \<and> join_path (join_path ''/share'' ''ui/web/dist'') ''index.html'' = ''/share/ui/web/dist/index.html''
   \<and> ep_format (pj_episode teleop_project) = LeRobotV2_1 \<and> st_backend (pj_storage teleop_project) = LocalBackend
   \<and> pj_mode teleop_project = Teleop \<and> project_ok teleop_project \<and> length (teleop_runtime_configs_v2 teleop_project) = 1
   \<and> ''..'' \<notin> set (components ''/home/./output'')"
  by code_simp

lemma sample_children: "\<exists>y. build_visualizer_spec sample_plan_host D c = Ok y" "\<exists>y. build_device_spec sample_plan_host D d = Ok y"
  "\<exists>y. build_encoder_spec sample_plan_host D e = Ok y" "\<exists>y. build_teleop_spec sample_plan_host D t = Ok y"
  by (simp_all add: build_visualizer_spec_def build_device_spec_def build_encoder_spec_def build_teleop_spec_def bind_ok_Ok Let_def
      sample_plan_host_def)

lemma sample_plan: "\<exists>specs. build_collect_specs sample_plan_host sample_plan_dirs teleop_project = Ok specs"
proof -
  let ?H = sample_plan_host and ?D = sample_plan_dirs
  have total: "\<exists>ds. try_map (build_device_spec ?H ?D) (pj_devices teleop_project) = Ok ds"
    "\<exists>es. try_map (build_encoder_spec ?H ?D) (encoder_runtime_configs_v2 teleop_project) = Ok es"
    "\<exists>rs. try_map (build_teleop_spec ?H ?D) (planned_routers teleop_project) = Ok rs"
    by (rule try_map_total, rule sample_children)+
  have fields: "ph_port sample_plan_host = Ok 4000" "ph_toml_project sample_plan_host c = Ok []" "ph_toml_assembler sample_plan_host a = Ok []"
    "\<exists>y. ph_toml_storage sample_plan_host s = Ok y" "ph_toml_ui sample_plan_host u = Ok []" for c a s u
    by (simp_all add: sample_plan_host_def)
  have preview: "\<exists>specs. build_preview_specs sample_plan_host sample_plan_dirs teleop_project = Ok specs"
  proof -
    obtain v where v: "build_visualizer_spec sample_plan_host sample_plan_dirs teleop_project = Ok v"
      using sample_children(1) by blast
    moreover obtain ds where "try_map (build_device_spec sample_plan_host sample_plan_dirs) (pj_devices teleop_project) = Ok ds"
      using total(1) by blast
    moreover obtain es where
      "try_map (build_encoder_spec sample_plan_host sample_plan_dirs) (encoder_runtime_configs_v2 teleop_project) = Ok es"
      using total(2) by blast
    moreover obtain rs where "try_map (build_teleop_spec sample_plan_host sample_plan_dirs) (planned_routers teleop_project) = Ok rs"
      using total(3) by blast
    ultimately show ?thesis by (simp add: build_preview_specs_def bind_ok_Ok)
  qed
  have format: "asm_format (assembler_runtime_config_v2_of teleop_project []) = LeRobotV2_1"
    using sample_plan_evaluations by (simp add: assembler_runtime_config_v2_of_def)
  have backend: "srt_backend (storage_runtime_config_of teleop_project) = LocalBackend"
    using sample_plan_evaluations by (simp add: storage_runtime_config_of_def)
  have "\<exists>a. build_assembler_spec sample_plan_host sample_plan_dirs (assembler_runtime_config_v2_of teleop_project []) = Ok a"
    by (simp add: build_assembler_spec_def bind_ok_Ok fields format)
  moreover have "\<exists>s. build_storage_spec sample_plan_host sample_plan_dirs (storage_runtime_config_of teleop_project) LeRobotV2_1 = Ok s"
    using fields(4) by (simp add: build_storage_spec_def bind_ok_Ok backend Let_def)
  moreover have "ui_preview_websocket_url (ui_runtime_config_of teleop_project) \<noteq> None"
    by (simp add: ui_runtime_config_of_def)
  moreover have "present sample_plan_host (join_path (join_path (pl_share_root sample_plan_dirs) ''ui/web/dist'') ''index.html'')"
    using sample_plan_evaluations by (simp add: sample_plan_dirs_def)
  moreover have "ep_format (pj_episode teleop_project) = LeRobotV2_1" using sample_plan_evaluations by blast
  ultimately show ?thesis
    using preview by (auto simp: build_collect_specs_def bind_ok_Ok fields Let_def)
qed

lemma sample_routers: "length (planned_routers teleop_project) = 1" "project_ok teleop_project"
  using sample_plan_evaluations by (simp_all add: planned_routers_def)

lemma sample_plan_root: "resolve_storage_root teleop_project (pl_invocation_cwd sample_plan_dirs) = Some ''/home/./output''"
  using dataset_evaluations by (simp add: sample_plan_dirs_def resolve_storage_root_def teleop_project_def)

lemma sample_plan_paths: "is_absolute (pl_invocation_cwd sample_plan_dirs)" "''..'' \<notin> set (components ''/home/./output'')"
  "resolve plain_host ''/home/./output'' = [''home'', ''output'']"
  using sample_plan_evaluations dataset_evaluations by (simp_all add: sample_plan_dirs_def is_absolute_def)

end
