(* ===== verification/Rvl_File.thy ===== *)
theory Rvl_File
  imports Lerobot_Staging
begin

text \<open>
  The depth container: \<open>decode_rvl_artifact\<close> of \<^verbatim>\<open>encoder/src/media.rs\<close>. After the header it reads
  frames in the form \<open>RvlCodecSession\<close> gives its packets; the lemma at the end decodes a list of them.
  The depth decoder is the \<open>rvl\<close> crate's and an argument.
\<close>

record 'd depth_decoder =
  dd_rvl :: "nat \<Rightarrow> 'd"
  dd_decode :: "'d \<Rightarrow> bytes \<Rightarrow> 'd \<times> (u16 list, encode_error) result"

record decoded_artifact =
  da_width :: u32
  da_height :: u32
  da_frame_count :: nat
  da_first_depth_frame :: "u16 list option"
  da_last_depth_frame :: "u16 list option"

datatype rvl_error = RvlEof | RvlBadMagic | RvlDecoder encode_error

definition RVL_MAGIC :: bytes where
  "RVL_MAGIC = bytes_of ''RVL1''"

text \<open>\<open>read_exact\<close> on what is left of the file, and the readers on top of it.\<close>

definition read_exact :: "nat \<Rightarrow> bytes \<Rightarrow> (bytes \<times> bytes) option" where
  "read_exact n bs = (if n \<le> length bs then Some (take n bs, drop n bs) else None)"

definition read_u32 :: "bytes \<Rightarrow> (u32 \<times> bytes, rvl_error) result" where
  "read_u32 bs = (case read_exact 4 bs of None \<Rightarrow> Err RvlEof | Some (b, rest) \<Rightarrow> Ok (from_le b, rest))"

definition read_u64 :: "bytes \<Rightarrow> (u64 \<times> bytes, rvl_error) result" where
  "read_u64 bs = (case read_exact 8 bs of None \<Rightarrow> Err RvlEof | Some (b, rest) \<Rightarrow> Ok (from_le b, rest))"

text \<open>Fewer than eight bytes left end the file, even when there are some.\<close>

definition read_optional_u64 :: "bytes \<Rightarrow> (u64 \<times> bytes) option" where
  "read_optional_u64 bs = map_option (\<lambda>(b, rest). (from_le b, rest)) (read_exact 8 bs)"

function decode_frames ::
  "'d depth_decoder \<Rightarrow> 'd \<Rightarrow> bytes \<Rightarrow> decoded_artifact \<Rightarrow> (decoded_artifact, rvl_error) result" where
  "decode_frames ops decoder bs summary =
     (case read_optional_u64 bs of
        None \<Rightarrow> Ok summary
      | Some (timestamp_us, bs1) \<Rightarrow>
          (case read_u64 bs1 of
             Err e \<Rightarrow> Err e
           | Ok (frame_index, bs2) \<Rightarrow>
               (case read_u32 bs2 of
                  Err e \<Rightarrow> Err e
                | Ok (payload_len, bs3) \<Rightarrow>
                    (case read_exact (unat payload_len) bs3 of
                       None \<Rightarrow> Err RvlEof
                     | Some (payload, bs4) \<Rightarrow>
                         (case dd_decode ops decoder payload of
                            (decoder', Err e) \<Rightarrow> Err (RvlDecoder e)
                          | (decoder', Ok decoded) \<Rightarrow>
                              decode_frames ops decoder' bs4
                                (summary\<lparr>da_first_depth_frame :=
                                     (case da_first_depth_frame summary of None \<Rightarrow> Some decoded | Some d \<Rightarrow> Some d),
                                   da_last_depth_frame := Some decoded,
                                   da_frame_count := da_frame_count summary + 1\<rparr>))))))"
  by pat_completeness auto
termination
  by (relation "measure (\<lambda>(ops, decoder, bs, summary). length bs)")
    (auto simp: read_optional_u64_def read_u64_def read_u32_def read_exact_def split: if_splits)

declare decode_frames.simps [simp del]

definition decode_rvl_artifact :: "'d depth_decoder \<Rightarrow> bytes \<Rightarrow> (decoded_artifact, rvl_error) result" where
  "decode_rvl_artifact ops bs =
     (case read_exact 4 bs of
        None \<Rightarrow> Err RvlEof
      | Some (magic, bs1) \<Rightarrow>
          if magic \<noteq> RVL_MAGIC then Err RvlBadMagic
          else bind_ok (read_u32 bs1) (\<lambda>(width, bs2).
            bind_ok (read_u32 bs2) (\<lambda>(height, bs3).
              bind_ok (read_u32 bs3) (\<lambda>(fps, bs4).
                decode_frames ops (dd_rvl ops (unat width * unat height)) bs4
                  \<lparr>da_width = width, da_height = height, da_frame_count = 0, da_first_depth_frame = None,
                   da_last_depth_frame = None\<rparr>))))"

section \<open>Little-endian integers read back\<close>

lemma from_le_range:
  "from_le (map (\<lambda>i. ucast (drop_bit (8 * i) w)) [k ..< k + n]) = take_bit (8 * n) (drop_bit (8 * k) (w :: 'w :: len word))"
proof (induction n arbitrary: k)
  case 0
  show ?case by (simp add: from_le_def)
next
  case (Suc n)
  have "[k ..< k + Suc n] = k # [Suc k ..< Suc k + n]" by (simp add: upt_rec)
  then have "from_le (map (\<lambda>i. ucast (drop_bit (8 * i) w)) [k ..< k + Suc n])
      = ucast (ucast (drop_bit (8 * k) w) :: u8) OR push_bit 8 (take_bit (8 * n) (drop_bit (8 * Suc k) w))"
    using Suc [of "Suc k"] by (simp add: from_le_def)
  also have "\<dots> = take_bit (8 * Suc n) (drop_bit (8 * k) w)"
    by (rule bit_word_eqI) (auto simp: bit_simps)
  finally show ?case .
qed

lemma from_le_bytes: "LENGTH('w) \<le> 8 * n \<Longrightarrow> from_le (le_bytes n w) = (w :: 'w :: len word)"
  using from_le_range [of w 0 n] by (simp add: le_bytes_def take_bit_word_eq_self)

lemma length_le_bytes [simp]: "length (le_bytes n w) = n"
  by (simp add: le_bytes_def)

lemma read_exact_append [simp]: "read_exact (length bs) (bs @ rest) = Some (bs, rest)"
  by (simp add: read_exact_def)

lemma read_le_u32 [simp]: "read_u32 (le_bytes 4 n @ rest) = Ok (n, rest)"
  using read_exact_append [of "le_bytes 4 n" rest] by (simp add: read_u32_def from_le_bytes)

lemma read_le_u64 [simp]: "read_u64 (le_bytes 8 n @ rest) = Ok (n, rest)" "read_optional_u64 (le_bytes 8 n @ rest) = Some (n, rest)"
  using read_exact_append [of "le_bytes 8 n" rest] by (simp_all add: read_u64_def read_optional_u64_def from_le_bytes)

section \<open>The frames of a stream\<close>

text \<open>The decoder over the encoded frames, the way an application that had them would run it.\<close>

fun decode_each :: "'d depth_decoder \<Rightarrow> 'd \<Rightarrow> bytes list \<Rightarrow> (u16 list list, encode_error) result" where
  "decode_each ops decoder [] = Ok []"
| "decode_each ops decoder (p # ps) =
     (case dd_decode ops decoder p of
        (decoder', Err e) \<Rightarrow> Err e
      | (decoder', Ok frame) \<Rightarrow> bind_ok (decode_each ops decoder' ps) (\<lambda>frames. Ok (frame # frames)))"

definition summary_of :: "u32 \<Rightarrow> u32 \<Rightarrow> u16 list list \<Rightarrow> decoded_artifact" where
  "summary_of width height frames =
     \<lparr>da_width = width, da_height = height, da_frame_count = length frames,
      da_first_depth_frame = (if frames = [] then None else Some (hd frames)),
      da_last_depth_frame = (if frames = [] then None else Some (last frames))\<rparr>"

lemma decode_frames_written:
  assumes "\<forall>(hdr, payload) \<in> set encoded. length payload < 2 ^ 32"
    and "decode_each ops decoder (map snd encoded) = Ok frames"
  shows "decode_frames ops decoder (concat (map (\<lambda>(hdr, payload). rvl_frame_payload hdr payload) encoded))
      (summary_of width height before) = Ok (summary_of width height (before @ frames))"
  using assms
proof (induction encoded arbitrary: decoder frames before)
  case Nil
  then show ?case by (simp add: decode_frames.simps read_optional_u64_def read_exact_def)
next
  case (Cons x encoded)
  obtain hdr payload where x: "x = (hdr, payload)" by (cases x)
  from Cons.prems(2) obtain decoder' frame rest where d: "dd_decode ops decoder payload = (decoder', Ok frame)"
    "decode_each ops decoder' (map snd encoded) = Ok rest" "frames = frame # rest"
    by (auto simp: x bind_ok_def split: prod.splits sum.splits)
  have len: "unat (of_nat (length payload) :: u32) = length payload"
    using Cons.prems(1) by (simp add: x unat_of_nat)
  have s: "(summary_of width height before)\<lparr>da_first_depth_frame :=
      (case da_first_depth_frame (summary_of width height before) of None \<Rightarrow> Some frame | Some d \<Rightarrow> Some d),
      da_last_depth_frame := Some frame, da_frame_count := da_frame_count (summary_of width height before) + 1\<rparr>
    = summary_of width height (before @ [frame])"
    by (cases before) (simp_all add: summary_of_def)
  let ?body = "concat (map (\<lambda>(hdr, payload). rvl_frame_payload hdr payload) encoded)"
  have body: "concat (map (\<lambda>(hdr, payload). rvl_frame_payload hdr payload) (x # encoded))
      = le_bytes 8 (cfh_timestamp_us hdr) @ le_bytes 8 (cfh_frame_index hdr) @ le_bytes 4 (of_nat (length payload) :: u32)
        @ payload @ ?body"
    by (simp add: x rvl_frame_payload_def)
  have "decode_frames ops decoder' ?body
      (summary_of width height (before @ [frame])) = Ok (summary_of width height ((before @ [frame]) @ rest))"
    by (rule Cons.IH [OF _ d(2)]) (use Cons.prems(1) in auto)
  then show ?case
    unfolding body using d s len by (subst decode_frames.simps) simp
qed

end
