(* ===== verification/Spec2Isabelle.thy ===== *)
theory Spec2Isabelle
  imports Sample_Project Collect_Loop Bus Sample_Recording Sample_Dataset Sample_Setup Sample_Mcap Sample_Plan Rvl_File
begin

text \<open>
  \<^bold>\<open>Rollio\<close> collects robot teleoperation data. The controller reads a project file, starts one
  process per device, encoder, router, assembler and storage backend, hands each a runtime
  configuration derived from the project, and runs the collect loop, in which the operator starts,
  stops, keeps and discards episodes. Encoders turn frames into packets, an assembler gathers the
  packets and samples of an episode and stages it as files, a storage backend moves the files into
  the dataset, and the next run reads the dataset to number its episodes. This development follows
  an episode along that way, and the robot's commands through the router.

  \<^bold>\<open>Theories\<close>, with the files under \<^verbatim>\<open>src/\<close> they model.

    \<^item> \<open>Prelude\<close>: machine integers, results and the combinators of the validators, lookups, UTF-8
      byte strings with \<open>trim\<close>, \<open>f64\<close> with infinities and NaN. Interfaces: \<open>keyed_table\<close>,
      \<open>invariant_machine\<close>, \<open>monotone_machine\<close>.
    \<^item> \<open>Messages\<close>, \<open>Bus\<close>: \<^verbatim>\<open>rollio-types/src/messages.rs\<close>, \<^verbatim>\<open>rollio-bus/src/lib.rs\<close>. Interfaces
      \<open>bounded_payload\<close> and \<open>channel_topic\<close>.
    \<^item> \<open>Config_Types\<close>, \<open>Config_Device\<close>, \<open>Config_Project\<close>, \<open>Config_Runtime\<close>:
      \<^verbatim>\<open>rollio-types/src/config.rs\<close>, the project file with its validators and the configuration of every
      child process. Interface \<open>runtime_contract\<close>: what is derived from an accepted project is
      accepted by the child.
    \<^item> \<open>Episode_Lifecycle\<close>, \<open>Collect_Loop\<close>: \<^verbatim>\<open>controller/src/episode.rs\<close> and the loop of
      \<^verbatim>\<open>controller/src/collect.rs\<close>, against the abstract protocol \<open>episode_step\<close>.
    \<^item> \<open>Teleop_Mapping\<close>, \<open>Teleop_Sync\<close>, \<open>Teleop_Router\<close>: \<^verbatim>\<open>teleop-router/src/lib.rs\<close>. Interface
      \<open>command_stage\<close>, for the joint ramp, the cartesian ramp and their dispatcher.
    \<^item> \<open>Annexb\<close>, \<open>Encoder_Media\<close>, \<open>Codec_Session\<close>, \<open>Hw_Session\<close>, \<open>Encoder_Backends\<close>,
      \<open>Recording_Runtime\<close>: \<^verbatim>\<open>encoder/src\<close>, from the parameter-set parser over the sessions of every
      backend to the recording loop and its worker.
    \<^item> \<open>Ordered_Map\<close>, \<open>Packet_Stream\<close>, \<open>Episode_Assembler\<close>, \<open>Assembler_Invariants\<close>,
      \<open>Assembler_Delivery\<close>: \<open>BTreeMap\<close>, the stream buffers and the episode manager of
      \<^verbatim>\<open>episode-lerobot/src\<close> and \<^verbatim>\<open>episode-mcap/src\<close>. Interface \<open>assembler_invariant\<close>.
    \<^item> \<open>File_System\<close>: the part of \<open>std::fs\<close> and \<open>std::path\<close> the sources use: a tree of directories
      and files, and operations that may each be refused. \<open>triple\<close> and \<open>io_keeps\<close> are its Hoare
      triples, \<open>overlay\<close> what a reader sees of one tree laid over another, and \<open>tree_mover\<close> the
      interface of the moving loops, interpreted on both storage backends.
    \<^item> \<open>Episode_Paths\<close>, \<open>Json_Value\<close>, \<open>Lerobot_Rows\<close>, \<open>Lerobot_Staging\<close>, \<open>Rvl_File\<close>: staging in
      \<^verbatim>\<open>episode-lerobot/src\<close> (\<^verbatim>\<open>lerobot.rs\<close>, \<^verbatim>\<open>raw.rs\<close>, \<^verbatim>\<open>dataset.rs\<close>, \<^verbatim>\<open>muxer\<close>) and the reader of the depth
      files in \<^verbatim>\<open>encoder/src/media.rs\<close>.
    \<^item> \<open>Mcap_Writer\<close>, \<open>Mcap_Staging\<close>: \<^verbatim>\<open>episode-mcap/src/encode.rs\<close>, \<^verbatim>\<open>mcap_writer.rs\<close> and the staging of
      \<^verbatim>\<open>runtime.rs\<close>; the log a reader finds in the file is compared with the streams of the episode.
    \<^item> \<open>Storage_Runtime\<close>, \<open>Storage_Local\<close>, \<open>Storage_Lerobot\<close>: \<^verbatim>\<open>storage/local\<close> and
      \<^verbatim>\<open>storage/local-lerobot\<close>; the loop and worker thread they share, with interface
      \<open>storage_invariant\<close>, and what each does to the file system.
    \<^item> \<open>Dataset_Resume\<close>, \<open>Dataset_Pipeline\<close>: \<^verbatim>\<open>controller/src/dataset_resume.rs\<close>, and the way of an
      episode from staging over storage to the next run.
    \<^item> \<open>Runtime_Plan\<close>: \<^verbatim>\<open>controller/src/runtime_plan.rs\<close> with the program lookup of
      \<^verbatim>\<open>controller/src/runtime_paths.rs\<close>: the children of a session and what each is started with.
    \<^item> \<open>Text_Numbers\<close>: \<open>str::split\<close>, \<open>strip_prefix\<close>, \<open>parse\<close> and the like, for the readers of text.
    \<^item> \<open>Setup_Session\<close>, \<open>Setup_Settings\<close>, \<open>Setup_Pairings\<close>, \<open>Setup_Devices\<close>, \<open>Setup_Subpanel\<close>,
      \<open>Setup_Dispatch\<close>: the setup wizard, \<^verbatim>\<open>controller/src/setup\<close>: the session, its edits of the
      project and the commands of the terminal. \<open>Project_Edits\<close> and \<open>Setup_Edits\<close> hold what an edit keeps
      of a valid project, by rules that follow the shapes the edits are written with.
    \<^item> \<open>Sample_Project\<close>, \<open>Sample_Recording\<close>, \<open>Sample_Dataset\<close>, \<open>Sample_Setup\<close>,
      \<open>Sample_Mcap\<close>, \<open>Sample_Plan\<close>: concrete inputs for the witnesses.
    \<^item> this theory: the properties that span components.

  \<^bold>\<open>What is shown.\<close> A pairing the validator accepts is a route the router can serve
  (C1, C2); the derived configurations are accepted by their processes and agree with
  one another (C30, C31, C32, C33,
  C40). The control events are a trace of the
  episode protocol with consecutive numbers (C3, C8, C19). During
  start-up the router bounds the motion it asks for and waits for feedback (C20 to C25). A
  session writes numbered packets and one end of stream, and the recording worker whole episodes
  (C26, C27, C7, C29). The assembler hands over complete episodes only,
  loses none without a notice and respects its slots (C4, C5, C6, C34, C35). The
  MCAP file of a recording holds exactly the packets of its sessions (C36, C39). The
  storage process acknowledges in order up to the shutdown (C13, C14), loses no file however the file
  system fails (C10, C11), and the numbers of stored episodes are not given out again
  (C9, C12). The setup wizard keeps a valid project valid except for three commands, offers
  only pairs it accepts, reports its changes and saves the project as it is (C15 to C18). The readers of coded
  video recover the units that were written (C37, C38). Behaviours that deviate from
  what the code documents are theorems too, e.g. C28.

  \<^bold>\<open>Conventions.\<close> A Rust \<open>Result\<close> is a sum with the error on the left; error messages are
  constructors carrying the values printed. A panic is \<open>None\<close> or an error \<open>Panic\<close>, \<open>Panicked\<close>.
  Strings are UTF-8 byte sequences. Integers keep their width as words; \<open>usize\<close> lengths are
  naturals. An \<open>f64\<close> is a real, an infinity or NaN: rounding and signed zero are not modelled, so
  the bounds on motion and the frame times are those of exact arithmetic. \<open>Instant\<close> is a count of
  nanoseconds. A loop over messages is a function of what each iteration receives; it recurses on
  the list of iterations, so statements about runs hold for lists of every length. Two threads
  joined by queues are interleaved by the input, which says how far the worker gets before each
  call of the loop. The bound of 2 ^ 32 on the messages of a run in the episode properties excludes
  the saturation of the 32-bit episode number. The copy and merge of directory trees recurse on
  fuel, which is the height of the file system and enough for it (\<open>copy_fuel_suffices\<close>). The
  file system has no links, permissions appear as refused calls, a name \<open>..\<close> is an ordinary
  component, and a call either happens or does not. The \<open>toml\<close>, \<open>serde_json\<close>, \<open>parquet\<close> and
  \<open>rvl\<close> crates, ffmpeg, the iceoryx2 ports, the clocks and the operating system are arguments.

  \<^bold>\<open>Not modelled\<close>: process spawning and termination and device discovery of the controller, and the
  preview and process loop of its setup wizard; the preview runtime of the encoder; of the MCAP
  assembler the tactile tables, which nothing calls, the generated FlatBuffers code and the external
  crate that writes the file; the dataloop upload (a foreign library); the visualizer, gateway and
  control server; the monitor (its source is a stub); the camera and robot drivers; the user
  interfaces (TypeScript). The protocol of the control server is within reach of the same methods.
\<close>

section \<open>From a validated pairing to the router\<close>

text \<open>What a leader publishes for a state kind: a pose, or as many values as the kind has for the
  channel's degrees of freedom.\<close>

definition sample_conforms :: "robot_state_kind \<Rightarrow> u32 \<Rightarrow> leader_state \<Rightarrow> bool" where
  "sample_conforms kind dof state = (case state of
       PoseState _ \<Rightarrow> kind = SK_EndEffectorPose
     | VectorState _ vals \<Rightarrow> kind \<noteq> SK_EndEffectorPose \<and> length vals = unat (state_value_len kind dof))"

lemma teleop_config_fields:
  assumes "teleop_runtime_config_of config p = Some t"
  shows "tel_mapping t = pr_mapping p" "tel_follower_command_kind t = pr_follower_command p"
    "tel_leader_state_kind t = pr_leader_state p"
    "tel_joint_index_map t = pr_joint_index_map p" "tel_joint_scales t = pr_joint_scales p"
  using assms by (auto simp: teleop_runtime_config_of_def bind_eq_Some_conv Let_def)

lemma direct_joint_maps:
  assumes "is_ok (validate_direct_joint_dof_and_index_map p leader follower)"
    and "length vals = unat (unwrap_or (ch_dof leader) 0)"
  shows "is_ok (apply_joint_mapping vals (pr_joint_index_map p) (pr_joint_scales p))"
proof -
  have "k < 2 ^ 32" if "k < length vals" for k
    using that assms(2) unsigned_less [of "unwrap_or (ch_dof leader) 0", where ?'a = nat] by simp
  then show ?thesis
    using assms unfolding is_ok_apply_joint_mapping is_ok_dof_and_index_map Let_def
    by (auto simp: mapped_len_def source_index_Nil source_index_map word_less_nat_alt word_le_nat_alt split: if_splits)
qed

lemma conforming_sample_maps:
  assumes ok: "is_ok (pairing_validate p config)" and t: "teleop_runtime_config_of config p = Some t"
    and ld: "device_named config (pr_leader_device p) = Some ld"
    and leader: "channel_named ld (pr_leader_channel_type p) = Some leader"
    and fits: "sample_conforms (pr_leader_state p) (unwrap_or (ch_dof leader) 0) state"
  shows "\<exists>cmd. map_leader_state t state = Ok (Some cmd)"
proof -
  note f = teleop_config_fields [OF t]
  from ok obtain fd follower where
    direct: "pr_mapping p = DirectJoint \<Longrightarrow> is_ok (direct_joint_validate p ld leader fd follower)"
    and cartesian: "pr_mapping p = Cartesian \<Longrightarrow> is_ok (cartesian_validate p follower)"
    and parallel: "pr_mapping p = Parallel \<Longrightarrow> is_ok (parallel_validate p leader follower)"
    by (rule pairing_validate_channels) (use ld leader in auto)
  show ?thesis
  proof (cases "pr_mapping p")
    case DirectJoint
    with is_ok_direct_joint_validate [OF direct] fits obtain ts vals where
      "state = VectorState ts vals" "pr_follower_command p = CK_JointPosition"
      "is_ok (apply_joint_mapping vals (pr_joint_index_map p) (pr_joint_scales p))"
      by (auto simp: sample_conforms_def intro: direct_joint_maps split: leader_state.splits)
    with DirectJoint show ?thesis by (auto simp: map_leader_state_def map_direct_joint_def f bind_ok_def is_ok_iff_Ok)
  next
    case Cartesian
    with is_ok_cartesian_validate [OF cartesian] fits show ?thesis
      by (auto simp: sample_conforms_def map_leader_state_def map_cartesian_def f split: leader_state.splits)
  next
    case Parallel
    with is_ok_parallel_validate [OF parallel] fits show ?thesis
      by (auto simp: sample_conforms_def map_leader_state_def map_parallel_def f Let_def split: leader_state.splits)
  qed
qed

text \<open>C1: for a pairing of an accepted project, every sample the leader channel publishes for
  the paired state kind is mapped to a command, with the sample's timestamp and the payload
  type the follower's command topic was opened with.\<close>

theorem validated_pairing_routes:
  assumes "project_ok config" and "p \<in> set (pj_pairings config)" and "teleop_runtime_config_of config p = Some t"
    and "device_named config (pr_leader_device p) = Some ld"
    and "channel_named ld (pr_leader_channel_type p) = Some leader"
    and "sample_conforms (pr_leader_state p) (unwrap_or (ch_dof leader) 0) state"
  shows "\<exists>cmd. map_leader_state t state = Ok (Some cmd) \<and> command_timestamp_us cmd = state_timestamp_us state
    \<and> publish_command (command_publisher_payload (tel_follower_command_kind t)) (Ok ()) cmd = Ok ()"
proof -
  from conforming_sample_maps [OF project_ok_pairing [OF assms(1,2)] assms(3-6)]
  obtain cmd where "map_leader_state t state = Ok (Some cmd)" by blast
  with map_leader_state_command [OF this] show ?thesis by (auto simp: map_err_def)
qed

definition sample_teleop :: teleop_runtime_config_v2 where
  "sample_teleop = hd (teleop_runtime_configs_v2 sample_project)"

lemma sample_lookups:
  "device_named sample_project ''leader'' = Some (make_device ''leader'' ''robot0'' [arm_channel FreeDrive])"
  "channel_named (make_device ''leader'' ''robot0'' [arm_channel FreeDrive]) ''arm'' = Some (arm_channel FreeDrive)"
  "device_named sample_project ''follower'' = Some (make_device ''follower'' ''robot1'' [arm_channel CommandFollowing])"
  "channel_named (make_device ''follower'' ''robot1'' [arm_channel CommandFollowing]) ''arm'' = Some (arm_channel CommandFollowing)"
  by (simp_all add: device_named_def channel_named_def sample_project_def sample_devices_def make_device_def arm_channel_def)

lemma sample_fields:
  "ch_dof (arm_channel mode) = Some 6" "pr_leader_device sample_pairing = ''leader''"
  "pr_leader_channel_type sample_pairing = ''arm''" "pr_leader_state sample_pairing = SK_JointPosition"
  by (simp_all add: arm_channel_def sample_pairing_def)

lemma sample_pairings: "pj_pairings sample_project = [sample_pairing]"
  by (simp add: sample_project_def)

lemma sample_teleop_of: "teleop_runtime_config_of sample_project sample_pairing = Some sample_teleop"
  "teleop_runtime_configs_v2 sample_project = [sample_teleop]"
proof -
  obtain t where t: "teleop_runtime_config_of sample_project sample_pairing = Some t"
    using sample_lookups by (simp add: teleop_runtime_config_of_def sample_pairing_def Let_def)
  then have "teleop_runtime_configs_v2 sample_project = [t]"
    by (simp add: teleop_runtime_configs_v2_def sample_pairings map_filter_simps)
  then show "teleop_runtime_config_of sample_project sample_pairing = Some sample_teleop"
    "teleop_runtime_configs_v2 sample_project = [sample_teleop]" using t by (simp_all add: sample_teleop_def)
qed

theorem validated_pairing_routes_witness:
  "\<exists>cmd. map_leader_state sample_teleop (VectorState 7 (replicate 6 (Fin 1))) = Ok (Some cmd)
    \<and> command_timestamp_us cmd = state_timestamp_us (VectorState 7 (replicate 6 (Fin 1)))
    \<and> publish_command (command_publisher_payload (tel_follower_command_kind sample_teleop)) (Ok ()) cmd = Ok ()"
  by (rule validated_pairing_routes [OF sample_project_ok _ sample_teleop_of(1),
        of "make_device ''leader'' ''robot0'' [arm_channel FreeDrive]" "arm_channel FreeDrive"])
    (simp_all add: sample_pairings sample_fields sample_lookups sample_conforms_def)

text \<open>An iteration whose ports work and whose leader publishes conforming samples.\<close>

definition healthy_input :: "robot_state_kind \<Rightarrow> u32 \<Rightarrow> router_input \<Rightarrow> bool" where
  "healthy_input kind dof i \<longleftrightarrow> list_all is_ok (ri_control i) \<and> is_ok (ri_send i)
     \<and> (case ri_follower i of None \<Rightarrow> True | Some subscriber \<Rightarrow> is_ok (drain_latest_state subscriber))
     \<and> (case drain_latest_state (ri_leader i) of
          Err _ \<Rightarrow> False | Ok None \<Rightarrow> True | Ok (Some state) \<Rightarrow> sample_conforms kind dof state)"

lemma drain_control_ok: "list_all is_ok rs \<Longrightarrow> is_ok (drain_control_events rs)"
  by (induction rs) (auto simp: bind_ok_def map_err_def is_ok_iff_Ok split: sum.splits)

lemma router_forward_healthy:
  assumes "map_leader_state t state = Ok (Some cmd)" and "is_ok (ri_send i)"
  shows "snd (snd (router_forward t s i ts cmd)) = None"
proof -
  note c = map_leader_state_command [OF assms(1)]
  obtain sync cmd' outcome where st: "stage_of s i cmd = Ok (sync, cmd', outcome)"
  proof (cases "sync_enabled (rt_sync s)")
    case True
    with sync_stage.stage_total [OF c(3), of "rt_sync s" "rt_follower_state s" "ri_now i"]
    obtain x where "stage_of s i cmd = Ok x" by (auto simp: stage_of_def is_ok_iff_Ok)
    with that show thesis by (metis prod_cases3)
  qed (use that in \<open>auto simp: stage_of_def\<close>)
  have "is_ok (publish_command (command_publisher_payload (tel_follower_command_kind t)) (ri_send i) cmd')"
    using assms(2) by (simp add: stage_of_keeps(2) [OF st] c(1) ok_iff)
  then show ?thesis
    using st by (cases outcome)
      (auto simp: router_forward_def stage_of_def [symmetric] or_fail_def Let_def is_ok_iff_Ok)
qed

lemma router_iteration_healthy:
  assumes "healthy_input kind dof i"
    and "\<And>state. sample_conforms kind dof state \<Longrightarrow> \<exists>cmd. map_leader_state t state = Ok (Some cmd)"
  shows "snd (snd (router_iteration t s i)) \<in> {None, Some (Ok ())}"
proof -
  from assms(1) obtain b where b: "drain_control_events (ri_control i) = Ok b"
    using drain_control_ok by (fastforce simp: healthy_input_def is_ok_iff_Ok)
  from assms(1) obtain r where r: "(case ri_follower i of None \<Rightarrow> Ok None | Some sub \<Rightarrow> drain_latest_state sub) = Ok r"
    by (auto simp: healthy_input_def is_ok_iff_Ok split: option.splits)
  from assms(1) obtain l where l: "drain_latest_state (ri_leader i) = Ok l"
    by (auto simp: healthy_input_def split: sum.splits)
  show ?thesis
  proof (cases l)
    case None
    with b r l show ?thesis by (auto simp: router_iteration_def or_fail_def Let_def router_wait_def)
  next
    case (Some state)
    with assms l obtain cmd where "map_leader_state t state = Ok (Some cmd)" by (auto simp: healthy_input_def)
    with b r l Some router_forward_healthy [OF this, of i] assms(1) show ?thesis
      by (auto simp: router_iteration_def or_fail_def Let_def healthy_input_def)
  qed
qed

lemma run_router_healthy:
  assumes "\<And>state. sample_conforms kind dof state \<Longrightarrow> \<exists>cmd. map_leader_state t state = Ok (Some cmd)"
  shows "list_all (healthy_input kind dof) is \<Longrightarrow> snd (snd (run_router_loop t s is)) \<in> {None, Some (Ok ())}"
proof (induction "is" arbitrary: s)
  case (Cons i "is")
  obtain s1 c x where it: "router_iteration t s i = (s1, c, x)" by (metis prod_cases3)
  have "x \<in> {None, Some (Ok ())}"
    using router_iteration_healthy [of kind dof i t s] assms Cons.prems it by simp
  with Cons.IH [of s1] Cons.prems it show ?case by (cases x) (auto split: prod.splits)
qed simp

text \<open>C2: the router of a pairing of an accepted project never stops with an error as long
  as its ports work and the leader publishes conforming samples: it runs until it is asked to
  stop.\<close>

theorem healthy_router_never_fails:
  assumes "project_ok config" and "p \<in> set (pj_pairings config)" and "teleop_runtime_config_of config p = Some t"
    and "device_named config (pr_leader_device p) = Some ld"
    and "channel_named ld (pr_leader_channel_type p) = Some leader"
    and "list_all (healthy_input (pr_leader_state p) (unwrap_or (ch_dof leader) 0)) is"
  shows "snd (snd (run_router_loop t (router_init t) is)) \<in> {None, Some (Ok ())}"
  using conforming_sample_maps [OF project_ok_pairing [OF assms(1,2)] assms(3-5)] assms(6)
  by (intro run_router_healthy) auto

theorem healthy_router_never_fails_witness:
  "snd (snd (run_router_loop sample_teleop (router_init sample_teleop)
     [quiet_router_input\<lparr>ri_leader := JointSubscriber [Ok (JointVector15_from_slice 1 (replicate 6 (Fin 2)))]\<rparr>]))
   \<in> {None, Some (Ok ())}"
proof -
  have "drain_latest_state (JointSubscriber [Ok (JointVector15_from_slice 1 (replicate 6 (Fin 2)))])
      = Ok (Some (VectorState 1 (replicate 6 (Fin 2))))" by code_simp
  then show ?thesis
    by (intro healthy_router_never_fails [OF sample_project_ok _ sample_teleop_of(1),
        of "make_device ''leader'' ''robot0'' [arm_channel FreeDrive]" "arm_channel FreeDrive"])
      (simp_all add: sample_pairings sample_fields sample_lookups healthy_input_def quiet_router_input_def
        sample_conforms_def)
qed

section \<open>The children of a project fit together\<close>

lemma map_filter_all_Some:
  "(\<And>x. x \<in> set xs \<Longrightarrow> f x = Some (g x)) \<Longrightarrow> List.map_filter f xs = map g xs"
  by (induction xs) (auto simp: map_filter_simps)

lemma accepted_pairing_config:
  assumes "project_ok config" and "p \<in> set (pj_pairings config)"
  obtains t a where "teleop_runtime_config_of config p = Some t" "assembler_action_of config p = Some a"
    "tel_follower_command_kind t = aact_command_kind a" "tel_follower_command_topic t = aact_command_topic a"
    "tel_follower_channel_id t = aact_channel_id a"
proof -
  from project_ok_pairing [OF assms] obtain ld fd leader follower where
    "device_named config (pr_leader_device p) = Some ld" "device_named config (pr_follower_device p) = Some fd"
    "channel_named fd (pr_follower_channel_type p) = Some follower"
    by (rule pairing_validate_channels)
  then show thesis using that by (simp add: teleop_runtime_config_of_def assembler_action_of_def Let_def)
qed

text \<open>An accepted project gets exactly one router configuration per pairing, in order, and
  every router accepts its own, provided the TOML text it is started with reads back as the
  configuration that was written.\<close>

theorem teleop_children_load:
  assumes "project_ok config"
    and "\<forall>t \<in> set (teleop_runtime_configs_v2 config). toml_from_str (show_toml t) = Ok t"
  shows "map Some (teleop_runtime_configs_v2 config) = map (teleop_runtime_config_of config) (pj_pairings config)
    \<and> (\<forall>t \<in> set (teleop_runtime_configs_v2 config).
         load_runtime_config load_text toml_from_str None (Some (show_toml t)) = Ok t)"
proof
  have "\<exists>t. teleop_runtime_config_of config p = Some t" if "p \<in> set (pj_pairings config)" for p
    using accepted_pairing_config [OF assms(1) that] by blast
  then have each: "teleop_runtime_config_of config p = Some (the (teleop_runtime_config_of config p))"
    if "p \<in> set (pj_pairings config)" for p using that by (metis option.sel)
  show "map Some (teleop_runtime_configs_v2 config) = map (teleop_runtime_config_of config) (pj_pairings config)"
    using each by (simp add: teleop_runtime_configs_v2_def map_filter_all_Some [OF each])
  show "\<forall>t \<in> set (teleop_runtime_configs_v2 config).
      load_runtime_config load_text toml_from_str None (Some (show_toml t)) = Ok t"
    using teleop_child.child_loads [OF assms(1), of _ toml_from_str show_toml] assms(2)
    by (auto simp: load_runtime_config_def map_err_def)
qed

theorem teleop_children_load_witness:
  "load_runtime_config Err (\<lambda>_. Ok sample_teleop) None (Some []) = Ok sample_teleop"
  using teleop_children_load [OF sample_project_ok, of "\<lambda>_. Ok sample_teleop" "\<lambda>_. []" Err]
  by (simp add: sample_teleop_of)

text \<open>C30: in an accepted project whose resolved preview settings are themselves in range, every
  derived encoder configuration, recording or preview, is accepted by the encoder that reads it.\<close>

theorem encoder_children_load:
  assumes "project_ok config" and "previews_in_range config"
    and "\<forall>c \<in> set (encoder_runtime_configs_v2 config). toml_from_str (show_toml c) = Ok c"
  shows "\<forall>c \<in> set (encoder_runtime_configs_v2 config).
    from_str toml_from_str encoder_runtime_validate (show_toml c) = Ok c"
  using encoder_child.child_loads [of config _ toml_from_str show_toml] assms by blast

lemma sample_previews_in_range: "previews_in_range sample_project"
  using sample_project_evaluations by simp

lemma sample_encoders:
  "map er_process_id (encoder_runtime_configs_v2 sample_project) =
    [''encoder.cam.color'', ''preview-encoder.cam.color'', ''encoder.cam.depth'', ''preview-encoder.cam.depth'']"
  using sample_project_evaluations by simp

theorem encoder_children_load_witness:
  "encoder_runtime_configs_v2 sample_project \<noteq> [] \<and> list_all (\<lambda>c.
    from_str (\<lambda>s. case find_by er_process_id s (encoder_runtime_configs_v2 sample_project) of
      None \<Rightarrow> Err [] | Some c \<Rightarrow> Ok c) encoder_runtime_validate (er_process_id c) = Ok c)
    (encoder_runtime_configs_v2 sample_project)"
proof (intro conjI, unfold list_all_iff)
  have "distinct (map er_process_id (encoder_runtime_configs_v2 sample_project))" by (simp add: sample_encoders)
  from find_by_distinct [OF this]
  show "\<forall>c \<in> set (encoder_runtime_configs_v2 sample_project).
      from_str (\<lambda>s. case find_by er_process_id s (encoder_runtime_configs_v2 sample_project) of
        None \<Rightarrow> Err [] | Some c \<Rightarrow> Ok c) encoder_runtime_validate (er_process_id c) = Ok c"
    by (intro encoder_children_load [OF sample_project_ok sample_previews_in_range]) simp
qed (use sample_encoders in force)

text \<open>Recording encoders need no such proviso: in every accepted project each recording
  configuration is accepted by the encoder that reads it.\<close>

theorem recording_children_load:
  assumes "project_ok config" and "c \<in> set (recording_encoder_configs config)"
    and "toml_from_str (show_toml c) = Ok c"
  shows "from_str toml_from_str encoder_runtime_validate (show_toml c) = Ok c"
  using recording_child.child_loads [where toml_from_str = toml_from_str and show_toml = show_toml, OF assms] .

lemma sample_recording: "recording_encoder_configs sample_project \<noteq> []"
  using sample_project_evaluations by simp

theorem recording_children_load_witness:
  "from_str (\<lambda>_. Ok (hd (recording_encoder_configs sample_project))) encoder_runtime_validate []
     = Ok (hd (recording_encoder_configs sample_project))"
  by (rule recording_children_load [OF sample_project_ok hd_in_set [OF sample_recording], where show_toml = "\<lambda>_. []"]) simp

text \<open>The storage, user-interface and visualizer configurations derived from an accepted
  project are accepted by their processes.\<close>

theorem service_children_load:
  assumes "project_ok config"
  shows "is_ok (storage_runtime_validate (storage_runtime_config_of config))
    \<and> is_ok (ui_validate (ui_runtime_config_of config))
    \<and> is_ok (visualizer_v2_validate (visualizer_runtime_config_v2_of config))"
  using storage_child.derived_ok [OF assms] ui_child.derived_ok [OF assms] visualizer_child.derived_ok [OF assms] by simp

theorem service_children_load_witness:
  "is_ok (storage_runtime_validate (storage_runtime_config_of sample_project))
    \<and> is_ok (ui_validate (ui_runtime_config_of sample_project))
    \<and> is_ok (visualizer_v2_validate (visualizer_runtime_config_v2_of sample_project))"
  by (rule service_children_load [OF sample_project_ok])

text \<open>The assembler accepts the configuration derived from an accepted project exactly when
  some camera is recorded and the embedded project text is not blank; a project with robots
  only is accepted by the controller and refused by the assembler.\<close>

theorem assembler_accepts_iff:
  assumes "project_ok config"
  shows "is_ok (assembler_runtime_validate (assembler_runtime_config_v2_of config doc)) \<longleftrightarrow>
     recorded_cameras config \<noteq> [] \<and> \<not> blank doc"
  using assms by (rule assembler_config_ok_iff)

definition robots_only_project :: project_config where
  "robots_only_project = sample_project\<lparr>pj_devices := tl sample_devices, pj_pairings := [sample_pairing]\<rparr>"

definition zero_width_project :: project_config where
  "zero_width_project = sample_project\<lparr>pj_devices :=
     [make_device ''cam'' ''camera0''
        [color_channel\<lparr>ch_preview_settings := Some (ChannelPreviewConfig_default\<lparr>cpv_width := Some 0\<rparr>)\<rparr>]],
     pj_pairings := []\<rparr>"

definition dotted_names_project :: project_config where
  "dotted_names_project = sample_project\<lparr>pj_devices :=
     [make_device ''cam'' ''camera0'' [color_channel\<lparr>ch_channel_type := ''left.color''\<rparr>],
      make_device ''cam.left'' ''camera1'' [color_channel]],
     pj_pairings := []\<rparr>"

text \<open>The parts of the validator that look at the devices of the variants, and what they lead to.\<close>

definition devices_accepted :: "project_config \<Rightarrow> bool" where
  "devices_accepted config \<longleftrightarrow> pj_devices config \<noteq> [] \<and> is_ok (devices_validate {} {} (pj_devices config))
     \<and> list_all (\<lambda>p. is_ok (pairing_validate p config)) (pj_pairings config)
     \<and> is_ok (validate_per_channel_encoder_configs config) \<and> is_ok (validate_preview_compatibility config)"

lemma variant_evaluations:
  "devices_accepted robots_only_project \<and> recorded_cameras robots_only_project = []
   \<and> devices_accepted zero_width_project
   \<and> (\<exists>c \<in> set (encoder_runtime_configs_v2 zero_width_project).
        encoder_runtime_validate c = Err (Validation (V_Preview PreviewSize)))
   \<and> devices_accepted dotted_names_project
   \<and> \<not> distinct (map er_process_id (recording_encoder_configs dotted_names_project))"
  by code_simp

lemma variants_ok: "project_ok robots_only_project" "project_ok zero_width_project" "project_ok dotted_names_project"
  using variant_evaluations
  by (auto simp: robots_only_project_def zero_width_project_def dotted_names_project_def devices_accepted_def
      intro!: sample_variant_ok)

lemma robots_only_project_ok: "project_ok robots_only_project" "recorded_cameras robots_only_project = []"
  using variants_ok variant_evaluations by simp_all

theorem assembler_accepts_iff_witness:
  "\<not> is_ok (assembler_runtime_validate (assembler_runtime_config_v2_of robots_only_project ''project_name''))"
  unfolding assembler_accepts_iff [OF robots_only_project_ok(1)] by (simp add: robots_only_project_ok(2))

lemma recording_encoder_configs_eq: "recording_encoder_configs config = map (recording_config_of config) (recorded_cameras config)"
proof -
  have "filter (\<lambda>c. er_role c = RoleRecording) (concat (map (\<lambda>camera.
      (let channel_cfg = camera_channel_cfg config camera in
      (if is_some_and channel_cfg ch_record_enabled then [recording_config_of config camera] else [])
      @ (if is_some_and channel_cfg ch_preview_enabled then [preview_config_of config camera] else []))) cameras)) =
    map (recording_config_of config)
      (filter (\<lambda>camera. is_some_and (camera_channel_cfg config camera) ch_record_enabled) cameras)" for cameras
    by (induction cameras) (auto simp: Let_def)
  then show ?thesis by (simp add: recording_encoder_configs_def encoder_runtime_configs_v2_def recorded_cameras_def)
qed

text \<open>C31: the assembler expects exactly the recording encoders the controller starts: for
  every project the two lists agree, in order, on channel, codec, frame rate and packet topic.\<close>

theorem assembler_matches_encoders:
  "map (\<lambda>c. (acam_channel_id c, Some (acam_codec c, acam_fps c, acam_recording_packet_topic c)))
     (asm_cameras (assembler_runtime_config_v2_of config doc)) =
   map (\<lambda>e. (er_channel_id e, map_option (\<lambda>r. (re_codec r, re_fps r, re_packet_topic r)) (er_recording e)))
     (recording_encoder_configs config)"
  by (simp add: recording_encoder_configs_eq assembler_runtime_config_v2_of_def assembler_camera_of_def
      recording_config_of_def Let_def)

text \<open>In an accepted project the derived action streams are those of the derived routers.\<close>

lemma actions_match_routers:
  assumes "project_ok config"
  shows "map (\<lambda>a. (aact_command_kind a, aact_command_topic a, aact_channel_id a))
       (asm_actions (assembler_runtime_config_v2_of config doc)) =
     map (\<lambda>t. (tel_follower_command_kind t, tel_follower_command_topic t, tel_follower_channel_id t))
       (teleop_runtime_configs_v2 config)"
    and "length (asm_actions (assembler_runtime_config_v2_of config doc)) = length (pj_pairings config)"
proof -
  let ?t = "\<lambda>p. the (teleop_runtime_config_of config p)" and ?a = "\<lambda>p. the (assembler_action_of config p)"
  have both: "teleop_runtime_config_of config p = Some (?t p) \<and> assembler_action_of config p = Some (?a p)
      \<and> (aact_command_kind (?a p), aact_command_topic (?a p), aact_channel_id (?a p)) =
        (tel_follower_command_kind (?t p), tel_follower_command_topic (?t p), tel_follower_channel_id (?t p))"
    if "p \<in> set (pj_pairings config)" for p
    by (rule accepted_pairing_config [OF assms that]) simp
  have "teleop_runtime_configs_v2 config = map ?t (pj_pairings config)"
    unfolding teleop_runtime_configs_v2_def using both by (intro map_filter_all_Some) blast
  moreover have "List.map_filter (assembler_action_of config) (pj_pairings config) = map ?a (pj_pairings config)"
    using both by (intro map_filter_all_Some) blast
  ultimately show "map (\<lambda>a. (aact_command_kind a, aact_command_topic a, aact_channel_id a))
       (asm_actions (assembler_runtime_config_v2_of config doc)) =
     map (\<lambda>t. (tel_follower_command_kind t, tel_follower_command_topic t, tel_follower_channel_id t))
       (teleop_runtime_configs_v2 config)"
    and "length (asm_actions (assembler_runtime_config_v2_of config doc)) = length (pj_pairings config)"
    using both by (simp_all add: assembler_runtime_config_v2_of_def)
qed

text \<open>The visualizer shows exactly the cameras that get a preview encoder, in order,
  with the same resize policy.\<close>

theorem visualizer_matches_previews:
  "map (\<lambda>v. (vcs_channel_id v, Some (vcs_preview_resize_policy v)))
     (vr2_camera_sources (visualizer_runtime_config_v2_of config)) =
   map (\<lambda>e. (er_channel_id e, map_option pe_resize_policy (er_preview e)))
     (filter (\<lambda>e. er_role e = RolePreview) (encoder_runtime_configs_v2 config))"
proof -
  have "filter (\<lambda>c. er_role c = RolePreview) (concat (map (\<lambda>camera.
      (let channel_cfg = camera_channel_cfg config camera in
      (if is_some_and channel_cfg ch_record_enabled then [recording_config_of config camera] else [])
      @ (if is_some_and channel_cfg ch_preview_enabled then [preview_config_of config camera] else []))) cameras)) =
    map (preview_config_of config)
      (filter (\<lambda>camera. is_some_and (camera_channel_cfg config camera) ch_preview_enabled) cameras)" for cameras
    by (induction cameras) (auto simp: Let_def)
  then have "filter (\<lambda>e. er_role e = RolePreview) (encoder_runtime_configs_v2 config) =
      map (preview_config_of config) (preview_cameras config)"
    by (simp add: encoder_runtime_configs_v2_def preview_cameras_def)
  then show ?thesis
    by (simp add: visualizer_runtime_config_v2_of_def visualizer_camera_source_of_def preview_config_of_def
        Let_def split_def)
qed

text \<open>The single output mode the visualizer is started with is that of the last preview
  camera, although it is kept in a variable named for the first: with cameras of different
  modes the other ones are subscribed to on the wrong topics.\<close>

theorem visualizer_mode_is_last:
  assumes "preview_cameras config \<noteq> []"
  shows "vr2_preview_output_mode (visualizer_runtime_config_v2_of config) =
    pv_output_mode (camera_preview_cfg config (last (preview_cameras config)))"
proof -
  have "fold (\<lambda>camera first. pv_output_mode (camera_preview_cfg config camera)) cs m =
      (if cs = [] then m else pv_output_mode (camera_preview_cfg config (last cs)))" for cs m
    by (induction cs arbitrary: m) auto
  with assms show ?thesis by (simp add: visualizer_runtime_config_v2_of_def)
qed

lemma sample_preview_cameras: "preview_cameras sample_project \<noteq> []"
  using sample_project_evaluations by simp

theorem visualizer_mode_is_last_witness:
  "vr2_preview_output_mode (visualizer_runtime_config_v2_of sample_project) =
    pv_output_mode (camera_preview_cfg sample_project (last (preview_cameras sample_project)))"
  by (rule visualizer_mode_is_last [OF sample_preview_cameras])

text \<open>The project validator does not look at per-channel preview settings: there is an
  accepted project with a preview encoder configuration that the encoder rejects (a preview
  width of zero).\<close>

theorem preview_child_may_reject:
  "project_ok zero_width_project \<and>
   (\<exists>c \<in> set (encoder_runtime_configs_v2 zero_width_project).
      encoder_runtime_validate c = Err (Validation (V_Preview PreviewSize)))"
  using variants_ok variant_evaluations by blast

text \<open>Process identifiers are not unique: there is an accepted project in which two
  recording encoders get the same one, because a dot in a name and the separator look alike.\<close>

theorem process_ids_may_collide:
  "project_ok dotted_names_project \<and> \<not> distinct (map er_process_id (recording_encoder_configs dotted_names_project))"
  using variants_ok variant_evaluations by blast

text \<open>In an accepted project every device is found by its own name and every channel by
  its own type, so a lookup by name never reaches another entry.\<close>

theorem accepted_project_lookups:
  assumes "project_ok config"
  shows "\<forall>d \<in> set (pj_devices config). device_named config (dev_name d) = Some d
     \<and> (\<forall>c \<in> set (dev_channels d). channel_named d (ch_channel_type c) = Some c)"
  using devices.lookup_complete [OF assms] channels.lookup_complete project_ok_devices(4) [OF assms] by blast

theorem accepted_project_lookups_witness:
  "device_named sample_project ''leader'' = Some (make_device ''leader'' ''robot0'' [arm_channel FreeDrive])"
  using accepted_project_lookups [OF sample_project_ok]
  by (auto simp: sample_project_def sample_devices_def make_device_def)

section \<open>Topics identify their channel\<close>

definition camera_key :: "resolved_camera_channel \<Rightarrow> string \<times> string" where
  "camera_key camera = (rcc_bus_root camera, rcc_channel_type camera)"

lemma resolve_camera_key:
  "camera \<in> set (resolve_camera d c) \<Longrightarrow> camera_key camera = (dev_bus_root d, ch_channel_type c)"
  by (erule resolve_cameraE) (simp add: camera_key_def)

lemma length_resolve_camera: "length (resolve_camera d c) \<le> 1"
  by (simp add: resolve_camera_def split: option.splits)

lemma distinct_map_append:
  "distinct (map f (xs @ ys)) \<longleftrightarrow> distinct (map f xs) \<and> distinct (map f ys) \<and> f ` set xs \<inter> f ` set ys = {}"
  by (simp only: map_append distinct_append list.set_map)

lemma key_sets:
  "A \<subseteq> {(r, c)} \<Longrightarrow> B \<subseteq> {r} \<times> S \<Longrightarrow> c \<notin> S \<Longrightarrow> A \<inter> B = {}"
  "A \<subseteq> {r} \<times> T \<Longrightarrow> fst ` B \<subseteq> R \<Longrightarrow> r \<notin> R \<Longrightarrow> A \<inter> B = {}"
  "A \<subseteq> {r} \<times> T \<Longrightarrow> fst ` A \<subseteq> {r}"
  by fastforce+

lemma device_camera_keys:
  assumes "distinct (map ch_channel_type cs)"
  shows "distinct (map camera_key (concat (map (resolve_camera d) cs)))
    \<and> camera_key ` set (concat (map (resolve_camera d) cs)) \<subseteq> {dev_bus_root d} \<times> ch_channel_type ` set cs"
  using assms
proof (induction cs)
  case (Cons c cs)
  define rest where "rest = concat (map (resolve_camera d) cs)"
  have one: "distinct (map camera_key (resolve_camera d c))"
    using length_resolve_camera [of d c] by (cases "resolve_camera d c") auto
  have key: "camera_key ` set (resolve_camera d c) \<subseteq> {(dev_bus_root d, ch_channel_type c)}"
    using resolve_camera_key by blast
  from Cons have rest: "distinct (map camera_key rest)"
    "camera_key ` set rest \<subseteq> {dev_bus_root d} \<times> ch_channel_type ` set cs"
    and new: "ch_channel_type c \<notin> ch_channel_type ` set cs" by (auto simp: rest_def)
  have all: "concat (map (resolve_camera d) (c # cs)) = resolve_camera d c @ rest" by (simp add: rest_def)
  have "camera_key ` set (resolve_camera d c) \<inter> camera_key ` set rest = {}" by (rule key_sets(1) [OF key rest(2) new])
  moreover have "camera_key ` set (resolve_camera d c @ rest) \<subseteq> {dev_bus_root d} \<times> ch_channel_type ` set (c # cs)"
    unfolding set_append image_Un using key rest(2) by auto
  ultimately show ?case unfolding all distinct_map_append using one rest(1) by blast
qed simp

lemma camera_keys_distinct:
  assumes "distinct (map dev_bus_root ds)" and "\<forall>d \<in> set ds. distinct (map ch_channel_type (dev_channels d))"
  shows "distinct (map camera_key (concat (map (\<lambda>d. concat (map (resolve_camera d) (dev_channels d))) ds)))
    \<and> fst ` camera_key ` set (concat (map (\<lambda>d. concat (map (resolve_camera d) (dev_channels d))) ds)) \<subseteq> dev_bus_root ` set ds"
  using assms
proof (induction ds)
  case (Cons d ds)
  define here where "here = concat (map (resolve_camera d) (dev_channels d))"
  define rest where "rest = concat (map (\<lambda>d. concat (map (resolve_camera d) (dev_channels d))) ds)"
  from Cons.prems have "distinct (map ch_channel_type (dev_channels d))" by simp
  from device_camera_keys [OF this, of d]
  have here: "distinct (map camera_key here)"
    "camera_key ` set here \<subseteq> {dev_bus_root d} \<times> ch_channel_type ` set (dev_channels d)"
    unfolding here_def [symmetric] by simp_all
  from Cons.IH Cons.prems have rest: "distinct (map camera_key rest)" "fst ` camera_key ` set rest \<subseteq> dev_bus_root ` set ds"
    and new: "dev_bus_root d \<notin> dev_bus_root ` set ds" unfolding rest_def [symmetric] by simp_all
  have all: "concat (map (\<lambda>d. concat (map (resolve_camera d) (dev_channels d))) (d # ds)) = here @ rest"
    by (simp add: here_def rest_def)
  have "camera_key ` set here \<inter> camera_key ` set rest = {}" by (rule key_sets(2) [OF here(2) rest(2) new])
  moreover have "fst ` camera_key ` set (here @ rest) \<subseteq> dev_bus_root ` set (d # ds)"
    unfolding set_append image_Un list.set(2) image_insert
    by (rule Un_least [OF subset_trans [OF key_sets(3) [OF here(2)]] subset_trans [OF rest(2)]]) auto
  ultimately show ?case unfolding all distinct_map_append using here(1) rest(1) by blast
qed simp



section \<open>Recording\<close>

text \<open>C26: whatever backend and codec it gets, a session that the encoder opens for an episode
  and that ends well has written packets of that episode numbered from zero and then one end of
  stream with the next number; one that fails has written packets only.\<close>

theorem recorded_streams_numbered:
  assumes "open_session w params f = Ok s"
    and "whole_session (session_encode w) (session_finish w) fs s [] = Some (out, r)"
  shows "\<exists>pk. of_episode (csp_episode_index params) Packet pk \<and> numbered 0 out
    \<and> (if is_ok r then \<exists>h. out = pk @ [(h, [])] \<and> eph_kind h = EndOfStream \<and> eph_episode_index h = csp_episode_index params
       else out = pk)"
proof -
  have s: "session_seq s = 0" "session_episode s = csp_episode_index params"
    using open_session_fresh [OF assms(1)] by auto
  from boxed.whole_session_writes [OF assms(2)] obtain pk where pk: "of_episode (session_episode s) Packet pk"
    "numbered (session_seq s) (pk @ drop (length pk) out)"
    "if is_ok r then \<exists>h. out = pk @ [(h, [])] \<and> eph_episode_index h = session_episode s \<and> eph_kind h = EndOfStream
        \<and> eph_sequence_number h = session_seq s + of_nat (length pk) else out = pk" unfolding append_Nil by blast
  show ?thesis by (intro exI [of _ pk]) (use pk s in \<open>auto split: if_splits\<close>)
qed

theorem recorded_streams_numbered_witness:
  "numbered 0 sample_packets"
  using recorded_streams_numbered [OF sample_session_opened sample_session_runs] by blast

lemma recorded_stream_whole:
  assumes "open_session w params f = Ok s" and "csp_episode_index params = n"
    and "whole_session (session_encode w) (session_finish w) fs s [] = Some (out, Ok ())" and "gop (butlast out) \<noteq> []"
  shows "whole_stream n out"
proof -
  have s: "session_seq s = 0" "session_episode s = n" using open_session_fresh [OF assms(1)] assms(2) by auto
  from boxed.whole_session_writes [OF assms(3)] obtain pk h where pk: "of_episode n Packet pk" "out = pk @ [(h, [])]"
    "numbered 0 out" "eph_episode_index h = n" "eph_kind h = EndOfStream" using s by auto
  then have "whole_stream n (pk @ [(h, [])])" using assms(4) unfolding whole_stream_def
    by (intro exI [of _ pk] exI [of _ h]) (auto simp: of_episode_def list_all_iff)
  then show ?thesis using pk(2) by simp
qed

lemma whole_arrivals:
  assumes "list_all (\<lambda>ch. whole_stream n (packets_of ch arrivals)) ids" "list_all (\<lambda>(ch, q). ch \<in> set ids) arrivals"
  shows "list_all (\<lambda>(ch, q). eph_episode_index (fst q) = n) arrivals"
proof -
  have "eph_episode_index (fst q) = n" if "(ch, q) \<in> set arrivals" for ch q
  proof -
    have "q \<in> set (packets_of ch arrivals)" using that by (force simp: packets_of_def)
    moreover have "whole_stream n (packets_of ch arrivals)" using assms that by (auto simp: list_all_iff)
    ultimately show ?thesis by (auto simp: whole_stream_def list_all_iff)
  qed
  then show ?thesis by (auto simp: list_all_iff)
qed


lemma sample_arrivals: "packets_of ''cam/depth'' (map (Pair ''cam/depth'') sample_packets) = sample_packets"
  by (simp add: packets_of_def comp_def)

lemma sample_sessions:
  "list_all (\<lambda>ch. \<exists>(w :: (unit, av_packet list, unit, unit, unit, unit, unit) encoder_world) params f s fs.
      open_session w params f = Ok s \<and> csp_episode_index params = 3
      \<and> whole_session (session_encode w) (session_finish w) fs s []
          = Some (packets_of ch (map (Pair ''cam/depth'') sample_packets), Ok ())
      \<and> gop (butlast (packets_of ch (map (Pair ''cam/depth'') sample_packets))) \<noteq> [])
    (map acam_channel_id (asm_cameras (mg_config (EpisodeManager_new sample_asm_config :: 'b episode_manager))))"
proof -
  have params: "csp_episode_index sample_params = 3" by (simp add: sample_params_def CodecSessionParams_from_recording_def)
  have cams: "map acam_channel_id (asm_cameras (mg_config (EpisodeManager_new sample_asm_config :: 'b episode_manager))) = [''cam/depth'']"
    by (simp add: EpisodeManager_new_def sample_asm_config_def)
  show ?thesis
    unfolding cams list.pred_inject sample_arrivals
    by (intro conjI exI) (rule sample_session_opened params sample_session_runs sample_packets_keyframe | simp)+
qed


text \<open>C7: whatever controls and frames it gets and however it returns, the recording worker has
  published whole episodes, each numbered from zero and closed by its end of stream, followed by
  at most one open episode.\<close>

theorem recording_log_well_formed:
  assumes "worker_main w cfg rcfg ts worker_init = Some (wk, events, exit)"
  shows "log_ok (wk_out wk)"
  using assms by (rule worker_log)

definition sample_runtime_config :: encoder_runtime_config_v2 where
  "sample_runtime_config = \<lparr>er_process_id = ''encoder.cam.depth'', er_channel_id = ''cam/depth'',
     er_frame_topic = ''camera0/depth/frames'', er_role = RoleRecording, er_recording = Some sample_recording,
     er_preview = None\<rparr>"

definition worker_turns :: "worker_turn list" where
  "worker_turns = [\<lparr>wt_controls = [WorkerRecordingStart 3 1000], wt_frames = [sample_frame], wt_late = Timeout\<rparr>,
     \<lparr>wt_controls = [WorkerShutdown], wt_frames = [], wt_late = Timeout\<rparr>]"

lemma sample_worker_returns:
  "\<exists>wk events. worker_main sample_world sample_runtime_config sample_recording worker_turns worker_init
     = Some (wk, events, Some (Ok ()))"
proof -
  have open1: "open_session sample_world (CodecSessionParams_from_recording sample_recording ''encoder.cam.depth'' 3 1000 1 1)
      sample_frame = Ok sample_session"
    using sample_session_opened by (simp add: sample_params_def)
  have frame: "cfh_width (of_header sample_frame) = 1" "cfh_height (of_header sample_frame) = 1"
    by (simp_all add: sample_frame_def)
  show ?thesis
    by (simp add: worker_turns_def worker_iter_def worker_next_def worker_init_def worker_control_step_def finish_active_def
        handle_frame_def sample_runtime_config_def frame open1 Let_def worker_stop_def)
      (simp add: sample_defs worker_iter_def worker_control_step_def worker_next_def worker_stop_def finish_active_def)
qed

theorem recording_log_well_formed_witness:
  "\<exists>wk events. worker_main sample_world sample_runtime_config sample_recording worker_turns worker_init
     = Some (wk, events, Some (Ok ())) \<and> log_ok (wk_out wk)"
  using sample_worker_returns recording_log_well_formed by blast

text \<open>C29: a recording worker that returns normally on a shutdown has closed every episode it
  published.\<close>

theorem shutdown_leaves_closed_episodes:
  assumes "worker_main w cfg rcfg ts worker_init = Some (wk, events, Some (Ok ()))"
    and "list_all (\<lambda>t. wt_late t \<noteq> Disconnected) ts"
  shows "episodes (wk_out wk)"
  using assms by (rule shutdown_closes)

theorem shutdown_leaves_closed_episodes_witness:
  "\<exists>wk events. worker_main sample_world sample_runtime_config sample_recording worker_turns worker_init
     = Some (wk, events, Some (Ok ())) \<and> episodes (wk_out wk)"
proof -
  have "list_all (\<lambda>t. wt_late t \<noteq> Disconnected) worker_turns" by (simp add: worker_turns_def)
  then show ?thesis using sample_worker_returns shutdown_leaves_closed_episodes by blast
qed

text \<open>A pass of the recording main loop never holds more frames in its queue than the
  configured size.\<close>

theorem frame_queue_never_overflows:
  assumes "length (rn_frames r) \<le> unat (re_queue_size rcfg)" and "main_iter cfg rcfg es cs fs r = (r', e)"
  shows "length (rn_frames r') \<le> unat (re_queue_size rcfg)"
  using assms by (rule frame_queue_bounded)

theorem frame_queue_never_overflows_witness:
  "length (rn_frames (fst (main_iter sample_runtime_config sample_recording [] [RecordingStart 3 1000]
     (replicate 6 sample_frame) encoder_run_init))) \<le> 4"
  using frame_queue_never_overflows [of encoder_run_init sample_recording sample_runtime_config "[]"
      "[RecordingStart 3 1000]" "replicate 6 sample_frame"]
  by (simp add: encoder_run_init_def sample_recording_def prod_eq_iff)

text \<open>When the stop of one episode and the start of the next are read in the same pass of the
  recording main loop, the worker gets the start before the stop; without a frame in between it
  ends the pass with nothing pending, so the next episode records nothing.\<close>

theorem stop_start_in_one_pass:
  "main_iter cfg rcfg [] [RecordingStop n t, EpisodeKeep n, RecordingStart m u] [] r
     = (r\<lparr>rn_controls := rn_controls r @ [WorkerRecordingStart m u, WorkerRecordingStop], rn_recording_active := False\<rparr>, None)
   \<and> worker_main w cfg rcfg [\<lparr>wt_controls = [WorkerRecordingStart m u, WorkerRecordingStop], wt_frames = [], wt_late = Timeout\<rparr>]
       worker_init = Some (worker_init, [], None)"
  by (simp add: stop_start_batch worker_iter_def worker_next_def worker_init_def worker_control_step_def finish_active_def
      worker_stop_def)

text \<open>When the host has an encoder for the requested codec and backend, every color source
  format gets a plan with a concrete backend and a bit depth of 8 or 10, and 10 only if the encoder
  lists the chosen pixel format.\<close>

theorem encoder_negotiation_settles:
  assumes "select_encoder_name h (csp_codec params) (resolve_backend h (csp_codec params) (csp_backend params)) \<noteq> None"
    and "source \<notin> {Px_Depth16, Px_H264AnnexB}"
  shows "\<exists>plan. libav_negotiate h params source = Ok plan \<and> lp_bit_depth plan \<in> {8, 10}
    \<and> lp_backend plan \<in> {BackendCpu, BackendNvidia, BackendVaapi}
    \<and> (lp_bit_depth plan = 10 \<longrightarrow> (\<exists>fs. h_formats h (lp_codec_name plan) = Some fs \<and> lp_scale_pixel plan \<in> set fs))"
  using assms by (rule negotiation_settles)

theorem encoder_negotiation_settles_witness:
  "\<exists>plan. libav_negotiate sample_host (sample_params\<lparr>csp_codec := H264, csp_backend := BackendAuto\<rparr>) Px_Rgb24 = Ok plan
     \<and> lp_backend plan \<in> {BackendCpu, BackendNvidia, BackendVaapi}"
proof -
  have "select_encoder_name sample_host H264 (resolve_backend sample_host H264 BackendAuto) \<noteq> None" by code_simp
  then show ?thesis
    using encoder_negotiation_settles [of sample_host "sample_params\<lparr>csp_codec := H264, csp_backend := BackendAuto\<rparr>" Px_Rgb24]
    by auto
qed

section \<open>Assembling\<close>

text \<open>C5: in every run of either assembler, each episode handed to the staging worker was started,
  stopped and kept by control events the run received, with the start and stop times it carries, has
  a stream for every camera, and every stream has ended without a lost packet.\<close>

theorem staged_episodes_complete:
  "(\<forall>input. Stage input \<in> set (as_sent (fst (lerobot_run_with_config config ts))) \<longrightarrow>
      {RecordingStart (eai_episode_index input) (eai_start_time_us input), RecordingStop (eai_episode_index input) (eai_stop_time_us input),
        EpisodeKeep (eai_episode_index input)} \<subseteq> controls_of ts
      \<and> (\<forall>ch \<in> set (map acam_channel_id (asm_cameras config)).
          \<exists>b. map_of (eai_camera_streams input) ch = Some b \<and> rsb_eos_received b \<and> rsb_failed b = None))
   \<and> (\<forall>e. Stage e \<in> set (as_sent (fst (mcap_run_with_config config ts'))) \<longrightarrow>
      (\<exists>stop. pd_stop_time_us e = Some stop \<and> {RecordingStart (pd_episode_index e) (pd_start_time_us e),
          RecordingStop (pd_episode_index e) stop, EpisodeKeep (pd_episode_index e)} \<subseteq> controls_of ts')
      \<and> (\<forall>ch \<in> set (map acam_channel_id (asm_cameras config)).
          \<exists>b. map_of (pd_camera_streams e) ch = Some b \<and> csb_eos_received b \<and> csb_failed b = None))"
proof -
  have len: "length (asm_cameras config) = length (map acam_channel_id (asm_cameras config))" by simp
  have l: "handed_ok lerobot_ops config (as_manager (fst (lerobot_run_with_config config ts)))
      (as_sent (fst (lerobot_run_with_config config ts)))"
    unfolding lerobot_run_with_config_def
    by (auto simp: handed_ok_init lerobot.handed.allowed_turn_def list_all_iff intro!: lerobot.handed.loop_keeps)
  have m: "handed_ok mcap_ops config (as_manager (fst (mcap_run_with_config config ts')))
      (as_sent (fst (mcap_run_with_config config ts')))"
    unfolding mcap_run_with_config_def
    by (auto simp: handed_ok_init mcap.handed.allowed_turn_def list_all_iff intro!: mcap.handed.loop_keeps)
  have none: "Stage x \<notin> set (as_sent (assembler_init config))" for x by (simp add: assembler_init_def)
  show ?thesis
  proof (intro conjI allI impI ballI)
    fix input
    assume staged: "Stage input \<in> set (as_sent (fst (lerobot_run_with_config config ts)))"
    then obtain e n t where e: "input = ao_payload lerobot_ops e" "asked_for (controls_of ts) n e"
      "pd_stop_time_us e = Some t" "pd_keep_requested e"
      using loop_asked [of ts lerobot_ops config] none unfolding asked_def
      by (metis fst_conv lerobot_run_with_config_def)
    show "{RecordingStart (eai_episode_index input) (eai_start_time_us input), RecordingStop (eai_episode_index input) (eai_stop_time_us input),
        EpisodeKeep (eai_episode_index input)} \<subseteq> controls_of ts"
      using e by (auto simp: lerobot_ops_def as_assembly_input_def asked_for_def)
    fix ch
    assume ch: "ch \<in> set (map acam_channel_id (asm_cameras config))"
    from l staged obtain n e where e: "input = ao_payload lerobot_ops e"
      "episode_ok lerobot_ops (map acam_channel_id (asm_cameras config)) n e"
      "complete_episode lerobot_ops (length (asm_cameras config)) e" unfolding handed_ok_def by metis
    from complete_streams [OF e(2) e(3) [unfolded len] ch]
    show "\<exists>b. map_of (eai_camera_streams input) ch = Some b \<and> rsb_eos_received b \<and> rsb_failed b = None"
      using e(1) by (auto simp: lerobot_ops_def as_assembly_input_def)
  next
    fix e'
    assume staged: "Stage e' \<in> set (as_sent (fst (mcap_run_with_config config ts')))"
    then obtain e n t where e: "e' = ao_payload mcap_ops e" "asked_for (controls_of ts') n e"
      "pd_stop_time_us e = Some t" "pd_keep_requested e"
      using loop_asked [of ts' mcap_ops config] none unfolding asked_def
      by (metis fst_conv mcap_run_with_config_def)
    show "\<exists>stop. pd_stop_time_us e' = Some stop \<and> {RecordingStart (pd_episode_index e') (pd_start_time_us e'),
          RecordingStop (pd_episode_index e') stop, EpisodeKeep (pd_episode_index e')} \<subseteq> controls_of ts'"
      using e by (auto simp: mcap_ops_def asked_for_def)
    fix ch
    assume ch: "ch \<in> set (map acam_channel_id (asm_cameras config))"
    from m staged obtain n e where e: "e' = ao_payload mcap_ops e"
      "episode_ok mcap_ops (map acam_channel_id (asm_cameras config)) n e"
      "complete_episode mcap_ops (length (asm_cameras config)) e" unfolding handed_ok_def by metis
    from complete_streams [OF e(2) e(3) [unfolded len] ch]
    show "\<exists>b. map_of (pd_camera_streams e') ch = Some b \<and> csb_eos_received b \<and> csb_failed b = None"
      using e(1) by (auto simp: mcap_ops_def)
  qed
qed

definition assembly_turns :: "'p asm_turn list" where
  "assembly_turns =
     [sample_turn\<lparr>tn_controls := [Ok (RecordingStart 3 1000, 0)],
        tn_packets := [[Ok (keyframe_numbered 0\<lparr>eph_episode_index := 3\<rparr>, [1]),
          Ok ((keyframe_numbered 1)\<lparr>eph_episode_index := 3, eph_kind := EndOfStream\<rparr>, [])]]\<rparr>,
      sample_turn\<lparr>tn_controls := [Ok (RecordingStop 3 2000, 5), Ok (EpisodeKeep 3, 6)]\<rparr>]"

lemmas assembler_run_defs = lerobot_run_with_config_def asm_loop_def asm_turn_def assembler_init_def
  asm_drain_packets_def drain_observations_def drain_actions_def dispatch_phase_def stored_phase_def sweep_phase_def
  shutdown_phase_def wait_phase_def on_manager_def Let_def on_packet_def episode_packet_def observe_into_def
  lerobot_ops_def dispatch_ready_episodes_def ready_failed_and_timed_out_def with_verdict_def verdict_of_def
  all_cameras_eos_def manager_defs EpisodeManager_new_def PendingEpisode_new_def bt_update_def bt_remove_def
  as_assembly_input_def publish_def publish_drop_def

lemma assembly_run_stages:
  "\<exists>input b. Stage input \<in> set (as_sent (fst (lerobot_run_with_config sample_asm_config assembly_turns)))
     \<and> map_of (eai_camera_streams input) ''cam/depth'' = Some b"
  by (simp add: assembler_run_defs assembly_turns_def sample_turn_def sample_asm_config_def
      RecordingStreamBuffer_default_def observe_packet_def observe_eos_def update_sequence_def
      keyframe_numbered_def is_keyframe_def set_keyframe_def EncodedPacketHeader_default_def ENCODED_PACKET_FLAG_KEYFRAME_def)

theorem staged_episodes_complete_witness:
  "\<exists>input b. Stage input \<in> set (as_sent (fst (lerobot_run_with_config sample_asm_config assembly_turns)))
     \<and> EpisodeKeep (eai_episode_index input) \<in> controls_of (assembly_turns :: episode_assembly_input asm_turn list)
     \<and> map_of (eai_camera_streams input) ''cam/depth'' = Some b \<and> rsb_eos_received b \<and> rsb_failed b = None"
proof -
  obtain input where staged: "Stage input \<in> set (as_sent (fst (lerobot_run_with_config sample_asm_config assembly_turns)))"
    using assembly_run_stages by blast
  note facts = staged_episodes_complete [where config = sample_asm_config and ts = assembly_turns, THEN conjunct1, rule_format, OF staged]
  have "''cam/depth'' \<in> set (map acam_channel_id (asm_cameras sample_asm_config))" by (simp add: sample_asm_config_def)
  then obtain b where "map_of (eai_camera_streams input) ''cam/depth'' = Some b" "rsb_eos_received b" "rsb_failed b = None"
    using facts by blast
  moreover have "EpisodeKeep (eai_episode_index input) \<in> controls_of (assembly_turns :: episode_assembly_input asm_turn list)"
    using facts by simp
  ultimately show ?thesis using staged by (intro exI conjI)
qed

lemma loop_slots:
  "length (mg_in_flight (as_manager (fst (asm_loop A us (assembler_init config))))) \<le> unat (asm_staging_slots config)"
proof -
  have "slots_ok (unat (asm_staging_slots config)) (as_manager (fst (asm_loop A us (assembler_init config))))
      (as_sent (fst (asm_loop A us (assembler_init config))))"
    by (rule slots.loop_keeps) (simp_all add: slots_ok_init list_all_iff)
  then show ?thesis by (simp add: slots_ok_def)
qed

text \<open>C35: in no run of either assembler are more episodes in flight than it has staging slots.\<close>

theorem staging_slots_respected:
  "length (mg_in_flight (as_manager (fst (lerobot_run_with_config config ts)))) \<le> unat (asm_staging_slots config)
   \<and> length (mg_in_flight (as_manager (fst (mcap_run_with_config config ts')))) \<le> unat (asm_staging_slots config)"
  unfolding lerobot_run_with_config_def mcap_run_with_config_def
  by (simp add: loop_slots loop_slots [where us = "[]", unfolded asm_loop_def, simplified])

text \<open>C6: as long as an assembler runs and nobody discards it, an episode that was pending at some point
  is still pending, has been handed to the staging worker, or has been reported as dropped. This
  holds for both assemblers.\<close>

theorem no_episode_vanishes:
  assumes "list_all (\<lambda>t. list_all (\<lambda>r. case r of Ok (event, now) \<Rightarrow> event \<noteq> EpisodeDiscard n | Err e \<Rightarrow> True) (tn_controls t)) ts'"
    and "list_all (\<lambda>t. list_all (\<lambda>r. case r of Ok (event, now) \<Rightarrow> event \<noteq> EpisodeDiscard n | Err e \<Rightarrow> True) (tn_controls t)) us'"
  shows "(\<forall>s'. lerobot_run_with_config config (ts @ ts') = (s', Ok ())
      \<and> map_of (mg_episodes (as_manager (fst (lerobot_run_with_config config ts)))) n \<noteq> None \<longrightarrow>
      map_of (mg_episodes (as_manager s')) n \<noteq> None
      \<or> (\<exists>input. Stage input \<in> set (as_sent s') \<and> eai_episode_index input = n)
      \<or> (\<exists>r. OutDropped \<lparr>ed_episode_index = n, ed_reason = r\<rparr> \<in> set (as_out s')))
    \<and> (\<forall>s'. mcap_run_with_config config (us @ us') = (s', Ok ())
      \<and> map_of (mg_episodes (as_manager (fst (mcap_run_with_config config us)))) n \<noteq> None \<longrightarrow>
      map_of (mg_episodes (as_manager s')) n \<noteq> None
      \<or> (\<exists>e. Stage e \<in> set (as_sent s') \<and> pd_episode_index e = n)
      \<or> (\<exists>r. OutDropped \<lparr>ed_episode_index = n, ed_reason = r\<rparr> \<in> set (as_out s')))"
proof (intro conjI allI impI; elim conjE)
  fix s'
  assume "lerobot_run_with_config config (ts @ ts') = (s', Ok ())"
    "map_of (mg_episodes (as_manager (fst (lerobot_run_with_config config ts)))) n \<noteq> None"
  then show "map_of (mg_episodes (as_manager s')) n \<noteq> None \<or> (\<exists>input. Stage input \<in> set (as_sent s') \<and> eai_episode_index input = n)
      \<or> (\<exists>r. OutDropped \<lparr>ed_episode_index = n, ed_reason = r\<rparr> \<in> set (as_out s'))"
    by (intro lerobot.pending_stays_accounted [OF _ _ _ assms(1), of eai_episode_index ts config])
      (auto simp: lerobot_run_with_config_def lerobot_ops_def as_assembly_input_def split: if_splits)
next
  fix s'
  assume "mcap_run_with_config config (us @ us') = (s', Ok ())"
    "map_of (mg_episodes (as_manager (fst (mcap_run_with_config config us)))) n \<noteq> None"
  then show "map_of (mg_episodes (as_manager s')) n \<noteq> None \<or> (\<exists>e. Stage e \<in> set (as_sent s') \<and> pd_episode_index e = n)
      \<or> (\<exists>r. OutDropped \<lparr>ed_episode_index = n, ed_reason = r\<rparr> \<in> set (as_out s'))"
    by (intro mcap.pending_stays_accounted [OF _ _ _ assms(2), of pd_episode_index us config])
      (auto simp: mcap_run_with_config_def mcap_ops_def split: if_splits)
qed

theorem no_episode_vanishes_witness:
  "\<exists>s. lerobot_run_with_config sample_asm_config (replicate 1 sample_turn @ [sample_turn\<lparr>tn_controls := []\<rparr>]) = (s, Ok ())
     \<and> (map_of (mg_episodes (as_manager s)) 3 \<noteq> None
       \<or> (\<exists>input. Stage input \<in> set (as_sent s) \<and> eai_episode_index input = 3)
       \<or> (\<exists>r. OutDropped \<lparr>ed_episode_index = 3, ed_reason = r\<rparr> \<in> set (as_out s)))"
proof -
  obtain s where run: "lerobot_run_with_config sample_asm_config (replicate 1 sample_turn @ [sample_turn\<lparr>tn_controls := []\<rparr>]) = (s, Ok ())"
    by (simp add: assembler_run_defs sample_turn_def sample_asm_config_def RecordingStreamBuffer_default_def)
  have pending: "map_of (mg_episodes (as_manager (fst (lerobot_run_with_config sample_asm_config (replicate 1 sample_turn))))) 3 \<noteq> None"
    by (simp add: assembler_run_defs sample_turn_def sample_asm_config_def RecordingStreamBuffer_default_def)
  have quiet: "list_all (\<lambda>t. list_all (\<lambda>r. case r of Ok (event, now) \<Rightarrow> event \<noteq> EpisodeDiscard 3 | Err e \<Rightarrow> True) (tn_controls t))
      [sample_turn\<lparr>tn_controls := []\<rparr>]" by simp
  from no_episode_vanishes [OF quiet quiet, THEN conjunct1, rule_format, OF conjI [OF run pending]] run show ?thesis by blast
qed

text \<open>While an episode that is neither kept nor discarded is pending and none of its
  streams has failed, an assembler never sends the shutdown to its worker and its loop never ends
  normally, however many turns pass after the controller's shutdown.\<close>

theorem undecided_episode_blocks_shutdown:
  assumes "map_of (mg_episodes (as_manager s)) n = Some e" and "\<not> pd_keep_requested e" and "pd_failed_cameras e = []"
    and "bt_inv (mg_episodes (as_manager s))" and "StageShutdown \<notin> set (as_sent s)" and "link_ok s"
    and "list_all (\<lambda>t. \<not> tn_interrupted t \<and> undecided.allowed_turn n t) ts"
  shows "snd (asm_loop A ts s) \<noteq> Err Finished \<and> StageShutdown \<notin> set (as_sent (fst (asm_loop A ts s)))"
  by (rule undecided_episode_keeps_loop) (use assms in \<open>auto simp: undecided_def\<close>)

definition waiting_assembler :: "(recording_stream_buffer, episode_assembly_input) assembler" where
  "waiting_assembler = (assembler_init sample_asm_config)\<lparr>
     as_manager := fst (on_control_event lerobot_ops (RecordingStart 3 1000) 0 (EpisodeManager_new sample_asm_config)),
     as_shutdown_requested := True\<rparr>"

theorem undecided_episode_blocks_shutdown_witness:
  "snd (asm_loop lerobot_ops (replicate 3 (sample_turn\<lparr>tn_controls := [Ok (Shutdown, 0)]\<rparr>)) waiting_assembler) \<noteq> Err Finished"
proof -
  have m: "mg_episodes (as_manager waiting_assembler) = [(3, PendingEpisode_new lerobot_ops 3 1000 [''cam/depth''])]"
    by (simp add: waiting_assembler_def manager_defs EpisodeManager_new_def sample_asm_config_def)
  have turns: "list_all (\<lambda>t. \<not> tn_interrupted t \<and> undecided.allowed_turn 3 t)
      (replicate 3 (sample_turn\<lparr>tn_controls := [Ok (Shutdown, 0)]\<rparr>))"
    by (simp add: list_all_iff undecided.allowed_turn_def sample_turn_def not_about_def)
  have sent: "StageShutdown \<notin> set (as_sent waiting_assembler)" "link_ok waiting_assembler"
    by (simp_all add: waiting_assembler_def assembler_init_def link_ok_def)
  have e: "map_of (mg_episodes (as_manager waiting_assembler)) 3 = Some (PendingEpisode_new lerobot_ops 3 1000 [''cam/depth''])"
    "bt_inv (mg_episodes (as_manager waiting_assembler))" by (simp_all add: m bt_inv_def bt_keys_def)
  show ?thesis
    using undecided_episode_blocks_shutdown [OF e(1) _ _ e(2) sent turns, of lerobot_ops]
    by (simp add: PendingEpisode_new_def)
qed

text \<open>No episode the LeRobot assembler hands to its staging worker has a stream
  configuration, since nothing in the program records one.\<close>

theorem lerobot_streams_unconfigured:
  assumes "Stage input \<in> set (as_sent (fst (lerobot_run_with_config config ts)))"
    and "map_of (eai_camera_streams input) ch = Some b"
  shows "rsb_config b = None"
proof -
  have "no_config (as_manager (assembler_init config)) (as_sent (assembler_init config))"
    by (simp add: no_config_def assembler_init_def EpisodeManager_new_def bt_inv_def bt_keys_def)
  then have "no_config (as_manager (fst (lerobot_run_with_config config ts))) (as_sent (fst (lerobot_run_with_config config ts)))"
    unfolding lerobot_run_with_config_def
    by (auto intro!: config_less.loop_keeps simp: config_less.allowed_turn_def list_all_iff)
  then show ?thesis using assms unfolding no_config_def by blast
qed

theorem lerobot_streams_unconfigured_witness:
  "\<exists>input b. Stage input \<in> set (as_sent (fst (lerobot_run_with_config sample_asm_config assembly_turns)))
     \<and> map_of (eai_camera_streams input) ''cam/depth'' = Some b \<and> rsb_config b = None"
  using assembly_run_stages lerobot_streams_unconfigured by blast

section \<open>Datasets\<close>

text \<open>C28: when any camera is recorded, no episode that the LeRobot assembler hands to its staging
  worker is ever staged, whatever the disk and the libraries do: nothing in the program gives a
  stream the configuration that staging requires.\<close>

theorem cameras_never_staged:
  assumes "Stage input \<in> set (as_sent (fst (lerobot_run_with_config config ts)))" and "asm_cameras config \<noteq> []"
  shows "\<not> is_ok (snd (stage_episode h libs config input fs))"
proof -
  from assms(2) obtain camera rest where cams: "asm_cameras config = camera # rest" by (cases "asm_cameras config") auto
  show ?thesis by (rule unconfigured_camera_fails [OF cams]) (rule lerobot_streams_unconfigured [OF assms(1)])
qed

theorem cameras_never_staged_witness:
  "\<exists>input. Stage input \<in> set (as_sent (fst (lerobot_run_with_config sample_asm_config assembly_turns)))
     \<and> \<not> is_ok (snd (stage_episode plain_host dataset_libs sample_asm_config input [([''home''], Directory)]))"
proof -
  have "asm_cameras sample_asm_config \<noteq> []" by (simp add: sample_asm_config_def)
  then show ?thesis using assembly_run_stages cameras_never_staged by blast
qed

text \<open>C10: wherever storing an episode fails, no file is lost: each staged file is still in the
  staging directory or in its place in the episode's directory, and no other file has changed. When
  it succeeds the staging directory has no file left and the episode's directory is exactly the
  staged tree.\<close>

theorem local_store_loses_nothing:
  assumes "wf_fs fs" and "srt_output_path config = Some out"
    and "parallel (staging_of h rq) (episode_target h out rq)"
    and "local_store_episode h config rq fs = (fs', r)"
  shows "nothing_lost (staging_of h rq) (episode_target h out rq) fs fs' \<and> wf_fs fs'
    \<and> (is_ok r \<longrightarrow> no_files (staging_of h rq) fs'
        \<and> (\<forall>t. file_at fs' (episode_target h out rq @ t) = file_at fs (staging_of h rq @ t)))"
  using local_store_outcome [OF assms] by (cases r) auto

lemma plain_host_willing: "willing_host plain_host"
  by (simp add: willing_host_def plain_host_def)

lemma staged_wf: "wf_fs staged_fs"
proof -
  have "wf_fs [([''home''], Directory)]" by (simp add: wf_fs_def look_def)
  from io_keepsD [OF keeps_wf_stage_episode this staged_run [unfolded staged_world_def]] show ?thesis .
qed

lemma sample_store_places:
  "staging_of plain_host dataset_request = [''staging'', ''episode_000004'']"
  "episode_target plain_host ''./output'' dataset_request = [''home'', ''output'', ''episode_000004'']"
  unfolding staging_of_def episode_target_def dataset_request_def episode_ready_request.simps by (rule staging_path)+

theorem local_store_loses_nothing_witness:
  "\<exists>fs p. local_store_episode plain_host dataset_storage dataset_request staged_fs = (fs, Ok p)
     \<and> file_at fs [''home'', ''output'', ''episode_000004'', ''meta'', ''info.json''] = Some [49, newline]"
proof -
  note places = sample_store_places
  have par: "parallel (staging_of plain_host dataset_request) (episode_target plain_host ''./output'' dataset_request)"
    by (simp add: places parallel_def)
  have "creatable staged_fs [''home'', ''output'']"
    by (auto simp: creatable_def prefix_Cons file_at_def look_def staged_fs_def)
  then obtain fs p where run: "local_store_episode plain_host dataset_storage dataset_request staged_fs = (fs, Ok p)"
    using local_store_succeeds [OF plain_host_willing staged_wf _ dataset_paths(1) par]
    by (auto simp: places is_dir_def file_at_def look_def staged_fs_def)
  from local_store_loses_nothing [OF staged_wf dataset_paths(1) par run]
  have "file_at fs ([''home'', ''output'', ''episode_000004''] @ [''meta'', ''info.json''])
      = file_at staged_fs ([''staging'', ''episode_000004''] @ [''meta'', ''info.json''])" unfolding places by simp
  also have "\<dots> = Some [49, newline]" by (simp add: file_at_def look_def staged_fs_def)
  finally show ?thesis using run by auto
qed

text \<open>C11: merging an episode into a LeRobot dataset never loses a file of the data, video and raw
  trees, finished or not: what a reader finds in the staged tree laid over the dataset is the same
  before and after. When the merge succeeds, all of it is in the dataset.\<close>

theorem dataset_merge_keeps_files:
  assumes "wf_fs fs" and "srt_output_path config = Some out"
    and "parallel (lerobot_source h rq) (lerobot_root h out)"
    and "lerobot_store_episode_local h J config rq fs = (fs', r)"
    and "tree \<in> set merged_trees"
  shows "overlay (lerobot_source h rq @ [tree]) (lerobot_root h out @ [tree]) fs'
      = overlay (lerobot_source h rq @ [tree]) (lerobot_root h out @ [tree]) fs
    \<and> (is_ok r \<longrightarrow> no_files (lerobot_source h rq) fs'
        \<and> (\<forall>t. file_at fs' (lerobot_root h out @ tree # t)
              = overlay (lerobot_source h rq @ [tree]) (lerobot_root h out @ [tree]) fs t))"
  using lerobot_store_outcome [OF assms(1-4)] assms(5) by (cases r) auto

lemma merged_places: "lerobot_source plain_host dataset_request = [''staging'', ''episode_000004'']"
  "lerobot_root plain_host ''./output'' = dataset_dir"
  by (simp_all add: lerobot_source_def lerobot_root_def dataset_paths staging_path)

lemma merged_parallel: "parallel (lerobot_source plain_host dataset_request) (lerobot_root plain_host ''./output'')"
  by (simp add: merged_places dataset_dir_def parallel_def)

lemma merged_run: "lerobot_store_episode_local plain_host (lib_json dataset_libs) dataset_storage dataset_request staged_fs
  = (stored_fs, Ok ''./output'')"
  using stored_run by (simp add: stored_world_def staged_run)

theorem dataset_merge_keeps_files_witness:
  "file_at stored_fs (dataset_dir @ ''data'' # [''chunk-000'', ''episode_000004.parquet'']) = Some [80]"
proof -
  have "''data'' \<in> set merged_trees" by (simp add: merged_trees_def)
  from dataset_merge_keeps_files [OF staged_wf dataset_paths(1) merged_parallel merged_run this]
  have "file_at stored_fs (dataset_dir @ ''data'' # t)
      = overlay ([''staging'', ''episode_000004''] @ [''data'']) (dataset_dir @ [''data'']) staged_fs t" for t
    by (simp add: merged_places)
  then show ?thesis by (simp add: overlay_def file_at_def look_def staged_fs_def)
qed

text \<open>C9: an episode that the LeRobot assembler has staged and the storage process has merged is
  counted when the dataset is opened again: the probe of the next run, if it does not refuse, hands
  out indices above that of the episode.\<close>

theorem stored_index_not_reissued:
  assumes "stage_episode h libs acfg episode fs0 = (fs, Ok staged)" and "wf_fs fs0"
    and "rq_staging_dir rq = se_staging_dir staged" and out: "srt_output_path scfg = Some out"
    and "parallel (lerobot_source h rq) (lerobot_root h out)"
    and "lerobot_store_episode_local h J scfg rq fs = (fs', Ok p)"
    and res: "resolve_storage_root project cwd = Some r" "resolve h' r = lerobot_root h out"
    and fmt: "ep_format (pj_episode project) \<noteq> Mcap"
    and probe: "probe_resume h' J' to_toml project cwd fs' = (fs'', Ok found)"
    and small: "eai_episode_index episode < - 1"
  shows "\<exists>hint. found = Some hint \<and> eai_episode_index episode < rh_next_episode_index hint"
proof -
  let ?d = "lerobot_root h out" and ?n = "eai_episode_index episode"
  note st = staged_parquet_stored [OF assms(1-6), of J']
  then have wf: "wf_fs fs'" and idx: "?n \<in> dataset_indices J' ?d fs'" by auto
  have "is_dir fs' ?d"
  proof -
    from st have "parquet_index ?d fs' ?n \<or> ?n \<in> set (jsonl_indices J' ?d fs')" by (auto simp: dataset_indices_def)
    then obtain t where "look fs' (?d @ t) \<noteq> None" "t \<noteq> []"
      by (auto simp: parquet_index_def jsonl_indices_def file_at_def split: option.splits)
    then show ?thesis using wf_below [OF wf] by (simp add: is_dir_def)
  qed
  with probe probe_resume_lerobot [OF res(1) _ fmt] res(2)
  have "probe_lerobot h' J' to_toml project ?d fs' = (fs'', Ok found)" by simp
  then obtain fs3 where "lerobot_resume_hint_if_episodes_exist h' J' ?d fs' = (fs3, Ok found)"
    by (rule probe_lerobot_Ok)
  from resume_above_known [OF wf idx small this] show ?thesis .
qed

theorem stored_index_not_reissued_witness:
  "\<exists>hint. snd resumed_world = Ok (Some hint) \<and> (4 :: u32) < rh_next_episode_index hint"
proof -
  have wf: "wf_fs [([''home''], Directory)]" by (simp add: wf_fs_def look_def)
  have rq: "rq_staging_dir dataset_request = se_staging_dir \<lparr>se_episode_index = 4, se_staging_dir = ''/staging/episode_000004''\<rparr>"
    by (simp add: dataset_request_def)
  have fmt: "ep_format (pj_episode sample_project) \<noteq> Mcap" using dataset_evaluations by simp
  have r: "resolve plain_host ''/home/./output'' = lerobot_root plain_host ''./output''" by (simp add: merged_places dataset_paths)
  have small: "eai_episode_index dataset_episode < - 1" by (simp add: dataset_episode_simps)
  from stored_index_not_reissued [OF staged_run [unfolded staged_world_def] wf rq dataset_paths(1) merged_parallel merged_run
    dataset_paths(4) r fmt resumed_run [unfolded resumed_world_def stored_run fst_conv] small]
  show ?thesis by (simp add: resumed_run dataset_episode_simps)
qed

text \<open>C12: a run continues an existing dataset only if the dataset names, not blank, the project it
  was recorded with, and that is the project of the run, up to line ends and surrounding blanks.\<close>

theorem resume_needs_same_config:
  assumes "probe_resume h J to_toml project cwd fs = (fs', Ok (Some hint))"
  shows "\<exists>r toml stored text j. resolve_storage_root project cwd = Some r \<and> ep_format (pj_episode project) \<noteq> Mcap
    \<and> to_toml project = Ok toml
    \<and> file_at fs' (resolve h r @ [''meta'', ''info.json'']) = Some text \<and> jl_parse J text = Ok j
    \<and> value_get ''embedded_config_toml'' j = Some (JString stored)
    \<and> \<not> blank stored \<and> embedded_configs_match stored toml"
proof -
  from assms obtain r where r: "resolve_storage_root project cwd = Some r"
    and fmt: "ep_format (pj_episode project) \<noteq> Mcap"
    and p: "probe_lerobot h J to_toml project (resolve h r) fs = (fs', Ok (Some hint))"
    by (auto simp: probe_resume_def Let_def split: option.splits if_splits episode_format.splits)
  from p obtain fs1 toml stored where t: "to_toml project = Ok toml"
    and s: "read_info_embedded_config_toml h J (resolve h r) fs1 = (fs', Ok (Some stored))"
    and m: "\<not> blank stored" "embedded_configs_match stored toml"
    by (rule probe_lerobot_Ok) blast
  from s have "\<exists>text j. file_at fs' (resolve h r @ [''meta'', ''info.json'']) = Some text \<and> jl_parse J text = Ok j
      \<and> value_get ''embedded_config_toml'' j = Some (JString stored)"
    by (auto simp: read_info_embedded_config_toml_def Let_def is_file_def io_bind_Ok io_fail_def io_return_def
        read_file_def permitted_def file_at_iff as_str_Some bind_eq_Some_conv
        split: option.splits sum.splits if_splits entry.splits)
  then show ?thesis using r fmt t m by blast
qed

theorem resume_needs_same_config_witness:
  "\<exists>text. file_at stored_fs (dataset_dir @ [''meta'', ''info.json'']) = Some text"
  using resume_needs_same_config [OF resumed_run [unfolded resumed_world_def stored_run fst_conv]] dataset_paths
  by auto

section \<open>The setup wizard\<close>

text \<open>C15: whatever commands arrive at the wizard, as long as none is one of the three that cycle a
  camera profile or a robot mode and all of them return, a project that is valid when they arrive is
  valid after them.\<close>

theorem wizard_keeps_project_valid:
  assumes "project_ok (wz_config (wiz_session w))" and "list_all (checked_json H) raws"
    and "apply_commands H w m raws = (w', Ok m')"
  shows "project_ok (wz_config (wiz_session w'))"
  by (rule apply_commands_valid [OF assms])

lemma named_project_ok: "project_ok (unpaired_project\<lparr>pj_project_name := ''demo''\<rparr>)"
proof -
  have *: "pairing_validate p (unpaired_project\<lparr>pj_project_name := ''demo''\<rparr>) = pairing_validate p unpaired_project" for p
    by (rule pairing_validate_view) simp
  have c: "validate_per_channel_encoder_configs (unpaired_project\<lparr>pj_project_name := ''demo''\<rparr>)
      = validate_per_channel_encoder_configs unpaired_project"
    "validate_preview_compatibility (unpaired_project\<lparr>pj_project_name := ''demo''\<rparr>) = validate_preview_compatibility unpaired_project"
    by (rule camera_checks_view; simp)+
  show ?thesis
    using unpaired_project_ok setup_evaluations
    by (simp add: project_ok_def project_validate_def is_ok_checks_Cons * c is_ok_reject)
qed

lemma naming_run:
  "apply_raw_command setup_host sample_wizard raw = (sample_wizard\<lparr>wiz_session := sample_setup\<lparr>wz_config :=
     unpaired_project\<lparr>pj_project_name := ''demo''\<rparr>\<rparr>\<rparr>, Ok (mutation_config_changed True))"
proof -
  obtain u where "project_validate (unpaired_project\<lparr>pj_project_name := ''demo''\<rparr>) = Ok u"
    using named_project_ok by (cases "project_validate (unpaired_project\<lparr>pj_project_name := ''demo''\<rparr>)") (auto simp: project_ok_def)
  then have "set_project_name sample_setup ''demo'' = (sample_setup\<lparr>wz_config := unpaired_project\<lparr>pj_project_name := ''demo''\<rparr>\<rparr>, Ok True)"
    using setup_evaluations
    by (simp add: set_project_name_def set_nonempty_def update_config_def sample_setup_config revalidated_def bind_ok_def map_err_def)
  moreover have "setup_command_of_json (JObject [(''type'', JString ''command''),
      (''action'', JString ''setup_set_project_name''), (''value'', JString ''demo'')]) = Ok naming_command"
    using setup_evaluations by blast
  ultimately show ?thesis
    by (simp add: apply_raw_command_def setup_host_def apply_command_def naming_step step_result_def sample_wizard_def
        map_err_def bind_ok_def) (simp add: naming_command_def)
qed

theorem wizard_keeps_project_valid_witness:
  "\<exists>w. apply_commands setup_host sample_wizard SessionMutation_default [''{}''] = (w, Ok (mutation_config_changed True))
     \<and> pj_project_name (wz_config (wiz_session w)) = ''demo'' \<and> project_ok (wz_config (wiz_session w))"
proof -
  obtain w where run: "apply_commands setup_host sample_wizard SessionMutation_default [''{}''] = (w, Ok (mutation_config_changed True))"
    and name: "pj_project_name (wz_config (wiz_session w)) = ''demo''"
    by (simp add: naming_run mutation_merge_def SessionMutation_default_def mutation_config_changed_def)
  have ok: "project_ok (wz_config (wiz_session sample_wizard))"
    by (simp add: sample_wizard_def sample_setup_config unpaired_project_ok)
  have "setup_command_of_json (JObject [(''type'', JString ''command''),
      (''action'', JString ''setup_set_project_name''), (''value'', JString ''demo'')]) = Ok naming_command"
    using setup_evaluations by blast
  then have "list_all (checked_json setup_host) [''{}'']"
    by (simp add: checked_json_def setup_host_def map_err_def bind_ok_def) (simp add: naming_command_def unchecked_actions_def)
  with wizard_keeps_project_valid [OF ok _ run] run name show ?thesis by blast
qed

text \<open>C18: while the project is valid, a command other than the one that opens the device
  picker either reports that the project changed or leaves it as it was, the three unchecked commands
  included. The preview processes are restarted on that report.\<close>

theorem config_changes_flagged:
  assumes "project_ok (wz_config (wiz_session w))" and "sc_action c \<noteq> ''setup_open_add_picker''"
    and "apply_command H w c = (w', Ok m)" and "\<not> sm_config_changed m"
  shows "wz_config (wiz_session w') = wz_config (wiz_session w)"
  by (rule unflagged_command_keeps_config [OF assms])

definition removing_command :: setup_command where
  "removing_command = naming_command\<lparr>sc_action := ''setup_remove_pairing'', sc_index := Some 7\<rparr>"

theorem config_changes_flagged_witness:
  "\<exists>w. apply_command setup_host sample_wizard removing_command = (w, Ok (mutation_config_changed False))
     \<and> wz_config (wiz_session w) = unpaired_project"
proof -
  have run: "apply_command setup_host sample_wizard removing_command = (sample_wizard, Ok (mutation_config_changed False))"
    by (simp add: apply_command_def removing_command_def naming_command_def interpret_action_def config_step_def given_def Let_def
        step_result_def remove_pairing_def sample_wizard_def sample_setup_config unpaired_project_def map_err_def bind_ok_def)
  have "project_ok (wz_config (wiz_session sample_wizard))"
    by (simp add: sample_wizard_def sample_setup_config unpaired_project_ok)
  from config_changes_flagged [OF this _ run] run show ?thesis
    by (simp add: removing_command_def mutation_config_changed_def SessionMutation_default_def sample_wizard_def sample_setup_config)
qed

text \<open>C16: in a valid project, a pair of different channels that the wizard lists as eligible is always
  accepted: the pair is appended as it was built, its index is returned, and the project stays valid,
  so the code that takes a rejected pair back never runs.\<close>

theorem eligible_pair_is_accepted:
  assumes "project_ok (wz_config s)" and "tpc_leader t \<in> set (eligible_leader_channels_for s (tpc_policy t) None)"
    and "tpc_follower t \<in> set (eligible_follower_channels_for s (tpc_policy t) (Some (tpc_leader t)) None)"
    and "tpc_leader t \<noteq> tpc_follower t"
  shows "\<exists>s'. create_pairing s (Some t) = (s', Ok (Some (length (pj_pairings (wz_config s))))) \<and> project_ok (wz_config s')
    \<and> pj_pairings (wz_config s') = pj_pairings (wz_config s)
        @ [pairing_from_channels (pj_devices (wz_config s)) (tpc_policy t) (tpc_leader t) (tpc_follower t) (tpc_ratio t)]"
proof -
  note pushed = push_eligible [OF assms]
  obtain u where "project_validate (wz_config (push_pairing s t)) = Ok u"
    using pushed(1) by (cases "project_validate (wz_config (push_pairing s t))") (auto simp: project_ok_def)
  with assms have "create_pairing s (Some t) = (push_pairing s t, Ok (Some (length (pj_pairings (wz_config (push_pairing s t))) - 1)))"
    by (simp add: create_pairing_def create_pairing_from_def validated_or_def)
  with pushed show ?thesis by simp
qed

theorem eligible_pair_is_accepted_witness:
  "\<exists>s. create_pairing sample_setup (Some cartesian_pair) = (s, Ok (Some 0)) \<and> project_ok (wz_config s)
     \<and> pj_pairings (wz_config s) = [pairing_from_channels sample_devices Cartesian (''leader'', ''arm'') (''follower'', ''arm'') None]"
proof -
  have ok: "project_ok (wz_config sample_setup)" by (simp add: sample_setup_config unpaired_project_ok)
  have leader: "tpc_leader cartesian_pair \<in> set (eligible_leader_channels_for sample_setup (tpc_policy cartesian_pair) None)"
    and follower: "tpc_follower cartesian_pair
      \<in> set (eligible_follower_channels_for sample_setup (tpc_policy cartesian_pair) (Some (tpc_leader cartesian_pair)) None)"
    using setup_evaluations by blast+
  from eligible_pair_is_accepted [OF ok leader follower] show ?thesis
    by (simp add: sample_setup_config unpaired_project_def sample_project_def cartesian_pair_def)
qed

text \<open>C17: a save that returns has written the project of the session, serialized as it is, to the output
  file and changed no other file, and the wizard counts it as saved. Whether the project is valid
  does not matter: a save returns whenever the project serializes, the directory of the output file
  exists, its path is not a directory and the operating system refuses nothing.\<close>

theorem save_writes_session_project:
  assumes "sc_msg_type c = ''command''" and "sc_action c = ''setup_save''"
  shows "(\<forall>w' m. apply_command H w c = (w', Ok m) \<longrightarrow>
      (\<exists>doc. wh_toml H (wz_config (wiz_session w)) = Ok doc
        \<and> file_at (wiz_fs w') (resolve (wh_io H) (wz_output_path (wiz_session w))) = Some (bytes_of doc))
      \<and> (\<forall>q. q = resolve (wh_io H) (wz_output_path (wiz_session w)) \<or> file_at (wiz_fs w') q = file_at (wiz_fs w) q)
      \<and> wiz_session w' = mark_saved (wh_now H) (wiz_session w))
    \<and> (wh_toml H (wz_config (wiz_session w)) = Ok doc \<and> willing_host (wh_io H)
      \<and> resolve (wh_io H) (wz_output_path (wiz_session w)) \<noteq> []
      \<and> look (wiz_fs w) (butlast (resolve (wh_io H) (wz_output_path (wiz_session w)))) = Some Directory
      \<and> look (wiz_fs w) (resolve (wh_io H) (wz_output_path (wiz_session w))) \<noteq> Some Directory
      \<longrightarrow> (\<exists>w' m. apply_command H w c = (w', Ok m)))"
proof (intro conjI allI impI)
  fix w' m
  assume run: "apply_command H w c = (w', Ok m)"
  with assms obtain u where save: "save_project_config (wh_toml H) (wh_io H) (wz_config (wiz_session w))
      (wz_output_path (wiz_session w)) (wiz_fs w) = (wiz_fs w', Ok u)"
    and session: "wiz_session w' = mark_saved (wh_now H) (wiz_session w)"
    by (auto simp: apply_command_def split: prod.splits sum.splits)
  from save_project_config_writes [OF save]
  show "\<exists>doc. wh_toml H (wz_config (wiz_session w)) = Ok doc
        \<and> file_at (wiz_fs w') (resolve (wh_io H) (wz_output_path (wiz_session w))) = Some (bytes_of doc)"
    and "q = resolve (wh_io H) (wz_output_path (wiz_session w)) \<or> file_at (wiz_fs w') q = file_at (wiz_fs w) q" for q
    by metis+
  show "wiz_session w' = mark_saved (wh_now H) (wiz_session w)" by (rule session)
next
  assume "wh_toml H (wz_config (wiz_session w)) = Ok doc \<and> willing_host (wh_io H)
      \<and> resolve (wh_io H) (wz_output_path (wiz_session w)) \<noteq> []
      \<and> look (wiz_fs w) (butlast (resolve (wh_io H) (wz_output_path (wiz_session w)))) = Some Directory
      \<and> look (wiz_fs w) (resolve (wh_io H) (wz_output_path (wiz_session w))) \<noteq> Some Directory"
  then obtain fs' where "save_project_config (wh_toml H) (wh_io H) (wz_config (wiz_session w))
      (wz_output_path (wiz_session w)) (wiz_fs w) = (fs', Ok ())"
    using save_into_existing by metis
  then show "\<exists>w' m. apply_command H w c = (w', Ok m)"
    using assms by (simp add: apply_command_def)
qed

definition saving_command :: setup_command where
  "saving_command = naming_command\<lparr>sc_action := ''setup_save''\<rparr>"

definition empty_wizard :: wizard where
  "empty_wizard = sample_wizard\<lparr>wiz_session := sample_setup\<lparr>wz_config := unpaired_project\<lparr>pj_devices := []\<rparr>\<rparr>\<rparr>"

theorem save_writes_session_project_witness:
  "\<exists>w. apply_command setup_host empty_wizard saving_command = (w, Ok (mutation_state_only True))
     \<and> \<not> project_ok (wz_config (wiz_session empty_wizard))
     \<and> (\<exists>doc. wh_toml setup_host (wz_config (wiz_session empty_wizard)) = Ok doc
        \<and> file_at (wiz_fs w) [''home'', ''project.toml''] = Some (bytes_of doc))"
proof -
  have out: "resolve plain_host ''project.toml'' = [''home'', ''project.toml'']" using setup_evaluations by blast
  have "\<exists>w. apply_command setup_host empty_wizard saving_command = (w, Ok (mutation_state_only True))"
    by (simp add: apply_command_def saving_command_def naming_command_def empty_wizard_def sample_wizard_def setup_host_def
        save_project_config_def sample_setup_config out run_simps call_simps)
  then obtain w where run: "apply_command setup_host empty_wizard saving_command = (w, Ok (mutation_state_only True))" by blast
  have "\<not> project_ok (wz_config (wiz_session empty_wizard))"
    using project_ok_devices(1) by (fastforce simp: empty_wizard_def)
  have "sc_msg_type saving_command = ''command''" "sc_action saving_command = ''setup_save''"
    by (simp_all add: saving_command_def naming_command_def)
  note saved = save_writes_session_project [OF this, THEN conjunct1, rule_format, OF run, THEN conjunct1]
  from saved run \<open>\<not> project_ok _\<close> out show ?thesis
    by (simp add: empty_wizard_def setup_host_def sample_setup_config)
qed

section \<open>Episodes as MCAP files\<close>





section \<open>The processes of a session\<close>

text \<open>C32: the children the controller starts for an accepted project agree. In teleop mode the
  assembler is configured to record exactly the command streams that the routers are configured to
  publish, in order: same command kind, topic and channel. In intervention mode no router is
  started, while the assembler still expects one stream for every pairing.\<close>

theorem assembler_matches_routers:
  assumes "project_ok config" and "build_collect_specs P D config = Ok specs"
  shows "\<exists>doc s t. ph_toml_project P config = Ok doc \<and> children_named ''assembler'' specs = [s]
    \<and> ph_toml_assembler P (assembler_runtime_config_v2_of config doc) = Ok t \<and> inline_config s = Some t
    \<and> list_all2 (\<lambda>router s. \<exists>t. ph_toml_teleop P router = Ok t \<and> inline_config s = Some t)
        (planned_routers config) (children_named ''teleop-'' specs)
    \<and> (if pj_mode config = Teleop
       then map (\<lambda>a. (aact_command_kind a, aact_command_topic a, aact_channel_id a))
              (asm_actions (assembler_runtime_config_v2_of config doc))
          = map (\<lambda>t. (tel_follower_command_kind t, tel_follower_command_topic t, tel_follower_channel_id t)) (planned_routers config)
       else children_named ''teleop-'' specs = []
          \<and> length (asm_actions (assembler_runtime_config_v2_of config doc)) = length (pj_pairings config))"
proof -
  from assms(2) obtain doc assembler storage where plan: "ph_toml_project P config = Ok doc"
    "build_assembler_spec P D (assembler_runtime_config_v2_of config doc) = Ok assembler"
    "build_storage_spec P D (storage_runtime_config_of config) (ep_format (pj_episode config)) = Ok storage"
    "children_named ''assembler'' specs = [assembler]" "children_named ''storage'' specs = [storage]"
    "list_all2 (\<lambda>t s. build_teleop_spec P D t = Ok s) (planned_routers config) (children_named ''teleop-'' specs)"
    by (rule collect_plan)
  from plan(2) obtain t where "ph_toml_assembler P (assembler_runtime_config_v2_of config doc) = Ok t" "inline_config assembler = Some t"
    by (auto simp: build_assembler_spec_def bind_ok_Ok inline_config_def)
  moreover have "list_all2 (\<lambda>router s. \<exists>t. ph_toml_teleop P router = Ok t \<and> inline_config s = Some t)
        (planned_routers config) (children_named ''teleop-'' specs)"
    using plan(6) by (rule list_all2_mono) (auto simp: build_teleop_spec_def bind_ok_Ok inline_config_def)
  moreover have "children_named ''teleop-'' specs = []" if "pj_mode config \<noteq> Teleop"
    using plan(6) that by (simp add: planned_routers_def)
  ultimately show ?thesis
    using plan(1,4) actions_match_routers [OF assms(1), of doc] by (auto simp: planned_routers_def)
qed

theorem assembler_matches_routers_witness:
  "\<exists>specs. build_collect_specs sample_plan_host sample_plan_dirs teleop_project = Ok specs
     \<and> length (children_named ''teleop-'' specs) = 1"
proof -
  obtain specs where plan: "build_collect_specs sample_plan_host sample_plan_dirs teleop_project = Ok specs"
    using sample_plan by blast
  from assembler_matches_routers [OF sample_routers(2) plan]
  have "length (planned_routers teleop_project) = length (children_named ''teleop-'' specs)" by (auto dest: list_all2_lengthD)
  with plan sample_routers(1) show ?thesis by auto
qed

text \<open>C40: the storage process writes to the directory in which the controller looked for earlier
  episodes, whatever working directory either runs in, provided the controller was called from an
  absolute directory and the path has no \<open>..\<close>.\<close>

theorem storage_child_writes_probed_dataset:
  assumes "build_collect_specs P D config = Ok specs" and "resolve_storage_root config (pl_invocation_cwd D) = Some dataset"
    and "is_absolute (pl_invocation_cwd D)" and "''..'' \<notin> set (components dataset)"
  shows "\<exists>s c t p. children_named ''storage'' specs = [s] \<and> ph_toml_storage P c = Ok t \<and> inline_config s = Some t
    \<and> srt_output_path c = Some p \<and> (\<forall>h h'. resolve h p = resolve h' dataset)"
proof -
  from assms(1) obtain storage where plan:
    "build_storage_spec P D (storage_runtime_config_of config) (ep_format (pj_episode config)) = Ok storage"
    "children_named ''storage'' specs = [storage]" by (rule collect_plan)
  let ?p = "normalize_lexical dataset"
  from assms(2) obtain out where out: "st_output_path (pj_storage config) = Some out"
    "dataset = (if is_absolute out then out else join_path (pl_invocation_cwd D) out)"
    by (cases "st_output_path (pj_storage config)") (simp_all add: resolve_storage_root_def split: if_splits)
  then have "is_absolute dataset" using assms(3) by (auto simp: join_path_def is_absolute_def split: list.splits)
  note normal = normalize_absolute [OF this assms(4)]
  from plan(1) obtain t where "ph_toml_storage P ((storage_runtime_config_of config)\<lparr>srt_output_path := Some ?p\<rparr>) = Ok t"
    "inline_config storage = Some t"
    by (auto simp: build_storage_spec_def bind_ok_Ok Let_def inline_config_def storage_runtime_config_of_def out
        resolve_invocation_relative_path_def)
  moreover have "\<forall>h h'. resolve h ?p = resolve h' dataset" using normal \<open>is_absolute dataset\<close> by (simp add: resolve_def)
  ultimately show ?thesis using plan(2) by fastforce
qed

theorem storage_child_writes_probed_dataset_witness:
  "\<exists>specs s p. build_collect_specs sample_plan_host sample_plan_dirs teleop_project = Ok specs
     \<and> children_named ''storage'' specs = [s] \<and> inline_config s = Some p \<and> resolve plain_host p = [''home'', ''output'']"
proof -
  obtain specs where plan: "build_collect_specs sample_plan_host sample_plan_dirs teleop_project = Ok specs"
    using sample_plan by blast
  from storage_child_writes_probed_dataset [OF plan sample_plan_root] obtain s c t p where
    "children_named ''storage'' specs = [s]" "ph_toml_storage sample_plan_host c = Ok t" "inline_config s = Some t"
    "srt_output_path c = Some p" "resolve plain_host p = resolve plain_host ''/home/./output''"
    using sample_plan_paths by blast
  with plan sample_plan_paths show ?thesis by (auto simp: sample_plan_host_def)
qed

end
